(* ===== verification/Prelude.thy ===== *)
theory Prelude
  imports Main "HOL-Library.Word"
begin

text \<open>
  What the components share: fallible computations as sums (a throw is a value
  \<open>Inl e\<close>), the JavaScript string and array operations the code uses
  (\<open>slice\<close>, \<open>padStart\<close>, \<open>split\<close>, \<open>join\<close>,
  \<open>indexOf\<close>) and positional number notation (\<open>toString(16)\<close>,
  \<open>BigInt\<close> of a literal), each with the lemmas the component theories use.
\<close>

named_theorems res_simps \<open>elimination of the result combinators\<close>
named_theorems radix_simps \<open>positional notation: printing and reading\<close>

section \<open>Fallible computations\<close>

definition bind_res :: "'e + 'a \<Rightarrow> ('a \<Rightarrow> 'e + 'b) \<Rightarrow> 'e + 'b" where
  "bind_res m f = (case m of Inl e \<Rightarrow> Inl e | Inr x \<Rightarrow> f x)"

definition ensure :: "bool \<Rightarrow> 'e \<Rightarrow> 'e + unit" where
  "ensure b e = (if b then Inr () else Inl e)"

definition of_opt :: "'e \<Rightarrow> 'a option \<Rightarrow> 'e + 'a" where
  "of_opt e m = (case m of None \<Rightarrow> Inl e | Some x \<Rightarrow> Inr x)"

fun map_res :: "('a \<Rightarrow> 'e + 'b) \<Rightarrow> 'a list \<Rightarrow> 'e + 'b list" where
  "map_res f [] = Inr []"
| "map_res f (x # xs) = bind_res (f x) (\<lambda>y. bind_res (map_res f xs) (\<lambda>ys. Inr (y # ys)))"

lemma bind_res_Inl [simp]: "bind_res (Inl e) f = Inl e"
  by (simp add: bind_res_def)

lemma bind_res_Inr [simp]: "bind_res (Inr x) f = f x"
  by (simp add: bind_res_def)

lemma bind_res_Inr_iff [res_simps]:
  "bind_res m f = Inr y \<longleftrightarrow> (\<exists>x. m = Inr x \<and> f x = Inr y)"
  by (cases m) simp_all

lemma bind_res_Inl_iff [res_simps]:
  "bind_res m f = Inl e \<longleftrightarrow> m = Inl e \<or> (\<exists>x. m = Inr x \<and> f x = Inl e)"
  by (cases m) simp_all

lemma bind_res_cong: "m = m' \<Longrightarrow> (\<And>x. m' = Inr x \<Longrightarrow> f x = g x) \<Longrightarrow> bind_res m f = bind_res m' g"
  by (cases m') simp_all

lemma ensure_True [simp]: "ensure True e = Inr ()"
  by (simp add: ensure_def)

lemma ensure_False [simp]: "ensure False e = Inl e"
  by (simp add: ensure_def)

lemma ensure_Inr_iff [res_simps]: "ensure b e = Inr u \<longleftrightarrow> b"
  by (simp add: ensure_def)

lemma ensure_Inl_iff [res_simps]: "ensure b e = Inl e' \<longleftrightarrow> \<not> b \<and> e = e'"
  by (auto simp: ensure_def)

lemma of_opt_Some [simp]: "of_opt e (Some x) = Inr x"
  by (simp add: of_opt_def)

lemma of_opt_None [simp]: "of_opt e None = Inl e"
  by (simp add: of_opt_def)

lemma of_opt_Inr_iff [res_simps]: "of_opt e m = Inr x \<longleftrightarrow> m = Some x"
  by (cases m) simp_all

lemma of_opt_Inl_iff [res_simps]: "of_opt e m = Inl e' \<longleftrightarrow> m = None \<and> e = e'"
  by (cases m) auto

lemma map_res_all: "(\<And>x. x \<in> set xs \<Longrightarrow> f x = Inr (g x)) \<Longrightarrow> map_res f xs = Inr (map g xs)"
  by (induction xs) auto

lemma map_res_Inr_length: "map_res f xs = Inr ys \<Longrightarrow> length ys = length xs"
  by (induction xs arbitrary: ys) (auto simp: res_simps)

lemma map_res_Inr_in:
  "map_res f xs = Inr ys \<Longrightarrow> y \<in> set ys \<Longrightarrow> \<exists>x \<in> set xs. f x = Inr y"
  by (induction xs arbitrary: ys) (auto simp: res_simps)

lemma map_res_Inl_in: "map_res f xs = Inl e \<Longrightarrow> \<exists>x \<in> set xs. f x = Inl e"
  by (induction xs) (auto simp: res_simps)

section \<open>Strings and arrays\<close>

definition slice :: "nat \<Rightarrow> nat \<Rightarrow> 'a list \<Rightarrow> 'a list" where
  "slice a b xs = take (b - a) (drop a xs)"

definition padStart :: "nat \<Rightarrow> char \<Rightarrow> string \<Rightarrow> string" where
  "padStart n c s = replicate (n - length s) c @ s"

fun index_of :: "'a list \<Rightarrow> 'a \<Rightarrow> nat option" where
  "index_of [] x = None"
| "index_of (y # ys) x = (if y = x then Some 0 else map_option Suc (index_of ys x))"

lemma index_of_nth: "distinct xs \<Longrightarrow> n < length xs \<Longrightarrow> index_of xs (xs ! n) = Some n"
proof (induction xs arbitrary: n)
  case Nil
  then show ?case by simp
next
  case (Cons y ys)
  then show ?case by (cases n) auto
qed

lemma index_of_SomeD: "index_of xs x = Some n \<Longrightarrow> n < length xs \<and> xs ! n = x"
  by (induction xs arbitrary: n) (auto split: if_splits)

lemma index_of_None_iff: "index_of xs x = None \<longleftrightarrow> x \<notin> set xs"
  by (induction xs) auto

lemma index_of_in: "x \<in> set xs \<Longrightarrow> \<exists>n. index_of xs x = Some n"
  using index_of_None_iff [of xs x] by (cases "index_of xs x") auto

lemma length_slice [simp]: "length (slice a b xs) = min (b - a) (length xs - a)"
  by (simp add: slice_def min.commute)

lemma slice_0 [simp]: "slice 0 n xs = take n xs"
  by (simp add: slice_def)

lemma slice_append_mid: "length xs = a \<Longrightarrow> a + length ys = b \<Longrightarrow> slice a b (xs @ ys @ zs) = ys"
  by (auto simp: slice_def)

lemma length_padStart [simp]: "length (padStart n c s) = max n (length s)"
  by (simp add: padStart_def)

text \<open>\<open>s.split(c)\<close> with a one-character separator, and \<open>parts.join(c)\<close>.\<close>

fun js_split :: "char \<Rightarrow> string \<Rightarrow> string list" where
  "js_split c [] = [[]]"
| "js_split c (x # xs) =
     (if x = c then [] # js_split c xs
      else (case js_split c xs of [] \<Rightarrow> [[x]] | w # ws \<Rightarrow> (x # w) # ws))"

fun js_join :: "char \<Rightarrow> string list \<Rightarrow> string" where
  "js_join c [] = []"
| "js_join c [w] = w"
| "js_join c (w # v # ws) = w @ c # js_join c (v # ws)"

lemma js_split_nonempty [simp]: "js_split c s \<noteq> []"
  by (induction s) (auto split: list.splits)

lemma js_split_no_sep: "c \<notin> set s \<Longrightarrow> js_split c s = [s]"
  by (induction s) auto

lemma js_split_append_sep: "c \<notin> set w \<Longrightarrow> js_split c (w @ c # r) = w # js_split c r"
  by (induction w) (auto split: list.splits)

lemma js_split_join:
  "ws \<noteq> [] \<Longrightarrow> (\<forall>w \<in> set ws. c \<notin> set w) \<Longrightarrow> js_split c (js_join c ws) = ws"
  by (induction c ws rule: js_join.induct) (auto simp: js_split_no_sep js_split_append_sep)

lemma set_js_join: "set (js_join c ws) \<subseteq> insert c (\<Union> (set ` set ws))"
  by (induction c ws rule: js_join.induct) auto

section \<open>Positional notation\<close>

function digits :: "nat \<Rightarrow> nat \<Rightarrow> nat list" where
  "digits b n = (if b < 2 \<or> n < b then [n] else digits b (n div b) @ [n mod b])"
  by pat_completeness auto
termination
  by (relation "measure snd") auto

declare digits.simps [simp del]

definition of_digits :: "nat \<Rightarrow> nat list \<Rightarrow> nat" where
  "of_digits b ds = foldl (\<lambda>a d. a * b + d) 0 ds"

lemma of_digits_Nil [radix_simps]: "of_digits b [] = 0"
  by (simp add: of_digits_def)

lemma of_digits_snoc [radix_simps]: "of_digits b (ds @ [d]) = of_digits b ds * b + d"
  by (simp add: of_digits_def)

lemma of_digits_single [radix_simps]: "of_digits b [d] = d"
  by (simp add: of_digits_def)

lemma of_digits_foldl: "foldl (\<lambda>a d. a * b + d) x ds = x * b ^ length ds + of_digits b ds"
proof (induction ds arbitrary: x rule: rev_induct)
  case Nil
  then show ?case by (simp add: radix_simps)
next
  case (snoc d ds)
  then show ?case by (simp add: radix_simps algebra_simps)
qed

lemma of_digits_append:
  "of_digits b (xs @ ys) = of_digits b xs * b ^ length ys + of_digits b ys"
proof -
  have "of_digits b (xs @ ys) = foldl (\<lambda>a d. a * b + d) (of_digits b xs) ys"
    by (simp add: of_digits_def)
  then show ?thesis by (simp only: of_digits_foldl)
qed

lemma of_digits_zeros [radix_simps]: "of_digits b (replicate n 0 @ ds) = of_digits b ds"
proof (induction n)
  case 0
  then show ?case by simp
next
  case (Suc n)
  then show ?case by (simp add: of_digits_def)
qed

lemma of_digits_digits [radix_simps]: "of_digits b (digits b n) = n"
proof (induction b n rule: digits.induct)
  case (1 b n)
  show ?case
  proof (cases "b < 2 \<or> n < b")
    case True
    then show ?thesis by (subst digits.simps) (simp add: radix_simps)
  next
    case False
    with 1 have "of_digits b (digits b (n div b)) = n div b" by simp
    with False show ?thesis by (subst digits.simps) (simp add: radix_simps)
  qed
qed

lemma digits_bound: "2 \<le> b \<Longrightarrow> d \<in> set (digits b n) \<Longrightarrow> d < b"
proof (induction b n rule: digits.induct)
  case (1 b n)
  show ?case
  proof (cases "n < b")
    case True
    with 1(3) show ?thesis by (subst (asm) digits.simps) simp
  next
    case False
    with 1 have "d \<in> set (digits b (n div b)) \<or> d = n mod b"
      by (subst (asm) digits.simps) auto
    with False 1 show ?thesis by auto
  qed
qed

lemma digits_nonempty [simp]: "digits b n \<noteq> []"
  by (subst digits.simps) simp

lemma of_digits_bound:
  assumes "\<forall>d \<in> set ds. d < b"
  shows "of_digits b ds < b ^ length ds"
  using assms
proof (induction ds rule: rev_induct)
  case Nil
  then show ?case by (simp add: of_digits_def)
next
  case (snoc d ds)
  then have "of_digits b ds + 1 \<le> b ^ length ds" and "d < b" by auto
  then have "(of_digits b ds + 1) * b \<le> b ^ length ds * b" by (intro mult_right_mono) auto
  with \<open>d < b\<close> show ?case by (simp add: radix_simps algebra_simps)
qed

lemma digits_length_le:
  assumes "2 \<le> b" and "n < b ^ k" and "0 < k"
  shows "length (digits b n) \<le> k"
  using assms
proof (induction b n arbitrary: k rule: digits.induct)
  case (1 b n)
  show ?case
  proof (cases "n < b")
    case True
    with 1 show ?thesis by (subst digits.simps) simp
  next
    case False
    with 1(3) 1(4) have k: "1 < k"
      by (metis One_nat_def Suc_lessI power_one_right)
    have "n < b ^ (k - 1) * b"
      using 1(3) k by (metis Suc_diff_1 less_trans power_Suc2 zero_less_one)
    then have "n div b < b ^ (k - 1)"
      by (simp add: less_mult_imp_div_less)
    with 1(1) 1(2) False k have "length (digits b (n div b)) \<le> k - 1" by simp
    with False k 1(2) have "length (digits b n) = Suc (length (digits b (n div b)))"
      by (subst digits.simps) simp
    with \<open>length (digits b (n div b)) \<le> k - 1\<close> k show ?thesis by simp
  qed
qed

lemma digits_length_gt:
  assumes "2 \<le> b" and "b ^ k \<le> n"
  shows "k < length (digits b n)"
proof -
  have "of_digits b (digits b n) < b ^ length (digits b n)"
    using assms(1) by (intro of_digits_bound) (blast intro: digits_bound)
  then have less: "b ^ k < b ^ length (digits b n)"
    using assms(2) by (simp add: radix_simps)
  have "1 < b" using assms(1) by simp
  from this less show ?thesis by (rule power_less_imp_less_exp)
qed

definition digit_chars :: string where
  "digit_chars = ''0123456789abcdef''"

definition show_radix :: "nat \<Rightarrow> nat \<Rightarrow> string" where
  "show_radix b n = map (\<lambda>d. digit_chars ! d) (digits b n)"

definition hex_str :: "nat \<Rightarrow> string" where
  "hex_str n = show_radix 16 n"

definition dec_str :: "nat \<Rightarrow> string" where
  "dec_str n = show_radix 10 n"

text \<open>The value of one literal digit, either case, as \<open>BigInt\<close> reads it.\<close>

definition digit_val :: "char \<Rightarrow> nat option" where
  "digit_val c = (case index_of digit_chars c of
      Some d \<Rightarrow> Some d
    | None \<Rightarrow> map_option (\<lambda>d. d + 10) (index_of ''ABCDEF'' c))"

definition read_radix :: "nat \<Rightarrow> string \<Rightarrow> nat option" where
  "read_radix b s = (let ds = map digit_val s in
     if s = [] \<or> None \<in> set ds \<or> (\<exists>d \<in> set ds. b \<le> the d) then None
     else Some (of_digits b (map the ds)))"

lemma digit_val_nth:
  assumes "d < 16"
  shows "digit_val (digit_chars ! d) = Some d"
proof -
  have "list_all (\<lambda>d. digit_val (digit_chars ! d) = Some d) [0..<16]" by code_simp
  with assms show ?thesis by (simp add: list_all_iff)
qed

lemma read_show_radix [radix_simps]:
  assumes "2 \<le> b" and "b \<le> 16"
  shows "read_radix b (show_radix b n) = Some n"
proof -
  have "d < 16 \<and> d < b" if "d \<in> set (digits b n)" for d
    using digits_bound [OF assms(1) that] assms(2) by simp
  then have eq: "map digit_val (show_radix b n) = map Some (digits b n)"
    and lt: "\<not> (\<exists>d \<in> set (digits b n). b \<le> d)"
    by (auto simp: show_radix_def digit_val_nth not_le)
  from lt show ?thesis
    by (auto simp: read_radix_def eq Let_def comp_def radix_simps) (simp add: show_radix_def)
qed

lemma read_hex_str [simp]: "read_radix 16 (hex_str n) = Some n"
  by (simp add: hex_str_def radix_simps)

lemma read_dec_str [simp]: "read_radix 10 (dec_str n) = Some n"
  by (simp add: dec_str_def radix_simps)

lemma hex_str_nonempty [simp]: "hex_str n \<noteq> []"
  by (simp add: hex_str_def show_radix_def)

lemma dec_str_nonempty [simp]: "dec_str n \<noteq> []"
  by (simp add: dec_str_def show_radix_def)

lemma set_dec_str: "set (dec_str n) \<subseteq> set ''0123456789''"
proof -
  have "list_all (\<lambda>d. digit_chars ! d \<in> set ''0123456789'') [0..<10]" by code_simp
  then have "digit_chars ! d \<in> set ''0123456789''" if "d < 10" for d
    using that by (simp add: list_all_iff)
  then show ?thesis
    by (auto simp: dec_str_def show_radix_def dest!: digits_bound [rotated])
qed

lemma hex_str_inj: "hex_str m = hex_str n \<Longrightarrow> m = n"
  by (metis option.inject read_hex_str)

lemma dec_str_inj: "dec_str m = dec_str n \<Longrightarrow> m = n"
  by (metis option.inject read_dec_str)

end
