(* ===== verification/CesrBytes.thy ===== *)
theory CesrBytes
  imports Prelude
begin

text \<open>
  The byte layer of the CESR package: the parser error classes of
  \<^verbatim>\<open>cesr/src/core/errors.ts\<close> and the Base64/sextet codec of
  \<^verbatim>\<open>cesr/src/core/bytes.ts\<close>. A \<open>Uint8Array\<close> is a list of 8-bit words, a
  text is a list of characters (code units 0 to 255), and a thrown error is the value
  \<open>Inl\<close> of its class; message texts are not modelled. \<open>JsError\<close> stands for
  the plain \<open>Error\<close> and for the exceptions of \<open>atob\<close>.

  \<open>btoa\<close> and \<open>atob\<close> are the JavaScript library functions (padding, white
  space and alphabet as the forgiving-base64 algorithm has them); the lemmas reduce
  \<open>encodeB64\<close> and \<open>decodeB64\<close> to the sextet lists \<open>sextets\<close> and
  \<open>unsextets\<close>, and the round trips are proved there.
\<close>

section \<open>Errors\<close>

datatype cesr_error =
    ShortageError (needed: nat) (available: nat)
  | ColdStartError
  | VersionError
  | UnknownCodeError
  | GroupSizeError
  | DeserializeError
  | SerializeError
  | SyntaxParseError
  | SemanticInterpretationError
  | JsError

type_synonym byte = "8 word"
type_synonym 'a res = "cesr_error + 'a"

section \<open>Definitions\<close>

definition B64_ALPHABET :: string where
  "B64_ALPHABET = ''ABCDEFGHIJKLMNOPQRSTUVWXYZabcdefghijklmnopqrstuvwxyz0123456789-_''"

definition STD_ALPHABET :: string where
  "STD_ALPHABET = ''ABCDEFGHIJKLMNOPQRSTUVWXYZabcdefghijklmnopqrstuvwxyz0123456789+/''"

definition concatBytes :: "byte list list \<Rightarrow> byte list" where
  "concatBytes chunks = concat chunks"

text \<open>The \<open>do ... while\<close> loop of \<open>intToB64\<close>, most significant sextet last
  prepended.\<close>

function b64_loop :: "nat \<Rightarrow> string \<Rightarrow> string" where
  "b64_loop v out =
     (let out' = (B64_ALPHABET ! (v mod 64)) # out; v' = v div 64
      in if 0 < v' then b64_loop v' out' else out')"
  by pat_completeness auto
termination
  by (relation "measure fst") auto

declare b64_loop.simps [simp del]

definition intToB64 :: "int \<Rightarrow> nat \<Rightarrow> string res" where
  "intToB64 v len =
     (if v < 0 then Inl JsError
      else let out = b64_loop (nat v) []
        in if len < length out then Inl JsError else Inr (padStart len (CHR ''A'') out))"

fun b64ToInt_from :: "nat \<Rightarrow> string \<Rightarrow> nat res" where
  "b64ToInt_from out [] = Inr out"
| "b64ToInt_from out (ch # cs) =
     (case index_of B64_ALPHABET ch of
        None \<Rightarrow> Inl JsError
      | Some idx \<Rightarrow> b64ToInt_from (out * 64 + idx) cs)"

definition b64ToInt :: "string \<Rightarrow> nat res" where
  "b64ToInt s = b64ToInt_from 0 s"

fun sextets :: "byte list \<Rightarrow> nat list" where
  "sextets [] = []"
| "sextets [a] = [unat a div 4, unat a mod 4 * 16]"
| "sextets [a, b] = [unat a div 4, unat a mod 4 * 16 + unat b div 16, unat b mod 16 * 4]"
| "sextets (a # b # c # r) =
     [unat a div 4, unat a mod 4 * 16 + unat b div 16, unat b mod 16 * 4 + unat c div 64,
      unat c mod 64] @ sextets r"

fun unsextets :: "nat list \<Rightarrow> byte list" where
  "unsextets (p # q # r # s # t) =
     [of_nat (p * 4 + q div 16), of_nat (q mod 16 * 16 + r div 4), of_nat (r mod 4 * 64 + s)]
       @ unsextets t"
| "unsextets [p, q, r] = [of_nat (p * 4 + q div 16), of_nat (q mod 16 * 16 + r div 4)]"
| "unsextets [p, q] = [of_nat (p * 4 + q div 16)]"
| "unsextets [p] = []"
| "unsextets [] = []"

text \<open>\<open>btoa\<close>: standard alphabet, padded with \<open>=\<close> to a multiple of four.\<close>

definition btoa :: "byte list \<Rightarrow> string" where
  "btoa bs = map (\<lambda>v. STD_ALPHABET ! v) (sextets bs)
     @ replicate ((3 - length bs mod 3) mod 3) (CHR ''='')"

definition std_to_url :: "char \<Rightarrow> char" where
  "std_to_url c = (if c = CHR ''+'' then CHR ''-'' else if c = CHR ''/'' then CHR ''_'' else c)"

definition url_to_std :: "char \<Rightarrow> char" where
  "url_to_std c = (if c = CHR ''-'' then CHR ''+'' else if c = CHR ''_'' then CHR ''/'' else c)"

definition strip_trailing :: "char \<Rightarrow> string \<Rightarrow> string" where
  "strip_trailing c s = rev (dropWhile (\<lambda>x. x = c) (rev s))"

definition encodeB64 :: "byte list \<Rightarrow> string" where
  "encodeB64 bs = strip_trailing (CHR ''='') (map std_to_url (btoa bs))"

text \<open>\<open>atob\<close>: the forgiving-base64 decoder of the platform.\<close>

definition ascii_white :: "char \<Rightarrow> bool" where
  "ascii_white c \<longleftrightarrow>
     c = CHR 0x09 \<or> c = CHR 0x0A \<or> c = CHR 0x0C \<or> c = CHR 0x0D \<or> c = CHR '' ''"

definition strip_padding :: "string \<Rightarrow> string" where
  "strip_padding s =
     (if length s mod 4 = 0 \<and> s \<noteq> [] \<and> last s = CHR ''='' then
        (let s' = butlast s in if s' \<noteq> [] \<and> last s' = CHR ''='' then butlast s' else s')
      else s)"

definition atob :: "string \<Rightarrow> byte list res" where
  "atob s =
     (let d = strip_padding (filter (\<lambda>c. \<not> ascii_white c) s)
      in if length d mod 4 = 1 then Inl JsError
         else bind_res (map_res (\<lambda>c. of_opt JsError (index_of STD_ALPHABET c)) d)
                (\<lambda>vs. Inr (unsextets vs)))"

definition decodeB64 :: "string \<Rightarrow> byte list res" where
  "decodeB64 text =
     atob (map url_to_std (text @ drop ((length text + 3) mod 4) ''===''))"

text \<open>\<open>sceil((n * 3) / 4)\<close>.\<close>

definition sceil34 :: "nat \<Rightarrow> nat" where
  "sceil34 n = (n * 3 + 3) div 4"

definition codeB64ToB2 :: "string \<Rightarrow> byte list res" where
  "codeB64ToB2 text =
     (let n = sceil34 (length text);
          full = text @ replicate ((4 - length text mod 4) mod 4) (CHR ''A'')
      in bind_res (decodeB64 full) (\<lambda>bs. Inr (take n bs)))"

definition codeB2ToB64 :: "byte list \<Rightarrow> nat \<Rightarrow> string res" where
  "codeB2ToB64 bs sxts =
     (let n = sceil34 sxts
      in if length bs < n then Inl JsError
         else Inr (take sxts (encodeB64 (take n bs))))"

definition nabSextets :: "byte list \<Rightarrow> nat \<Rightarrow> byte list res" where
  "nabSextets bs sxts = bind_res (codeB2ToB64 bs sxts) codeB64ToB2"

text \<open>\<open>String.fromCharCode(...bytes)\<close> and the encoding of such a text.\<close>

definition char_of_byte :: "byte \<Rightarrow> char" where
  "char_of_byte w = char_of (unat w)"

definition byte_of_char :: "char \<Rightarrow> byte" where
  "byte_of_char c = of_nat (of_char c)"

definition bytesEqual :: "byte list \<Rightarrow> byte list \<Rightarrow> bool" where
  "bytesEqual l r \<longleftrightarrow> length l = length r \<and> (\<forall>i \<in> set [0..<length l]. l ! i = r ! i)"

definition bytesHex :: "byte list \<Rightarrow> string" where
  "bytesHex bs = concat (map (\<lambda>w. padStart 2 (CHR ''0'') (hex_str (unat w))) bs)"

text \<open>Shorthands of the statements: Base64 texts and the value of one of their characters.\<close>

definition is_b64 :: "string \<Rightarrow> bool" where
  "is_b64 s \<longleftrightarrow> set s \<subseteq> set B64_ALPHABET"

definition b64v :: "char \<Rightarrow> nat" where
  "b64v c = the (index_of B64_ALPHABET c)"

definition b64c :: "nat \<Rightarrow> char" where
  "b64c v = B64_ALPHABET ! v"

section \<open>The alphabets\<close>

lemma alphabet_facts:
  "distinct B64_ALPHABET" "distinct STD_ALPHABET"
  "length B64_ALPHABET = 64" "length STD_ALPHABET = 64"
  by code_simp+

lemma alphabet_table:
  assumes "v < 64"
  shows "url_to_std (b64c v) = STD_ALPHABET ! v"
    and "std_to_url (STD_ALPHABET ! v) = b64c v"
    and "b64c v \<noteq> CHR ''=''"
    and "\<not> ascii_white (STD_ALPHABET ! v)"
    and "STD_ALPHABET ! v \<noteq> CHR ''=''"
proof -
  have "list_all (\<lambda>v. url_to_std (b64c v) = STD_ALPHABET ! v
      \<and> std_to_url (STD_ALPHABET ! v) = b64c v \<and> b64c v \<noteq> CHR ''=''
      \<and> \<not> ascii_white (STD_ALPHABET ! v) \<and> STD_ALPHABET ! v \<noteq> CHR ''='') [0..<64]"
    by code_simp
  with assms show "url_to_std (b64c v) = STD_ALPHABET ! v"
    and "std_to_url (STD_ALPHABET ! v) = b64c v"
    and "b64c v \<noteq> CHR ''=''"
    and "\<not> ascii_white (STD_ALPHABET ! v)"
    and "STD_ALPHABET ! v \<noteq> CHR ''=''"
    by (auto simp: list_all_iff)
qed

lemma index_of_b64c [simp]: "v < 64 \<Longrightarrow> index_of B64_ALPHABET (b64c v) = Some v"
  by (simp add: b64c_def index_of_nth alphabet_facts)

lemma b64v_b64c [simp]: "v < 64 \<Longrightarrow> b64v (b64c v) = v"
  by (simp add: b64v_def)

lemma b64c_in [simp]: "v < 64 \<Longrightarrow> b64c v \<in> set B64_ALPHABET"
  by (simp add: b64c_def alphabet_facts)

lemma b64v_in:
  assumes "c \<in> set B64_ALPHABET"
  shows "b64v c < 64" and "b64c (b64v c) = c" and "index_of B64_ALPHABET c = Some (b64v c)"
proof -
  from index_of_in [OF assms] obtain n where n: "index_of B64_ALPHABET c = Some n" by blast
  from index_of_SomeD [OF n] n show "b64v c < 64" "b64c (b64v c) = c"
    "index_of B64_ALPHABET c = Some (b64v c)"
    by (auto simp: b64v_def b64c_def alphabet_facts)
qed

lemma is_b64_simps [simp]:
  "is_b64 []" "is_b64 (c # s) \<longleftrightarrow> c \<in> set B64_ALPHABET \<and> is_b64 s"
  "is_b64 (s @ t) \<longleftrightarrow> is_b64 s \<and> is_b64 t"
  "is_b64 (replicate n c) \<longleftrightarrow> n = 0 \<or> c \<in> set B64_ALPHABET"
  by (auto simp: is_b64_def)

lemma A_in_alphabet [simp]: "CHR ''A'' \<in> set B64_ALPHABET" "b64v (CHR ''A'') = 0"
  "b64c 0 = CHR ''A''"
  by code_simp+

lemma is_b64_take [simp]: "is_b64 s \<Longrightarrow> is_b64 (take n s)"
  by (auto simp: is_b64_def dest: in_set_takeD)

lemma is_b64_drop [simp]: "is_b64 s \<Longrightarrow> is_b64 (drop n s)"
  by (auto simp: is_b64_def dest: in_set_dropD)

lemma is_b64_map_b64c: "\<forall>v \<in> set vs. v < 64 \<Longrightarrow> is_b64 (map b64c vs)"
  by (auto simp: is_b64_def)

lemma map_b64c_b64v: "is_b64 s \<Longrightarrow> map b64c (map b64v s) = s"
  by (induction s) (auto simp: b64v_in)

lemma map_b64v_b64c: "\<forall>v \<in> set vs. v < 64 \<Longrightarrow> map b64v (map b64c vs) = vs"
  by (induction vs) auto

section \<open>Integers\<close>

lemma b64_loop_digits: "b64_loop v out = map b64c (digits 64 v) @ out"
proof (induction v out rule: b64_loop.induct)
  case (1 v out)
  show ?case
  proof (cases "v < 64")
    case True
    then show ?thesis
      by (subst b64_loop.simps, subst digits.simps) (simp add: Let_def b64c_def)
  next
    case False
    then have "0 < v div 64" by (simp add: div_greater_zero_iff)
    with 1 False show ?thesis
      by (subst b64_loop.simps, subst digits.simps) (simp add: Let_def b64c_def)
  qed
qed

lemma b64ToInt_from_b64: "is_b64 s \<Longrightarrow>
  b64ToInt_from a s = Inr (a * 64 ^ length s + of_digits 64 (map b64v s))"
proof (induction s arbitrary: a)
  case Nil
  then show ?case by (simp add: radix_simps)
next
  case (Cons c s)
  then show ?case
    using of_digits_append [of 64 "[b64v c]" "map b64v s"]
    by (simp add: b64v_in radix_simps algebra_simps)
qed

lemma b64ToInt_b64: "is_b64 s \<Longrightarrow> b64ToInt s = Inr (of_digits 64 (map b64v s))"
  by (simp add: b64ToInt_def b64ToInt_from_b64)

lemma b64ToInt_from_err: "\<not> is_b64 s \<Longrightarrow> b64ToInt_from a s = Inl JsError"
proof (induction s arbitrary: a)
  case Nil
  then show ?case by simp
next
  case (Cons c s)
  then show ?case
    using index_of_None_iff [of B64_ALPHABET c] by (cases "c \<in> set B64_ALPHABET") (auto simp: b64v_in)
qed

lemma b64ToInt_err: "\<not> is_b64 s \<Longrightarrow> b64ToInt s = Inl JsError"
  by (simp add: b64ToInt_def b64ToInt_from_err)

lemma b64ToInt_InrD: "b64ToInt s = Inr n \<Longrightarrow> is_b64 s \<and> n < 64 ^ length s"
  by (cases "is_b64 s")
    (auto simp: b64ToInt_b64 b64ToInt_err is_b64_def b64v_in(1) subset_iff
      intro: of_digits_bound [of "map b64v s" 64, simplified])

lemma intToB64_ok:
  assumes "n < 64 ^ len" and "0 < len"
  shows "intToB64 (int n) len = Inr (padStart len (CHR ''A'') (map b64c (digits 64 n)))"
  using digits_length_le [OF _ assms]
  by (simp add: intToB64_def b64_loop_digits)

lemma intToB64_too_big:
  assumes "64 ^ len \<le> n"
  shows "intToB64 (int n) len = Inl JsError"
  using digits_length_gt [OF _ assms]
  by (simp add: intToB64_def b64_loop_digits)

lemma digits_64_bound: "\<forall>v \<in> set (digits 64 n). v < 64"
  by (blast intro: digits_bound [of 64, simplified])

lemma intToB64_Inr:
  assumes "intToB64 (int n) len = Inr s" and "0 < len"
  shows "length s = len \<and> is_b64 s \<and> b64ToInt s = Inr n \<and> n < 64 ^ len"
proof -
  have lt: "n < 64 ^ len"
    using intToB64_too_big [of len n] assms(1) by (cases "n < 64 ^ len") auto
  note s = assms(1) [unfolded intToB64_ok [OF lt assms(2)]]
  have le: "length (digits 64 n) \<le> len" using digits_length_le [OF _ lt assms(2)] by simp
  have b: "is_b64 s"
    using s is_b64_map_b64c [OF digits_64_bound] by (auto simp: padStart_def)
  have "map b64v s = replicate (len - length (digits 64 n)) 0 @ digits 64 n"
    using s map_b64v_b64c [OF digits_64_bound] by (auto simp: padStart_def)
  with b have "b64ToInt s = Inr n" by (simp add: b64ToInt_b64 radix_simps)
  with s le lt b show ?thesis by auto
qed

section \<open>Sextets\<close>

lemma unat_byte [simp]: "unat (w :: byte) < 256"
  using unsigned_less [of w] by simp

lemma unat_of_nat_byte: "k < 256 \<Longrightarrow> unat (of_nat k :: byte) = k"
  by (rule of_nat_inverse) simp_all

lemma of_nat_unat_byte: "of_nat (unat w) = (w :: byte)"
  by simp

lemma merge1: fixes a x :: nat assumes "x < 16" shows "a div 4 * 4 + (a mod 4 * 16 + x) div 16 = a"
  using assms by simp
lemma merge2: fixes b x :: nat assumes "x < 4" "b < 256"
  shows "(k * 16 + b div 16) mod 16 * 16 + (b mod 16 * 4 + x) div 4 = b"
proof -
  have "b div 16 < 16" using assms by simp
  then show ?thesis using assms by simp
qed
lemma merge3: fixes c k :: nat assumes "c < 256"
  shows "(k * 4 + c div 64) mod 4 * 64 + c mod 64 = c"
proof -
  have "c div 64 < 4" using assms by simp
  then show ?thesis by simp
qed

lemma split_quad:
  fixes p q r s :: nat
  assumes "p < 64" "q < 64" "r < 64" "s < 64"
  shows "p * 4 + q div 16 < 256" "q mod 16 * 16 + r div 4 < 256" "r mod 4 * 64 + s < 256"
    "(p * 4 + q div 16) div 4 = p"
    "(p * 4 + q div 16) mod 4 * 16 + (q mod 16 * 16 + r div 4) div 16 = q"
    "(q mod 16 * 16 + r div 4) mod 16 * 4 + (r mod 4 * 64 + s) div 64 = r"
    "(r mod 4 * 64 + s) mod 64 = s"
    "r mod 4 = 0 \<Longrightarrow> (q mod 16 * 16 + r div 4) mod 16 * 4 = r"
    "q mod 16 = 0 \<Longrightarrow> (p * 4 + q div 16) mod 4 * 16 = q"
proof -
  have b: "q div 16 < 4" "r div 4 < 16" using assms by auto
  have m: "q mod 16 < 16" "r mod 4 < 4" by auto
  show "p * 4 + q div 16 < 256" using assms b by linarith
  show "q mod 16 * 16 + r div 4 < 256" using m b by linarith
  show "r mod 4 * 64 + s < 256" using m assms by linarith
  show "(p * 4 + q div 16) div 4 = p" using b by simp
  show "(p * 4 + q div 16) mod 4 * 16 + (q mod 16 * 16 + r div 4) div 16 = q" using b by simp
  show "(q mod 16 * 16 + r div 4) mod 16 * 4 + (r mod 4 * 64 + s) div 64 = r" using b assms by simp
  show "(r mod 4 * 64 + s) mod 64 = s" using assms by simp
  show "r mod 4 = 0 \<Longrightarrow> (q mod 16 * 16 + r div 4) mod 16 * 4 = r" using b by (simp add: mod_eq_0_iff_dvd)
  show "q mod 16 = 0 \<Longrightarrow> (p * 4 + q div 16) mod 4 * 16 = q" using b by (simp add: mod_eq_0_iff_dvd)
qed
lemma sextets_bound: "\<forall>v \<in> set (sextets bs). v < 64"
proof (induction bs rule: sextets.induct)
  case (4 a b c r)
  have "unat a < 256" "unat b div 16 < 16" "unat c div 64 < 4"
    "unat a mod 4 < 4" "unat b mod 16 < 16"
    using unat_byte [of a] unat_byte [of b] unat_byte [of c] by (auto simp del: unat_byte)
  then have "unat a div 4 < 64" "unat a mod 4 * 16 + unat b div 16 < 64"
    "unat b mod 16 * 4 + unat c div 64 < 64" by linarith+
  with 4 show ?case by simp
next
  case (3 a b)
  have "unat a < 256" "unat b div 16 < 16" "unat a mod 4 < 4" "unat b mod 16 < 16"
    using unat_byte [of a] unat_byte [of b] by (auto simp del: unat_byte)
  then have "unat a div 4 < 64" "unat a mod 4 * 16 + unat b div 16 < 64"
    "unat b mod 16 * 4 < 64" by linarith+
  then show ?case by simp
next
  case (2 a)
  have "unat a < 256" "unat a mod 4 < 4" by auto
  then have "unat a div 4 < 64" "unat a mod 4 * 16 < 64" by linarith+
  then show ?case by simp
qed simp

lemma length_sextets: "length (sextets bs) = (4 * length bs + 2) div 3"
  by (induction bs rule: sextets.induct) auto

lemma length_unsextets: "length (unsextets vs) = 3 * length vs div 4"
  by (induction vs rule: unsextets.induct) auto

lemma unsextets_sextets [simp]: "unsextets (sextets bs) = bs"
proof (induction bs rule: sextets.induct)
  case (2 a)
  show ?case using merge1 [of 0 "unat a"] by simp
next
  case (3 a b)
  have "unat b div 16 < 16" using unat_byte [of b] by (simp del: unat_byte)
  then show ?case
    using merge2 [of 0 "unat b" "unat a mod 4"] by (simp add: merge1 del: div_mult_self4)
next
  case (4 a b c r)
  have "unat b div 16 < 16" "unat c div 64 < 4"
    using unat_byte [of b] unat_byte [of c] by (auto simp del: unat_byte)
  with 4 show ?case by (simp only: sextets.simps append_Cons append_Nil unsextets.simps merge1
        merge2 [OF _ unat_byte] merge3 [OF unat_byte] of_nat_unat_byte)
qed simp

text \<open>A sextet list is canonical when it is what some byte list encodes to: whole quads, or
  two or three trailing sextets with zero pad bits.\<close>

definition canonical :: "nat list \<Rightarrow> bool" where
  "canonical vs \<longleftrightarrow> (\<forall>v \<in> set vs. v < 64) \<and>
     (length vs mod 4 = 0 \<or> length vs mod 4 = 2 \<and> last vs mod 16 = 0
      \<or> length vs mod 4 = 3 \<and> last vs mod 4 = 0)"

lemma canonical_quad:
  "canonical (p # q # r # s # t) \<Longrightarrow> canonical t \<and> p < 64 \<and> q < 64 \<and> r < 64 \<and> s < 64"
  by (cases "t = []") (auto simp: canonical_def)

lemma sextets_unsextets: "canonical vs \<Longrightarrow> sextets (unsextets vs) = vs"
proof (induction vs rule: unsextets.induct)
  case (1 p q r s t)
  then have l: "canonical t" "p < 64" "q < 64" "r < 64" "s < 64"
    using canonical_quad by blast+
  note q = split_quad [OF l(2-5)]
  from 1 l(1) show ?case
    by (simp only: unsextets.simps append_Cons append_Nil sextets.simps q
        unat_of_nat_byte [OF q(1)] unat_of_nat_byte [OF q(2)] unat_of_nat_byte [OF q(3)])
next
  case (2 p q r)
  then have l: "p < 64" "q < 64" "r < 64" "r mod 4 = 0" by (auto simp: canonical_def)
  note q = split_quad [OF l(1-3), of 0]
  show ?case
    by (simp only: unsextets.simps append_Cons append_Nil sextets.simps q(4,5) q(8) [OF _ l(4)]
        unat_of_nat_byte [OF q(1)] unat_of_nat_byte [OF q(2)] zero_less_numeral)
next
  case (3 p q)
  then have l: "p < 64" "q < 64" "q mod 16 = 0" by (auto simp: canonical_def)
  note q = split_quad [OF l(1,2), of 0 0]
  show ?case
    by (simp only: unsextets.simps append_Cons append_Nil sextets.simps q(4) q(9) [OF _ _ l(3)]
        unat_of_nat_byte [OF q(1)] zero_less_numeral)
qed (auto simp: canonical_def)

lemma sceil34_simps [simp]:
  "sceil34 0 = 0" "sceil34 (Suc 0) = Suc 0" "sceil34 (Suc (Suc 0)) = Suc (Suc 0)"
  "sceil34 (Suc (Suc (Suc 0))) = Suc (Suc (Suc 0))"
  "sceil34 (Suc (Suc (Suc (Suc j)))) = Suc (Suc (Suc (sceil34 j)))"
  by (simp_all add: sceil34_def)

lemma nat_mod4_cases:
  obtains "k = 0" | "k = Suc 0" | "k = Suc (Suc 0)" | "k = Suc (Suc (Suc 0))"
    | j where "k = Suc (Suc (Suc (Suc j)))"
  by (metis not0_implies_Suc)

lemma take_sextets_prefix: "take k (sextets (take (sceil34 k) bs)) = take k (sextets bs)"
proof (induction bs arbitrary: k rule: sextets.induct)
  case (4 a b c r)
  then show ?case by (cases k rule: nat_mod4_cases) simp_all
next
  case (3 a b)
  show ?case by (cases k rule: nat_mod4_cases) simp_all
next
  case (2 a)
  show ?case by (cases k rule: nat_mod4_cases) simp_all
qed simp

lemma zero_prefix_sextets:
  assumes "k \<le> 3"
  shows "take k (sextets (replicate k 0 @ bs)) = replicate k 0"
proof (cases k rule: nat_mod4_cases)
  case 2
  show ?thesis by (cases "0 # bs" rule: sextets.cases) (simp_all add: 2)
next
  case 3
  show ?thesis by (cases bs) (simp_all add: 3)
qed (use assms in simp_all)

section \<open>The codec on Base64 texts\<close>

lemma strip_trailing_append:
  "c \<notin> set s \<Longrightarrow> strip_trailing c (s @ replicate k c) = s"
proof -
  assume c: "c \<notin> set s"
  have "dropWhile (\<lambda>x. x = c) (replicate k c @ rev s) = dropWhile (\<lambda>x. x = c) (rev s)"
    by (induction k) auto
  also have "\<dots> = rev s" using c by (cases "rev s") (auto simp: dropWhile_eq_self_iff)
  finally show ?thesis by (simp add: strip_trailing_def)
qed

lemma encodeB64_sextets: "encodeB64 bs = map b64c (sextets bs)"
proof -
  have "map std_to_url (map ((!) STD_ALPHABET) (sextets bs)) = map b64c (sextets bs)"
    using sextets_bound [of bs] by (auto simp: alphabet_table)
  moreover have "CHR ''='' \<notin> set (map b64c (sextets bs))"
    using sextets_bound [of bs] alphabet_table(3) by fastforce
  ultimately show ?thesis
    by (simp add: encodeB64_def btoa_def std_to_url_def strip_trailing_append)
qed

lemma is_b64_encodeB64 [simp]: "is_b64 (encodeB64 bs)"
  by (simp add: encodeB64_sextets is_b64_map_b64c sextets_bound)

lemma length_encodeB64: "length (encodeB64 bs) = (4 * length bs + 2) div 3"
  by (simp add: encodeB64_sextets length_sextets)

lemma map_b64v_encodeB64 [simp]: "map b64v (encodeB64 bs) = sextets bs"
  by (simp add: encodeB64_sextets map_b64v_b64c sextets_bound del: map_map)

lemma b64v_bound: "is_b64 t \<Longrightarrow> \<forall>v \<in> set (map b64v t). v < 64"
  by (auto simp: is_b64_def b64v_in)

lemma url_to_std_b64: "is_b64 t \<Longrightarrow> map url_to_std t = map ((!) STD_ALPHABET) (map b64v t)"
  by (induction t) (auto simp: b64v_in alphabet_table(1) [of "b64v _", symmetric])

lemma strip_padding_append:
  assumes "CHR ''='' \<notin> set s" and "length s mod 4 \<noteq> 1"
  shows "strip_padding (s @ drop ((length s + 3) mod 4) ''==='') = s"
proof -
  have "length s mod 4 = 0 \<or> length s mod 4 = 2 \<or> length s mod 4 = 3"
    using assms(2) by presburger
  then show ?thesis
  proof (elim disjE)
    assume "length s mod 4 = 0"
    moreover from this have "(length s + 3) mod 4 = 3" by presburger
    ultimately show ?thesis
      using assms(1) by (cases "s = []") (auto simp: strip_padding_def dest: last_in_set)
  next
    assume "length s mod 4 = 2"
    moreover from this have "(length s + 3) mod 4 = Suc 0" "(length s + 2) mod 4 = 0" by presburger+
    ultimately show ?thesis
      using assms(1) by (simp add: strip_padding_def butlast_append)
  next
    assume "length s mod 4 = 3"
    moreover from this have "(length s + 3) mod 4 = Suc (Suc 0)" "(length s + 1) mod 4 = 0"
      by presburger+
    ultimately show ?thesis
      using assms(1) by (cases "s = []") (auto simp: strip_padding_def butlast_append dest: last_in_set)
  qed
qed

lemma atob_std:
  assumes "\<forall>v \<in> set vs. v < 64" and "length vs mod 4 \<noteq> 1"
  shows "atob (map ((!) STD_ALPHABET) vs @ drop ((length vs + 3) mod 4) ''==='') = Inr (unsextets vs)"
proof -
  let ?s = "map ((!) STD_ALPHABET) vs"
  have "filter (\<lambda>c. \<not> ascii_white c) (?s @ drop ((length vs + 3) mod 4) ''==='')
      = ?s @ drop ((length vs + 3) mod 4) ''==='' "
  proof -
    have "\<not> ascii_white c" if "c \<in> set (drop k ''==='')" for c k
      using in_set_dropD [OF that] by (auto simp: ascii_white_def)
    then show ?thesis using assms(1) alphabet_table(4) by (auto simp: filter_id_conv)
  qed
  moreover have "strip_padding (?s @ drop ((length vs + 3) mod 4) ''==='') = ?s"
    using strip_padding_append [of ?s] assms alphabet_table(5) by fastforce
  moreover have "map_res (\<lambda>c. of_opt JsError (index_of STD_ALPHABET c)) ?s = Inr vs"
    using assms(1) by (induction vs) (auto simp: index_of_nth alphabet_facts)
  ultimately show ?thesis using assms(2) by (simp add: atob_def Let_def)
qed

lemma decodeB64_b64:
  assumes "is_b64 t" and "length t mod 4 \<noteq> 1"
  shows "decodeB64 t = Inr (unsextets (map b64v t))"
proof -
  have "map url_to_std (drop k ''==='') = drop k ''==='' " for k
    unfolding drop_map [symmetric] by (simp add: url_to_std_def)
  then show ?thesis
    using atob_std [OF b64v_bound [OF assms(1)]] assms
    by (simp add: decodeB64_def url_to_std_b64 del: map_map)
qed

lemma decodeB64_len1:
  assumes "is_b64 t" and "length t mod 4 = 1"
  shows "decodeB64 t = Inl JsError"
proof -
  obtain q where q: "length t = 4 * q + 1" using assms(2) by (metis mult_div_mod_eq)
  let ?s = "map ((!) STD_ALPHABET) (map b64v t)"
  have "map url_to_std (t @ drop ((length t + 3) mod 4) ''==='') = ?s @ ''==='' "
    using url_to_std_b64 [OF assms(1)] by (simp add: q url_to_std_def)
  moreover have "filter (\<lambda>c. \<not> ascii_white c) (?s @ ''==='') = ?s @ ''==='' "
    using b64v_bound [OF assms(1)] alphabet_table(4) by (auto simp: filter_id_conv ascii_white_def)
  moreover have "strip_padding (?s @ ''==='') = ?s @ ''='' "
    by (simp add: strip_padding_def butlast_append q)
  moreover have "length (?s @ ''='') mod 4 = 2" using q by (simp, presburger)
  moreover have "map_res (\<lambda>c. of_opt JsError (index_of STD_ALPHABET c)) (?s @ ''='') = Inl JsError"
  proof -
    have e: "index_of STD_ALPHABET (CHR ''='') = None" by code_simp
    have "map_res (\<lambda>c. of_opt JsError (index_of STD_ALPHABET c))
        (map ((!) STD_ALPHABET) vs @ ''='') = Inl JsError" if "\<forall>v \<in> set vs. v < 64" for vs
      using that by (induction vs) (auto simp: index_of_nth alphabet_facts e)
    from this [OF b64v_bound [OF assms(1)]] show ?thesis .
  qed
  ultimately show ?thesis by (simp only: decodeB64_def atob_def Let_def) simp
qed

lemma sextets_length_mod: "length (sextets bs) mod 4 \<noteq> 1"
  by (induction bs rule: sextets.induct) auto

theorem decode_encodeB64: "decodeB64 (encodeB64 bs) = Inr bs"
  using decodeB64_b64 [OF is_b64_encodeB64, of bs] sextets_length_mod [of bs]
  by (simp add: length_encodeB64 length_sextets)

lemma encode_decodeB64:
  assumes "is_b64 t" and "canonical (map b64v t)" and "decodeB64 t = Inr bs"
  shows "encodeB64 bs = t"
proof -
  from assms(2) have "length t mod 4 \<noteq> 1" by (auto simp: canonical_def)
  with assms show ?thesis
    by (simp add: decodeB64_b64 encodeB64_sextets sextets_unsextets map_b64c_b64v flip: map_map)
      (metis Inr_inject encodeB64_sextets map_b64c_b64v sextets_unsextets)
qed

section \<open>The qb2 domain\<close>

lemma sceil34_le: "sceil34 n \<le> n"
  unfolding sceil34_def by presburger

lemma sceil34_mono: "m \<le> n \<Longrightarrow> sceil34 m \<le> sceil34 n"
  unfolding sceil34_def by (intro div_le_mono) simp

lemma sceil34_pos: "0 < n \<Longrightarrow> 0 < sceil34 n"
  unfolding sceil34_def by presburger

lemma sceil34_mult4: "n mod 4 = 0 \<Longrightarrow> sceil34 n = n div 4 * 3"
  unfolding sceil34_def by presburger

definition qb2_of :: "string \<Rightarrow> byte list" where
  "qb2_of t = take (sceil34 (length t))
     (unsextets (map b64v t @ replicate ((4 - length t mod 4) mod 4) 0))"

lemma pad4: "n + (4 - n mod 4) mod 4 = (n + 3) div 4 * (4 :: nat)"
proof -
  obtain q r where n: "n = 4 * q + r" "r < 4" by (metis mod_less_divisor mult_div_mod_eq zero_less_numeral)
  have "n mod 4 = r" "(n + 3) div 4 = q + (r + 3) div 4" using n by simp_all
  moreover from n(2) have "r = 0 \<or> r = 1 \<or> r = 2 \<or> r = 3" by linarith
  ultimately show ?thesis using n by (elim disjE) simp_all
qed

lemma codeB64ToB2_b64: "is_b64 t \<Longrightarrow> codeB64ToB2 t = Inr (qb2_of t)"
proof -
  assume t: "is_b64 t"
  let ?k = "(4 - length t mod 4) mod 4"
  have "(length t + ?k) mod 4 = 0" unfolding pad4 by simp
  with t show ?thesis
    by (simp add: codeB64ToB2_def decodeB64_b64 qb2_of_def Let_def)
qed

lemma canonical_mod4: "\<forall>v \<in> set vs. v < 64 \<Longrightarrow> length vs mod 4 = 0 \<Longrightarrow> canonical vs"
  by (simp add: canonical_def)

lemma length_qb2_of: "length (qb2_of t) = sceil34 (length t)"
  unfolding qb2_of_def length_take length_unsextets sceil34_def length_append length_map
    length_replicate pad4
  by simp

lemma take_encodeB64_qb2_of:
  assumes "is_b64 t" and "k \<le> length t"
  shows "take k (encodeB64 (take (sceil34 k) (qb2_of t @ rest))) = take k t"
proof -
  let ?z = "replicate ((4 - length t mod 4) mod 4) (0 :: nat)"
  let ?vs = "map b64v t @ ?z"
  have can: "canonical ?vs"
    using b64v_bound [OF assms(1)] by (intro canonical_mod4) (auto simp: pad4)
  have "take (sceil34 k) (qb2_of t @ rest) = take (sceil34 k) (unsextets ?vs)"
    using sceil34_mono [OF assms(2)] by (simp add: length_qb2_of) (simp add: qb2_of_def min_def)
  then have "take k (sextets (take (sceil34 k) (qb2_of t @ rest))) = take k (sextets (unsextets ?vs))"
    using take_sextets_prefix [of k "unsextets ?vs"] by simp
  also have "\<dots> = map b64v (take k t)"
    using assms(2) by (simp add: sextets_unsextets [OF can] take_map)
  finally show ?thesis
    using assms(1) by (simp add: encodeB64_sextets take_map map_b64c_b64v del: map_map)
qed

theorem codeB2ToB64_qb2:
  assumes "is_b64 t" and "k \<le> length t"
  shows "codeB2ToB64 (qb2_of t @ rest) k = Inr (take k t)"
  using take_encodeB64_qb2_of [OF assms] sceil34_mono [OF assms(2)]
  by (simp add: codeB2ToB64_def Let_def length_qb2_of)

lemma codeB2ToB64_Inr:
  "codeB2ToB64 bs n = Inr s \<Longrightarrow> is_b64 s \<and> sceil34 n \<le> length bs"
  by (auto simp: codeB2ToB64_def Let_def split: if_splits)

lemma codeB2ToB64_short: "length bs < sceil34 k \<Longrightarrow> codeB2ToB64 bs k = Inl JsError"
  by (simp add: codeB2ToB64_def Let_def)

lemma nabSextets_qb2:
  "is_b64 t \<Longrightarrow> k \<le> length t \<Longrightarrow> nabSextets (qb2_of t @ rest) k = Inr (qb2_of (take k t))"
  by (simp add: nabSextets_def codeB2ToB64_qb2 codeB64ToB2_b64)

lemma codeB64ToB2_Inr_length:
  "is_b64 t \<Longrightarrow> codeB64ToB2 t = Inr bs \<Longrightarrow> length bs = sceil34 (length t)"
  by (simp add: codeB64ToB2_b64) (auto simp: length_qb2_of)

section \<open>Byte and hexadecimal text\<close>

lemma char_of_byte_of_char [simp]: "char_of_byte (byte_of_char c) = c"
  by (simp add: char_of_byte_def byte_of_char_def unat_of_nat_byte)

lemma byte_of_char_of_byte [simp]: "byte_of_char (char_of_byte w) = w"
  by (simp add: char_of_byte_def byte_of_char_def)

lemma bytesEqual_iff: "bytesEqual l r \<longleftrightarrow> l = r"
  unfolding bytesEqual_def by (auto intro: nth_equalityI)

end
