(* ===== verification/CesrTables.thy ===== *)
theory CesrTables
  imports CesrBytes
begin

text \<open>
  The CESR code tables, transcribed from \<^verbatim>\<open>cesr/src/tables\<close>: the sizages of the
  Matter, Indexer and Counter codes, the hard-code widths of
  \<^verbatim>\<open>hard-code-tables.ts\<close>, the code names and the codex families the primitives
  check membership in. A \<open>Map\<close> or object literal is the association list of its
  entries in source order and is read with \<open>map_of\<close>; \<open>codexValues\<close> is the
  set of the codes of a codex. The lemmas state what the codecs rely on: the tables are
  functions, and every entry's widths agree with the hard-code table.
\<close>

section \<open>Sizages\<close>

record sizage =
  m_hs :: nat
  m_ss :: nat
  m_xs :: nat
  m_fs :: "nat option"
  m_ls :: nat

record xizage =
  i_hs :: nat
  i_ss :: nat
  i_os :: nat
  i_fs :: "nat option"
  i_ls :: nat

record cizage =
  c_hs :: nat
  c_ss :: nat
  c_fs :: nat

definition mz :: "nat \<Rightarrow> nat \<Rightarrow> nat \<Rightarrow> nat option \<Rightarrow> nat \<Rightarrow> sizage" where
  "mz h s x f l = \<lparr>m_hs = h, m_ss = s, m_xs = x, m_fs = f, m_ls = l\<rparr>"

definition iz :: "nat \<Rightarrow> nat \<Rightarrow> nat \<Rightarrow> nat option \<Rightarrow> nat \<Rightarrow> xizage" where
  "iz h s x f l = \<lparr>i_hs = h, i_ss = s, i_os = x, i_fs = f, i_ls = l\<rparr>"

definition cz :: "nat \<Rightarrow> nat \<Rightarrow> nat \<Rightarrow> cizage" where
  "cz h s f = \<lparr>c_hs = h, c_ss = s, c_fs = f\<rparr>"

section \<open>Hard-code widths\<close>

definition letters_hs :: "(string \<times> nat) list" where
  "letters_hs =
     map (\<lambda>c. ([c], 1)) ''ABCDEFGHIJKLMNOPQRSTUVWXYZ''
     @ map (\<lambda>c. ([c], 1)) ''abcdefghijklmnopqrstuvwxyz''"

definition MATTER_HARDS :: "(string \<times> nat) list" where
  "MATTER_HARDS = letters_hs
     @ [(''0'', 2), (''1'', 4), (''2'', 4), (''3'', 4), (''4'', 2), (''5'', 2), (''6'', 2),
        (''7'', 4), (''8'', 4), (''9'', 4)]"

definition INDEXER_HARDS :: "(string \<times> nat) list" where
  "INDEXER_HARDS = letters_hs
     @ [(''0'', 2), (''1'', 2), (''2'', 2), (''3'', 2), (''4'', 2)]"

definition COUNTER_HARDS :: "(string \<times> nat) list" where
  "COUNTER_HARDS =
     map (\<lambda>c. ([CHR ''-'', c], 2)) ''ABCDEFGHIJKLMNOPQRSTUVWXYZabcdefghijklmnopqrstuvwxyz''
     @ [(''--'', 3), (''-_'', 5)]"

section \<open>Generated tables\<close>

definition MATTER_SIZES :: "(string \<times> sizage) list" where
  "MATTER_SIZES = [
    (''0A'', mz 2 0 0 (Some 24) 0), (''0B'', mz 2 0 0 (Some 88) 0), (''0C'', mz 2 0 0 (Some 88) 0),
    (''0D'', mz 2 0 0 (Some 88) 0), (''0E'', mz 2 0 0 (Some 88) 0), (''0F'', mz 2 0 0 (Some 88) 0),
    (''0G'', mz 2 0 0 (Some 88) 0), (''0H'', mz 2 0 0 (Some 8) 0), (''0I'', mz 2 0 0 (Some 88) 0),
    (''0J'', mz 2 2 1 (Some 4) 0), (''0K'', mz 2 2 0 (Some 4) 0), (''0L'', mz 2 6 1 (Some 8) 0),
    (''0M'', mz 2 6 0 (Some 8) 0), (''0N'', mz 2 10 1 (Some 12) 0), (''0O'', mz 2 10 0 (Some 12) 0),
    (''0P'', mz 2 22 0 (Some 32) 0), (''0Q'', mz 2 22 0 (Some 28) 0), (''0R'', mz 2 22 0 (Some 76) 0),
    (''0S'', mz 2 22 0 (Some 72) 0), (''1___'', mz 4 0 0 (Some 8) 0), (''1__-'', mz 4 2 0 (Some 12) 0),
    (''1AAA'', mz 4 0 0 (Some 48) 0), (''1AAB'', mz 4 0 0 (Some 48) 0), (''1AAC'', mz 4 0 0 (Some 80) 0),
    (''1AAD'', mz 4 0 0 (Some 80) 0), (''1AAE'', mz 4 0 0 (Some 156) 0), (''1AAF'', mz 4 4 0 (Some 8) 0),
    (''1AAG'', mz 4 0 0 (Some 36) 0), (''1AAH'', mz 4 0 0 (Some 100) 0), (''1AAI'', mz 4 0 0 (Some 48) 0),
    (''1AAJ'', mz 4 0 0 (Some 48) 0), (''1AAK'', mz 4 0 0 (Some 4) 0), (''1AAL'', mz 4 0 0 (Some 4) 0),
    (''1AAM'', mz 4 0 0 (Some 4) 0), (''1AAN'', mz 4 8 0 (Some 12) 0), (''1AAO'', mz 4 0 0 (Some 4) 0),
    (''1AAP'', mz 4 0 0 (Some 4) 0), (''2___'', mz 4 0 0 (Some 8) 1), (''2__-'', mz 4 2 1 (Some 12) 1),
    (''3___'', mz 4 0 0 (Some 8) 2), (''3__-'', mz 4 2 0 (Some 12) 2), (''4A'', mz 2 2 0 None 0),
    (''4B'', mz 2 2 0 None 0), (''4C'', mz 2 2 0 None 0), (''4D'', mz 2 2 0 None 0),
    (''4E'', mz 2 2 0 None 0), (''4F'', mz 2 2 0 None 0), (''4H'', mz 2 2 0 None 0),
    (''5A'', mz 2 2 0 None 1), (''5B'', mz 2 2 0 None 1), (''5C'', mz 2 2 0 None 1),
    (''5D'', mz 2 2 0 None 1), (''5E'', mz 2 2 0 None 1), (''5F'', mz 2 2 0 None 1),
    (''5H'', mz 2 2 0 None 1), (''6A'', mz 2 2 0 None 2), (''6B'', mz 2 2 0 None 2),
    (''6C'', mz 2 2 0 None 2), (''6D'', mz 2 2 0 None 2), (''6E'', mz 2 2 0 None 2),
    (''6F'', mz 2 2 0 None 2), (''6H'', mz 2 2 0 None 2), (''7AAA'', mz 4 4 0 None 0),
    (''7AAB'', mz 4 4 0 None 0), (''7AAC'', mz 4 4 0 None 0), (''7AAD'', mz 4 4 0 None 0),
    (''7AAE'', mz 4 4 0 None 0), (''7AAF'', mz 4 4 0 None 0), (''7AAH'', mz 4 4 0 None 0),
    (''8AAA'', mz 4 4 0 None 1), (''8AAB'', mz 4 4 0 None 1), (''8AAC'', mz 4 4 0 None 1),
    (''8AAD'', mz 4 4 0 None 1), (''8AAE'', mz 4 4 0 None 1), (''8AAF'', mz 4 4 0 None 1),
    (''8AAH'', mz 4 4 0 None 1), (''9AAA'', mz 4 4 0 None 2), (''9AAB'', mz 4 4 0 None 2),
    (''9AAC'', mz 4 4 0 None 2), (''9AAD'', mz 4 4 0 None 2), (''9AAE'', mz 4 4 0 None 2),
    (''9AAF'', mz 4 4 0 None 2), (''9AAH'', mz 4 4 0 None 2), (''a'', mz 1 0 0 (Some 44) 0),
    (''A'', mz 1 0 0 (Some 44) 0), (''B'', mz 1 0 0 (Some 44) 0), (''C'', mz 1 0 0 (Some 44) 0),
    (''D'', mz 1 0 0 (Some 44) 0), (''E'', mz 1 0 0 (Some 44) 0), (''F'', mz 1 0 0 (Some 44) 0),
    (''G'', mz 1 0 0 (Some 44) 0), (''H'', mz 1 0 0 (Some 44) 0), (''I'', mz 1 0 0 (Some 44) 0),
    (''J'', mz 1 0 0 (Some 44) 0), (''K'', mz 1 0 0 (Some 76) 0), (''L'', mz 1 0 0 (Some 76) 0),
    (''M'', mz 1 0 0 (Some 4) 0), (''N'', mz 1 0 0 (Some 12) 0), (''O'', mz 1 0 0 (Some 44) 0),
    (''P'', mz 1 0 0 (Some 124) 0), (''Q'', mz 1 0 0 (Some 44) 0), (''R'', mz 1 0 0 (Some 8) 0),
    (''S'', mz 1 0 0 (Some 16) 0), (''T'', mz 1 0 0 (Some 20) 0), (''U'', mz 1 0 0 (Some 24) 0),
    (''V'', mz 1 0 0 (Some 4) 1), (''W'', mz 1 0 0 (Some 4) 0), (''X'', mz 1 3 0 (Some 4) 0),
    (''Y'', mz 1 7 0 (Some 8) 0), (''Z'', mz 1 11 0 (Some 12) 0)]"

definition MATTER_CODE_NAMES :: "(string \<times> string) list" where
  "MATTER_CODE_NAMES = [
    (''0A'', ''Salt_128''), (''0B'', ''Ed25519_Sig''), (''0C'', ''ECDSA_256k1_Sig''),
    (''0D'', ''Blake3_512''), (''0E'', ''Blake2b_512''), (''0F'', ''SHA3_512''),
    (''0G'', ''SHA2_512''), (''0H'', ''Long''), (''0I'', ''ECDSA_256r1_Sig''),
    (''0J'', ''Tag1''), (''0K'', ''Tag2''), (''0L'', ''Tag5''),
    (''0M'', ''Tag6''), (''0N'', ''Tag9''), (''0O'', ''Tag10''),
    (''0P'', ''GramHeadNeck''), (''0Q'', ''GramHead''), (''0R'', ''GramHeadAIDNeck''),
    (''0S'', ''GramHeadAID''), (''1___'', ''TBD0''), (''1__-'', ''TBD0S''),
    (''1AAA'', ''ECDSA_256k1N''), (''1AAB'', ''ECDSA_256k1''), (''1AAC'', ''Ed448N''),
    (''1AAD'', ''Ed448''), (''1AAE'', ''Ed448_Sig''), (''1AAF'', ''Tag4''),
    (''1AAG'', ''DateTime''), (''1AAH'', ''X25519_Cipher_Salt''), (''1AAI'', ''ECDSA_256r1N''),
    (''1AAJ'', ''ECDSA_256r1''), (''1AAK'', ''Null''), (''1AAL'', ''No''),
    (''1AAM'', ''Yes''), (''1AAN'', ''Tag8''), (''1AAO'', ''Escape''),
    (''1AAP'', ''Empty''), (''2___'', ''TBD1''), (''2__-'', ''TBD1S''),
    (''3___'', ''TBD2''), (''3__-'', ''TBD2S''), (''4A'', ''StrB64_L0''),
    (''4B'', ''Bytes_L0''), (''4C'', ''X25519_Cipher_L0''), (''4D'', ''X25519_Cipher_QB64_L0''),
    (''4E'', ''X25519_Cipher_QB2_L0''), (''4F'', ''HPKEBase_Cipher_L0''), (''4H'', ''Decimal_L0''),
    (''5A'', ''StrB64_L1''), (''5B'', ''Bytes_L1''), (''5C'', ''X25519_Cipher_L1''),
    (''5D'', ''X25519_Cipher_QB64_L1''), (''5E'', ''X25519_Cipher_QB2_L1''), (''5F'', ''HPKEBase_Cipher_L1''),
    (''5H'', ''Decimal_L1''), (''6A'', ''StrB64_L2''), (''6B'', ''Bytes_L2''),
    (''6C'', ''X25519_Cipher_L2''), (''6D'', ''X25519_Cipher_QB64_L2''), (''6E'', ''X25519_Cipher_QB2_L2''),
    (''6F'', ''HPKEBase_Cipher_L2''), (''6H'', ''Decimal_L2''), (''7AAA'', ''StrB64_Big_L0''),
    (''7AAB'', ''Bytes_Big_L0''), (''7AAC'', ''X25519_Cipher_Big_L0''), (''7AAD'', ''X25519_Cipher_QB64_Big_L0''),
    (''7AAE'', ''X25519_Cipher_QB2_Big_L0''), (''7AAF'', ''HPKEBase_Cipher_Big_L0''), (''7AAH'', ''Decimal_Big_L0''),
    (''8AAA'', ''StrB64_Big_L1''), (''8AAB'', ''Bytes_Big_L1''), (''8AAC'', ''X25519_Cipher_Big_L1''),
    (''8AAD'', ''X25519_Cipher_QB64_Big_L1''), (''8AAE'', ''X25519_Cipher_QB2_Big_L1''), (''8AAF'', ''HPKEBase_Cipher_Big_L1''),
    (''8AAH'', ''Decimal_Big_L1''), (''9AAA'', ''StrB64_Big_L2''), (''9AAB'', ''Bytes_Big_L2''),
    (''9AAC'', ''X25519_Cipher_Big_L2''), (''9AAD'', ''X25519_Cipher_QB64_Big_L2''), (''9AAE'', ''X25519_Cipher_QB2_Big_L2''),
    (''9AAF'', ''HPKEBase_Cipher_Big_L2''), (''9AAH'', ''Decimal_Big_L2''), (''a'', ''Salt_256''),
    (''A'', ''Ed25519_Seed''), (''B'', ''Ed25519N''), (''C'', ''X25519''),
    (''D'', ''Ed25519''), (''E'', ''Blake3_256''), (''F'', ''Blake2b_256''),
    (''G'', ''Blake2s_256''), (''H'', ''SHA3_256''), (''I'', ''SHA2_256''),
    (''J'', ''ECDSA_256k1_Seed''), (''K'', ''Ed448_Seed''), (''L'', ''X448''),
    (''M'', ''Short''), (''N'', ''Big''), (''O'', ''X25519_Private''),
    (''P'', ''X25519_Cipher_Seed''), (''Q'', ''ECDSA_256r1_Seed''), (''R'', ''Tall''),
    (''S'', ''Large''), (''T'', ''Great''), (''U'', ''Vast''),
    (''V'', ''Label1''), (''W'', ''Label2''), (''X'', ''Tag3''),
    (''Y'', ''Tag7''), (''Z'', ''Tag11'')]"

definition INDEXER_SIZES :: "(string \<times> xizage) list" where
  "INDEXER_SIZES = [
    (''0A'', iz 2 2 1 (Some 156) 0), (''0B'', iz 2 2 1 (Some 156) 0), (''0z'', iz 2 2 0 None 0),
    (''1z'', iz 2 2 1 (Some 76) 1), (''2A'', iz 2 4 2 (Some 92) 0), (''2B'', iz 2 4 2 (Some 92) 0),
    (''2C'', iz 2 4 2 (Some 92) 0), (''2D'', iz 2 4 2 (Some 92) 0), (''2E'', iz 2 4 2 (Some 92) 0),
    (''2F'', iz 2 4 2 (Some 92) 0), (''3A'', iz 2 6 3 (Some 160) 0), (''3B'', iz 2 6 3 (Some 160) 0),
    (''4z'', iz 2 6 3 (Some 80) 1), (''A'', iz 1 1 0 (Some 88) 0), (''B'', iz 1 1 0 (Some 88) 0),
    (''C'', iz 1 1 0 (Some 88) 0), (''D'', iz 1 1 0 (Some 88) 0), (''E'', iz 1 1 0 (Some 88) 0),
    (''F'', iz 1 1 0 (Some 88) 0)]"

definition COUNTER_SIZES_V1 :: "(string \<times> cizage) list" where
  "COUNTER_SIZES_V1 = [
    (''-_AAA'', cz 5 3 8), (''--L'', cz 3 5 8), (''--T'', cz 3 5 8), (''--U'', cz 3 5 8),
    (''--V'', cz 3 5 8), (''--W'', cz 3 5 8), (''--Z'', cz 3 5 8), (''-A'', cz 2 2 4),
    (''-B'', cz 2 2 4), (''-C'', cz 2 2 4), (''-D'', cz 2 2 4), (''-E'', cz 2 2 4),
    (''-F'', cz 2 2 4), (''-G'', cz 2 2 4), (''-H'', cz 2 2 4), (''-I'', cz 2 2 4),
    (''-J'', cz 2 2 4), (''-K'', cz 2 2 4), (''-L'', cz 2 2 4), (''-T'', cz 2 2 4),
    (''-U'', cz 2 2 4), (''-V'', cz 2 2 4), (''-W'', cz 2 2 4), (''-Z'', cz 2 2 4)]"

definition COUNTER_SIZES_V2 :: "(string \<times> cizage) list" where
  "COUNTER_SIZES_V2 = [
    (''-_AAA'', cz 5 3 8), (''--a'', cz 3 5 8), (''--A'', cz 3 5 8), (''--b'', cz 3 5 8),
    (''--B'', cz 3 5 8), (''--c'', cz 3 5 8), (''--C'', cz 3 5 8), (''--D'', cz 3 5 8),
    (''--E'', cz 3 5 8), (''--F'', cz 3 5 8), (''--H'', cz 3 5 8), (''--I'', cz 3 5 8),
    (''--J'', cz 3 5 8), (''--K'', cz 3 5 8), (''--L'', cz 3 5 8), (''--M'', cz 3 5 8),
    (''--N'', cz 3 5 8), (''--O'', cz 3 5 8), (''--P'', cz 3 5 8), (''--Q'', cz 3 5 8),
    (''--R'', cz 3 5 8), (''--S'', cz 3 5 8), (''--T'', cz 3 5 8), (''--U'', cz 3 5 8),
    (''--V'', cz 3 5 8), (''--W'', cz 3 5 8), (''--X'', cz 3 5 8), (''--Y'', cz 3 5 8),
    (''--Z'', cz 3 5 8), (''-a'', cz 2 2 4), (''-A'', cz 2 2 4), (''-b'', cz 2 2 4),
    (''-B'', cz 2 2 4), (''-c'', cz 2 2 4), (''-C'', cz 2 2 4), (''-D'', cz 2 2 4),
    (''-E'', cz 2 2 4), (''-F'', cz 2 2 4), (''-G'', cz 2 2 4), (''-H'', cz 2 2 4),
    (''-I'', cz 2 2 4), (''-J'', cz 2 2 4), (''-K'', cz 2 2 4), (''-L'', cz 2 2 4),
    (''-M'', cz 2 2 4), (''-N'', cz 2 2 4), (''-O'', cz 2 2 4), (''-P'', cz 2 2 4),
    (''-Q'', cz 2 2 4), (''-R'', cz 2 2 4), (''-S'', cz 2 2 4), (''-T'', cz 2 2 4),
    (''-U'', cz 2 2 4), (''-V'', cz 2 2 4), (''-W'', cz 2 2 4), (''-X'', cz 2 2 4),
    (''-Y'', cz 2 2 4), (''-Z'', cz 2 2 4)]"

definition COUNTER_CODE_NAMES_V1 :: "(string \<times> string) list" where
  "COUNTER_CODE_NAMES_V1 = [
    (''-_AAA'', ''KERIACDCGenusVersion''), (''--L'', ''BigPathedMaterialCouples''),
    (''--T'', ''BigGenericGroup''), (''--U'', ''BigBodyWithAttachmentGroup''),
    (''--V'', ''BigAttachmentGroup''), (''--W'', ''BigNonNativeBodyGroup''),
    (''--Z'', ''BigESSRPayloadGroup''), (''-A'', ''ControllerIdxSigs''),
    (''-B'', ''WitnessIdxSigs''), (''-C'', ''NonTransReceiptCouples''),
    (''-D'', ''TransReceiptQuadruples''), (''-E'', ''FirstSeenReplayCouples''),
    (''-F'', ''TransIdxSigGroups''), (''-G'', ''SealSourceCouples''),
    (''-H'', ''TransLastIdxSigGroups''), (''-I'', ''SealSourceTriples''),
    (''-J'', ''SadPathSig''), (''-K'', ''SadPathSigGroup''),
    (''-L'', ''PathedMaterialCouples''), (''-T'', ''GenericGroup''),
    (''-U'', ''BodyWithAttachmentGroup''), (''-V'', ''AttachmentGroup''),
    (''-W'', ''NonNativeBodyGroup''), (''-Z'', ''ESSRPayloadGroup'')]"

definition COUNTER_CODE_NAMES_V2 :: "(string \<times> string) list" where
  "COUNTER_CODE_NAMES_V2 = [
    (''-_AAA'', ''KERIACDCGenusVersion''), (''--a'', ''BigBlindedStateQuadruples''),
    (''--A'', ''BigGenericGroup''), (''--b'', ''BigBoundStateSextuples''),
    (''--B'', ''BigBodyWithAttachmentGroup''), (''--c'', ''BigTypedMediaQuadruples''),
    (''--C'', ''BigAttachmentGroup''), (''--D'', ''BigDatagramSegmentGroup''),
    (''--E'', ''BigESSRWrapperGroup''), (''--F'', ''BigFixBodyGroup''),
    (''--G'', ''BigMapBodyGroup''), (''--H'', ''BigNonNativeBodyGroup''),
    (''--I'', ''BigGenericMapGroup''), (''--J'', ''BigGenericListGroup''),
    (''--K'', ''BigControllerIdxSigs''), (''--L'', ''BigWitnessIdxSigs''),
    (''--M'', ''BigNonTransReceiptCouples''), (''--N'', ''BigTransReceiptQuadruples''),
    (''--O'', ''BigFirstSeenReplayCouples''), (''--P'', ''BigPathedMaterialCouples''),
    (''--Q'', ''BigDigestSealSingles''), (''--R'', ''BigMerkleRootSealSingles''),
    (''--S'', ''BigSealSourceCouples''), (''--T'', ''BigSealSourceTriples''),
    (''--U'', ''BigSealSourceLastSingles''), (''--V'', ''BigBackerRegistrarSealCouples''),
    (''--W'', ''BigTypedDigestSealCouples''), (''--X'', ''BigTransIdxSigGroups''),
    (''--Y'', ''BigTransLastIdxSigGroups''), (''--Z'', ''BigESSRPayloadGroup''),
    (''-a'', ''BlindedStateQuadruples''), (''-A'', ''GenericGroup''),
    (''-b'', ''BoundStateSextuples''), (''-B'', ''BodyWithAttachmentGroup''),
    (''-c'', ''TypedMediaQuadruples''), (''-C'', ''AttachmentGroup''),
    (''-D'', ''DatagramSegmentGroup''), (''-E'', ''ESSRWrapperGroup''),
    (''-F'', ''FixBodyGroup''), (''-G'', ''MapBodyGroup''),
    (''-H'', ''NonNativeBodyGroup''), (''-I'', ''GenericMapGroup''),
    (''-J'', ''GenericListGroup''), (''-K'', ''ControllerIdxSigs''),
    (''-L'', ''WitnessIdxSigs''), (''-M'', ''NonTransReceiptCouples''),
    (''-N'', ''TransReceiptQuadruples''), (''-O'', ''FirstSeenReplayCouples''),
    (''-P'', ''PathedMaterialCouples''), (''-Q'', ''DigestSealSingles''),
    (''-R'', ''MerkleRootSealSingles''), (''-S'', ''SealSourceCouples''),
    (''-T'', ''SealSourceTriples''), (''-U'', ''SealSourceLastSingles''),
    (''-V'', ''BackerRegistrarSealCouples''), (''-W'', ''TypedDigestSealCouples''),
    (''-X'', ''TransIdxSigGroups''), (''-Y'', ''TransLastIdxSigGroups''),
    (''-Z'', ''ESSRPayloadGroup'')]"

definition SmallVarRawSizeCodex :: "(string \<times> string) list" where
  "SmallVarRawSizeCodex = [
    (''Lead0'', ''4''), (''Lead1'', ''5''), (''Lead2'', ''6'')]"

definition LargeVarRawSizeCodex :: "(string \<times> string) list" where
  "LargeVarRawSizeCodex = [
    (''Lead0_Big'', ''7''), (''Lead1_Big'', ''8''), (''Lead2_Big'', ''9'')]"

definition BextCodex :: "(string \<times> string) list" where
  "BextCodex = [
    (''StrB64_Big_L0'', ''7AAA''), (''StrB64_Big_L1'', ''8AAA''), (''StrB64_Big_L2'', ''9AAA''),
    (''StrB64_L0'', ''4A''), (''StrB64_L1'', ''5A''), (''StrB64_L2'', ''6A'')]"

definition DecimalCodex :: "(string \<times> string) list" where
  "DecimalCodex = [
    (''Decimal_Big_L0'', ''7AAH''), (''Decimal_Big_L1'', ''8AAH''), (''Decimal_Big_L2'', ''9AAH''),
    (''Decimal_L0'', ''4H''), (''Decimal_L1'', ''5H''), (''Decimal_L2'', ''6H'')]"

definition DigCodex :: "(string \<times> string) list" where
  "DigCodex = [
    (''Blake2b_256'', ''F''), (''Blake2b_512'', ''0E''), (''Blake2s_256'', ''G''),
    (''Blake3_256'', ''E''), (''Blake3_512'', ''0D''), (''SHA2_256'', ''I''),
    (''SHA2_512'', ''0G''), (''SHA3_256'', ''H''), (''SHA3_512'', ''0F'')]"

definition NumCodex :: "(string \<times> string) list" where
  "NumCodex = [
    (''Big'', ''N''), (''Great'', ''T''), (''Huge'', ''0A''),
    (''Large'', ''S''), (''Long'', ''0H''), (''Short'', ''M''),
    (''Tall'', ''R''), (''Vast'', ''U'')]"

definition TagCodex :: "(string \<times> string) list" where
  "TagCodex = [
    (''Tag1'', ''0J''), (''Tag10'', ''0O''), (''Tag11'', ''Z''),
    (''Tag2'', ''0K''), (''Tag3'', ''X''), (''Tag4'', ''1AAF''),
    (''Tag5'', ''0L''), (''Tag6'', ''0M''), (''Tag7'', ''Y''),
    (''Tag8'', ''1AAN''), (''Tag9'', ''0N'')]"

definition PreCodex :: "(string \<times> string) list" where
  "PreCodex = [
    (''Blake2b_256'', ''F''), (''Blake2b_512'', ''0E''), (''Blake2s_256'', ''G''),
    (''Blake3_256'', ''E''), (''Blake3_512'', ''0D''), (''ECDSA_256k1'', ''1AAB''),
    (''ECDSA_256k1N'', ''1AAA''), (''ECDSA_256r1'', ''1AAJ''), (''ECDSA_256r1N'', ''1AAI''),
    (''Ed25519'', ''D''), (''Ed25519N'', ''B''), (''Ed448'', ''1AAD''),
    (''Ed448_Sig'', ''1AAE''), (''Ed448N'', ''1AAC''), (''SHA2_256'', ''I''),
    (''SHA2_512'', ''0G''), (''SHA3_256'', ''H''), (''SHA3_512'', ''0F'')]"

definition NonTransCodex :: "(string \<times> string) list" where
  "NonTransCodex = [
    (''ECDSA_256k1N'', ''1AAA''), (''ECDSA_256r1N'', ''1AAI''), (''Ed25519N'', ''B''),
    (''Ed448N'', ''1AAC'')]"

definition PreNonDigCodex :: "(string \<times> string) list" where
  "PreNonDigCodex = [
    (''ECDSA_256k1'', ''1AAB''), (''ECDSA_256k1N'', ''1AAA''), (''ECDSA_256r1'', ''1AAJ''),
    (''ECDSA_256r1N'', ''1AAI''), (''Ed25519'', ''D''), (''Ed25519N'', ''B''),
    (''Ed448'', ''1AAD''), (''Ed448N'', ''1AAC'')]"

definition IndexedSigCodex :: "(string \<times> string) list" where
  "IndexedSigCodex = [
    (''ECDSA_256k1_Big_Crt_Sig'', ''2D''), (''ECDSA_256k1_Big_Sig'', ''2C''), (''ECDSA_256k1_Crt_Sig'', ''D''),
    (''ECDSA_256k1_Sig'', ''C''), (''ECDSA_256r1_Big_Crt_Sig'', ''2F''), (''ECDSA_256r1_Big_Sig'', ''2E''),
    (''ECDSA_256r1_Crt_Sig'', ''F''), (''ECDSA_256r1_Sig'', ''E''), (''Ed25519_Big_Crt_Sig'', ''2B''),
    (''Ed25519_Big_Sig'', ''2A''), (''Ed25519_Crt_Sig'', ''B''), (''Ed25519_Sig'', ''A''),
    (''Ed448_Big_Crt_Sig'', ''3B''), (''Ed448_Big_Sig'', ''3A''), (''Ed448_Crt_Sig'', ''0B''),
    (''Ed448_Sig'', ''0A'')]"

definition IndexedCurrentSigCodex :: "(string \<times> string) list" where
  "IndexedCurrentSigCodex = [
    (''ECDSA_256k1_Big_Crt_Sig'', ''2D''), (''ECDSA_256k1_Crt_Sig'', ''D''), (''ECDSA_256r1_Big_Crt_Sig'', ''2F''),
    (''ECDSA_256r1_Crt_Sig'', ''F''), (''Ed25519_Big_Crt_Sig'', ''2B''), (''Ed25519_Crt_Sig'', ''B''),
    (''Ed448_Big_Crt_Sig'', ''3B''), (''Ed448_Crt_Sig'', ''0B'')]"

definition IndexedBothSigCodex :: "(string \<times> string) list" where
  "IndexedBothSigCodex = [
    (''ECDSA_256k1_Big_Sig'', ''2C''), (''ECDSA_256k1_Sig'', ''C''), (''ECDSA_256r1_Big_Sig'', ''2E''),
    (''ECDSA_256r1_Sig'', ''E''), (''Ed25519_Big_Sig'', ''2A''), (''Ed25519_Sig'', ''A''),
    (''Ed448_Big_Sig'', ''3A''), (''Ed448_Sig'', ''0A'')]"

definition TraitCodex :: "(string \<times> string) list" where
  "TraitCodex = [
    (''DelegateIsDelegator'', ''DID''), (''DoNotDelegate'', ''DND''), (''EstOnly'', ''EO''),
    (''NoBackers'', ''NB''), (''NoRegistrarBackers'', ''NRB''), (''RegistrarBackers'', ''RB'')]"

section \<open>Families\<close>

definition codexValues :: "(string \<times> string) list \<Rightarrow> string list" where
  "codexValues codex = remdups (map snd codex)"

definition invertCodex :: "(string \<times> string) list \<Rightarrow> (string \<times> string) list" where
  "invertCodex codex = map (\<lambda>(name, code). (code, name)) codex"

section \<open>What the codecs rely on\<close>

definition matter_entry_ok :: "string \<times> sizage \<Rightarrow> bool" where
  "matter_entry_ok e = (case e of (code, z) \<Rightarrow>
     length code = m_hs z \<and> 0 < m_hs z
     \<and> map_of MATTER_HARDS (take 1 code) = Some (m_hs z)
     \<and> list_all (\<lambda>c. c \<in> set B64_ALPHABET) code \<and> m_xs z \<le> m_ss z
     \<and> m_hs z + m_ss z \<le> 24
     \<and> (case m_fs z of
          Some f \<Rightarrow> f mod 4 = 0 \<and> m_hs z + m_ss z \<le> f
        | None \<Rightarrow> (m_hs z + m_ss z) mod 4 = 0 \<and> m_xs z = 0 \<and> 0 < m_ss z \<and> m_ls z \<le> 2))"

lemma matter_table_ok: "list_all matter_entry_ok MATTER_SIZES"
  by code_simp

lemma matter_entryD: "map_of MATTER_SIZES code = Some z \<Longrightarrow> matter_entry_ok (code, z)"
  using matter_table_ok map_of_SomeD by (fastforce simp: list_all_iff)

lemma matter_sizage:
  assumes "map_of MATTER_SIZES code = Some z"
  shows "length code = m_hs z" "0 < m_hs z" "map_of MATTER_HARDS (take 1 code) = Some (m_hs z)"
    "is_b64 code" "m_xs z \<le> m_ss z"
    "m_fs z = Some f \<Longrightarrow> f mod 4 = 0 \<and> m_hs z + m_ss z \<le> f"
    "m_fs z = None \<Longrightarrow> (m_hs z + m_ss z) mod 4 = 0 \<and> m_xs z = 0 \<and> 0 < m_ss z \<and> m_ls z \<le> 2"
  using matter_entryD [OF assms]
  by (auto simp: matter_entry_ok_def is_b64_def list_all_iff split: option.splits)

definition indexer_entry_ok :: "string \<times> xizage \<Rightarrow> bool" where
  "indexer_entry_ok e = (case e of (code, z) \<Rightarrow>
     length code = i_hs z \<and> 0 < i_hs z
     \<and> map_of INDEXER_HARDS (take 1 code) = Some (i_hs z)
     \<and> list_all (\<lambda>c. c \<in> set B64_ALPHABET) code \<and> i_os z < i_ss z
     \<and> (case i_fs z of
          Some f \<Rightarrow> f mod 4 = 0 \<and> i_hs z + i_ss z \<le> f
        | None \<Rightarrow> (i_hs z + i_ss z) mod 4 = 0 \<and> i_os z = 0 \<and> i_ls z = 0))"

lemma indexer_table_ok: "list_all indexer_entry_ok INDEXER_SIZES"
  by code_simp

lemma indexer_sizage:
  assumes "map_of INDEXER_SIZES code = Some z"
  shows "length code = i_hs z" "0 < i_hs z" "map_of INDEXER_HARDS (take 1 code) = Some (i_hs z)"
    "is_b64 code" "i_os z < i_ss z"
    "i_fs z = Some f \<Longrightarrow> f mod 4 = 0 \<and> i_hs z + i_ss z \<le> f"
    "i_fs z = None \<Longrightarrow> (i_hs z + i_ss z) mod 4 = 0 \<and> i_os z = 0 \<and> i_ls z = 0"
proof -
  have "indexer_entry_ok (code, z)"
    using indexer_table_ok map_of_SomeD [OF assms] by (auto simp: list_all_iff)
  then show "length code = i_hs z" "0 < i_hs z"
    "map_of INDEXER_HARDS (take 1 code) = Some (i_hs z)"
    "is_b64 code" "i_os z < i_ss z"
    "i_fs z = Some f \<Longrightarrow> f mod 4 = 0 \<and> i_hs z + i_ss z \<le> f"
    "i_fs z = None \<Longrightarrow> (i_hs z + i_ss z) mod 4 = 0 \<and> i_os z = 0 \<and> i_ls z = 0"
    by (auto simp: indexer_entry_ok_def is_b64_def list_all_iff split: option.splits)
qed

definition counter_entry_ok :: "string \<times> cizage \<Rightarrow> bool" where
  "counter_entry_ok e = (case e of (code, z) \<Rightarrow>
     length code = c_hs z \<and> take 1 code = ''-''
     \<and> map_of COUNTER_HARDS (take 2 code) = Some (c_hs z)
     \<and> list_all (\<lambda>c. c \<in> set B64_ALPHABET) code
     \<and> c_fs z = c_hs z + c_ss z \<and> c_fs z mod 4 = 0 \<and> 0 < c_ss z \<and> 2 \<le> c_hs z)"

lemma counter_table_ok:
  "list_all counter_entry_ok COUNTER_SIZES_V1" "list_all counter_entry_ok COUNTER_SIZES_V2"
  by code_simp+

text \<open>Every code with a size has a name, and conversely.\<close>

lemma matter_names_sizes: "map fst MATTER_CODE_NAMES = map fst MATTER_SIZES"
  by code_simp

end
