(* ===== verification/Codec.thy ===== *)
theory Codec
  imports CesrBytes
begin

text \<open>
  The interface between the CESR primitives and the parsers of counted groups
  (\<^verbatim>\<open>cesr/src/parser/group-dispatch.ts\<close>): a primitive is written as
  bytes, its parser reads it back in front of any input, and its size says how much was
  read. The locale \<open>cesr_codec\<close> states that contract; Matter, Indexer and Counter
  interpret it in both domains. From it follow prefix-freeness and the parsing of sequences,
  which the tuple and group parsers rest on.
\<close>

section \<open>Parsers that report what they consumed\<close>

type_synonym 'a part_parser = "byte list \<Rightarrow> ('a \<times> nat) res"

text \<open>The loop of the tuple and repetition parsers: each parser reads at the current
  offset, and the offset advances by what it consumed.\<close>

fun parse_seq :: "'a part_parser list \<Rightarrow> byte list \<Rightarrow> ('a list \<times> nat) res" where
  "parse_seq [] input = Inr ([], 0)"
| "parse_seq (p # ps) input =
     bind_res (p input) (\<lambda>(x, n).
     bind_res (parse_seq ps (drop n input)) (\<lambda>(xs, k).
     Inr (x # xs, n + k)))"

definition parses :: "'a part_parser \<Rightarrow> byte list \<Rightarrow> 'a \<Rightarrow> bool" where
  "parses p e x \<longleftrightarrow> (\<forall>rest. p (e @ rest) = Inr (x, length e))"

lemma parsesD: "parses p e x \<Longrightarrow> p (e @ rest) = Inr (x, length e)"
  by (simp add: parses_def)

lemma parse_seq_concat:
  assumes "list_all2 (\<lambda>p (e, x). parses p e x) ps exs"
  shows "parses (parse_seq ps) (concat (map fst exs)) (map snd exs)"
  using assms
proof (induction ps exs rule: list_all2_induct)
  case Nil
  then show ?case by (simp add: parses_def)
next
  case (Cons p ps ex exs)
  obtain e x where ex: "ex = (e, x)" by (cases ex)
  with Cons show ?case by (simp add: parses_def)
qed

lemma parse_seq_replicate:
  assumes "\<And>e x. (e, x) \<in> set exs \<Longrightarrow> parses p e x"
  shows "parses (parse_seq (replicate (length exs) p)) (concat (map fst exs)) (map snd exs)"
  using assms
  by (intro parse_seq_concat) (auto simp: list_all2_conv_all_nth split: prod.splits intro!: assms dest!: nth_mem)

lemma parse_seq_length: "parse_seq ps input = Inr (xs, n) \<Longrightarrow> length xs = length ps"
  by (induction ps arbitrary: input xs n) (auto simp: res_simps)

section \<open>The primitive contract\<close>

locale cesr_codec =
  fixes valid :: "'a \<Rightarrow> bool"
    and enc :: "'a \<Rightarrow> byte list"
    and sz :: "'a \<Rightarrow> nat"
    and parse :: "byte list \<Rightarrow> 'a res"
  assumes parse_enc: "valid x \<Longrightarrow> parse (enc x @ rest) = Inr x"
    and length_enc: "valid x \<Longrightarrow> length (enc x) = sz x"
begin

lemma prefix_free:
  assumes "valid x" and "valid y" and "enc x @ r = enc y @ s"
  shows "x = y \<and> r = s"
proof -
  have "Inr x = (Inr y :: 'a res)"
    using parse_enc [OF assms(1), of r] parse_enc [OF assms(2), of s] assms(3) by simp
  with assms(3) show ?thesis by simp
qed

lemma enc_inj: "valid x \<Longrightarrow> valid y \<Longrightarrow> enc x = enc y \<Longrightarrow> x = y"
  using prefix_free [of x y "[]" "[]"] by simp

lemma parses_part:
  assumes "valid x"
  shows "parses (\<lambda>bs. bind_res (parse bs) (\<lambda>y. Inr (f y, sz y))) (enc x) (f x)"
  using parse_enc [OF assms] length_enc [OF assms] by (simp add: parses_def)

lemma parses_many:
  assumes "list_all valid xs"
  shows "parses (parse_seq (replicate (length xs) (\<lambda>bs. bind_res (parse bs) (\<lambda>y. Inr (f y, sz y)))))
    (concat (map enc xs)) (map f xs)"
  using parse_seq_replicate [of "map (\<lambda>x. (enc x, f x)) xs"
      "\<lambda>bs. bind_res (parse bs) (\<lambda>y. Inr (f y, sz y))"] assms parses_part
  by (auto simp: comp_def list_all_iff)

end

end
