(* ===== verification/Matter.thy ===== *)
theory Matter
  imports CesrTables Codec
begin

text \<open>
  \<open>Matter\<close>, the base CESR primitive (\<^verbatim>\<open>cesr/src/primitives/matter.ts\<close>):
  parsing from the text domain and from the qb2 domain, encoding from a code and raw
  bytes, and the projections of a parsed value. The lemmas show that encoding is inverted by
  both parsers with arbitrary trailing input, that every parsed value is 24-bit aligned and
  a prefix of its input, and which raw sizes a fixed-size code accepts.
\<close>

section \<open>Definitions\<close>

record matter =
  mt_code :: string
  mt_raw :: "byte list"
  mt_qb64 :: string
  mt_fullSize :: nat
  mt_fullSizeB2 :: nat

record matter_init =
  ini_raw :: "byte list option"
  ini_code :: "string option"
  ini_qb64b :: "byte list option"
  ini_qb64 :: "string option"
  ini_qb2 :: "byte list option"

definition SMALL_VAR_SELECTORS :: string where
  "SMALL_VAR_SELECTORS = ''456''"

definition LARGE_VAR_SELECTORS :: string where
  "LARGE_VAR_SELECTORS = ''789''"

text \<open>The UTF-8 bytes of a text of code units below 256, \<open>b(text)\<close>.\<close>

definition utf8_char :: "char \<Rightarrow> byte list" where
  "utf8_char c = (let n = of_char c :: nat
     in if n < 128 then [of_nat n] else [of_nat (192 + n div 64), of_nat (128 + n mod 64)])"

definition utf8 :: "string \<Rightarrow> byte list" where
  "utf8 s = concat (map utf8_char s)"

definition text_of :: "byte list \<Rightarrow> string" where
  "text_of bs = map char_of_byte bs"

text \<open>First qb2 byte of every hard-code selector.\<close>

definition MATTER_BARDS :: "(byte \<times> nat) list" where
  "MATTER_BARDS = map (\<lambda>(code, hs).
     (case codeB64ToB2 code of Inr (w # _) \<Rightarrow> w | _ \<Rightarrow> 0, hs)) MATTER_HARDS"

definition sizageForCode :: "string \<Rightarrow> sizage res" where
  "sizageForCode code = of_opt UnknownCodeError (map_of MATTER_SIZES code)"

definition rawSizeForCode :: "string \<Rightarrow> int res" where
  "rawSizeForCode code = bind_res (sizageForCode code) (\<lambda>z.
     case m_fs z of
       None \<Rightarrow> Inl DeserializeError
     | Some f \<Rightarrow> Inr ((int f - int (m_hs z + m_ss z)) * 3 div 4 - int (m_ls z)))"

definition matterNameForCode :: "string \<Rightarrow> string res" where
  "matterNameForCode code = of_opt UnknownCodeError (map_of MATTER_CODE_NAMES code)"

definition normalizeVariableMatterCode :: "string \<Rightarrow> byte list \<Rightarrow> string res" where
  "normalizeVariableMatterCode code raw =
     (case map_of MATTER_SIZES code of
        None \<Rightarrow> Inr code
      | Some z \<Rightarrow>
          if m_fs z \<noteq> None then Inr code
          else
            (let selector = code ! 0;
                 leadSize = (3 - length raw mod 3) mod 3;
                 size = (length raw + leadSize) div 3
             in if selector \<in> set SMALL_VAR_SELECTORS then
                  (if size \<le> 64 ^ 2 - 1 then
                     Inr ((SMALL_VAR_SELECTORS ! leadSize) # slice 1 2 code)
                   else if size \<le> 64 ^ 4 - 1 then
                     Inr ((LARGE_VAR_SELECTORS ! leadSize) # ''AA'' @ slice 1 2 code)
                   else Inl DeserializeError)
                else if selector \<in> set LARGE_VAR_SELECTORS then
                  (if size \<le> 64 ^ 4 - 1 then
                     Inr ((LARGE_VAR_SELECTORS ! leadSize) # slice 1 4 code)
                   else Inl DeserializeError)
                else Inl DeserializeError))"

text \<open>The text-domain code lookup, with its fallback to a four-character code.\<close>

definition parseMatterCodeFromText :: "string \<Rightarrow> string res" where
  "parseMatterCodeFromText txt =
     (case map_of MATTER_HARDS (take 1 txt) of
        None \<Rightarrow> Inl UnknownCodeError
      | Some hs \<Rightarrow>
          (let code = take hs txt;
               fallback = take (min 4 (length txt)) txt
           in if map_of MATTER_SIZES code \<noteq> None then Inr code
              else if hs < length txt \<and> map_of MATTER_SIZES fallback \<noteq> None then Inr fallback
              else Inl UnknownCodeError))"

definition parseMatterFromTextData :: "byte list \<Rightarrow> matter res" where
  "parseMatterFromTextData input =
     (let txt = text_of input in
      if txt = [] then Inl (ShortageError 1 0)
      else bind_res (parseMatterCodeFromText txt) (\<lambda>code.
        bind_res (sizageForCode code) (\<lambda>z.
        let cs = m_hs z + m_ss z;
            soft = (if 0 < m_ss z then drop (m_xs z) (slice (m_hs z) cs txt) else [])
        in bind_res (case m_fs z of
                       Some f \<Rightarrow> Inr f
                     | None \<Rightarrow> bind_res (b64ToInt soft) (\<lambda>n. Inr (cs + n * 4))) (\<lambda>fullSize.
           if length txt < fullSize then Inl (ShortageError fullSize (length txt))
           else
             (let ps = cs mod 4; body = slice cs fullSize txt
              in bind_res (decodeB64 (replicate ps (CHR ''A'') @ body)) (\<lambda>paw.
                 Inr \<lparr>mt_code = code, mt_raw = drop (ps + m_ls z) paw,
                      mt_qb64 = take fullSize txt, mt_fullSize = fullSize,
                      mt_fullSizeB2 = sceil34 fullSize\<rparr>))))))"

definition parseMatterFromBinaryData :: "byte list \<Rightarrow> matter res" where
  "parseMatterFromBinaryData input =
     (if input = [] then Inl (ShortageError 1 0)
      else bind_res (nabSextets input 1) (\<lambda>first.
        bind_res (of_opt UnknownCodeError (map_of MATTER_BARDS (first ! 0))) (\<lambda>hs.
        if length input < sceil34 hs then Inl (ShortageError (sceil34 hs) (length input))
        else bind_res (codeB2ToB64 input hs) (\<lambda>hard.
        bind_res (sizageForCode hard) (\<lambda>z.
        let cs = m_hs z + m_ss z; bcs = sceil34 cs in
        if length input < bcs then Inl (ShortageError bcs (length input))
        else bind_res (codeB2ToB64 input cs) (\<lambda>both.
        let softWithXtra = slice (m_hs z) (m_hs z + m_ss z) both;
            xtra = take (m_xs z) softWithXtra
        in if xtra \<noteq> replicate (m_xs z) (CHR ''_'') then Inl UnknownCodeError
        else bind_res (case m_fs z of
                         Some f \<Rightarrow> Inr f
                       | None \<Rightarrow> bind_res (b64ToInt (drop (m_xs z) softWithXtra))
                                   (\<lambda>n. Inr (n * 4 + cs))) (\<lambda>fs.
        let bfs = sceil34 fs in
        if length input < bfs then Inl (ShortageError bfs (length input))
        else
          (let qb2 = take bfs input; ps = cs mod 4; pbs = 2 * ps
           in if 0 < pbs \<and> unat (qb2 ! (bcs - 1)) mod 2 ^ pbs \<noteq> 0 then Inl DeserializeError
              else bind_res (codeB2ToB64 qb2 fs) (\<lambda>qb64.
                bind_res (decodeB64 (replicate ps (CHR ''A'') @ drop cs qb64)) (\<lambda>paw.
                Inr \<lparr>mt_code = hard, mt_raw = drop (ps + m_ls z) paw, mt_qb64 = qb64,
                     mt_fullSize = fs, mt_fullSizeB2 = bfs\<rparr>))))))))))"

text \<open>The soft part \<open>encodeMatterFromRaw\<close> writes; \<open>count\<close> is a quotient by four
  that must be whole.\<close>

definition matter_soft :: "sizage \<Rightarrow> nat \<Rightarrow> string res" where
  "matter_soft z blen =
     (if 0 < m_ss z then
        (if m_ss z < m_xs z then Inl DeserializeError
         else
           (let units = (case m_fs z of
                           None \<Rightarrow> int blen
                         | Some f \<Rightarrow> int f - int (m_hs z + m_ss z))
            in if units mod 4 \<noteq> 0 \<or> units div 4 < 0 then Inl DeserializeError
               else bind_res (intToB64 (units div 4) (m_ss z - m_xs z))
                      (\<lambda>s. Inr (replicate (m_xs z) (CHR ''_'') @ s))))
      else Inr [])"

definition encodeMatterFromRaw :: "string \<Rightarrow> byte list \<Rightarrow> matter res" where
  "encodeMatterFromRaw code0 raw =
     bind_res (normalizeVariableMatterCode code0 raw) (\<lambda>code.
     bind_res (sizageForCode code) (\<lambda>z.
     let cs = m_hs z + m_ss z; ps = cs mod 4;
         paw = concatBytes [replicate (ps + m_ls z) 0, raw];
         body = drop ps (encodeB64 paw)
     in bind_res (matter_soft z (length body)) (\<lambda>soft.
        let qb64 = code @ soft @ body; fullSize = length qb64
        in if m_fs z \<noteq> None \<and> m_fs z \<noteq> Some fullSize then Inl DeserializeError
           else Inr \<lparr>mt_code = code, mt_raw = raw, mt_qb64 = qb64, mt_fullSize = fullSize,
                     mt_fullSizeB2 = sceil34 fullSize\<rparr>)))"

definition parseMatterInit :: "matter_init \<Rightarrow> matter res" where
  "parseMatterInit init =
     (case (ini_raw init, ini_code init) of
        (Some raw, Some (c # cs)) \<Rightarrow> encodeMatterFromRaw (c # cs) raw
      | _ \<Rightarrow>
        (case ini_qb64b init of Some bs \<Rightarrow> parseMatterFromTextData bs
         | None \<Rightarrow>
           (case ini_qb64 init of Some (c # cs) \<Rightarrow> parseMatterFromTextData (utf8 (c # cs))
            | _ \<Rightarrow>
              (case ini_qb2 init of Some bs \<Rightarrow> parseMatterFromBinaryData bs
               | None \<Rightarrow> Inl DeserializeError))))"

text \<open>\<open>parseMatter\<close> with its cold-start domain hint.\<close>

datatype cold_domain = Txt | Bny

definition parseMatter :: "byte list \<Rightarrow> cold_domain \<Rightarrow> matter res" where
  "parseMatter input cold =
     (if cold = Bny then parseMatterFromBinaryData input else parseMatterFromTextData input)"

subsection \<open>Projections\<close>

definition matter_soft_of :: "matter \<Rightarrow> string res" where
  "matter_soft_of m = bind_res (sizageForCode (mt_code m)) (\<lambda>z.
     if m_ss z = 0 then Inr []
     else Inr (slice (m_hs z + m_xs z) (m_hs z + m_ss z) (mt_qb64 m)))"

definition matter_size_of :: "matter \<Rightarrow> nat option res" where
  "matter_size_of m = bind_res (matter_soft_of m) (\<lambda>soft.
     if soft = [] then Inr None else bind_res (b64ToInt soft) (\<lambda>n. Inr (Some n)))"

definition matter_both_of :: "matter \<Rightarrow> string res" where
  "matter_both_of m = bind_res (sizageForCode (mt_code m)) (\<lambda>z.
     bind_res (matter_soft_of m) (\<lambda>soft.
     Inr (mt_code m @ replicate (m_xs z) (CHR ''_'') @ soft)))"

definition matter_qb64b :: "matter \<Rightarrow> byte list" where
  "matter_qb64b m = utf8 (mt_qb64 m)"

definition matter_qb2 :: "matter \<Rightarrow> byte list res" where
  "matter_qb2 m = codeB64ToB2 (mt_qb64 m)"

definition matter_transferable :: "matter \<Rightarrow> bool" where
  "matter_transferable m \<longleftrightarrow> mt_code m \<notin> set (codexValues NonTransCodex)"

definition matter_digestive :: "matter \<Rightarrow> bool" where
  "matter_digestive m \<longleftrightarrow> mt_code m \<in> set (codexValues DigCodex)"

definition matter_prefixive :: "matter \<Rightarrow> bool" where
  "matter_prefixive m \<longleftrightarrow> mt_code m \<in> set (codexValues PreCodex)"

definition matter_special :: "matter \<Rightarrow> bool res" where
  "matter_special m = bind_res (sizageForCode (mt_code m)) (\<lambda>z.
     Inr (m_fs z \<noteq> None \<and> 0 < m_ss z))"

definition matter_composable :: "matter \<Rightarrow> bool res" where
  "matter_composable m = bind_res (matter_qb2 m) (\<lambda>qb2.
     if length (matter_qb64b m) mod 4 = 0 \<and> length qb2 mod 3 = 0 \<and> encodeB64 qb2 = mt_qb64 m
     then bind_res (decodeB64 (mt_qb64 m)) (\<lambda>d. Inr (bytesEqual d qb2))
     else Inr False)"

definition fullSizeForCode :: "string \<Rightarrow> nat res" where
  "fullSizeForCode code = bind_res (sizageForCode code) (\<lambda>z.
     case m_fs z of None \<Rightarrow> Inl DeserializeError | Some f \<Rightarrow> Inr f)"

definition leadSizeForCode :: "string \<Rightarrow> nat res" where
  "leadSizeForCode code = bind_res (sizageForCode code) (\<lambda>z. Inr (m_ls z))"

section \<open>Text and bytes\<close>

lemma byte_of_char_bound [simp]: "of_char c < (256 :: nat)"
  using char_of_byte_of_char by simp

lemma alphabet_ascii: "c \<in> set B64_ALPHABET \<Longrightarrow> of_char c < (128 :: nat)"
proof -
  have "list_all (\<lambda>c. of_char c < (128 :: nat)) B64_ALPHABET" by code_simp
  then show "c \<in> set B64_ALPHABET \<Longrightarrow> of_char c < (128 :: nat)" by (simp add: list_all_iff)
qed

lemma utf8_b64: "is_b64 s \<Longrightarrow> utf8 s = map byte_of_char s"
  by (induction s) (auto simp: utf8_def utf8_char_def alphabet_ascii byte_of_char_def Let_def)

lemma text_of_utf8: "is_b64 s \<Longrightarrow> text_of (utf8 s @ rest) = s @ text_of rest"
  by (simp add: utf8_b64 text_of_def comp_def)

lemma length_text_of [simp]: "length (text_of bs) = length bs"
  by (simp add: text_of_def)

lemma text_of_Nil_iff [simp]: "text_of bs = [] \<longleftrightarrow> bs = []"
  by (simp add: text_of_def)

lemma text_of_append [simp]: "text_of (xs @ ys) = text_of xs @ text_of ys"
  by (simp add: text_of_def)

section \<open>Code selection\<close>

lemma parse_code_known:
  assumes "map_of MATTER_SIZES code = Some z"
  shows "parseMatterCodeFromText (code @ r) = Inr code"
proof -
  note z = matter_sizage [OF assms]
  have "take 1 (code @ r) = take 1 code" using z(1,2) by (simp add: Suc_leI)
  then show ?thesis using z assms by (simp add: parseMatterCodeFromText_def Let_def)
qed

text \<open>The fallback never selects another code: a code of the table has the length its
  selector has in the hard-code table.\<close>

lemma parse_code_Inr:
  assumes "parseMatterCodeFromText txt = Inr code"
  shows "\<exists>z. map_of MATTER_SIZES code = Some z \<and> take (m_hs z) txt = code"
proof -
  from assms obtain hs where hs: "map_of MATTER_HARDS (take 1 txt) = Some hs"
    by (auto simp: parseMatterCodeFromText_def split: option.splits)
  consider z where "map_of MATTER_SIZES (take hs txt) = Some z" "code = take hs txt"
    | z where "map_of MATTER_SIZES code = Some z" "code = take (min 4 (length txt)) txt"
    using assms hs by (auto simp: parseMatterCodeFromText_def Let_def split: if_splits)
  then show ?thesis
  proof cases
    case (1 z)
    then have "m_hs z = length (take hs txt)" using matter_sizage(1) by metis
    with 1 show ?thesis by (simp add: min_def)
  next
    case (2 z)
    then have "m_hs z = min 4 (length txt)" using matter_sizage(1) [OF 2(1)] by simp
    with 2 show ?thesis by auto
  qed
qed

lemma parse_code_fallback_dead:
  "parseMatterCodeFromText txt =
     (case map_of MATTER_HARDS (take 1 txt) of
        None \<Rightarrow> Inl UnknownCodeError
      | Some hs \<Rightarrow> (if map_of MATTER_SIZES (take hs txt) \<noteq> None then Inr (take hs txt)
                    else Inl UnknownCodeError))"
proof (cases "map_of MATTER_HARDS (take 1 txt)")
  case None
  then show ?thesis by (simp add: parseMatterCodeFromText_def)
next
  case (Some hs)
  let ?f = "take (min 4 (length txt)) txt"
  have "map_of MATTER_SIZES ?f = None"
    if "map_of MATTER_SIZES (take hs txt) = None" and "hs < length txt"
  proof (rule ccontr)
    assume "map_of MATTER_SIZES ?f \<noteq> None"
    then obtain z where z: "map_of MATTER_SIZES ?f = Some z" by auto
    have "take 1 ?f = take 1 txt" using that(2) by (simp add: min_def)
    with matter_sizage(3) [OF z] Some have "hs = m_hs z" by simp
    with matter_sizage(1) [OF z] have "hs = min 4 (length txt)" by simp
    with that z show False by simp
  qed
  with Some show ?thesis
    by (cases "map_of MATTER_SIZES (take hs txt)") (auto simp: parseMatterCodeFromText_def Let_def)
qed

section \<open>What encoding produces\<close>

lemma intToB64_0: "intToB64 v 0 = Inl JsError"
  by (simp add: intToB64_def b64_loop_digits)

lemma matter_soft_Inr:
  assumes "matter_soft z blen = Inr soft" and "m_xs z \<le> m_ss z"
  shows "length soft = m_ss z" and "is_b64 soft"
    and "0 < m_ss z \<Longrightarrow> take (m_xs z) soft = replicate (m_xs z) (CHR ''_'')"
    and "m_fs z = None \<Longrightarrow> 0 < m_ss z \<Longrightarrow> b64ToInt (drop (m_xs z) soft) = Inr (blen div 4) \<and> blen mod 4 = 0"
proof -
  have us: "CHR ''_'' \<in> set B64_ALPHABET" by code_simp
  {
    assume pos: "0 < m_ss z"
    define units where "units = (case m_fs z of None \<Rightarrow> int blen
        | Some f \<Rightarrow> int f - int (m_hs z + m_ss z))"
    from assms(1) pos have "\<exists>s. units mod 4 = 0 \<and> \<not> units div 4 < 0
        \<and> intToB64 (units div 4) (m_ss z - m_xs z) = Inr s
        \<and> soft = replicate (m_xs z) (CHR ''_'') @ s"
      using assms(2) by (auto simp: matter_soft_def units_def Let_def res_simps split: if_splits)
    then obtain s where s: "units mod 4 = 0" "\<not> units div 4 < 0"
      "intToB64 (units div 4) (m_ss z - m_xs z) = Inr s"
      "soft = replicate (m_xs z) (CHR ''_'') @ s" by (elim exE conjE) (rule that)
    have lt: "m_xs z < m_ss z"
      using s(3) assms(2) intToB64_0 by (cases "m_ss z - m_xs z") auto
    have "intToB64 (int (nat (units div 4))) (m_ss z - m_xs z) = Inr s"
      using s(2,3) by simp
    from intToB64_Inr [OF this] lt
    have i: "length s = m_ss z - m_xs z" "is_b64 s" "b64ToInt s = Inr (nat (units div 4))" by auto
    have "m_fs z = None \<Longrightarrow> nat (units div 4) = blen div 4 \<and> blen mod 4 = 0"
      using s(1) by (simp add: units_def) (metis nat_int of_nat_eq_0_iff zdiv_int zmod_int of_nat_numeral)
    with i s(4) lt us have "length soft = m_ss z \<and> is_b64 soft
        \<and> take (m_xs z) soft = replicate (m_xs z) (CHR ''_'')
        \<and> (m_fs z = None \<longrightarrow> b64ToInt (drop (m_xs z) soft) = Inr (blen div 4) \<and> blen mod 4 = 0)"
      by auto
  } note pos = this
  have zero: "m_ss z = 0 \<Longrightarrow> soft = []" using assms(1) by (simp add: matter_soft_def)
  show "length soft = m_ss z" "is_b64 soft"
    "0 < m_ss z \<Longrightarrow> take (m_xs z) soft = replicate (m_xs z) (CHR ''_'')"
    "m_fs z = None \<Longrightarrow> 0 < m_ss z \<Longrightarrow>
       b64ToInt (drop (m_xs z) soft) = Inr (blen div 4) \<and> blen mod 4 = 0"
    using pos zero by (cases "m_ss z = 0"; auto)+
qed

lemma encode_prefix_zero:
  assumes "ps \<le> 3"
  shows "replicate ps (CHR ''A'') @ drop ps (encodeB64 (replicate (ps + l) 0 @ raw))
    = encodeB64 (replicate (ps + l) 0 @ raw)"
proof -
  have "take ps (encodeB64 (replicate (ps + l) 0 @ raw)) = replicate ps (CHR ''A'')"
    using zero_prefix_sextets [OF assms, of "replicate l 0 @ raw"]
    by (simp add: encodeB64_sextets take_map replicate_add)
  then show ?thesis by (metis append_take_drop_id)
qed

lemma encodeMatter_Inr:
  assumes "encodeMatterFromRaw code0 raw = Inr m"
  obtains z soft body where
    "normalizeVariableMatterCode code0 raw = Inr (mt_code m)"
    "map_of MATTER_SIZES (mt_code m) = Some z"
    "mt_raw m = raw" "mt_qb64 m = mt_code m @ soft @ body"
    "mt_fullSize m = length (mt_qb64 m)" "mt_fullSizeB2 m = sceil34 (length (mt_qb64 m))"
    "body = drop ((m_hs z + m_ss z) mod 4)
       (encodeB64 (replicate ((m_hs z + m_ss z) mod 4 + m_ls z) 0 @ raw))"
    "matter_soft z (length body) = Inr soft"
    "m_fs z = None \<or> m_fs z = Some (length (mt_qb64 m))"
proof -
  from assms show ?thesis
    unfolding encodeMatterFromRaw_def
    by (auto simp: res_simps Let_def sizageForCode_def concatBytes_def split: if_splits intro!: that)
qed

text \<open>The shape of an encoded value, as both parsers read it back.\<close>

definition encoded :: "matter \<Rightarrow> sizage \<Rightarrow> string \<Rightarrow> string \<Rightarrow> bool" where
  "encoded m z soft body \<longleftrightarrow>
     map_of MATTER_SIZES (mt_code m) = Some z \<and> mt_qb64 m = mt_code m @ soft @ body
     \<and> mt_fullSize m = length (mt_qb64 m) \<and> mt_fullSizeB2 m = sceil34 (length (mt_qb64 m))
     \<and> length (mt_code m) = m_hs z \<and> length soft = m_ss z \<and> 0 < m_hs z
     \<and> is_b64 (mt_qb64 m) \<and> length (mt_qb64 m) mod 4 = 0
     \<and> (0 < m_ss z \<longrightarrow> take (m_xs z) soft = replicate (m_xs z) (CHR ''_'')) \<and> m_xs z \<le> m_ss z
     \<and> (m_fs z = Some (length (mt_qb64 m)) \<or>
          m_fs z = None \<and> 0 < m_ss z \<and> (\<exists>n. b64ToInt (drop (m_xs z) soft) = Inr n
            \<and> length (mt_qb64 m) = m_hs z + m_ss z + n * 4))
     \<and> (let ps = (m_hs z + m_ss z) mod 4 in
          decodeB64 (replicate ps (CHR ''A'') @ body) = Inr (replicate (ps + m_ls z) 0 @ mt_raw m)
          \<and> (0 < ps \<longrightarrow> body \<noteq> [] \<and> b64v (body ! 0) < 2 ^ (6 - 2 * ps)))"

lemma midpad_sextet:
  assumes "0 < ps" and "ps < 4"
  shows "ps < length (sextets (replicate (ps + l) 0 @ raw))
    \<and> sextets (replicate (ps + l) 0 @ raw) ! ps < 2 ^ (6 - 2 * ps)"
proof -
  define bs where "bs = replicate l (0 :: byte) @ raw"
  have bs: "replicate (ps + l) 0 @ raw = replicate ps 0 @ bs"
    by (simp add: bs_def replicate_add)
  have hd: "unat (w :: byte) div 16 < 16" "unat w div 64 < 4" for w
    using unat_byte [of w] by (auto simp del: unat_byte)
  from assms consider "ps = Suc 0" | "ps = Suc (Suc 0)" | "ps = Suc (Suc (Suc 0))" by linarith
  then show ?thesis
  proof cases
    case 1
    then show ?thesis unfolding bs using hd by (cases "0 # bs" rule: sextets.cases) auto
  next
    case 2
    then show ?thesis unfolding bs using hd by (cases bs) auto
  next
    case 3
    then show ?thesis unfolding bs by simp
  qed
qed

lemma encodeMatter_encoded:
  assumes "encodeMatterFromRaw code0 raw = Inr m"
  shows "mt_raw m = raw \<and> (\<exists>z soft body. encoded m z soft body)"
proof -
  from encodeMatter_Inr [OF assms] obtain z soft body where e:
    "map_of MATTER_SIZES (mt_code m) = Some z" "mt_raw m = raw"
    "mt_qb64 m = mt_code m @ soft @ body"
    "mt_fullSize m = length (mt_qb64 m)" "mt_fullSizeB2 m = sceil34 (length (mt_qb64 m))"
    "body = drop ((m_hs z + m_ss z) mod 4)
       (encodeB64 (replicate ((m_hs z + m_ss z) mod 4 + m_ls z) 0 @ raw))"
    "matter_soft z (length body) = Inr soft"
    "m_fs z = None \<or> m_fs z = Some (length (mt_qb64 m))" by blast
  note z = matter_sizage [OF e(1)]
  note soft = matter_soft_Inr [OF e(7) z(5)]
  let ?ps = "(m_hs z + m_ss z) mod 4"
  have len: "length (mt_qb64 m) = m_hs z + m_ss z + length body"
    using e(3) soft(1) z(1) by simp
  have l4: "length (mt_qb64 m) mod 4 = 0 \<and> (m_fs z = Some (length (mt_qb64 m)) \<or>
      m_fs z = None \<and> 0 < m_ss z \<and> (\<exists>n. b64ToInt (drop (m_xs z) soft) = Inr n
        \<and> length (mt_qb64 m) = m_hs z + m_ss z + n * 4))"
  proof (cases "m_fs z")
    case None
    then have "length body mod 4 = 0" "(m_hs z + m_ss z) mod 4 = 0" "0 < m_ss z"
      "b64ToInt (drop (m_xs z) soft) = Inr (length body div 4)"
      using soft(4) z(7) by auto
    moreover from this have "length (mt_qb64 m) mod 4 = 0" using len by presburger
    ultimately show ?thesis using None len by auto
  next
    case (Some f)
    with e(8) z(6) show ?thesis by auto
  qed
  have dec: "decodeB64 (replicate ?ps (CHR ''A'') @ body) = Inr (replicate (?ps + m_ls z) 0 @ raw)"
    using encode_prefix_zero [of ?ps "m_ls z" raw] by (simp add: e(6) decode_encodeB64)
  have mid: "body \<noteq> [] \<and> b64v (body ! 0) < 2 ^ (6 - 2 * ?ps)" if "0 < ?ps"
  proof -
    have lt: "?ps < 4" by simp
    note ms = midpad_sextet [OF that lt, of "m_ls z" raw]
    moreover have "sextets (replicate (?ps + m_ls z) 0 @ raw) ! ?ps < 64"
      using ms sextets_bound nth_mem by blast
    ultimately show ?thesis by (auto simp: e(6) encodeB64_sextets)
  qed
  have b: "is_b64 (mt_qb64 m)" using e(3,6) soft(2) z(4) by simp
  have "encoded m z soft body"
    unfolding encoded_def Let_def e(2)
    by (intro conjI impI; (rule e(1,3-5) z(1,2,5) soft(1,3) b l4 [THEN conjunct1]
        l4 [THEN conjunct2] dec mid [THEN conjunct1] mid [THEN conjunct2]; assumption?))
  with e(2) show ?thesis by blast
qed

section \<open>Text round trip\<close>

lemma encoded_text:
  assumes "encoded m z soft body"
  shows "parseMatterFromTextData (matter_qb64b m @ rest) = Inr m"
proof -
  note e = assms [unfolded encoded_def Let_def]
  let ?cs = "m_hs z + m_ss z" and ?txt = "mt_qb64 m @ text_of rest"
  have tx: "text_of (matter_qb64b m @ rest) = ?txt"
    unfolding matter_qb64b_def by (rule text_of_utf8) (use e in blast)
  have code: "parseMatterCodeFromText ?txt = Inr (mt_code m)"
    using parse_code_known [of "mt_code m" z] e by simp
  have soft: "slice (m_hs z) ?cs ?txt = soft" using e by (simp add: slice_def)
  have body: "slice ?cs (length (mt_qb64 m)) ?txt = body" using e by (simp add: slice_def)
  have sz: "(case m_fs z of Some f \<Rightarrow> Inr f
      | None \<Rightarrow> bind_res (b64ToInt (if 0 < m_ss z then drop (m_xs z) soft else []))
          (\<lambda>n. Inr (?cs + n * 4))) = (Inr (length (mt_qb64 m)) :: nat res)"
    using e by auto
  have ne: "?txt \<noteq> []" "\<not> length ?txt < length (mt_qb64 m)"
    "take (length (mt_qb64 m)) ?txt = mt_qb64 m"
    using e by auto
  have paw: "decodeB64 (replicate (?cs mod 4) (CHR ''A'') @ body)
      = Inr (replicate (?cs mod 4 + m_ls z) 0 @ mt_raw m)" using e by blast
  have sz2: "sizageForCode (mt_code m) = Inr z" using e by (simp add: sizageForCode_def)
  have m: "m = \<lparr>mt_code = mt_code m, mt_raw = mt_raw m, mt_qb64 = mt_qb64 m,
      mt_fullSize = length (mt_qb64 m), mt_fullSizeB2 = sceil34 (length (mt_qb64 m))\<rparr>"
    using e by (intro matter.equality) simp_all
  have "parseMatterFromTextData (matter_qb64b m @ rest) =
      Inr \<lparr>mt_code = mt_code m, mt_raw = mt_raw m, mt_qb64 = mt_qb64 m,
        mt_fullSize = length (mt_qb64 m), mt_fullSizeB2 = sceil34 (length (mt_qb64 m))\<rparr>"
    by (simp only: parseMatterFromTextData_def tx Let_def code sz2 bind_res_Inr soft body sz paw
        if_False ne) simp
  with m show ?thesis by simp
qed

text \<open>C1: Text round trip. Whatever \<open>encodeMatterFromRaw\<close> produces, parsing its qb64 bytes
  followed by any other bytes gives back the same value: code, raw bytes, text and sizes, for
  every fixed-size and variable-size code, with soft part and lead bytes.\<close>

theorem matter_text_roundtrip:
  assumes "encodeMatterFromRaw code raw = Inr m"
  shows "parseMatterFromTextData (matter_qb64b m @ rest) = Inr m"
  using encodeMatter_encoded [OF assms] encoded_text by blast

theorem matter_text_roundtrip_witness:
  "\<exists>m. encodeMatterFromRaw ''4B'' [1, 2, 3, 4] = Inr m
     \<and> mt_qb64 m = ''6BACAAABAgME'' \<and> parseMatterFromTextData (matter_qb64b m @ [65, 255]) = Inr m"
proof -
  have "encodeMatterFromRaw ''4B'' [1, 2, 3, 4] = Inr \<lparr>mt_code = ''6B'', mt_raw = [1, 2, 3, 4],
      mt_qb64 = ''6BACAAABAgME'', mt_fullSize = 12, mt_fullSizeB2 = 9\<rparr>"
    by code_simp
  from this matter_text_roundtrip [OF this, of "[65, 255]"] show ?thesis by auto
qed

section \<open>Binary round trip\<close>

lemma qb2_of_single: "c \<in> set B64_ALPHABET \<Longrightarrow> qb2_of [c] = [of_nat (b64v c * 4)]"
proof -
  assume "c \<in> set B64_ALPHABET"
  have "(4 - length [c] mod 4) mod 4 = Suc (Suc (Suc 0))" by simp
  moreover have "replicate 3 (0 :: nat) = [0, 0, 0]" by code_simp
  ultimately show ?thesis unfolding qb2_of_def by (simp del: of_nat_mult)
qed

lemma map_of_map_inj:
  assumes "\<And>k. k \<in> fst ` set xs \<Longrightarrow> f k = f k0 \<Longrightarrow> k = k0"
  shows "map_of (map (\<lambda>(k, v). (f k, v)) xs) (f k0) = map_of xs k0"
  using assms
proof (induction xs)
  case Nil
  then show ?case by simp
next
  case (Cons x xs)
  obtain k v where x: "x = (k, v)" by (cases x)
  from Cons.prems [of k] have "f k = f k0 \<longleftrightarrow> k = k0" by (auto simp: x)
  moreover have "map_of (map (\<lambda>(k, v). (f k, v)) xs) (f k0) = map_of xs k0"
    using Cons by auto
  ultimately show ?case by (auto simp: x)
qed

text \<open>A table keyed by the first qb2 byte of one-character codes looks up like the table
  of the codes themselves.\<close>

lemma bards_lookup:
  assumes ok: "list_all (\<lambda>(k, v). length k = 1 \<and> hd k \<in> set B64_ALPHABET) hards"
    and "c \<in> set B64_ALPHABET"
  shows "map_of (map (\<lambda>(code, hs). (case codeB64ToB2 code of Inr (w # _) \<Rightarrow> w | _ \<Rightarrow> 0, hs)) hards)
      (qb2_of [c] ! 0) = map_of hards [c]"
proof -
  let ?f = "\<lambda>code. of_nat (b64v (hd code) * 4) :: byte"
  have "(case codeB64ToB2 k of Inr (w # _) \<Rightarrow> w | _ \<Rightarrow> 0) = ?f k" if "(k, v) \<in> set hards" for k v
  proof -
    from ok that obtain d where "k = [d]" "d \<in> set B64_ALPHABET"
      by (auto simp: list_all_iff length_Suc_conv)
    then show ?thesis by (simp add: codeB64ToB2_b64 qb2_of_single)
  qed
  then have eq: "map (\<lambda>(code, hs). (case codeB64ToB2 code of Inr (w # _) \<Rightarrow> w | _ \<Rightarrow> 0, hs)) hards
      = map (\<lambda>(k, v). (?f k, v)) hards"
    by auto
  have inj: "k = [c]" if "k \<in> fst ` set hards" "?f k = ?f [c]" for k
  proof -
    from ok that(1) obtain d where d: "k = [d]" "d \<in> set B64_ALPHABET"
      by (auto simp: list_all_iff length_Suc_conv)
    with that(2) have "unat (of_nat (b64v d * 4) :: byte) = unat (of_nat (b64v c * 4) :: byte)" by simp
    with b64v_in(1) [OF d(2)] b64v_in(1) [OF assms(2)] have "b64v d = b64v c"
      by (simp add: unat_of_nat_byte del: of_nat_mult)
    with d assms(2) show ?thesis using b64v_in(2) by metis
  qed
  have "qb2_of [c] ! 0 = ?f [c]" by (simp add: qb2_of_single [OF assms(2)])
  then show ?thesis unfolding eq using map_of_map_inj [of hards ?f "[c]"] inj by metis
qed

lemma MATTER_BARDS_lookup:
  assumes "c \<in> set B64_ALPHABET"
  shows "map_of MATTER_BARDS (qb2_of [c] ! 0) = map_of MATTER_HARDS [c]"
proof -
  have "list_all (\<lambda>(k, v). length k = 1 \<and> hd k \<in> set B64_ALPHABET) MATTER_HARDS" by code_simp
  from bards_lookup [OF this assms] show ?thesis by (simp add: MATTER_BARDS_def)
qed

lemma unsextets_drop: "drop (3 * q) (unsextets vs) = unsextets (drop (4 * q) vs)"
proof (induction q arbitrary: vs)
  case 0
  then show ?case by simp
next
  case (Suc q)
  have n: "3 * Suc q = Suc (Suc (Suc (3 * q)))" "4 * Suc q = Suc (Suc (Suc (Suc (4 * q))))" by auto
  show ?case unfolding n by (cases vs rule: unsextets.cases) (simp_all add: Suc del: of_nat_add of_nat_mult)
qed

text \<open>When the first sextet after the code is small, the bits of the last code byte that the
  code does not use are zero.\<close>

lemma midpad_byte:
  assumes "\<forall>v \<in> set vs. v < 64" and "length vs mod 4 = 0" and "cs < length vs"
    and "ps = cs mod 4" and "0 < ps" and "vs ! cs < 2 ^ (6 - 2 * ps)"
  shows "unat (unsextets vs ! (sceil34 cs - 1)) mod 2 ^ (2 * ps) = 0"
proof -
  obtain q where cs: "cs = 4 * q + ps" using assms(4) by (metis mult_div_mod_eq)
  have "ps < 4" using assms(4) by simp
  with assms(5) consider "ps = 1" | "ps = 2" | "ps = 3" by linarith
  note ps = this
  obtain k where "length vs = 4 * k" using assms(2) by (metis dvdE mod_0_imp_dvd)
  with assms(3) cs have "q < k" by linarith
  with \<open>length vs = 4 * k\<close> have len: "4 \<le> length (drop (4 * q) vs)" "4 * q \<le> length vs" by auto
  from len(1) obtain a b c d r where d: "drop (4 * q) vs = a # b # c # d # r"
    by (cases "drop (4 * q) vs" rule: unsextets.cases) auto
  have "{a, b, c, d} \<subseteq> set vs" using set_drop_subset [of "4 * q" vs] by (simp add: d)
  with assms(1) have lt: "a < 64" "b < 64" "c < 64" "d < 64" by auto
  note s = split_quad(1-3) [OF lt]
  have "3 * q \<le> length (unsextets vs)" using len by (simp add: length_unsextets)
  then have ui: "unsextets vs ! (3 * q + i) = unsextets (a # b # c # d # r) ! i" for i
    using unsextets_drop [of q vs] d by (metis nth_drop)
  have vi: "vs ! cs = (a # b # c # d # r) ! ps" using d cs len(2) by (metis nth_drop)
  show ?thesis
  proof (cases rule: ps)
    case 1
    then have "sceil34 cs - 1 = 3 * q + 0" by (simp add: cs sceil34_def)
    with 1 vi assms(6) ui [of 0] show ?thesis
      using lt(1) by (simp add: unat_of_nat_byte [of "a * 4"] del: of_nat_add of_nat_mult)
  next
    case 2
    then have "sceil34 cs - 1 = 3 * q + 1" by (simp add: cs sceil34_def)
    moreover have "b mod 16 < 16" "unsextets vs ! (3 * q + 1) = of_nat (b mod 16 * 16 + c div 4)"
      using ui [of 1] by simp_all
    moreover have "c div 4 = 0" using 2 vi assms(6) by simp
    ultimately show ?thesis
      using 2 by (simp add: unat_of_nat_byte [of "b mod 16 * 16"] del: of_nat_add of_nat_mult)
  next
    case 3
    then have "sceil34 cs - 1 = 3 * q + 2" by (simp add: cs sceil34_def)
    moreover have "c mod 4 < 4" "unsextets vs ! (3 * q + 2) = of_nat (c mod 4 * 64 + d)"
      using ui [of 2] by simp_all
    moreover have "d = 0" using 3 vi assms(6) by simp
    ultimately show ?thesis
      using 3 by (simp add: unat_of_nat_byte [of "c mod 4 * 64"] del: of_nat_add of_nat_mult)
  qed
qed

lemma qb2_of_mult4: "length t mod 4 = 0 \<Longrightarrow> qb2_of t = unsextets (map b64v t)"
proof -
  assume m: "length t mod 4 = 0"
  then have "length (unsextets (map b64v t)) \<le> sceil34 (length t)"
    unfolding length_unsextets sceil34_def length_map by presburger
  with m show ?thesis by (simp add: qb2_of_def)
qed

lemma encoded_binary:
  assumes "encoded m z soft body"
  shows "parseMatterFromBinaryData (qb2_of (mt_qb64 m) @ rest) = Inr m"
proof -
  note e = assms [unfolded encoded_def Let_def]
  let ?t = "mt_qb64 m" and ?cs = "m_hs z + m_ss z"
  let ?in = "qb2_of ?t @ rest" and ?ps = "(m_hs z + m_ss z) mod 4"
  have b: "is_b64 ?t" and sz: "map_of MATTER_SIZES (mt_code m) = Some z"
    and t: "?t = mt_code m @ soft @ body" and l: "length (mt_code m) = m_hs z" "length soft = m_ss z"
    "0 < m_hs z" and m4: "length ?t mod 4 = 0" and xs: "m_xs z \<le> m_ss z"
    using e by blast+
  have cs: "?cs \<le> length ?t" "m_hs z \<le> length ?t" "1 \<le> length ?t" using t l by auto
  have li: "sceil34 k \<le> length ?in" if "k \<le> length ?t" for k
    using sceil34_mono [OF that] by (simp add: length_qb2_of)
  note ge = li [OF cs(1)] li [OF cs(2)] li [OF le_refl]
  have ne: "?in \<noteq> []" using li [OF cs(3)] by (auto simp: sceil34_def)
  have nab: "nabSextets ?in 1 = Inr (qb2_of (take 1 ?t))" by (rule nabSextets_qb2 [OF b cs(3)])
  obtain c where c: "take 1 ?t = [c]" "take 1 (mt_code m) = [c]" "c \<in> set B64_ALPHABET"
    using t l b by (cases "mt_code m") auto
  have hs: "map_of MATTER_BARDS (qb2_of (take 1 ?t) ! 0) = Some (m_hs z)"
    using matter_sizage(3) [OF sz] unfolding c(1,2) MATTER_BARDS_lookup [OF c(3)] .
  have hard: "codeB2ToB64 ?in (m_hs z) = Inr (mt_code m)"
    using codeB2ToB64_qb2 [OF b cs(2)] t l by simp
  have both: "codeB2ToB64 ?in ?cs = Inr (mt_code m @ soft)"
    using codeB2ToB64_qb2 [OF b cs(1)] t l by simp
  have soft: "slice (m_hs z) (m_hs z + m_ss z) (mt_code m @ soft) = soft"
    using l by (simp add: slice_def)
  have xt: "take (m_xs z) soft = replicate (m_xs z) (CHR ''_'')"
    using e xs l by (cases "0 < m_ss z") auto
  have fs: "(case m_fs z of Some f \<Rightarrow> Inr f
      | None \<Rightarrow> bind_res (b64ToInt (drop (m_xs z) soft)) (\<lambda>n. Inr (n * 4 + ?cs)))
      = (Inr (length ?t) :: nat res)"
    using e by (auto simp: add.commute)
  have qb2: "take (sceil34 (length ?t)) ?in = qb2_of ?t" by (simp add: length_qb2_of)
  have qb64: "codeB2ToB64 (qb2_of ?t) (length ?t) = Inr ?t"
    using codeB2ToB64_qb2 [OF b le_refl, of "[]"] by simp
  have pad: "\<not> (0 < 2 * ?ps \<and> unat (qb2_of ?t ! (sceil34 ?cs - 1)) mod 2 ^ (2 * ?ps) \<noteq> 0)"
  proof -
    have "unat (qb2_of ?t ! (sceil34 ?cs - 1)) mod 2 ^ (2 * ?ps) = 0" if p: "0 < ?ps"
    proof -
      have body: "body \<noteq> []" "b64v (body ! 0) < 2 ^ (6 - 2 * ?ps)" using e p by blast+
      have "?t ! ?cs = body ! 0" "?cs < length ?t"
        using t l body(1) by (auto simp: nth_append)
      then show ?thesis
        using midpad_byte [of "map b64v ?t" ?cs ?ps] b64v_bound [OF b] m4 p body(2)
        by (simp add: qb2_of_mult4)
    qed
    then show ?thesis by (cases "?ps = 0") simp_all
  qed
  have body: "drop ?cs ?t = body" using t l by simp
  have paw: "decodeB64 (replicate ?ps (CHR ''A'') @ body)
      = Inr (replicate (?ps + m_ls z) 0 @ mt_raw m)" using e by blast
  have sz2: "sizageForCode (mt_code m) = Inr z" using sz by (simp add: sizageForCode_def)
  have m: "m = \<lparr>mt_code = mt_code m, mt_raw = mt_raw m, mt_qb64 = ?t,
      mt_fullSize = length ?t, mt_fullSizeB2 = sceil34 (length ?t)\<rparr>"
    using e by (intro matter.equality) simp_all
  have "parseMatterFromBinaryData ?in = Inr \<lparr>mt_code = mt_code m, mt_raw = mt_raw m, mt_qb64 = ?t,
      mt_fullSize = length ?t, mt_fullSizeB2 = sceil34 (length ?t)\<rparr>"
    by (simp only: parseMatterFromBinaryData_def Let_def ne nab hs of_opt_Some bind_res_Inr if_False
        not_less [symmetric] ge [unfolded not_less [symmetric]] hard sz2 both soft xt fs qb2 pad qb64
        body paw not_True_eq_False simp_thms) simp
  with m show ?thesis by simp
qed

text \<open>C2: Binary round trip. The qb2 bytes of every encoded value, followed by any other
  bytes, parse back to the same value: both domains carry the same primitive.\<close>

theorem matter_binary_roundtrip:
  assumes "encodeMatterFromRaw code raw = Inr m"
  shows "\<exists>qb2. matter_qb2 m = Inr qb2 \<and> length qb2 = mt_fullSizeB2 m
    \<and> parseMatterFromBinaryData (qb2 @ rest) = Inr m"
proof -
  obtain z soft body where e: "encoded m z soft body"
    using encodeMatter_encoded [OF assms] by blast
  then have "is_b64 (mt_qb64 m)" "mt_fullSizeB2 m = sceil34 (length (mt_qb64 m))"
    unfolding encoded_def by blast+
  with encoded_binary [OF e] show ?thesis
    by (simp add: matter_qb2_def codeB64ToB2_b64 length_qb2_of)
qed

theorem matter_binary_roundtrip_witness:
  "\<exists>m qb2. encodeMatterFromRaw ''M'' [1, 2] = Inr m \<and> matter_qb2 m = Inr qb2
     \<and> qb2 = [48, 1, 2] \<and> parseMatterFromBinaryData (qb2 @ [7]) = Inr m"
proof -
  have enc: "encodeMatterFromRaw ''M'' [1, 2] = Inr \<lparr>mt_code = ''M'', mt_raw = [1, 2],
      mt_qb64 = ''MAEC'', mt_fullSize = 4, mt_fullSizeB2 = 3\<rparr>"
    by code_simp
  have "codeB64ToB2 ''MAEC'' = Inr [48, 1, 2]" by code_simp
  with enc matter_binary_roundtrip [OF enc, of "[7]"] show ?thesis
    by (auto simp: matter_qb2_def)
qed

section \<open>Matter as a codec\<close>

definition matter_valid :: "matter \<Rightarrow> bool" where
  "matter_valid m \<longleftrightarrow> (\<exists>z soft body. encoded m z soft body)"

lemma encodeMatter_valid: "encodeMatterFromRaw code raw = Inr m \<Longrightarrow> matter_valid m"
  using encodeMatter_encoded by (auto simp: matter_valid_def)

definition qb2_bytes :: "string \<Rightarrow> byte list" where
  "qb2_bytes t = (case codeB64ToB2 t of Inr bs \<Rightarrow> bs | Inl _ \<Rightarrow> [])"

lemma qb2_bytes_b64 [simp]: "is_b64 t \<Longrightarrow> qb2_bytes t = qb2_of t"
  by (simp add: qb2_bytes_def codeB64ToB2_b64)

lemma length_utf8_b64 [simp]: "is_b64 s \<Longrightarrow> length (utf8 s) = length s"
  by (simp add: utf8_b64)

lemma encoded_facts:
  assumes "encoded m z soft body"
  shows "is_b64 (mt_qb64 m)" "mt_fullSize m = length (mt_qb64 m)"
    "mt_fullSizeB2 m = sceil34 (length (mt_qb64 m))" "length (mt_qb64 m) mod 4 = 0"
  using assms unfolding encoded_def by blast+

interpretation matter_txt: cesr_codec matter_valid matter_qb64b mt_fullSize parseMatterFromTextData
  by unfold_locales (auto simp: matter_valid_def matter_qb64b_def encoded_facts
      dest: encoded_text [unfolded matter_qb64b_def])

interpretation matter_bny: cesr_codec matter_valid "\<lambda>m. qb2_bytes (mt_qb64 m)" mt_fullSizeB2
    parseMatterFromBinaryData
  by unfold_locales (auto simp: matter_valid_def encoded_facts length_qb2_of dest: encoded_binary)

section \<open>Which raw sizes a fixed-size code accepts\<close>

text \<open>\<open>Matter._rawSize\<close> of the table is the only raw size whose encoding has the
  full size of the table.\<close>

lemma fixed_size_iff:
  fixes r f cs l :: nat
  assumes "f mod 4 = 0" and "cs \<le> f"
  shows "cs + ((4 * (cs mod 4 + l + r) + 2) div 3 - cs mod 4) = f
    \<longleftrightarrow> int r = (int f - int cs) * 3 div 4 - int l"
proof -
  obtain q where q: "cs = 4 * q + cs mod 4" by (metis mult_div_mod_eq)
  obtain g where g: "f = 4 * g" using assms(1) by (metis dvdE mod_0_imp_dvd)
  define p where "p = cs mod 4"
  have p: "p < 4" by (simp add: p_def)
  have exact: "(4 * n + 2) div 3 = 4 * k \<longleftrightarrow> n = 3 * k" for n k :: nat by linarith
  have grow: "n \<le> (4 * n + 2) div 3" for n :: nat by linarith
  have le: "p \<le> (4 * (p + l + r) + 2) div 3" using grow [of "p + l + r"] by linarith
  have "(int f - int cs) * 3 div 4 = 3 * (int g - int q) - int p"
  proof -
    have "(int f - int cs) * 3 = 4 * (3 * (int g - int q)) - 3 * int p"
      using q g by (simp add: p_def)
    then show ?thesis using p by linarith
  qed
  moreover have "cs + ((4 * (cs mod 4 + l + r) + 2) div 3 - cs mod 4) = f
      \<longleftrightarrow> (4 * (p + l + r) + 2) div 3 = 4 * (g - q)"
    using q g le assms(2) unfolding p_def [symmetric] by linarith
  moreover have "q \<le> g" using q g assms(2) by linarith
  moreover have "(4 * (p + l + r) + 2) div 3 = 4 * (g - q) \<longleftrightarrow> p + l + r = 3 * (g - q)"
    by (rule exact)
  moreover have "p + l + r = 3 * (g - q)
      \<longleftrightarrow> int r = 3 * (int g - int q) - int p - int l"
    using \<open>q \<le> g\<close> by auto
  ultimately show ?thesis by (simp only:)
qed

text \<open>Raw sizes. For a code of the table with a fixed size and no soft part,
  \<open>encodeMatterFromRaw\<close> succeeds exactly on raw bytes of the size
  \<open>Matter._rawSize\<close> gives; any other size is the size-mismatch error.\<close>

lemma matter_fixed_raw_size:
  assumes "map_of MATTER_SIZES code = Some z" and "m_fs z = Some f" and "m_ss z = 0"
  shows "(rawSizeForCode code = Inr (int (length raw)) \<longrightarrow> (\<exists>m. encodeMatterFromRaw code raw = Inr m
            \<and> mt_code m = code \<and> mt_raw m = raw \<and> mt_fullSize m = f))
    \<and> (rawSizeForCode code \<noteq> Inr (int (length raw)) \<longrightarrow>
          encodeMatterFromRaw code raw = Inl DeserializeError)"
proof -
  note t = matter_sizage [OF assms(1)]
  have norm: "normalizeVariableMatterCode code raw = Inr code"
    using assms(1,2) by (simp add: normalizeVariableMatterCode_def)
  let ?ps = "m_hs z mod 4"
  define body where "body = drop ?ps (encodeB64 (replicate (?ps + m_ls z) 0 @ raw))"
  have enc: "encodeMatterFromRaw code raw =
      (if f \<noteq> length (code @ body) then Inl DeserializeError
       else Inr \<lparr>mt_code = code, mt_raw = raw, mt_qb64 = code @ body,
         mt_fullSize = length (code @ body), mt_fullSizeB2 = sceil34 (length (code @ body))\<rparr>)"
    using assms
    by (simp add: encodeMatterFromRaw_def norm sizageForCode_def matter_soft_def Let_def
        concatBytes_def body_def)
  have "length (code @ body) = m_hs z + ((4 * (?ps + m_ls z + length raw) + 2) div 3 - ?ps)"
    using t(1) by (simp add: length_encodeB64 body_def)
  moreover have "rawSizeForCode code = Inr ((int f - int (m_hs z)) * 3 div 4 - int (m_ls z))"
    using assms by (simp add: rawSizeForCode_def sizageForCode_def)
  moreover have "m_hs z + ((4 * (?ps + m_ls z + length raw) + 2) div 3 - ?ps) = f
      \<longleftrightarrow> int (length raw) = (int f - int (m_hs z)) * 3 div 4 - int (m_ls z)"
    using t(6) [OF assms(2)] by (intro fixed_size_iff) auto
  ultimately have iff: "f \<noteq> length (code @ body) \<longleftrightarrow> rawSizeForCode code \<noteq> Inr (int (length raw))"
    by (metis sum.inject(2))
  show ?thesis unfolding enc iff using iff by auto
qed

section \<open>What a successful parse consumed\<close>

lemma take_slice: "b \<le> n \<Longrightarrow> slice a b (take n xs) = slice a b xs"
  by (simp add: slice_def drop_take min_def)

lemma slice_take_append: "b \<le> n \<Longrightarrow> n \<le> length xs \<Longrightarrow> slice a b (take n xs @ ys) = slice a b xs"
  by (auto simp: slice_def drop_take min_def)

lemma parse_code_prefix:
  assumes "parseMatterCodeFromText txt = Inr code" and "length code \<le> n" and "n \<le> length txt"
  shows "parseMatterCodeFromText (take n txt @ r) = Inr code"
proof -
  from parse_code_Inr [OF assms(1)] obtain z where
    z: "map_of MATTER_SIZES code = Some z" "take (m_hs z) txt = code" by blast
  have e: "take n txt @ r = code @ drop (m_hs z) (take n txt) @ r"
  proof -
    have "m_hs z \<le> n" using matter_sizage(1) [OF z(1)] assms(2) by simp
    then have "take (m_hs z) (take n txt) = code" using z(2) by (simp add: min_def)
    then have "take n txt = code @ drop (m_hs z) (take n txt)" by (metis append_take_drop_id)
    then show ?thesis by (metis append_assoc)
  qed
  show ?thesis unfolding e by (rule parse_code_known [OF z(1)])
qed

lemma parseText_Inr:
  assumes "parseMatterFromTextData input = Inr m"
  obtains z where "map_of MATTER_SIZES (mt_code m) = Some z"
    "parseMatterCodeFromText (text_of input) = Inr (mt_code m)"
    "(case m_fs z of Some f \<Rightarrow> Inr f
      | None \<Rightarrow> bind_res (b64ToInt (if 0 < m_ss z
            then drop (m_xs z) (slice (m_hs z) (m_hs z + m_ss z) (text_of input)) else []))
          (\<lambda>n. Inr (m_hs z + m_ss z + n * 4))) = Inr (mt_fullSize m)"
    "mt_fullSize m \<le> length input" "mt_qb64 m = take (mt_fullSize m) (text_of input)"
    "mt_fullSizeB2 m = sceil34 (mt_fullSize m)"
    "bind_res (decodeB64 (replicate ((m_hs z + m_ss z) mod 4) (CHR ''A'')
        @ slice (m_hs z + m_ss z) (mt_fullSize m) (text_of input)))
      (\<lambda>paw. Inr (drop ((m_hs z + m_ss z) mod 4 + m_ls z) paw)) = Inr (mt_raw m)"
  using assms unfolding parseMatterFromTextData_def Let_def sizageForCode_def
  by (auto simp: res_simps split: if_splits intro!: that)

lemma matter_text_frame:
  assumes "parseMatterFromTextData input = Inr m"
  shows "mt_fullSize m mod 4 = 0" and "0 < mt_fullSize m" and "mt_fullSize m \<le> length input"
    and "mt_qb64 m = take (mt_fullSize m) (text_of input)"
    and "4 * mt_fullSizeB2 m = 3 * mt_fullSize m"
    and "parseMatterFromTextData (take (mt_fullSize m) input @ rest) = Inr m"
proof -
  from parseText_Inr [OF assms] obtain z where p:
    "map_of MATTER_SIZES (mt_code m) = Some z"
    "parseMatterCodeFromText (text_of input) = Inr (mt_code m)"
    "(case m_fs z of Some f \<Rightarrow> Inr f
      | None \<Rightarrow> bind_res (b64ToInt (if 0 < m_ss z
            then drop (m_xs z) (slice (m_hs z) (m_hs z + m_ss z) (text_of input)) else []))
          (\<lambda>n. Inr (m_hs z + m_ss z + n * 4))) = Inr (mt_fullSize m)"
    "mt_fullSize m \<le> length input" "mt_qb64 m = take (mt_fullSize m) (text_of input)"
    "mt_fullSizeB2 m = sceil34 (mt_fullSize m)"
    "bind_res (decodeB64 (replicate ((m_hs z + m_ss z) mod 4) (CHR ''A'')
        @ slice (m_hs z + m_ss z) (mt_fullSize m) (text_of input)))
      (\<lambda>paw. Inr (drop ((m_hs z + m_ss z) mod 4 + m_ls z) paw)) = Inr (mt_raw m)" by blast
  note z = matter_sizage [OF p(1)]
  have "mt_fullSize m mod 4 = 0 \<and> m_hs z + m_ss z \<le> mt_fullSize m"
  proof (cases "m_fs z")
    case None
    with p(3) obtain n where "m_hs z + m_ss z + n * 4 = mt_fullSize m" by (auto simp: res_simps)
    with z(7) [OF None] show ?thesis by presburger
  next
    case (Some f)
    with p(3) z(6) show ?thesis by auto
  qed
  then show m4: "mt_fullSize m mod 4 = 0" and "0 < mt_fullSize m" and "mt_fullSize m \<le> length input"
    and "mt_qb64 m = take (mt_fullSize m) (text_of input)"
    and "4 * mt_fullSizeB2 m = 3 * mt_fullSize m"
    using z(2) p by (auto simp: sceil34_mult4)
  from m4 have cs: "m_hs z + m_ss z \<le> mt_fullSize m"
    using \<open>mt_fullSize m mod 4 = 0 \<and> m_hs z + m_ss z \<le> mt_fullSize m\<close> by simp
  let ?in = "take (mt_fullSize m) input @ rest"
  let ?t = "take (mt_fullSize m) (text_of input) @ text_of rest"
  have tx: "text_of ?in = ?t" by (simp add: text_of_def take_map)
  have le: "mt_fullSize m \<le> length (text_of input)" using p(4) by simp
  have code: "parseMatterCodeFromText ?t = Inr (mt_code m)"
    using parse_code_prefix [OF p(2) _ le] z(1) cs by simp
  have soft: "slice (m_hs z) (m_hs z + m_ss z) ?t = slice (m_hs z) (m_hs z + m_ss z) (text_of input)"
    using slice_take_append [OF cs le] .
  have body: "slice (m_hs z + m_ss z) (mt_fullSize m) ?t
      = slice (m_hs z + m_ss z) (mt_fullSize m) (text_of input)"
    using slice_take_append [OF le_refl le] .
  have sz: "sizageForCode (mt_code m) = Inr z" using p(1) by (simp add: sizageForCode_def)
  from p(7) obtain paw where paw: "decodeB64 (replicate ((m_hs z + m_ss z) mod 4) (CHR ''A'')
        @ slice (m_hs z + m_ss z) (mt_fullSize m) (text_of input)) = Inr paw"
    "drop ((m_hs z + m_ss z) mod 4 + m_ls z) paw = mt_raw m" by (auto simp: res_simps)
  have ne: "?t \<noteq> []" "\<not> length ?t < mt_fullSize m" "take (mt_fullSize m) ?t = mt_qb64 m"
    using le \<open>0 < mt_fullSize m\<close> p(5) by auto
  show "parseMatterFromTextData ?in = Inr m"
    by (simp only: parseMatterFromTextData_def Let_def tx code sz bind_res_Inr soft p(3) body paw
        ne if_False p(6) [symmetric]) simp
qed

text \<open>Framing. A successful text parse consumes a multiple of four characters within
  the input, reports exactly those as \<open>qb64\<close> and three quarters of them as qb2 size, and
  depends on nothing after them: the consumed prefix followed by any other bytes parses to the
  same value, so a stream can be cut at that point.\<close>

lemma matter_text_framing:
  assumes "parseMatterFromTextData input = Inr m"
  shows "mt_fullSize m mod 4 = 0 \<and> 0 < mt_fullSize m \<and> mt_fullSize m \<le> length input
    \<and> mt_qb64 m = take (mt_fullSize m) (text_of input) \<and> 4 * mt_fullSizeB2 m = 3 * mt_fullSize m
    \<and> parseMatterFromTextData (take (mt_fullSize m) input @ rest) = Inr m"
  using matter_text_frame [OF assms] by blast

text \<open>A shortage reports the input length and asks for more than it.\<close>

lemma matter_text_shortage:
  assumes "parseMatterFromTextData input = Inl (ShortageError n a)"
  shows "a = length input \<and> a < n"
proof -
  have c: "parseMatterCodeFromText t \<noteq> Inl (ShortageError a b)" for t a b
    by (auto simp: parseMatterCodeFromText_def Let_def split: option.splits)
  have d: "b64ToInt t \<noteq> Inl (ShortageError a b)" for t a b
    using b64ToInt_err [of t] b64ToInt_b64 [of t] by (cases "is_b64 t") auto
  have e: "decodeB64 t \<noteq> Inl (ShortageError a b)" for t a b
    by (auto simp: decodeB64_def atob_def Let_def res_simps ensure_def of_opt_def
        dest!: map_res_Inl_in split: if_splits option.splits)
  from assms show ?thesis
    unfolding parseMatterFromTextData_def Let_def sizageForCode_def
    by (auto simp: res_simps c d e split: if_splits option.splits)
qed

text \<open>No proper prefix of an encoding parses: a truncated primitive is an error in the
  text domain, whatever its code, so a partial read is never taken for a complete value.\<close>

lemma matter_text_prefix_free:
  assumes "encodeMatterFromRaw code raw = Inr m" and "k < mt_fullSize m"
  shows "\<exists>e. parseMatterFromTextData (take k (matter_qb64b m)) = Inl e"
proof (rule ccontr)
  assume "\<not> ?thesis"
  then obtain m' where m': "parseMatterFromTextData (take k (matter_qb64b m)) = Inr m'"
    by (cases "parseMatterFromTextData (take k (matter_qb64b m))") auto
  note f = matter_text_frame [OF m']
  have "take (mt_fullSize m') (take k (matter_qb64b m)) @ drop (mt_fullSize m') (matter_qb64b m)
      = matter_qb64b m"
    using f(3) by (simp add: min_absorb1 min_absorb2)
  then have "parseMatterFromTextData (matter_qb64b m) = Inr m'"
    using f(6) [of "drop (mt_fullSize m') (matter_qb64b m)"] by simp
  moreover have "parseMatterFromTextData (matter_qb64b m) = Inr m"
    using encodeMatter_encoded [OF assms(1)] encoded_text [of m _ _ _ "[]"] by auto
  ultimately show False using f(3) assms(2) by simp
qed

section \<open>Where the text parser is laxer than the binary one\<close>

text \<open>The text parser drops the pad bits in front of the raw bytes unread; the binary
  parser rejects a value whose pad bits are not zero. So two different texts carry the same
  code and raw bytes, and only one of them has a valid qb2 form.\<close>

lemma matter_text_midpad_unchecked:
  "bind_res (parseMatterFromTextData (utf8 ''MAEC'')) (\<lambda>m. Inr (mt_code m, mt_raw m))
     = Inr (''M'', [1, 2])"
  "bind_res (parseMatterFromTextData (utf8 ''MQEC'')) (\<lambda>m. Inr (mt_code m, mt_raw m))
     = Inr (''M'', [1, 2])"
  "bind_res (codeB64ToB2 ''MAEC'') parseMatterFromBinaryData \<noteq> Inl DeserializeError"
  "bind_res (codeB64ToB2 ''MQEC'') parseMatterFromBinaryData = Inl DeserializeError"
  by code_simp+

text \<open>White space inside the body is dropped by \<open>atob\<close>, so a text of the right
  length can decode to fewer raw bytes than its code fixes.\<close>

lemma matter_text_whitespace_short_raw:
  "rawSizeForCode ''M'' = Inr 2"
  "bind_res (parseMatterFromTextData (utf8 (''MA'' @ [CHR 0x0A] @ ''A''))) (\<lambda>m. Inr (length (mt_raw m)))
     = Inr 1"
  by code_simp+

end
