(* ===== verification/Indexer.thy ===== *)
theory Indexer
  imports Matter
begin

text \<open>
  \<open>Indexer\<close> (\<^verbatim>\<open>cesr/src/primitives/indexer.ts\<close>), the indexed
  primitive behind indexed signatures, and the choice of a signature code by
  \<open>Siger.fromCigar\<close> (\<^verbatim>\<open>siger.ts\<close>). The lemmas show that the
  encoding of a fixed-size code, index and ondex included, is read back by both parsers, and
  which index fields a derived signature carries.
\<close>

section \<open>Definitions\<close>

record indexer =
  ix_code :: string
  ix_raw :: "byte list"
  ix_qb64 :: string
  ix_fullSize :: nat
  ix_fullSizeB2 :: nat
  ix_index :: int
  ix_ondex :: "int option"

definition INDEXER_BARDS :: "(byte \<times> nat) list" where
  "INDEXER_BARDS = map (\<lambda>(code, hs).
     (case codeB64ToB2 code of Inr (w # _) \<Rightarrow> w | _ \<Rightarrow> 0, hs)) INDEXER_HARDS"

definition parseIndexerCodeFromText :: "string \<Rightarrow> string res" where
  "parseIndexerCodeFromText txt =
     (case map_of INDEXER_HARDS (take 1 txt) of
        None \<Rightarrow> Inl UnknownCodeError
      | Some hs \<Rightarrow> (if map_of INDEXER_SIZES (take hs txt) = None then Inl UnknownCodeError
                    else Inr (take hs txt)))"

definition both_sig_code :: "string \<Rightarrow> bool" where
  "both_sig_code code \<longleftrightarrow> code \<in> set (codexValues IndexedBothSigCodex)"

definition parseIndexFields :: "string \<Rightarrow> string \<Rightarrow> (int \<times> int option) res" where
  "parseIndexFields code qb64 =
     bind_res (of_opt UnknownCodeError (map_of INDEXER_SIZES code)) (\<lambda>z.
     let cs = i_hs z + i_ss z; soft = slice (i_hs z) cs qb64; ms = i_ss z - i_os z
     in bind_res (if 0 < ms then b64ToInt (take ms soft) else Inr 0) (\<lambda>index.
        bind_res (if 0 < i_os z
                  then bind_res (b64ToInt (slice ms (i_ss z) soft)) (\<lambda>n. Inr (Some (int n)))
                  else Inr (if both_sig_code code then Some (int index) else None)) (\<lambda>ondex.
        Inr (int index, ondex))))"

definition parseIndexerFromTextData :: "byte list \<Rightarrow> indexer res" where
  "parseIndexerFromTextData input =
     (let txt = text_of input in
      if txt = [] then Inl DeserializeError
      else bind_res (parseIndexerCodeFromText txt) (\<lambda>code.
        bind_res (of_opt UnknownCodeError (map_of INDEXER_SIZES code)) (\<lambda>z.
        let cs = i_hs z + i_ss z; soft = slice (i_hs z) cs txt
        in bind_res (case i_fs z of
                       Some f \<Rightarrow> Inr f
                     | None \<Rightarrow> bind_res (b64ToInt soft) (\<lambda>n. Inr (cs + n * 4))) (\<lambda>fullSize.
           if length txt < fullSize then Inl (ShortageError fullSize (length txt))
           else
             (let qb64 = take fullSize txt; ps = cs mod 4
              in bind_res (decodeB64 (replicate ps (CHR ''A'') @ drop cs qb64)) (\<lambda>paw.
                 bind_res (parseIndexFields code qb64) (\<lambda>(index, ondex).
                 Inr \<lparr>ix_code = code, ix_raw = drop (ps + i_ls z) paw, ix_qb64 = qb64,
                      ix_fullSize = fullSize, ix_fullSizeB2 = sceil34 fullSize,
                      ix_index = index, ix_ondex = ondex\<rparr>)))))))"

definition parseIndexerFromBinaryData :: "byte list \<Rightarrow> indexer res" where
  "parseIndexerFromBinaryData input =
     (if input = [] then Inl (ShortageError 1 0)
      else bind_res (nabSextets input 1) (\<lambda>first.
        bind_res (of_opt UnknownCodeError (map_of INDEXER_BARDS (first ! 0))) (\<lambda>hs.
        if length input < sceil34 hs then Inl (ShortageError (sceil34 hs) (length input))
        else bind_res (codeB2ToB64 input hs) (\<lambda>hard.
        bind_res (of_opt UnknownCodeError (map_of INDEXER_SIZES hard)) (\<lambda>z.
        let cs = i_hs z + i_ss z; bcs = sceil34 cs in
        if length input < bcs then Inl (ShortageError bcs (length input))
        else bind_res (codeB2ToB64 input cs) (\<lambda>qb64cs.
        let soft = slice (i_hs z) cs qb64cs
        in bind_res (case i_fs z of
                       Some f \<Rightarrow> Inr f
                     | None \<Rightarrow> bind_res (b64ToInt soft) (\<lambda>n. Inr (n * 4 + cs))) (\<lambda>fs.
        let bfs = sceil34 fs in
        if length input < bfs then Inl (ShortageError bfs (length input))
        else
          (let qb2 = take bfs input; ps = cs mod 4
           in bind_res (codeB2ToB64 qb2 fs) (\<lambda>qb64.
              bind_res (decodeB64 (replicate ps (CHR ''A'') @ drop cs qb64)) (\<lambda>paw.
              bind_res (parseIndexFields hard qb64) (\<lambda>(index, ondex).
              Inr \<lparr>ix_code = hard, ix_raw = drop (ps + i_ls z) paw, ix_qb64 = qb64,
                   ix_fullSize = fs, ix_fullSizeB2 = bfs,
                   ix_index = index, ix_ondex = ondex\<rparr>)))))))))))"

text \<open>The ondex \<open>encodeIndexerFromRaw\<close> settles on: a code with an ondex field takes
  the given one, or the index; a both-list code repeats the index.\<close>

definition indexer_ondex :: "xizage \<Rightarrow> string \<Rightarrow> int \<Rightarrow> int option \<Rightarrow> int option" where
  "indexer_ondex z code index ondex =
     (if 0 < i_os z then Some (case ondex of Some o' \<Rightarrow> o' | None \<Rightarrow> index)
      else if both_sig_code code then Some index else None)"

definition encodeIndexerFromRaw :: "string \<Rightarrow> byte list \<Rightarrow> int \<Rightarrow> int option \<Rightarrow> indexer res" where
  "encodeIndexerFromRaw code raw index ondex =
     bind_res (of_opt UnknownCodeError (map_of INDEXER_SIZES code)) (\<lambda>z.
     if i_ss z < i_os z then Inl DeserializeError
     else if index < 0 then Inl DeserializeError
     else
       (let ms = i_ss z - i_os z; ondexValue = indexer_ondex z code index ondex
        in if 0 < i_os z \<and> (case ondexValue of None \<Rightarrow> True | Some o' \<Rightarrow> o' < 0)
           then Inl DeserializeError
           else if i_os z = 0 \<and> both_sig_code code \<and> ondex \<noteq> None \<and> ondex \<noteq> Some index
           then Inl DeserializeError
           else
             (let cs = i_hs z + i_ss z; ps = cs mod 4;
                  paw = concatBytes [replicate (ps + i_ls z) 0, raw];
                  body = drop ps (encodeB64 paw)
              in bind_res (intToB64 index ms) (\<lambda>s1.
                 bind_res (if 0 < i_os z
                           then intToB64 (case ondexValue of Some o' \<Rightarrow> o' | None \<Rightarrow> 0) (i_os z)
                           else Inr []) (\<lambda>s2.
                 let qb64 = code @ s1 @ s2 @ body; fullSize = length qb64
                 in if i_fs z \<noteq> None \<and> i_fs z \<noteq> Some fullSize then Inl DeserializeError
                    else Inr \<lparr>ix_code = code, ix_raw = raw, ix_qb64 = qb64,
                              ix_fullSize = fullSize, ix_fullSizeB2 = sceil34 fullSize,
                              ix_index = index, ix_ondex = ondexValue\<rparr>)))))"

record indexer_init =
  xi_raw :: "byte list option"
  xi_code :: "string option"
  xi_index :: "int option"
  xi_ondex :: "int option"
  xi_qb64b :: "byte list option"
  xi_qb64 :: "string option"
  xi_qb2 :: "byte list option"

definition parseIndexerInit :: "indexer_init \<Rightarrow> indexer res" where
  "parseIndexerInit init =
     (case (xi_raw init, xi_code init) of
        (Some raw, Some (c # cs)) \<Rightarrow>
          encodeIndexerFromRaw (c # cs) raw (case xi_index init of Some i \<Rightarrow> i | None \<Rightarrow> 0) (xi_ondex init)
      | _ \<Rightarrow>
        (case xi_qb64b init of Some bs \<Rightarrow> parseIndexerFromTextData bs
         | None \<Rightarrow>
           (case xi_qb64 init of Some (c # cs) \<Rightarrow> parseIndexerFromTextData (utf8 (c # cs))
            | _ \<Rightarrow>
              (case xi_qb2 init of Some bs \<Rightarrow> parseIndexerFromBinaryData bs
               | None \<Rightarrow> Inl DeserializeError))))"

definition parseIndexer :: "byte list \<Rightarrow> cold_domain \<Rightarrow> indexer res" where
  "parseIndexer input cold =
     (if cold = Bny then parseIndexerFromBinaryData input else parseIndexerFromTextData input)"

definition indexer_qb64b :: "indexer \<Rightarrow> byte list" where
  "indexer_qb64b x = utf8 (ix_qb64 x)"

definition indexer_qb2 :: "indexer \<Rightarrow> byte list res" where
  "indexer_qb2 x = codeB64ToB2 (ix_qb64 x)"

subsection \<open>Signature codes\<close>

record sig_family =
  sf_both :: string
  sf_bigBoth :: string
  sf_currentOnly :: string
  sf_bigCurrentOnly :: string

definition indexedSignatureFamilyForVerfer :: "string \<Rightarrow> sig_family res" where
  "indexedSignatureFamilyForVerfer verferCode =
     (if verferCode = ''D'' \<or> verferCode = ''B'' then
        Inr \<lparr>sf_both = ''A'', sf_bigBoth = ''2A'', sf_currentOnly = ''B'', sf_bigCurrentOnly = ''2B''\<rparr>
      else if verferCode = ''1AAB'' \<or> verferCode = ''1AAA'' then
        Inr \<lparr>sf_both = ''C'', sf_bigBoth = ''2C'', sf_currentOnly = ''D'', sf_bigCurrentOnly = ''2D''\<rparr>
      else if verferCode = ''1AAJ'' \<or> verferCode = ''1AAI'' then
        Inr \<lparr>sf_both = ''E'', sf_bigBoth = ''2E'', sf_currentOnly = ''F'', sf_bigCurrentOnly = ''2F''\<rparr>
      else Inl UnknownCodeError)"

definition indexedSignatureCodeForVerfer :: "string \<Rightarrow> int \<Rightarrow> int option \<Rightarrow> bool \<Rightarrow> string res" where
  "indexedSignatureCodeForVerfer verferCode index ondex only =
     bind_res (indexedSignatureFamilyForVerfer verferCode) (\<lambda>family.
     if only then Inr (if index \<le> 63 then sf_currentOnly family else sf_bigCurrentOnly family)
     else
       (let ondexValue = (case ondex of Some o' \<Rightarrow> o' | None \<Rightarrow> index)
        in Inr (if ondexValue = index \<and> index \<le> 63 then sf_both family else sf_bigBoth family)))"

definition SIGER_CODES :: "string list" where
  "SIGER_CODES = codexValues IndexedSigCodex"

definition siger_check :: "indexer \<Rightarrow> indexer res" where
  "siger_check x = bind_res (ensure (ix_code x \<in> set SIGER_CODES) UnknownCodeError) (\<lambda>_. Inr x)"

definition siger_fromCigar :: "string option \<Rightarrow> byte list \<Rightarrow> int \<Rightarrow> int option \<Rightarrow> bool \<Rightarrow> indexer res" where
  "siger_fromCigar verfer raw index ondex only =
     bind_res (of_opt JsError verfer) (\<lambda>verferCode.
     let normalizedOndex = (if only then None
            else Some (case ondex of Some o' \<Rightarrow> o' | None \<Rightarrow> index))
      in bind_res (indexedSignatureCodeForVerfer verferCode index normalizedOndex only) (\<lambda>code.
         bind_res (encodeIndexerFromRaw code raw index normalizedOndex) siger_check))"

definition parseSiger :: "byte list \<Rightarrow> cold_domain \<Rightarrow> indexer res" where
  "parseSiger input cold = bind_res (parseIndexer input cold) siger_check"

section \<open>What encoding produces\<close>

definition ix_encoded :: "indexer \<Rightarrow> xizage \<Rightarrow> string \<Rightarrow> string \<Rightarrow> string \<Rightarrow> bool" where
  "ix_encoded x z s1 s2 body \<longleftrightarrow>
     map_of INDEXER_SIZES (ix_code x) = Some z \<and> ix_qb64 x = ix_code x @ s1 @ s2 @ body
     \<and> ix_fullSize x = length (ix_qb64 x) \<and> ix_fullSizeB2 x = sceil34 (length (ix_qb64 x))
     \<and> length (ix_code x) = i_hs z \<and> length s1 = i_ss z - i_os z \<and> length s2 = i_os z
     \<and> i_os z < i_ss z \<and> 0 < i_hs z \<and> is_b64 (ix_qb64 x) \<and> length (ix_qb64 x) mod 4 = 0
     \<and> i_fs z = Some (length (ix_qb64 x)) \<and> 0 \<le> ix_index x \<and> b64ToInt s1 = Inr (nat (ix_index x))
     \<and> (0 < i_os z \<longrightarrow> (\<exists>n. ix_ondex x = Some (int n) \<and> b64ToInt s2 = Inr n))
     \<and> (i_os z = 0 \<longrightarrow> ix_ondex x = (if both_sig_code (ix_code x) then Some (ix_index x) else None))
     \<and> (let ps = (i_hs z + i_ss z) mod 4 in
          decodeB64 (replicate ps (CHR ''A'') @ body) = Inr (replicate (ps + i_ls z) 0 @ ix_raw x))"

definition indexer_valid :: "indexer \<Rightarrow> bool" where
  "indexer_valid x \<longleftrightarrow> (\<exists>z s1 s2 body. ix_encoded x z s1 s2 body)"

lemma intToB64_int_Inr:
  assumes "intToB64 v l = Inr s" and "0 \<le> v" and "0 < l"
  shows "length s = l \<and> is_b64 s \<and> b64ToInt s = Inr (nat v)"
  using intToB64_Inr [of "nat v" l s] assms by simp

lemma encodeIndexer_Inr:
  assumes "encodeIndexerFromRaw code raw index ondex = Inr x"
  obtains z s1 s2 body where
    "map_of INDEXER_SIZES code = Some z" "ix_code x = code" "ix_raw x = raw" "ix_index x = index"
    "ix_ondex x = indexer_ondex z code index ondex" "0 \<le> index"
    "0 < i_os z \<Longrightarrow> \<exists>n. ix_ondex x = Some (int n) \<and> intToB64 (int n) (i_os z) = Inr s2"
    "i_os z = 0 \<Longrightarrow> s2 = []"
    "intToB64 index (i_ss z - i_os z) = Inr s1" "ix_qb64 x = code @ s1 @ s2 @ body"
    "body = drop ((i_hs z + i_ss z) mod 4)
       (encodeB64 (replicate ((i_hs z + i_ss z) mod 4 + i_ls z) 0 @ raw))"
    "i_fs z = None \<or> i_fs z = Some (length (ix_qb64 x))"
    "ix_fullSize x = length (ix_qb64 x)" "ix_fullSizeB2 x = sceil34 (length (ix_qb64 x))"
proof -
  define body where "body z = drop ((i_hs z + i_ss z) mod 4)
       (encodeB64 (replicate ((i_hs z + i_ss z) mod 4 + i_ls z) 0 @ raw))" for z :: xizage
  from assms obtain z s1 s2 where z: "map_of INDEXER_SIZES code = Some z" "0 \<le> index"
    "0 < i_os z \<Longrightarrow> \<exists>o'. indexer_ondex z code index ondex = Some o' \<and> 0 \<le> o'"
    "intToB64 index (i_ss z - i_os z) = Inr s1"
    "(if 0 < i_os z then intToB64 (case indexer_ondex z code index ondex of Some o' \<Rightarrow> o' | None \<Rightarrow> 0)
        (i_os z) else Inr []) = Inr s2"
    "x = \<lparr>ix_code = code, ix_raw = raw, ix_qb64 = code @ s1 @ s2 @ body z,
        ix_fullSize = length (code @ s1 @ s2 @ body z),
        ix_fullSizeB2 = sceil34 (length (code @ s1 @ s2 @ body z)),
        ix_index = index, ix_ondex = indexer_ondex z code index ondex\<rparr>"
    "i_fs z = None \<or> i_fs z = Some (length (code @ s1 @ s2 @ body z))"
    unfolding encodeIndexerFromRaw_def body_def
    by (auto simp: res_simps Let_def concatBytes_def split: if_splits option.splits)
  show ?thesis
  proof (rule that [where z = z and ?s1.0 = s1 and ?s2.0 = s2 and body = "body z"])
    show "\<exists>n. ix_ondex x = Some (int n) \<and> intToB64 (int n) (i_os z) = Inr s2" if "0 < i_os z"
      using z(3) [OF that] z(5,6) that by (metis indexer.select_convs(7) option.simps(5) zero_le_imp_eq_int)
  qed (use z in \<open>auto simp: body_def\<close>)
qed

lemma encodeIndexer_fields:
  assumes "encodeIndexerFromRaw code raw index ondex = Inr x" and "map_of INDEXER_SIZES code = Some z"
  shows "ix_code x = code \<and> ix_index x = index \<and> ix_ondex x = indexer_ondex z code index ondex"
proof (rule encodeIndexer_Inr [OF assms(1)])
  fix z'
  assume "map_of INDEXER_SIZES code = Some z'" "ix_code x = code" "ix_index x = index"
    "ix_ondex x = indexer_ondex z' code index ondex"
  with assms(2) show ?thesis by simp
qed

lemma encodeIndexer_encoded:
  assumes "encodeIndexerFromRaw code raw index ondex = Inr x"
    and "map_of INDEXER_SIZES code = Some z0" and "i_fs z0 \<noteq> None"
  shows "indexer_valid x"
proof -
  obtain z s1 s2 body where z0: "map_of INDEXER_SIZES code = Some z" and e:
    "ix_code x = code" "ix_raw x = raw" "ix_index x = index"
    "ix_ondex x = indexer_ondex z code index ondex" "0 \<le> index"
    "0 < i_os z \<Longrightarrow> \<exists>n. ix_ondex x = Some (int n) \<and> intToB64 (int n) (i_os z) = Inr s2"
    "i_os z = 0 \<Longrightarrow> s2 = []"
    "intToB64 index (i_ss z - i_os z) = Inr s1" "ix_qb64 x = code @ s1 @ s2 @ body"
    "body = drop ((i_hs z + i_ss z) mod 4)
       (encodeB64 (replicate ((i_hs z + i_ss z) mod 4 + i_ls z) 0 @ raw))"
    "i_fs z = None \<or> i_fs z = Some (length (ix_qb64 x))"
    "ix_fullSize x = length (ix_qb64 x)" "ix_fullSizeB2 x = sceil34 (length (ix_qb64 x))"
    by (rule encodeIndexer_Inr [OF assms(1)]) (rule that)
  have "z = z0" using z0 assms(2) by simp
  note e = e [unfolded this]
  note z = indexer_sizage [OF assms(2)]
  have s1: "length s1 = i_ss z0 - i_os z0 \<and> is_b64 s1 \<and> b64ToInt s1 = Inr (nat index)"
    using intToB64_int_Inr [OF e(8,5)] z(5) by simp
  have s2: "length s2 = i_os z0 \<and> is_b64 s2
      \<and> (0 < i_os z0 \<longrightarrow> (\<exists>n. ix_ondex x = Some (int n) \<and> b64ToInt s2 = Inr n))"
  proof (cases "0 < i_os z0")
    case True
    with e(6) intToB64_int_Inr show ?thesis by fastforce
  next
    case False
    with e(7) show ?thesis by simp
  qed
  have fs: "i_fs z0 = Some (length (ix_qb64 x))" using e(11) assms(3) by auto
  have dec: "decodeB64 (replicate ((i_hs z0 + i_ss z0) mod 4) (CHR ''A'') @ body)
      = Inr (replicate ((i_hs z0 + i_ss z0) mod 4 + i_ls z0) 0 @ raw)"
    using encode_prefix_zero [of "(i_hs z0 + i_ss z0) mod 4" "i_ls z0" raw]
    by (simp add: e(10) decode_encodeB64)
  have b: "is_b64 (ix_qb64 x)" using z(4) s1 s2 e(9,10) by simp
  have "ix_encoded x z0 s1 s2 body"
    unfolding ix_encoded_def Let_def e(1-3)
    using assms(2) e(9,12,13,5) z(1,2,5) s1 s2 b fs dec z(6) [OF fs]
    by (auto simp: e(4) indexer_ondex_def)
  then show ?thesis by (auto simp: indexer_valid_def)
qed

section \<open>Round trips\<close>

lemma parse_index_fields:
  assumes "ix_encoded x z s1 s2 body"
  shows "parseIndexFields (ix_code x) (ix_qb64 x) = Inr (ix_index x, ix_ondex x)"
proof -
  note e = assms [unfolded ix_encoded_def Let_def]
  have soft: "slice (i_hs z) (i_hs z + i_ss z) (ix_qb64 x) = s1 @ s2"
    using e by (simp add: slice_def)
  have "take (i_ss z - i_os z) (s1 @ s2) = s1" "slice (i_ss z - i_os z) (i_ss z) (s1 @ s2) = s2"
    using e by (simp_all add: slice_def)
  with e soft show ?thesis
    by (cases "0 < i_os z") (auto simp: parseIndexFields_def Let_def)
qed

lemma ix_encoded_text:
  assumes "ix_encoded x z s1 s2 body"
  shows "parseIndexerFromTextData (indexer_qb64b x @ rest) = Inr x"
proof -
  note e = assms [unfolded ix_encoded_def Let_def]
  let ?cs = "i_hs z + i_ss z" and ?txt = "ix_qb64 x @ text_of rest"
  have sz: "map_of INDEXER_SIZES (ix_code x) = Some z" and q: "ix_qb64 x = ix_code x @ s1 @ s2 @ body"
    and l: "length (ix_code x) = i_hs z" "length s1 = i_ss z - i_os z" "length s2 = i_os z"
      "i_os z < i_ss z"
    and fs: "i_fs z = Some (length (ix_qb64 x))" and b: "is_b64 (ix_qb64 x)"
    using e by blast+
  have tx: "text_of (indexer_qb64b x @ rest) = ?txt"
    unfolding indexer_qb64b_def by (rule text_of_utf8 [OF b])
  have code: "parseIndexerCodeFromText ?txt = Inr (ix_code x)"
  proof -
    note z = indexer_sizage [OF sz]
    have "take 1 ?txt = take 1 (ix_code x)" using z(1,2) q by (simp add: Suc_leI)
    with z sz q show ?thesis by (simp add: parseIndexerCodeFromText_def)
  qed
  have body: "drop ?cs (ix_qb64 x) = body" using q l by simp
  have paw: "decodeB64 (replicate (?cs mod 4) (CHR ''A'') @ body)
      = Inr (replicate (?cs mod 4 + i_ls z) 0 @ ix_raw x)" using e by blast
  have ne: "?txt \<noteq> []" "\<not> length ?txt < length (ix_qb64 x)" "take (length (ix_qb64 x)) ?txt = ix_qb64 x"
    using e by auto
  have x: "x = \<lparr>ix_code = ix_code x, ix_raw = ix_raw x, ix_qb64 = ix_qb64 x,
      ix_fullSize = length (ix_qb64 x), ix_fullSizeB2 = sceil34 (length (ix_qb64 x)),
      ix_index = ix_index x, ix_ondex = ix_ondex x\<rparr>"
    using e by (intro indexer.equality) simp_all
  have "parseIndexerFromTextData (indexer_qb64b x @ rest) = Inr \<lparr>ix_code = ix_code x,
      ix_raw = ix_raw x, ix_qb64 = ix_qb64 x,
      ix_fullSize = length (ix_qb64 x), ix_fullSizeB2 = sceil34 (length (ix_qb64 x)),
      ix_index = ix_index x, ix_ondex = ix_ondex x\<rparr>"
    by (simp only: parseIndexerFromTextData_def tx Let_def code sz of_opt_Some bind_res_Inr fs
        option.simps ne if_False body paw parse_index_fields [OF assms] prod.case) simp
  with x show ?thesis by simp
qed

lemma INDEXER_BARDS_lookup:
  assumes "c \<in> set B64_ALPHABET"
  shows "map_of INDEXER_BARDS (qb2_of [c] ! 0) = map_of INDEXER_HARDS [c]"
proof -
  have "list_all (\<lambda>(k, v). length k = 1 \<and> hd k \<in> set B64_ALPHABET) INDEXER_HARDS" by code_simp
  from bards_lookup [OF this assms] show ?thesis by (simp add: INDEXER_BARDS_def)
qed

lemma ix_encoded_binary:
  assumes "ix_encoded x z s1 s2 body"
  shows "parseIndexerFromBinaryData (qb2_of (ix_qb64 x) @ rest) = Inr x"
proof -
  note e = assms [unfolded ix_encoded_def Let_def]
  let ?t = "ix_qb64 x" and ?cs = "i_hs z + i_ss z"
  let ?in = "qb2_of ?t @ rest" and ?ps = "(i_hs z + i_ss z) mod 4"
  have sz: "map_of INDEXER_SIZES (ix_code x) = Some z" and t: "?t = ix_code x @ s1 @ s2 @ body"
    and l: "length (ix_code x) = i_hs z" "length s1 = i_ss z - i_os z" "length s2 = i_os z"
      "i_os z < i_ss z" "0 < i_hs z"
    and fs: "i_fs z = Some (length ?t)" and b: "is_b64 ?t"
    using e by blast+
  have cs: "?cs \<le> length ?t" "i_hs z \<le> length ?t" "1 \<le> length ?t" using t l by auto
  have li: "sceil34 k \<le> length ?in" if "k \<le> length ?t" for k
    using sceil34_mono [OF that] by (simp add: length_qb2_of)
  note ge = li [OF cs(1)] li [OF cs(2)] li [OF le_refl]
  have ne: "?in \<noteq> []" using li [OF cs(3)] by (auto simp: sceil34_def)
  have nab: "nabSextets ?in 1 = Inr (qb2_of (take 1 ?t))" by (rule nabSextets_qb2 [OF b cs(3)])
  obtain c where c: "take 1 ?t = [c]" "take 1 (ix_code x) = [c]" "c \<in> set B64_ALPHABET"
    using t l b by (cases "ix_code x") auto
  have hs: "map_of INDEXER_BARDS (qb2_of (take 1 ?t) ! 0) = Some (i_hs z)"
    using indexer_sizage(3) [OF sz] unfolding c(1,2) INDEXER_BARDS_lookup [OF c(3)] .
  have hard: "codeB2ToB64 ?in (i_hs z) = Inr (ix_code x)"
    using codeB2ToB64_qb2 [OF b cs(2)] t l by simp
  have both: "codeB2ToB64 ?in ?cs = Inr (ix_code x @ s1 @ s2)"
    using codeB2ToB64_qb2 [OF b cs(1)] t l by simp
  have qb2: "take (sceil34 (length ?t)) ?in = qb2_of ?t" by (simp add: length_qb2_of)
  have qb64: "codeB2ToB64 (qb2_of ?t) (length ?t) = Inr ?t"
    using codeB2ToB64_qb2 [OF b le_refl, of "[]"] by simp
  have body: "drop ?cs ?t = body" using t l by simp
  have paw: "decodeB64 (replicate ?ps (CHR ''A'') @ body)
      = Inr (replicate (?ps + i_ls z) 0 @ ix_raw x)" using e by blast
  have x: "x = \<lparr>ix_code = ix_code x, ix_raw = ix_raw x, ix_qb64 = ?t,
      ix_fullSize = length ?t, ix_fullSizeB2 = sceil34 (length ?t),
      ix_index = ix_index x, ix_ondex = ix_ondex x\<rparr>"
    using e by (intro indexer.equality) simp_all
  have "parseIndexerFromBinaryData ?in = Inr \<lparr>ix_code = ix_code x, ix_raw = ix_raw x, ix_qb64 = ?t,
      ix_fullSize = length ?t, ix_fullSizeB2 = sceil34 (length ?t),
      ix_index = ix_index x, ix_ondex = ix_ondex x\<rparr>"
    by (simp only: parseIndexerFromBinaryData_def Let_def ne nab hs of_opt_Some bind_res_Inr if_False
        not_less [symmetric] ge [unfolded not_less [symmetric]] hard sz both fs option.simps qb2 qb64
        body paw parse_index_fields [OF assms] prod.case) simp
  with x show ?thesis by simp
qed

lemma ix_encoded_facts:
  assumes "ix_encoded x z s1 s2 body"
  shows "is_b64 (ix_qb64 x)" "ix_fullSize x = length (ix_qb64 x)"
    "ix_fullSizeB2 x = sceil34 (length (ix_qb64 x))" "length (ix_qb64 x) mod 4 = 0"
  using assms unfolding ix_encoded_def by blast+

interpretation indexer_txt: cesr_codec indexer_valid indexer_qb64b ix_fullSize parseIndexerFromTextData
  by unfold_locales (auto simp: indexer_valid_def indexer_qb64b_def ix_encoded_facts
      dest: ix_encoded_text [unfolded indexer_qb64b_def])

interpretation indexer_bny: cesr_codec indexer_valid "\<lambda>x. qb2_bytes (ix_qb64 x)" ix_fullSizeB2
    parseIndexerFromBinaryData
  by unfold_locales (auto simp: indexer_valid_def ix_encoded_facts length_qb2_of dest: ix_encoded_binary)



section \<open>Which inputs encode\<close>

lemma intToB64_iff: "0 < l \<Longrightarrow> 0 \<le> v \<Longrightarrow> (\<exists>s. intToB64 v l = Inr s) \<longleftrightarrow> v < 64 ^ l"
proof -
  assume l: "0 < l" and v: "0 \<le> v"
  obtain n where n: "v = int n" using v zero_le_imp_eq_int by blast
  have "v < 64 ^ l \<longleftrightarrow> n < 64 ^ l" by (simp add: n flip: of_nat_less_iff)
  then show ?thesis
    using intToB64_ok [of n l] intToB64_too_big [of l n] l by (cases "n < 64 ^ l") (auto simp: n)
qed

text \<open>The arguments that encode, by the layout of their code.\<close>

lemma indexer_encodes_iff:
  assumes "map_of INDEXER_SIZES code = Some z" and "i_fs z = Some f"
  shows "(\<exists>x. encodeIndexerFromRaw code raw index ondex = Inr x) \<longleftrightarrow>
    0 \<le> index \<and> index < 64 ^ (i_ss z - i_os z)
    \<and> (0 < i_os z \<longrightarrow> 0 \<le> (case ondex of Some o' \<Rightarrow> o' | None \<Rightarrow> index)
          \<and> (case ondex of Some o' \<Rightarrow> o' | None \<Rightarrow> index) < 64 ^ i_os z)
    \<and> (i_os z = 0 \<and> both_sig_code code \<longrightarrow> ondex = None \<or> ondex = Some index)
    \<and> int (length raw) = (int f - int (i_hs z + i_ss z)) * 3 div 4 - int (i_ls z)"
    (is "?L \<longleftrightarrow> ?i0 \<and> ?i1 \<and> ?o \<and> ?b \<and> ?r")
proof (cases "?i0 \<and> ?i1 \<and> ?o \<and> ?b")
  case False
  note z = indexer_sizage [OF assms(1)]
  have "\<not> ?L"
  proof
    assume ?L
    then obtain x where x: "encodeIndexerFromRaw code raw index ondex = Inr x" by blast
    from x have b: ?b using assms(1) by (auto simp: encodeIndexerFromRaw_def Let_def split: if_splits)
    from x have i0: ?i0 using assms(1) by (auto simp: encodeIndexerFromRaw_def Let_def split: if_splits)
    from x have "\<exists>s. intToB64 index (i_ss z - i_os z) = Inr s"
      using assms(1) by (auto simp: encodeIndexerFromRaw_def Let_def res_simps split: if_splits)
    with intToB64_iff [of "i_ss z - i_os z" index] i0 z(5) have i1: ?i1 by simp
    have ?o
    proof
      assume os: "0 < i_os z"
      from x have "0 \<le> (case ondex of Some o' \<Rightarrow> o' | None \<Rightarrow> index)
        \<and> (\<exists>s. intToB64 (case ondex of Some o' \<Rightarrow> o' | None \<Rightarrow> index) (i_os z) = Inr s)"
        using assms(1) os
        by (auto simp: encodeIndexerFromRaw_def Let_def res_simps indexer_ondex_def split: if_splits)
      with intToB64_iff [OF os] show "0 \<le> (case ondex of Some o' \<Rightarrow> o' | None \<Rightarrow> index)
          \<and> (case ondex of Some o' \<Rightarrow> o' | None \<Rightarrow> index) < 64 ^ i_os z" by blast
    qed
    with False b i0 i1 show False by blast
  qed
  show ?thesis
  proof
    assume ?L
    with \<open>\<not> ?L\<close> show "?i0 \<and> ?i1 \<and> ?o \<and> ?b \<and> ?r" by contradiction
  next
    assume "?i0 \<and> ?i1 \<and> ?o \<and> ?b \<and> ?r"
    then have "?i0 \<and> ?i1 \<and> ?o \<and> ?b" by (elim conjE) (intro conjI)
    with False show ?L by contradiction
  qed
next
  case True
  note z = indexer_sizage [OF assms(1)]
  let ?cs = "i_hs z + i_ss z"
  let ?ov = "case ondex of Some o' \<Rightarrow> o' | None \<Rightarrow> index"
  define body where
    "body = drop (?cs mod 4) (encodeB64 (replicate (?cs mod 4 + i_ls z) 0 @ raw))"
  obtain s1 where s1: "intToB64 index (i_ss z - i_os z) = Inr s1"
    using intToB64_iff [of "i_ss z - i_os z" index] True z(5) by auto
  have l1: "length s1 = i_ss z - i_os z" using intToB64_int_Inr [OF s1] True z(5) by simp
  have "\<exists>s2. (if 0 < i_os z then intToB64 ?ov (i_os z) else Inr []) = Inr s2 \<and> length s2 = i_os z"
  proof (cases "0 < i_os z")
    case os: True
    with True obtain s2 where "intToB64 ?ov (i_os z) = Inr s2"
      using intToB64_iff [OF os, of ?ov] by blast
    with intToB64_int_Inr [OF this] True os show ?thesis by simp
  qed simp
  then obtain s2 where s2: "(if 0 < i_os z then intToB64 ?ov (i_os z) else Inr []) = Inr s2"
    "length s2 = i_os z" by blast
  have s2': "(if 0 < i_os z
      then intToB64 (case indexer_ondex z code index ondex of Some o' \<Rightarrow> o' | None \<Rightarrow> 0) (i_os z)
      else Inr []) = Inr s2"
    using s2(1) by (simp add: indexer_ondex_def split: if_splits)
  have g: "\<not> (0 < i_os z \<and> (case indexer_ondex z code index ondex of None \<Rightarrow> True | Some o' \<Rightarrow> o' < 0))"
    "\<not> (i_os z = 0 \<and> both_sig_code code \<and> ondex \<noteq> None \<and> ondex \<noteq> Some index)"
    "\<not> i_ss z < i_os z" "\<not> index < 0"
    using True z(5) by (auto simp: indexer_ondex_def)
  have L: "?L \<longleftrightarrow> f = length (code @ s1 @ s2 @ body)"
    unfolding encodeIndexerFromRaw_def assms(1) of_opt_Some bind_res_Inr Let_def if_not_P [OF g(3)]
      if_not_P [OF g(4)] if_not_P [OF g(1)] if_not_P [OF g(2)] s1 s2'
    using assms(2) by (simp add: body_def concatBytes_def)
  have "length (code @ s1 @ s2 @ body)
      = ?cs + ((4 * (?cs mod 4 + i_ls z + length raw) + 2) div 3 - ?cs mod 4)"
    using l1 s2(2) z(1,5) by (simp add: body_def length_encodeB64)
  moreover have "?cs + ((4 * (?cs mod 4 + i_ls z + length raw) + 2) div 3 - ?cs mod 4) = f \<longleftrightarrow> ?r"
    using z(6) [OF assms(2)] by (intro fixed_size_iff) auto
  ultimately have "?L \<longleftrightarrow> ?r" unfolding L by metis
  with True show ?thesis by blast
qed



section \<open>Signatures derived from detached ones\<close>

text \<open>The codes \<open>fromCigar\<close> can choose, with their layouts.\<close>

lemma siger_code_sizes:
  assumes "indexedSignatureCodeForVerfer v index ondex only = Inr code"
  obtains (current) "only" "index \<le> 63" "code \<in> {''B'', ''D'', ''F''}"
    | (both) "\<not> only" "index \<le> 63" "ondex = None \<or> ondex = Some index" "code \<in> {''A'', ''C'', ''E''}"
    | (big) "only \<Longrightarrow> 63 < index" "code \<in> {''2A'', ''2B'', ''2C'', ''2D'', ''2E'', ''2F''}"
  using assms
  by (auto simp: indexedSignatureCodeForVerfer_def indexedSignatureFamilyForVerfer_def res_simps
      split: if_splits option.splits)

lemma siger_small_current:
  assumes "code \<in> {''B'', ''D'', ''F''}"
  shows "map_of INDEXER_SIZES code = Some (iz 1 1 0 (Some 88) 0)" "\<not> both_sig_code code"
    "code \<in> set SIGER_CODES"
proof -
  have "list_all (\<lambda>code. map_of INDEXER_SIZES code = Some (iz 1 1 0 (Some 88) 0)
      \<and> \<not> both_sig_code code \<and> code \<in> set SIGER_CODES) [''B'', ''D'', ''F'']" by code_simp
  with assms show "map_of INDEXER_SIZES code = Some (iz 1 1 0 (Some 88) 0)" "\<not> both_sig_code code"
    "code \<in> set SIGER_CODES" by auto
qed

lemma siger_small_both:
  assumes "code \<in> {''A'', ''C'', ''E''}"
  shows "map_of INDEXER_SIZES code = Some (iz 1 1 0 (Some 88) 0)" "both_sig_code code"
    "code \<in> set SIGER_CODES"
proof -
  have "list_all (\<lambda>code. map_of INDEXER_SIZES code = Some (iz 1 1 0 (Some 88) 0)
      \<and> both_sig_code code \<and> code \<in> set SIGER_CODES) [''A'', ''C'', ''E'']" by code_simp
  with assms show "map_of INDEXER_SIZES code = Some (iz 1 1 0 (Some 88) 0)" "both_sig_code code"
    "code \<in> set SIGER_CODES" by auto
qed

lemma siger_big:
  assumes "code \<in> {''2A'', ''2B'', ''2C'', ''2D'', ''2E'', ''2F''}"
  shows "map_of INDEXER_SIZES code = Some (iz 2 4 2 (Some 92) 0)" "code \<in> set SIGER_CODES"
proof -
  have "list_all (\<lambda>code. map_of INDEXER_SIZES code = Some (iz 2 4 2 (Some 92) 0)
      \<and> code \<in> set SIGER_CODES) [''2A'', ''2B'', ''2C'', ''2D'', ''2E'', ''2F'']" by code_simp
  with assms show "map_of INDEXER_SIZES code = Some (iz 2 4 2 (Some 92) 0)"
    "code \<in> set SIGER_CODES" by auto
qed

lemma siger_fromCigar_data:
  assumes "siger_fromCigar (Some v) raw index ondex only = Inr x"
  shows "ix_index x = index" and "0 \<le> index" and "index < 4096" and "length raw = 64"
    and "\<not> only \<Longrightarrow> ix_ondex x = Some (case ondex of Some o' \<Rightarrow> o' | None \<Rightarrow> index)"
    and "only \<Longrightarrow> index \<le> 63 \<Longrightarrow> ix_ondex x = None"
    and "parseSiger (indexer_qb64b x @ rest) Txt = Inr x"
proof -
  define nond where "nond = (if only then None else Some (case ondex of Some o' \<Rightarrow> o' | None \<Rightarrow> index))"
  from assms obtain code where code: "indexedSignatureCodeForVerfer v index nond only = Inr code"
    and enc: "encodeIndexerFromRaw code raw index nond = Inr x" and sig: "ix_code x \<in> set SIGER_CODES"
    by (auto simp: siger_fromCigar_def nond_def Let_def siger_check_def res_simps)
  consider (small) "map_of INDEXER_SIZES code = Some (iz 1 1 0 (Some 88) 0)" "index \<le> 63"
      "only \<Longrightarrow> \<not> both_sig_code code" "\<not> only \<Longrightarrow> both_sig_code code \<and> nond = Some index"
    | (big) "map_of INDEXER_SIZES code = Some (iz 2 4 2 (Some 92) 0)" "only \<Longrightarrow> 63 < index"
  proof (cases rule: siger_code_sizes [OF code])
    case 1
    with siger_small_current [OF 1(3)] small show ?thesis by blast
  next
    case 2
    then have "nond = Some index" by (simp add: nond_def split: option.splits)
    with 2 siger_small_both [OF 2(4)] small show ?thesis by blast
  next
    case 3
    with siger_big [OF 3(2)] big show ?thesis by blast
  qed
  then have "index < 4096 \<and> length raw = 64 \<and> 0 \<le> index \<and> ix_index x = index
    \<and> (\<not> only \<longrightarrow> ix_ondex x = nond) \<and> (only \<and> index \<le> 63 \<longrightarrow> ix_ondex x = None)
    \<and> indexer_valid x"
  proof cases
    case small
    note iff = indexer_encodes_iff [OF small(1), of 88 raw index nond]
    have "0 \<le> index \<and> length raw = 64" using iff enc by (simp add: iz_def)
    moreover have "ix_index x = index \<and> ix_ondex x = (if only then None else Some index)"
      using encodeIndexer_fields [OF enc small(1)] small(3,4)
      by (cases only) (simp_all add: indexer_ondex_def iz_def)
    moreover have "indexer_valid x" using encodeIndexer_encoded [OF enc small(1)] by (simp add: iz_def)
    ultimately show ?thesis using small(2,4) by auto
  next
    case big
    note iff = indexer_encodes_iff [OF big(1), of 92 raw index nond]
    have "0 \<le> index \<and> length raw = 64 \<and> index < 4096" using iff enc by (simp add: iz_def)
    moreover have "ix_index x = index \<and> ix_ondex x = Some (case nond of Some o' \<Rightarrow> o' | None \<Rightarrow> index)"
      using encodeIndexer_fields [OF enc big(1)] by (simp add: indexer_ondex_def iz_def)
    moreover have "indexer_valid x" using encodeIndexer_encoded [OF enc big(1)] by (simp add: iz_def)
    ultimately show ?thesis using big(2) by (auto simp: nond_def)
  qed
  then show "ix_index x = index" and "0 \<le> index" and "index < 4096" and "length raw = 64"
    and "\<not> only \<Longrightarrow> ix_ondex x = Some (case ondex of Some o' \<Rightarrow> o' | None \<Rightarrow> index)"
    and "only \<Longrightarrow> index \<le> 63 \<Longrightarrow> ix_ondex x = None"
    and "parseSiger (indexer_qb64b x @ rest) Txt = Inr x"
    using indexer_txt.parse_enc [of x rest] sig
    by (auto simp: nond_def parseSiger_def parseIndexer_def siger_check_def)
qed

text \<open>Derived signatures. A detached signature turned into an indexed one carries the
  requested index; one made for both lists carries the requested ondex (the index when none is
  given); a current-only one carries no ondex while its index is at most 63. It is a signature
  code and is read back by the text parser.\<close>

lemma siger_fromCigar_fields:
  assumes "siger_fromCigar (Some v) raw index ondex only = Inr x"
  shows "ix_index x = index \<and> 0 \<le> index \<and> index < 4096 \<and> length raw = 64
    \<and> (\<not> only \<longrightarrow> ix_ondex x = Some (case ondex of Some o' \<Rightarrow> o' | None \<Rightarrow> index))
    \<and> (only \<and> index \<le> 63 \<longrightarrow> ix_ondex x = None)
    \<and> parseSiger (indexer_qb64b x @ rest) Txt = Inr x"
  using siger_fromCigar_data [OF assms] by blast

text \<open>A current-only signature whose index needs the big code carries an ondex, the index:
  the field is there and the encoder fills it. Readers that ask for the ondex cannot tell it
  from one made for both lists.\<close>

lemma siger_big_current_only_has_ondex:
  "bind_res (siger_fromCigar (Some ''D'') (replicate 64 1) 64 None True)
     (\<lambda>x. Inr (ix_code x, ix_index x, ix_ondex x)) = Inr (''2B'', 64, Some 64)"
  by code_simp

text \<open>The variable-size code \<open>0z\<close> writes the index where the parser reads the
  size, so its encoding is not read back.\<close>

lemma indexer_variable_not_read_back:
  "bind_res (encodeIndexerFromRaw ''0z'' [1, 2, 3] 0 None)
     (\<lambda>x. bind_res (parseIndexerFromTextData (indexer_qb64b x)) (\<lambda>y. Inr (ix_raw x, ix_raw y)))
     = Inr ([1, 2, 3], [])"
  by code_simp

end
