(* ===== verification/Counter.thy ===== *)
theory Counter
  imports Matter
begin

text \<open>
  The versioned registry (\<^verbatim>\<open>cesr/src/tables/counter-version-registry.ts\<close>),
  the group counters (\<^verbatim>\<open>cesr/src/primitives/counter.ts\<close>) and the choice of
  attachment counters (\<^verbatim>\<open>keri/src/core/attachment-countering.ts\<close>). The lemmas
  show how a version selects its tables, that counters are read back from both domains, which
  counts a code can carry, and that an enclosing counter frames exactly its payload.
\<close>

section \<open>The versioned registry\<close>

record versionage =
  vn_major :: nat
  vn_minor :: nat

definition Vrsn_1_0 :: versionage where
  "Vrsn_1_0 = \<lparr>vn_major = 1, vn_minor = 0\<rparr>"

definition Vrsn_2_0 :: versionage where
  "Vrsn_2_0 = \<lparr>vn_major = 2, vn_minor = 0\<rparr>"

type_synonym 'a versioned_registry = "(nat \<times> (nat \<times> 'a) list) list"

record 'a versioned_resolution =
  vr_value :: 'a
  vr_resolvedMajor :: nat
  vr_resolvedMinor :: nat
  vr_latestMinor :: nat

definition supportedMinors :: "(nat \<times> 'a) list \<Rightarrow> nat list" where
  "supportedMinors registry = sort (map fst registry)"

definition resolveVersionedRegistryValue ::
  "'a versioned_registry \<Rightarrow> versionage \<Rightarrow> 'a versioned_resolution res" where
  "resolveVersionedRegistryValue registry version =
     bind_res (of_opt VersionError (map_of registry (vn_major version))) (\<lambda>byMinor.
     let minors = supportedMinors byMinor in
     if minors = [] then Inl VersionError
     else
       (let latestMinor = minors ! (length minors - 1)
        in if vn_minor version > latestMinor then Inl VersionError
           else bind_res (of_opt VersionError (map_of byMinor latestMinor)) (\<lambda>value.
             Inr \<lparr>vr_value = value, vr_resolvedMajor = vn_major version,
                  vr_resolvedMinor = latestMinor, vr_latestMinor = latestMinor\<rparr>)))"

definition COUNTER_SIZE_TABLES_BY_VERSION :: "(string \<times> cizage) list versioned_registry" where
  "COUNTER_SIZE_TABLES_BY_VERSION = [(1, [(0, COUNTER_SIZES_V1)]), (2, [(0, COUNTER_SIZES_V2)])]"

definition COUNTER_CODE_NAMES_BY_VERSION :: "(string \<times> string) list versioned_registry" where
  "COUNTER_CODE_NAMES_BY_VERSION = [(1, [(0, COUNTER_CODE_NAMES_V1)]), (2, [(0, COUNTER_CODE_NAMES_V2)])]"

definition resolveCounterSizeTable :: "versionage \<Rightarrow> (string \<times> cizage) list res" where
  "resolveCounterSizeTable version =
     bind_res (resolveVersionedRegistryValue COUNTER_SIZE_TABLES_BY_VERSION version) (\<lambda>r. Inr (vr_value r))"

definition resolveCounterCodeNameTable :: "versionage \<Rightarrow> (string \<times> string) list res" where
  "resolveCounterCodeNameTable version =
     bind_res (resolveVersionedRegistryValue COUNTER_CODE_NAMES_BY_VERSION version) (\<lambda>r. Inr (vr_value r))"

text \<open>The inverted tables \<open>CtrDexV1\<close> and \<open>CtrDexV2\<close>: a later entry of the same
  name overwrites an earlier one.\<close>

definition invertCodeNames :: "(string \<times> string) list \<Rightarrow> (string \<times> string) list" where
  "invertCodeNames names = rev (map (\<lambda>(code, name). (name, code)) names)"

definition CtrDexV1 :: "(string \<times> string) list" where
  "CtrDexV1 = invertCodeNames COUNTER_CODE_NAMES_V1"

definition CtrDexV2 :: "(string \<times> string) list" where
  "CtrDexV2 = invertCodeNames COUNTER_CODE_NAMES_V2"

section \<open>Counters\<close>

record counter =
  ct_code :: string
  ct_count :: nat
  ct_fullSize :: nat
  ct_fullSizeB2 :: nat
  ct_qb64 :: string
  ct_name :: string
  ct_version :: versionage

definition counter_name :: "(string \<times> string) list \<Rightarrow> string \<Rightarrow> string" where
  "counter_name names code =
     (case map_of names code of Some n \<Rightarrow> n | None \<Rightarrow> ''UnknownCounter'')"

definition bard_key :: "string \<Rightarrow> byte \<times> byte" where
  "bard_key code = (case codeB64ToB2 code of
     Inr (a # c # _) \<Rightarrow> (a, c) | Inr [a] \<Rightarrow> (a, 0) | _ \<Rightarrow> (0, 0))"

definition COUNTER_BARDS :: "((byte \<times> byte) \<times> nat) list" where
  "COUNTER_BARDS = map (\<lambda>(code, hs). (bard_key code, hs)) COUNTER_HARDS"

definition parseCounterFromTextData :: "byte list \<Rightarrow> versionage \<Rightarrow> counter res" where
  "parseCounterFromTextData input version =
     (let txt = text_of input in
      if txt = [] then Inl (ShortageError 1 0)
      else if txt ! 0 \<noteq> CHR ''-'' then Inl DeserializeError
      else if length txt < 2 then Inl (ShortageError 2 (length txt))
      else bind_res (resolveCounterSizeTable version) (\<lambda>sizeTable.
        bind_res (resolveCounterCodeNameTable version) (\<lambda>nameTable.
        case map_of COUNTER_HARDS (take 2 txt) of
          None \<Rightarrow> if length txt < 4 then Inl (ShortageError 4 (length txt)) else Inl UnknownCodeError
        | Some hs \<Rightarrow>
            if length txt < hs then Inl (ShortageError hs (length txt))
            else
              (let code = take hs txt
               in bind_res (of_opt UnknownCodeError (map_of sizeTable code)) (\<lambda>z.
                  if length txt < c_fs z then Inl (ShortageError (c_fs z) (length txt))
                  else bind_res (b64ToInt (slice (c_hs z) (c_hs z + c_ss z) txt)) (\<lambda>count.
                    Inr \<lparr>ct_code = code, ct_count = count, ct_fullSize = c_fs z,
                         ct_fullSizeB2 = sceil34 (c_fs z), ct_qb64 = take (c_fs z) txt,
                         ct_name = counter_name nameTable code, ct_version = version\<rparr>))))))"

definition parseCounterFromBinaryData :: "byte list \<Rightarrow> versionage \<Rightarrow> counter res" where
  "parseCounterFromBinaryData input version =
     (if length input < 2 then Inl (ShortageError 2 (length input))
      else bind_res (resolveCounterSizeTable version) (\<lambda>sizeTable.
        bind_res (resolveCounterCodeNameTable version) (\<lambda>nameTable.
        bind_res (nabSextets input 2) (\<lambda>firstTwo.
        bind_res (of_opt UnknownCodeError (map_of COUNTER_BARDS (firstTwo ! 0, firstTwo ! 1))) (\<lambda>hs.
        if length input < sceil34 hs then Inl (ShortageError (sceil34 hs) (length input))
        else bind_res (codeB2ToB64 input hs) (\<lambda>code.
        bind_res (of_opt UnknownCodeError (map_of sizeTable code)) (\<lambda>z.
        let bcs = sceil34 (c_fs z) in
        if length input < bcs then Inl (ShortageError bcs (length input))
        else bind_res (codeB2ToB64 input (c_fs z)) (\<lambda>qb64.
        bind_res (b64ToInt (slice (c_hs z) (c_hs z + c_ss z) qb64)) (\<lambda>count.
        Inr \<lparr>ct_code = code, ct_count = count, ct_fullSize = c_fs z, ct_fullSizeB2 = bcs,
             ct_qb64 = qb64, ct_name = counter_name nameTable code, ct_version = version\<rparr>)))))))))"

definition encodeCounterFromFields :: "string \<Rightarrow> int \<Rightarrow> versionage \<Rightarrow> counter res" where
  "encodeCounterFromFields code count version =
     bind_res (resolveCounterSizeTable version) (\<lambda>sizeTable.
     bind_res (resolveCounterCodeNameTable version) (\<lambda>nameTable.
     bind_res (of_opt UnknownCodeError (map_of sizeTable code)) (\<lambda>z.
     if count < 0 \<or> count > 64 ^ c_ss z - 1 then Inl DeserializeError
     else bind_res (intToB64 count (c_ss z)) (\<lambda>s.
       let qb64 = code @ s
       in if length qb64 \<noteq> c_fs z then Inl DeserializeError
          else Inr \<lparr>ct_code = code, ct_count = nat count, ct_fullSize = c_fs z,
                    ct_fullSizeB2 = sceil34 (c_fs z), ct_qb64 = qb64,
                    ct_name = counter_name nameTable code, ct_version = version\<rparr>))))"

definition semanticNameForCode :: "string \<Rightarrow> versionage \<Rightarrow> string option res" where
  "semanticNameForCode code version =
     bind_res (resolveCounterCodeNameTable version) (\<lambda>nameTable. Inr (map_of nameTable code))"

definition codeForSemanticName :: "string \<Rightarrow> versionage \<Rightarrow> string option res" where
  "codeForSemanticName name version =
     bind_res (resolveCounterCodeNameTable version) (\<lambda>nameTable.
     Inr (map_of (map (\<lambda>(code, candidate). (candidate, code)) nameTable) name))"

definition promoteCounterCodeForCount :: "string \<Rightarrow> int \<Rightarrow> versionage \<Rightarrow> string res" where
  "promoteCounterCodeForCount code count version =
     bind_res (resolveCounterSizeTable version) (\<lambda>sizeTable.
     bind_res (of_opt UnknownCodeError (map_of sizeTable code)) (\<lambda>z.
     if count \<le> 64 ^ c_ss z - 1 then Inr code
     else bind_res (semanticNameForCode code version) (\<lambda>name.
       case name of
         None \<Rightarrow> Inl DeserializeError
       | Some n \<Rightarrow>
           if n = [] \<or> take 3 n = ''Big'' then Inl DeserializeError
           else bind_res (codeForSemanticName (''Big'' @ n) version) (of_opt DeserializeError))))"

record counter_init =
  ci_code :: "string option"
  ci_count :: "int option"
  ci_countB64 :: "string option"
  ci_qb64b :: "byte list option"
  ci_qb64 :: "string option"
  ci_qb2 :: "byte list option"
  ci_version :: "versionage option"

definition parseCounterInit :: "counter_init \<Rightarrow> counter res" where
  "parseCounterInit init =
     (let version = (case ci_version init of Some v \<Rightarrow> v | None \<Rightarrow> Vrsn_2_0) in
      case ci_code init of
        Some code \<Rightarrow>
          bind_res (case ci_count init of
                      Some n \<Rightarrow> Inr n
                    | None \<Rightarrow> (case ci_countB64 init of
                        Some (c # cs) \<Rightarrow> bind_res (b64ToInt (c # cs)) (\<lambda>n. Inr (int n))
                      | _ \<Rightarrow> Inr 0))
            (\<lambda>count. encodeCounterFromFields code count version)
      | None \<Rightarrow>
          (case ci_qb64b init of Some bs \<Rightarrow> parseCounterFromTextData bs version
           | None \<Rightarrow>
             (case ci_qb64 init of Some (c # cs) \<Rightarrow> parseCounterFromTextData (utf8 (c # cs)) version
              | _ \<Rightarrow>
                (case ci_qb2 init of Some bs \<Rightarrow> parseCounterFromBinaryData bs version
                 | None \<Rightarrow> Inl DeserializeError))))"

definition parseCounter :: "byte list \<Rightarrow> versionage \<Rightarrow> cold_domain \<Rightarrow> counter res" where
  "parseCounter input version cold =
     (if cold = Bny then parseCounterFromBinaryData input version
      else parseCounterFromTextData input version)"

definition counter_qb64b :: "counter \<Rightarrow> byte list" where
  "counter_qb64b c = utf8 (ct_qb64 c)"

definition counter_qb2 :: "counter \<Rightarrow> byte list res" where
  "counter_qb2 c = codeB64ToB2 (ct_qb64 c)"

definition counter_makeGVC :: "versionage \<Rightarrow> byte list res" where
  "counter_makeGVC version =
     bind_res (of_opt JsError (map_of CtrDexV2 ''KERIACDCGenusVersion'')) (\<lambda>code.
     bind_res (intToB64 (int (vn_major version)) 1) (\<lambda>s1.
     bind_res (intToB64 (int (vn_minor version)) 2) (\<lambda>s2.
     bind_res (parseCounterInit \<lparr>ci_code = Some code, ci_count = None, ci_countB64 = Some (s1 @ s2),
         ci_qb64b = None, ci_qb64 = None, ci_qb2 = None, ci_version = Some version\<rparr>) (\<lambda>c.
     Inr (counter_qb64b c)))))"

text \<open>The counter \<open>enclose\<close> writes in front of a payload of \<open>count\<close> units.\<close>

definition enclosing_counter :: "string \<Rightarrow> int \<Rightarrow> versionage \<Rightarrow> counter res" where
  "enclosing_counter code count version =
     bind_res (codeForSemanticName code version) (\<lambda>c.
     bind_res (promoteCounterCodeForCount (case c of Some x \<Rightarrow> x | None \<Rightarrow> code) count version)
       (\<lambda>counterCode. encodeCounterFromFields counterCode count version))"

definition counter_enclose ::
  "byte list option \<Rightarrow> byte list option \<Rightarrow> string \<Rightarrow> versionage \<Rightarrow> byte list res" where
  "counter_enclose qb64 qb2 code version =
     (case qb64 of
        Some p \<Rightarrow>
          if length p mod 4 \<noteq> 0 then Inl DeserializeError
          else bind_res (enclosing_counter code (int (length p div 4)) version) (\<lambda>c.
            Inr (concatBytes [counter_qb64b c, p]))
      | None \<Rightarrow>
          (case qb2 of
             Some p \<Rightarrow>
               if length p mod 3 \<noteq> 0 then Inl DeserializeError
               else bind_res (enclosing_counter code (int (length p div 3)) version) (\<lambda>c.
                 bind_res (counter_qb2 c) (\<lambda>h. Inr (concatBytes [h, p])))
           | None \<Rightarrow>
               bind_res (enclosing_counter code 0 version) (\<lambda>c. Inr (counter_qb64b c))))"

section \<open>Attachment counters\<close>

definition MAX_SMALL_COUNTER_COUNT :: int where
  "MAX_SMALL_COUNTER_COUNT = 4095"

definition versionLess :: "versionage \<Rightarrow> versionage \<Rightarrow> bool" where
  "versionLess left right \<longleftrightarrow> vn_major left < vn_major right
     \<or> (vn_major left = vn_major right \<and> vn_minor left < vn_minor right)"

definition resolveAttachmentGvrsn ::
  "versionage \<Rightarrow> versionage option \<Rightarrow> versionage \<Rightarrow> bool \<Rightarrow> versionage" where
  "resolveAttachmentGvrsn serder_pvrsn serder_gvrsn gvrsn nested =
     (let resolved = (if nested \<and> vn_major gvrsn < 2 then Vrsn_2_0 else gvrsn);
          serderGvrsn = (case serder_gvrsn of Some v \<Rightarrow> v | None \<Rightarrow> serder_pvrsn)
      in if versionLess resolved serderGvrsn then serderGvrsn else resolved)"

text \<open>\<open>codeFor\<close> of attachment-countering.ts.\<close>

definition attachment_codeFor :: "string \<Rightarrow> int \<Rightarrow> versionage \<Rightarrow> string res" where
  "attachment_codeFor name count gvrsn =
     (let table = (if 2 \<le> vn_major gvrsn then CtrDexV2 else CtrDexV1);
          semanticName = (if MAX_SMALL_COUNTER_COUNT < count \<and> map_of table (''Big'' @ name) \<noteq> None
                          then ''Big'' @ name else name)
      in of_opt JsError (map_of table semanticName))"

definition validateCounterCount :: "int \<Rightarrow> unit res" where
  "validateCounterCount count = ensure (0 \<le> count \<and> count < 2 ^ 53) JsError"

definition attachmentCounterQb64b :: "string \<Rightarrow> int \<Rightarrow> versionage \<Rightarrow> byte list res" where
  "attachmentCounterQb64b name count gvrsn =
     bind_res (validateCounterCount count) (\<lambda>_.
     bind_res (attachment_codeFor name count gvrsn) (\<lambda>code.
     bind_res (encodeCounterFromFields code count gvrsn) (\<lambda>c. Inr (counter_qb64b c))))"

definition attachmentCounterPayloadQb64b ::
  "string \<Rightarrow> int \<Rightarrow> byte list list \<Rightarrow> versionage \<Rightarrow> byte list res" where
  "attachmentCounterPayloadQb64b name itemCount payload gvrsn =
     (let payloadLength = sum_list (map length payload)
      in if payloadLength mod 4 \<noteq> 0 then Inl JsError
         else attachmentCounterQb64b name
           (if 2 \<le> vn_major gvrsn then int (payloadLength div 4) else itemCount) gvrsn)"

definition encloseAttachmentPayloadQb64b ::
  "string \<Rightarrow> byte list list \<Rightarrow> versionage \<Rightarrow> byte list res" where
  "encloseAttachmentPayloadQb64b name payload gvrsn =
     (let raw = concat payload
      in if length raw mod 4 \<noteq> 0 then Inl JsError
         else counter_enclose (Some raw) None name gvrsn)"

definition pathedMaterialCounterQb64b :: "int \<Rightarrow> versionage \<Rightarrow> byte list res" where
  "pathedMaterialCounterQb64b count gvrsn =
     bind_res (validateCounterCount count) (\<lambda>_.
     bind_res (attachment_codeFor ''PathedMaterialCouples'' count gvrsn) (\<lambda>code.
     bind_res (encodeCounterFromFields code count gvrsn) (\<lambda>c. Inr (counter_qb64b c))))"

section \<open>Version selection\<close>

lemma sorted_last_Max: "sorted xs \<Longrightarrow> xs \<noteq> [] \<Longrightarrow> last xs = Max (set xs)"
proof (induction xs)
  case Nil
  then show ?case by simp
next
  case (Cons x xs)
  show ?case
  proof (cases "xs = []")
    case False
    then have "Max (set xs) \<in> set xs" by simp
    with Cons.prems(1) have "x \<le> Max (set xs)" by auto
    with Cons False show ?thesis by (simp add: max_def)
  qed simp
qed

text \<open>Registry resolution. A request resolves exactly when its major version is in the
  registry, its minor version is at most the latest minor of that major, and the latest minor has
  a value; it resolves to the value of the latest minor, never of a lower one.\<close>

lemma resolve_registry_latest:
  assumes "map_of registry (vn_major v) = Some byMinor" and "byMinor \<noteq> []"
  shows "(\<exists>r. resolveVersionedRegistryValue registry v = Inr r
            \<and> vr_latestMinor r = Max (fst ` set byMinor) \<and> vr_resolvedMajor r = vn_major v
            \<and> map_of byMinor (Max (fst ` set byMinor)) = Some (vr_value r))
      \<and> vn_minor v \<le> Max (fst ` set byMinor)
    \<or> resolveVersionedRegistryValue registry v = Inl VersionError
      \<and> Max (fst ` set byMinor) < vn_minor v"
proof -
  let ?ms = "sort (map fst byMinor)"
  have ne: "?ms \<noteq> []" using assms(2) by (metis list.size(3) length_sort length_0_conv length_map)
  have last: "?ms ! (length ?ms - 1) = Max (fst ` set byMinor)"
  proof -
    have "?ms ! (length ?ms - 1) = last ?ms" by (rule last_conv_nth [OF ne, symmetric])
    also have "\<dots> = Max (set ?ms)" by (rule sorted_last_Max [OF sorted_sort ne])
    finally show ?thesis by simp
  qed
  have "Max (fst ` set byMinor) \<in> fst ` set byMinor" using assms(2) by (intro Max_in) auto
  then obtain x where x: "map_of byMinor (Max (fst ` set byMinor)) = Some x"
    by (metis map_of_eq_None_iff not_Some_eq)
  show ?thesis
    using assms(1) ne last x
    by (cases "vn_minor v \<le> Max (fst ` set byMinor)")
      (auto simp: resolveVersionedRegistryValue_def supportedMinors_def Let_def)
qed

lemma resolve_sizes:
  "resolveCounterSizeTable v =
     (if vn_minor v \<noteq> 0 then Inl VersionError
      else if vn_major v = 1 then Inr COUNTER_SIZES_V1
      else if vn_major v = 2 then Inr COUNTER_SIZES_V2 else Inl VersionError)"
  by (simp add: resolveCounterSizeTable_def resolveVersionedRegistryValue_def supportedMinors_def
      COUNTER_SIZE_TABLES_BY_VERSION_def)

lemma resolve_names:
  "resolveCounterCodeNameTable v =
     (if vn_minor v \<noteq> 0 then Inl VersionError
      else if vn_major v = 1 then Inr COUNTER_CODE_NAMES_V1
      else if vn_major v = 2 then Inr COUNTER_CODE_NAMES_V2 else Inl VersionError)"
  by (simp add: resolveCounterCodeNameTable_def resolveVersionedRegistryValue_def supportedMinors_def
      COUNTER_CODE_NAMES_BY_VERSION_def)

lemma counter_sizage:
  assumes "resolveCounterSizeTable v = Inr t" and "map_of t code = Some z"
  shows "length code = c_hs z" "take 1 code = ''-''" "map_of COUNTER_HARDS (take 2 code) = Some (c_hs z)"
    "is_b64 code" "c_fs z = c_hs z + c_ss z" "c_fs z mod 4 = 0" "0 < c_ss z" "2 \<le> c_hs z"
    "\<exists>n. resolveCounterCodeNameTable v = Inr n"
proof -
  have "t = COUNTER_SIZES_V1 \<or> t = COUNTER_SIZES_V2"
    using assms(1) by (auto simp: resolve_sizes split: if_splits)
  with counter_table_ok map_of_SomeD [OF assms(2)] have "counter_entry_ok (code, z)"
    by (auto simp: list_all_iff)
  then show "length code = c_hs z" "take 1 code = ''-''"
    "map_of COUNTER_HARDS (take 2 code) = Some (c_hs z)"
    "is_b64 code" "c_fs z = c_hs z + c_ss z" "c_fs z mod 4 = 0" "0 < c_ss z" "2 \<le> c_hs z"
    by (auto simp: counter_entry_ok_def is_b64_def list_all_iff)
  show "\<exists>n. resolveCounterCodeNameTable v = Inr n"
    using assms(1) by (auto simp: resolve_sizes resolve_names split: if_splits)
qed

section \<open>What encoding produces\<close>

definition counter_encoded :: "counter \<Rightarrow> versionage \<Rightarrow> (string \<times> cizage) list \<Rightarrow> cizage \<Rightarrow> string \<Rightarrow> bool" where
  "counter_encoded c v t z s \<longleftrightarrow>
     resolveCounterSizeTable v = Inr t \<and> map_of t (ct_code c) = Some z
     \<and> (\<exists>n. resolveCounterCodeNameTable v = Inr n \<and> ct_name c = counter_name n (ct_code c))
     \<and> ct_version c = v \<and> ct_qb64 c = ct_code c @ s \<and> length s = c_ss z \<and> is_b64 (ct_qb64 c)
     \<and> b64ToInt s = Inr (ct_count c) \<and> ct_fullSize c = c_fs z \<and> length (ct_qb64 c) = c_fs z
     \<and> ct_fullSizeB2 c = sceil34 (c_fs z)"

definition counter_valid :: "versionage \<Rightarrow> counter \<Rightarrow> bool" where
  "counter_valid v c \<longleftrightarrow> (\<exists>t z s. counter_encoded c v t z s)"

lemma encodeCounter_encoded:
  assumes "encodeCounterFromFields code count v = Inr c"
  shows "counter_valid v c \<and> ct_code c = code \<and> int (ct_count c) = count \<and> ct_version c = v"
proof -
  obtain t where t: "resolveCounterSizeTable v = Inr t"
    using assms by (auto simp: encodeCounterFromFields_def res_simps)
  obtain n where n: "resolveCounterCodeNameTable v = Inr n"
    using assms by (auto simp: encodeCounterFromFields_def res_simps)
  obtain z where z: "map_of t code = Some z"
    using assms t n by (auto simp: encodeCounterFromFields_def res_simps)
  note k = counter_sizage [OF t z]
  from assms t n z obtain s where c: "0 \<le> count" "intToB64 count (c_ss z) = Inr s"
    "c = \<lparr>ct_code = code, ct_count = nat count, ct_fullSize = c_fs z,
        ct_fullSizeB2 = sceil34 (c_fs z), ct_qb64 = code @ s,
        ct_name = counter_name n code, ct_version = v\<rparr>" "length (code @ s) = c_fs z"
    by (auto simp: encodeCounterFromFields_def Let_def res_simps split: if_splits)
  have "intToB64 (int (nat count)) (c_ss z) = Inr s" using c(1,2) by simp
  from intToB64_Inr [OF this k(7)] have s: "length s = c_ss z" "is_b64 s"
    "b64ToInt s = Inr (nat count)" by auto
  then have "counter_encoded c v t z s" using t n z c k by (simp add: counter_encoded_def)
  then have "counter_valid v c" by (auto simp: counter_valid_def)
  with c show ?thesis by simp
qed

lemma encodeCounter_iff:
  assumes "resolveCounterSizeTable v = Inr t" and "map_of t code = Some z"
  shows "(\<exists>c. encodeCounterFromFields code count v = Inr c) \<longleftrightarrow> 0 \<le> count \<and> count < 64 ^ c_ss z"
proof -
  note k = counter_sizage [OF assms]
  obtain n where n: "resolveCounterCodeNameTable v = Inr n" using k(9) by blast
  show ?thesis
  proof (cases "0 \<le> count \<and> count < 64 ^ c_ss z")
    case True
    then obtain m where m: "count = int m" using zero_le_imp_eq_int by blast
    have "m < 64 ^ c_ss z" using True by (simp add: m flip: of_nat_less_iff)
    from intToB64_ok [OF this k(7)] obtain s where s: "intToB64 count (c_ss z) = Inr s" by (auto simp: m)
    have "intToB64 (int m) (c_ss z) = Inr s" using s by (simp add: m)
    from intToB64_Inr [OF this k(7)] have "length s = c_ss z" by simp
    with True s n assms k(1,5) show ?thesis
      by (auto simp: encodeCounterFromFields_def Let_def)
  next
    case False
    then have "count < 0 \<or> count > 64 ^ c_ss z - 1" by linarith
    with False n assms show ?thesis by (auto simp: encodeCounterFromFields_def)
  qed
qed

section \<open>Round trips\<close>

lemma counter_encoded_text:
  assumes "counter_encoded c v t z s"
  shows "parseCounterFromTextData (counter_qb64b c @ rest) v = Inr c"
proof -
  note e = assms [unfolded counter_encoded_def]
  note k = counter_sizage [of v t "ct_code c" z]
  have k: "length (ct_code c) = c_hs z" "take 1 (ct_code c) = ''-''"
    "map_of COUNTER_HARDS (take 2 (ct_code c)) = Some (c_hs z)" "c_fs z = c_hs z + c_ss z" "2 \<le> c_hs z"
    using k e by auto
  obtain n where n: "resolveCounterCodeNameTable v = Inr n" "ct_name c = counter_name n (ct_code c)"
    using e by blast
  let ?txt = "ct_qb64 c @ text_of rest"
  have tx: "text_of (counter_qb64b c @ rest) = ?txt"
    unfolding counter_qb64b_def by (rule text_of_utf8) (use e in blast)
  have first: "?txt ! 0 = CHR ''-''" using k(1,2,5) e by (cases "ct_code c") auto
  have two: "take 2 ?txt = take 2 (ct_code c)" "take (c_hs z) ?txt = ct_code c"
    "take (c_fs z) ?txt = ct_qb64 c" "slice (c_hs z) (c_hs z + c_ss z) ?txt = s"
    "?txt \<noteq> []" "\<not> length ?txt < 2" "\<not> length ?txt < c_hs z" "\<not> length ?txt < c_fs z"
    using k e by (auto simp: slice_def)
  have "parseCounterFromTextData (counter_qb64b c @ rest) v = Inr
      \<lparr>ct_code = ct_code c, ct_count = ct_count c, ct_fullSize = c_fs z,
       ct_fullSizeB2 = sceil34 (c_fs z), ct_qb64 = ct_qb64 c, ct_name = ct_name c, ct_version = v\<rparr>"
    using e n first two k by (simp add: parseCounterFromTextData_def Let_def tx del: text_of_append)
  moreover have "c = \<lparr>ct_code = ct_code c, ct_count = ct_count c, ct_fullSize = c_fs z,
       ct_fullSizeB2 = sceil34 (c_fs z), ct_qb64 = ct_qb64 c, ct_name = ct_name c, ct_version = v\<rparr>"
    using e by (intro counter.equality) simp_all
  ultimately show ?thesis by simp
qed

lemma bard_key_nth:
  assumes "is_b64 t" and "length t = 2"
  shows "bard_key t = (qb2_of t ! 0, qb2_of t ! 1)"
proof -
  have "length (qb2_of t) = 2" using assms(2) by (simp add: length_qb2_of sceil34_def)
  then obtain a b where "qb2_of t = [a, b]" by (auto simp: length_Suc_conv numeral_2_eq_2)
  with assms(1) show ?thesis by (simp add: bard_key_def codeB64ToB2_b64)
qed

lemma qb2_of_inj:
  assumes "is_b64 t" and "is_b64 u" and "length t = length u" and "qb2_of t = qb2_of u"
  shows "t = u"
  using codeB2ToB64_qb2 [OF assms(1) le_refl, of "[]"] codeB2ToB64_qb2 [OF assms(2) le_refl, of "[]"]
    assms(3,4) by simp

lemma COUNTER_BARDS_lookup:
  assumes "is_b64 t" and "length t = 2"
  shows "map_of COUNTER_BARDS (qb2_of t ! 0, qb2_of t ! 1) = map_of COUNTER_HARDS t"
proof -
  have ok: "list_all (\<lambda>(k, v). length k = 2 \<and> list_all (\<lambda>c. c \<in> set B64_ALPHABET) k) COUNTER_HARDS"
    by code_simp
  have "k = t" if k: "k \<in> fst ` set COUNTER_HARDS" and eq: "bard_key k = bard_key t" for k
  proof -
    from ok k have k: "length k = 2" "is_b64 k" by (auto simp: list_all_iff is_b64_def)
    have "qb2_of k = qb2_of t"
    proof (rule nth_equalityI)
      show "length (qb2_of k) = length (qb2_of t)" by (simp add: length_qb2_of k assms)
      show "qb2_of k ! i = qb2_of t ! i" if "i < length (qb2_of k)" for i
        using that eq bard_key_nth [OF k(2,1)] bard_key_nth [OF assms]
        by (cases i) (auto simp: length_qb2_of k sceil34_def)
    qed
    with k assms qb2_of_inj show ?thesis by metis
  qed
  from map_of_map_inj [of COUNTER_HARDS bard_key t, OF this]
  show ?thesis unfolding COUNTER_BARDS_def bard_key_nth [OF assms, symmetric] .
qed

lemma counter_encoded_binary:
  assumes "counter_encoded c v t z s"
  shows "parseCounterFromBinaryData (qb2_of (ct_qb64 c) @ rest) v = Inr c"
proof -
  note e = assms [unfolded counter_encoded_def]
  let ?t = "ct_qb64 c"
  let ?in = "qb2_of ?t @ rest"
  have k: "length (ct_code c) = c_hs z" "map_of COUNTER_HARDS (take 2 (ct_code c)) = Some (c_hs z)"
    "c_fs z = c_hs z + c_ss z" "2 \<le> c_hs z"
    using counter_sizage [of v t "ct_code c" z] e by auto
  have b: "is_b64 ?t" and q: "?t = ct_code c @ s" and ls: "length s = c_ss z" "length ?t = c_fs z"
    using e by blast+
  have le: "2 \<le> length ?t" "c_hs z \<le> length ?t" "c_fs z \<le> length ?t" using ls q k by auto
  have li: "sceil34 n \<le> length ?in" if "n \<le> length ?t" for n
    using sceil34_mono [OF that] by (simp add: length_qb2_of)
  have two: "\<not> length ?in < 2" using li [OF le(1)] by (simp add: sceil34_def)
  have nab: "nabSextets ?in 2 = Inr (qb2_of (take 2 ?t))" by (rule nabSextets_qb2 [OF b le(1)])
  have t2: "take 2 ?t = take 2 (ct_code c)" "length (take 2 ?t) = 2" "is_b64 (take 2 ?t)"
    using q k le(1) b by auto
  have hs: "map_of COUNTER_BARDS (qb2_of (take 2 ?t) ! 0, qb2_of (take 2 ?t) ! 1) = Some (c_hs z)"
    using COUNTER_BARDS_lookup [OF t2(3,2)] k(2) t2(1) by simp
  have hard: "codeB2ToB64 ?in (c_hs z) = Inr (ct_code c)"
    using codeB2ToB64_qb2 [OF b le(2)] q k(1) by simp
  have qb: "codeB2ToB64 ?in (c_fs z) = Inr ?t"
    using codeB2ToB64_qb2 [OF b le(3)] ls by simp
  have sl: "slice (c_hs z) (c_hs z + c_ss z) ?t = s" using q k(1) ls by (simp add: slice_def)
  have n1: "\<not> length ?in < sceil34 (c_hs z)" "\<not> length ?in < sceil34 (c_fs z)"
    using li [OF le(2)] li [OF le(3)] by linarith+
  have sz: "resolveCounterSizeTable v = Inr t" "map_of t (ct_code c) = Some z" "b64ToInt s = Inr (ct_count c)"
    using e by blast+
  obtain n where n: "resolveCounterCodeNameTable v = Inr n" "ct_name c = counter_name n (ct_code c)"
    using e by blast
  have "parseCounterFromBinaryData ?in v = Inr
      \<lparr>ct_code = ct_code c, ct_count = ct_count c, ct_fullSize = c_fs z,
       ct_fullSizeB2 = sceil34 (c_fs z), ct_qb64 = ct_qb64 c, ct_name = ct_name c, ct_version = v\<rparr>"
    by (simp only: parseCounterFromBinaryData_def Let_def two if_False sz n bind_res_Inr nab hs
        of_opt_Some n1 hard qb sl)
  moreover have "c = \<lparr>ct_code = ct_code c, ct_count = ct_count c, ct_fullSize = c_fs z,
       ct_fullSizeB2 = sceil34 (c_fs z), ct_qb64 = ct_qb64 c, ct_name = ct_name c, ct_version = v\<rparr>"
    using e by (intro counter.equality) simp_all
  ultimately show ?thesis by simp
qed

lemma counter_encoded_facts:
  assumes "counter_encoded c v t z s"
  shows "is_b64 (ct_qb64 c)" "ct_fullSize c = length (ct_qb64 c)"
    "ct_fullSizeB2 c = sceil34 (length (ct_qb64 c))" "length (ct_qb64 c) mod 4 = 0"
    "ct_version c = v"
  using assms counter_sizage(6) [of v t "ct_code c" z] unfolding counter_encoded_def by auto

interpretation counter_txt: cesr_codec "counter_valid v" counter_qb64b ct_fullSize
    "\<lambda>bs. parseCounterFromTextData bs v" for v
  by unfold_locales (auto simp: counter_valid_def counter_qb64b_def counter_encoded_facts
      dest: counter_encoded_text [unfolded counter_qb64b_def])

interpretation counter_bny: cesr_codec "counter_valid v" "\<lambda>c. qb2_bytes (ct_qb64 c)" ct_fullSizeB2
    "\<lambda>bs. parseCounterFromBinaryData bs v" for v
  by unfold_locales (auto simp: counter_valid_def counter_encoded_facts length_qb2_of
      dest: counter_encoded_binary)

text \<open>C5: Counters. For a code of the version's table, \<open>encodeCounterFromFields\<close>
  succeeds exactly on the counts its soft part can hold, and the counter is then read back, with
  its count and name, from its qb64 and from its qb2 bytes in front of any payload.\<close>

theorem counter_roundtrip:
  assumes "resolveCounterSizeTable v = Inr t" and "map_of t code = Some z"
  shows "(0 \<le> count \<and> count < 64 ^ c_ss z \<longrightarrow> (\<exists>c. encodeCounterFromFields code count v = Inr c
        \<and> int (ct_count c) = count \<and> ct_code c = code
        \<and> parseCounterFromTextData (counter_qb64b c @ rest) v = Inr c
        \<and> (\<exists>qb2. counter_qb2 c = Inr qb2 \<and> parseCounterFromBinaryData (qb2 @ rest) v = Inr c)))
    \<and> (\<not> (0 \<le> count \<and> count < 64 ^ c_ss z) \<longrightarrow> (\<exists>e. encodeCounterFromFields code count v = Inl e))"
proof (cases "0 \<le> count \<and> count < 64 ^ c_ss z")
  case True
  then obtain c where enc: "encodeCounterFromFields code count v = Inr c"
    using encodeCounter_iff [OF assms] by blast
  note e = encodeCounter_encoded [OF enc]
  then have v: "counter_valid v c" by blast
  then have "is_b64 (ct_qb64 c)" using counter_encoded_facts(1) unfolding counter_valid_def by blast
  then have "counter_qb2 c = Inr (qb2_bytes (ct_qb64 c))"
    by (simp add: counter_qb2_def codeB64ToB2_b64)
  with enc e True counter_txt.parse_enc [OF v, of rest] counter_bny.parse_enc [OF v, of rest]
  show ?thesis by blast
next
  case False
  with encodeCounter_iff [OF assms, of count] show ?thesis
    by (cases "encodeCounterFromFields code count v") auto
qed

theorem counter_roundtrip_witness:
  "\<exists>c. encodeCounterFromFields ''-A'' 3 Vrsn_1_0 = Inr c \<and> ct_qb64 c = ''-AAD''
     \<and> parseCounterFromTextData (counter_qb64b c @ [65]) Vrsn_1_0 = Inr c"
proof -
  have t: "resolveCounterSizeTable Vrsn_1_0 = Inr COUNTER_SIZES_V1" by code_simp
  have z: "map_of COUNTER_SIZES_V1 ''-A'' = Some (cz 2 2 4)" by code_simp
  have "(case encodeCounterFromFields ''-A'' 3 Vrsn_1_0 of Inr c \<Rightarrow> ct_qb64 c = ''-AAD'' | _ \<Rightarrow> False)"
    by code_simp
  then obtain c where c: "encodeCounterFromFields ''-A'' 3 Vrsn_1_0 = Inr c" "ct_qb64 c = ''-AAD''"
    by (auto split: sum.splits)
  from counter_roundtrip [OF t z, of 3 "[65]"] c show ?thesis by (auto simp: cz_def)
qed

section \<open>Enclosing a payload\<close>

text \<open>Enclosure. When \<open>Counter.enclose\<close> wraps a qb64 payload, the result is a
  counter of the version in front of the unchanged payload, the parser reads that counter back,
  and four characters per count beyond the counter is exactly the end of the payload.\<close>

lemma counter_enclose_frames:
  assumes "counter_enclose (Some p) None name v = Inr out"
  shows "\<exists>c. out = counter_qb64b c @ p \<and> length out = ct_fullSize c + 4 * ct_count c
    \<and> parseCounterFromTextData (out @ rest) v = Inr c
    \<and> drop (ct_fullSize c) (take (ct_fullSize c + 4 * ct_count c) (out @ rest)) = p"
proof -
  from assms obtain c where p4: "length p mod 4 = 0"
    and c: "enclosing_counter name (int (length p div 4)) v = Inr c" and out: "out = counter_qb64b c @ p"
    by (auto simp: counter_enclose_def res_simps concatBytes_def split: if_splits)
  from c obtain code where "encodeCounterFromFields code (int (length p div 4)) v = Inr c"
    by (auto simp: enclosing_counter_def res_simps)
  note e = encodeCounter_encoded [OF this]
  then have n: "ct_count c = length p div 4" by linarith
  have l: "length (counter_qb64b c) = ct_fullSize c" using counter_txt.length_enc e by blast
  have "4 * ct_count c = length p" using n p4 by presburger
  with l out have "length out = ct_fullSize c + 4 * ct_count c"
    "drop (ct_fullSize c) (take (ct_fullSize c + 4 * ct_count c) (out @ rest)) = p" by auto
  moreover have "parseCounterFromTextData (out @ rest) v = Inr c"
    using counter_txt.parse_enc [of v c "p @ rest"] e out by simp
  ultimately show ?thesis using out by blast
qed

end
