(* ===== verification/GroupDispatch.thy ===== *)
theory GroupDispatch
  imports Indexer Counter
begin

text \<open>
  The attachment-group dispatcher (\<^verbatim>\<open>cesr/src/parser/group-dispatch.ts\<close> with
  \<^verbatim>\<open>attachment-fallback-policy.ts\<close>): one counter selects a parser for the group
  behind it, wrapper groups nest further groups, and a policy decides whether a failure is
  retried under the other major version. Nested dispatch is bounded by fuel; the lemmas show that
  fuel above the input length never runs out. They also show that groups of primitives and
  wrapped groups are read back, that a group never reaches beyond its input, and that compat
  mode agrees with strict mode wherever strict mode succeeds.
\<close>

section \<open>Entries\<close>

record unknown_prim =
  uk_qb64 :: string
  uk_qb2 :: "byte list"
  uk_domain :: cold_domain

datatype group_entry =
    EMatter matter
  | EIndexer indexer
  | ECounter counter
  | EUnknown unknown_prim
  | ETuple "group_entry list"
  | EGroup counter "byte list" "group_entry list"

definition unknown_fromPayload :: "byte list \<Rightarrow> cold_domain \<Rightarrow> unknown_prim" where
  "unknown_fromPayload payload domain =
     (if domain = Bny then \<lparr>uk_qb64 = encodeB64 payload, uk_qb2 = payload, uk_domain = domain\<rparr>
      else
        (let qb64 = text_of payload
         in \<lparr>uk_qb64 = qb64,
             uk_qb2 = (case codeB64ToB2 qb64 of Inr bs \<Rightarrow> bs | Inl _ \<Rightarrow> payload),
             uk_domain = domain\<rparr>))"

section \<open>Dispatch tables\<close>

datatype prim_kind = KMatter | KIndexer

datatype parser_kind =
    GenusVersion
  | Quadlet
  | RepeatTuple "prim_kind list"
  | TransIdxSigGroups
  | TransLastIdxSigGroups
  | SadPathSig
  | SadPathSigGroup

record family_spec =
  fm_kind :: parser_kind
  fm_wrapper :: bool
  fm_siger :: bool
  fm_v1 :: "string list"
  fm_v2 :: "string list"

definition fam :: "parser_kind \<Rightarrow> string list \<Rightarrow> string list \<Rightarrow> family_spec" where
  "fam k v1 v2 = \<lparr>fm_kind = k, fm_wrapper = False, fm_siger = False, fm_v1 = v1, fm_v2 = v2\<rparr>"

definition ATTACHMENT_DISPATCH_SPEC :: "family_spec list" where
  "ATTACHMENT_DISPATCH_SPEC = [
     fam GenusVersion [''KERIACDCGenusVersion''] [''KERIACDCGenusVersion''],
     fam Quadlet
       [''GenericGroup'', ''BigGenericGroup'', ''NonNativeBodyGroup'', ''BigNonNativeBodyGroup'',
        ''ESSRPayloadGroup'', ''BigESSRPayloadGroup'', ''PathedMaterialCouples'',
        ''BigPathedMaterialCouples'']
       [''GenericGroup'', ''BigGenericGroup'', ''NonNativeBodyGroup'', ''BigNonNativeBodyGroup'',
        ''ESSRPayloadGroup'', ''BigESSRPayloadGroup'', ''PathedMaterialCouples'',
        ''BigPathedMaterialCouples'', ''DatagramSegmentGroup'', ''BigDatagramSegmentGroup'',
        ''ESSRWrapperGroup'', ''BigESSRWrapperGroup'', ''FixBodyGroup'', ''BigFixBodyGroup'',
        ''MapBodyGroup'', ''BigMapBodyGroup'', ''GenericMapGroup'', ''BigGenericMapGroup'',
        ''GenericListGroup'', ''BigGenericListGroup''],
     (fam Quadlet
       [''AttachmentGroup'', ''BigAttachmentGroup'', ''BodyWithAttachmentGroup'',
        ''BigBodyWithAttachmentGroup'']
       [''AttachmentGroup'', ''BigAttachmentGroup'', ''BodyWithAttachmentGroup'',
        ''BigBodyWithAttachmentGroup''])\<lparr>fm_wrapper := True\<rparr>,
     (fam (RepeatTuple [KIndexer])
       [''ControllerIdxSigs'', ''WitnessIdxSigs'']
       [''ControllerIdxSigs'', ''BigControllerIdxSigs'', ''WitnessIdxSigs'',
        ''BigWitnessIdxSigs''])\<lparr>fm_siger := True\<rparr>,
     fam (RepeatTuple [KMatter, KMatter])
       [''NonTransReceiptCouples'', ''FirstSeenReplayCouples'', ''SealSourceCouples'']
       [''NonTransReceiptCouples'', ''BigNonTransReceiptCouples'', ''FirstSeenReplayCouples'',
        ''BigFirstSeenReplayCouples'', ''SealSourceCouples'', ''BigSealSourceCouples'',
        ''BackerRegistrarSealCouples'', ''BigBackerRegistrarSealCouples'',
        ''TypedDigestSealCouples'', ''BigTypedDigestSealCouples''],
     fam (RepeatTuple [KMatter, KMatter, KMatter, KIndexer])
       [''TransReceiptQuadruples''] [''TransReceiptQuadruples'', ''BigTransReceiptQuadruples''],
     fam (RepeatTuple [KMatter, KMatter, KMatter])
       [''SealSourceTriples''] [''SealSourceTriples'', ''BigSealSourceTriples''],
     fam (RepeatTuple [KMatter]) []
       [''SealSourceLastSingles'', ''BigSealSourceLastSingles'', ''DigestSealSingles'',
        ''BigDigestSealSingles'', ''MerkleRootSealSingles'', ''BigMerkleRootSealSingles''],
     fam TransIdxSigGroups [''TransIdxSigGroups''] [''TransIdxSigGroups'', ''BigTransIdxSigGroups''],
     fam TransLastIdxSigGroups [''TransLastIdxSigGroups'']
       [''TransLastIdxSigGroups'', ''BigTransLastIdxSigGroups''],
     fam SadPathSig [''SadPathSig''] [],
     fam SadPathSigGroup [''SadPathSigGroup''] [],
     fam (RepeatTuple [KMatter, KMatter, KMatter, KMatter]) []
       [''BlindedStateQuadruples'', ''BigBlindedStateQuadruples'', ''TypedMediaQuadruples'',
        ''BigTypedMediaQuadruples''],
     fam (RepeatTuple [KMatter, KMatter, KMatter, KMatter, KMatter, KMatter]) []
       [''BoundStateSextuples'', ''BigBoundStateSextuples'']]"

record dispatch_descriptor =
  dd_version :: nat
  dd_code :: string
  dd_kind :: parser_kind
  dd_wrapper :: bool
  dd_siger :: bool

definition expand_family :: "nat \<Rightarrow> family_spec \<Rightarrow> dispatch_descriptor list" where
  "expand_family version f = map (\<lambda>name.
     \<lparr>dd_version = version,
      dd_code = (case map_of (if version = 1 then CtrDexV1 else CtrDexV2) name of
                   Some c \<Rightarrow> c | None \<Rightarrow> ''undefined''),
      dd_kind = fm_kind f, dd_wrapper = fm_wrapper f, dd_siger = fm_siger f\<rparr>)
     (if version = 1 then fm_v1 f else fm_v2 f)"

definition expandDispatchSpec :: "family_spec list \<Rightarrow> dispatch_descriptor list" where
  "expandDispatchSpec spec = concat (map (\<lambda>f. expand_family 1 f @ expand_family 2 f) spec)"

definition ATTACHMENT_DISPATCH_DESCRIPTORS :: "dispatch_descriptor list" where
  "ATTACHMENT_DISPATCH_DESCRIPTORS = expandDispatchSpec ATTACHMENT_DISPATCH_SPEC"

text \<open>The expansion, evaluated: every name of the specification has a code in its
  version.\<close>

definition dsc :: "nat \<Rightarrow> string \<Rightarrow> parser_kind \<Rightarrow> bool \<Rightarrow> bool \<Rightarrow> dispatch_descriptor" where
  "dsc v c k w s = \<lparr>dd_version = v, dd_code = c, dd_kind = k, dd_wrapper = w, dd_siger = s\<rparr>"

lemma descriptors_eval [code]:
  "ATTACHMENT_DISPATCH_DESCRIPTORS = [
     dsc 1 ''-_AAA'' GenusVersion False False, dsc 2 ''-_AAA'' GenusVersion False False,
     dsc 1 ''-T'' Quadlet False False, dsc 1 ''--T'' Quadlet False False,
     dsc 1 ''-W'' Quadlet False False, dsc 1 ''--W'' Quadlet False False,
     dsc 1 ''-Z'' Quadlet False False, dsc 1 ''--Z'' Quadlet False False,
     dsc 1 ''-L'' Quadlet False False, dsc 1 ''--L'' Quadlet False False,
     dsc 2 ''-A'' Quadlet False False, dsc 2 ''--A'' Quadlet False False,
     dsc 2 ''-H'' Quadlet False False, dsc 2 ''--H'' Quadlet False False,
     dsc 2 ''-Z'' Quadlet False False, dsc 2 ''--Z'' Quadlet False False,
     dsc 2 ''-P'' Quadlet False False, dsc 2 ''--P'' Quadlet False False,
     dsc 2 ''-D'' Quadlet False False, dsc 2 ''--D'' Quadlet False False,
     dsc 2 ''-E'' Quadlet False False, dsc 2 ''--E'' Quadlet False False,
     dsc 2 ''-F'' Quadlet False False, dsc 2 ''--F'' Quadlet False False,
     dsc 2 ''-G'' Quadlet False False, dsc 2 ''--G'' Quadlet False False,
     dsc 2 ''-I'' Quadlet False False, dsc 2 ''--I'' Quadlet False False,
     dsc 2 ''-J'' Quadlet False False, dsc 2 ''--J'' Quadlet False False,
     dsc 1 ''-V'' Quadlet True False, dsc 1 ''--V'' Quadlet True False,
     dsc 1 ''-U'' Quadlet True False, dsc 1 ''--U'' Quadlet True False,
     dsc 2 ''-C'' Quadlet True False, dsc 2 ''--C'' Quadlet True False,
     dsc 2 ''-B'' Quadlet True False, dsc 2 ''--B'' Quadlet True False,
     dsc 1 ''-A'' (RepeatTuple [KIndexer]) False True,
     dsc 1 ''-B'' (RepeatTuple [KIndexer]) False True,
     dsc 2 ''-K'' (RepeatTuple [KIndexer]) False True,
     dsc 2 ''--K'' (RepeatTuple [KIndexer]) False True,
     dsc 2 ''-L'' (RepeatTuple [KIndexer]) False True,
     dsc 2 ''--L'' (RepeatTuple [KIndexer]) False True,
     dsc 1 ''-C'' (RepeatTuple [KMatter, KMatter]) False False,
     dsc 1 ''-E'' (RepeatTuple [KMatter, KMatter]) False False,
     dsc 1 ''-G'' (RepeatTuple [KMatter, KMatter]) False False,
     dsc 2 ''-M'' (RepeatTuple [KMatter, KMatter]) False False,
     dsc 2 ''--M'' (RepeatTuple [KMatter, KMatter]) False False,
     dsc 2 ''-O'' (RepeatTuple [KMatter, KMatter]) False False,
     dsc 2 ''--O'' (RepeatTuple [KMatter, KMatter]) False False,
     dsc 2 ''-S'' (RepeatTuple [KMatter, KMatter]) False False,
     dsc 2 ''--S'' (RepeatTuple [KMatter, KMatter]) False False,
     dsc 2 ''-V'' (RepeatTuple [KMatter, KMatter]) False False,
     dsc 2 ''--V'' (RepeatTuple [KMatter, KMatter]) False False,
     dsc 2 ''-W'' (RepeatTuple [KMatter, KMatter]) False False,
     dsc 2 ''--W'' (RepeatTuple [KMatter, KMatter]) False False,
     dsc 1 ''-D'' (RepeatTuple [KMatter, KMatter, KMatter, KIndexer]) False False,
     dsc 2 ''-N'' (RepeatTuple [KMatter, KMatter, KMatter, KIndexer]) False False,
     dsc 2 ''--N'' (RepeatTuple [KMatter, KMatter, KMatter, KIndexer]) False False,
     dsc 1 ''-I'' (RepeatTuple [KMatter, KMatter, KMatter]) False False,
     dsc 2 ''-T'' (RepeatTuple [KMatter, KMatter, KMatter]) False False,
     dsc 2 ''--T'' (RepeatTuple [KMatter, KMatter, KMatter]) False False,
     dsc 2 ''-U'' (RepeatTuple [KMatter]) False False,
     dsc 2 ''--U'' (RepeatTuple [KMatter]) False False,
     dsc 2 ''-Q'' (RepeatTuple [KMatter]) False False,
     dsc 2 ''--Q'' (RepeatTuple [KMatter]) False False,
     dsc 2 ''-R'' (RepeatTuple [KMatter]) False False,
     dsc 2 ''--R'' (RepeatTuple [KMatter]) False False,
     dsc 1 ''-F'' TransIdxSigGroups False False, dsc 2 ''-X'' TransIdxSigGroups False False,
     dsc 2 ''--X'' TransIdxSigGroups False False, dsc 1 ''-H'' TransLastIdxSigGroups False False,
     dsc 2 ''-Y'' TransLastIdxSigGroups False False,
     dsc 2 ''--Y'' TransLastIdxSigGroups False False, dsc 1 ''-J'' SadPathSig False False,
     dsc 1 ''-K'' SadPathSigGroup False False,
     dsc 2 ''-a'' (RepeatTuple [KMatter, KMatter, KMatter, KMatter]) False False,
     dsc 2 ''--a'' (RepeatTuple [KMatter, KMatter, KMatter, KMatter]) False False,
     dsc 2 ''-c'' (RepeatTuple [KMatter, KMatter, KMatter, KMatter]) False False,
     dsc 2 ''--c'' (RepeatTuple [KMatter, KMatter, KMatter, KMatter]) False False,
     dsc 2 ''-b'' (RepeatTuple [KMatter, KMatter, KMatter, KMatter, KMatter, KMatter]) False False,
     dsc 2 ''--b'' (RepeatTuple [KMatter, KMatter, KMatter, KMatter, KMatter, KMatter]) False False]"
  by code_simp

definition codeSet :: "(dispatch_descriptor \<Rightarrow> bool) \<Rightarrow> nat \<Rightarrow> string list" where
  "codeSet predicate version = map dd_code
     (filter (\<lambda>d. predicate d \<and> dd_version d = version) ATTACHMENT_DISPATCH_DESCRIPTORS)"

definition asMinorZeroRegistry :: "(nat \<Rightarrow> 'a) \<Rightarrow> 'a versioned_registry" where
  "asMinorZeroRegistry byMajor = [(1, [(0, byMajor 1)]), (2, [(0, byMajor 2)])]"

definition SIGER_LIST_CODES_BY_VERSION :: "string list versioned_registry" where
  "SIGER_LIST_CODES_BY_VERSION = asMinorZeroRegistry (codeSet dd_siger)"

text \<open>A later descriptor of the same code overwrites an earlier one.\<close>

definition buildDispatch :: "nat \<Rightarrow> (string \<times> dispatch_descriptor) list" where
  "buildDispatch version = rev (map (\<lambda>d. (dd_code d, d))
     (filter (\<lambda>d. dd_version d = version) ATTACHMENT_DISPATCH_DESCRIPTORS))"

definition DISPATCH_BY_VERSION :: "(string \<times> dispatch_descriptor) list versioned_registry" where
  "DISPATCH_BY_VERSION = asMinorZeroRegistry buildDispatch"

definition getDispatch :: "versionage \<Rightarrow> (string \<times> dispatch_descriptor) list res" where
  "getDispatch version =
     bind_res (resolveVersionedRegistryValue DISPATCH_BY_VERSION version) (\<lambda>r. Inr (vr_value r))"

definition GENUS_VERSION_CODE :: string where
  "GENUS_VERSION_CODE = ''-_AAA''"

section \<open>Parsing the parts of a group\<close>

definition part_matter :: "cold_domain \<Rightarrow> group_entry part_parser" where
  "part_matter domain bs = bind_res (parseMatter bs domain) (\<lambda>m.
     Inr (EMatter m, if domain = Bny then mt_fullSizeB2 m else mt_fullSize m))"

definition part_indexer :: "cold_domain \<Rightarrow> group_entry part_parser" where
  "part_indexer domain bs = bind_res (parseIndexer bs domain) (\<lambda>x.
     Inr (EIndexer x, if domain = Bny then ix_fullSizeB2 x else ix_fullSize x))"

definition counterHeaderSize :: "counter \<Rightarrow> cold_domain \<Rightarrow> nat" where
  "counterHeaderSize c domain = (if domain = Bny then ct_fullSizeB2 c else ct_fullSize c)"

definition quadletUnitSize :: "cold_domain \<Rightarrow> nat" where
  "quadletUnitSize domain = (if domain = Bny then 3 else 4)"

definition decodeVersionCounter :: "counter \<Rightarrow> versionage res" where
  "decodeVersionCounter c =
     bind_res (if 3 \<le> length (ct_qb64 c) then Inr (drop (length (ct_qb64 c) - 3) (ct_qb64 c))
               else intToB64 (int (ct_count c)) 3) (\<lambda>triplet.
     bind_res (b64ToInt [triplet ! 0]) (\<lambda>majorRaw.
     bind_res (b64ToInt [triplet ! 1]) (\<lambda>minorRaw.
     Inr \<lparr>vn_major = (if majorRaw = 1 then 1 else 2), vn_minor = minorRaw\<rparr>)))"

definition part_of_kind :: "cold_domain \<Rightarrow> prim_kind \<Rightarrow> group_entry part_parser" where
  "part_of_kind domain kind = (case kind of KIndexer \<Rightarrow> part_indexer domain | KMatter \<Rightarrow> part_matter domain)"

definition parseTuple :: "byte list \<Rightarrow> prim_kind list \<Rightarrow> cold_domain \<Rightarrow> (group_entry list \<times> nat) res" where
  "parseTuple input kinds domain = parse_seq (map (part_of_kind domain) kinds) input"

definition part_tuple :: "prim_kind list \<Rightarrow> cold_domain \<Rightarrow> group_entry part_parser" where
  "part_tuple kinds domain bs =
     bind_res (parseTuple bs kinds domain) (\<lambda>(items, consumed). Inr (ETuple items, consumed))"

definition parseRepeated ::
  "byte list \<Rightarrow> nat \<Rightarrow> prim_kind list \<Rightarrow> cold_domain \<Rightarrow> (group_entry list \<times> nat) res" where
  "parseRepeated input count kinds domain = parse_seq (replicate count (part_tuple kinds domain)) input"

text \<open>The text of an opaque payload, cut by \<open>/.{1,4}/g\<close>: line terminators match
  nothing and end a token.\<close>

definition line_end :: "char \<Rightarrow> bool" where
  "line_end c \<longleftrightarrow> c = CHR 0x0A \<or> c = CHR 0x0D"

fun dot_tokens :: "string \<Rightarrow> string \<Rightarrow> string list" where
  "dot_tokens tok [] = (if tok = [] then [] else [tok])"
| "dot_tokens tok (c # cs) =
     (if line_end c then (if tok = [] then [] else [tok]) @ dot_tokens [] cs
      else if length tok = 3 then (tok @ [c]) # dot_tokens [] cs
      else dot_tokens (tok @ [c]) cs)"

definition opaque_unit :: "cold_domain \<Rightarrow> byte list \<Rightarrow> group_entry" where
  "opaque_unit domain payload = EUnknown (unknown_fromPayload payload domain)"

definition splitOpaqueUnits :: "byte list \<Rightarrow> cold_domain \<Rightarrow> nat option \<Rightarrow> group_entry list" where
  "splitOpaqueUnits payload domain expectedCount =
     map (opaque_unit domain)
       (if domain = Bny then
          (let count = (case expectedCount of Some n \<Rightarrow> n | None \<Rightarrow> length payload div 3)
           in map (\<lambda>i. slice (i * 3) (i * 3 + 3) payload) [0..<count])
        else
          (let text = text_of payload
           in case expectedCount of
                Some n \<Rightarrow> map utf8 (map (\<lambda>i. slice (i * 4) (i * 4 + 4) text) [0..<n])
              | None \<Rightarrow> map utf8 (dot_tokens [] text)))"

definition parseSigerList :: "byte list \<Rightarrow> versionage \<Rightarrow> cold_domain \<Rightarrow> (group_entry list \<times> nat) res" where
  "parseSigerList input version domain =
     bind_res (parseCounter input version domain) (\<lambda>c.
     bind_res (resolveVersionedRegistryValue SIGER_LIST_CODES_BY_VERSION version) (\<lambda>r.
     bind_res (ensure (ct_code c \<in> set (vr_value r)) UnknownCodeError) (\<lambda>_.
     let offset = counterHeaderSize c domain
     in bind_res (parse_seq (replicate (ct_count c) (part_indexer domain)) (drop offset input))
          (\<lambda>(items, k). Inr (items, offset + k)))))"

section \<open>Group parsers\<close>

datatype dispatch_mode = Strict | Compat

text \<open>The nested dispatch the wrapper and path parsers call, with its version argument.\<close>

type_synonym nested_parser = "byte list \<Rightarrow> versionage \<Rightarrow> (group_entry \<times> nat) res"

text \<open>One round of the wrapper loop: a version marker, a nested group, or an error with the
  offset reached.\<close>

datatype wrapper_step =
    WVersion nat versionage
  | WGroup group_entry nat
  | WError cesr_error nat

definition wrapper_round :: "nested_parser \<Rightarrow> cold_domain \<Rightarrow> byte list \<Rightarrow> nat \<Rightarrow> versionage \<Rightarrow> wrapper_step" where
  "wrapper_round nest domain payload offset version =
     (case parseCounter (drop offset payload) version domain of
        Inl e \<Rightarrow> WError e offset
      | Inr c \<Rightarrow>
          if ct_code c = GENUS_VERSION_CODE then
            (let offset' = offset + counterHeaderSize c domain
             in case decodeVersionCounter c of
                  Inl e \<Rightarrow> WError e offset'
                | Inr v \<Rightarrow> WVersion offset' v)
          else
            (case nest (drop offset payload) version of
               Inl e \<Rightarrow> WError e offset
             | Inr (g, consumed) \<Rightarrow>
                 if consumed = 0 then WError GroupSizeError offset else WGroup g (offset + consumed)))"

definition boundary_error :: "cesr_error \<Rightarrow> bool" where
  "boundary_error e \<longleftrightarrow> (case e of ShortageError _ _ \<Rightarrow> True | GroupSizeError \<Rightarrow> True | _ \<Rightarrow> False)"

fun wrapper_loop ::
  "nat \<Rightarrow> nested_parser \<Rightarrow> dispatch_mode \<Rightarrow> cold_domain \<Rightarrow> byte list \<Rightarrow> nat \<Rightarrow> versionage
    \<Rightarrow> group_entry list \<Rightarrow> group_entry list res" where
  "wrapper_loop fuel nest mode domain payload offset version items =
     (if offset < length payload then
        (case fuel of
           0 \<Rightarrow> Inl JsError
         | Suc n \<Rightarrow>
             (case wrapper_round nest domain payload offset version of
                WVersion offset' v \<Rightarrow> wrapper_loop n nest mode domain payload offset' v items
              | WGroup g offset' \<Rightarrow> wrapper_loop n nest mode domain payload offset' version (items @ [g])
              | WError e offset' \<Rightarrow>
                  if boundary_error e \<or> mode = Strict then Inl e
                  else Inr (items @ splitOpaqueUnits (drop offset' payload) domain None)))
      else if offset \<noteq> length payload then Inl GroupSizeError
      else Inr items)"

declare wrapper_loop.simps [simp del]

definition parseQuadletGroup ::
  "nested_parser \<Rightarrow> dispatch_mode \<Rightarrow> byte list \<Rightarrow> counter \<Rightarrow> versionage \<Rightarrow> string list \<Rightarrow> cold_domain
    \<Rightarrow> (group_entry list \<times> nat) res" where
  "parseQuadletGroup nest mode input c version wrapperCodes domain =
     (let headerSize = counterHeaderSize c domain;
          total = headerSize + ct_count c * quadletUnitSize domain
      in if length input < total then Inl (ShortageError total (length input))
         else
           (let payload = slice headerSize total input
            in if ct_code c \<in> set wrapperCodes then
                 bind_res (wrapper_loop (length payload) nest mode domain payload 0 version [])
                   (\<lambda>items. Inr (items, total))
               else Inr (splitOpaqueUnits payload domain (Some (ct_count c)), total)))"

definition part_trans_idx :: "nat \<Rightarrow> versionage \<Rightarrow> cold_domain \<Rightarrow> group_entry part_parser" where
  "part_trans_idx headers version domain bs =
     bind_res (parseTuple bs (replicate headers KMatter) domain) (\<lambda>(hs, n).
     bind_res (parseSigerList (drop n bs) version domain) (\<lambda>(sigers, k).
     Inr (ETuple (hs @ [ETuple sigers]), n + k)))"

definition part_sad_path :: "nested_parser \<Rightarrow> versionage \<Rightarrow> cold_domain \<Rightarrow> group_entry part_parser" where
  "part_sad_path nest version domain bs =
     bind_res (parse_seq [part_matter domain, \<lambda>b. nest b version] bs) (\<lambda>(items, n).
     Inr (ETuple items, n))"

definition counted :: "nat \<Rightarrow> (group_entry list \<times> nat) res \<Rightarrow> (group_entry list \<times> nat) res" where
  "counted header r = bind_res r (\<lambda>(items, k). Inr (items, header + k))"

definition parserForDescriptor ::
  "nested_parser \<Rightarrow> dispatch_mode \<Rightarrow> dispatch_descriptor \<Rightarrow> byte list \<Rightarrow> counter \<Rightarrow> versionage
    \<Rightarrow> cold_domain \<Rightarrow> (group_entry list \<times> nat) res" where
  "parserForDescriptor nest mode d input c version domain =
     (let h = counterHeaderSize c domain; body = drop h input in
      case dd_kind d of
        GenusVersion \<Rightarrow> Inr ([ECounter c], h)
      | Quadlet \<Rightarrow> parseQuadletGroup nest mode input c version
                     (codeSet dd_wrapper (if dd_version d = 2 then 2 else 1)) domain
      | RepeatTuple kinds \<Rightarrow> counted h (parseRepeated body (ct_count c) kinds domain)
      | TransIdxSigGroups \<Rightarrow>
          counted h (parse_seq (replicate (ct_count c) (part_trans_idx 3 version domain)) body)
      | TransLastIdxSigGroups \<Rightarrow>
          counted h (parse_seq (replicate (ct_count c) (part_trans_idx 1 version domain)) body)
      | SadPathSig \<Rightarrow>
          counted h (parse_seq (replicate (ct_count c) (part_sad_path nest version domain)) body)
      | SadPathSigGroup \<Rightarrow>
          counted h (parse_seq (part_matter domain
            # replicate (ct_count c) (part_sad_path nest version domain)) body))"

definition parseAttachmentDispatchWithVersion ::
  "nested_parser \<Rightarrow> dispatch_mode \<Rightarrow> cold_domain \<Rightarrow> byte list \<Rightarrow> versionage \<Rightarrow> (group_entry \<times> nat) res" where
  "parseAttachmentDispatchWithVersion nest mode domain input version =
     bind_res (parseCounter input version domain) (\<lambda>c.
     bind_res (getDispatch version) (\<lambda>table.
     bind_res (of_opt UnknownCodeError (map_of table (ct_code c))) (\<lambda>d.
     bind_res (parserForDescriptor nest mode d input c version domain) (\<lambda>(items, consumed).
     if length input < consumed then Inl GroupSizeError
     else Inr (EGroup c (take consumed input) items, consumed)))))"

definition isVersionFallbackError :: "cesr_error \<Rightarrow> bool" where
  "isVersionFallbackError e \<longleftrightarrow> e = UnknownCodeError \<or> e = DeserializeError"

definition alternateMajorVersion :: "versionage \<Rightarrow> versionage" where
  "alternateMajorVersion version = (if 2 \<le> vn_major version then Vrsn_1_0 else Vrsn_2_0)"

definition onVersionDispatchFailure :: "dispatch_mode \<Rightarrow> cesr_error \<Rightarrow> versionage \<Rightarrow> versionage option" where
  "onVersionDispatchFailure mode e version =
     (case mode of
        Strict \<Rightarrow> None
      | Compat \<Rightarrow> if isVersionFallbackError e then Some (alternateMajorVersion version) else None)"

text \<open>\<open>parseAttachmentDispatchWithPolicy\<close>; the nested calls carry the same policy.\<close>

fun dispatch :: "nat \<Rightarrow> dispatch_mode \<Rightarrow> cold_domain \<Rightarrow> nested_parser" where
  "dispatch 0 mode domain input version = Inl JsError"
| "dispatch (Suc fuel) mode domain input version =
     (case parseAttachmentDispatchWithVersion (dispatch fuel mode domain) mode domain input version of
        Inr r \<Rightarrow> Inr r
      | Inl e \<Rightarrow>
          (case onVersionDispatchFailure mode e version of
             None \<Rightarrow> Inl e
           | Some v \<Rightarrow> parseAttachmentDispatchWithVersion (dispatch fuel mode domain) mode domain input v))"

definition parseAttachmentDispatchCompat ::
  "byte list \<Rightarrow> versionage \<Rightarrow> cold_domain \<Rightarrow> dispatch_mode option \<Rightarrow> (group_entry \<times> nat) res" where
  "parseAttachmentDispatchCompat input version domain mode =
     dispatch (Suc (length input)) (case mode of Some m \<Rightarrow> m | None \<Rightarrow> Compat) domain input version"

definition parseAttachmentDispatch ::
  "byte list \<Rightarrow> versionage \<Rightarrow> cold_domain \<Rightarrow> (group_entry \<times> nat) res" where
  "parseAttachmentDispatch input version domain = dispatch (Suc (length input)) Strict domain input version"

section \<open>What is consumed\<close>

lemma parseCounter_size:
  assumes "parseCounter bs v domain = Inr c"
  shows "0 < counterHeaderSize c domain \<and> counterHeaderSize c domain \<le> length bs"
proof (cases domain)
  case Txt
  from assms Txt obtain t z where t: "resolveCounterSizeTable v = Inr t" "map_of t (ct_code c) = Some z"
    "ct_fullSize c = c_fs z" "c_fs z \<le> length bs"
    by (auto simp: parseCounter_def parseCounterFromTextData_def Let_def res_simps
        split: if_splits option.splits)
  with counter_sizage(5,7) [OF t(1,2)] show ?thesis by (simp add: Txt counterHeaderSize_def)
next
  case Bny
  from assms Bny obtain t z where t: "resolveCounterSizeTable v = Inr t" "map_of t (ct_code c) = Some z"
    "ct_fullSizeB2 c = sceil34 (c_fs z)" "sceil34 (c_fs z) \<le> length bs"
    by (auto simp: parseCounter_def parseCounterFromBinaryData_def Let_def res_simps split: if_splits)
  with counter_sizage(5,7) [OF t(1,2)] sceil34_pos [of "c_fs z"] show ?thesis
    by (simp add: Bny counterHeaderSize_def)
qed

lemma parserForDescriptor_header:
  assumes "parserForDescriptor nest mode d input c v domain = Inr (items, consumed)"
  shows "counterHeaderSize c domain \<le> consumed"
  using assms
  by (auto simp: parserForDescriptor_def parseQuadletGroup_def counted_def Let_def res_simps
      split: parser_kind.splits if_splits)

lemma withVersion_Inr:
  assumes "parseAttachmentDispatchWithVersion nest mode domain input v = Inr (g, consumed)"
  obtains c table d items where "parseCounter input v domain = Inr c" "getDispatch v = Inr table"
    "map_of table (ct_code c) = Some d"
    "parserForDescriptor nest mode d input c v domain = Inr (items, consumed)"
    "consumed \<le> length input" "g = EGroup c (take consumed input) items"
  using assms
  by (auto simp: parseAttachmentDispatchWithVersion_def res_simps split: if_splits intro!: that)

lemma dispatch_consumes:
  assumes "dispatch n mode domain input v = Inr (g, consumed)"
  shows "0 < consumed \<and> consumed \<le> length input
    \<and> (\<exists>c items. g = EGroup c (take consumed input) items)"
proof -
  obtain m where n: "n = Suc m" using assms by (cases n) auto
  have one: "0 < consumed \<and> consumed \<le> length input \<and> (\<exists>c items. g = EGroup c (take consumed input) items)"
    if "parseAttachmentDispatchWithVersion nest mode domain input w = Inr (g, consumed)" for nest w
  proof (rule withVersion_Inr [OF that])
    fix c table d items
    assume c: "parseCounter input w domain = Inr c" "consumed \<le> length input"
      and p: "parserForDescriptor nest mode d input c w domain = Inr (items, consumed)"
      and g: "g = EGroup c (take consumed input) items"
    have "0 < consumed" using parseCounter_size [OF c(1)] parserForDescriptor_header [OF p] by linarith
    with c(2) g show ?thesis by blast
  qed
  show ?thesis
  proof (cases "parseAttachmentDispatchWithVersion (dispatch m mode domain) mode domain input v")
    case (Inr r)
    with assms n have "r = (g, consumed)" by simp
    with Inr one show ?thesis by blast
  next
    case (Inl e)
    with assms n obtain w where
      "parseAttachmentDispatchWithVersion (dispatch m mode domain) mode domain input w = Inr (g, consumed)"
      by (auto split: option.splits)
    with one show ?thesis by blast
  qed
qed

text \<open>C6: A group stays inside its input. When the dispatcher returns, in any mode, domain
  and version, it consumed at least its counter and at most the input, and the group it returns
  carries exactly the bytes consumed.\<close>

theorem dispatch_within_input:
  assumes "dispatch n mode domain input v = Inr (g, consumed)"
  shows "0 < consumed \<and> consumed \<le> length input
    \<and> (\<exists>c items. g = EGroup c (take consumed input) items)"
  by (rule dispatch_consumes [OF assms])

theorem dispatch_within_input_witness:
  "\<exists>g. dispatch 9 Compat Txt (utf8 ''-VAB-AAAxy'') Vrsn_1_0 = Inr (g, 8)
    \<and> (\<exists>c items. g = EGroup c (utf8 ''-VAB-AAA'') items)"
proof -
  have "(case dispatch 9 Compat Txt (utf8 ''-VAB-AAAxy'') Vrsn_1_0 of Inr (g, n) \<Rightarrow> n = 8 | _ \<Rightarrow> False)"
    by code_simp
  then obtain g where g: "dispatch 9 Compat Txt (utf8 ''-VAB-AAAxy'') Vrsn_1_0 = Inr (g, 8)"
    by (auto split: sum.splits)
  have "take 8 (utf8 ''-VAB-AAAxy'') = utf8 ''-VAB-AAA''" by code_simp
  with dispatch_within_input [OF g] g show ?thesis by auto
qed

section \<open>Fuel\<close>

lemma parse_seq_cong:
  assumes "list_all2 (\<lambda>p q. \<forall>bs. length bs \<le> k \<longrightarrow> p bs = q bs) ps qs" and "length input \<le> k"
  shows "parse_seq ps input = parse_seq qs input"
  using assms
proof (induction ps qs arbitrary: input rule: list_all2_induct)
  case Nil
  then show ?case by simp
next
  case (Cons p ps q qs)
  have "parse_seq ps (drop n input) = parse_seq qs (drop n input)" for n
    by (rule Cons.IH) (use Cons.prems in simp)
  with Cons show ?case by simp
qed

lemma wrapper_loop_cong:
  assumes "\<And>bs w. length bs \<le> length payload \<Longrightarrow> nest bs w = nest' bs w"
  shows "wrapper_loop n nest mode domain payload offset v items
    = wrapper_loop n nest' mode domain payload offset v items"
proof (induction n arbitrary: offset v items)
  case 0
  then show ?case by (simp add: wrapper_loop.simps)
next
  case (Suc n)
  have eq: "nest (drop offset payload) v = nest' (drop offset payload) v"
    by (rule assms) simp
  have "wrapper_round nest domain payload offset v = wrapper_round nest' domain payload offset v"
    unfolding wrapper_round_def eq ..
  with Suc.IH show ?case
    by (simp add: wrapper_loop.simps [of "Suc n"] split: wrapper_step.splits)
qed

lemma parserForDescriptor_cong:
  assumes nest: "\<And>bs w. length bs < length input \<Longrightarrow> nest bs w = nest' bs w"
    and h: "0 < counterHeaderSize c domain" "counterHeaderSize c domain \<le> length input"
  shows "parserForDescriptor nest mode d input c v domain = parserForDescriptor nest' mode d input c v domain"
proof -
  let ?h = "counterHeaderSize c domain"
  have body: "length (drop ?h input) < length input" using h by simp
  have quad: "parseQuadletGroup nest mode input c v codes domain
      = parseQuadletGroup nest' mode input c v codes domain" for codes
  proof -
    have "length (slice ?h total input) < length input" for total using h by auto
    then have "wrapper_loop n nest mode domain (slice ?h total input) 0 v []
        = wrapper_loop n nest' mode domain (slice ?h total input) 0 v []" for n total
      using nest by (intro wrapper_loop_cong) (meson le_less_trans)
    then show ?thesis by (simp add: parseQuadletGroup_def Let_def)
  qed
  have path: "part_sad_path nest v domain bs = part_sad_path nest' v domain bs"
    if "length bs < length input" for bs
  proof -
    have "parse_seq [part_matter domain, \<lambda>b. nest b v] bs = parse_seq [part_matter domain, \<lambda>b. nest' b v] bs"
      using nest that by (intro parse_seq_cong [OF _ le_refl]) auto
    then show ?thesis by (simp only: part_sad_path_def)
  qed
  have seq: "parse_seq (ps @ replicate n (part_sad_path nest v domain)) (drop ?h input)
      = parse_seq (ps @ replicate n (part_sad_path nest' v domain)) (drop ?h input)" for n ps
    using path body
    by (intro parse_seq_cong [OF _ le_refl] list_all2_appendI)
      (auto simp: list_all2_conv_all_nth intro!: list.rel_refl)
  show ?thesis
    using quad seq [of "[]"] seq [of "[part_matter domain]"]
    by (simp add: parserForDescriptor_def Let_def split: parser_kind.splits)
qed

lemma dispatch_fuel:
  "length input < n \<Longrightarrow> length input < m \<Longrightarrow> dispatch n mode domain input v = dispatch m mode domain input v"
proof (induction n arbitrary: m input v)
  case 0
  then show ?case by simp
next
  case (Suc n)
  then obtain k where m: "m = Suc k" by (cases m) auto
  have "parseAttachmentDispatchWithVersion (dispatch n mode domain) mode domain input w
      = parseAttachmentDispatchWithVersion (dispatch k mode domain) mode domain input w" for w
  proof (cases "parseCounter input w domain")
    case (Inr c)
    have "dispatch n mode domain bs u = dispatch k mode domain bs u" if "length bs < length input" for bs u
      by (rule Suc.IH) (use Suc.prems that m in auto)
    from parserForDescriptor_cong [OF this] parseCounter_size [OF Inr] Inr
    show ?thesis by (simp add: parseAttachmentDispatchWithVersion_def)
  qed (simp add: parseAttachmentDispatchWithVersion_def)
  note eq = this
  show ?case unfolding m dispatch.simps eq ..
qed

lemma wrapper_round_progress:
  assumes "wrapper_round nest domain payload offset v = WVersion offset' v'
    \<or> wrapper_round nest domain payload offset v = WGroup g offset'"
  shows "offset < offset'"
  using assms parseCounter_size
  by (fastforce simp: wrapper_round_def Let_def split: sum.splits if_splits prod.splits)

lemma wrapper_loop_fuel:
  assumes "length payload \<le> offset + n" and "length payload \<le> offset + m"
  shows "wrapper_loop n nest mode domain payload offset v items
    = wrapper_loop m nest mode domain payload offset v items"
  using assms
proof (induction n arbitrary: m offset v items)
  case 0
  then show ?case by (simp add: wrapper_loop.simps)
next
  case (Suc n)
  show ?case
  proof (cases "offset < length payload")
    case True
    with Suc.prems(2) obtain k where m: "m = Suc k" by (cases m) auto
    have "wrapper_loop n nest mode domain payload offset' w its
        = wrapper_loop k nest mode domain payload offset' w its"
      if "offset < offset'" for offset' w its
      using Suc.IH [of offset' k w its] Suc.prems m that by simp
    with wrapper_round_progress [of nest domain payload offset v] show ?thesis
      by (simp add: m wrapper_loop.simps [of "Suc n"] wrapper_loop.simps [of "Suc k"]
          split: wrapper_step.splits)
  next
    case False
    then show ?thesis by (simp add: wrapper_loop.simps)
  qed
qed



section \<open>Compat mode extends strict mode\<close>

lemma parse_seq_mono:
  assumes "list_all2 (\<lambda>p q. \<forall>bs r. p bs = Inr r \<longrightarrow> q bs = Inr r) ps qs"
    and "parse_seq ps input = Inr r"
  shows "parse_seq qs input = Inr r"
  using assms
proof (induction ps qs arbitrary: input r rule: list_all2_induct)
  case Nil
  then show ?case by simp
next
  case (Cons p ps q qs)
  then show ?case by (fastforce simp: res_simps)
qed

lemma wrapper_loop_mono:
  assumes "\<And>bs w r. nest bs w = Inr r \<Longrightarrow> nest' bs w = Inr r"
    and "wrapper_loop n nest Strict domain payload offset v items = Inr out"
  shows "wrapper_loop n nest' Compat domain payload offset v items = Inr out"
  using assms(2)
proof (induction n arbitrary: offset v items)
  case 0
  then show ?case by (simp add: wrapper_loop.simps split: if_splits)
next
  case (Suc n)
  have "wrapper_round nest' domain payload offset v = wrapper_round nest domain payload offset v"
    if "\<And>e k. wrapper_round nest domain payload offset v \<noteq> WError e k"
  proof (cases "nest (drop offset payload) v")
    case (Inr r)
    then have eq: "nest' (drop offset payload) v = nest (drop offset payload) v" using assms(1) by simp
    show ?thesis unfolding wrapper_round_def eq ..
  next
    case (Inl e)
    with that [of e offset] show ?thesis
      by (cases "parseCounter (drop offset payload) v domain") (auto simp: wrapper_round_def)
  qed
  with Suc show ?case
    by (auto simp: wrapper_loop.simps [of "Suc n"] split: if_splits wrapper_step.splits)
qed

lemma parserForDescriptor_mono:
  assumes nest: "\<And>bs w r. nest bs w = Inr r \<Longrightarrow> nest' bs w = Inr r"
    and "parserForDescriptor nest Strict d input c v domain = Inr r"
  shows "parserForDescriptor nest' Compat d input c v domain = Inr r"
proof -
  have path: "part_sad_path nest v domain bs = Inr q \<Longrightarrow> part_sad_path nest' v domain bs = Inr q" for bs q
    using nest parse_seq_mono [of "[part_matter domain, \<lambda>b. nest b v]" "[part_matter domain, \<lambda>b. nest' b v]"]
    by (fastforce simp: part_sad_path_def bind_res_Inr_iff)
  have seq: "parse_seq (ps @ replicate n (part_sad_path nest v domain)) bs = Inr q
      \<Longrightarrow> parse_seq (ps @ replicate n (part_sad_path nest' v domain)) bs = Inr q" for n ps bs q
    using path
    by (elim parse_seq_mono [rotated], intro list_all2_appendI)
      (auto simp: list_all2_conv_all_nth intro!: list.rel_refl)
  have quad: "parseQuadletGroup nest Strict input c v codes domain = Inr q
      \<Longrightarrow> parseQuadletGroup nest' Compat input c v codes domain = Inr q" for codes q
    using wrapper_loop_mono [of nest nest'] nest
    by (auto simp: parseQuadletGroup_def Let_def res_simps split: if_splits)
  obtain items k where r: "r = (items, k)" by (cases r)
  show ?thesis
  proof (cases "dd_kind d")
    case Quadlet
    with assms(2) quad show ?thesis by (simp add: parserForDescriptor_def Let_def)
  next
    case SadPathSig
    with assms(2) seq [of "[]"] show ?thesis
      by (auto simp: parserForDescriptor_def Let_def counted_def bind_res_Inr_iff)
  next
    case SadPathSigGroup
    with assms(2) seq [of "[part_matter domain]"] show ?thesis
      by (auto simp: parserForDescriptor_def Let_def counted_def bind_res_Inr_iff
          simp del: parse_seq.simps)
  qed (use assms(2) in \<open>simp_all add: parserForDescriptor_def Let_def\<close>)
qed

lemma dispatch_strict_compat:
  assumes "dispatch n Strict domain input v = Inr r"
  shows "dispatch n Compat domain input v = Inr r"
  using assms
proof (induction n arbitrary: input v r)
  case 0
  then show ?case by simp
next
  case (Suc n)
  from Suc.prems have "parseAttachmentDispatchWithVersion (dispatch n Strict domain) Strict domain input v = Inr r"
    by (auto simp: onVersionDispatchFailure_def split: sum.splits)
  then have "parseAttachmentDispatchWithVersion (dispatch n Compat domain) Compat domain input v = Inr r"
  proof (cases r, elim withVersion_Inr [of _ _ _ _ _ "fst r" "snd r", simplified prod.collapse])
    fix c table d items
    assume "parseCounter input v domain = Inr c" "getDispatch v = Inr table"
      "map_of table (ct_code c) = Some d" "snd r \<le> length input"
      "fst r = EGroup c (take (snd r) input) items"
      and p: "parserForDescriptor (dispatch n Strict domain) Strict d input c v domain = Inr (items, snd r)"
    moreover have "parserForDescriptor (dispatch n Compat domain) Compat d input c v domain = Inr (items, snd r)"
      using parserForDescriptor_mono [OF Suc.IH p] .
    ultimately show ?thesis
      by (cases r) (simp add: parseAttachmentDispatchWithVersion_def)
  qed
  then show ?case by simp
qed

text \<open>C8: Compat extends strict. Whatever strict mode parses, nested wrappers included,
  compat mode parses to the same group and consumes the same bytes: fallback and opaque tails
  only ever replace failures.\<close>

theorem dispatch_compat_extends_strict:
  assumes "dispatch n Strict domain input v = Inr r"
  shows "dispatch n Compat domain input v = Inr r"
  by (rule dispatch_strict_compat [OF assms])

theorem dispatch_compat_extends_strict_witness:
  "\<exists>r. dispatch 9 Strict Txt (utf8 ''-VAB-AAA'') Vrsn_1_0 = Inr r
     \<and> dispatch 9 Compat Txt (utf8 ''-VAB-AAA'') Vrsn_1_0 = Inr r"
proof -
  have "(case dispatch 9 Strict Txt (utf8 ''-VAB-AAA'') Vrsn_1_0 of Inr r \<Rightarrow> True | _ \<Rightarrow> False)"
    by code_simp
  then obtain r where "dispatch 9 Strict Txt (utf8 ''-VAB-AAA'') Vrsn_1_0 = Inr r"
    by (auto split: sum.splits)
  with dispatch_compat_extends_strict show ?thesis by blast
qed

section \<open>Groups are read back\<close>

text \<open>The wire form of a primitive entry in a domain, and when an entry is a primitive of
  the kind a tuple position asks for.\<close>

fun entry_bytes :: "cold_domain \<Rightarrow> group_entry \<Rightarrow> byte list" where
  "entry_bytes domain (EMatter m) = (if domain = Bny then qb2_bytes (mt_qb64 m) else matter_qb64b m)"
| "entry_bytes domain (EIndexer x) = (if domain = Bny then qb2_bytes (ix_qb64 x) else indexer_qb64b x)"
| "entry_bytes domain (ETuple es) = concat (map (entry_bytes domain) es)"
| "entry_bytes domain _ = []"

fun entry_kind :: "prim_kind \<Rightarrow> group_entry \<Rightarrow> bool" where
  "entry_kind KMatter (EMatter m) = matter_valid m"
| "entry_kind KIndexer (EIndexer x) = indexer_valid x"
| "entry_kind _ _ = False"

definition counter_bytes :: "cold_domain \<Rightarrow> counter \<Rightarrow> byte list" where
  "counter_bytes domain c = (if domain = Bny then qb2_bytes (ct_qb64 c) else counter_qb64b c)"

lemma part_of_kind_parses:
  assumes "entry_kind k e"
  shows "parses (part_of_kind domain k) (entry_bytes domain e) e"
  using assms
proof (cases "(k, e)" rule: entry_kind.cases)
  case (1 m)
  then show ?thesis
    using assms matter_txt.parses_part [of m EMatter] matter_bny.parses_part [of m EMatter]
    by (cases domain) (simp_all add: parses_def part_of_kind_def part_matter_def parseMatter_def)
next
  case (2 x)
  then show ?thesis
    using assms indexer_txt.parses_part [of x EIndexer] indexer_bny.parses_part [of x EIndexer]
    by (cases domain) (simp_all add: parses_def part_of_kind_def part_indexer_def parseIndexer_def)
qed auto

lemma parseTuple_parses:
  assumes "list_all2 entry_kind kinds es"
  shows "parses (\<lambda>bs. parseTuple bs kinds domain) (concat (map (entry_bytes domain) es)) es"
proof -
  have "list_all2 (\<lambda>p (b, e). parses p b e) (map (part_of_kind domain) kinds)
      (map (\<lambda>e. (entry_bytes domain e, e)) es)"
    using assms by (auto simp: list_all2_map1 list_all2_map2 elim!: list_all2_mono intro: part_of_kind_parses)
  from parse_seq_concat [OF this] show ?thesis
    by (simp add: parseTuple_def comp_def parses_def)
qed

lemma part_tuple_parses:
  assumes "list_all2 entry_kind kinds es"
  shows "parses (part_tuple kinds domain) (entry_bytes domain (ETuple es)) (ETuple es)"
  using parsesD [OF parseTuple_parses [OF assms, of domain]]
  by (simp add: parses_def part_tuple_def)

lemma counter_parses:
  assumes "counter_valid v c"
  shows "parseCounter (counter_bytes domain c @ rest) v domain = Inr c"
    and "length (counter_bytes domain c) = counterHeaderSize c domain"
  using counter_txt.parse_enc [OF assms] counter_bny.parse_enc [OF assms]
    counter_txt.length_enc [OF assms] counter_bny.length_enc [OF assms]
  by (cases domain; simp add: parseCounter_def counter_bytes_def counterHeaderSize_def)+

lemma dispatch_counted:
  assumes c: "counter_valid v c" and table: "getDispatch v = Inr table" "map_of table (ct_code c) = Some d"
    and body: "\<And>nest rest. parserForDescriptor nest mode d (counter_bytes domain c @ body @ rest) c v domain
      = Inr (items, length (counter_bytes domain c @ body))"
  shows "dispatch (Suc n) mode domain (counter_bytes domain c @ body @ rest) v
    = Inr (EGroup c (counter_bytes domain c @ body) items, length (counter_bytes domain c @ body))"
  using counter_parses(1) [OF c, of domain "body @ rest"] table body
  by (simp add: parseAttachmentDispatchWithVersion_def)

text \<open>Tuple groups round trip. For a code the version's table parses as repeated
  tuples, a counter whose count is the number of tuples, followed by the primitives of the
  tuples, is read back in either domain and mode as exactly those tuples, whatever follows.\<close>

lemma repeat_tuple_roundtrip:
  assumes "encodeCounterFromFields code (int (length tuples)) v = Inr c"
    and "getDispatch v = Inr table" and "map_of table code = Some d" and "dd_kind d = RepeatTuple kinds"
    and "list_all (list_all2 entry_kind kinds) tuples"
    and "payload = concat (map (entry_bytes domain) (map ETuple tuples))"
  shows "dispatch (Suc n) mode domain (counter_bytes domain c @ payload @ rest) v
    = Inr (EGroup c (counter_bytes domain c @ payload) (map ETuple tuples),
           length (counter_bytes domain c @ payload))"
proof -
  note e = encodeCounter_encoded [OF assms(1)]
  have "parses (parse_seq (replicate (length (map (\<lambda>t. (entry_bytes domain (ETuple t), ETuple t)) tuples))
        (part_tuple kinds domain)))
      (concat (map fst (map (\<lambda>t. (entry_bytes domain (ETuple t), ETuple t)) tuples)))
      (map snd (map (\<lambda>t. (entry_bytes domain (ETuple t), ETuple t)) tuples))"
    by (rule parse_seq_replicate) (use assms(5) in \<open>auto simp: list_all_iff simp del: entry_bytes.simps
        intro: part_tuple_parses\<close>)
  then have tuples: "parses (\<lambda>bs. parseRepeated bs (length tuples) kinds domain) payload (map ETuple tuples)"
    using assms(6) by (simp add: parses_def parseRepeated_def comp_def del: entry_bytes.simps)
  have h: "drop (counterHeaderSize c domain) (counter_bytes domain c @ b) = b" for b
    using counter_parses(2) [of v c domain] e by simp
  show ?thesis
  proof (rule dispatch_counted [where d = d and table = table])
    fix nest rest
    show "parserForDescriptor nest mode d (counter_bytes domain c @ payload @ rest) c v domain
        = Inr (map ETuple tuples, length (counter_bytes domain c @ payload))"
      using parsesD [OF tuples, of rest] e assms(4) counter_parses(2) [of v c domain]
      by (simp add: parserForDescriptor_def Let_def h counted_def)
  qed (use e assms in auto)
qed

text \<open>The parts of a transferable signature group: the seal fields and a counted list of
  indexed signatures.\<close>

record trans_sigs =
  tg_header :: "group_entry list"
  tg_counter :: counter
  tg_sigers :: "indexer list"

definition trans_sigs_ok :: "nat \<Rightarrow> versionage \<Rightarrow> trans_sigs \<Rightarrow> bool" where
  "trans_sigs_ok headers v g \<longleftrightarrow>
     list_all2 entry_kind (replicate headers KMatter) (tg_header g)
     \<and> counter_valid v (tg_counter g) \<and> ct_count (tg_counter g) = length (tg_sigers g)
     \<and> (\<exists>r. resolveVersionedRegistryValue SIGER_LIST_CODES_BY_VERSION v = Inr r
          \<and> ct_code (tg_counter g) \<in> set (vr_value r))
     \<and> list_all indexer_valid (tg_sigers g)"

definition trans_sigs_bytes :: "cold_domain \<Rightarrow> trans_sigs \<Rightarrow> byte list" where
  "trans_sigs_bytes domain g = concat (map (entry_bytes domain) (tg_header g))
     @ counter_bytes domain (tg_counter g)
     @ concat (map (entry_bytes domain) (map EIndexer (tg_sigers g)))"

definition trans_sigs_entry :: "trans_sigs \<Rightarrow> group_entry" where
  "trans_sigs_entry g = ETuple (tg_header g @ [ETuple (map EIndexer (tg_sigers g))])"

lemma part_trans_idx_parses:
  assumes "trans_sigs_ok headers v g"
  shows "parses (part_trans_idx headers v domain) (trans_sigs_bytes domain g) (trans_sigs_entry g)"
proof -
  note ok = assms [unfolded trans_sigs_ok_def]
  let ?c = "tg_counter g" and ?es = "map (\<lambda>x. (entry_bytes domain (EIndexer x), EIndexer x)) (tg_sigers g)"
  have "part_indexer domain = part_of_kind domain KIndexer" by (simp add: part_of_kind_def)
  then have "parses (parse_seq (replicate (length ?es) (part_indexer domain)))
      (concat (map fst ?es)) (map snd ?es)"
    using ok by (intro parse_seq_replicate)
      (auto simp: list_all_iff simp del: entry_bytes.simps intro: part_of_kind_parses)
  then have sigs: "parse_seq (replicate (length (tg_sigers g)) (part_indexer domain))
      (concat (map (\<lambda>x. entry_bytes domain (EIndexer x)) (tg_sigers g)) @ rest)
      = Inr (map EIndexer (tg_sigers g),
          length (concat (map (\<lambda>x. entry_bytes domain (EIndexer x)) (tg_sigers g))))" for rest
    by (simp add: parses_def comp_def del: entry_bytes.simps)
  have c: "counter_valid v ?c" "ct_count ?c = length (tg_sigers g)" using ok by blast+
  have list: "parseSigerList (counter_bytes domain ?c
      @ concat (map (\<lambda>x. entry_bytes domain (EIndexer x)) (tg_sigers g)) @ rest) v domain
    = Inr (map EIndexer (tg_sigers g), length (counter_bytes domain ?c
        @ concat (map (\<lambda>x. entry_bytes domain (EIndexer x)) (tg_sigers g))))" for rest
    using ok sigs counter_parses [OF c(1)]
    by (auto simp: parseSigerList_def Let_def simp del: entry_bytes.simps)
  show ?thesis
    using parsesD [OF parseTuple_parses [of "replicate headers KMatter" "tg_header g" domain]] ok list
    by (simp add: parses_def part_trans_idx_def trans_sigs_bytes_def trans_sigs_entry_def comp_def
        del: entry_bytes.simps)
qed

text \<open>C9: Transferable signature groups round trip. A counted sequence of seals with
  signature lists, three seal fields or the last-establishment single one, each list under its
  own counter, is read back in either domain and mode with its nesting.\<close>

theorem trans_idx_sig_groups_roundtrip:
  assumes "encodeCounterFromFields code (int (length groups)) v = Inr c"
    and "getDispatch v = Inr table" and "map_of table code = Some d"
    and "dd_kind d = TransIdxSigGroups \<and> headers = 3 \<or> dd_kind d = TransLastIdxSigGroups \<and> headers = 1"
    and "list_all (trans_sigs_ok headers v) groups"
    and "payload = concat (map (trans_sigs_bytes domain) groups)"
  shows "dispatch (Suc n) mode domain (counter_bytes domain c @ payload @ rest) v
    = Inr (EGroup c (counter_bytes domain c @ payload) (map trans_sigs_entry groups),
           length (counter_bytes domain c @ payload))"
proof -
  note e = encodeCounter_encoded [OF assms(1)]
  let ?gs = "map (\<lambda>g. (trans_sigs_bytes domain g, trans_sigs_entry g)) groups"
  have "parses (parse_seq (replicate (length ?gs) (part_trans_idx headers v domain)))
      (concat (map fst ?gs)) (map snd ?gs)"
    by (rule parse_seq_replicate) (use assms(5) in \<open>auto simp: list_all_iff intro: part_trans_idx_parses\<close>)
  then have gs: "parses (parse_seq (replicate (length groups) (part_trans_idx headers v domain))) payload
      (map trans_sigs_entry groups)"
    using assms(6) by (simp add: comp_def)
  have h: "drop (counterHeaderSize c domain) (counter_bytes domain c @ b) = b" for b
    using counter_parses(2) [of v c domain] e by simp
  show ?thesis
  proof (rule dispatch_counted [where d = d and table = table])
    fix nest rest
    show "parserForDescriptor nest mode d (counter_bytes domain c @ payload @ rest) c v domain
        = Inr (map trans_sigs_entry groups, length (counter_bytes domain c @ payload))"
      using parsesD [OF gs, of rest] e assms(4) counter_parses(2) [of v c domain]
      by (auto simp: parserForDescriptor_def Let_def h counted_def)
  qed (use e assms in auto)
qed

theorem trans_idx_sig_groups_roundtrip_witness:
  "\<exists>m sc c g. encodeMatterFromRaw ''M'' [1, 2] = Inr m \<and> g = \<lparr>tg_header = [EMatter m], tg_counter = sc, tg_sigers = []\<rparr>
     \<and> dispatch 1 Compat Txt (counter_bytes Txt c @ trans_sigs_bytes Txt g @ [3]) Vrsn_1_0
       = Inr (EGroup c (counter_bytes Txt c @ trans_sigs_bytes Txt g) [ETuple [EMatter m, ETuple []]],
              length (counter_bytes Txt c @ trans_sigs_bytes Txt g)) \<and> ct_code c = ''-H''"
proof -
  let ?m = "\<lparr>mt_code = ''M'', mt_raw = [1, 2], mt_qb64 = ''MAEC'', mt_fullSize = 4, mt_fullSizeB2 = 3\<rparr>"
  have m: "encodeMatterFromRaw ''M'' [1, 2] = Inr ?m" by code_simp
  have "(case encodeCounterFromFields ''-A'' 0 Vrsn_1_0 of Inr c \<Rightarrow> True | _ \<Rightarrow> False)" by code_simp
  then obtain sc where sc: "encodeCounterFromFields ''-A'' 0 Vrsn_1_0 = Inr sc" by (auto split: sum.splits)
  define g where "g = \<lparr>tg_header = [EMatter ?m], tg_counter = sc, tg_sigers = []\<rparr>"
  have "(case encodeCounterFromFields ''-H'' 1 Vrsn_1_0 of Inr c \<Rightarrow> True | _ \<Rightarrow> False)" by code_simp
  then obtain c where c: "encodeCounterFromFields ''-H'' (int (length [g])) Vrsn_1_0 = Inr c"
    by (auto split: sum.splits)
  have "(case getDispatch Vrsn_1_0 of Inr t \<Rightarrow>
      map_option dd_kind (map_of t ''-H'') = Some TransLastIdxSigGroups | _ \<Rightarrow> False)"
    by code_simp
  then obtain t d where t: "getDispatch Vrsn_1_0 = Inr t" "map_of t ''-H'' = Some d"
    "dd_kind d = TransIdxSigGroups \<and> (1 :: nat) = 3 \<or> dd_kind d = TransLastIdxSigGroups \<and> (1 :: nat) = 1"
    by (auto split: sum.splits)
  have "(case resolveVersionedRegistryValue SIGER_LIST_CODES_BY_VERSION Vrsn_1_0 of
      Inr r \<Rightarrow> ''-A'' \<in> set (vr_value r) | _ \<Rightarrow> False)" by code_simp
  then have "\<exists>r. resolveVersionedRegistryValue SIGER_LIST_CODES_BY_VERSION Vrsn_1_0 = Inr r
      \<and> ''-A'' \<in> set (vr_value r)" by (auto split: sum.splits)
  then have "list_all (trans_sigs_ok 1 Vrsn_1_0) [g]"
    using encodeMatter_valid [OF m] encodeCounter_encoded [OF sc] by (simp add: trans_sigs_ok_def g_def)
  from trans_idx_sig_groups_roundtrip [OF c t this refl, where domain = Txt and n = 0
      and mode = Compat and rest = "[3]"] encodeCounter_encoded [OF c] m
  show ?thesis
    by (intro exI [of _ ?m] exI [of _ sc] exI [of _ c] exI [of _ g])
      (simp add: trans_sigs_entry_def g_def)
qed

section \<open>Wrapped groups are read back\<close>

lemma wrapper_loop_groups:
  assumes "list_all (\<lambda>(e, g). parses (\<lambda>bs. nest bs v) e g \<and> e \<noteq> []
      \<and> (\<forall>rest. \<exists>c. parseCounter (e @ rest) v domain = Inr c \<and> ct_code c \<noteq> GENUS_VERSION_CODE)) egs"
    and "drop offset payload = concat (map fst egs)" and "offset \<le> length payload"
    and "length payload \<le> offset + n"
  shows "wrapper_loop n nest mode domain payload offset v items = Inr (items @ map snd egs)"
  using assms
proof (induction egs arbitrary: n offset items)
  case Nil
  then show ?case by (simp add: wrapper_loop.simps)
next
  case (Cons eg egs)
  obtain e g where eg: "eg = (e, g)" by (cases eg)
  have ne: "e \<noteq> []" and p: "parses (\<lambda>bs. nest bs v) e g" using Cons.prems(1) eg by auto
  have d: "drop offset payload = e @ concat (map fst egs)" using Cons.prems(2) eg by simp
  then have l: "length payload = offset + length e + length (concat (map fst egs))"
    using Cons.prems(3) by (metis add.assoc le_add_diff_inverse length_append length_drop)
  then obtain k where n: "n = Suc k" using ne Cons.prems(4) by (cases n) auto
  obtain c where c: "parseCounter (e @ concat (map fst egs)) v domain = Inr c"
    "ct_code c \<noteq> GENUS_VERSION_CODE" using Cons.prems(1) eg by auto
  have round: "wrapper_round nest domain payload offset v = WGroup g (offset + length e)"
    using c ne parsesD [OF p, of "concat (map fst egs)"] by (simp add: wrapper_round_def d)
  have "drop (offset + length e) payload = concat (map fst egs)"
  proof -
    have "drop (offset + length e) payload = drop (length e) (drop offset payload)" by (simp add: add.commute)
    then show ?thesis unfolding d by simp
  qed
  then have "wrapper_loop k nest mode domain payload (offset + length e) v (items @ [g])
      = Inr ((items @ [g]) @ map snd egs)"
    using Cons.prems l n ne by (intro Cons.IH) (auto simp: Suc_le_eq neq_Nil_conv)
  then show ?case using l ne by (simp add: n wrapper_loop.simps [of "Suc k"] round eg)
qed

lemma dispatch_strict_counter:
  assumes "dispatch n Strict domain input v = Inr (g, k)"
  shows "\<exists>c raw items. g = EGroup c raw items \<and> parseCounter input v domain = Inr c"
proof -
  obtain m where n: "n = Suc m" using assms by (cases n) auto
  from assms n have "parseAttachmentDispatchWithVersion (dispatch m Strict domain) Strict domain input v = Inr (g, k)"
    by (auto simp: onVersionDispatchFailure_def split: sum.splits)
  then show ?thesis by (rule withVersion_Inr) blast
qed

definition group_code :: "group_entry \<Rightarrow> string" where
  "group_code g = (case g of EGroup c _ _ \<Rightarrow> ct_code c | _ \<Rightarrow> [])"

text \<open>A wrapper counter over parsed groups gives the groups in order.\<close>

lemma wrapper_group_parses:
  assumes "getDispatch v = Inr table" and "map_of table code = Some d" and "dd_kind d = Quadlet"
    and "code \<in> set (codeSet dd_wrapper (if dd_version d = 2 then 2 else 1))"
    and "list_all (\<lambda>(e, g). parses (\<lambda>bs. dispatch n Strict domain bs v) e g
            \<and> group_code g \<noteq> GENUS_VERSION_CODE) egs"
    and "payload = concat (map fst egs)" and "length payload = count * quadletUnitSize domain"
    and "encodeCounterFromFields code (int count) v = Inr c"
  shows "dispatch (Suc n) mode domain (counter_bytes domain c @ payload @ rest) v
    = Inr (EGroup c (counter_bytes domain c @ payload) (map snd egs),
           length (counter_bytes domain c @ payload))"
proof -
  note e = encodeCounter_encoded [OF assms(8)]
  then have ec: "counter_valid v c" "ct_code c = code" "ct_count c = count" by auto
  note hl = counter_parses(2) [OF ec(1), of domain]
  have ok: "list_all (\<lambda>(e, g). parses (\<lambda>bs. dispatch n mode domain bs v) e g \<and> e \<noteq> []
      \<and> (\<forall>rest. \<exists>c. parseCounter (e @ rest) v domain = Inr c \<and> ct_code c \<noteq> GENUS_VERSION_CODE)) egs"
  proof -
    have one: "parses (\<lambda>bs. dispatch n mode domain bs v) e g \<and> e \<noteq> []
        \<and> (\<forall>rest. \<exists>c. parseCounter (e @ rest) v domain = Inr c \<and> ct_code c \<noteq> GENUS_VERSION_CODE)"
      if p: "parses (\<lambda>bs. dispatch n Strict domain bs v) e g" and g: "group_code g \<noteq> GENUS_VERSION_CODE" for e g
    proof -
      have s: "dispatch n Strict domain (e @ rest) v = Inr (g, length e)" for rest by (rule parsesD [OF p])
      have "dispatch n mode domain (e @ rest) v = Inr (g, length e)" for rest
        using s dispatch_strict_compat [OF s] by (cases mode) auto
      moreover have "e \<noteq> []" using dispatch_consumes [OF s [of "[]"]] by auto
      moreover have "\<exists>c. parseCounter (e @ rest) v domain = Inr c \<and> ct_code c \<noteq> GENUS_VERSION_CODE" for rest
        using dispatch_strict_counter [OF s [of rest]] g by (auto simp: group_code_def)
      ultimately show ?thesis by (auto simp: parses_def)
    qed
    show ?thesis
      unfolding list_all_iff
    proof
      fix x assume x: "x \<in> set egs"
      obtain e g where eg: "x = (e, g)" by (cases x)
      with x assms(5) have "parses (\<lambda>bs. dispatch n Strict domain bs v) e g"
        "group_code g \<noteq> GENUS_VERSION_CODE" by (auto simp: list_all_iff)
      from one [OF this] show "case x of (e, g) \<Rightarrow> parses (\<lambda>bs. dispatch n mode domain bs v) e g \<and> e \<noteq> []
        \<and> (\<forall>rest. \<exists>c. parseCounter (e @ rest) v domain = Inr c \<and> ct_code c \<noteq> GENUS_VERSION_CODE)"
        unfolding eg prod.case .
    qed
  qed
  have loop: "wrapper_loop (length payload) (dispatch n mode domain) mode domain payload 0 v []
      = Inr (map snd egs)"
    using wrapper_loop_groups [where nest = "dispatch n mode domain" and egs = egs and v = v
        and domain = domain and offset = 0 and payload = payload and n = "length payload"
        and mode = mode and items = "[]"] ok assms(6) by simp
  have sl: "slice (counterHeaderSize c domain) (counterHeaderSize c domain + length payload)
      (counter_bytes domain c @ payload @ rest) = payload"
    by (rule slice_append_mid) (simp_all add: hl)
  have "parserForDescriptor (dispatch n mode domain) mode d (counter_bytes domain c @ payload @ rest) c v domain
      = Inr (map snd egs, counterHeaderSize c domain + length payload)"
    using assms(3,4,7) ec(2,3) loop sl hl
    by (simp add: parserForDescriptor_def parseQuadletGroup_def Let_def)
  then show ?thesis
    using counter_parses(1) [OF ec(1), of domain "payload @ rest"] assms(1,2) ec(2) hl
    by (simp add: parseAttachmentDispatchWithVersion_def)
qed

text \<open>C10: Wrapped groups round trip. Groups that dispatch reads in strict mode under a
  version, none of them a version marker, are read back in order when a wrapper counter of that
  version counts their bytes in quadlets (triplets in the binary domain), in both modes.\<close>

theorem wrapper_group_roundtrip:
  assumes "getDispatch v = Inr table" and "map_of table code = Some d" and "dd_kind d = Quadlet"
    and "code \<in> set (codeSet dd_wrapper (if dd_version d = 2 then 2 else 1))"
    and "list_all (\<lambda>(e, g). parses (\<lambda>bs. dispatch n Strict domain bs v) e g
            \<and> group_code g \<noteq> GENUS_VERSION_CODE) egs"
    and "payload = concat (map fst egs)" and "length payload = count * quadletUnitSize domain"
    and "encodeCounterFromFields code (int count) v = Inr c"
  shows "dispatch (Suc n) mode domain (counter_bytes domain c @ payload @ rest) v
    = Inr (EGroup c (counter_bytes domain c @ payload) (map snd egs),
           length (counter_bytes domain c @ payload))"
  by (rule wrapper_group_parses [OF assms])

theorem wrapper_group_roundtrip_witness:
  "\<exists>c k g. dispatch 2 Strict Txt (counter_bytes Txt c @ counter_bytes Txt k @ [1]) Vrsn_1_0
      = Inr (EGroup c (counter_bytes Txt c @ counter_bytes Txt k) [g], 8) \<and> ct_code k = ''-A''"
proof -
  have "(case encodeCounterFromFields ''-A'' 0 Vrsn_1_0 of Inr k \<Rightarrow> length (counter_bytes Txt k) = 4 | _ \<Rightarrow> False)"
    "(case encodeCounterFromFields ''-V'' 1 Vrsn_1_0 of Inr c \<Rightarrow> length (counter_bytes Txt c) = 4 | _ \<Rightarrow> False)"
    by code_simp+
  then obtain k c where k: "encodeCounterFromFields ''-A'' (int (length ([] :: group_entry list list))) Vrsn_1_0 = Inr k"
    "length (counter_bytes Txt k) = 4"
    and c: "encodeCounterFromFields ''-V'' (int 1) Vrsn_1_0 = Inr c" "length (counter_bytes Txt c) = 4"
    by (auto split: sum.splits)
  have "(case getDispatch Vrsn_1_0 of Inr t \<Rightarrow>
      map_option dd_kind (map_of t ''-A'') = Some (RepeatTuple [KIndexer])
      \<and> map_option dd_kind (map_of t ''-V'') = Some Quadlet
      \<and> map_option dd_version (map_of t ''-V'') = Some 1 | _ \<Rightarrow> False)"
    "''-V'' \<in> set (codeSet dd_wrapper 1)"
    by code_simp+
  then obtain t d d' where t: "getDispatch Vrsn_1_0 = Inr t" "map_of t ''-A'' = Some d"
    "dd_kind d = RepeatTuple [KIndexer]" "map_of t ''-V'' = Some d'" "dd_kind d' = Quadlet"
    "''-V'' \<in> set (codeSet dd_wrapper (if dd_version d' = 2 then 2 else 1))"
    by (auto split: sum.splits)
  define g where "g = EGroup k (counter_bytes Txt k) []"
  from dispatch_counted [of Vrsn_1_0 k t d Strict Txt "[]" "[]" 0] encodeCounter_encoded [OF k(1)] t(1-3)
    counter_parses(2) [of Vrsn_1_0 k Txt]
  have "parses (\<lambda>bs. dispatch 1 Strict Txt bs Vrsn_1_0) (counter_bytes Txt k) g"
    by (auto simp: parses_def g_def parserForDescriptor_def Let_def counted_def parseRepeated_def)
  moreover have "group_code g \<noteq> GENUS_VERSION_CODE"
    using encodeCounter_encoded [OF k(1)] by (simp add: g_def group_code_def GENUS_VERSION_CODE_def)
  ultimately have "list_all (\<lambda>(e, g). parses (\<lambda>bs. dispatch 1 Strict Txt bs Vrsn_1_0) e g
      \<and> group_code g \<noteq> GENUS_VERSION_CODE) [(counter_bytes Txt k, g)]" by simp
  from wrapper_group_roundtrip [OF t(1,4-6) this refl _ c(1), of Strict "[1]"] k c
    encodeCounter_encoded [OF k(1)]
  show ?thesis
    by (intro exI [of _ c] exI [of _ k] exI [of _ g])
      (simp add: quadletUnitSize_def numeral_2_eq_2)
qed

section \<open>Where encoder, parser and comments disagree\<close>

text \<open>\<open>attachmentCounterPayloadQb64b\<close> counts quadlets in version 2, and the
  version-2 parser of the same group counts primitives: a signature group of one signature,
  written for version 2, is not read back; the version-1 form is.\<close>

lemma v2_signature_group_not_read_back:
  assumes "indexer_valid x" and "ix_fullSize x = 88"
  shows "attachmentCounterPayloadQb64b ''ControllerIdxSigs'' 1 [indexer_qb64b x] Vrsn_2_0
      = Inr (utf8 ''-KAW'')"
    and "dispatch (Suc n) Strict Txt (utf8 ''-KAW'' @ indexer_qb64b x) Vrsn_2_0 = Inl DeserializeError"
proof -
  have l: "length (indexer_qb64b x) = 88" using indexer_txt.length_enc [OF assms(1)] assms(2) by simp
  have "attachmentCounterQb64b ''ControllerIdxSigs'' 22 Vrsn_2_0 = Inr (utf8 ''-KAW'')" by code_simp
  then show "attachmentCounterPayloadQb64b ''ControllerIdxSigs'' 1 [indexer_qb64b x] Vrsn_2_0
      = Inr (utf8 ''-KAW'')"
    by (simp add: attachmentCounterPayloadQb64b_def l Vrsn_2_0_def)
  have "(case encodeCounterFromFields ''-K'' 22 Vrsn_2_0 of
      Inr c \<Rightarrow> counter_bytes Txt c = utf8 ''-KAW'' \<and> length (utf8 ''-KAW'') = 4 | _ \<Rightarrow> False)"
    by code_simp
  then obtain c where c: "encodeCounterFromFields ''-K'' 22 Vrsn_2_0 = Inr c"
    "counter_bytes Txt c = utf8 ''-KAW''" "length (utf8 ''-KAW'') = 4"
    by (auto split: sum.splits)
  note e = encodeCounter_encoded [OF c(1)]
  have "(case getDispatch Vrsn_2_0 of Inr t \<Rightarrow>
      map_option dd_kind (map_of t ''-K'') = Some (RepeatTuple [KIndexer]) | _ \<Rightarrow> False)"
    by code_simp
  then obtain t d where t: "getDispatch Vrsn_2_0 = Inr t" "map_of t ''-K'' = Some d"
    "dd_kind d = RepeatTuple [KIndexer]" by (auto split: sum.splits)
  have "part_tuple [KIndexer] Txt (indexer_qb64b x) = Inr (ETuple [EIndexer x], length (indexer_qb64b x))"
    using part_tuple_parses [of "[KIndexer]" "[EIndexer x]" Txt] assms(1)
    by (simp add: parses_def) (metis append_Nil2)
  moreover have "part_tuple [KIndexer] Txt [] = Inl DeserializeError" by code_simp
  ultimately have "parseRepeated (indexer_qb64b x) (Suc (Suc 20)) [KIndexer] Txt = Inl DeserializeError"
    unfolding parseRepeated_def replicate_Suc by simp
  moreover have "ct_count c = Suc (Suc 20)" using e by simp
  moreover have "drop (counterHeaderSize c Txt) (utf8 ''-KAW'' @ indexer_qb64b x) = indexer_qb64b x"
    using counter_parses(2) [of Vrsn_2_0 c Txt] e c(2,3) by simp
  moreover have "parseCounter (utf8 ''-KAW'' @ indexer_qb64b x) Vrsn_2_0 Txt = Inr c"
    using counter_parses(1) [of Vrsn_2_0 c Txt "indexer_qb64b x"] e c(2) by simp
  ultimately show "dispatch (Suc n) Strict Txt (utf8 ''-KAW'' @ indexer_qb64b x) Vrsn_2_0 = Inl DeserializeError"
    using t e
    by (simp add: parseAttachmentDispatchWithVersion_def parserForDescriptor_def counted_def Let_def
        onVersionDispatchFailure_def)
qed

text \<open>A version-2 group inside a version-1 wrapper is read when its code also exists in
  version 1. The wrapper parses the counter under its own version first, so a group whose code
  only version 2 has becomes opaque units there, although the same bytes dispatch on their own.\<close>

lemma wrapper_mixed_version_opaque:
  "(case dispatch 5 Compat Txt (utf8 ''-SAA'') Vrsn_1_0 of
      Inr (EGroup c _ items, n) \<Rightarrow> vn_major (ct_version c) = 2 \<and> items = [] | _ \<Rightarrow> False)"
  "(case dispatch 2 Compat Txt (utf8 ''-VAB-SAA'') Vrsn_1_0 of
      Inr (EGroup c _ [EUnknown u], n) \<Rightarrow> uk_qb64 u = ''-SAA'' | _ \<Rightarrow> False)"
  by code_simp+

end
