(* ===== verification/Primitives.thy ===== *)
theory Primitives
  imports Matter
begin

text \<open>
  The small value primitives over Matter: numbers and sequence numbers
  (\<^verbatim>\<open>cesr/src/primitives/number.ts, seqner.ts\<close>), Base64 texts
  (\<^verbatim>\<open>bexter.ts\<close>), dates (\<^verbatim>\<open>dater.ts\<close>), and the code
  checks of prefixes, verification keys and digests (\<^verbatim>\<open>prefixer.ts,
  verfer.ts, diger.ts\<close>). The lemmas show that big-endian numbers and Base64 texts are
  recovered from their raw bytes, and where a Base64 text is not.
\<close>

section \<open>Code checks\<close>

definition check_code :: "string list \<Rightarrow> matter \<Rightarrow> matter res" where
  "check_code codes m = bind_res (ensure (mt_code m \<in> set codes) UnknownCodeError) (\<lambda>_. Inr m)"

definition BEXTER_CODES :: "string list" where
  "BEXTER_CODES = codexValues BextCodex"

definition NUMBER_CODES :: "string list" where
  "NUMBER_CODES = codexValues NumCodex"

definition DIGEST_CODES :: "string list" where
  "DIGEST_CODES = codexValues DigCodex"

definition PREFIX_CODES :: "string list" where
  "PREFIX_CODES = codexValues PreCodex"

definition VERFER_CODES :: "string list" where
  "VERFER_CODES = codexValues PreNonDigCodex"

definition DATER_CODES :: "string list" where
  "DATER_CODES = [''1AAG'']"

definition SEQNER_CODES :: "string list" where
  "SEQNER_CODES = [''0A'']"

definition new_number :: "matter \<Rightarrow> matter res" where
  "new_number = check_code NUMBER_CODES"

definition new_seqner :: "matter \<Rightarrow> matter res" where
  "new_seqner = check_code SEQNER_CODES"

definition new_bexter :: "matter \<Rightarrow> matter res" where
  "new_bexter = check_code BEXTER_CODES"

definition new_dater :: "matter \<Rightarrow> matter res" where
  "new_dater = check_code DATER_CODES"

definition new_prefixer :: "matter \<Rightarrow> matter res" where
  "new_prefixer = check_code PREFIX_CODES"

definition new_verfer :: "matter \<Rightarrow> matter res" where
  "new_verfer = check_code VERFER_CODES"

definition new_diger :: "matter \<Rightarrow> bool \<Rightarrow> matter res" where
  "new_diger m strict = (if strict then check_code DIGEST_CODES m else Inr m)"

section \<open>Numbers\<close>

text \<open>The loop of \<open>num\<close> and \<open>sn\<close>: shifting by eight bits and adding the
  next byte.\<close>

definition bytes_num :: "byte list \<Rightarrow> nat" where
  "bytes_num raw = foldl (\<lambda>value w. value * 256 + unat w) 0 raw"

definition number_num :: "matter \<Rightarrow> nat" where
  "number_num m = bytes_num (mt_raw m)"

definition number_numh :: "matter \<Rightarrow> string" where
  "number_numh m = hex_str (number_num m)"

definition seqner_sn :: "matter \<Rightarrow> nat" where
  "seqner_sn m = bytes_num (mt_raw m)"

definition seqner_snh :: "matter \<Rightarrow> string" where
  "seqner_snh m = padStart (length (mt_raw m) * 2) (CHR ''0'') (hex_str (seqner_sn m))"

text \<open>Big-endian bytes, \<open>while (working > 0n) { unshift(working & 0xff); working >>= 8 }\<close>.\<close>

function big_bytes :: "nat \<Rightarrow> byte list \<Rightarrow> byte list" where
  "big_bytes working bytes =
     (if 0 < working then big_bytes (working div 256) (of_nat (working mod 256) # bytes) else bytes)"
  by pat_completeness auto
termination
  by (relation "measure fst") auto

declare big_bytes.simps [simp del]

definition bigintToBytes :: "int \<Rightarrow> byte list res" where
  "bigintToBytes value =
     (if value < 0 then Inl JsError else if value = 0 then Inr [0] else Inr (big_bytes (nat value) []))"

lemma bytes_num_digits: "bytes_num raw = of_digits 256 (map unat raw)"
  by (simp add: bytes_num_def of_digits_def foldl_map)

lemma big_bytes_digits: "0 < n \<Longrightarrow> big_bytes n bs = map of_nat (digits 256 n) @ bs"
proof (induction n bs rule: big_bytes.induct)
  case (1 n bs)
  show ?case
  proof (cases "n < 256")
    case True
    with 1 show ?thesis
      by (subst big_bytes.simps, subst digits.simps) (simp add: big_bytes.simps)
  next
    case False
    then have "0 < n div 256" by simp
    with 1 False show ?thesis
      by (subst big_bytes.simps, subst digits.simps) simp
  qed
qed

lemma bytes_num_zeros [simp]: "bytes_num (replicate k 0 @ raw) = bytes_num raw"
  by (simp add: bytes_num_digits radix_simps)

lemma bigintToBytes_num:
  assumes "bigintToBytes v = Inr raw"
  shows "0 \<le> v \<and> bytes_num raw = nat v \<and> raw \<noteq> []"
proof (cases "v = 0")
  case True
  with assms show ?thesis by (auto simp: bigintToBytes_def bytes_num_def)
next
  case False
  with assms have v: "0 < v" "raw = map of_nat (digits 256 (nat v))"
    by (auto simp: bigintToBytes_def big_bytes_digits split: if_splits)
  have "map (\<lambda>d. unat (of_nat d :: byte)) (digits 256 (nat v)) = digits 256 (nat v)"
    using digits_bound [of 256 _ "nat v"] by (intro map_idI) (auto simp: unat_of_nat_byte)
  then show ?thesis using v by (simp add: bytes_num_digits comp_def radix_simps)
qed

lemma bigintToBytes_length:
  assumes "bigintToBytes v = Inr raw" and "v < 256 ^ k" and "0 < k"
  shows "length raw \<le> k"
proof (cases "v = 0")
  case True
  with assms show ?thesis by (auto simp: bigintToBytes_def)
next
  case False
  with assms have v: "0 < v" "raw = map of_nat (digits 256 (nat v))"
    by (auto simp: bigintToBytes_def big_bytes_digits split: if_splits)
  then obtain n where n: "v = int n" using zero_less_imp_eq_int by blast
  with assms(2) have "n < 256 ^ k" by (simp flip: of_nat_less_iff)
  with v n digits_length_le [of 256 n k] assms(3) show ?thesis by simp
qed

section \<open>Base64 texts\<close>

definition getLeadSize :: "string \<Rightarrow> nat res" where
  "getLeadSize code = bind_res (sizageForCode code) (\<lambda>z. Inr (m_ls z))"

text \<open>\<open>(3 - ts) % 3\<close> is never negative for \<open>ts\<close> below four.\<close>

definition bexter_rawify :: "string \<Rightarrow> byte list res" where
  "bexter_rawify bext =
     (let ts = length bext mod 4; ws = (4 - ts) mod 4; ls = (3 - ts) mod 3
      in bind_res (decodeB64 (replicate ws (CHR ''A'') @ bext)) (\<lambda>bs. Inr (drop ls bs)))"

definition bexter_derawify :: "byte list \<Rightarrow> string \<Rightarrow> string res" where
  "bexter_derawify raw code =
     bind_res (getLeadSize code) (\<lambda>ls.
     let bext = encodeB64 (replicate ls 0 @ raw);
         ws = (if ls = 0 then (if take 1 bext = ''A'' then 1 else 0) else (ls + 1) mod 4)
     in Inr (drop ws bext))"

definition bexter_bext :: "matter \<Rightarrow> string res" where
  "bexter_bext m = bexter_derawify (mt_raw m) (mt_code m)"

text \<open>The lead size of the raw bytes, as \<open>chooseBexterCode\<close> picks it.\<close>

definition raw_lead :: "byte list \<Rightarrow> nat" where
  "raw_lead raw = (3 - length raw mod 3) mod 3"

lemma mod4_upto3:
  obtains "n mod 4 = (0 :: nat)" | "n mod 4 = 1" | "n mod 4 = 2" | "n mod 4 = 3"
proof -
  have "n mod 4 < 4" by simp
  then have "n mod 4 = 0 \<or> n mod 4 = 1 \<or> n mod 4 = 2 \<or> n mod 4 = 3" by linarith
  then show thesis using that by (elim disjE) simp_all
qed

lemma rawify_facts:
  assumes "is_b64 s"
  defines "ws \<equiv> (4 - length s mod 4) mod 4" and "ls \<equiv> (3 - length s mod 4) mod 3"
  shows "bexter_rawify s = Inr (drop ls (unsextets (replicate ws 0 @ map b64v s)))"
    and "replicate ls 0 @ drop ls (unsextets (replicate ws 0 @ map b64v s))
      = unsextets (replicate ws 0 @ map b64v s)"
    and "raw_lead (drop ls (unsextets (replicate ws 0 @ map b64v s))) = ls"
    and "encodeB64 (unsextets (replicate ws 0 @ map b64v s)) = replicate ws (CHR ''A'') @ s"
    and "ws = (if ls = 0 then (if length s mod 4 = 3 then 1 else 0) else ls + 1)"
proof -
  let ?t = "replicate ws (CHR ''A'') @ s" and ?u = "unsextets (replicate ws 0 @ map b64v s)"
  have b: "is_b64 ?t" using assms(1) by (simp add: is_b64_def set_replicate_conv_if)
  have "length ?t = length s + (4 - length s mod 4) mod 4" by (simp add: ws_def)
  then have l4: "length ?t mod 4 = 0" unfolding pad4 by simp
  have mv: "map b64v ?t = replicate ws 0 @ map b64v s" by simp
  have ne1: "length ?t mod 4 \<noteq> 1" using l4 by linarith
  have dec: "decodeB64 ?t = Inr ?u" using decodeB64_b64 [OF b ne1] unfolding mv .
  then show "bexter_rawify s = Inr (drop ls ?u)"
    unfolding bexter_rawify_def Let_def ws_def [symmetric] ls_def [symmetric] by simp
  have "canonical (map b64v ?t)" by (rule canonical_mod4 [OF b64v_bound [OF b]]) (use l4 in simp)
  then show "encodeB64 ?u = ?t" by (rule encode_decodeB64 [OF b _ dec])
  show w: "ws = (if ls = 0 then (if length s mod 4 = 3 then 1 else 0) else ls + 1)"
    unfolding ws_def ls_def by (cases rule: mod4_upto3 [of "length s"]) simp_all
  have lu: "length ?u = 3 * ((ws + length s) div 4)" proof -
    obtain k where "ws + length s = 4 * k" using l4 by (metis dvdE length_append length_replicate mod_0_imp_dvd)
    then show ?thesis by (simp add: length_unsextets)
  qed
  show "replicate ls 0 @ drop ls ?u = ?u"
  proof (cases rule: mod4_upto3 [of "length s"])
    case 2
    then have ws: "ws = 3" "ls = 2" by (simp_all add: ws_def ls_def)
    have "1 \<le> length s" using 2 by (cases s) auto
    then obtain x xs where "s = x # xs" by (cases s) auto
    with ws show ?thesis by (simp add: numeral_3_eq_3 numeral_2_eq_2)
  next
    case 3
    then have ws: "ws = 2" "ls = 1" by (simp_all add: ws_def ls_def)
    have "2 \<le> length s" using 3 by (metis mod_less_eq_dividend)
    then obtain x y xs where "s = x # y # xs" by (cases s; cases "tl s") auto
    with ws show ?thesis by (simp add: numeral_2_eq_2)
  qed (simp_all add: ls_def)
  show "raw_lead (drop ls ?u) = ls"
  proof (cases rule: mod4_upto3 [of "length s"])
    case 2
    then have ws: "ws = 3" "ls = 2" by (simp_all add: ws_def ls_def)
    moreover have "0 < length s" using 2 by (cases s) auto
    ultimately have "1 \<le> (ws + length s) div 4" by linarith
    then obtain j where "(ws + length s) div 4 = Suc j" by (cases "(ws + length s) div 4") auto
    with lu have "length (drop 2 ?u) = 3 * j + 1" by simp
    with ws show ?thesis by (simp add: raw_lead_def)
  next
    case 3
    then have ws: "ws = 2" "ls = 1" by (simp_all add: ws_def ls_def)
    have "2 \<le> length s" using 3 by (metis mod_less_eq_dividend)
    then have "1 \<le> (ws + length s) div 4" using ws by linarith
    then obtain j where "(ws + length s) div 4 = Suc j" by (cases "(ws + length s) div 4") auto
    with lu have "length (drop 1 ?u) = 3 * j + 2" by simp
    moreover have "Suc (Suc (3 * j)) mod 3 = 2" by presburger
    ultimately show ?thesis using ws by (simp add: raw_lead_def)
  qed (simp_all add: ls_def raw_lead_def lu)
qed

lemma bexter_roundtrip_raw:
  assumes "is_b64 s" and "bexter_rawify s = Inr raw"
    and "map_of MATTER_SIZES code = Some z" and "m_ls z = raw_lead raw"
  shows "bexter_derawify raw code =
    Inr (if length s mod 4 = 0 \<and> take 1 s = ''A'' then drop 1 s else s)"
proof -
  note f = rawify_facts [OF assms(1)]
  let ?ls = "(3 - length s mod 4) mod 3" and ?ws = "(4 - length s mod 4) mod 4"
  have raw: "raw = drop ?ls (unsextets (replicate ?ws 0 @ map b64v s))" using f(1) assms(2) by simp
  have ls: "m_ls z = ?ls" using f(3) assms(4) raw by simp
  have enc: "encodeB64 (replicate ?ls 0 @ raw) = replicate ?ws (CHR ''A'') @ s"
    using f(2,4) raw by simp
  show ?thesis
  proof (cases rule: mod4_upto3 [of "length s"])
    case 1
    then show ?thesis
      using enc ls assms(3)
      by (simp add: bexter_derawify_def getLeadSize_def sizageForCode_def Let_def)
  next
    case 2
    then show ?thesis
      using enc ls assms(3)
      by (simp add: bexter_derawify_def getLeadSize_def sizageForCode_def Let_def)
  next
    case 3
    then show ?thesis
      using enc ls assms(3)
      by (simp add: bexter_derawify_def getLeadSize_def sizageForCode_def Let_def)
  next
    case 4
    then show ?thesis
      using enc ls assms(3)
      by (simp add: bexter_derawify_def getLeadSize_def sizageForCode_def Let_def)
  qed
qed

section \<open>Dates\<close>

definition dater_dts :: "matter \<Rightarrow> string res" where
  "dater_dts m = bind_res (sizageForCode (mt_code m)) (\<lambda>z. Inr (drop (m_hs z) (mt_qb64 m)))"

definition toIso8601 :: "string \<Rightarrow> string" where
  "toIso8601 dts = map (\<lambda>c. if c = CHR ''c'' then CHR '':'' else if c = CHR ''d'' then CHR ''.''
     else if c = CHR ''p'' then CHR ''+'' else c) dts"

definition dater_iso8601 :: "matter \<Rightarrow> string res" where
  "dater_iso8601 m = bind_res (dater_dts m) (\<lambda>d. Inr (toIso8601 d))"

end
