(* ===== verification/Json.thy ===== *)
theory Json
  imports Prelude
begin

text \<open>
  JSON-shaped values as JavaScript holds them after \<open>JSON.parse\<close>: objects keep their
  members in insertion order. Used for threshold expressions and event bodies.
\<close>

datatype jvalue =
    JNull
  | JBool bool
  | JNum int
  | JStr string
  | JArr "jvalue list"
  | JObj "(string \<times> jvalue) list"

definition jfield :: "jvalue \<Rightarrow> string \<Rightarrow> jvalue option" where
  "jfield v k = (case v of JObj kvs \<Rightarrow> map_of kvs k | _ \<Rightarrow> None)"

definition is_jarr :: "jvalue \<Rightarrow> bool" where
  "is_jarr v = (case v of JArr _ \<Rightarrow> True | _ \<Rightarrow> False)"

text \<open>\<open>String.prototype.trim\<close> on code units below 256.\<close>

definition js_white :: "char \<Rightarrow> bool" where
  "js_white c \<longleftrightarrow> of_char c \<in> {9, 10, 11, 12, 13, 32, 160 :: nat}"

definition js_trim :: "string \<Rightarrow> string" where
  "js_trim s = rev (dropWhile js_white (rev (dropWhile js_white s)))"

lemma js_trim_id:
  assumes "\<forall>c \<in> set s. \<not> js_white c"
  shows "js_trim s = s"
proof -
  have d: "dropWhile js_white t = t" if "\<forall>c \<in> set t. \<not> js_white c" for t
    using that by (cases t) auto
  have "dropWhile js_white (rev s) = rev s" by (rule d) (use assms in simp)
  then show ?thesis using d [OF assms] by (simp add: js_trim_def)
qed

text \<open>\<open>BigInt.toString(10)\<close> and the literals \<open>/^-?\d+$/\<close>.\<close>

definition int_dec :: "int \<Rightarrow> string" where
  "int_dec i = (if i < 0 then CHR ''-'' # dec_str (nat (- i)) else dec_str (nat i))"

definition signed_dec :: "string \<Rightarrow> int option" where
  "signed_dec s = (case s of
     c # r \<Rightarrow> if c = CHR ''-'' then map_option (\<lambda>n. - int n) (read_radix 10 r)
              else map_option int (read_radix 10 s)
   | [] \<Rightarrow> None)"

lemma dec_str_no:
  assumes "c \<notin> set ''0123456789''"
  shows "c \<notin> set (dec_str n)"
  using set_dec_str [of n] assms by blast

lemma signed_dec_dec_str: "signed_dec (dec_str n) = Some (int n)"
proof -
  obtain c r where s: "dec_str n = c # r" by (cases "dec_str n") auto
  then have "c \<noteq> CHR ''-''" using dec_str_no [of "CHR ''-''" n] by auto
  then show ?thesis using s read_dec_str [of n] by (simp add: signed_dec_def)
qed

end
