(* ===== verification/Tholder.thy ===== *)
theory Tholder
  imports Complex_Main Primitives Json
begin

text \<open>
  Signing thresholds (\<^verbatim>\<open>cesr/src/primitives/tholder.ts\<close>): exact rational
  weights, normalization of numeric and weighted expressions, the CESR form
  (\<open>limen\<close>) and the satisfaction test. The lemmas show that the rational arithmetic is
  exact, that the satisfaction loop computes the weighted sums it stands for, that signing with
  more keys never unsatisfies and signing with all keys always satisfies a threshold the
  constructor accepts, and that the limen is read back.
\<close>

section \<open>Rationals\<close>

record rational =
  rt_num :: int
  rt_den :: int

definition rational :: "int \<Rightarrow> int \<Rightarrow> rational" where
  "rational n d = \<lparr>rt_num = n, rt_den = d\<rparr>"

function gcd_loop :: "nat \<Rightarrow> nat \<Rightarrow> nat" where
  "gcd_loop left right = (if right = 0 then left else gcd_loop right (left mod right))"
  by pat_completeness auto
termination
  by (relation "measure snd") auto

declare gcd_loop.simps [simp del]

definition gcd_js :: "int \<Rightarrow> int \<Rightarrow> int" where
  "gcd_js a b = (let left = gcd_loop (nat \<bar>a\<bar>) (nat \<bar>b\<bar>) in if left = 0 then 1 else int left)"

definition normalizeRational :: "int \<Rightarrow> int \<Rightarrow> rational res" where
  "normalizeRational numerator denominator =
     (if denominator = 0 then Inl JsError
      else
        (let n = (if denominator < 0 then - numerator else numerator);
             d = (if denominator < 0 then - denominator else denominator);
             divisor = gcd_js n d
         in Inr (rational (n div divisor) (d div divisor))))"

definition addRationals :: "rational \<Rightarrow> rational \<Rightarrow> rational res" where
  "addRationals left right =
     normalizeRational (rt_num left * rt_den right + rt_num right * rt_den left)
       (rt_den left * rt_den right)"

definition compareRationals :: "rational \<Rightarrow> rational \<Rightarrow> int" where
  "compareRationals left right =
     (let lhs = rt_num left * rt_den right; rhs = rt_num right * rt_den left
      in if lhs = rhs then 0 else if rhs < lhs then 1 else - 1)"

definition rationalZero :: rational where
  "rationalZero = rational 0 1"

definition rationalOne :: rational where
  "rationalOne = rational 1 1"

definition atLeastOne :: "rational \<Rightarrow> bool" where
  "atLeastOne v \<longleftrightarrow> 0 \<le> compareRationals v (rational 1 1)"

definition integral_weight :: "rational \<Rightarrow> bool" where
  "integral_weight w \<longleftrightarrow> rt_den w = 1 \<or> rt_num w = 0 \<or> rt_num w = rt_den w"

definition formatWeight :: "rational \<Rightarrow> string" where
  "formatWeight w = (if integral_weight w then int_dec (rt_num w)
     else int_dec (rt_num w) @ CHR ''/'' # int_dec (rt_den w))"

definition encodeBextWeight :: "rational \<Rightarrow> string" where
  "encodeBextWeight w = (if integral_weight w then int_dec (rt_num w)
     else int_dec (rt_num w) @ CHR ''s'' # int_dec (rt_den w))"

definition parseWeight :: "string \<Rightarrow> rational res" where
  "parseWeight input =
     (let txt = js_trim input in
      if txt = [] then Inl JsError
      else case signed_dec txt of
        Some v \<Rightarrow> if v < 0 \<or> 1 < v then Inl JsError else Inr (rational v 1)
      | None \<Rightarrow>
          (case js_split (CHR ''/'') txt of
             [a, b] \<Rightarrow>
               (case (signed_dec a, read_radix 10 b) of
                  (Some n, Some d) \<Rightarrow>
                    bind_res (normalizeRational n (int d)) (\<lambda>w.
                    if compareRationals w rationalZero < 0 \<or> 0 < compareRationals w rationalOne
                    then Inl JsError else Inr w)
                | _ \<Rightarrow> Inl JsError)
           | _ \<Rightarrow> Inl JsError))"

section \<open>Weighted expressions\<close>

datatype clause_entry =
    WWeight rational
  | WGroup rational "rational list"

type_synonym clause = "clause_entry list"

fun add_weights :: "rational \<Rightarrow> rational list \<Rightarrow> rational res" where
  "add_weights acc [] = Inr acc"
| "add_weights acc (w # ws) = bind_res (addRationals acc w) (\<lambda>a. add_weights a ws)"

definition entry_weight :: "clause_entry \<Rightarrow> rational" where
  "entry_weight e = (case e of WWeight w \<Rightarrow> w | WGroup w _ \<Rightarrow> w)"

definition parseMember :: "jvalue \<Rightarrow> rational res" where
  "parseMember m = (case m of JStr s \<Rightarrow> parseWeight s | _ \<Rightarrow> Inl JsError)"

definition normalizeEntry :: "jvalue \<Rightarrow> clause_entry res" where
  "normalizeEntry entry =
     (case entry of
        JStr s \<Rightarrow> bind_res (parseWeight s) (\<lambda>w. Inr (WWeight w))
      | JObj [(k, JArr (v # vs))] \<Rightarrow>
          bind_res (parseWeight k) (\<lambda>groupWeight.
          bind_res (map_res parseMember (v # vs)) (\<lambda>members.
          bind_res (add_weights rationalZero members) (\<lambda>memberSum.
          if atLeastOne memberSum then Inr (WGroup groupWeight members) else Inl JsError)))
      | _ \<Rightarrow> Inl JsError)"

definition normalizeClause :: "jvalue \<Rightarrow> clause res" where
  "normalizeClause v =
     (case v of
        JArr (e # es) \<Rightarrow>
          bind_res (map_res normalizeEntry (e # es)) (\<lambda>entries.
          bind_res (add_weights rationalZero (map entry_weight entries)) (\<lambda>topWeight.
          if atLeastOne topWeight then Inr entries else Inl JsError))
      | _ \<Rightarrow> Inl JsError)"

definition semantic_entry :: "clause_entry \<Rightarrow> jvalue" where
  "semantic_entry e = (case e of
     WWeight w \<Rightarrow> JStr (formatWeight w)
   | WGroup w ms \<Rightarrow> JObj [(formatWeight w, JArr (map (\<lambda>m. JStr (formatWeight m)) ms))])"

definition semantic_clauses :: "clause list \<Rightarrow> jvalue" where
  "semantic_clauses clauses =
     (case clauses of
        [c] \<Rightarrow> JArr (map semantic_entry c)
      | _ \<Rightarrow> JArr (map (\<lambda>c. JArr (map semantic_entry c)) clauses))"

definition normalizeWeightedInput :: "jvalue \<Rightarrow> (clause list \<times> jvalue) res" where
  "normalizeWeightedInput v =
     (case v of
        JArr (x # xs) \<Rightarrow>
          (let sourceClauses = (if \<not> list_all is_jarr (x # xs) then [v] else x # xs)
           in bind_res (map_res normalizeClause sourceClauses) (\<lambda>clauses.
              Inr (clauses, semantic_clauses clauses)))
      | _ \<Rightarrow> Inl JsError)"

definition entry_slots :: "clause_entry \<Rightarrow> nat" where
  "entry_slots e = (case e of WWeight _ \<Rightarrow> 1 | WGroup _ ms \<Rightarrow> length ms)"

definition clauses_size :: "clause list \<Rightarrow> nat" where
  "clauses_size clauses = sum_list (map (\<lambda>c. sum_list (map entry_slots c)) clauses)"

section \<open>Threshold inputs\<close>

datatype thold = TNumeric int | TWeighted "clause list"

record threshold =
  tn_numeric :: "int option"
  tn_size :: int
  tn_thold :: thold
  tn_semantic :: jvalue

definition NUMERIC_CAPACITIES :: "(string \<times> nat) list" where
  "NUMERIC_CAPACITIES = [(''M'', 2), (''0H'', 4), (''R'', 5), (''N'', 8), (''S'', 11), (''T'', 14),
     (''0A'', 16), (''U'', 17)]"

definition MAX_SAFE :: int where
  "MAX_SAFE = 9007199254740991"

definition chooseNumberCode :: "nat \<Rightarrow> string res" where
  "chooseNumberCode rawSize =
     (case filter (\<lambda>(code, max). rawSize \<le> max) NUMERIC_CAPACITIES of
        (code, _) # _ \<Rightarrow> Inr code | [] \<Rightarrow> Inl JsError)"

definition makeNumberMatterInit :: "int \<Rightarrow> (string \<times> byte list) res" where
  "makeNumberMatterInit v =
     bind_res (bigintToBytes v) (\<lambda>raw.
     bind_res (chooseNumberCode (length raw)) (\<lambda>code.
     bind_res (of_opt JsError (map_of NUMERIC_CAPACITIES code)) (\<lambda>rawSize.
     Inr (code, replicate (rawSize - length raw) 0 @ raw))))"

definition numeric_threshold :: "int \<Rightarrow> threshold" where
  "numeric_threshold v = \<lparr>tn_numeric = Some v, tn_size = (if MAX_SAFE < v then MAX_SAFE else v),
     tn_thold = TNumeric v, tn_semantic = JStr (hex_str (nat v))\<rparr>"

definition weighted_threshold :: "clause list \<times> jvalue \<Rightarrow> threshold" where
  "weighted_threshold w = \<lparr>tn_numeric = None, tn_size = int (clauses_size (fst w)),
     tn_thold = TWeighted (fst w), tn_semantic = snd w\<rparr>"

definition chooseBexterCode :: "nat \<Rightarrow> string" where
  "chooseBexterCode rawLength =
     (let leadSize = (3 - rawLength mod 3) mod 3
      in if leadSize = 0 then ''4A'' else if leadSize = 1 then ''5A'' else ''6A'')"

definition bext_entry :: "clause_entry \<Rightarrow> string" where
  "bext_entry e = (case e of
     WWeight w \<Rightarrow> encodeBextWeight w
   | WGroup w ms \<Rightarrow> encodeBextWeight w @ CHR ''k'' # js_join (CHR ''v'') (map encodeBextWeight ms))"

definition bext_clauses :: "clause list \<Rightarrow> string" where
  "bext_clauses clauses =
     js_join (CHR ''a'') (map (\<lambda>c. js_join (CHR ''c'') (map bext_entry c)) clauses)"

datatype threshold_input =
    InNumber int
  | InText string
  | InJson jvalue

definition normalizeNumeric :: "int \<Rightarrow> ((string \<times> byte list) \<times> threshold) res" where
  "normalizeNumeric v = bind_res (makeNumberMatterInit v) (\<lambda>init. Inr (init, numeric_threshold v))"

definition normalizeWeighted :: "jvalue \<Rightarrow> ((string \<times> byte list) \<times> threshold) res" where
  "normalizeWeighted v =
     bind_res (normalizeWeightedInput v) (\<lambda>w.
     bind_res (bexter_rawify (bext_clauses (fst w))) (\<lambda>raw.
     Inr ((chooseBexterCode (length raw), raw), weighted_threshold w)))"

text \<open>\<open>json_parse\<close> stands for \<open>JSON.parse\<close> of a literal that must be an array.\<close>

definition normalizeThresholdInput ::
  "(string \<Rightarrow> jvalue option) \<Rightarrow> threshold_input \<Rightarrow> ((string \<times> byte list) \<times> threshold) res" where
  "normalizeThresholdInput json_parse input =
     (case input of
        InNumber v \<Rightarrow> if v < 0 then Inl JsError else normalizeNumeric v
      | InText s \<Rightarrow>
          (let trimmed = js_trim s in
           if trimmed = [] then Inl JsError
           else if take 1 trimmed = ''['' then
             bind_res (of_opt JsError (json_parse trimmed)) (\<lambda>v.
               if is_jarr v then normalizeWeighted v else Inl JsError)
           else bind_res (of_opt JsError (read_radix 16 trimmed)) (\<lambda>n. normalizeNumeric (int n)))
      | InJson v \<Rightarrow> normalizeWeighted v)"

definition THOLDER_NUMERIC_CODES :: "string list" where
  "THOLDER_NUMERIC_CODES = NUMBER_CODES"

definition THOLDER_WEIGHTED_CODES :: "string list" where
  "THOLDER_WEIGHTED_CODES = BEXTER_CODES"

definition decode_entry :: "string \<Rightarrow> jvalue" where
  "decode_entry entry =
     (case index_of entry (CHR ''k'') of
        None \<Rightarrow> JStr entry
      | Some k \<Rightarrow> JObj [(take k entry, JArr (map JStr (js_split (CHR ''v'') (drop (k + 1) entry))))])"

definition decode_bext :: "string \<Rightarrow> jvalue" where
  "decode_bext bext =
     (let clauses = map (\<lambda>c. JArr (map decode_entry (js_split (CHR ''c'') c)))
            (js_split (CHR ''a'') (map (\<lambda>c. if c = CHR ''s'' then CHR ''/'' else c) bext))
      in case clauses of [c] \<Rightarrow> c | _ \<Rightarrow> JArr clauses)"

definition decodeThresholdMatter :: "matter \<Rightarrow> threshold res" where
  "decodeThresholdMatter m =
     (if mt_code m \<in> set THOLDER_NUMERIC_CODES then
        bind_res (new_number m) (\<lambda>n. Inr (numeric_threshold (int (number_num n))))
      else if mt_code m \<in> set THOLDER_WEIGHTED_CODES then
        bind_res (new_bexter m) (\<lambda>x.
        bind_res (bexter_bext x) (\<lambda>bext.
        bind_res (normalizeWeightedInput (decode_bext bext)) (\<lambda>w. Inr (weighted_threshold w))))
      else Inl UnknownCodeError)"

section \<open>The threshold primitive\<close>

record tholder =
  th_matter :: matter
  th_threshold :: threshold

definition tholder_check :: "matter \<Rightarrow> threshold \<Rightarrow> tholder res" where
  "tholder_check m t =
     (if mt_code m \<in> set THOLDER_NUMERIC_CODES \<or> mt_code m \<in> set THOLDER_WEIGHTED_CODES
      then Inr \<lparr>th_matter = m, th_threshold = t\<rparr> else Inl UnknownCodeError)"

text \<open>The constructor on wire material, on a limen, and on a semantic expression.\<close>

definition tholder_of_matter :: "matter \<Rightarrow> tholder res" where
  "tholder_of_matter m = bind_res (decodeThresholdMatter m) (tholder_check m)"

definition tholder_of_limen :: "string \<Rightarrow> tholder res" where
  "tholder_of_limen limen =
     bind_res (parseMatterInit \<lparr>ini_raw = None, ini_code = None, ini_qb64b = None, ini_qb64 = Some limen,
         ini_qb2 = None\<rparr>) tholder_of_matter"

definition tholder_of_sith :: "(string \<Rightarrow> jvalue option) \<Rightarrow> threshold_input \<Rightarrow> tholder res" where
  "tholder_of_sith json_parse input =
     bind_res (normalizeThresholdInput json_parse input) (\<lambda>((code, raw), t).
     bind_res (parseMatterInit \<lparr>ini_raw = Some raw, ini_code = Some code, ini_qb64b = None,
         ini_qb64 = None, ini_qb2 = None\<rparr>) (\<lambda>m. tholder_check m t))"

definition parseTholder :: "byte list \<Rightarrow> cold_domain \<Rightarrow> tholder res" where
  "parseTholder input cold = bind_res (parseMatter input cold) tholder_of_matter"

definition tholder_limen :: "tholder \<Rightarrow> string" where
  "tholder_limen t = mt_qb64 (th_matter t)"

section \<open>Satisfaction\<close>

definition mark_slot :: "int \<Rightarrow> bool list \<Rightarrow> bool list" where
  "mark_slot index sats =
     (if 0 \<le> index \<and> index < int (length sats) then sats[nat index := True] else sats)"

definition slot_sats :: "int \<Rightarrow> int list \<Rightarrow> bool list" where
  "slot_sats slots indices = fold mark_slot (sort (remdups indices)) (replicate (nat slots) False)"

definition sat_at :: "bool list \<Rightarrow> nat \<Rightarrow> bool" where
  "sat_at sats k \<longleftrightarrow> k < length sats \<and> sats ! k"

fun members_loop :: "bool list \<Rightarrow> nat \<Rightarrow> rational \<Rightarrow> rational list \<Rightarrow> (nat \<times> rational) res" where
  "members_loop sats offset acc [] = Inr (offset, acc)"
| "members_loop sats offset acc (w # ws) =
     bind_res (if sat_at sats offset then addRationals acc w else Inr acc) (\<lambda>a.
     members_loop sats (offset + 1) a ws)"

fun clause_loop :: "bool list \<Rightarrow> nat \<Rightarrow> rational \<Rightarrow> clause \<Rightarrow> (nat \<times> rational) res" where
  "clause_loop sats offset acc [] = Inr (offset, acc)"
| "clause_loop sats offset acc (WWeight w # es) =
     bind_res (if sat_at sats offset then addRationals acc w else Inr acc) (\<lambda>a.
     clause_loop sats (offset + 1) a es)"
| "clause_loop sats offset acc (WGroup w ms # es) =
     bind_res (members_loop sats offset rationalZero ms) (\<lambda>(offset', memberWeight).
     bind_res (if atLeastOne memberWeight then addRationals acc w else Inr acc) (\<lambda>a.
     clause_loop sats offset' a es))"

fun clauses_loop :: "bool list \<Rightarrow> nat \<Rightarrow> clause list \<Rightarrow> bool res" where
  "clauses_loop sats offset [] = Inr True"
| "clauses_loop sats offset (c # cs) =
     bind_res (clause_loop sats offset rationalZero c) (\<lambda>(offset', clauseWeight).
     if atLeastOne clauseWeight then clauses_loop sats offset' cs else Inr False)"

definition threshold_satisfy :: "threshold \<Rightarrow> int list \<Rightarrow> bool res" where
  "threshold_satisfy t indices =
     (case tn_thold t of
        TNumeric _ \<Rightarrow> Inr (case tn_numeric t of
            Some n \<Rightarrow> 0 < n \<and> n \<le> int (length indices) | None \<Rightarrow> False)
      | TWeighted clauses \<Rightarrow>
          if indices = [] then Inr False
          else clauses_loop (slot_sats (tn_size t) indices) 0 clauses)"

definition tholder_satisfy :: "tholder \<Rightarrow> int list \<Rightarrow> bool res" where
  "tholder_satisfy t indices = threshold_satisfy (th_threshold t) indices"

section \<open>The rational arithmetic is exact\<close>

definition rval :: "rational \<Rightarrow> rat" where
  "rval r = of_int (rt_num r) / of_int (rt_den r)"

definition wf_rational :: "rational \<Rightarrow> bool" where
  "wf_rational r \<longleftrightarrow> 0 < rt_den r \<and> coprime (rt_num r) (rt_den r)"

lemma rational_sel [simp]: "rt_num (rational n d) = n" "rt_den (rational n d) = d"
  by (simp_all add: rational_def)

lemma wf_rational_consts [simp]: "wf_rational rationalZero" "wf_rational rationalOne"
  "wf_rational (rational v 1)"
  by (simp_all add: wf_rational_def rationalZero_def rationalOne_def)

lemma rval_consts [simp]: "rval rationalZero = 0" "rval rationalOne = 1" "rval (rational v 1) = of_int v"
  by (simp_all add: rval_def rationalZero_def rationalOne_def)

lemma gcd_loop_gcd: "gcd_loop a b = gcd a b"
proof (induction a b rule: gcd_loop.induct)
  case (1 a b)
  show ?case
  proof (cases "b = 0")
    case True
    then show ?thesis by (subst gcd_loop.simps) simp
  next
    case False
    then have "gcd_loop b (a mod b) = gcd b (a mod b)" by (rule 1)
    also have "\<dots> = gcd a b" by (rule gcd_red_nat [symmetric])
    finally show ?thesis using False by (subst gcd_loop.simps) simp
  qed
qed

lemma gcd_js_gcd: "gcd_js a b = (if gcd a b = 0 then 1 else gcd a b)"
proof -
  have "int (gcd (nat \<bar>a\<bar>) (nat \<bar>b\<bar>)) = gcd a b" by (simp only: gcd_int_def)
  then show ?thesis
    unfolding gcd_js_def Let_def gcd_loop_gcd by (metis of_nat_eq_0_iff)
qed

lemma normalizeRational_exact:
  assumes "normalizeRational n d = Inr r"
  shows "d \<noteq> 0 \<and> wf_rational r \<and> rval r = of_int n / of_int d"
proof -
  define n' where "n' = (if d < 0 then - n else n)"
  define d' where "d' = (if d < 0 then - d else d)"
  define g where "g = gcd n' d'"
  have d: "d \<noteq> 0" using assms by (simp add: normalizeRational_def split: if_splits)
  then have d': "0 < d'" by (auto simp: d'_def)
  then have g: "0 < g" by (simp add: g_def)
  have r: "r = rational (n' div g) (d' div g)"
  proof -
    have "gcd_js n' d' = g" using g by (simp add: gcd_js_gcd g_def)
    moreover have "normalizeRational n d = Inr (rational (n' div gcd_js n' d') (d' div gcd_js n' d'))"
      using d by (simp only: normalizeRational_def Let_def n'_def d'_def if_False)
    ultimately show ?thesis using assms by simp
  qed
  have nd: "n' = g * (n' div g)" "d' = g * (d' div g)"
    by (simp_all add: g_def)
  have "0 < d' div g" using d' g nd(2) by (metis zero_less_mult_pos)
  moreover have "coprime (n' div g) (d' div g)"
    unfolding g_def using d' by (intro div_gcd_coprime) auto
  moreover have "rval r = of_int n' / of_int d'"
  proof -
    have "(of_int n' :: rat) / of_int d' =
        of_int (g * (n' div g)) / of_int (g * (d' div g))" using nd by simp
    also have "\<dots> = of_int (n' div g) / of_int (d' div g)" using g by simp
    finally show ?thesis by (simp add: rval_def r)
  qed
  moreover have "(of_int n' :: rat) / of_int d' = of_int n / of_int d"
    by (simp add: n'_def d'_def)
  ultimately show ?thesis using d r by (simp add: wf_rational_def)
qed

lemma normalizeRational_total: "d \<noteq> 0 \<Longrightarrow> \<exists>r. normalizeRational n d = Inr r"
  by (simp add: normalizeRational_def Let_def)

lemma addRationals_exact:
  assumes "wf_rational a" and "wf_rational b"
  obtains c where "addRationals a b = Inr c" "wf_rational c" "rval c = rval a + rval b"
proof -
  have p: "rt_den a \<noteq> 0" "rt_den b \<noteq> 0" using assms by (auto simp: wf_rational_def)
  then have "rt_den a * rt_den b \<noteq> 0" by simp
  from normalizeRational_total [OF this] obtain c where c: "addRationals a b = Inr c"
    unfolding addRationals_def by blast
  have v: "rval c = of_int (rt_num a * rt_den b + rt_num b * rt_den a) / of_int (rt_den a * rt_den b)"
    and w: "wf_rational c"
    using normalizeRational_exact c unfolding addRationals_def by blast+
  have "rval c = rval a + rval b" using p by (simp add: v) (simp add: rval_def divide_simps)
  then show ?thesis using that c w by simp
qed

lemma compareRationals_le:
  assumes "wf_rational a" and "wf_rational b"
  shows "0 \<le> compareRationals a b \<longleftrightarrow> rval b \<le> rval a"
    and "compareRationals a b < 0 \<longleftrightarrow> rval a < rval b"
proof -
  have p: "0 < rt_den a" "0 < rt_den b" using assms by (auto simp: wf_rational_def)
  have "rval b \<le> rval a \<longleftrightarrow> (of_int (rt_num b * rt_den a) :: rat) \<le> of_int (rt_num a * rt_den b)"
    using p by (simp add: rval_def divide_simps)
  then have le: "rval b \<le> rval a \<longleftrightarrow> rt_num b * rt_den a \<le> rt_num a * rt_den b"
    by (simp only: of_int_le_iff)
  then show "0 \<le> compareRationals a b \<longleftrightarrow> rval b \<le> rval a"
    by (auto simp: compareRationals_def Let_def)
  with le show "compareRationals a b < 0 \<longleftrightarrow> rval a < rval b"
    by (meson not_le)
qed

lemma compareRationals_gt:
  assumes "wf_rational a" and "wf_rational b"
  shows "0 < compareRationals a b \<longleftrightarrow> rval b < rval a"
  using compareRationals_le(2) [OF assms(2,1)]
  by (auto simp: compareRationals_def Let_def split: if_splits)

lemma atLeastOne_iff: "wf_rational r \<Longrightarrow> atLeastOne r \<longleftrightarrow> 1 \<le> rval r"
  using compareRationals_le(1) [of r "rational 1 1"] by (simp add: atLeastOne_def)

lemma parseWeight_exact:
  assumes "parseWeight s = Inr w"
  shows "wf_rational w \<and> 0 \<le> rval w \<and> rval w \<le> 1"
proof (cases "signed_dec (js_trim s)")
  case (Some v)
  with assms show ?thesis by (auto simp: parseWeight_def Let_def split: if_splits)
next
  case None
  with assms obtain a b n d where nd: "normalizeRational n (int d) = Inr w"
    and c: "\<not> compareRationals w rationalZero < 0" "\<not> 0 < compareRationals w rationalOne"
    by (auto simp: parseWeight_def Let_def res_simps split: if_splits list.splits option.splits)
  have w: "wf_rational w" using normalizeRational_exact [OF nd] by simp
  then show ?thesis using c compareRationals_le(2) [OF w] compareRationals_gt [OF w]
    by (auto simp: not_less)
qed

lemma add_weights_exact:
  assumes "wf_rational acc" and "\<forall>w \<in> set ws. wf_rational w"
  shows "\<exists>s. add_weights acc ws = Inr s \<and> wf_rational s \<and> rval s = rval acc + sum_list (map rval ws)"
  using assms
proof (induction ws arbitrary: acc)
  case Nil
  then show ?case by simp
next
  case (Cons w ws)
  obtain c where c: "addRationals acc w = Inr c" "wf_rational c" "rval c = rval acc + rval w"
    using addRationals_exact Cons.prems by (metis list.set_intros(1))
  then show ?case using Cons.IH [of c] Cons.prems by (auto simp: add.assoc)
qed

section \<open>Accepted thresholds are well formed\<close>

definition wf_weight :: "rational \<Rightarrow> bool" where
  "wf_weight w \<longleftrightarrow> wf_rational w \<and> 0 \<le> rval w \<and> rval w \<le> 1"

fun wf_entry :: "clause_entry \<Rightarrow> bool" where
  "wf_entry (WWeight w) \<longleftrightarrow> wf_weight w"
| "wf_entry (WGroup w ms) \<longleftrightarrow> wf_weight w \<and> ms \<noteq> [] \<and> list_all wf_weight ms
     \<and> 1 \<le> sum_list (map rval ms)"

definition wf_clause :: "clause \<Rightarrow> bool" where
  "wf_clause c \<longleftrightarrow> c \<noteq> [] \<and> list_all wf_entry c \<and> 1 \<le> sum_list (map (rval \<circ> entry_weight) c)"

definition wf_threshold :: "threshold \<Rightarrow> bool" where
  "wf_threshold t = (case tn_thold t of
     TNumeric v \<Rightarrow> 0 \<le> v \<and> tn_numeric t = Some v \<and> tn_size t = min v MAX_SAFE
   | TWeighted cs \<Rightarrow> cs \<noteq> [] \<and> list_all wf_clause cs \<and> tn_numeric t = None
       \<and> tn_size t = int (clauses_size cs))"

lemma wf_entry_weight: "wf_entry e \<Longrightarrow> wf_weight (entry_weight e)"
  by (cases e) (simp_all add: entry_weight_def)

lemma parseWeight_wf: "parseWeight s = Inr w \<Longrightarrow> wf_weight w"
  using parseWeight_exact by (simp add: wf_weight_def)

lemma map_res_all_prop:
  "map_res f xs = Inr ys \<Longrightarrow> (\<And>x y. f x = Inr y \<Longrightarrow> P y) \<Longrightarrow> list_all P ys"
  by (induction xs arbitrary: ys) (auto simp: res_simps)

lemma parseMember_wf: "parseMember v = Inr w \<Longrightarrow> wf_weight w"
  using parseWeight_wf by (auto simp: parseMember_def split: jvalue.splits)

lemma add_weights_sum:
  assumes "add_weights rationalZero ws = Inr s" and "list_all wf_weight ws"
  shows "wf_rational s \<and> rval s = sum_list (map rval ws)"
proof -
  have "\<forall>w \<in> set ws. wf_rational w" using assms(2) by (auto simp: list_all_iff wf_weight_def)
  from add_weights_exact [OF _ this, of rationalZero] assms(1) show ?thesis by auto
qed

lemma normalizeEntry_wf:
  assumes "normalizeEntry v = Inr e"
  shows "wf_entry e"
proof (cases v)
  case (JStr s)
  with assms show ?thesis using parseWeight_wf by (auto simp: normalizeEntry_def res_simps)
next
  case (JObj kvs)
  with assms obtain k x xs w ms s where ms: "map_res parseMember (x # xs) = Inr ms"
    and w: "parseWeight k = Inr w" and s: "add_weights rationalZero ms = Inr s" "atLeastOne s"
    and e: "e = WGroup w ms"
    by (auto simp: normalizeEntry_def res_simps simp del: map_res.simps add_weights.simps
        split: list.splits prod.splits jvalue.splits if_splits)
  have "list_all wf_weight ms" using map_res_all_prop [OF ms] parseMember_wf by blast
  moreover have "ms \<noteq> []" using map_res_Inr_length [OF ms] by auto
  ultimately show ?thesis
    using add_weights_sum [OF s(1)] s(2) parseWeight_wf [OF w] by (simp add: e atLeastOne_iff)
qed (use assms in \<open>auto simp: normalizeEntry_def\<close>)

lemma normalizeClause_wf:
  assumes "normalizeClause v = Inr c"
  shows "wf_clause c"
proof -
  obtain x xs s where c: "map_res normalizeEntry (x # xs) = Inr c"
    and s: "add_weights rationalZero (map entry_weight c) = Inr s" "atLeastOne s"
    using assms
    by (auto simp: normalizeClause_def res_simps simp del: map_res.simps
        split: list.splits jvalue.splits if_splits)
  have e: "list_all wf_entry c" using map_res_all_prop [OF c] normalizeEntry_wf by blast
  then have "list_all wf_weight (map entry_weight c)"
    by (auto simp: list_all_iff wf_entry_weight)
  moreover have "c \<noteq> []" using map_res_Inr_length [OF c] by auto
  ultimately show ?thesis
    using add_weights_sum [OF s(1)] s(2) e by (simp add: wf_clause_def atLeastOne_iff)
qed

lemma normalizeWeightedInput_wf:
  assumes "normalizeWeightedInput v = Inr w"
  shows "wf_threshold (weighted_threshold w) \<and> snd w = semantic_clauses (fst w)"
proof -
  obtain srcs cs where cs: "map_res normalizeClause srcs = Inr cs" "srcs \<noteq> []"
    and w: "w = (cs, semantic_clauses cs)"
    using assms by (auto simp: normalizeWeightedInput_def Let_def res_simps simp del: map_res.simps
        split: list.splits jvalue.splits if_splits)
  have "list_all wf_clause cs" using map_res_all_prop [OF cs(1)] normalizeClause_wf by blast
  moreover have "cs \<noteq> []" using map_res_Inr_length [OF cs(1)] cs(2) by auto
  ultimately show ?thesis by (simp add: wf_threshold_def weighted_threshold_def w)
qed

lemma numeric_threshold_wf: "0 \<le> v \<Longrightarrow> wf_threshold (numeric_threshold v)"
  by (simp add: wf_threshold_def numeric_threshold_def)

lemma normalizeThresholdInput_wf:
  assumes "normalizeThresholdInput jp i = Inr (init, t)"
  shows "wf_threshold t"
proof -
  have num: "normalizeNumeric v = Inr (init, t) \<Longrightarrow> 0 \<le> v \<Longrightarrow> wf_threshold t" for v
    by (auto simp: normalizeNumeric_def res_simps numeric_threshold_wf)
  have wgt: "normalizeWeighted v = Inr (init, t) \<Longrightarrow> wf_threshold t" for v
    using normalizeWeightedInput_wf by (auto simp: normalizeWeighted_def res_simps)
  show ?thesis
    using assms by (cases i)
      (auto simp: normalizeThresholdInput_def Let_def res_simps split: if_splits intro: num wgt)
qed

lemma decodeThresholdMatter_wf:
  "decodeThresholdMatter m = Inr t \<Longrightarrow> wf_threshold t"
  using normalizeWeightedInput_wf
  by (auto simp: decodeThresholdMatter_def res_simps numeric_threshold_wf split: if_splits)

lemma tholder_wf:
  "tholder_of_matter m = Inr t \<or> tholder_of_sith jp i = Inr t \<Longrightarrow> wf_threshold (th_threshold t)"
  using decodeThresholdMatter_wf normalizeThresholdInput_wf
  by (auto simp: tholder_of_matter_def tholder_of_sith_def tholder_check_def res_simps
      split: if_splits)

section \<open>What satisfaction means\<close>

text \<open>
  The reference semantics: every member and entry owns a fixed slot, a weight counts when its
  slot is signed, a group counts its weight when its signed members weigh at least one, and
  every clause has to weigh at least one. No running offset and no running sums.
\<close>

definition group_value :: "nat set \<Rightarrow> nat \<Rightarrow> rational list \<Rightarrow> rat" where
  "group_value S off ms = (\<Sum>i<length ms. if off + i \<in> S then rval (ms ! i) else 0)"

definition entry_value :: "nat set \<Rightarrow> nat \<Rightarrow> clause_entry \<Rightarrow> rat" where
  "entry_value S off e = (case e of
     WWeight w \<Rightarrow> if off \<in> S then rval w else 0
   | WGroup w ms \<Rightarrow> if 1 \<le> group_value S off ms then rval w else 0)"

definition entry_slot :: "clause \<Rightarrow> nat \<Rightarrow> nat" where
  "entry_slot c i = sum_list (map entry_slots (take i c))"

definition clause_value :: "nat set \<Rightarrow> nat \<Rightarrow> clause \<Rightarrow> rat" where
  "clause_value S off c = (\<Sum>i<length c. entry_value S (off + entry_slot c i) (c ! i))"

definition weighted_satisfied :: "nat set \<Rightarrow> clause list \<Rightarrow> bool" where
  "weighted_satisfied S cs \<longleftrightarrow>
     (\<forall>j<length cs. 1 \<le> clause_value S (clauses_size (take j cs)) (cs ! j))"

definition signed_slots :: "int list \<Rightarrow> nat set" where
  "signed_slots indices = {k. int k \<in> set indices}"

lemma group_value_Cons:
  "group_value S off (w # ws) = (if off \<in> S then rval w else 0) + group_value S (off + 1) ws"
  by (simp only: group_value_def length_Cons sum.lessThan_Suc_shift) (simp cong: if_cong)

lemma clause_value_Cons:
  "clause_value S off (e # es) = entry_value S off e + clause_value S (off + entry_slots e) es"
  by (simp only: clause_value_def length_Cons sum.lessThan_Suc_shift)
    (simp add: entry_slot_def add.assoc)

lemma clauses_size_Cons: "clauses_size (c # cs) = sum_list (map entry_slots c) + clauses_size cs"
  by (simp add: clauses_size_def)

lemma fold_mark_slot:
  "length (fold mark_slot xs sats) = length sats
   \<and> (\<forall>k < length sats. fold mark_slot xs sats ! k \<longleftrightarrow> sats ! k \<or> int k \<in> set xs)"
proof (induction xs arbitrary: sats)
  case Nil
  then show ?case by simp
next
  case (Cons x xs)
  have "length (mark_slot x sats) = length sats" by (simp add: mark_slot_def)
  moreover have "mark_slot x sats ! k \<longleftrightarrow> sats ! k \<or> int k = x" if "k < length sats" for k
    using that by (auto simp: mark_slot_def nth_list_update)
  ultimately show ?case using Cons [of "mark_slot x sats"] by auto
qed

lemma sat_at_slot_sats:
  "sat_at (slot_sats n indices) k \<longleftrightarrow> k < nat n \<and> k \<in> signed_slots indices"
  using fold_mark_slot [of "sort (remdups indices)" "replicate (nat n) False"]
  by (auto simp: sat_at_def slot_sats_def signed_slots_def)

lemma entry_slots_simps [simp]: "entry_slots (WWeight w) = 1" "entry_slots (WGroup w ms) = length ms"
  by (simp_all add: entry_slots_def)

lemma entry_value_simps [simp]:
  "entry_value S off (WWeight w) = (if off \<in> S then rval w else 0)"
  "entry_value S off (WGroup w ms) = (if 1 \<le> group_value S off ms then rval w else 0)"
  by (simp_all add: entry_value_def)

lemma add_if_exact:
  assumes "wf_rational acc" and "wf_rational w"
  shows "\<exists>a. (if P then addRationals acc w else Inr acc) = Inr a \<and> wf_rational a
    \<and> rval a = rval acc + (if P then rval w else 0)"
proof (cases P)
  case True
  obtain c where "addRationals acc w = Inr c" "wf_rational c" "rval c = rval acc + rval w"
    using addRationals_exact [OF assms] .
  with True show ?thesis by auto
qed (simp add: assms(1))

lemma members_loop_value:
  assumes "list_all wf_weight ms" and "wf_rational acc"
    and "\<forall>k. off \<le> k \<and> k < off + length ms \<longrightarrow> (sat_at sats k \<longleftrightarrow> k \<in> S)"
  shows "\<exists>a. members_loop sats off acc ms = Inr (off + length ms, a) \<and> wf_rational a
    \<and> rval a = rval acc + group_value S off ms"
  using assms
proof (induction ms arbitrary: off acc)
  case Nil
  then show ?case by (simp add: group_value_def)
next
  case (Cons w ws)
  have w: "wf_rational w" using Cons.prems(1) by (simp add: wf_weight_def)
  obtain a where a: "(if sat_at sats off then addRationals acc w else Inr acc) = Inr a" "wf_rational a"
      "rval a = rval acc + (if sat_at sats off then rval w else 0)"
    using add_if_exact [OF Cons.prems(2) w] by blast
  have "sat_at sats off \<longleftrightarrow> off \<in> S" using Cons.prems(3) by simp
  then show ?case
    using Cons.IH [OF _ a(2), of "off + 1"] Cons.prems a by (simp add: group_value_Cons add.assoc)
qed

lemma clause_loop_value:
  assumes "list_all wf_entry c" and "wf_rational acc"
    and "\<forall>k. off \<le> k \<and> k < off + sum_list (map entry_slots c) \<longrightarrow> (sat_at sats k \<longleftrightarrow> k \<in> S)"
  shows "\<exists>a. clause_loop sats off acc c = Inr (off + sum_list (map entry_slots c), a) \<and> wf_rational a
    \<and> rval a = rval acc + clause_value S off c"
  using assms
proof (induction c arbitrary: off acc)
  case Nil
  then show ?case by (simp add: clause_value_def)
next
  case (Cons e es)
  let ?n = "entry_slots e"
  have rest: "\<forall>k. off + ?n \<le> k \<and> k < off + ?n + sum_list (map entry_slots es)
      \<longrightarrow> (sat_at sats k \<longleftrightarrow> k \<in> S)" using Cons.prems(3) by simp
  have es: "list_all wf_entry es" using Cons.prems(1) by simp
  have step: "\<exists>a. clause_loop sats off acc (e # es) = clause_loop sats (off + ?n) a es \<and> wf_rational a
      \<and> rval a = rval acc + entry_value S off e"
  proof (cases e)
    case (WWeight w)
    then have w: "wf_rational w" using Cons.prems(1) by (simp add: wf_weight_def)
    have "sat_at sats off \<longleftrightarrow> off \<in> S" using Cons.prems(3) WWeight by simp
    moreover obtain a where "(if off \<in> S then addRationals acc w else Inr acc) = Inr a"
        "wf_rational a" "rval a = rval acc + (if off \<in> S then rval w else 0)"
      using add_if_exact [OF Cons.prems(2) w] by blast
    ultimately show ?thesis by (intro exI [of _ a]) (simp add: WWeight)
  next
    case (WGroup w ms)
    then have w: "wf_rational w" and ms: "list_all wf_weight ms"
      using Cons.prems(1) by (simp_all add: wf_weight_def)
    have "\<forall>k. off \<le> k \<and> k < off + length ms \<longrightarrow> (sat_at sats k \<longleftrightarrow> k \<in> S)"
      using Cons.prems(3) WGroup by simp
    from members_loop_value [OF ms wf_rational_consts(1) this] obtain m where
      m: "members_loop sats off rationalZero ms = Inr (off + length ms, m)" "wf_rational m"
        "rval m = group_value S off ms" by auto
    let ?P = "1 \<le> group_value S off ms"
    obtain a where "(if ?P then addRationals acc w else Inr acc) = Inr a"
        "wf_rational a" "rval a = rval acc + (if ?P then rval w else 0)"
      using add_if_exact [OF Cons.prems(2) w] by blast
    then show ?thesis using m atLeastOne_iff [OF m(2)] by (intro exI [of _ a]) (simp add: WGroup)
  qed
  then obtain a where a: "clause_loop sats off acc (e # es) = clause_loop sats (off + ?n) a es"
      "wf_rational a" "rval a = rval acc + entry_value S off e" by blast
  show ?case using Cons.IH [OF es a(2) rest] a by (simp add: clause_value_Cons add.assoc)
qed

lemma weighted_satisfied_Cons:
  "(\<forall>j<length (c # cs). 1 \<le> clause_value S (off + clauses_size (take j (c # cs))) ((c # cs) ! j)) \<longleftrightarrow>
   1 \<le> clause_value S off c \<and>
   (\<forall>j<length cs. 1 \<le> clause_value S (off + sum_list (map entry_slots c) + clauses_size (take j cs)) (cs ! j))"
  by (simp only: length_Cons All_less_Suc2) (simp add: clauses_size_def add.assoc)

lemma clauses_loop_value:
  assumes "list_all wf_clause cs"
    and "\<forall>k. off \<le> k \<and> k < off + clauses_size cs \<longrightarrow> (sat_at sats k \<longleftrightarrow> k \<in> S)"
  shows "clauses_loop sats off cs
    = Inr (\<forall>j<length cs. 1 \<le> clause_value S (off + clauses_size (take j cs)) (cs ! j))"
  using assms
proof (induction cs arbitrary: off)
  case Nil
  then show ?case by simp
next
  case (Cons c cs)
  let ?n = "sum_list (map entry_slots c)"
  have c: "list_all wf_entry c" using Cons.prems(1) by (simp add: wf_clause_def)
  have "\<forall>k. off \<le> k \<and> k < off + ?n \<longrightarrow> (sat_at sats k \<longleftrightarrow> k \<in> S)"
    using Cons.prems(2) by (simp add: clauses_size_Cons)
  from clause_loop_value [OF c wf_rational_consts(1) this] obtain a where
    a: "clause_loop sats off rationalZero c = Inr (off + ?n, a)"
      "wf_rational a" "rval a = clause_value S off c" by auto
  have "\<forall>k. off + ?n \<le> k \<and> k < off + ?n + clauses_size cs \<longrightarrow> (sat_at sats k \<longleftrightarrow> k \<in> S)"
    using Cons.prems(2) by (simp add: clauses_size_Cons)
  with Cons have "clauses_loop sats (off + ?n) cs = Inr (\<forall>j<length cs.
      1 \<le> clause_value S (off + ?n + clauses_size (take j cs)) (cs ! j))" by simp
  then show ?case unfolding weighted_satisfied_Cons
    using a(1,3) atLeastOne_iff [OF a(2)] by simp
qed

lemma weighted_satisfy_exact:
  assumes "wf_threshold t" and "tn_thold t = TWeighted cs"
  shows "threshold_satisfy t indices
    = Inr (indices \<noteq> [] \<and> weighted_satisfied (signed_slots indices) cs)"
proof -
  have cs: "list_all wf_clause cs" and n: "nat (tn_size t) = clauses_size cs"
    using assms by (simp_all add: wf_threshold_def)
  have "clauses_loop (slot_sats (tn_size t) indices) 0 cs
      = Inr (weighted_satisfied (signed_slots indices) cs)"
    using clauses_loop_value [OF cs, of 0 "slot_sats (tn_size t) indices" "signed_slots indices"]
    by (simp add: weighted_satisfied_def sat_at_slot_sats n)
  then show ?thesis by (simp add: threshold_satisfy_def assms(2))
qed

section \<open>Printing and reading weights and expressions\<close>

lemma read_radix_no_digit: "c \<in> set s \<Longrightarrow> digit_val c = None \<Longrightarrow> read_radix b s = None"
  by (force simp: read_radix_def Let_def)

lemma wf_weight_parts:
  assumes "wf_weight w"
  shows "0 \<le> rt_num w" and "0 < rt_den w" and "rt_num w \<le> rt_den w"
    and "gcd (rt_num w) (rt_den w) = 1" and "w = rational (rt_num w) (rt_den w)"
proof -
  show d: "0 < rt_den w" and "gcd (rt_num w) (rt_den w) = 1"
    using assms by (simp_all add: wf_weight_def wf_rational_def)
  from assms d show "0 \<le> rt_num w" and "rt_num w \<le> rt_den w"
    by (simp_all add: wf_weight_def rval_def divide_simps)
  show "w = rational (rt_num w) (rt_den w)" by (simp add: rational_def)
qed

lemma integral_weight_iff:
  assumes "wf_weight w"
  shows "integral_weight w \<longleftrightarrow> rt_den w = 1"
proof -
  have d: "\<bar>rt_den w\<bar> = rt_den w" using wf_weight_parts(2) [OF assms] by simp
  have g: "gcd (rt_num w) (rt_den w) = 1" by (rule wf_weight_parts(4) [OF assms])
  have "rt_den w = 1" if "rt_num w = 0"
    using g unfolding that gcd_0_left_int d .
  moreover have "rt_den w = 1" if "rt_num w = rt_den w"
    using g unfolding that gcd_idem_int d .
  ultimately show ?thesis unfolding integral_weight_def by blast
qed

lemma int_dec_pos: "0 \<le> i \<Longrightarrow> int_dec i = dec_str (nat i)"
  by (simp add: int_dec_def)

definition weight_chars :: string where
  "weight_chars = ''0123456789/''"

lemma formatWeight_chars:
  assumes "wf_weight w"
  shows "set (formatWeight w) \<subseteq> set weight_chars" and "formatWeight w \<noteq> []"
proof -
  note p = wf_weight_parts(1,2) [OF assms]
  have "set ''0123456789'' \<subseteq> set weight_chars" unfolding weight_chars_def by simp
  then have "set (dec_str n) \<subseteq> set weight_chars" for n by (rule subset_trans [OF set_dec_str])
  moreover have "CHR ''/'' \<in> set weight_chars" by (simp add: weight_chars_def)
  ultimately show "set (formatWeight w) \<subseteq> set weight_chars"
    using p by (simp add: formatWeight_def int_dec_pos)
  show "formatWeight w \<noteq> []" using p by (simp add: formatWeight_def int_dec_pos)
qed

lemma weight_chars_white: "set s \<subseteq> set weight_chars \<Longrightarrow> js_trim s = s"
proof (rule js_trim_id)
  assume s: "set s \<subseteq> set weight_chars"
  have "list_all (\<lambda>c. \<not> js_white c) weight_chars" by code_simp
  then show "\<forall>c \<in> set s. \<not> js_white c" using s by (auto simp: list_all_iff)
qed

lemma normalizeRational_reduced:
  assumes "0 < d" and "gcd n d = 1"
  shows "normalizeRational n d = Inr (rational n d)"
  using assms by (simp add: normalizeRational_def Let_def gcd_js_gcd)

lemma parse_formatWeight:
  assumes "wf_weight w"
  shows "parseWeight (formatWeight w) = Inr w"
proof -
  note p = wf_weight_parts(1-4) [OF assms]
  have w: "w = rational (rt_num w) (rt_den w)" by (rule wf_weight_parts(5) [OF assms])
  have trim: "js_trim (formatWeight w) = formatWeight w"
    by (rule weight_chars_white, rule formatWeight_chars(1) [OF assms])
  show ?thesis
  proof (cases "rt_den w = 1")
    case True
    then have "formatWeight w = dec_str (nat (rt_num w))"
      using p integral_weight_iff [OF assms] by (simp add: formatWeight_def int_dec_pos)
    moreover have "rt_num w \<le> 1" using p True by simp
    ultimately have "parseWeight (formatWeight w) = Inr (rational (rt_num w) 1)"
      using p(1) trim by (simp add: parseWeight_def signed_dec_dec_str)
    then show ?thesis using w True by simp
  next
    case False
    let ?n = "nat (rt_num w)" and ?d = "nat (rt_den w)"
    have f: "formatWeight w = dec_str ?n @ CHR ''/'' # dec_str ?d"
      using False p integral_weight_iff [OF assms] by (simp add: formatWeight_def int_dec_pos)
    have slash: "CHR ''/'' \<notin> set (dec_str k)" for k by (rule dec_str_no) simp
    have minus: "CHR ''-'' \<notin> set (dec_str k)" for k by (rule dec_str_no) simp
    have "digit_val (CHR ''/'') = None" by code_simp
    then have "read_radix 10 (formatWeight w) = None"
      by (intro read_radix_no_digit [of "CHR ''/''"]) (simp_all add: f)
    moreover obtain c r where c: "formatWeight w = c # r" "c \<noteq> CHR ''-''"
      using f minus [of ?n] by (cases "dec_str ?n") auto
    ultimately have "signed_dec (formatWeight w) = None" by (simp add: signed_dec_def)
    moreover have "js_split (CHR ''/'') (formatWeight w) = [dec_str ?n, dec_str ?d]"
      using slash by (simp add: f js_split_append_sep js_split_no_sep)
    moreover have "normalizeRational (int ?n) (int ?d) = Inr w"
      using p normalizeRational_reduced [of "rt_den w" "rt_num w"] w by simp
    moreover have "\<not> compareRationals w rationalZero < 0" "\<not> 0 < compareRationals w rationalOne"
      using assms compareRationals_le(2) [of w rationalZero] compareRationals_gt [of w rationalOne]
      by (simp_all add: wf_weight_def not_less)
    ultimately show ?thesis using trim formatWeight_chars(2) [OF assms]
      by (simp add: parseWeight_def signed_dec_dec_str)
  qed
qed

lemma normalize_semantic_entry:
  assumes "wf_entry e"
  shows "normalizeEntry (semantic_entry e) = Inr e"
proof (cases e)
  case (WWeight w)
  with assms show ?thesis by (simp add: semantic_entry_def normalizeEntry_def parse_formatWeight)
next
  case (WGroup w ms)
  with assms have w: "wf_weight w" "list_all wf_weight ms" "ms \<noteq> []" "1 \<le> sum_list (map rval ms)"
    by simp_all
  have "map_res parseMember (map (\<lambda>m. JStr (formatWeight m)) ms) = Inr ms"
    using w(2) by (induction ms) (simp_all add: parseMember_def parse_formatWeight)
  moreover obtain s where s: "add_weights rationalZero ms = Inr s" "wf_rational s"
      "rval s = sum_list (map rval ms)"
    using add_weights_exact [of rationalZero ms] w(2) by (auto simp: list_all_iff wf_weight_def)
  moreover have "atLeastOne s" using s w(4) by (simp add: atLeastOne_iff)
  ultimately show ?thesis using w(1,3) WGroup
    by (cases ms) (simp_all add: semantic_entry_def normalizeEntry_def parse_formatWeight
        del: map_res.simps add_weights.simps)
qed

lemma normalize_semantic_clause:
  assumes "wf_clause c"
  shows "normalizeClause (JArr (map semantic_entry c)) = Inr c"
proof -
  have e: "list_all wf_entry c" "c \<noteq> []" "1 \<le> sum_list (map (rval \<circ> entry_weight) c)"
    using assms by (simp_all add: wf_clause_def)
  have "map_res normalizeEntry (map semantic_entry c) = Inr c"
    using e(1) by (induction c) (simp_all add: normalize_semantic_entry)
  moreover have "\<forall>w \<in> set (map entry_weight c). wf_rational w"
    using e(1) wf_entry_weight by (auto simp: list_all_iff wf_weight_def)
  then obtain s where s: "add_weights rationalZero (map entry_weight c) = Inr s" "wf_rational s"
      "rval s = sum_list (map (rval \<circ> entry_weight) c)"
    using add_weights_exact [of rationalZero "map entry_weight c"] by auto
  moreover have "atLeastOne s" using s e(3) by (simp add: atLeastOne_iff)
  ultimately show ?thesis using e(2)
    by (cases c) (simp_all add: normalizeClause_def del: map_res.simps add_weights.simps)
qed

lemma is_jarr_simps [simp]: "is_jarr (JArr xs)" "\<not> is_jarr (JStr t)" "\<not> is_jarr (JObj kvs)"
  by (simp_all add: is_jarr_def)

lemma not_is_jarr_semantic [simp]: "\<not> is_jarr (semantic_entry e)"
  by (simp add: semantic_entry_def split: clause_entry.splits)

lemma normalize_semantic:
  assumes "list_all wf_clause cs" and "cs \<noteq> []"
  shows "normalizeWeightedInput (semantic_clauses cs) = Inr (cs, semantic_clauses cs)"
proof (cases "tl cs")
  case Nil
  with assms(2) obtain c where c: "cs = [c]" by (cases cs) auto
  then have "c \<noteq> []" using assms(1) by (simp add: wf_clause_def)
  then obtain e es where "c = e # es" by (cases c) auto
  with c assms(1) normalize_semantic_clause [of c] show ?thesis
    by (simp add: normalizeWeightedInput_def semantic_clauses_def Let_def)
next
  case (Cons d ds)
  with assms(2) obtain c where c: "cs = c # d # ds" by (cases cs) auto
  have "map_res normalizeClause (map (\<lambda>c. JArr (map semantic_entry c)) cs) = Inr cs"
    using assms(1) by (induction cs) (simp_all add: normalize_semantic_clause)
  moreover have "list_all is_jarr (map (\<lambda>c. JArr (map semantic_entry c)) cs)"
    by (simp add: list_all_iff)
  moreover have "semantic_clauses cs = JArr (map (\<lambda>c. JArr (map semantic_entry c)) cs)"
    by (simp add: semantic_clauses_def c)
  ultimately show ?thesis
    by (simp add: normalizeWeightedInput_def c Let_def del: map_res.simps)
qed

text \<open>The compact text of a weighted threshold reads back as its semantic expression.\<close>

definition bext_slash :: "string \<Rightarrow> string" where
  "bext_slash = map (\<lambda>c. if c = CHR ''s'' then CHR ''/'' else c)"

definition slash_entry :: "clause_entry \<Rightarrow> string" where
  "slash_entry e = (case e of
     WWeight w \<Rightarrow> formatWeight w
   | WGroup w ms \<Rightarrow> formatWeight w @ CHR ''k'' # js_join (CHR ''v'') (map formatWeight ms))"

lemma map_js_join: "map f (js_join c ws) = js_join (f c) (map (map f) ws)"
  by (induction c ws rule: js_join.induct) simp_all

lemma bext_slash_join:
  "bext_slash (js_join (CHR ''v'') ws) = js_join (CHR ''v'') (map bext_slash ws)"
  "bext_slash (js_join (CHR ''c'') ws) = js_join (CHR ''c'') (map bext_slash ws)"
  "bext_slash (js_join (CHR ''a'') ws) = js_join (CHR ''a'') (map bext_slash ws)"
  by (simp_all add: bext_slash_def map_js_join)

lemma index_of_append: "x \<notin> set xs \<Longrightarrow> index_of (xs @ x # ys) x = Some (length xs)"
  by (induction xs) auto

lemma bext_slash_dec_str: "bext_slash (dec_str n) = dec_str n"
proof -
  have "CHR ''s'' \<notin> set (dec_str n)" by (rule dec_str_no) simp
  then show ?thesis unfolding bext_slash_def by (intro map_idI) auto
qed

lemma bext_slash_weight:
  assumes "wf_weight w"
  shows "bext_slash (encodeBextWeight w) = formatWeight w"
proof -
  have "bext_slash (x @ CHR ''s'' # y) = bext_slash x @ CHR ''/'' # bext_slash y" for x y
    by (simp add: bext_slash_def)
  then show ?thesis using wf_weight_parts(1,2) [OF assms]
    by (simp add: encodeBextWeight_def formatWeight_def int_dec_pos bext_slash_dec_str)
qed

lemma bext_slash_entry:
  assumes "wf_entry e"
  shows "bext_slash (bext_entry e) = slash_entry e"
proof (cases e)
  case (WWeight w)
  then show ?thesis using assms by (simp add: bext_entry_def slash_entry_def bext_slash_weight)
next
  case (WGroup w ms)
  then have "map (bext_slash \<circ> encodeBextWeight) ms = map formatWeight ms"
    using assms by (simp add: list_all_iff bext_slash_weight)
  moreover have "bext_slash (x @ CHR ''k'' # y) = bext_slash x @ CHR ''k'' # bext_slash y" for x y
    by (simp add: bext_slash_def)
  moreover note bext_slash_join(1)
  ultimately show ?thesis using assms WGroup
    by (simp add: bext_entry_def slash_entry_def bext_slash_weight del: map_eq_conv)
qed

lemma weight_chars_no: "set s \<subseteq> set weight_chars \<Longrightarrow> c \<notin> set weight_chars \<Longrightarrow> c \<notin> set s"
  by blast

lemma not_weight_char [simp]:
  "CHR ''a'' \<notin> set weight_chars" "CHR ''c'' \<notin> set weight_chars" "CHR ''k'' \<notin> set weight_chars"
  "CHR ''v'' \<notin> set weight_chars"
  by (simp_all add: weight_chars_def)

lemma set_slash_entry:
  assumes "wf_entry e"
  shows "set (slash_entry e) \<subseteq> insert (CHR ''k'') (insert (CHR ''v'') (set weight_chars))"
proof (cases e)
  case (WWeight w)
  then show ?thesis using assms formatWeight_chars(1) [of w] by (auto simp: slash_entry_def)
next
  case (WGroup w ms)
  then have "\<forall>m \<in> set ms. set (formatWeight m) \<subseteq> set weight_chars"
    using assms formatWeight_chars(1) by (auto simp: list_all_iff)
  then have "\<Union> (set ` set (map formatWeight ms)) \<subseteq> set weight_chars" by auto
  then have "set (js_join (CHR ''v'') (map formatWeight ms)) \<subseteq> insert (CHR ''v'') (set weight_chars)"
    using set_js_join [of "CHR ''v''" "map formatWeight ms"] by blast
  moreover have "set (formatWeight w) \<subseteq> set weight_chars"
    using assms WGroup formatWeight_chars(1) [of w] by simp
  ultimately show ?thesis unfolding WGroup slash_entry_def by auto
qed

lemma formatWeight_no:
  assumes "wf_weight w" and "c \<notin> set weight_chars"
  shows "c \<notin> set (formatWeight w)"
  using formatWeight_chars(1) [OF assms(1)] assms(2) by blast

lemma decode_slash_entry:
  assumes "wf_entry e"
  shows "decode_entry (slash_entry e) = semantic_entry e"
proof (cases e)
  case (WWeight w)
  then have "CHR ''k'' \<notin> set (formatWeight w)"
    using assms by (simp add: formatWeight_no)
  then have "index_of (formatWeight w) (CHR ''k'') = None" by (simp only: index_of_None_iff simp_thms)
  then show ?thesis by (simp add: WWeight slash_entry_def decode_entry_def semantic_entry_def)
next
  case (WGroup w ms)
  then have w: "CHR ''k'' \<notin> set (formatWeight w)"
    using assms by (simp add: formatWeight_no)
  have "\<forall>m \<in> set (map formatWeight ms). CHR ''v'' \<notin> set m"
    using assms WGroup by (simp add: formatWeight_no list_all_iff)
  moreover have "map formatWeight ms \<noteq> []" using assms WGroup by simp
  ultimately have "js_split (CHR ''v'') (js_join (CHR ''v'') (map formatWeight ms)) = map formatWeight ms"
    by (intro js_split_join)
  then show ?thesis
    by (simp add: WGroup slash_entry_def decode_entry_def semantic_entry_def index_of_append [OF w]
        comp_def)
qed

lemma slash_entry_no:
  assumes "wf_entry e"
  shows "CHR ''a'' \<notin> set (slash_entry e)" and "CHR ''c'' \<notin> set (slash_entry e)"
  using set_slash_entry [OF assms] not_weight_char(1,2) by blast+

lemma decode_bext_clauses:
  assumes "list_all wf_clause cs" and "cs \<noteq> []"
  shows "decode_bext (bext_clauses cs) = semantic_clauses cs"
proof -
  let ?j = "\<lambda>c. js_join (CHR ''c'') (map slash_entry c)"
  have e: "wf_entry x" if "c \<in> set cs" "x \<in> set c" for c x
    using assms(1) that by (auto simp: list_all_iff wf_clause_def)
  have ne: "c \<noteq> []" if "c \<in> set cs" for c
    using assms(1) that by (auto simp: list_all_iff wf_clause_def)
  have sl: "bext_slash (bext_clauses cs) = js_join (CHR ''a'') (map ?j cs)"
  proof -
    have "bext_slash (js_join (CHR ''c'') (map bext_entry c)) = ?j c" if c: "c \<in> set cs" for c
    proof -
      have "map bext_slash (map bext_entry c) = map slash_entry c"
        using e [OF c] by (simp add: bext_slash_entry)
      then show ?thesis by (simp only: bext_slash_join)
    qed
    then have "map bext_slash (map (\<lambda>c. js_join (CHR ''c'') (map bext_entry c)) cs) = map ?j cs"
      by simp
    then show ?thesis unfolding bext_clauses_def by (simp only: bext_slash_join)
  qed
  have noa: "CHR ''a'' \<notin> set (?j c)" if c: "c \<in> set cs" for c
  proof -
    have "set (?j c) \<subseteq> insert (CHR ''c'') (\<Union> (set ` set (map slash_entry c)))" by (rule set_js_join)
    moreover have "CHR ''a'' \<notin> \<Union> (set ` set (map slash_entry c))"
      using e [OF c] slash_entry_no(1) by auto
    ultimately show ?thesis by auto
  qed
  have spl: "js_split (CHR ''c'') (?j c) = map slash_entry c" if c: "c \<in> set cs" for c
  proof (rule js_split_join)
    show "map slash_entry c \<noteq> []" using ne [OF c] by simp
    show "\<forall>w \<in> set (map slash_entry c). CHR ''c'' \<notin> set w"
      using e [OF c] slash_entry_no(2) by auto
  qed
  have "js_split (CHR ''a'') (bext_slash (bext_clauses cs)) = map ?j cs"
    unfolding sl using assms(2) noa by (intro js_split_join) auto
  moreover have "map decode_entry (js_split (CHR ''c'') (?j c)) = map semantic_entry c"
    if c: "c \<in> set cs" for c
    using e [OF c] by (auto simp: spl [OF c] decode_slash_entry)
  ultimately have "map (\<lambda>c. JArr (map decode_entry (js_split (CHR ''c'') c)))
      (js_split (CHR ''a'') (bext_slash (bext_clauses cs))) = map (\<lambda>c. JArr (map semantic_entry c)) cs"
    by auto
  then show ?thesis
    unfolding decode_bext_def semantic_clauses_def bext_slash_def [symmetric] Let_def
    by (cases cs rule: remdups_adj.cases) simp_all
qed

text \<open>The characters of the compact text: Base64, and never the pad letter.\<close>

definition bext_chars :: string where
  "bext_chars = ''0123456789sckva''"

lemma bext_letters [simp]:
  "CHR ''a'' \<in> set bext_chars" "CHR ''c'' \<in> set bext_chars" "CHR ''k'' \<in> set bext_chars"
  "CHR ''s'' \<in> set bext_chars" "CHR ''v'' \<in> set bext_chars" "CHR ''A'' \<notin> set bext_chars"
  by (simp_all add: bext_chars_def)

lemma set_join_in: "\<forall>w \<in> set ws. set w \<subseteq> X \<Longrightarrow> c \<in> X \<Longrightarrow> set (js_join c ws) \<subseteq> X"
  using set_js_join [of c ws] by blast

lemma weight_bext_chars:
  assumes "wf_weight w"
  shows "set (encodeBextWeight w) \<subseteq> set bext_chars"
proof -
  have "set ''0123456789'' \<subseteq> set bext_chars" unfolding bext_chars_def by simp
  then have "set (dec_str n) \<subseteq> set bext_chars" for n by (rule subset_trans [OF set_dec_str])
  then show ?thesis using wf_weight_parts(1,2) [OF assms]
    by (simp add: encodeBextWeight_def int_dec_pos)
qed

lemma entry_bext_chars:
  assumes "wf_entry e"
  shows "set (bext_entry e) \<subseteq> set bext_chars"
proof (cases e)
  case (WWeight w)
  then show ?thesis using assms by (simp add: bext_entry_def weight_bext_chars)
next
  case (WGroup w ms)
  then have "set (js_join (CHR ''v'') (map encodeBextWeight ms)) \<subseteq> set bext_chars"
    using assms by (intro set_join_in) (auto simp: list_all_iff dest: weight_bext_chars)
  moreover have "set (encodeBextWeight w) \<subseteq> set bext_chars"
    using assms WGroup by (simp add: weight_bext_chars)
  ultimately show ?thesis by (simp add: WGroup bext_entry_def)
qed

lemma clauses_bext_chars:
  assumes "list_all wf_clause cs"
  shows "set (bext_clauses cs) \<subseteq> set bext_chars"
proof -
  have "set (js_join (CHR ''c'') (map bext_entry c)) \<subseteq> set bext_chars" if "c \<in> set cs" for c
    using assms that by (intro set_join_in)
      (auto simp: list_all_iff wf_clause_def dest: entry_bext_chars)
  then show ?thesis unfolding bext_clauses_def by (intro set_join_in) auto
qed

lemma is_b64_bext: "list_all wf_clause cs \<Longrightarrow> is_b64 (bext_clauses cs)"
proof -
  assume cs: "list_all wf_clause cs"
  have "set bext_chars \<subseteq> set B64_ALPHABET" by code_simp
  with clauses_bext_chars [OF cs] show ?thesis unfolding is_b64_def by (rule subset_trans)
qed

lemma bext_no_pad:
  assumes "list_all wf_clause cs"
  shows "take 1 (bext_clauses cs) \<noteq> ''A''"
proof
  assume "take 1 (bext_clauses cs) = ''A''"
  then have "CHR ''A'' \<in> set (bext_clauses cs)" by (metis in_set_takeD list.set_intros(1))
  then show False using clauses_bext_chars [OF assms] bext_letters(6) by blast
qed

text \<open>The primitive that carries a threshold is read back as that threshold.\<close>

lemma bexter_codes:
  assumes "l < 3"
  shows "map_of MATTER_SIZES [SMALL_VAR_SELECTORS ! l, CHR ''A''] = Some (mz 2 2 0 None l)"
    and "map_of MATTER_SIZES [LARGE_VAR_SELECTORS ! l, CHR ''A'', CHR ''A'', CHR ''A''] = Some (mz 4 4 0 None l)"
    and "[SMALL_VAR_SELECTORS ! l, CHR ''A''] \<in> set BEXTER_CODES"
    and "[LARGE_VAR_SELECTORS ! l, CHR ''A'', CHR ''A'', CHR ''A''] \<in> set BEXTER_CODES"
    and "SMALL_VAR_SELECTORS ! l \<in> set SMALL_VAR_SELECTORS"
proof -
  have a: "list_all (\<lambda>l. map_of MATTER_SIZES [SMALL_VAR_SELECTORS ! l, CHR ''A''] = Some (mz 2 2 0 None l)) [0, 1, 2]"
    "list_all (\<lambda>l. map_of MATTER_SIZES [LARGE_VAR_SELECTORS ! l, CHR ''A'', CHR ''A'', CHR ''A''] = Some (mz 4 4 0 None l)) [0, 1, 2]"
    "list_all (\<lambda>l. [SMALL_VAR_SELECTORS ! l, CHR ''A''] \<in> set BEXTER_CODES) [0, 1, 2]"
    "list_all (\<lambda>l. [LARGE_VAR_SELECTORS ! l, CHR ''A'', CHR ''A'', CHR ''A''] \<in> set BEXTER_CODES) [0, 1, 2]"
    "list_all (\<lambda>l. SMALL_VAR_SELECTORS ! l \<in> set SMALL_VAR_SELECTORS) [0, 1, 2]"
    by code_simp+
  have "l \<in> set [0, 1, 2]" using assms by auto
  with a show "map_of MATTER_SIZES [SMALL_VAR_SELECTORS ! l, CHR ''A''] = Some (mz 2 2 0 None l)"
    "map_of MATTER_SIZES [LARGE_VAR_SELECTORS ! l, CHR ''A'', CHR ''A'', CHR ''A''] = Some (mz 4 4 0 None l)"
    "[SMALL_VAR_SELECTORS ! l, CHR ''A''] \<in> set BEXTER_CODES"
    "[LARGE_VAR_SELECTORS ! l, CHR ''A'', CHR ''A'', CHR ''A''] \<in> set BEXTER_CODES"
    "SMALL_VAR_SELECTORS ! l \<in> set SMALL_VAR_SELECTORS"
    unfolding list_all_iff by blast+
qed

lemma chooseBexterCode_nth:
  "\<exists>l < 3. chooseBexterCode n = [SMALL_VAR_SELECTORS ! l, CHR ''A'']"
proof (intro exI conjI)
  show "(3 - n mod 3) mod 3 < (3 :: nat)" by simp
  then consider "(3 - n mod 3) mod 3 = (0 :: nat)" | "(3 - n mod 3) mod 3 = (1 :: nat)"
    | "(3 - n mod 3) mod 3 = (2 :: nat)" by linarith
  then show "chooseBexterCode n = [SMALL_VAR_SELECTORS ! ((3 - n mod 3) mod 3), CHR ''A'']"
    by cases (simp_all add: chooseBexterCode_def Let_def SMALL_VAR_SELECTORS_def)
qed

lemma mz_sel [simp]: "m_fs (mz h s x f l) = f" "m_ls (mz h s x f l) = l"
  by (simp_all add: mz_def)

lemma normalize_bexter_code:
  assumes "normalizeVariableMatterCode (chooseBexterCode n) raw = Inr c"
  shows "c \<in> set BEXTER_CODES \<and> (\<exists>z. map_of MATTER_SIZES c = Some z \<and> m_ls z = raw_lead raw)"
proof -
  obtain k where k: "k < 3" "chooseBexterCode n = [SMALL_VAR_SELECTORS ! k, CHR ''A'']"
    using chooseBexterCode_nth by blast
  have l: "raw_lead raw < 3" by (simp add: raw_lead_def)
  have "c = [SMALL_VAR_SELECTORS ! raw_lead raw, CHR ''A'']
      \<or> c = [LARGE_VAR_SELECTORS ! raw_lead raw, CHR ''A'', CHR ''A'', CHR ''A'']"
    using assms bexter_codes(1,5) [OF k(1)]
    by (simp add: normalizeVariableMatterCode_def k(2) raw_lead_def Let_def slice_def
        split: if_splits)
  then show ?thesis using bexter_codes [OF l] by fastforce
qed

lemma normalizeWeighted_decodes:
  assumes "normalizeWeighted v = Inr ((code, raw), t)" and "encodeMatterFromRaw code raw = Inr m"
  shows "decodeThresholdMatter m = Inr t"
proof -
  from assms(1) obtain cs sem where n: "normalizeWeightedInput v = Inr (cs, sem)"
    and raw: "bexter_rawify (bext_clauses cs) = Inr raw" and code: "code = chooseBexterCode (length raw)"
    and t: "t = weighted_threshold (cs, sem)"
    by (auto simp: normalizeWeighted_def res_simps)
  have sem: "sem = semantic_clauses cs" using normalizeWeightedInput_wf [OF n] by simp
  have cs: "list_all wf_clause cs" "cs \<noteq> []"
    using normalizeWeightedInput_wf [OF n] by (simp_all add: wf_threshold_def weighted_threshold_def)
  have m': "mt_raw m = raw" and nc: "normalizeVariableMatterCode code raw = Inr (mt_code m)"
    using encodeMatter_Inr [OF assms(2)] by blast+
  from normalize_bexter_code [OF nc [unfolded code]] obtain z where
    c: "mt_code m \<in> set BEXTER_CODES" "map_of MATTER_SIZES (mt_code m) = Some z" "m_ls z = raw_lead raw"
    by blast
  have "bexter_bext m = Inr (bext_clauses cs)"
    using bexter_roundtrip_raw [OF is_b64_bext [OF cs(1)] raw c(2,3)] bext_no_pad [OF cs(1)]
    by (simp add: bexter_bext_def m')
  moreover have "mt_code m \<notin> set THOLDER_NUMERIC_CODES"
  proof -
    have "list_all (\<lambda>c. c \<notin> set THOLDER_NUMERIC_CODES) BEXTER_CODES" by code_simp
    with c(1) show ?thesis by (simp add: list_all_iff)
  qed
  ultimately show ?thesis
    using c(1) by (simp add: decodeThresholdMatter_def THOLDER_WEIGHTED_CODES_def new_bexter_def
        check_code_def decode_bext_clauses [OF cs] normalize_semantic [OF cs] t sem)
qed

lemma numeric_code_facts:
  assumes "map_of NUMERIC_CAPACITIES code = Some n"
  shows "code \<in> set NUMBER_CODES" and "normalizeVariableMatterCode code raw = Inr code"
proof -
  have "list_all (\<lambda>c. c \<in> set NUMBER_CODES \<and>
      (case map_of MATTER_SIZES c of Some z \<Rightarrow> m_fs z \<noteq> None | None \<Rightarrow> False))
      (map fst NUMERIC_CAPACITIES)"
    by code_simp
  moreover have "code \<in> set (map fst NUMERIC_CAPACITIES)"
    using map_of_SomeD [OF assms] by force
  ultimately have c: "code \<in> set NUMBER_CODES \<and>
      (case map_of MATTER_SIZES code of Some z \<Rightarrow> m_fs z \<noteq> None | None \<Rightarrow> False)"
    unfolding list_all_iff by blast
  then show "code \<in> set NUMBER_CODES" by blast
  from c show "normalizeVariableMatterCode code raw = Inr code"
    by (auto simp: normalizeVariableMatterCode_def split: option.splits)
qed

lemma makeNumberMatterInit_num:
  assumes "makeNumberMatterInit v = Inr (code, raw)" and "encodeMatterFromRaw code raw = Inr m"
  shows "0 \<le> v" and "number_num m = nat v" and "mt_code m \<in> set NUMBER_CODES"
proof -
  from assms(1) obtain bs k n where bs: "bigintToBytes v = Inr bs"
    and n: "map_of NUMERIC_CAPACITIES code = Some n" and raw: "raw = replicate k 0 @ bs"
    by (auto simp: makeNumberMatterInit_def res_simps)
  note c = numeric_code_facts [OF n]
  have m: "mt_raw m = raw" "mt_code m = code"
    using encodeMatter_Inr [OF assms(2)] c(2) [of raw] by (metis sum.inject(2))+
  show "0 \<le> v" using bigintToBytes_num [OF bs] by blast
  show "number_num m = nat v" using bigintToBytes_num [OF bs] by (simp add: number_num_def m raw)
  show "mt_code m \<in> set NUMBER_CODES" using c(1) by (simp add: m)
qed

lemma normalizeNumeric_decodes:
  assumes "normalizeNumeric v = Inr ((code, raw), t)" and "encodeMatterFromRaw code raw = Inr m"
  shows "decodeThresholdMatter m = Inr t"
proof -
  have i: "makeNumberMatterInit v = Inr (code, raw)" and t: "t = numeric_threshold v"
    using assms(1) by (auto simp: normalizeNumeric_def res_simps)
  note f = makeNumberMatterInit_num [OF i assms(2)]
  show ?thesis using f by (simp add: decodeThresholdMatter_def THOLDER_NUMERIC_CODES_def t
      new_number_def check_code_def)
qed

lemma normalizeThresholdInput_cases:
  assumes "normalizeThresholdInput jp i = Inr x"
  obtains v where "normalizeNumeric v = Inr x" | v where "normalizeWeighted v = Inr x"
  using assms by (cases i)
    (auto simp: normalizeThresholdInput_def Let_def res_simps split: if_splits)

lemma normalizeThresholdInput_decodes:
  assumes "normalizeThresholdInput jp i = Inr ((code, raw), t)" and "encodeMatterFromRaw code raw = Inr m"
  shows "decodeThresholdMatter m = Inr t"
  using assms(1)
  by (rule normalizeThresholdInput_cases)
    (blast intro: assms(2) normalizeNumeric_decodes normalizeWeighted_decodes)+

lemma parseMatterInit_raw:
  "parseMatterInit \<lparr>ini_raw = Some raw, ini_code = Some code, ini_qb64b = None, ini_qb64 = None,
     ini_qb2 = None\<rparr> = Inr m \<longleftrightarrow> code \<noteq> [] \<and> encodeMatterFromRaw code raw = Inr m"
  by (cases code) (simp_all add: parseMatterInit_def)

lemma parseMatterInit_qb64:
  "encodeMatterFromRaw code raw = Inr m \<Longrightarrow>
   parseMatterInit \<lparr>ini_raw = None, ini_code = None, ini_qb64b = None, ini_qb64 = Some (mt_qb64 m),
     ini_qb2 = None\<rparr> = Inr m"
proof -
  assume e: "encodeMatterFromRaw code raw = Inr m"
  obtain z soft body where enc: "encoded m z soft body" using encodeMatter_encoded [OF e] by blast
  then have "mt_qb64 m \<noteq> []" by (auto simp: encoded_def)
  then obtain c cs where q: "mt_qb64 m = c # cs" by (cases "mt_qb64 m") auto
  have "parseMatterFromTextData (utf8 (mt_qb64 m)) = Inr m"
    using encoded_text [OF enc, of "[]"] by (simp add: matter_qb64b_def)
  then show ?thesis by (simp add: parseMatterInit_def q)
qed

lemma tholder_of_sith_parts:
  assumes "tholder_of_sith jp i = Inr t"
  obtains code raw where
    "normalizeThresholdInput jp i = Inr ((code, raw), th_threshold t)"
    "encodeMatterFromRaw code raw = Inr (th_matter t)" "tholder_check (th_matter t) (th_threshold t) = Inr t"
    "code \<noteq> []"
  using assms by (auto simp: tholder_of_sith_def res_simps parseMatterInit_raw tholder_check_def
      split: if_splits)

section \<open>The semantic expression rebuilds the threshold\<close>

text \<open>\<open>new Tholder({ sith })\<close> on what \<open>sith\<close> returned: a text or an array.\<close>

definition sith_input :: "jvalue \<Rightarrow> threshold_input" where
  "sith_input v = (case v of JStr s \<Rightarrow> InText s | JNum n \<Rightarrow> InNumber n | _ \<Rightarrow> InJson v)"

lemma hex_chars: "set (hex_str n) \<subseteq> set digit_chars"
proof -
  have "digit_chars ! d \<in> set digit_chars" if "d < 16" for d
    using that by (intro nth_mem) (simp add: digit_chars_def)
  then show ?thesis
    by (auto simp: hex_str_def show_radix_def dest!: digits_bound [rotated])
qed

lemma hex_trim: "js_trim (hex_str n) = hex_str n"
proof (rule js_trim_id)
  have "list_all (\<lambda>c. \<not> js_white c) digit_chars" by code_simp
  then show "\<forall>c \<in> set (hex_str n). \<not> js_white c" using hex_chars [of n] by (auto simp: list_all_iff)
qed

lemma hex_not_bracket: "take 1 (hex_str n) \<noteq> ''[''"
proof
  assume "take 1 (hex_str n) = ''[''"
  then have "CHR ''['' \<in> set (hex_str n)" by (metis in_set_takeD list.set_intros(1))
  then have "CHR ''['' \<in> set digit_chars" using hex_chars by blast
  then show False by (simp add: digit_chars_def)
qed

lemma semantic_clauses_input: "sith_input (semantic_clauses cs) = InJson (semantic_clauses cs)"
  by (simp add: sith_input_def semantic_clauses_def split: list.splits)

lemma normalizeThresholdInput_sith:
  assumes "normalizeThresholdInput jp i = Inr (init, t)"
  shows "normalizeThresholdInput jp' (sith_input (tn_semantic t)) = Inr (init, t)"
  using assms
proof (rule normalizeThresholdInput_cases)
  fix v assume v: "normalizeNumeric v = Inr (init, t)"
  then have "0 \<le> v" and t: "t = numeric_threshold v"
    by (auto simp: normalizeNumeric_def makeNumberMatterInit_def res_simps dest: bigintToBytes_num)
  with v show ?thesis
    by (simp add: numeric_threshold_def sith_input_def normalizeThresholdInput_def Let_def hex_trim
        hex_not_bracket [simplified])
next
  fix v assume v: "normalizeWeighted v = Inr (init, t)"
  then obtain cs sem where n: "normalizeWeightedInput v = Inr (cs, sem)"
    and t: "t = weighted_threshold (cs, sem)"
    by (auto simp: normalizeWeighted_def res_simps)
  have sem: "sem = semantic_clauses cs" using normalizeWeightedInput_wf [OF n] by simp
  have cs: "list_all wf_clause cs" "cs \<noteq> []"
    using normalizeWeightedInput_wf [OF n] by (simp_all add: wf_threshold_def weighted_threshold_def)
  have "normalizeWeighted sem = normalizeWeighted v"
    by (simp add: normalizeWeighted_def n sem normalize_semantic [OF cs])
  then show ?thesis using v
    by (simp add: t weighted_threshold_def sem semantic_clauses_input normalizeThresholdInput_def)
qed

section \<open>Order of signers, more signers, all signers\<close>

lemma group_value_mono:
  assumes "S \<subseteq> T" and "list_all wf_weight ms"
  shows "group_value S off ms \<le> group_value T off ms"
  unfolding group_value_def using assms
  by (intro sum_mono) (auto simp: list_all_length wf_weight_def)

lemma entry_value_mono:
  assumes "S \<subseteq> T" and "wf_entry e"
  shows "entry_value S off e \<le> entry_value T off e"
proof (cases e)
  case (WWeight w)
  then show ?thesis using assms by (auto simp: wf_weight_def)
next
  case (WGroup w ms)
  then have "group_value S off ms \<le> group_value T off ms" "0 \<le> rval w"
    using assms by (simp_all add: group_value_mono wf_weight_def)
  then show ?thesis by (auto simp: WGroup)
qed

lemma clause_value_mono:
  assumes "S \<subseteq> T" and "list_all wf_entry c"
  shows "clause_value S off c \<le> clause_value T off c"
  unfolding clause_value_def using assms
  by (intro sum_mono entry_value_mono) (auto simp: list_all_length)

lemma weighted_satisfied_mono:
  assumes "weighted_satisfied S cs" and "S \<subseteq> T" and "list_all wf_clause cs"
  shows "weighted_satisfied T cs"
  unfolding weighted_satisfied_def
proof (intro allI impI)
  fix j assume j: "j < length cs"
  then have "list_all wf_entry (cs ! j)" using assms(3) by (simp add: list_all_length wf_clause_def)
  from clause_value_mono [OF assms(2) this] j assms(1)
  show "1 \<le> clause_value T (clauses_size (take j cs)) (cs ! j)"
    unfolding weighted_satisfied_def by (meson order_trans)
qed

lemma entry_value_empty: "entry_value {} off e = 0"
  by (cases e) (simp_all add: group_value_def)

lemma weighted_satisfied_empty:
  assumes "weighted_satisfied {} cs"
  shows "cs = []"
proof (rule ccontr)
  assume "cs \<noteq> []"
  then have "1 \<le> clause_value {} (clauses_size (take 0 cs)) (cs ! 0)"
    using assms unfolding weighted_satisfied_def by blast
  then show False by (simp add: clause_value_def entry_value_empty)
qed

lemma group_value_full:
  "\<forall>k. off \<le> k \<and> k < off + length ms \<longrightarrow> k \<in> S \<Longrightarrow> group_value S off ms = sum_list (map rval ms)"
proof (induction ms arbitrary: off)
  case Nil
  then show ?case by (simp add: group_value_def)
next
  case (Cons w ws)
  from Cons.IH [of "off + 1"] Cons.prems show ?case by (simp add: group_value_Cons)
qed

lemma entry_value_full:
  assumes "wf_entry e" and "\<forall>k. off \<le> k \<and> k < off + entry_slots e \<longrightarrow> k \<in> S"
  shows "entry_value S off e = rval (entry_weight e)"
  using assms group_value_full [of off _ S] by (cases e) (simp_all add: entry_weight_def)

lemma clause_value_full:
  "list_all wf_entry c \<Longrightarrow> \<forall>k. off \<le> k \<and> k < off + sum_list (map entry_slots c) \<longrightarrow> k \<in> S
   \<Longrightarrow> clause_value S off c = sum_list (map (rval \<circ> entry_weight) c)"
proof (induction c arbitrary: off)
  case Nil
  then show ?case by (simp add: clause_value_def)
next
  case (Cons e es)
  have "clause_value S (off + entry_slots e) es = sum_list (map (rval \<circ> entry_weight) es)"
    using Cons.prems by (intro Cons.IH) auto
  moreover have "entry_value S off e = rval (entry_weight e)"
    using Cons.prems by (intro entry_value_full) auto
  ultimately show ?case by (simp add: clause_value_Cons comp_def)
qed

lemma clauses_size_split: "j < length cs \<Longrightarrow>
  clauses_size (take j cs) + sum_list (map entry_slots (cs ! j)) \<le> clauses_size cs"
proof (induction cs arbitrary: j)
  case Nil
  then show ?case by simp
next
  case (Cons c cs)
  moreover have "clauses_size [] = 0" by (simp add: clauses_size_def)
  ultimately show ?case by (cases j) (auto simp: clauses_size_Cons add.assoc)
qed

lemma weighted_satisfied_full:
  assumes "list_all wf_clause cs" and "\<forall>k < clauses_size cs. k \<in> S"
  shows "weighted_satisfied S cs"
  unfolding weighted_satisfied_def
proof (intro allI impI)
  fix j assume j: "j < length cs"
  then have c: "wf_clause (cs ! j)" using assms(1) by (simp add: list_all_length)
  have "clause_value S (clauses_size (take j cs)) (cs ! j) = sum_list (map (rval \<circ> entry_weight) (cs ! j))"
    using c assms(2) clauses_size_split [OF j] by (intro clause_value_full) (auto simp: wf_clause_def)
  with c show "1 \<le> clause_value S (clauses_size (take j cs)) (cs ! j)" by (simp add: wf_clause_def)
qed

lemma threshold_satisfy_iff:
  assumes "wf_threshold t"
  shows "threshold_satisfy t indices = Inr (case tn_thold t of
      TNumeric v \<Rightarrow> 0 < v \<and> v \<le> int (length indices)
    | TWeighted cs \<Rightarrow> weighted_satisfied (signed_slots indices) cs)"
proof (cases "tn_thold t")
  case (TNumeric v)
  with assms show ?thesis by (simp add: threshold_satisfy_def wf_threshold_def)
next
  case (TWeighted cs)
  then have "cs \<noteq> []" using assms by (simp add: wf_threshold_def)
  then have "indices = [] \<Longrightarrow> \<not> weighted_satisfied (signed_slots indices) cs"
    using weighted_satisfied_empty by (auto simp: signed_slots_def)
  then show ?thesis using weighted_satisfy_exact [OF assms TWeighted] TWeighted by auto
qed

lemma signed_slots_mono: "set is \<subseteq> set js \<Longrightarrow> signed_slots is \<subseteq> signed_slots js"
  by (auto simp: signed_slots_def)

lemma threshold_satisfy_mono:
  assumes "wf_threshold t" and "threshold_satisfy t is = Inr True" and "distinct is"
    and "set is \<subseteq> set js"
  shows "threshold_satisfy t js = Inr True"
proof (cases "tn_thold t")
  case (TNumeric v)
  have "length is \<le> length js"
    using assms(3,4) by (metis card_length card_mono distinct_card finite_set le_trans)
  then show ?thesis using assms(1,2) TNumeric by (simp add: threshold_satisfy_iff)
next
  case (TWeighted cs)
  then have "list_all wf_clause cs" using assms(1) by (simp add: wf_threshold_def)
  then show ?thesis using assms(1,2) TWeighted
      weighted_satisfied_mono [OF _ signed_slots_mono [OF assms(4)]]
    by (simp add: threshold_satisfy_iff)
qed

section \<open>The threshold properties\<close>

text \<open>A concrete threshold for the witnesses: two halves and a group worth a half.\<close>

definition sith_halves :: jvalue where
  "sith_halves = JArr [JStr ''2/4'', JStr ''1/2'', JObj [(''1/2'', JArr [JStr ''1'', JStr ''1''])]]"

definition no_json :: "string \<Rightarrow> jvalue option" where
  "no_json s = None"

definition clauses_halves :: "clause list" where
  "clauses_halves = [[WWeight (rational 1 2), WWeight (rational 1 2),
     WGroup (rational 1 2) [rational 1 1, rational 1 1]]]"

definition tholder_halves :: tholder where
  "tholder_halves = \<lparr>th_matter = \<lparr>mt_code = ''4A'', mt_raw = [3, 91, 54, 115, 91, 54, 115, 91, 54, 147, 91, 245],
       mt_qb64 = ''4AAEA1s2c1s2c1s2k1v1'', mt_fullSize = 20, mt_fullSizeB2 = 15\<rparr>,
     th_threshold = \<lparr>tn_numeric = None, tn_size = 4, tn_thold = TWeighted clauses_halves,
       tn_semantic = JArr [JStr ''1/2'', JStr ''1/2'', JObj [(''1/2'', JArr [JStr ''1'', JStr ''1''])]]\<rparr>\<rparr>"

lemma tholder_halves_sith: "tholder_of_sith no_json (InJson sith_halves) = Inr tholder_halves"
  by code_simp

lemma halves_01: "tholder_satisfy tholder_halves [0, 1] = Inr True"
  by code_simp

lemma halves_not_23: "tholder_satisfy tholder_halves [3, 2, 2] = Inr False"
  by code_simp

lemma halves_fields:
  "tn_thold (th_threshold tholder_halves) = TWeighted clauses_halves"
  "tn_size (th_threshold tholder_halves) = 4"
  by (simp_all add: tholder_halves_def)

text \<open>C11: Constructed thresholds are well formed. A threshold built from wire material, or
  from a number, a hexadecimal text, a JSON text or a weighted expression, holds a non-negative
  number, or clauses that are all non-empty, whose weights are reduced fractions between zero and
  one, whose groups and whose clauses weigh at least one, and whose size is the number of
  signer slots.\<close>

theorem tholder_constructed_wf:
  assumes "tholder_of_matter m = Inr t \<or> tholder_of_sith jp i = Inr t"
  shows "wf_threshold (th_threshold t)"
  using assms by (rule tholder_wf)

theorem tholder_constructed_wf_witness:
  "tholder_of_sith no_json (InJson sith_halves) = Inr tholder_halves
   \<and> wf_threshold (th_threshold tholder_halves)"
  using tholder_constructed_wf [OF disjI2, OF tholder_halves_sith] tholder_halves_sith by simp

text \<open>C12: Satisfaction equals its reference semantics. On every constructed threshold the
  slot loop of \<open>satisfy\<close>, with its running offset and its exact rational sums, never
  fails and computes: enough indices for a numeric threshold; for a weighted one, that in every
  clause the weights of the signed slots, and of the groups whose signed members weigh at least
  one, add up to at least one in the rationals. The order and repetition of indices and indices
  outside the slots do not matter.\<close>

theorem tholder_satisfy_reference:
  assumes "tholder_of_matter m = Inr t \<or> tholder_of_sith jp i = Inr t"
  shows "tholder_satisfy t indices = Inr (case tn_thold (th_threshold t) of
      TNumeric v \<Rightarrow> 0 < v \<and> v \<le> int (length indices)
    | TWeighted cs \<Rightarrow> weighted_satisfied (signed_slots indices) cs)"
  using threshold_satisfy_iff [OF tholder_wf [OF assms]] by (simp add: tholder_satisfy_def)

theorem tholder_satisfy_reference_witness:
  "weighted_satisfied (signed_slots [0, 1]) clauses_halves
   \<and> \<not> weighted_satisfied (signed_slots [3, 2, 2]) clauses_halves"
  using tholder_satisfy_reference [OF disjI2, OF tholder_halves_sith, of "[0, 1]"] halves_01
    tholder_satisfy_reference [OF disjI2, OF tholder_halves_sith, of "[3, 2, 2]"] halves_not_23
  by (simp add: halves_fields)

text \<open>C13: More signers never unsatisfy. When a list of distinct indices satisfies a
  constructed threshold, numeric or weighted with groups, every list that contains those
  indices satisfies it too.\<close>

theorem tholder_satisfy_monotone:
  assumes "tholder_of_matter m = Inr t \<or> tholder_of_sith jp i = Inr t"
    and "tholder_satisfy t is = Inr True" and "distinct is" and "set is \<subseteq> set js"
  shows "tholder_satisfy t js = Inr True"
  using threshold_satisfy_mono [OF tholder_wf [OF assms(1)]] assms(2-4)
  by (simp add: tholder_satisfy_def)

theorem tholder_satisfy_monotone_witness:
  "tholder_satisfy tholder_halves [0, 1] = Inr True \<and> tholder_satisfy tholder_halves [3, 1, 9, 0] = Inr True"
  using tholder_satisfy_monotone [OF disjI2, OF tholder_halves_sith halves_01, of "[3, 1, 9, 0]"]
    halves_01 by simp



lemma tholder_of_sith_again:
  assumes "tholder_of_sith jp i = Inr t"
  shows "tholder_of_sith jp' (sith_input (tn_semantic (th_threshold t))) = Inr t"
proof -
  obtain code raw where n: "normalizeThresholdInput jp i = Inr ((code, raw), th_threshold t)"
    and e: "encodeMatterFromRaw code raw = Inr (th_matter t)"
    and c: "tholder_check (th_matter t) (th_threshold t) = Inr t" and ne: "code \<noteq> []"
    using assms by (rule tholder_of_sith_parts)
  show ?thesis
    using normalizeThresholdInput_sith [OF n, of jp'] c
      parseMatterInit_raw [of raw code "th_matter t"] e ne
    by (simp add: tholder_of_sith_def)
qed

text \<open>C15: Thresholds round trip. A threshold built from a semantic expression is rebuilt
  from its \<open>limen\<close>, the CESR text of its number or of its compact weights, and from its
  own canonical semantic expression: same primitive, same exact weights, same size, same
  expression.\<close>

theorem tholder_roundtrip:
  assumes "tholder_of_sith jp i = Inr t"
  shows "tholder_of_limen (tholder_limen t) = Inr t
    \<and> tholder_of_sith jp' (sith_input (tn_semantic (th_threshold t))) = Inr t"
proof -
  obtain code raw where n: "normalizeThresholdInput jp i = Inr ((code, raw), th_threshold t)"
    and e: "encodeMatterFromRaw code raw = Inr (th_matter t)"
    and c: "tholder_check (th_matter t) (th_threshold t) = Inr t" and ne: "code \<noteq> []"
    using assms by (rule tholder_of_sith_parts)
  have "tholder_of_limen (tholder_limen t) = Inr t"
    using normalizeThresholdInput_decodes [OF n e] c
    by (simp add: tholder_of_limen_def tholder_limen_def tholder_of_matter_def
        parseMatterInit_qb64 [OF e])
  moreover have "tholder_of_sith jp' (sith_input (tn_semantic (th_threshold t))) = Inr t"
    by (rule tholder_of_sith_again [OF assms])
  ultimately show ?thesis by blast
qed

theorem tholder_roundtrip_witness:
  "tholder_of_limen ''4AAEA1s2c1s2c1s2k1v1'' = Inr tholder_halves
   \<and> tholder_of_sith no_json (InJson (JArr [JStr ''1/2'', JStr ''1/2'',
        JObj [(''1/2'', JArr [JStr ''1'', JStr ''1''])]])) = Inr tholder_halves"
  using tholder_roundtrip [OF tholder_halves_sith, of no_json]
  by (simp add: tholder_limen_def tholder_halves_def sith_input_def)

section \<open>A numeric threshold counts repeated indices\<close>

text \<open>The comment of \<open>satisfy\<close> leaves the removal of duplicates to the caller.\<close>

lemma numeric_counts_duplicates:
  "threshold_satisfy (numeric_threshold 2) [0, 0] = Inr True"
  by code_simp

end
