(* ===== verification/Structing.thy ===== *)
theory Structing
  imports Counter Tholder
begin

text \<open>
  Fixed-field seals (\<^verbatim>\<open>cesr/src/primitives/structing.ts\<close>) and the tag
  primitives they use (\<^verbatim>\<open>tagger.ts, verser.ts\<close>): the seal descriptors, their plain object
  form, and the parsing of the seal list of an event. The lemmas show that a hydrated number
  keeps its value and its number code, that a printed hexadecimal number is read back, and that
  the descriptors never compete for one object.
\<close>

section \<open>Primitives from their text\<close>

definition matter_of_qb64 :: "string \<Rightarrow> matter res" where
  "matter_of_qb64 s = parseMatterInit \<lparr>ini_raw = None, ini_code = None, ini_qb64b = None,
     ini_qb64 = Some s, ini_qb2 = None\<rparr>"

definition matter_of_raw :: "string \<Rightarrow> byte list \<Rightarrow> matter res" where
  "matter_of_raw code raw = parseMatterInit \<lparr>ini_raw = Some raw, ini_code = Some code,
     ini_qb64b = None, ini_qb64 = None, ini_qb2 = None\<rparr>"

definition prefixer_of :: "string \<Rightarrow> matter res" where
  "prefixer_of s = bind_res (matter_of_qb64 s) new_prefixer"

definition verfer_of :: "string \<Rightarrow> matter res" where
  "verfer_of s = bind_res (matter_of_qb64 s) new_verfer"

definition diger_of :: "string \<Rightarrow> matter res" where
  "diger_of s = bind_res (matter_of_qb64 s) (\<lambda>m. new_diger m True)"

definition dater_of :: "string \<Rightarrow> matter res" where
  "dater_of s = bind_res (matter_of_qb64 s) new_dater"

section \<open>Tags and versions\<close>

definition TAG_CODES :: "string list" where
  "TAG_CODES = codexValues TagCodex"

definition VERSER_CODES :: "string list" where
  "VERSER_CODES = [''Y'', ''0O'']"

definition VERSER_PROTOCOLS :: "string list" where
  "VERSER_PROTOCOLS = [''KERI'', ''ACDC'', ''OCSR'']"

definition new_tagger :: "matter \<Rightarrow> matter res" where
  "new_tagger = check_code TAG_CODES"

definition extractTag :: "string \<Rightarrow> string \<Rightarrow> string res" where
  "extractTag code qb64 =
     bind_res (sizageForCode code) (\<lambda>z.
       Inr (drop (m_xs z) (slice (m_hs z) (m_hs z + m_ss z) qb64)))"

definition parseVersion :: "string \<Rightarrow> versionage res" where
  "parseVersion txt =
     (if length txt \<noteq> 3 then Inl DeserializeError
      else bind_res (b64ToInt (take 1 txt)) (\<lambda>major.
        if major \<noteq> 1 \<and> major \<noteq> 2 then Inl DeserializeError
        else bind_res (b64ToInt (drop 1 txt)) (\<lambda>minor. Inr \<lparr>vn_major = major, vn_minor = minor\<rparr>)))"

definition new_verser :: "matter \<Rightarrow> matter res" where
  "new_verser m =
     bind_res (new_tagger m) (\<lambda>_.
     if mt_code m \<notin> set VERSER_CODES then Inl UnknownCodeError
     else bind_res (extractTag (mt_code m) (mt_qb64 m)) (\<lambda>body.
       if length body \<noteq> 7 \<and> length body \<noteq> 10 then Inl DeserializeError
       else if take 4 body \<notin> set VERSER_PROTOCOLS then Inl DeserializeError
       else bind_res (parseVersion (slice 4 7 body)) (\<lambda>_.
         if length body = 10 then bind_res (parseVersion (slice 7 10 body)) (\<lambda>_. Inr m)
         else Inr m)))"

section \<open>Numbers from their hexadecimal text\<close>

text \<open>\<open>BigInt("0x" + (s || "0"))\<close>: trailing white space is skipped, anything else that is
  not a digit is an error.\<close>

definition js_trim_end :: "string \<Rightarrow> string" where
  "js_trim_end s = rev (dropWhile js_white (rev s))"

definition hex_bigint :: "string \<Rightarrow> nat res" where
  "hex_bigint s = of_opt JsError (read_radix 16 (js_trim_end (if s = [] then ''0'' else s)))"

definition STRUCT_CAPACITIES :: "(string \<times> nat) list" where
  "STRUCT_CAPACITIES = [(''M'', 2), (''0H'', 4), (''R'', 5), (''N'', 8), (''S'', 11), (''T'', 14),
     (''0A'', 16), (''U'', 17)]"

definition number_of_nat :: "nat \<Rightarrow> matter res" where
  "number_of_nat n =
     bind_res (bigintToBytes (int n)) (\<lambda>raw.
       case filter (\<lambda>(code, max). length raw \<le> max) STRUCT_CAPACITIES of
         (code, width) # _ \<Rightarrow>
           bind_res (matter_of_raw code (replicate (width - length raw) 0 @ raw)) new_number
       | [] \<Rightarrow> Inl JsError)"

definition hydrateNumber :: "string \<Rightarrow> matter res" where
  "hydrateNumber numh = bind_res (hex_bigint numh) number_of_nat"

section \<open>Seals\<close>

datatype seal_cast = CastPrefixer | CastNumber | CastDiger | CastVerser

datatype clan = ClanDigest | ClanRoot | ClanSource | ClanEvent | ClanLast | ClanBack | ClanKind

datatype seal_record =
    SealDigest matter
  | SealRoot matter
  | SealSource matter matter
  | SealEvent matter matter matter
  | SealLast matter
  | SealBack matter matter
  | SealKind matter matter

fun clan_fields :: "clan \<Rightarrow> (string \<times> seal_cast) list" where
  "clan_fields ClanDigest = [(''d'', CastDiger)]"
| "clan_fields ClanRoot = [(''rd'', CastDiger)]"
| "clan_fields ClanSource = [(''s'', CastNumber), (''d'', CastDiger)]"
| "clan_fields ClanEvent = [(''i'', CastPrefixer), (''s'', CastNumber), (''d'', CastDiger)]"
| "clan_fields ClanLast = [(''i'', CastPrefixer)]"
| "clan_fields ClanBack = [(''bi'', CastPrefixer), (''d'', CastDiger)]"
| "clan_fields ClanKind = [(''t'', CastVerser), (''d'', CastDiger)]"

definition SealDescriptors :: "clan list" where
  "SealDescriptors = [ClanDigest, ClanRoot, ClanSource, ClanEvent, ClanLast, ClanBack, ClanKind]"

fun seal_fromTuple :: "clan \<Rightarrow> matter list \<Rightarrow> seal_record option" where
  "seal_fromTuple ClanDigest [d] = Some (SealDigest d)"
| "seal_fromTuple ClanRoot [rd] = Some (SealRoot rd)"
| "seal_fromTuple ClanSource [s, d] = Some (SealSource s d)"
| "seal_fromTuple ClanEvent [i, s, d] = Some (SealEvent i s d)"
| "seal_fromTuple ClanLast [i] = Some (SealLast i)"
| "seal_fromTuple ClanBack [bi, d] = Some (SealBack bi d)"
| "seal_fromTuple ClanKind [t, d] = Some (SealKind t d)"
| "seal_fromTuple _ _ = None"

fun seal_toTuple :: "seal_record \<Rightarrow> clan \<times> matter list" where
  "seal_toTuple (SealDigest d) = (ClanDigest, [d])"
| "seal_toTuple (SealRoot rd) = (ClanRoot, [rd])"
| "seal_toTuple (SealSource s d) = (ClanSource, [s, d])"
| "seal_toTuple (SealEvent i s d) = (ClanEvent, [i, s, d])"
| "seal_toTuple (SealLast i) = (ClanLast, [i])"
| "seal_toTuple (SealBack bi d) = (ClanBack, [bi, d])"
| "seal_toTuple (SealKind t d) = (ClanKind, [t, d])"

definition isSadShape :: "string list \<Rightarrow> jvalue \<Rightarrow> bool" where
  "isSadShape flds v =
     (case v of
        JObj kvs \<Rightarrow> length kvs = length flds
          \<and> list_all (\<lambda>f. case map_of kvs f of Some (JStr _) \<Rightarrow> True | _ \<Rightarrow> False) flds
          \<and> list_all (\<lambda>(k, _). k \<in> set flds) kvs
      | _ \<Rightarrow> False)"

definition hydrateField :: "seal_cast \<Rightarrow> string \<Rightarrow> matter res" where
  "hydrateField cast v =
     (case cast of
        CastNumber \<Rightarrow> hydrateNumber v
      | CastPrefixer \<Rightarrow> prefixer_of v
      | CastDiger \<Rightarrow> diger_of v
      | CastVerser \<Rightarrow> bind_res (matter_of_qb64 v) new_verser)"

definition field_text :: "jvalue \<Rightarrow> string \<Rightarrow> string res" where
  "field_text v f = (case jfield v f of Some (JStr s) \<Rightarrow> Inr s | _ \<Rightarrow> Inl JsError)"

definition hydrate_entry :: "jvalue \<Rightarrow> string \<times> seal_cast \<Rightarrow> matter res" where
  "hydrate_entry v fc = bind_res (field_text v (fst fc)) (hydrateField (snd fc))"

definition seal_fromSad :: "clan \<Rightarrow> jvalue \<Rightarrow> seal_record res" where
  "seal_fromSad k v =
     bind_res (map_res (hydrate_entry v) (clan_fields k)) (\<lambda>tuple.
       of_opt JsError (seal_fromTuple k tuple))"

definition crewField :: "seal_cast \<Rightarrow> matter \<Rightarrow> string" where
  "crewField cast m = (case cast of CastNumber \<Rightarrow> number_numh m | _ \<Rightarrow> mt_qb64 m)"

definition seal_toSad :: "seal_record \<Rightarrow> jvalue" where
  "seal_toSad r = (case seal_toTuple r of
     (k, tuple) \<Rightarrow> JObj (map2 (\<lambda>(f, cast) m. (f, JStr (crewField cast m))) (clan_fields k) tuple))"

definition clan_matches :: "jvalue \<Rightarrow> clan \<Rightarrow> bool" where
  "clan_matches v k = isSadShape (map fst (clan_fields k)) v"

definition parseSealRecord :: "jvalue \<Rightarrow> seal_record res" where
  "parseSealRecord v =
     (case v of
        JObj _ \<Rightarrow>
          (case filter (clan_matches v) SealDescriptors of
             k # _ \<Rightarrow> seal_fromSad k v
           | [] \<Rightarrow> Inl DeserializeError)
      | _ \<Rightarrow> Inl DeserializeError)"

section \<open>Lemmas\<close>

lemma struct_capacities: "STRUCT_CAPACITIES = NUMERIC_CAPACITIES"
  by (simp add: STRUCT_CAPACITIES_def NUMERIC_CAPACITIES_def)

lemma number_of_nat_num:
  assumes "number_of_nat n = Inr m"
  shows "number_num m = n" and "mt_code m \<in> set NUMBER_CODES"
proof -
  from assms obtain raw where raw: "bigintToBytes (int n) = Inr raw"
    by (auto simp: number_of_nat_def res_simps)
  obtain code width rest where f:
    "filter (\<lambda>(code, max). length raw \<le> max) STRUCT_CAPACITIES = (code, width) # rest"
    using assms by (auto simp: number_of_nat_def raw split: list.splits)
  let ?k = "width - length raw"
  have m: "matter_of_raw code (replicate ?k 0 @ raw) = Inr m" and c: "new_number m = Inr m"
    using assms
    by (simp_all add: number_of_nat_def raw f res_simps new_number_def check_code_def)
  have "encodeMatterFromRaw code (replicate ?k 0 @ raw) = Inr m"
    using m by (simp add: matter_of_raw_def parseMatterInit_raw)
  then have "mt_raw m = replicate ?k 0 @ raw" using encodeMatter_encoded by blast
  then show "number_num m = n" using bigintToBytes_num [OF raw] by (simp add: number_num_def)
  show "mt_code m \<in> set NUMBER_CODES" using c by (simp add: new_number_def check_code_def res_simps)
qed

lemma js_trim_end_hex: "js_trim_end (hex_str n) = hex_str n"
proof -
  have "\<not> js_white c" if "c \<in> set (hex_str n)" for c
  proof -
    have "list_all (\<lambda>c. \<not> js_white c) digit_chars" by code_simp
    then show ?thesis using that hex_chars [of n] by (auto simp: list_all_iff)
  qed
  then have "dropWhile js_white (rev (hex_str n)) = rev (hex_str n)"
    by (cases "rev (hex_str n)") (auto dest!: arg_cong [of "rev _" _ set])
  then show ?thesis by (simp add: js_trim_end_def)
qed

lemma hex_bigint_hex [simp]: "hex_bigint (hex_str n) = Inr n"
  by (simp add: hex_bigint_def js_trim_end_hex)

text \<open>The object shapes of the descriptors exclude each other, so their order is irrelevant.\<close>

lemma isSadShape_keys:
  assumes "isSadShape flds (JObj kvs)" and "distinct flds"
  shows "set (map fst kvs) = set flds"
proof -
  have sub: "set (map fst kvs) \<subseteq> set flds"
    using assms(1) by (auto simp: isSadShape_def list_all_iff)
  have "f \<in> set (map fst kvs)" if "f \<in> set flds" for f
  proof -
    have "map_of kvs f \<noteq> None"
      using assms(1) that by (auto simp: isSadShape_def list_all_iff split: option.splits)
    then show ?thesis by (metis map_of_eq_None_iff set_map)
  qed
  with sub show ?thesis by blast
qed

lemma distinct_clan_fields: "distinct (map fst (clan_fields k))"
  by (cases k) simp_all

lemma clan_keys_inj:
  assumes "set (map fst (clan_fields k)) = set (map fst (clan_fields k'))"
  shows "k = k'"
proof -
  have "\<forall>k \<in> set SealDescriptors. \<forall>k' \<in> set SealDescriptors.
      list_all (\<lambda>f. f \<in> set (map fst (clan_fields k'))) (map fst (clan_fields k))
      \<and> list_all (\<lambda>f. f \<in> set (map fst (clan_fields k))) (map fst (clan_fields k')) \<longrightarrow> k = k'"
    by code_simp
  moreover have "k \<in> set SealDescriptors" for k by (cases k) (simp_all add: SealDescriptors_def)
  ultimately show ?thesis using assms unfolding list_all_iff by blast
qed

lemma clan_matches_unique:
  assumes "clan_matches v k" and "clan_matches v k'"
  shows "k = k'"
proof -
  obtain kvs where v: "v = JObj kvs"
    using assms(1) by (cases v) (simp_all add: clan_matches_def isSadShape_def)
  have "set (map fst kvs) = set (map fst (clan_fields k))"
    "set (map fst kvs) = set (map fst (clan_fields k'))"
    using assms unfolding clan_matches_def v
    by (auto intro!: isSadShape_keys distinct_clan_fields simp del: set_map)
  then show ?thesis using clan_keys_inj by metis
qed

end
