(* ===== verification/Serder.thy ===== *)
theory Serder
  imports Structing
begin

text \<open>
  The field view of a KERI message body (\<^verbatim>\<open>SerderKERI\<close> of
  \<^verbatim>\<open>cesr/src/serder/serder.ts\<close>): typed getters over the decoded body, and JavaScript
  numbers as far as sequence numbers use them. A serder is the record of what its constructor
  leaves: the raw bytes, the decoded body, the message type, the SAID and the protocol version.
\<close>

section \<open>JavaScript numbers\<close>

text \<open>The double nearest to a non-negative integer, ties to even: \<open>Number(bigint)\<close> and
  the sum of two non-negative integral numbers. Exact below \<open>2 ^ 53\<close>.\<close>

definition js_num :: "nat \<Rightarrow> nat" where
  "js_num n =
     (if n < 2 ^ 53 then n
      else let e = length (digits 2 n) - 53; q = n div 2 ^ e; r = n mod 2 ^ e; h = 2 ^ (e - 1)
           in (if h < r \<or> (r = h \<and> odd q) then q + 1 else q) * 2 ^ e)"

lemma js_num_small [simp]: "n < 2 ^ 53 \<Longrightarrow> js_num n = n"
  by (simp add: js_num_def)

text \<open>The bound is tested on the binary digits when the number is evaluated.\<close>

lemma js_num_code [code]:
  "js_num n =
     (let k = length (digits 2 n)
      in if k \<le> 53 then n
         else let e = k - 53; q = n div 2 ^ e; r = n mod 2 ^ e; h = 2 ^ (e - 1)
              in (if h < r \<or> (r = h \<and> odd q) then q + 1 else q) * 2 ^ e)"
  using digits_length_le [of 2 n 53] digits_length_gt [of 2 53 n]
  by (cases "n < 2 ^ 53") (simp_all add: js_num_def Let_def)

section \<open>The body\<close>

record serder =
  sd_raw :: "byte list"
  sd_ked :: "jvalue option"
  sd_ilk :: "string option"
  sd_said :: "string option"
  sd_pvrsn :: versionage

definition KERI_ESTABLISHMENT_ILKS :: "string list" where
  "KERI_ESTABLISHMENT_ILKS = [''icp'', ''rot'', ''dip'', ''drt'']"

definition serder_estive :: "serder \<Rightarrow> bool" where
  "serder_estive s \<longleftrightarrow> (case sd_ilk s of Some k \<Rightarrow> k | None \<Rightarrow> '''') \<in> set KERI_ESTABLISHMENT_ILKS"

definition sad_field :: "serder \<Rightarrow> string \<Rightarrow> jvalue option" where
  "sad_field s k = (case sd_ked s of Some v \<Rightarrow> jfield v k | None \<Rightarrow> None)"

text \<open>The two shapes of getter: a string field, and the strings of a list field.\<close>

definition text_field :: "serder \<Rightarrow> string \<Rightarrow> string option" where
  "text_field s k = (case sad_field s k of Some (JStr t) \<Rightarrow> Some t | _ \<Rightarrow> None)"

definition text_of_value :: "jvalue \<Rightarrow> string list" where
  "text_of_value v = (case v of JStr t \<Rightarrow> [t] | _ \<Rightarrow> [])"

definition text_list :: "serder \<Rightarrow> string \<Rightarrow> string list" where
  "text_list s k = (case sad_field s k of Some (JArr vs) \<Rightarrow> concat (map text_of_value vs) | _ \<Rightarrow> [])"

definition serder_pre :: "serder \<Rightarrow> string option" where
  "serder_pre s = text_field s ''i''"

definition serder_snh :: "serder \<Rightarrow> string option" where
  "serder_snh s = text_field s ''s''"

definition serder_prior :: "serder \<Rightarrow> string option" where
  "serder_prior s = text_field s ''p''"

definition serder_delpre :: "serder \<Rightarrow> string option" where
  "serder_delpre s = text_field s ''di''"

definition serder_keys :: "serder \<Rightarrow> string list" where
  "serder_keys s = text_list s ''k''"

definition serder_ndigs :: "serder \<Rightarrow> string list" where
  "serder_ndigs s = text_list s ''n''"

definition serder_backs :: "serder \<Rightarrow> string list" where
  "serder_backs s = text_list s ''b''"

definition serder_cuts :: "serder \<Rightarrow> string list" where
  "serder_cuts s = text_list s ''br''"

definition serder_adds :: "serder \<Rightarrow> string list" where
  "serder_adds s = text_list s ''ba''"

definition serder_traits :: "serder \<Rightarrow> string list" where
  "serder_traits s = text_list s ''c''"

definition serder_verfers :: "serder \<Rightarrow> matter list res" where
  "serder_verfers s = map_res verfer_of (serder_keys s)"

definition serder_ndigers :: "serder \<Rightarrow> matter list res" where
  "serder_ndigers s = map_res diger_of (serder_ndigs s)"

definition makeNumberPrimitive :: "jvalue option \<Rightarrow> matter option res" where
  "makeNumberPrimitive value =
     (case value of
        Some (JStr t) \<Rightarrow> bind_res (hydrateNumber t) (\<lambda>m. Inr (Some m))
      | Some (JNum n) \<Rightarrow>
          if n < 0 then Inl SerializeError
          else bind_res (number_of_nat (nat n)) (\<lambda>m. Inr (Some m))
      | _ \<Rightarrow> Inr None)"

definition serder_sner :: "serder \<Rightarrow> matter option res" where
  "serder_sner s = makeNumberPrimitive (map_option JStr (serder_snh s))"

definition serder_sn :: "serder \<Rightarrow> nat option res" where
  "serder_sn s = bind_res (serder_sner s) (\<lambda>n. Inr (map_option (\<lambda>m. js_num (number_num m)) n))"

definition serder_bner :: "serder \<Rightarrow> matter option res" where
  "serder_bner s = makeNumberPrimitive (sad_field s ''bt'')"

text \<open>\<open>makeThreshold\<close>: an expression the constructor rejects is no threshold. JSON texts
  inside a threshold string are read by \<open>json_parse\<close>.\<close>

definition makeThreshold :: "(string \<Rightarrow> jvalue option) \<Rightarrow> jvalue option \<Rightarrow> tholder option" where
  "makeThreshold json_parse value =
     (case value of
        None \<Rightarrow> None
      | Some JNull \<Rightarrow> None
      | Some v \<Rightarrow>
          (case tholder_of_sith json_parse (sith_input v) of Inr t \<Rightarrow> Some t | Inl _ \<Rightarrow> None))"

definition serder_tholder :: "(string \<Rightarrow> jvalue option) \<Rightarrow> serder \<Rightarrow> tholder option" where
  "serder_tholder json_parse s = makeThreshold json_parse (sad_field s ''kt'')"

definition serder_ntholder :: "(string \<Rightarrow> jvalue option) \<Rightarrow> serder \<Rightarrow> tholder option" where
  "serder_ntholder json_parse s = makeThreshold json_parse (sad_field s ''nt'')"

definition serder_seals :: "serder \<Rightarrow> jvalue list" where
  "serder_seals s = (case sad_field s ''a'' of Some (JArr vs) \<Rightarrow> vs | _ \<Rightarrow> [])"

definition serder_sealRecords :: "serder \<Rightarrow> seal_record list res" where
  "serder_sealRecords s = map_res parseSealRecord (serder_seals s)"

definition event_seal :: "seal_record \<Rightarrow> (matter \<times> matter \<times> matter) list" where
  "event_seal r = (case r of SealEvent i s d \<Rightarrow> [(i, s, d)] | _ \<Rightarrow> [])"

definition serder_eventSeals :: "serder \<Rightarrow> (matter \<times> matter \<times> matter) list res" where
  "serder_eventSeals s = bind_res (serder_sealRecords s) (\<lambda>rs. Inr (concat (map event_seal rs)))"

text \<open>\<open>compare\<close> throws on an empty SAID on either side.\<close>

definition serder_compare :: "serder \<Rightarrow> string \<Rightarrow> bool res" where
  "serder_compare s said =
     (case sd_said s of
        Some own \<Rightarrow> if said = [] \<or> own = [] then Inl DeserializeError else Inr (said = own)
      | None \<Rightarrow> Inl DeserializeError)"

section \<open>Lemmas\<close>

lemma serder_sn_num:
  assumes "serder_sn s = Inr (Some n)"
  obtains h m where "serder_snh s = Some h" "hydrateNumber h = Inr m" "n = js_num (number_num m)"
  using assms by (auto simp: serder_sn_def serder_sner_def makeNumberPrimitive_def res_simps
      split: option.splits)

lemma serder_sn_hex:
  assumes "serder_snh s = Some (hex_str n)" and "number_of_nat n = Inr m"
  shows "serder_sn s = Inr (Some (js_num n))"
  using assms number_of_nat_num(1) [OF assms(2)]
  by (simp add: serder_sn_def serder_sner_def makeNumberPrimitive_def hydrateNumber_def)

lemma makeThreshold_wf: "makeThreshold jp v = Some t \<Longrightarrow> wf_threshold (th_threshold t)"
  using tholder_wf
  by (auto simp: makeThreshold_def split: option.splits jvalue.splits sum.splits)

lemma makeThreshold_sith:
  assumes "makeThreshold jp v = Some t"
  shows "\<exists>i. tholder_of_sith jp i = Inr t"
  using assms by (auto simp: makeThreshold_def split: option.splits jvalue.splits sum.splits)

end
