(* ===== verification/Baser.thy ===== *)
theory Baser
  imports Serder Indexer
begin

text \<open>
  The durable state the key event logic works on (\<^verbatim>\<open>keri/src/db/basing.ts\<close>,
  \<^verbatim>\<open>keri/src/core/records.ts\<close>): key-state records, event material by prefix and digest,
  the ordinal key event log and the first-seen log, the escrow indexes, and the live
  key-state machines cached per prefix. A store keyed by \<open>dgKey(pre, said)\<close> is a map from
  the pair; a store of insertion-ordered duplicates is a list without repetition; signatures and
  witnesses are kept as their qb64 text, as the typed stores serialize them. The lemmas
  state the laws of the log operations.
\<close>

section \<open>Records\<close>

record key_state =
  ks_vn :: "nat list"
  ks_i :: string
  ks_s :: string
  ks_p :: string
  ks_d :: string
  ks_f :: string
  ks_dt :: string
  ks_et :: string
  ks_kt :: "jvalue option"
  ks_k :: "string list"
  ks_nt :: "jvalue option"
  ks_n :: "string list"
  ks_bt :: string
  ks_b :: "string list"
  ks_c :: "string list"
  ks_ee_s :: string
  ks_ee_d :: string
  ks_ee_br :: "string list"
  ks_ee_ba :: "string list"
  ks_di :: string

record habitat =
  hb_hid :: string
  hb_mid :: "string option"
  hb_watchers :: "string list"

text \<open>What accepted replies record: the endpoint roles and locations, the observations a watcher
  reports, the out-of-band introductions to resolve. An absent field is \<open>None\<close>. A key state
  notice is stored as the body it came with.\<close>

record endpoint_record =
  er_allowed :: "bool option"
  er_enabled :: "bool option"
  er_name :: "string option"

record observed_record =
  ob_enabled :: "bool option"
  ob_name :: "string option"
  ob_datetime :: "string option"

record oobi_record =
  oo_date :: "string option"
  oo_state :: "string option"

text \<open>A live key-state machine, the fields of the class \<open>Kever\<close>.\<close>

record kever =
  kv_version :: "nat \<times> nat"
  kv_prefixer :: matter
  kv_sner :: matter
  kv_fner :: matter
  kv_dater :: matter
  kv_serder :: serder
  kv_ilk :: string
  kv_tholder :: "tholder option"
  kv_verfers :: "matter list"
  kv_ndigers :: "matter list"
  kv_ntholder :: "tholder option"
  kv_toader :: matter
  kv_wits :: "string list"
  kv_cuts :: "string list"
  kv_adds :: "string list"
  kv_estOnly :: bool
  kv_doNotDelegate :: bool
  kv_lastEst_s :: nat
  kv_lastEst_d :: string
  kv_delpre :: "string option"

type_synonym dg = "string \<times> string"
type_synonym source_seal = "matter \<times> matter"
type_synonym 'v olog = "(nat \<times> 'v list) list"
type_synonym ordinal_log = "string olog"

text \<open>The rows of the receipt stores, each part as its qb64 text: a couple of receiptor and
  signature; a quadruple of receiptor, ordinal and digest of its establishment event, and indexed
  signature; escrowed rows carry the digest of the receipted event first.\<close>

type_synonym couple_row = "string \<times> string"
type_synonym triple_row = "string \<times> string \<times> string"
type_synonym quadruple_row = "string \<times> string \<times> string \<times> string"
type_synonym quintuple_row = "string \<times> string \<times> string \<times> string \<times> string"

record baser =
  db_evts :: "dg \<Rightarrow> serder option"
  db_kels :: "string \<Rightarrow> ordinal_log"
  db_fels :: "string \<Rightarrow> string list"
  db_fons :: "dg \<Rightarrow> matter option"
  db_aess :: "dg \<Rightarrow> source_seal option"
  db_udes :: "dg \<Rightarrow> source_seal option"
  db_esrs :: "dg \<Rightarrow> bool option"
  db_dtss :: "dg \<Rightarrow> matter option"
  db_sigs :: "dg \<Rightarrow> string list"
  db_wigs :: "dg \<Rightarrow> string list"
  db_wits :: "dg \<Rightarrow> string list"
  db_states :: "string \<Rightarrow> key_state option"
  db_habs :: "string \<Rightarrow> habitat option"
  db_prefixes :: "string list"
  db_groups :: "string list"
  db_kevers :: "string \<Rightarrow> kever option"
  db_ooes :: "string \<Rightarrow> ordinal_log"
  db_pses :: "string \<Rightarrow> ordinal_log"
  db_pwes :: "string \<Rightarrow> ordinal_log"
  db_pdes :: "string \<Rightarrow> ordinal_log"
  db_ldes :: "string \<Rightarrow> ordinal_log"
  db_delegables :: "string \<Rightarrow> string list"
  db_misfits :: "string \<Rightarrow> string list"
  db_qnfs :: "string list \<Rightarrow> string list"
  db_rcts :: "dg \<Rightarrow> couple_row list"
  db_vrcs :: "dg \<Rightarrow> quadruple_row list"
  db_uwes :: "string \<Rightarrow> couple_row olog"
  db_ures :: "string \<Rightarrow> triple_row olog"
  db_vres :: "string \<Rightarrow> quintuple_row olog"
  db_sdts :: "string \<Rightarrow> matter option"
  db_rpys :: "string \<Rightarrow> serder option"
  db_ssgs :: "string \<Rightarrow> (triple_row \<times> string list) list"
  db_scgs :: "string \<Rightarrow> couple_row list"
  db_rpes :: "string \<Rightarrow> string list"
  db_eans :: "triple_row \<Rightarrow> matter option"
  db_ends :: "triple_row \<Rightarrow> endpoint_record option"
  db_lans :: "couple_row \<Rightarrow> matter option"
  db_locs :: "couple_row \<Rightarrow> string option"
  db_kdts :: "string \<Rightarrow> matter option"
  db_ksns :: "string \<Rightarrow> jvalue option"
  db_knas :: "string \<Rightarrow> matter option"
  db_wwas :: "triple_row \<Rightarrow> matter option"
  db_obvs :: "triple_row \<Rightarrow> observed_record option"
  db_oobis :: "string \<Rightarrow> oobi_record option"

definition baser_empty :: baser where
  "baser_empty = \<lparr>db_evts = Map.empty, db_kels = (\<lambda>_. []), db_fels = (\<lambda>_. []), db_fons = Map.empty,
     db_aess = Map.empty, db_udes = Map.empty, db_esrs = Map.empty, db_dtss = Map.empty,
     db_sigs = (\<lambda>_. []), db_wigs = (\<lambda>_. []), db_wits = (\<lambda>_. []), db_states = Map.empty,
     db_habs = Map.empty, db_prefixes = [], db_groups = [], db_kevers = Map.empty,
     db_ooes = (\<lambda>_. []), db_pses = (\<lambda>_. []), db_pwes = (\<lambda>_. []), db_pdes = (\<lambda>_. []),
     db_ldes = (\<lambda>_. []), db_delegables = (\<lambda>_. []), db_misfits = (\<lambda>_. []), db_qnfs = (\<lambda>_. []),
     db_rcts = (\<lambda>_. []), db_vrcs = (\<lambda>_. []), db_uwes = (\<lambda>_. []), db_ures = (\<lambda>_. []),
     db_vres = (\<lambda>_. []), db_sdts = Map.empty, db_rpys = Map.empty, db_ssgs = (\<lambda>_. []),
     db_scgs = (\<lambda>_. []), db_rpes = (\<lambda>_. []), db_eans = Map.empty, db_ends = Map.empty,
     db_lans = Map.empty, db_locs = Map.empty, db_kdts = Map.empty, db_ksns = Map.empty,
     db_knas = Map.empty, db_wwas = Map.empty, db_obvs = Map.empty, db_oobis = Map.empty\<rparr>"

section \<open>Insertion-ordered sets and ordinal logs\<close>

text \<open>Adding to a duplicate bucket keeps insertion order and ignores a value already there.\<close>

definition io_add :: "'a \<Rightarrow> 'a list \<Rightarrow> 'a list" where
  "io_add v vs = (if v \<in> set vs then vs else vs @ [v])"

definition io_put :: "'a list \<Rightarrow> 'a list \<Rightarrow> 'a list" where
  "io_put new vs = foldl (\<lambda>acc v. io_add v acc) vs new"

fun on_get :: "nat \<Rightarrow> 'v olog \<Rightarrow> 'v list" where
  "on_get n [] = []"
| "on_get n ((m, vs) # lg) = (if n = m then vs else if n < m then [] else on_get n lg)"

fun on_add :: "nat \<Rightarrow> 'v \<Rightarrow> 'v olog \<Rightarrow> 'v olog" where
  "on_add n v [] = [(n, [v])]"
| "on_add n v ((m, vs) # lg) =
     (if n = m then (m, io_add v vs) # lg
      else if n < m then (n, [v]) # (m, vs) # lg
      else (m, vs) # on_add n v lg)"

fun on_rem :: "nat \<Rightarrow> 'v \<Rightarrow> 'v olog \<Rightarrow> 'v olog" where
  "on_rem n v [] = []"
| "on_rem n v ((m, vs) # lg) =
     (if n = m then (let vs' = filter (\<lambda>x. x \<noteq> v) vs in if vs' = [] then lg else (m, vs') # lg)
      else (m, vs) # on_rem n v lg)"

definition on_last :: "int \<Rightarrow> 'v olog \<Rightarrow> 'v option" where
  "on_last n lg =
     (if n < 0 then None
      else case on_get (nat n) lg of [] \<Rightarrow> None | vs \<Rightarrow> Some (last vs))"

definition on_items :: "'v olog \<Rightarrow> (nat \<times> 'v) list" where
  "on_items lg = concat (map (\<lambda>(n, vs). map (Pair n) vs) lg)"

definition on_last_items :: "'v olog \<Rightarrow> (nat \<times> 'v) list" where
  "on_last_items lg = map (\<lambda>(n, vs). (n, last vs)) lg"

section \<open>Database operations\<close>

definition getEvtSerder :: "baser \<Rightarrow> string \<Rightarrow> string \<Rightarrow> serder option" where
  "getEvtSerder db pre said = db_evts db (pre, said)"

definition kels_getLast :: "baser \<Rightarrow> string \<Rightarrow> int \<Rightarrow> string option" where
  "kels_getLast db pre sn = on_last sn (db_kels db pre)"

definition kels_add :: "string \<Rightarrow> nat \<Rightarrow> string \<Rightarrow> baser \<Rightarrow> baser" where
  "kels_add pre sn said db = db\<lparr>db_kels := (db_kels db)(pre := on_add sn said (db_kels db pre))\<rparr>"

definition getKelItemIter :: "baser \<Rightarrow> string \<Rightarrow> (nat \<times> string) list" where
  "getKelItemIter db pre = on_last_items (db_kels db pre)"

definition appendFel :: "string \<Rightarrow> string \<Rightarrow> baser \<Rightarrow> nat \<times> baser" where
  "appendFel pre said db =
     (length (db_fels db pre), db\<lparr>db_fels := (db_fels db)(pre := db_fels db pre @ [said])\<rparr>)"

definition getHab :: "baser \<Rightarrow> string \<Rightarrow> habitat option" where
  "getHab db pre = db_habs db pre"

definition getState :: "baser \<Rightarrow> string \<Rightarrow> key_state option" where
  "getState db pre = db_states db pre"

definition pinState :: "string \<Rightarrow> key_state \<Rightarrow> baser \<Rightarrow> baser" where
  "pinState pre st db = db\<lparr>db_states := (db_states db)(pre := Some st)\<rparr>"

text \<open>\<open>put\<close> keeps a value already stored, \<open>pin\<close> replaces it.\<close>

definition map_put :: "'k \<Rightarrow> 'v \<Rightarrow> ('k \<Rightarrow> 'v option) \<Rightarrow> ('k \<Rightarrow> 'v option)" where
  "map_put k v m = (if m k = None then m(k := Some v) else m)"

definition map_pin :: "'k \<Rightarrow> 'v \<Rightarrow> ('k \<Rightarrow> 'v option) \<Rightarrow> ('k \<Rightarrow> 'v option)" where
  "map_pin k v m = m(k := Some v)"

section \<open>Lemmas\<close>

named_theorems log_simps \<open>laws of the logs\<close>

lemma map_put_get: "map_put k v m k' = (if k = k' \<and> m k = None then Some v else m k')"
  by (simp add: map_put_def)

lemma map_pin_get: "map_pin k v m k' = (if k = k' then Some v else m k')"
  by (simp add: map_pin_def)

lemma io_add_set [simp]: "set (io_add v vs) = insert v (set vs)"
  by (auto simp: io_add_def)

lemma io_add_distinct: "distinct vs \<Longrightarrow> distinct (io_add v vs)"
  by (simp add: io_add_def)

lemma io_add_nonempty [simp]: "io_add v vs \<noteq> []"
  by (auto simp: io_add_def)

lemma io_add_last: "v \<notin> set vs \<Longrightarrow> last (io_add v vs) = v"
  by (simp add: io_add_def)

lemma io_put_set: "set (io_put new vs) = set vs \<union> set new"
  by (induction new arbitrary: vs) (auto simp: io_put_def)

lemma io_put_distinct: "distinct ms \<Longrightarrow> distinct (io_put vs ms)"
  by (induction vs arbitrary: ms) (simp_all add: io_put_def io_add_distinct)

definition log_ok :: "'v olog \<Rightarrow> bool" where
  "log_ok lg \<longleftrightarrow> sorted_wrt (<) (map fst lg) \<and> (\<forall>(n, vs) \<in> set lg. vs \<noteq> [] \<and> distinct vs)"

lemma log_ok_Nil [simp]: "log_ok []"
  by (simp add: log_ok_def)

lemma log_ok_Cons [simp]:
  "log_ok ((m, vs) # lg) \<longleftrightarrow> vs \<noteq> [] \<and> distinct vs \<and> log_ok lg \<and> (\<forall>(n, _) \<in> set lg. m < n)"
  by (auto simp: log_ok_def)

lemma on_add_fst: "fst ` set (on_add n v lg) = insert n (fst ` set lg)"
  by (induction n v lg rule: on_add.induct) auto

lemma on_add_ok: "log_ok lg \<Longrightarrow> log_ok (on_add n v lg)"
proof (induction n v lg rule: on_add.induct)
  case (2 n v m vs lg)
  have "\<forall>(k, _) \<in> set (on_add n v lg). m < k" if "m < n" "\<forall>(k, _) \<in> set lg. m < k"
    using on_add_fst [of n v lg] that by (fastforce simp: image_iff)
  with 2 show ?case by (auto simp: io_add_distinct)
qed simp

lemma on_rem_fst: "fst ` set (on_rem n v lg) \<subseteq> fst ` set lg"
  by (induction n v lg rule: on_rem.induct) (auto simp: Let_def)

lemma on_rem_ok: "log_ok lg \<Longrightarrow> log_ok (on_rem n v lg)"
proof (induction n v lg rule: on_rem.induct)
  case (2 n v m vs lg)
  have "\<forall>(k, _) \<in> set (on_rem n v lg). m < k"
    using on_rem_fst [of n v lg] 2(2) by (fastforce simp: image_iff)
  with 2 show ?case by (auto simp: Let_def)
qed simp

lemma on_get_below: "(\<forall>(k, _) \<in> set lg. n < k) \<Longrightarrow> on_get n lg = []"
  by (induction n lg rule: on_get.induct) auto

lemma on_get_add:
  "on_get k (on_add n v lg) = (if k = n then io_add v (on_get n lg) else on_get k lg)"
proof (induction n v lg rule: on_add.induct)
  case (1 n v)
  then show ?case by (simp add: io_add_def)
next
  case (2 n v m vs lg)
  then show ?case by (auto simp: io_add_def)
qed

text \<open>What the processor relies on of a log keyed by ordinals: reading after an addition.\<close>

locale ordinal_store =
  fixes get :: "nat \<Rightarrow> 'l \<Rightarrow> 'v list"
    and add :: "nat \<Rightarrow> 'v \<Rightarrow> 'l \<Rightarrow> 'l"
  assumes get_add: "get k (add n v l) = (if k = n then io_add v (get n l) else get k l)"
begin

lemma get_mono: "set (get k l) \<subseteq> set (get k (add n v l))"
  by (auto simp: get_add)

lemma get_member: "w \<in> set (get k (add n v l)) \<longleftrightarrow> k = n \<and> w = v \<or> w \<in> set (get k l)"
  by (auto simp: get_add)

lemma get_again: "get k (add n v (add n v l)) = get k (add n v l)"
  by (simp add: get_add io_add_def)

lemma last_fresh: "v \<notin> set (get n l) \<Longrightarrow> last (get n (add n v l)) = v"
  by (simp add: get_add io_add_last)

lemma last_other: "k \<noteq> n \<Longrightarrow> get k (add n v l) = get k l"
  by (simp add: get_add)

end

interpretation ol: ordinal_store on_get on_add
  by unfold_locales (rule on_get_add)

lemma on_get_mem: "log_ok lg \<Longrightarrow> (n, vs) \<in> set lg \<Longrightarrow> on_get n lg = vs"
  by (induction n lg rule: on_get.induct) auto

lemma on_get_in: "on_get n lg \<noteq> [] \<Longrightarrow> (n, on_get n lg) \<in> set lg"
  by (induction n lg rule: on_get.induct) (auto split: if_splits)

lemma on_last_add:
  assumes "log_ok lg" and "v \<notin> set (on_get n lg)"
  shows "on_last k (on_add n v lg) = (if k = int n then Some v else on_last k lg)"
  using assms io_add_last [OF assms(2)]
  by (auto simp: on_last_def ol.get_add split: list.splits)

lemma on_last_Some:
  "on_last k lg = Some v \<longleftrightarrow> 0 \<le> k \<and> on_get (nat k) lg \<noteq> [] \<and> v = last (on_get (nat k) lg)"
  by (auto simp: on_last_def split: list.splits)

lemma on_last_in: "on_last k lg = Some v \<Longrightarrow> v \<in> set (on_get (nat k) lg)"
  by (auto simp: on_last_Some)

lemma log_member_get:
  assumes "log_ok lg"
  shows "(\<exists>vs. (n, vs) \<in> set lg \<and> P vs) \<longleftrightarrow> on_get n lg \<noteq> [] \<and> P (on_get n lg)"
proof
  assume "\<exists>vs. (n, vs) \<in> set lg \<and> P vs"
  then obtain vs where vs: "(n, vs) \<in> set lg" "P vs" by blast
  moreover have "vs \<noteq> []" using assms vs(1) unfolding log_ok_def by blast
  ultimately show "on_get n lg \<noteq> [] \<and> P (on_get n lg)" using on_get_mem [OF assms vs(1)] by simp
next
  assume "on_get n lg \<noteq> [] \<and> P (on_get n lg)"
  then show "\<exists>vs. (n, vs) \<in> set lg \<and> P vs" using on_get_in by blast
qed

lemma on_items_iff:
  assumes "log_ok lg"
  shows "(n, v) \<in> set (on_items lg) \<longleftrightarrow> v \<in> set (on_get n lg)"
proof -
  have "(n, v) \<in> set (on_items lg) \<longleftrightarrow> (\<exists>vs. (n, vs) \<in> set lg \<and> v \<in> set vs)"
    unfolding on_items_def by (auto split: prod.splits)
  then show ?thesis unfolding log_member_get [OF assms] by auto
qed

lemma on_last_items_iff:
  assumes "log_ok lg"
  shows "(n, v) \<in> set (on_last_items lg) \<longleftrightarrow> on_last (int n) lg = Some v"
proof -
  have "(n, v) \<in> set (on_last_items lg) \<longleftrightarrow> (\<exists>vs. (n, vs) \<in> set lg \<and> v = last vs)"
    unfolding on_last_items_def by (auto split: prod.splits)
  then show ?thesis unfolding log_member_get [OF assms] by (auto simp: on_last_Some)
qed

end
