(* ===== verification/Witnesses.thy ===== *)
theory Witnesses
  imports Prelude
begin

text \<open>
  The ordered witness-set arithmetic of rotations (\<^verbatim>\<open>keri/src/core/witnesses.ts\<close>),
  used by the key event state machine and by receipt escrows. The lemmas characterise when a
  rotation's cuts and adds are accepted and what the next witness list is.
\<close>

datatype witness_reason =
    DuplicateCuts
  | CutsNotSubsetOfWitnesses
  | DuplicateAdds
  | IntersectingCutsAndAdds
  | IntersectingWitnessesAndAdds
  | InvalidWitnessSet

record derived_witnesses =
  dw_wits :: "string list"
  dw_cuts :: "string list"
  dw_adds :: "string list"

definition hasUniqueEntries :: "string list \<Rightarrow> bool" where
  "hasUniqueEntries values \<longleftrightarrow> length (remdups values) = length values"

definition hasUniqueWitnesses :: "string list \<Rightarrow> bool" where
  "hasUniqueWitnesses wits = hasUniqueEntries wits"

definition deriveRotatedWitnessSet ::
  "string list \<Rightarrow> string list \<Rightarrow> string list \<Rightarrow> witness_reason + derived_witnesses" where
  "deriveRotatedWitnessSet currentWits cuts adds =
     (if \<not> hasUniqueEntries cuts then Inl DuplicateCuts
      else if \<not> hasUniqueEntries adds then Inl DuplicateAdds
      else if list_ex (\<lambda>cut. cut \<notin> set currentWits) cuts then Inl CutsNotSubsetOfWitnesses
      else if list_ex (\<lambda>cut. cut \<in> set adds) cuts then Inl IntersectingCutsAndAdds
      else if list_ex (\<lambda>add. add \<in> set currentWits) adds then Inl IntersectingWitnessesAndAdds
      else
        (let next = filter (\<lambda>wit. wit \<notin> set cuts) currentWits @ adds
         in if \<not> hasUniqueEntries next then Inl InvalidWitnessSet
            else Inr \<lparr>dw_wits = next, dw_cuts = cuts, dw_adds = adds\<rparr>))"

section \<open>Lemmas\<close>

lemma hasUniqueEntries_distinct [simp]: "hasUniqueEntries xs \<longleftrightarrow> distinct xs"
  unfolding hasUniqueEntries_def
  by (metis card_distinct distinct_card distinct_remdups length_remdups_card_conv)

lemma deriveRotated_iff:
  "deriveRotatedWitnessSet wits cuts adds = Inr w \<longleftrightarrow>
     distinct cuts \<and> distinct adds \<and> set cuts \<subseteq> set wits \<and> set cuts \<inter> set adds = {}
     \<and> set wits \<inter> set adds = {} \<and> distinct (filter (\<lambda>x. x \<notin> set cuts) wits)
     \<and> w = \<lparr>dw_wits = filter (\<lambda>x. x \<notin> set cuts) wits @ adds, dw_cuts = cuts, dw_adds = adds\<rparr>"
  by (auto simp: deriveRotatedWitnessSet_def Let_def list_ex_iff split: if_splits)

lemma deriveRotated_distinct:
  assumes "distinct wits" and "deriveRotatedWitnessSet wits cuts adds = Inr w"
  shows "distinct (dw_wits w)" and "set (dw_wits w) = (set wits - set cuts) \<union> set adds"
    and "length (dw_wits w) + length cuts = length wits + length adds"
proof -
  have w: "distinct cuts" "distinct adds" "set cuts \<subseteq> set wits" "set wits \<inter> set adds = {}"
    "dw_wits w = filter (\<lambda>x. x \<notin> set cuts) wits @ adds"
    using assms(2) by (simp_all add: deriveRotated_iff)
  show "distinct (dw_wits w)" using w assms(1) by (auto simp: distinct_filter)
  show "set (dw_wits w) = (set wits - set cuts) \<union> set adds" using w by auto
  have "length (filter (\<lambda>x. x \<notin> set cuts) wits) = card (set wits - set cuts)"
    using assms(1) by (metis Diff_eq distinct_card distinct_filter set_diff_eq set_filter)
  also have "\<dots> = length wits - length cuts"
    using w(1,3) assms(1) by (simp add: card_Diff_subset distinct_card)
  finally show "length (dw_wits w) + length cuts = length wits + length adds"
    using w assms(1) card_mono [OF finite_set w(3)] by (simp add: distinct_card)
qed

end
