(* ===== verification/Kever.thy ===== *)
theory Kever
  imports Baser Witnesses
begin

text \<open>
  The key event state machine of one identifier (\<^verbatim>\<open>keri/src/core/kever.ts\<close>,
  \<^verbatim>\<open>kever-decisions.ts\<close>): loading and projecting state, verification of indexed
  signatures, attachment validation (controller, prior-next and witness thresholds, local
  protection, delegation and delegated recovery) and the evaluation of inception, rotation and
  interaction events into typed decisions.

  Signature verification and digests are library code and enter as the parameter \<open>env\<close>, with
  the clock and \<open>JSON.parse\<close>. The methods of the class read and, for delegation hints and
  the cache of live machines, write the database: an operation is a function from the database
  to an error or a value with the database after it. Messages and diagnostic context are dropped.
\<close>

section \<open>The surroundings\<close>

record env =
  en_verify :: "string \<Rightarrow> byte list \<Rightarrow> byte list \<Rightarrow> byte list \<Rightarrow> bool res"
  en_digest :: "string \<Rightarrow> byte list \<Rightarrow> byte list"
  en_json :: "string \<Rightarrow> jvalue option"
  en_now :: string

type_synonym 'a act = "baser \<Rightarrow> cesr_error + ('a \<times> baser)"

definition act_ret :: "'a \<Rightarrow> 'a act" where
  "act_ret x db = Inr (x, db)"

definition act_bind :: "'a act \<Rightarrow> ('a \<Rightarrow> 'b act) \<Rightarrow> 'b act" where
  "act_bind m f db = bind_res (m db) (\<lambda>(x, db'). f x db')"

definition act_lift :: "'a res \<Rightarrow> 'a act" where
  "act_lift r db = bind_res r (\<lambda>x. Inr (x, db))"

definition act_get :: "(baser \<Rightarrow> 'a) \<Rightarrow> 'a act" where
  "act_get f db = Inr (f db, db)"

definition act_read :: "(baser \<Rightarrow> 'a res) \<Rightarrow> 'a act" where
  "act_read f db = bind_res (f db) (\<lambda>x. Inr (x, db))"

definition act_mod :: "(baser \<Rightarrow> baser) \<Rightarrow> unit act" where
  "act_mod f db = Inr ((), f db)"

definition truthy :: "string option \<Rightarrow> bool" where
  "truthy s \<longleftrightarrow> (case s of Some (_ # _) \<Rightarrow> True | _ \<Rightarrow> False)"

definition text_or :: "string \<Rightarrow> string option \<Rightarrow> string" where
  "text_or d s = (case s of Some t \<Rightarrow> t | None \<Rightarrow> d)"

definition VERIFY_SUITES :: "string list" where
  "VERIFY_SUITES = [''D'', ''B'', ''1AAB'', ''1AAA'', ''1AAJ'', ''1AAI'']"

definition verfer_verify :: "env \<Rightarrow> matter \<Rightarrow> byte list \<Rightarrow> byte list \<Rightarrow> bool res" where
  "verfer_verify en v sig ser =
     (if mt_code v \<in> set VERIFY_SUITES then en_verify en (mt_code v) (mt_raw v) sig ser
      else Inl JsError)"

definition diger_compare :: "env \<Rightarrow> byte list \<Rightarrow> string \<Rightarrow> byte list \<Rightarrow> bool res" where
  "diger_compare en ser code dig =
     (if code \<in> set DIGEST_CODES then Inr (en_digest en code ser = dig) else Inl UnknownCodeError)"

section \<open>Decisions\<close>

datatype escrow_kind =
    EscOoo | EscPartialSigs | EscPartialWigs | EscPartialDels | EscDelegables | EscDuplicitous
  | EscMisfit | EscQueryNotFound

datatype duplicate_kind = SameSaid | LateAttachments

datatype reject_kind =
    InvalidPre | InvalidIlk | InvalidSn | InvalidPriorDigest | InvalidThreshold | RejWitnessSet
  | InvalidWitnessThreshold | NontransferableViolation | EstOnlyViolation | InvalidRecovery
  | DelegationPolicyViolation | InvalidDelegation | Unsupported | Stale

record first_seen =
  fs_firner :: matter
  fs_dater :: matter

datatype cue =
    CueRemoteMemberedSig serder int
  | CueQuery "string option" "string option" "string option"
  | CueNoticeBadCloneFN serder nat matter matter
  | CueReceipt serder
  | CueNotice serder
  | CueWitness serder
  | CueKeyStateSaved key_state
  | CueKeyStateNoticed jvalue
  | CueInvalid serder
  | CueReplay string string string "byte list"
  | CueReply string key_state string string
  | CueStream serder string string "jvalue option"

record kel_event =
  ke_serder :: serder
  ke_sigers :: "indexer list"
  ke_wigers :: "indexer list"
  ke_wits :: "string list option"
  ke_first :: bool
  ke_frc :: "first_seen option"
  ke_seal :: "source_seal option"
  ke_local :: bool

record verified =
  va_sigers :: "indexer list"
  va_wigers :: "indexer list"
  va_wits :: "string list"
  va_delpre :: "string option"
  va_seal :: "source_seal option"
  va_cues :: "cue list"

record instruction =
  ei_escrow :: escrow_kind
  ei_pre :: string
  ei_said :: string
  ei_sn :: int
  ei_log :: kel_event

datatype att_decision =
    AttVerified verified
  | AttEscrow instruction "cue list"
  | AttReject reject_kind

datatype accept_kind = AkInception | AkUpdate | AkRecovery

record transition =
  tr_create :: bool
  tr_kind :: accept_kind
  tr_pre :: string
  tr_said :: string
  tr_sn :: nat
  tr_state :: key_state
  tr_log :: kel_event

datatype decision =
    KAccept transition "cue list"
  | KDuplicate duplicate_kind "kel_event option"
  | KEscrow instruction "cue list"
  | KReject reject_kind

text \<open>The arguments of an evaluation, and of attachment validation.\<close>

record kever_init =
  ki_serder :: serder
  ki_sigers :: "indexer list"
  ki_wigers :: "indexer list"
  ki_frcs :: "first_seen list"
  ki_sscs :: "source_seal list"
  ki_ssts :: "source_seal list"
  ki_local :: bool
  ki_eager :: bool
  ki_check :: bool

record att_input =
  ai_serder :: serder
  ai_sigers :: "indexer list"
  ai_wigers :: "indexer list"
  ai_verfers :: "matter list"
  ai_tholder :: "tholder option"
  ai_wits :: "string list"
  ai_toader :: matter
  ai_delpre :: "string option"
  ai_seal :: "source_seal option"
  ai_local :: bool
  ai_eager :: bool
  ai_isEst :: bool

definition hd_opt :: "'a list \<Rightarrow> 'a option" where
  "hd_opt xs = (case xs of x # _ \<Rightarrow> Some x | [] \<Rightarrow> None)"

definition normalizeSourceSeal :: "source_seal list \<Rightarrow> source_seal list \<Rightarrow> source_seal option" where
  "normalizeSourceSeal sscs ssts = (case hd_opt ssts of Some s \<Rightarrow> Some s | None \<Rightarrow> hd_opt sscs)"

definition fromAttachmentDecision :: "att_decision \<Rightarrow> decision" where
  "fromAttachmentDecision d =
     (case d of
        AttReject code \<Rightarrow> KReject code
      | AttEscrow i cues \<Rightarrow> KEscrow i cues
      | AttVerified _ \<Rightarrow> KReject Unsupported)"

section \<open>Ordinals\<close>

fun huge_loop :: "nat \<Rightarrow> nat \<Rightarrow> byte list \<Rightarrow> byte list" where
  "huge_loop 0 v raw = raw"
| "huge_loop (Suc i) v raw = huge_loop i (v div 256) (of_nat (v mod 256) # raw)"

definition encodeHugeOrdinal :: "nat \<Rightarrow> matter res" where
  "encodeHugeOrdinal num = bind_res (matter_of_raw ''0A'' (huge_loop 16 num [])) new_number"

definition numberPrimitiveFromHex :: "string \<Rightarrow> matter res" where
  "numberPrimitiveFromHex value = hydrateNumber value"

definition ordinalNumber :: "matter \<Rightarrow> nat" where
  "ordinalNumber m = js_num (number_num m)"

text \<open>\<open>Number.parseInt(s, 16)\<close> on digits; a text without digits is no stored ordinal.\<close>

definition parse_hex_int :: "string \<Rightarrow> nat res" where
  "parse_hex_int s =
     (let ds = takeWhile (\<lambda>c. digit_val c \<noteq> None) (dropWhile js_white s)
      in bind_res (of_opt JsError (read_radix 16 ds)) (\<lambda>n. Inr (js_num n)))"

definition encodeDateTimeToDater :: "string \<Rightarrow> string" where
  "encodeDateTimeToDater dts = ''1AAG'' @ map (\<lambda>c. if c = CHR '':'' then CHR ''c''
     else if c = CHR ''.'' then CHR ''d'' else if c = CHR ''+'' then CHR ''p'' else c) dts"

section \<open>The live machine\<close>

definition kever_pre :: "kever \<Rightarrow> string" where
  "kever_pre k = mt_qb64 (kv_prefixer k)"

definition kever_sn :: "kever \<Rightarrow> nat" where
  "kever_sn k = ordinalNumber (kv_sner k)"

definition kever_fn :: "kever \<Rightarrow> nat" where
  "kever_fn k = ordinalNumber (kv_fner k)"

definition kever_said :: "kever \<Rightarrow> string" where
  "kever_said k = text_or [] (sd_said (kv_serder k))"

definition kever_ndigs :: "kever \<Rightarrow> string list" where
  "kever_ndigs k = map mt_qb64 (kv_ndigers k)"

definition kever_transferable :: "kever \<Rightarrow> bool" where
  "kever_transferable k = matter_transferable (kv_prefixer k)"

definition kever_delegated :: "kever \<Rightarrow> bool" where
  "kever_delegated k \<longleftrightarrow> kv_delpre k \<noteq> None"

definition vn_at :: "nat list \<Rightarrow> nat \<Rightarrow> nat \<Rightarrow> nat" where
  "vn_at vn i d = (if i < length vn then vn ! i else d)"

definition tholder_of_value :: "env \<Rightarrow> jvalue option \<Rightarrow> tholder option res" where
  "tholder_of_value en v =
     (case v of
        None \<Rightarrow> Inr None
      | Some sith \<Rightarrow> bind_res (tholder_of_sith (en_json en) (sith_input sith)) (\<lambda>t. Inr (Some t)))"

definition loadState :: "env \<Rightarrow> key_state \<Rightarrow> serder \<Rightarrow> kever res" where
  "loadState en st serder =
     (if ks_i st = [] \<or> ks_d st = [] \<or> ks_s st = [] \<or> ks_f st = [] \<or> ks_dt st = [] \<or> ks_et st = []
      then Inl JsError
      else
        bind_res (prefixer_of (ks_i st)) (\<lambda>prefixer.
        bind_res (bind_res (hex_bigint (ks_s st)) encodeHugeOrdinal) (\<lambda>sner.
        bind_res (bind_res (hex_bigint (ks_f st)) encodeHugeOrdinal) (\<lambda>fner.
        bind_res (dater_of (encodeDateTimeToDater (ks_dt st))) (\<lambda>dater.
        bind_res (tholder_of_value en (ks_kt st)) (\<lambda>tholder.
        bind_res (tholder_of_value en (ks_nt st)) (\<lambda>ntholder.
        bind_res (map_res verfer_of (ks_k st)) (\<lambda>verfers.
        bind_res (map_res diger_of (ks_n st)) (\<lambda>ndigers.
        bind_res (numberPrimitiveFromHex (ks_bt st)) (\<lambda>toader.
        bind_res (parse_hex_int (ks_ee_s st)) (\<lambda>lastEst_s.
        Inr \<lparr>kv_version = (vn_at (ks_vn st) 0 1, vn_at (ks_vn st) 1 0), kv_prefixer = prefixer,
             kv_sner = sner, kv_fner = fner, kv_dater = dater, kv_serder = serder,
             kv_ilk = ks_et st, kv_tholder = tholder, kv_verfers = verfers, kv_ndigers = ndigers,
             kv_ntholder = ntholder, kv_toader = toader, kv_wits = ks_b st, kv_cuts = ks_ee_br st,
             kv_adds = ks_ee_ba st, kv_estOnly = (''EO'' \<in> set (ks_c st)),
             kv_doNotDelegate = (''DND'' \<in> set (ks_c st)), kv_lastEst_s = lastEst_s,
             kv_lastEst_d = ks_ee_d st,
             kv_delpre = (if ks_di st = [] then None else Some (ks_di st))\<rparr>)))))))))))"

definition kever_reload :: "env \<Rightarrow> baser \<Rightarrow> key_state \<Rightarrow> kever res" where
  "kever_reload en db st =
     (if ks_i st = [] \<or> ks_d st = [] \<or> ks_s st = [] \<or> ks_f st = [] \<or> ks_dt st = [] \<or> ks_et st = []
      then Inl JsError
      else bind_res (of_opt JsError (getEvtSerder db (ks_i st) (ks_d st))) (loadState en st))"

definition sith_or_zero :: "tholder option \<Rightarrow> jvalue" where
  "sith_or_zero t = (case t of Some t \<Rightarrow> tn_semantic (th_threshold t) | None \<Rightarrow> JStr ''0'')"

definition config_traits :: "bool \<Rightarrow> bool \<Rightarrow> string list" where
  "config_traits eo dnd = (if eo then [''EO''] else []) @ (if dnd then [''DND''] else [])"

definition kever_state :: "kever \<Rightarrow> key_state res" where
  "kever_state k =
     bind_res (dater_iso8601 (kv_dater k)) (\<lambda>dt.
     Inr \<lparr>ks_vn = [fst (kv_version k), snd (kv_version k)], ks_i = kever_pre k,
          ks_s = hex_str (kever_sn k), ks_p = text_or [] (serder_prior (kv_serder k)),
          ks_d = kever_said k, ks_f = hex_str (kever_fn k), ks_dt = dt, ks_et = kv_ilk k,
          ks_kt = Some (sith_or_zero (kv_tholder k)), ks_k = map mt_qb64 (kv_verfers k),
          ks_nt = Some (sith_or_zero (kv_ntholder k)), ks_n = kever_ndigs k,
          ks_bt = number_numh (kv_toader k), ks_b = kv_wits k,
          ks_c = config_traits (kv_estOnly k) (kv_doNotDelegate k),
          ks_ee_s = hex_str (kv_lastEst_s k), ks_ee_d = kv_lastEst_d k, ks_ee_br = kv_cuts k,
          ks_ee_ba = kv_adds k, ks_di = text_or [] (kv_delpre k)\<rparr>)"

end
