(* ===== verification/KeverChecks.thy ===== *)
theory KeverChecks
  imports Kever
begin

text \<open>
  What a key event's attachments must prove (\<^verbatim>\<open>keri/src/core/kever.ts\<close>): indexed
  signature verification, exposed prior-next digests, local protection, the lookup of
  delegating events, delegation and delegated recovery, and the attachment decision that orders
  these checks.
\<close>

section \<open>Signatures\<close>

definition nth_opt :: "'a list \<Rightarrow> int \<Rightarrow> 'a option" where
  "nth_opt xs i = (if 0 \<le> i \<and> i < int (length xs) then Some (xs ! nat i) else None)"

type_synonym bound_siger = "int \<times> indexer \<times> matter"

definition siger_rebuild :: "indexer \<Rightarrow> indexer res" where
  "siger_rebuild s = bind_res (parseIndexerInit \<lparr>xi_raw = Some (ix_raw s), xi_code = Some (ix_code s),
     xi_index = Some (ix_index s), xi_ondex = ix_ondex s, xi_qb64b = None, xi_qb64 = None,
     xi_qb2 = None\<rparr>) siger_check"

fun verify_loop ::
  "env \<Rightarrow> byte list \<Rightarrow> matter list \<Rightarrow> bound_siger list \<Rightarrow> indexer list \<Rightarrow> bound_siger list res" where
  "verify_loop en raw verfers acc [] = Inr acc"
| "verify_loop en raw verfers acc (s # ss) =
     (case nth_opt verfers (ix_index s) of
        None \<Rightarrow> verify_loop en raw verfers acc ss
      | Some verfer \<Rightarrow>
          if ix_index s \<in> fst ` set acc then verify_loop en raw verfers acc ss
          else bind_res (verfer_verify en verfer (ix_raw s) raw) (\<lambda>valid.
            if \<not> valid then verify_loop en raw verfers acc ss
            else bind_res (siger_rebuild s) (\<lambda>s'.
              verify_loop en raw verfers (acc @ [(ix_index s, s', verfer)]) ss)))"

definition verifyIndexedSignatures ::
  "env \<Rightarrow> byte list \<Rightarrow> indexer list \<Rightarrow> matter list \<Rightarrow> bound_siger list res" where
  "verifyIndexedSignatures en raw sigers verfers =
     bind_res (verify_loop en raw verfers [] sigers) (\<lambda>found. Inr (sort_key fst found))"

definition bound_sigers :: "bound_siger list \<Rightarrow> indexer list" where
  "bound_sigers bs = map (\<lambda>(_, s, _). s) bs"

definition bound_indices :: "bound_siger list \<Rightarrow> int list" where
  "bound_indices bs = map fst bs"

text \<open>\<open>exposeds\<close>: the ondices of verified signatures whose key matches the prior-next
  digest there. The comparison digests the text of the key.\<close>

fun exposeds :: "env \<Rightarrow> kever \<Rightarrow> bound_siger list \<Rightarrow> int list res" where
  "exposeds en k [] = Inr []"
| "exposeds en k ((_, s, verfer) # bs) =
     (case ix_ondex s of
        None \<Rightarrow> exposeds en k bs
      | Some ondex \<Rightarrow>
          (case nth_opt (kv_ndigers k) ondex of
             None \<Rightarrow> exposeds en k bs
           | Some diger \<Rightarrow>
               bind_res (diger_compare en (matter_qb64b verfer) (mt_code diger) (mt_raw diger)) (\<lambda>eq.
               bind_res (exposeds en k bs) (\<lambda>rest. Inr (if eq then ondex # rest else rest)))))"

definition hasValidThresholdMaterial :: "tholder option \<Rightarrow> nat \<Rightarrow> bool" where
  "hasValidThresholdMaterial t count =
     (case t of Some t \<Rightarrow> tn_size (th_threshold t) \<le> int count | None \<Rightarrow> False)"

section \<open>Local protection\<close>

definition locallyOwned :: "baser \<Rightarrow> kever \<Rightarrow> bool" where
  "locallyOwned db k \<longleftrightarrow> kever_pre k \<noteq> [] \<and>
     (case getHab db (kever_pre k) of
        Some h \<Rightarrow> \<not> truthy (hb_mid h) \<and> kever_pre k \<notin> set (db_groups db)
      | None \<Rightarrow> False)"

definition locallyDelegated :: "baser \<Rightarrow> string option \<Rightarrow> bool" where
  "locallyDelegated db pre \<longleftrightarrow> (case pre of Some p \<Rightarrow> p \<noteq> [] \<and> getHab db p \<noteq> None | None \<Rightarrow> False)"

definition locallyMembered :: "baser \<Rightarrow> kever \<Rightarrow> bool" where
  "locallyMembered db k \<longleftrightarrow> kever_pre k \<in> set (db_groups db)"

definition locallyWitnessed :: "baser \<Rightarrow> string list \<Rightarrow> bool" where
  "locallyWitnessed db wits \<longleftrightarrow> list_ex (\<lambda>wit. getHab db wit \<noteq> None) wits"

definition getKever :: "env \<Rightarrow> string \<Rightarrow> kever option act" where
  "getKever en pre db =
     (case db_kevers db pre of
        Some k \<Rightarrow> Inr (Some k, db)
      | None \<Rightarrow>
          (case getState db pre of
             None \<Rightarrow> Inr (None, db)
           | Some st \<Rightarrow> bind_res (kever_reload en db st) (\<lambda>k.
               Inr (Some k, db\<lparr>db_kevers := (db_kevers db)(pre := Some k)\<rparr>))))"

fun local_keys :: "env \<Rightarrow> string list \<Rightarrow> string list act" where
  "local_keys en [] = act_ret []"
| "local_keys en (pre # pres) =
     act_bind (getKever en pre) (\<lambda>k.
     act_bind (local_keys en pres) (\<lambda>rest.
     act_ret ((case k of Some k \<Rightarrow> map mt_qb64 (kv_verfers k) | None \<Rightarrow> []) @ rest)))"

definition locallyContributedIndices :: "env \<Rightarrow> matter list \<Rightarrow> int list act" where
  "locallyContributedIndices en verfers db =
     act_bind (local_keys en (db_prefixes db)) (\<lambda>keys.
       act_ret (map int (filter (\<lambda>i. mt_qb64 (verfers ! i) \<in> set keys) [0..<length verfers]))) db"

section \<open>Delegating events\<close>

record delegating =
  dl_serder :: serder
  dl_seal :: source_seal
  dl_index :: nat

definition dg_of :: "serder \<Rightarrow> dg option" where
  "dg_of s = (if truthy (serder_pre s) \<and> truthy (sd_said s)
     then Some (text_or [] (serder_pre s), text_or [] (sd_said s)) else None)"

definition seal_matches :: "serder \<Rightarrow> matter \<times> matter \<times> matter \<Rightarrow> bool" where
  "seal_matches s sl = (case sl of (i, n, d) \<Rightarrow>
     Some (mt_qb64 i) = serder_pre s \<and> Some (number_numh n) = serder_snh s \<and> Some (mt_qb64 d) = sd_said s)"

fun find_index :: "('a \<Rightarrow> bool) \<Rightarrow> 'a list \<Rightarrow> nat option" where
  "find_index p [] = None"
| "find_index p (x # xs) = (if p x then Some 0 else map_option Suc (find_index p xs))"

definition eventAnchorSealIndex :: "serder \<Rightarrow> serder \<Rightarrow> nat option res" where
  "eventAnchorSealIndex candidate s =
     bind_res (serder_eventSeals candidate) (\<lambda>seals. Inr (find_index (seal_matches s) seals))"

definition delegatingLookup :: "serder option \<Rightarrow> serder \<Rightarrow> delegating option res" where
  "delegatingLookup candidate s =
     (case candidate of
        None \<Rightarrow> Inr None
      | Some c \<Rightarrow>
          bind_res (serder_sner c) (\<lambda>sner.
          (case sner of
             Some n \<Rightarrow>
               if truthy (sd_said c) then
                 bind_res (eventAnchorSealIndex c s) (\<lambda>ix.
                   (case ix of
                      None \<Rightarrow> Inr None
                    | Some i \<Rightarrow> bind_res (diger_of (text_or [] (sd_said c))) (\<lambda>d.
                        Inr (Some \<lparr>dl_serder = c, dl_seal = (n, d), dl_index = i\<rparr>))))
               else Inr None
           | None \<Rightarrow> Inr None)))"

definition lookupAcceptedDelegatingEvent ::
  "string \<Rightarrow> source_seal \<Rightarrow> serder \<Rightarrow> baser \<Rightarrow> delegating option res" where
  "lookupAcceptedDelegatingEvent delpre seal s db =
     (case getEvtSerder db delpre (mt_qb64 (snd seal)) of
        None \<Rightarrow> Inr None
      | Some c \<Rightarrow>
          if \<not> truthy (sd_said c) then Inr None
          else bind_res (serder_sn c) (\<lambda>sn.
            (case sn of
               None \<Rightarrow> Inr None
             | Some n \<Rightarrow>
                 if db_fons db (delpre, text_or [] (sd_said c)) \<noteq> None
                    \<or> kels_getLast db delpre (int n) = sd_said c
                 then delegatingLookup (Some c) s else Inr None)))"

definition lookupAuthoritativeDelegatingEvent ::
  "string \<Rightarrow> source_seal \<Rightarrow> serder \<Rightarrow> baser \<Rightarrow> delegating option res" where
  "lookupAuthoritativeDelegatingEvent delpre seal s db =
     (case kels_getLast db delpre (int (ordinalNumber (fst seal))) of
        Some (c # cs) \<Rightarrow> delegatingLookup (getEvtSerder db delpre (c # cs)) s
      | _ \<Rightarrow> Inr None)"

fun search_original ::
  "baser \<Rightarrow> string \<Rightarrow> serder \<Rightarrow> (delegating \<times> nat) option \<Rightarrow> (nat \<times> string) list
    \<Rightarrow> (delegating \<times> nat) option res" where
  "search_original db delpre s best [] = Inr best"
| "search_original db delpre s best ((_, said) # items) =
     (case db_fons db (delpre, said) of
        None \<Rightarrow> search_original db delpre s best items
      | Some fn \<Rightarrow>
          bind_res (delegatingLookup (getEvtSerder db delpre said) s) (\<lambda>lookup.
            (case lookup of
               None \<Rightarrow> search_original db delpre s best items
             | Some l \<Rightarrow>
                 search_original db delpre s
                   (case best of
                      None \<Rightarrow> Some (l, number_num fn)
                    | Some (_, bestFn) \<Rightarrow> if bestFn < number_num fn then Some (l, number_num fn) else best)
                   items)))"

fun search_current ::
  "baser \<Rightarrow> string \<Rightarrow> serder \<Rightarrow> delegating option \<Rightarrow> (nat \<times> string) list \<Rightarrow> delegating option res" where
  "search_current db delpre s best [] = Inr best"
| "search_current db delpre s best ((_, said) # items) =
     bind_res (delegatingLookup (getEvtSerder db delpre said) s) (\<lambda>lookup.
       search_current db delpre s (case lookup of Some l \<Rightarrow> Some l | None \<Rightarrow> best) items)"

definition searchDelegatingEvent :: "bool \<Rightarrow> string \<Rightarrow> serder \<Rightarrow> baser \<Rightarrow> delegating option res" where
  "searchDelegatingEvent original delpre s db =
     (if original then
        bind_res (search_original db delpre s None (on_items (db_kels db delpre))) (\<lambda>b.
          Inr (map_option fst b))
      else search_current db delpre s None (getKelItemIter db delpre))"

definition acceptedSourceSealForEvent :: "serder \<Rightarrow> baser \<Rightarrow> source_seal option" where
  "acceptedSourceSealForEvent s db = (case dg_of s of Some k \<Rightarrow> db_aess db k | None \<Rightarrow> None)"

definition dropAcceptedSourceSeal :: "serder \<Rightarrow> baser \<Rightarrow> baser" where
  "dropAcceptedSourceSeal s db =
     (case dg_of s of Some k \<Rightarrow> db\<lparr>db_aess := (db_aess db)(k := None)\<rparr> | None \<Rightarrow> db)"

definition repairAcceptedSourceSeal :: "serder \<Rightarrow> delegating \<Rightarrow> baser \<Rightarrow> baser" where
  "repairAcceptedSourceSeal s lookup db =
     (case dg_of s of
        Some k \<Rightarrow> if db_fons db k = None then db
                  else db\<lparr>db_aess := map_pin k (dl_seal lookup) (db_aess db)\<rparr>
      | None \<Rightarrow> db)"

definition search_repair :: "bool \<Rightarrow> string \<Rightarrow> serder \<Rightarrow> delegating option act" where
  "search_repair original delpre s =
     act_bind (act_read (searchDelegatingEvent original delpre s)) (\<lambda>found.
       (case found of
          Some l \<Rightarrow> act_bind (act_mod (repairAcceptedSourceSeal s l)) (\<lambda>_. act_ret (Some l))
        | None \<Rightarrow> act_ret None))"

definition fetch_original :: "string \<Rightarrow> serder \<Rightarrow> bool \<Rightarrow> delegating option act" where
  "fetch_original delpre s eager =
     act_bind (act_get (acceptedSourceSealForEvent s)) (\<lambda>stored.
     act_bind
       (case stored of
          Some seal \<Rightarrow>
            act_bind (act_read (lookupAcceptedDelegatingEvent delpre seal s)) (\<lambda>exact.
              (case exact of
                 Some l \<Rightarrow> act_ret (Some l)
               | None \<Rightarrow> act_bind (act_mod (dropAcceptedSourceSeal s)) (\<lambda>_. act_ret None)))
        | None \<Rightarrow> act_ret None) (\<lambda>exact.
       (case exact of
          Some l \<Rightarrow> act_ret (Some l)
        | None \<Rightarrow> if \<not> eager then act_ret None else search_repair True delpre s)))"

definition fetch_candidate ::
  "string \<Rightarrow> serder \<Rightarrow> source_seal option \<Rightarrow> bool \<Rightarrow> delegating option act" where
  "fetch_candidate delpre s hint eager =
     act_bind
       (case hint of
          Some seal \<Rightarrow> act_read (lookupAuthoritativeDelegatingEvent delpre seal s)
        | None \<Rightarrow> act_ret None) (\<lambda>hinted.
       (case hinted of
          Some l \<Rightarrow> act_ret (Some l)
        | None \<Rightarrow>
            act_bind (act_get (acceptedSourceSealForEvent s)) (\<lambda>stored.
            act_bind
              (case stored of
                 Some seal \<Rightarrow> act_read (lookupAuthoritativeDelegatingEvent delpre seal s)
               | None \<Rightarrow> act_ret None) (\<lambda>auth.
              (case auth of
                 Some l \<Rightarrow> act_bind (act_mod (repairAcceptedSourceSeal s l)) (\<lambda>_. act_ret (Some l))
               | None \<Rightarrow> if \<not> eager then act_ret None else search_repair False delpre s)))))"

definition fetchDelegatingEvent ::
  "string \<Rightarrow> serder \<Rightarrow> source_seal option \<Rightarrow> bool \<Rightarrow> bool \<Rightarrow> delegating option act" where
  "fetchDelegatingEvent delpre s hint original eager =
     (if original then fetch_original delpre s eager else fetch_candidate delpre s hint eager)"

definition delegatorPreForEvent :: "serder \<Rightarrow> baser \<Rightarrow> string option" where
  "delegatorPreForEvent s db =
     (if \<not> truthy (serder_pre s) then None
      else if sd_ilk s = Some ''dip'' \<and> truthy (serder_delpre s) then serder_delpre s
      else (case getState db (text_or [] (serder_pre s)) of
              Some st \<Rightarrow> if ks_di st = [] then None else Some (ks_di st)
            | None \<Rightarrow> None))"

end
