(* ===== verification/KeverAttach.thy ===== *)
theory KeverAttach
  imports KeverChecks
begin

text \<open>
  The attachment decision of \<^verbatim>\<open>keri/src/core/kever.ts\<close>: superseding delegated recovery,
  delegation approval, and \<open>validateAttachments\<close>, which orders every check an event has to
  pass before its state is accepted. The recovery comparison climbs the delegation chain in a
  loop that the code ends by remembering the pairs of delegating events it compared; here the
  loop has fuel as well.
\<close>

section \<open>Decision builders\<close>

definition attachmentEscrow :: "kever \<Rightarrow> att_input \<Rightarrow> escrow_kind \<Rightarrow> cue list \<Rightarrow> att_decision act" where
  "attachmentEscrow k inp esc cues =
     act_bind (act_lift (serder_sn (ai_serder inp))) (\<lambda>sn.
     act_ret (AttEscrow
       \<lparr>ei_escrow = esc, ei_pre = text_or (kever_pre k) (serder_pre (ai_serder inp)),
        ei_said = text_or [] (sd_said (ai_serder inp)),
        ei_sn = (case sn of Some n \<Rightarrow> int n | None \<Rightarrow> - 1),
        ei_log = \<lparr>ke_serder = ai_serder inp, ke_sigers = ai_sigers inp, ke_wigers = ai_wigers inp,
                  ke_wits = Some (ai_wits inp), ke_first = False, ke_frc = None,
                  ke_seal = ai_seal inp, ke_local = ai_local inp\<rparr>\<rparr> cues))"

definition att_reject :: "reject_kind \<Rightarrow> att_decision act" where
  "att_reject code = act_ret (AttReject code)"

definition verified_delegation :: "att_input \<Rightarrow> string option \<Rightarrow> source_seal option \<Rightarrow> att_decision" where
  "verified_delegation inp delpre seal =
     AttVerified \<lparr>va_sigers = [], va_wigers = [], va_wits = ai_wits inp, va_delpre = delpre,
       va_seal = seal, va_cues = []\<rparr>"

section \<open>Delegated recovery\<close>

definition cycle_key :: "string \<Rightarrow> delegating \<Rightarrow> delegating \<Rightarrow> string" where
  "cycle_key delpre cand orig = delpre @ '':'' @ text_or [] (sd_said (dl_serder cand)) @ '':''
     @ text_or [] (sd_said (dl_serder orig))"

fun recovery_loop ::
  "nat \<Rightarrow> kever \<Rightarrow> att_input \<Rightarrow> string list \<Rightarrow> string \<Rightarrow> delegating \<Rightarrow> delegating
    \<Rightarrow> att_decision option act" where
  "recovery_loop fuel k inp visited delpre cand orig =
     (case fuel of
        0 \<Rightarrow> act_lift (Inl JsError)
      | Suc n \<Rightarrow>
     act_bind (act_lift (serder_sn (dl_serder cand))) (\<lambda>candSn.
     act_bind (act_lift (serder_sn (dl_serder orig))) (\<lambda>origSn.
     (case (candSn, origSn) of
        (Some cs, Some os) \<Rightarrow>
          if cycle_key delpre cand orig \<in> set visited
          then act_ret (Some (AttReject InvalidDelegation))
          else if os < cs then act_ret None
          else if cs = os \<and> sd_ilk (dl_serder cand) \<in> {Some ''rot'', Some ''drt''}
                  \<and> sd_ilk (dl_serder orig) = Some ''ixn'' then act_ret None
          else if sd_said (dl_serder cand) = sd_said (dl_serder orig) then
            act_ret (if dl_index orig < dl_index cand then None else Some (AttReject InvalidDelegation))
          else
            act_bind (act_get (delegatorPreForEvent (dl_serder cand))) (\<lambda>up.
            act_bind (act_get (delegatorPreForEvent (dl_serder orig))) (\<lambda>origUp.
            (case (up, origUp) of
               (Some u, Some ou) \<Rightarrow>
                 if u \<noteq> ou then act_ret (Some (AttReject InvalidDelegation))
                 else
                   act_bind (fetchDelegatingEvent u (dl_serder cand) None False (ai_eager inp)) (\<lambda>nc.
                   (case nc of
                      None \<Rightarrow>
                        act_bind (attachmentEscrow k inp EscPartialDels [CueQuery (Some u) None None])
                          (\<lambda>d. act_ret (Some d))
                    | Some cand' \<Rightarrow>
                        act_bind (fetchDelegatingEvent u (dl_serder orig) None True (ai_eager inp)) (\<lambda>no.
                        (case no of
                           None \<Rightarrow>
                             act_bind (attachmentEscrow k inp EscPartialDels
                               [CueQuery (Some u) None None]) (\<lambda>d. act_ret (Some d))
                         | Some orig' \<Rightarrow>
                             recovery_loop n k inp (cycle_key delpre cand orig # visited) u cand' orig'))))
             | _ \<Rightarrow> act_ret (Some (AttReject InvalidDelegation)))))
      | _ \<Rightarrow> act_ret (Some (AttReject InvalidDelegation))))))"

declare recovery_loop.simps [simp del]

definition latestAcceptedDelegatedEventAtSn :: "kever \<Rightarrow> nat \<Rightarrow> baser \<Rightarrow> serder option" where
  "latestAcceptedDelegatedEventAtSn k sn db =
     (if kv_lastEst_s k \<noteq> sn then None else getEvtSerder db (kever_pre k) (kv_lastEst_d k))"

section \<open>Delegation\<close>

definition delegated_ilk :: "serder \<Rightarrow> bool" where
  "delegated_ilk s \<longleftrightarrow> sd_ilk s = Some ''dip'' \<or> sd_ilk s = Some ''drt''"

text \<open>Whether the event is in order or directly supersedes an interaction, so that no recovery
  comparison is needed.\<close>

definition no_recovery :: "kever \<Rightarrow> serder \<Rightarrow> nat option \<Rightarrow> bool" where
  "no_recovery k s sn \<longleftrightarrow> sd_ilk s \<noteq> Some ''drt'' \<or>
     (case sn of None \<Rightarrow> True
      | Some n \<Rightarrow> n = js_num (kever_sn k + 1) \<or> (n = kever_sn k \<and> kv_ilk k = ''ixn''))"

definition seal_approves :: "att_input \<Rightarrow> string \<Rightarrow> baser \<Rightarrow> bool res" where
  "seal_approves inp delpre db =
     (case ai_seal inp of
        None \<Rightarrow> Inr False
      | Some seal \<Rightarrow> bind_res (lookupAcceptedDelegatingEvent delpre seal (ai_serder inp) db)
          (\<lambda>l. Inr (l \<noteq> None)))"

definition delegation_recovery ::
  "nat \<Rightarrow> kever \<Rightarrow> att_input \<Rightarrow> string \<Rightarrow> nat \<Rightarrow> delegating \<Rightarrow> att_decision act" where
  "delegation_recovery fuel k inp delpre sn boss =
     act_bind (act_get (latestAcceptedDelegatedEventAtSn k sn)) (\<lambda>original.
     (case original of
        None \<Rightarrow> att_reject InvalidDelegation
      | Some o' \<Rightarrow>
          act_bind (fetchDelegatingEvent delpre o' None True (ai_eager inp)) (\<lambda>ob.
          (case ob of
             None \<Rightarrow> attachmentEscrow k inp EscPartialDels [CueQuery (Some delpre) None None]
           | Some origBoss \<Rightarrow>
               act_bind (recovery_loop fuel k inp [] delpre boss origBoss) (\<lambda>d.
               (case d of
                  Some d' \<Rightarrow> act_ret d'
                | None \<Rightarrow> act_ret (verified_delegation inp (Some delpre) (Some (dl_seal boss)))))))))"

definition validateDelegation :: "nat \<Rightarrow> env \<Rightarrow> kever \<Rightarrow> att_input \<Rightarrow> att_decision act" where
  "validateDelegation fuel en k inp =
     (case ai_delpre inp of
        None \<Rightarrow> act_ret (verified_delegation inp None None)
      | Some [] \<Rightarrow> act_ret (verified_delegation inp None None)
      | Some delpre \<Rightarrow>
          act_bind (act_read (seal_approves inp delpre)) (\<lambda>approves.
          act_bind (act_get (\<lambda>db. db)) (\<lambda>db.
          if delegated_ilk (ai_serder inp) \<and> locallyDelegated db (Some delpre) \<and> \<not> locallyOwned db k
             \<and> \<not> approves
          then attachmentEscrow k inp EscDelegables []
          else if locallyOwned db k \<or> locallyMembered db k \<or> locallyWitnessed db (ai_wits inp)
          then act_ret (verified_delegation inp (Some delpre) (ai_seal inp))
          else
            act_bind (getKever en delpre) (\<lambda>delegator.
            (case delegator of
               None \<Rightarrow> attachmentEscrow k inp EscPartialDels [CueQuery (Some delpre) None None]
             | Some dk \<Rightarrow>
                 if kv_doNotDelegate dk then att_reject DelegationPolicyViolation
                 else
                   act_bind (fetchDelegatingEvent delpre (ai_serder inp) (ai_seal inp) False
                     (ai_eager inp)) (\<lambda>boss.
                   (case boss of
                      None \<Rightarrow> attachmentEscrow k inp EscPartialDels
                        [CueQuery (Some delpre) (map_option (\<lambda>sl. number_numh (fst sl)) (ai_seal inp))
                          (map_option (\<lambda>sl. mt_qb64 (snd sl)) (ai_seal inp))]
                    | Some b \<Rightarrow>
                        act_bind (act_lift (serder_sn (ai_serder inp))) (\<lambda>sn.
                        if no_recovery k (ai_serder inp) sn
                        then act_ret (verified_delegation inp (Some delpre) (Some (dl_seal b)))
                        else (case sn of
                          Some n \<Rightarrow> delegation_recovery fuel k inp delpre n b
                        | None \<Rightarrow> act_ret (verified_delegation inp (Some delpre) (Some (dl_seal b))))))))))))"

section \<open>The attachment decision\<close>

text \<open>Signatures of local members on a remote message are stripped, each with a cue.\<close>

definition strip_members ::
  "env \<Rightarrow> kever \<Rightarrow> att_input \<Rightarrow> (indexer list \<times> cue list) act" where
  "strip_members en k inp =
     act_bind (act_get (\<lambda>db. \<not> ai_local inp \<and> locallyMembered db k)) (\<lambda>strip.
     if strip then
       act_bind (locallyContributedIndices en (ai_verfers inp)) (\<lambda>indices.
       act_ret (filter (\<lambda>s. ix_index s \<notin> set indices) (ai_sigers inp),
         map (\<lambda>s. CueRemoteMemberedSig (ai_serder inp) (ix_index s))
           (filter (\<lambda>s. ix_index s \<in> set indices) (ai_sigers inp))))
     else act_ret (ai_sigers inp, []))"

definition misfit :: "baser \<Rightarrow> kever \<Rightarrow> att_input \<Rightarrow> bool" where
  "misfit db k inp \<longleftrightarrow>
     (let candidate = delegated_ilk (ai_serder inp) \<and> locallyDelegated db (ai_delpre inp)
            \<and> \<not> locallyOwned db k
      in \<not> ai_local inp \<and> (locallyOwned db k \<or> locallyWitnessed db (ai_wits inp)
            \<or> (locallyDelegated db (ai_delpre inp) \<and> \<not> candidate)))"

definition controller_satisfied :: "tholder option \<Rightarrow> int list \<Rightarrow> bool res" where
  "controller_satisfied t indices =
     (case t of None \<Rightarrow> Inr False | Some t \<Rightarrow> tholder_satisfy t indices)"

definition prior_next_satisfied :: "env \<Rightarrow> kever \<Rightarrow> att_input \<Rightarrow> bound_siger list \<Rightarrow> bool res" where
  "prior_next_satisfied en k inp found =
     (case kv_ntholder k of
        Some nt \<Rightarrow>
          if ai_isEst inp \<and> (sd_ilk (ai_serder inp) = Some ''rot'' \<or> sd_ilk (ai_serder inp) = Some ''drt'')
          then bind_res (exposeds en k found) (tholder_satisfy nt)
          else Inr True
      | None \<Rightarrow> Inr True)"

datatype witness_verdict = WitOk | WitReject | WitPartial

definition witness_verdict :: "baser \<Rightarrow> kever \<Rightarrow> att_input \<Rightarrow> nat \<Rightarrow> witness_verdict" where
  "witness_verdict db k inp verifiedWigs =
     (let toad = number_num (ai_toader inp)
      in if ai_wits inp = [] then (if toad \<noteq> 0 then WitReject else WitOk)
         else if \<not> (locallyOwned db k \<or> locallyMembered db k \<or> locallyWitnessed db (ai_wits inp)) then
           (if toad < 1 \<or> length (ai_wits inp) < toad then WitReject
            else if verifiedWigs < toad then WitPartial else WitOk)
         else WitOk)"

definition witness_query :: "att_input \<Rightarrow> cue" where
  "witness_query inp =
     CueQuery (serder_pre (ai_serder inp)) (serder_snh (ai_serder inp)) None"

definition merge_delegation ::
  "att_input \<Rightarrow> bound_siger list \<Rightarrow> bound_siger list \<Rightarrow> cue list \<Rightarrow> att_decision \<Rightarrow> att_decision" where
  "merge_delegation inp found wigs cues d =
     (case d of
        AttVerified v \<Rightarrow> AttVerified
          \<lparr>va_sigers = bound_sigers found, va_wigers = bound_sigers wigs, va_wits = ai_wits inp,
           va_delpre = ai_delpre inp,
           va_seal = (case va_seal v of Some s \<Rightarrow> Some s | None \<Rightarrow> ai_seal inp),
           va_cues = cues @ va_cues v\<rparr>
      | AttEscrow i ds \<Rightarrow> AttEscrow i (ds @ cues)
      | AttReject c \<Rightarrow> AttReject c)"

definition validate_witnesses ::
  "nat \<Rightarrow> env \<Rightarrow> kever \<Rightarrow> att_input \<Rightarrow> bound_siger list \<Rightarrow> cue list \<Rightarrow> att_decision act" where
  "validate_witnesses fuel en k inp found cues =
     act_bind (act_lift (map_res verfer_of (ai_wits inp))) (\<lambda>werfers.
     act_bind (act_lift (verifyIndexedSignatures en (sd_raw (ai_serder inp)) (ai_wigers inp) werfers))
       (\<lambda>wigs.
     act_bind (act_get (\<lambda>db. witness_verdict db k inp (length wigs))) (\<lambda>verdict.
     (case verdict of
        WitReject \<Rightarrow> att_reject InvalidWitnessThreshold
      | WitPartial \<Rightarrow> attachmentEscrow k inp EscPartialWigs (cues @ [witness_query inp])
      | WitOk \<Rightarrow> act_bind (validateDelegation fuel en k inp) (\<lambda>d.
          act_ret (merge_delegation inp found wigs cues d))))))"

definition validateAttachments :: "nat \<Rightarrow> env \<Rightarrow> kever \<Rightarrow> att_input \<Rightarrow> att_decision act" where
  "validateAttachments fuel en k inp =
     (if \<not> hasValidThresholdMaterial (ai_tholder inp) (length (ai_verfers inp))
      then att_reject InvalidThreshold
      else
        act_bind (strip_members en k inp) (\<lambda>(sigers, cues).
        act_bind (act_lift (verifyIndexedSignatures en (sd_raw (ai_serder inp)) sigers (ai_verfers inp)))
          (\<lambda>found.
        if found = [] then att_reject InvalidThreshold
        else
          act_bind (act_get (\<lambda>db. misfit db k inp)) (\<lambda>protect.
          if protect then attachmentEscrow k inp EscMisfit cues
          else
            act_bind (act_lift (controller_satisfied (ai_tholder inp) (bound_indices found))) (\<lambda>ok.
            if \<not> ok then attachmentEscrow k inp EscPartialSigs cues
            else
              act_bind (act_lift (prior_next_satisfied en k inp found)) (\<lambda>ok'.
              if \<not> ok' then attachmentEscrow k inp EscPartialSigs cues
              else validate_witnesses fuel en k inp found cues))))))"

end
