(* ===== verification/KeverEval.thy ===== *)
theory KeverEval
  imports KeverAttach
begin

text \<open>
  The evaluation of inception, rotation and interaction events into typed decisions, and the
  idempotent logging of accepted material (\<^verbatim>\<open>keri/src/core/kever.ts\<close>). An
  evaluation returns the decision together with the database it leaves: looking up a delegator
  may fill the cache of live machines, and looking up a delegating event may repair the stored
  source seal.
\<close>

section \<open>Event material\<close>

definition toader_of :: "serder \<Rightarrow> matter res" where
  "toader_of s = bind_res (serder_bner s) (\<lambda>b.
     case b of Some m \<Rightarrow> Inr m | None \<Rightarrow> number_of_nat 0)"

definition event_traits :: "serder \<Rightarrow> string list" where
  "event_traits s = config_traits (''EO'' \<in> set (serder_traits s)) (''DND'' \<in> set (serder_traits s))"

text \<open>The witness threshold lies between one and the number of witnesses, or is zero without
  witnesses.\<close>

definition toad_fits :: "matter \<Rightarrow> string list \<Rightarrow> bool" where
  "toad_fits toader wits \<longleftrightarrow>
     (if wits = [] then number_num toader = 0
      else 1 \<le> number_num toader \<and> number_num toader \<le> length wits)"

definition first_frc :: "kever_init \<Rightarrow> first_seen option" where
  "first_frc init = hd_opt (ki_frcs init)"

section \<open>Inception\<close>

definition verify_incept_body :: "env \<Rightarrow> serder \<Rightarrow> matter \<Rightarrow> reject_kind option res" where
  "verify_incept_body en s prefixer =
     bind_res (serder_verfers s) (\<lambda>verfers.
     let transferable = matter_transferable prefixer
     in if \<not> hasValidThresholdMaterial (serder_tholder (en_json en) s) (length verfers)
        then Inr (Some InvalidThreshold)
        else if \<not> transferable \<and> serder_ndigs s \<noteq> [] then Inr (Some NontransferableViolation)
        else if \<not> transferable \<and> serder_backs s \<noteq> [] then Inr (Some NontransferableViolation)
        else if \<not> hasUniqueEntries (serder_backs s) then Inr (Some RejWitnessSet)
        else
          bind_res (toader_of s) (\<lambda>toader.
          if \<not> toad_fits toader (serder_backs s) then Inr (Some InvalidWitnessThreshold)
          else if \<not> transferable \<and> serder_seals s \<noteq> [] then Inr (Some NontransferableViolation)
          else Inr None))"

definition verifyIncept :: "env \<Rightarrow> serder \<Rightarrow> reject_kind option res" where
  "verifyIncept en s =
     bind_res (serder_sn s) (\<lambda>sn.
     if \<not> truthy (serder_pre s) then Inr (Some InvalidPre)
     else
       (case prefixer_of (text_or [] (serder_pre s)) of
          Inl _ \<Rightarrow> Inr (Some InvalidPre)
        | Inr prefixer \<Rightarrow>
            if \<not> truthy (sd_said s) \<or> sn = None then Inr (Some InvalidSn)
            else if sd_ilk s \<noteq> Some ''icp'' \<and> sd_ilk s \<noteq> Some ''dip'' then Inr (Some InvalidIlk)
            else if sn \<noteq> Some 0 then Inr (Some InvalidSn)
            else verify_incept_body en s prefixer))"

definition initialKeyState ::
  "env \<Rightarrow> serder \<Rightarrow> string \<Rightarrow> string \<Rightarrow> matter \<Rightarrow> first_seen option \<Rightarrow> key_state res" where
  "initialKeyState en s pre said toader frc =
     bind_res (case frc of None \<Rightarrow> Inr (en_now en) | Some c \<Rightarrow> dater_iso8601 (fs_dater c)) (\<lambda>dt.
     bind_res (serder_verfers s) (\<lambda>verfers.
     bind_res (serder_ndigers s) (\<lambda>ndigers.
     Inr \<lparr>ks_vn = [vn_major (sd_pvrsn s), vn_minor (sd_pvrsn s)], ks_i = pre, ks_s = ''0'', ks_p = [],
          ks_d = said, ks_f = (case frc of Some c \<Rightarrow> number_numh (fs_firner c) | None \<Rightarrow> ''0''),
          ks_dt = dt, ks_et = text_or ''icp'' (sd_ilk s),
          ks_kt = Some (sith_or_zero (serder_tholder (en_json en) s)), ks_k = map mt_qb64 verfers,
          ks_nt = Some (sith_or_zero (serder_ntholder (en_json en) s)), ks_n = map mt_qb64 ndigers,
          ks_bt = number_numh toader, ks_b = serder_backs s, ks_c = event_traits s,
          ks_ee_s = ''0'', ks_ee_d = said, ks_ee_br = [], ks_ee_ba = [],
          ks_di = text_or [] (serder_delpre s)\<rparr>)))"

definition accept_inception ::
  "kever_init \<Rightarrow> key_state \<Rightarrow> verified \<Rightarrow> decision" where
  "accept_inception init st v =
     (let s = ki_serder init;
          provisional = normalizeSourceSeal (ki_sscs init) (ki_ssts init)
      in KAccept
        \<lparr>tr_create = True, tr_kind = AkInception, tr_pre = text_or [] (serder_pre s),
         tr_said = text_or [] (sd_said s), tr_sn = 0, tr_state = st,
         tr_log = \<lparr>ke_serder = s, ke_sigers = va_sigers v, ke_wigers = va_wigers v,
                   ke_wits = Some (va_wits v), ke_first = \<not> ki_check init, ke_frc = first_frc init,
                   ke_seal = (case va_seal v of Some x \<Rightarrow> Some x | None \<Rightarrow> provisional),
                   ke_local = ki_local init\<rparr>\<rparr> (va_cues v))"

definition inception_input ::
  "env \<Rightarrow> kever_init \<Rightarrow> matter list \<Rightarrow> matter \<Rightarrow> att_input" where
  "inception_input en init verfers toader =
     (let s = ki_serder init
      in \<lparr>ai_serder = s, ai_sigers = ki_sigers init, ai_wigers = ki_wigers init,
          ai_verfers = verfers, ai_tholder = serder_tholder (en_json en) s, ai_wits = serder_backs s,
          ai_toader = toader, ai_delpre = serder_delpre s,
          ai_seal = normalizeSourceSeal (ki_sscs init) (ki_ssts init),
          ai_local = ki_local init, ai_eager = ki_eager init, ai_isEst = True\<rparr>)"

definition evaluateInception :: "nat \<Rightarrow> env \<Rightarrow> kever_init \<Rightarrow> decision act" where
  "evaluateInception fuel en init =
     (let s = ki_serder init
      in act_bind (act_lift (verifyIncept en s)) (\<lambda>verification.
         (case verification of
            Some code \<Rightarrow> act_ret (KReject code)
          | None \<Rightarrow>
              act_bind (act_lift (toader_of s)) (\<lambda>toader.
              act_bind (act_lift (initialKeyState en s (text_or [] (serder_pre s))
                (text_or [] (sd_said s)) toader (first_frc init))) (\<lambda>st.
              act_bind (act_lift (loadState en st s)) (\<lambda>scratch.
              act_bind (act_lift (serder_verfers s)) (\<lambda>verfers.
              act_bind (validateAttachments fuel en scratch (inception_input en init verfers toader))
                (\<lambda>d. (case d of
                   AttVerified v \<Rightarrow> act_ret (accept_inception init st v)
                 | _ \<Rightarrow> act_ret (fromAttachmentDecision d))))))))))"

section \<open>Updates\<close>

definition makeEscrowDecision :: "kever \<Rightarrow> escrow_kind \<Rightarrow> kever_init \<Rightarrow> decision res" where
  "makeEscrowDecision k esc init =
     bind_res (serder_sn (ki_serder init)) (\<lambda>sn.
     Inr (KEscrow
       \<lparr>ei_escrow = esc, ei_pre = text_or (kever_pre k) (serder_pre (ki_serder init)),
        ei_said = text_or [] (sd_said (ki_serder init)),
        ei_sn = (case sn of Some n \<Rightarrow> int n | None \<Rightarrow> - 1),
        ei_log = \<lparr>ke_serder = ki_serder init, ke_sigers = ki_sigers init,
                  ke_wigers = ki_wigers init, ke_wits = None, ke_first = False,
                  ke_frc = first_frc init, ke_seal = normalizeSourceSeal (ki_sscs init) (ki_ssts init),
                  ke_local = ki_local init\<rparr>\<rparr> []))"

record derived_backs =
  bk_wits :: "string list"
  bk_cuts :: "string list"
  bk_adds :: "string list"
  bk_toader :: matter

definition deriveBacksDecision :: "kever \<Rightarrow> serder \<Rightarrow> derived_backs option res" where
  "deriveBacksDecision k s =
     (if sd_ilk s = Some ''icp'' \<or> sd_ilk s = Some ''dip'' then
        bind_res (toader_of s) (\<lambda>toader.
          Inr (Some \<lparr>bk_wits = serder_backs s, bk_cuts = [], bk_adds = [], bk_toader = toader\<rparr>))
      else
        (case deriveRotatedWitnessSet (kv_wits k) (serder_cuts s) (serder_adds s) of
           Inl _ \<Rightarrow> Inr None
         | Inr w \<Rightarrow>
             bind_res (toader_of s) (\<lambda>toader.
               Inr (if toad_fits toader (dw_wits w)
                    then Some \<lparr>bk_wits = dw_wits w, bk_cuts = dw_cuts w, bk_adds = dw_adds w,
                               bk_toader = toader\<rparr>
                    else None))))"

text \<open>The sequence number before a given one; there is none before zero.\<close>

definition sn_before :: "nat \<Rightarrow> int" where
  "sn_before sn = (if sn = 0 then - 1 else int (js_num (sn - 1)))"

definition recovery_fault :: "kever \<Rightarrow> serder \<Rightarrow> nat \<Rightarrow> baser \<Rightarrow> reject_kind option res" where
  "recovery_fault k s sn db =
     (if (sd_ilk s = Some ''rot'' \<and> sn \<le> kv_lastEst_s k) \<or> (sd_ilk s = Some ''drt'' \<and> sn < kv_lastEst_s k)
      then Inr (Some Stale)
      else if sd_ilk s = Some ''rot'' \<and> kv_ilk k \<noteq> ''ixn'' then Inr (Some InvalidRecovery)
      else
        (case kels_getLast db (kever_pre k) (sn_before sn) of
           Some (c # cs) \<Rightarrow>
             (case getEvtSerder db (kever_pre k) (c # cs) of
                None \<Rightarrow> Inr (Some InvalidRecovery)
              | Some prior \<Rightarrow>
                  bind_res (serder_compare prior (text_or [] (serder_prior s))) (\<lambda>eq.
                    Inr (if eq then None else Some InvalidRecovery)))
         | _ \<Rightarrow> Inr (Some InvalidRecovery)))"

definition rotation_fault :: "kever \<Rightarrow> serder \<Rightarrow> nat \<Rightarrow> baser \<Rightarrow> reject_kind option res" where
  "rotation_fault k s sn db =
     (if sn \<le> kever_sn k then recovery_fault k s sn db
      else Inr (if serder_prior s \<noteq> Some (kever_said k) then Some InvalidPriorDigest else None))"

definition rotation_input ::
  "env \<Rightarrow> kever \<Rightarrow> kever_init \<Rightarrow> matter list \<Rightarrow> derived_backs \<Rightarrow> att_input" where
  "rotation_input en k init verfers derived =
     (let s = ki_serder init
      in \<lparr>ai_serder = s, ai_sigers = ki_sigers init, ai_wigers = ki_wigers init,
          ai_verfers = verfers, ai_tholder = serder_tholder (en_json en) s,
          ai_wits = bk_wits derived, ai_toader = bk_toader derived, ai_delpre = kv_delpre k,
          ai_seal = normalizeSourceSeal (ki_sscs init) (ki_ssts init), ai_local = ki_local init,
          ai_eager = ki_eager init, ai_isEst = True\<rparr>)"

definition rotation_state ::
  "env \<Rightarrow> kever \<Rightarrow> serder \<Rightarrow> nat \<Rightarrow> matter list \<Rightarrow> derived_backs \<Rightarrow> key_state res" where
  "rotation_state en k s sn verfers derived =
     bind_res (dater_iso8601 (kv_dater k)) (\<lambda>dt.
     bind_res (serder_ndigers s) (\<lambda>ndigers.
     Inr \<lparr>ks_vn = [fst (kv_version k), snd (kv_version k)], ks_i = kever_pre k, ks_s = hex_str sn,
          ks_p = text_or [] (serder_prior s), ks_d = text_or [] (sd_said s),
          ks_f = hex_str (kever_fn k), ks_dt = dt, ks_et = text_or ''rot'' (sd_ilk s),
          ks_kt = Some (sith_or_zero (serder_tholder (en_json en) s)), ks_k = map mt_qb64 verfers,
          ks_nt = Some (sith_or_zero (serder_ntholder (en_json en) s)), ks_n = map mt_qb64 ndigers,
          ks_bt = number_numh (bk_toader derived), ks_b = bk_wits derived, ks_c = event_traits s,
          ks_ee_s = hex_str sn, ks_ee_d = text_or [] (sd_said s), ks_ee_br = bk_cuts derived,
          ks_ee_ba = bk_adds derived, ks_di = text_or [] (kv_delpre k)\<rparr>))"

definition accept_update ::
  "kever \<Rightarrow> kever_init \<Rightarrow> accept_kind \<Rightarrow> nat \<Rightarrow> key_state \<Rightarrow> verified \<Rightarrow> string list option
    \<Rightarrow> source_seal option \<Rightarrow> decision" where
  "accept_update k init kind sn st v wits seal =
     KAccept
       \<lparr>tr_create = False, tr_kind = kind, tr_pre = kever_pre k,
        tr_said = text_or [] (sd_said (ki_serder init)), tr_sn = sn, tr_state = st,
        tr_log = \<lparr>ke_serder = ki_serder init, ke_sigers = va_sigers v, ke_wigers = va_wigers v,
                  ke_wits = wits, ke_first = \<not> ki_check init, ke_frc = first_frc init,
                  ke_seal = seal, ke_local = ki_local init\<rparr>\<rparr> (va_cues v)"

definition rotation_attach ::
  "nat \<Rightarrow> env \<Rightarrow> kever \<Rightarrow> kever_init \<Rightarrow> nat \<Rightarrow> matter list \<Rightarrow> derived_backs \<Rightarrow> decision act" where
  "rotation_attach fuel en k init sn verfers derived =
     act_bind (validateAttachments fuel en k (rotation_input en k init verfers derived)) (\<lambda>d.
     (case d of
        AttVerified v \<Rightarrow>
          act_bind (act_lift (rotation_state en k (ki_serder init) sn verfers derived)) (\<lambda>st.
          act_ret (accept_update k init (if sn \<le> kever_sn k then AkRecovery else AkUpdate) sn st v
            (Some (va_wits v)) (va_seal v)))
      | _ \<Rightarrow> act_ret (fromAttachmentDecision d)))"

definition evaluateRotation :: "nat \<Rightarrow> env \<Rightarrow> kever \<Rightarrow> kever_init \<Rightarrow> nat \<Rightarrow> decision act" where
  "evaluateRotation fuel en k init sn =
     (let s = ki_serder init
      in if kever_delegated k \<and> sd_ilk s \<noteq> Some ''drt'' then act_ret (KReject InvalidDelegation)
         else if \<not> kever_delegated k \<and> sd_ilk s = Some ''drt'' then act_ret (KReject InvalidDelegation)
         else if js_num (kever_sn k + 1) < sn then act_lift (makeEscrowDecision k EscOoo init)
         else
           act_bind (act_read (rotation_fault k s sn)) (\<lambda>fault.
           (case fault of
              Some code \<Rightarrow> act_ret (KReject code)
            | None \<Rightarrow>
                act_bind (act_lift (serder_verfers s)) (\<lambda>verfers.
                if \<not> hasValidThresholdMaterial (serder_tholder (en_json en) s) (length verfers)
                then act_ret (KReject InvalidThreshold)
                else
                  act_bind (act_lift (deriveBacksDecision k s)) (\<lambda>derived.
                  (case derived of
                     None \<Rightarrow> act_ret (KReject RejWitnessSet)
                   | Some backs \<Rightarrow> rotation_attach fuel en k init sn verfers backs))))))"

definition interaction_input :: "kever \<Rightarrow> kever_init \<Rightarrow> att_input" where
  "interaction_input k init =
     \<lparr>ai_serder = ki_serder init, ai_sigers = ki_sigers init, ai_wigers = ki_wigers init,
      ai_verfers = kv_verfers k, ai_tholder = kv_tholder k, ai_wits = kv_wits k,
      ai_toader = kv_toader k, ai_delpre = None, ai_seal = None, ai_local = ki_local init,
      ai_eager = ki_eager init, ai_isEst = False\<rparr>"

definition interaction_state :: "kever \<Rightarrow> serder \<Rightarrow> nat \<Rightarrow> key_state res" where
  "interaction_state k s sn =
     bind_res (dater_iso8601 (kv_dater k)) (\<lambda>dt.
     Inr \<lparr>ks_vn = [fst (kv_version k), snd (kv_version k)], ks_i = kever_pre k, ks_s = hex_str sn,
          ks_p = text_or [] (serder_prior s), ks_d = text_or [] (sd_said s),
          ks_f = hex_str (kever_fn k), ks_dt = dt, ks_et = ''ixn'',
          ks_kt = Some (sith_or_zero (kv_tholder k)), ks_k = map mt_qb64 (kv_verfers k),
          ks_nt = Some (sith_or_zero (kv_ntholder k)), ks_n = map mt_qb64 (kv_ndigers k),
          ks_bt = number_numh (kv_toader k), ks_b = kv_wits k,
          ks_c = config_traits (kv_estOnly k) (kv_doNotDelegate k),
          ks_ee_s = hex_str (kv_lastEst_s k), ks_ee_d = kv_lastEst_d k, ks_ee_br = kv_cuts k,
          ks_ee_ba = kv_adds k, ks_di = text_or [] (kv_delpre k)\<rparr>)"

definition evaluateInteraction :: "nat \<Rightarrow> env \<Rightarrow> kever \<Rightarrow> kever_init \<Rightarrow> nat \<Rightarrow> decision act" where
  "evaluateInteraction fuel en k init sn =
     (let s = ki_serder init
      in if kv_estOnly k then act_ret (KReject EstOnlyViolation)
         else if js_num (kever_sn k + 1) < sn then act_lift (makeEscrowDecision k EscOoo init)
         else if sn \<le> kever_sn k then act_ret (KReject Stale)
         else if serder_prior s \<noteq> Some (kever_said k) then act_ret (KReject InvalidPriorDigest)
         else
           act_bind (validateAttachments fuel en k (interaction_input k init)) (\<lambda>d.
           (case d of
              AttVerified v \<Rightarrow>
                act_bind (act_lift (interaction_state k s sn)) (\<lambda>st.
                act_ret (accept_update k init AkUpdate sn st v None None))
            | _ \<Rightarrow> act_ret (fromAttachmentDecision d))))"

definition evaluateUpdate :: "nat \<Rightarrow> env \<Rightarrow> kever \<Rightarrow> kever_init \<Rightarrow> decision act" where
  "evaluateUpdate fuel en k init =
     (let s = ki_serder init
      in act_bind (act_lift (serder_sn s)) (\<lambda>sn.
         if \<not> kever_transferable k then act_ret (KReject NontransferableViolation)
         else if serder_pre s \<noteq> Some (kever_pre k) then act_ret (KReject InvalidPre)
         else if \<not> truthy (sd_ilk s) then act_ret (KReject InvalidIlk)
         else
           (case sn of
              None \<Rightarrow> act_ret (KReject InvalidSn)
            | Some n \<Rightarrow>
                if sd_ilk s = Some ''rot'' \<or> sd_ilk s = Some ''drt'' then evaluateRotation fuel en k init n
                else if sd_ilk s = Some ''ixn'' then evaluateInteraction fuel en k init n
                else act_ret (KReject Unsupported))))"

section \<open>Logging\<close>

definition io_store :: "dg \<Rightarrow> string list \<Rightarrow> (dg \<Rightarrow> string list) \<Rightarrow> dg \<Rightarrow> string list" where
  "io_store k vs m = m(k := io_put vs (m k))"

text \<open>The local bit of an event source never returns to remote.\<close>

definition esr_update :: "bool \<Rightarrow> bool option \<Rightarrow> bool option" where
  "esr_update loc old = (case old of None \<Rightarrow> Some loc | Some b \<Rightarrow> Some (b \<or> loc))"

definition log_dater :: "env \<Rightarrow> kel_event \<Rightarrow> matter res" where
  "log_dater en args =
     (case ke_frc args of
        Some c \<Rightarrow> bind_res (dater_iso8601 (fs_dater c)) (\<lambda>_. Inr (fs_dater c))
      | None \<Rightarrow> dater_of (encodeDateTimeToDater (en_now en)))"

text \<open>The material of an event that is safe to write again: signatures, witnesses, the body.\<close>

definition log_material :: "dg \<Rightarrow> kel_event \<Rightarrow> matter \<Rightarrow> string list \<Rightarrow> baser \<Rightarrow> baser" where
  "log_material key args dater wits db =
     db\<lparr>db_dtss := map_put key dater (db_dtss db),
        db_sigs := io_store key (map ix_qb64 (ke_sigers args)) (db_sigs db),
        db_wigs := io_store key (map ix_qb64 (ke_wigers args)) (db_wigs db),
        db_wits := io_store key wits (db_wits db),
        db_evts := map_put key (ke_serder args) (db_evts db)\<rparr>"

definition log_seal :: "kever \<Rightarrow> dg \<Rightarrow> kel_event \<Rightarrow> baser \<Rightarrow> baser" where
  "log_seal k key args db =
     (case ke_seal args of
        Some seal \<Rightarrow>
          if kever_delegated k \<and> sd_ilk (ke_serder args) \<noteq> Some ''ixn''
          then db\<lparr>db_aess := map_pin key seal (db_aess db)\<rparr> else db
      | None \<Rightarrow> db)"

definition log_source :: "dg \<Rightarrow> bool \<Rightarrow> baser \<Rightarrow> baser" where
  "log_source key loc db = db\<lparr>db_esrs := (db_esrs db)(key := esr_update loc (db_esrs db key))\<rparr>"

definition clone_cues :: "kel_event \<Rightarrow> nat \<Rightarrow> cue list" where
  "clone_cues args fn =
     (case ke_frc args of
        Some c \<Rightarrow> if fn \<noteq> ordinalNumber (fs_firner c)
                 then [CueNoticeBadCloneFN (ke_serder args) fn (fs_firner c) (fs_dater c)] else []
      | None \<Rightarrow> [])"

definition log_first ::
  "dg \<Rightarrow> kel_event \<Rightarrow> matter \<Rightarrow> (nat option \<times> cue list) act" where
  "log_first key args dater db =
     (let (fn, db') = appendFel (fst key) (snd key) db
      in bind_res (encodeHugeOrdinal fn) (\<lambda>fner.
         Inr ((Some fn, clone_cues args fn),
           db'\<lparr>db_dtss := map_pin key dater (db_dtss db'), db_fons := map_pin key fner (db_fons db')\<rparr>)))"

definition logEvent :: "env \<Rightarrow> kever \<Rightarrow> kel_event \<Rightarrow> (nat option \<times> matter \<times> cue list) act" where
  "logEvent en k args =
     (let s = ke_serder args; key = (text_or [] (serder_pre s), text_or [] (sd_said s))
      in act_bind (act_lift (serder_sn s)) (\<lambda>sn.
         (case sn of
            None \<Rightarrow> act_lift (Inl JsError)
          | Some n \<Rightarrow>
              if \<not> truthy (serder_pre s) \<or> \<not> truthy (sd_said s) then act_lift (Inl JsError)
              else
                act_bind (act_lift (log_dater en args)) (\<lambda>dater.
                act_bind (act_lift (map_res prefixer_of (case ke_wits args of Some ws \<Rightarrow> ws | None \<Rightarrow> [])))
                  (\<lambda>wits.
                act_bind (act_mod (log_material key args dater (map mt_qb64 wits))) (\<lambda>_.
                act_bind (act_mod (log_seal k key args)) (\<lambda>_.
                act_bind (act_mod (log_source key (ke_local args))) (\<lambda>_.
                act_bind (if ke_first args then log_first key args dater else act_ret (None, []))
                  (\<lambda>(fn, cues).
                act_bind (act_mod (kels_add (fst key) n (snd key))) (\<lambda>_.
                act_ret (fn, dater, cues)))))))))))"

end
