(* ===== verification/Kevery.thy ===== *)
theory Kevery
  imports KeverEval
begin

text \<open>
  The event processor (\<^verbatim>\<open>keri/src/core/eventing.ts\<close>): routing of an event to the key-state
  machine of its identifier, duplicates and their late attachments, application of decisions to
  the durable state, event escrows and their replay. An operation returns, with its value, the
  cues it pushes in their order; cues of the machine and of the processor are one sequence here.
  A thrown exception ends the operation with the error and no database, since callers drop the
  message; writes made before the exception are not modelled.
\<close>

section \<open>Envelopes\<close>

record envelope =
  ev_serder :: serder
  ev_sigers :: "indexer list"
  ev_wigers :: "indexer list"
  ev_frcs :: "first_seen list"
  ev_sscs :: "source_seal list"
  ev_ssts :: "source_seal list"
  ev_local :: "bool option"
  ev_eager :: bool

definition makeKeverEventInit :: "envelope \<Rightarrow> bool \<Rightarrow> kever_init" where
  "makeKeverEventInit ev loc =
     \<lparr>ki_serder = ev_serder ev, ki_sigers = ev_sigers ev, ki_wigers = ev_wigers ev,
      ki_frcs = ev_frcs ev, ki_sscs = ev_sscs ev, ki_ssts = ev_ssts ev, ki_local = loc,
      ki_eager = ev_eager ev, ki_check = False\<rparr>"

text \<open>The escrow decision of the processor falls back to the empty prefix.\<close>

definition kevery_escrow :: "escrow_kind \<Rightarrow> kever_init \<Rightarrow> decision res" where
  "kevery_escrow esc init =
     bind_res (serder_sn (ki_serder init)) (\<lambda>sn.
     Inr (KEscrow
       \<lparr>ei_escrow = esc, ei_pre = text_or [] (serder_pre (ki_serder init)),
        ei_said = text_or [] (sd_said (ki_serder init)),
        ei_sn = (case sn of Some n \<Rightarrow> int n | None \<Rightarrow> - 1),
        ei_log = \<lparr>ke_serder = ki_serder init, ke_sigers = ki_sigers init,
                  ke_wigers = ki_wigers init, ke_wits = None, ke_first = False,
                  ke_frc = first_frc init, ke_seal = normalizeSourceSeal (ki_sscs init) (ki_ssts init),
                  ke_local = ki_local init\<rparr>\<rparr> []))"

section \<open>Sealing events\<close>

definition fullyWitnessed :: "env \<Rightarrow> serder \<Rightarrow> bool act" where
  "fullyWitnessed en s =
     (case dg_of s of
        None \<Rightarrow> act_ret False
      | Some key \<Rightarrow>
          act_bind (getKever en (fst key)) (\<lambda>k.
          (case k of
             None \<Rightarrow> act_ret False
           | Some k \<Rightarrow> act_get (\<lambda>db. number_num (kv_toader k) \<le> length (db_wigs db key)))))"

definition normalizeEventSeal :: "string \<Rightarrow> string option \<Rightarrow> string \<Rightarrow> (matter \<times> matter \<times> matter) option" where
  "normalizeEventSeal i s d =
     (case s of
        None \<Rightarrow> None
      | Some snh \<Rightarrow>
          (case seal_fromSad ClanEvent (JObj [(''i'', JStr i), (''s'', JStr snh), (''d'', JStr d)]) of
             Inr (SealEvent i' s' d') \<Rightarrow> Some (i', s', d')
           | _ \<Rightarrow> None))"

definition eventSealsEqual :: "matter \<times> matter \<times> matter \<Rightarrow> matter \<times> matter \<times> matter \<Rightarrow> bool" where
  "eventSealsEqual x y \<longleftrightarrow>
     (case (x, y) of ((i, s, d), (i', s', d')) \<Rightarrow>
        mt_qb64 i = mt_qb64 i' \<and> number_numh s = number_numh s' \<and> mt_qb64 d = mt_qb64 d')"

fun last_sealing ::
  "env \<Rightarrow> string \<Rightarrow> matter \<times> matter \<times> matter \<Rightarrow> (nat \<times> string) list \<Rightarrow> serder option act" where
  "last_sealing en pre target [] = act_ret None"
| "last_sealing en pre target ((_, said) # items) =
     act_bind (act_get (\<lambda>db. getEvtSerder db pre said)) (\<lambda>found.
     (case found of
        None \<Rightarrow> last_sealing en pre target items
      | Some s \<Rightarrow>
          act_bind (act_lift (serder_eventSeals s)) (\<lambda>seals.
          if \<not> list_ex (eventSealsEqual target) seals then last_sealing en pre target items
          else
            act_bind (fullyWitnessed en s) (\<lambda>ok.
            if ok then act_ret (Some s) else last_sealing en pre target items))))"

definition fetchLastSealingEventByEventSeal ::
  "env \<Rightarrow> string \<Rightarrow> string \<Rightarrow> string option \<Rightarrow> string \<Rightarrow> serder option act" where
  "fetchLastSealingEventByEventSeal en pre i s d =
     (case normalizeEventSeal i s d of
        None \<Rightarrow> act_ret None
      | Some target \<Rightarrow>
          act_bind (act_get (\<lambda>db. getKelItemIter db pre)) (\<lambda>items. last_sealing en pre target items))"

section \<open>Duplicates\<close>

definition seal_named_by :: "source_seal \<Rightarrow> serder option \<Rightarrow> bool" where
  "seal_named_by seal anchoring \<longleftrightarrow>
     (case anchoring of
        None \<Rightarrow> False
      | Some s \<Rightarrow> serder_snh s = Some (number_numh (fst seal)) \<and> sd_said s = Some (mt_qb64 (snd seal)))"

definition validDuplicateSourceSeal :: "env \<Rightarrow> kever \<Rightarrow> serder \<Rightarrow> source_seal \<Rightarrow> bool act" where
  "validDuplicateSourceSeal en k s seal =
     (case (kv_delpre k, dg_of s) of
        (Some (c # cs), Some (pre, said)) \<Rightarrow>
          if sd_ilk s = Some ''ixn'' then act_ret False
          else act_bind (fetchLastSealingEventByEventSeal en (c # cs) pre (serder_snh s) said)
            (\<lambda>anchoring. act_ret (seal_named_by seal anchoring))
      | _ \<Rightarrow> act_ret False)"

definition new_source_seal :: "env \<Rightarrow> kever \<Rightarrow> kever_init \<Rightarrow> dg \<Rightarrow> source_seal option act" where
  "new_source_seal en k init key =
     (case normalizeSourceSeal (ki_sscs init) (ki_ssts init) of
        None \<Rightarrow> act_ret None
      | Some seal \<Rightarrow>
          act_bind (act_get (\<lambda>db. db_aess db key)) (\<lambda>stored.
          if stored \<noteq> None then act_ret None
          else act_bind (validDuplicateSourceSeal en k (ki_serder init) seal) (\<lambda>ok.
            act_ret (if ok then Some seal else None))))"

definition duplicate_verfers :: "kever \<Rightarrow> serder \<Rightarrow> matter list res" where
  "duplicate_verfers k s =
     (if sd_ilk s = Some ''icp'' \<or> sd_ilk s = Some ''dip'' \<or> serder_estive s then serder_verfers s
      else Inr (kv_verfers k))"

text \<open>The verified signatures of a message that are not stored yet.\<close>

definition late_sigers :: "env \<Rightarrow> serder \<Rightarrow> indexer list \<Rightarrow> matter list \<Rightarrow> string list \<Rightarrow> indexer list res" where
  "late_sigers en s sigers verfers stored =
     bind_res (verifyIndexedSignatures en (sd_raw s) sigers verfers) (\<lambda>found.
     Inr (filter (\<lambda>x. ix_qb64 x \<notin> set stored) (bound_sigers found)))"

definition duplicate_of ::
  "kever_init \<Rightarrow> source_seal option \<Rightarrow> indexer list \<Rightarrow> indexer list \<Rightarrow> string list \<Rightarrow> decision" where
  "duplicate_of init seal sigers wigers wits =
     (if sigers \<noteq> [] \<or> wigers \<noteq> [] \<or> seal \<noteq> None then
        KDuplicate LateAttachments (Some
          \<lparr>ke_serder = ki_serder init, ke_sigers = sigers, ke_wigers = wigers, ke_wits = Some wits,
           ke_first = False, ke_frc = None, ke_seal = seal, ke_local = ki_local init\<rparr>)
      else KDuplicate SameSaid None)"

definition buildDuplicateDecision :: "env \<Rightarrow> kever \<Rightarrow> kever_init \<Rightarrow> decision act" where
  "buildDuplicateDecision en k init =
     (let s = ki_serder init; key = (kever_pre k, text_or [] (sd_said s))
      in act_bind (new_source_seal en k init key) (\<lambda>seal.
         act_bind (act_get (\<lambda>db. (db_wits db key, db_sigs db key, db_wigs db key)))
           (\<lambda>(wits, sigs, wigs).
         act_bind (act_lift (duplicate_verfers k s)) (\<lambda>verfers.
         act_bind (act_lift (late_sigers en s (ki_sigers init) verfers sigs)) (\<lambda>sigers.
         act_bind (act_lift (map_res verfer_of wits)) (\<lambda>werfers.
         act_bind (act_lift (late_sigers en s (ki_wigers init) werfers wigs)) (\<lambda>wigers.
         act_ret (duplicate_of init seal sigers wigers wits))))))))"

section \<open>Routing\<close>

definition decide_known :: "nat \<Rightarrow> env \<Rightarrow> kever \<Rightarrow> kever_init \<Rightarrow> nat \<Rightarrow> decision act" where
  "decide_known fuel en k init sn =
     (let s = ki_serder init
      in if sd_ilk s = Some ''icp'' \<or> sd_ilk s = Some ''dip'' then
           (if sn \<noteq> 0 then act_ret (KReject InvalidSn)
            else if Some (kever_said k) = sd_said s then buildDuplicateDecision en k init
            else act_lift (kevery_escrow EscDuplicitous init))
         else
           act_bind (act_get (\<lambda>db. kels_getLast db (text_or [] (serder_pre s)) (int sn))) (\<lambda>stored.
           if truthy stored \<and> stored = sd_said s \<and> sn \<le> kever_sn k
           then buildDuplicateDecision en k init
           else if js_num (kever_sn k + 1) < sn then act_lift (kevery_escrow EscOoo init)
           else evaluateUpdate fuel en k init))"

definition decideEvent :: "nat \<Rightarrow> env \<Rightarrow> bool \<Rightarrow> envelope \<Rightarrow> decision act" where
  "decideEvent fuel en loc ev =
     (let s = ev_serder ev;
          init = makeKeverEventInit ev (case ev_local ev of Some b \<Rightarrow> b | None \<Rightarrow> loc)
      in act_bind (act_lift (serder_sn s)) (\<lambda>sn.
         if \<not> truthy (serder_pre s) then act_ret (KReject InvalidPre)
         else if \<not> truthy (sd_ilk s) then act_ret (KReject InvalidIlk)
         else if \<not> truthy (sd_said s) then act_ret (KReject InvalidSn)
         else
           (case sn of
              None \<Rightarrow> act_ret (KReject InvalidSn)
            | Some n \<Rightarrow>
                (case prefixer_of (text_or [] (serder_pre s)) of
                   Inl _ \<Rightarrow> act_ret (KReject InvalidPre)
                 | Inr _ \<Rightarrow>
                     act_bind (act_get (\<lambda>db. db_kevers db (text_or [] (serder_pre s)))) (\<lambda>known.
                     (case known of
                        Some k \<Rightarrow> decide_known fuel en k init n
                      | None \<Rightarrow>
                          if sd_ilk s \<noteq> Some ''icp'' \<and> sd_ilk s \<noteq> Some ''dip''
                          then act_lift (kevery_escrow EscOoo init)
                          else evaluateInception fuel en init))))))"

section \<open>Application\<close>

definition applyFirstSeenState :: "transition \<Rightarrow> nat option \<Rightarrow> string \<Rightarrow> transition" where
  "applyFirstSeenState t fn dt =
     (let st = (tr_state t)\<lparr>ks_dt := dt\<rparr>
      in t\<lparr>tr_state := (case fn of Some n \<Rightarrow> st\<lparr>ks_f := hex_str n\<rparr> | None \<Rightarrow> st)\<rparr>)"

definition sync_group :: "kever \<Rightarrow> baser \<Rightarrow> baser" where
  "sync_group k db =
     (case getHab db (kever_pre k) of
        Some h \<Rightarrow>
          if truthy (hb_mid h)
          then db\<lparr>db_prefixes := io_add (kever_pre k) (db_prefixes db),
                  db_groups := io_add (kever_pre k) (db_groups db)\<rparr>
          else db
      | None \<Rightarrow> db)"

definition acceptance_cues :: "kever \<Rightarrow> serder \<Rightarrow> bool \<Rightarrow> baser \<Rightarrow> cue list res" where
  "acceptance_cues k s loc db =
     bind_res (kever_state k) (\<lambda>ksn.
     Inr ((if kever_pre k \<notin> set (db_prefixes db) then [CueReceipt s]
           else if \<not> loc then [CueNotice s] else [])
          @ (if loc \<and> locallyWitnessed db (kv_wits k) then [CueWitness s] else [])
          @ [CueKeyStateSaved ksn]))"

definition emitAcceptanceCues :: "kever \<Rightarrow> serder \<Rightarrow> bool \<Rightarrow> cue list act" where
  "emitAcceptanceCues k s loc =
     act_bind (act_mod (sync_group k)) (\<lambda>_. act_read (acceptance_cues k s loc))"

text \<open>The pairs of identifier and digest that the anchors of a delegator's event name.\<close>

definition anchor_of :: "jvalue \<Rightarrow> (string \<times> string) option" where
  "anchor_of v =
     (case (jfield v ''i'', jfield v ''d'') of
        (Some (JStr (p # ps)), Some (JStr (d # ds))) \<Rightarrow> Some (p # ps, d # ds)
      | _ \<Rightarrow> None)"

definition repair_anchor :: "env \<Rightarrow> string \<Rightarrow> string \<Rightarrow> matter \<Rightarrow> dg \<Rightarrow> unit act" where
  "repair_anchor en delpre said sner key =
     act_bind (act_get (\<lambda>db. db_evts db key)) (\<lambda>found.
     if found = None then act_ret ()
     else
       act_bind (getKever en (fst key)) (\<lambda>existing.
       act_bind (act_get (\<lambda>db.
         (case existing of
            Some k \<Rightarrow> (case kv_delpre k of Some d \<Rightarrow> Some d
                      | None \<Rightarrow> map_option ks_di (getState db (fst key)))
          | None \<Rightarrow> map_option ks_di (getState db (fst key))))) (\<lambda>delegatedBy.
       if delegatedBy \<noteq> Some delpre then act_ret ()
       else
         act_bind (act_get (\<lambda>db. db_aess db key)) (\<lambda>stored.
         if stored \<noteq> None then act_ret ()
         else act_bind (act_lift (diger_of said)) (\<lambda>d.
           act_mod (\<lambda>db. db\<lparr>db_aess := map_pin key (sner, d) (db_aess db)\<rparr>))))))"

fun repair_anchors :: "env \<Rightarrow> string \<Rightarrow> string \<Rightarrow> matter \<Rightarrow> jvalue list \<Rightarrow> unit act" where
  "repair_anchors en delpre said sner [] = act_ret ()"
| "repair_anchors en delpre said sner (v # vs) =
     act_bind (case anchor_of v of None \<Rightarrow> act_ret () | Some key \<Rightarrow> repair_anchor en delpre said sner key)
       (\<lambda>_. repair_anchors en delpre said sner vs)"

definition repairAnchoredDelegationSourceSeals :: "env \<Rightarrow> serder \<Rightarrow> unit act" where
  "repairAnchoredDelegationSourceSeals en s =
     act_bind (act_lift (serder_sner s)) (\<lambda>sner.
     (case (sner, dg_of s) of
        (Some n, Some (delpre, said)) \<Rightarrow> repair_anchors en delpre said n (serder_seals s)
      | _ \<Rightarrow> act_ret ()))"

definition escrow_material :: "dg \<Rightarrow> kel_event \<Rightarrow> matter \<Rightarrow> string list \<Rightarrow> baser \<Rightarrow> baser" where
  "escrow_material key msg dater wits db =
     log_source key (ke_local msg)
       ((log_material key msg dater wits db)
          \<lparr>db_udes := (case ke_seal msg of Some seal \<Rightarrow> map_pin key seal (db_udes db) | None \<Rightarrow> db_udes db)\<rparr>)"

definition escrow_dater :: "env \<Rightarrow> kel_event \<Rightarrow> matter res" where
  "escrow_dater en msg =
     (case ke_frc msg of
        Some c \<Rightarrow> Inr (fs_dater c)
      | None \<Rightarrow> dater_of (encodeDateTimeToDater (en_now en)))"

definition persistEscrowEventMaterial :: "env \<Rightarrow> kel_event \<Rightarrow> unit act" where
  "persistEscrowEventMaterial en msg =
     (case dg_of (ke_serder msg) of
        None \<Rightarrow> act_lift (Inl JsError)
      | Some key \<Rightarrow>
          act_bind (act_get (\<lambda>db. db_dtss db key)) (\<lambda>stored.
          act_bind (act_lift (case stored of Some d \<Rightarrow> Inr d | None \<Rightarrow> escrow_dater en msg)) (\<lambda>dater.
          act_bind (act_lift (map_res prefixer_of (case ke_wits msg of Some ws \<Rightarrow> ws | None \<Rightarrow> [])))
            (\<lambda>wits. act_mod (escrow_material key msg dater (map mt_qb64 wits))))))"

definition index_escrow :: "instruction \<Rightarrow> baser \<Rightarrow> baser" where
  "index_escrow i db =
     (let pre = ei_pre i; sn = nat (ei_sn i); said = ei_said i
      in case ei_escrow i of
           EscOoo \<Rightarrow> db\<lparr>db_ooes := (db_ooes db)(pre := on_add sn said (db_ooes db pre))\<rparr>
         | EscPartialSigs \<Rightarrow> db\<lparr>db_pses := (db_pses db)(pre := on_add sn said (db_pses db pre))\<rparr>
         | EscPartialWigs \<Rightarrow> db\<lparr>db_pwes := (db_pwes db)(pre := on_add sn said (db_pwes db pre))\<rparr>
         | EscPartialDels \<Rightarrow> db\<lparr>db_pdes := (db_pdes db)(pre := on_add sn said (db_pdes db pre))\<rparr>
         | EscDuplicitous \<Rightarrow> db\<lparr>db_ldes := (db_ldes db)(pre := on_add sn said (db_ldes db pre))\<rparr>
         | EscDelegables \<Rightarrow> db\<lparr>db_delegables := (db_delegables db)(pre := io_add said (db_delegables db pre))\<rparr>
         | EscMisfit \<Rightarrow> db\<lparr>db_misfits := (db_misfits db)(pre := io_add said (db_misfits db pre))\<rparr>
         | EscQueryNotFound \<Rightarrow> db\<lparr>db_qnfs := (db_qnfs db)([pre] := io_add said (db_qnfs db [pre]))\<rparr>)"

definition persistEscrowInstruction :: "env \<Rightarrow> instruction \<Rightarrow> unit act" where
  "persistEscrowInstruction en i =
     act_bind (persistEscrowEventMaterial en (ei_log i)) (\<lambda>_. act_mod (index_escrow i))"

definition save_state :: "transition \<Rightarrow> kever \<Rightarrow> baser \<Rightarrow> baser" where
  "save_state t k db =
     (pinState (tr_pre t) (tr_state t) db)
       \<lparr>db_kevers := map_pin (tr_pre t) k (db_kevers db),
        db_udes := (db_udes db)((tr_pre t, tr_said t) := None)\<rparr>"

definition transition_kever :: "env \<Rightarrow> transition \<Rightarrow> kever act" where
  "transition_kever en t =
     act_bind (act_get (\<lambda>db. db_kevers db (tr_pre t))) (\<lambda>live.
     (case live of
        Some k \<Rightarrow>
          if tr_create t then act_lift (loadState en (tr_state t) (ke_serder (tr_log t)))
          else act_ret k
      | None \<Rightarrow> act_lift (loadState en (tr_state t) (ke_serder (tr_log t)))))"

definition apply_accept :: "env \<Rightarrow> transition \<Rightarrow> cue list \<Rightarrow> cue list act" where
  "apply_accept en t cues =
     act_bind (transition_kever en t) (\<lambda>k.
     act_bind (logEvent en k (tr_log t)) (\<lambda>(fn, dater, logged).
     act_bind (act_lift (dater_iso8601 dater)) (\<lambda>dt.
     let t' = applyFirstSeenState t fn dt
     in act_bind (act_lift (loadState en (tr_state t') (ke_serder (tr_log t')))) (\<lambda>k'.
        act_bind (act_mod (save_state t' k')) (\<lambda>_.
        act_bind (emitAcceptanceCues k' (ke_serder (tr_log t')) (ke_local (tr_log t'))) (\<lambda>accepted.
        act_bind (repairAnchoredDelegationSourceSeals en (ke_serder (tr_log t'))) (\<lambda>_.
        act_ret (logged @ cues @ accepted))))))))"

definition apply_duplicate :: "env \<Rightarrow> kel_event option \<Rightarrow> cue list act" where
  "apply_duplicate en msg =
     (case msg of
        None \<Rightarrow> act_ret []
      | Some l \<Rightarrow>
          act_bind (act_get (\<lambda>db. db_kevers db (text_or [] (serder_pre (ke_serder l))))) (\<lambda>live.
          (case live of
             None \<Rightarrow> act_ret []
           | Some k \<Rightarrow> act_bind (logEvent en k l) (\<lambda>(_, _, cues). act_ret cues))))"

definition applyDecision :: "env \<Rightarrow> decision \<Rightarrow> cue list act" where
  "applyDecision en d =
     (case d of
        KAccept t cues \<Rightarrow> apply_accept en t cues
      | KDuplicate _ msg \<Rightarrow> apply_duplicate en msg
      | KEscrow i cues \<Rightarrow> act_bind (persistEscrowInstruction en i) (\<lambda>_. act_ret cues)
      | KReject _ \<Rightarrow> act_ret [])"

definition processEvent :: "nat \<Rightarrow> env \<Rightarrow> bool \<Rightarrow> envelope \<Rightarrow> (decision \<times> cue list) act" where
  "processEvent fuel en loc ev =
     act_bind (decideEvent fuel en loc ev) (\<lambda>d.
     act_bind (applyDecision en d) (\<lambda>cues. act_ret (d, cues)))"

section \<open>Escrow replay\<close>

text \<open>The delegator of an escrowed establishment event: its own field for a delegated
  inception, the accepted state for a rotation.\<close>

definition escrow_delegator :: "env \<Rightarrow> serder \<Rightarrow> string option act" where
  "escrow_delegator en s =
     (if sd_ilk s = Some ''dip'' then act_ret (serder_delpre s)
      else
        act_bind (act_get (\<lambda>db. map_option ks_di (getState db (text_or [] (serder_pre s))))) (\<lambda>di.
        if truthy di then act_ret di
        else act_bind (getKever en (text_or [] (serder_pre s))) (\<lambda>k.
          act_ret (case k of Some k \<Rightarrow> kv_delpre k | None \<Rightarrow> None))))"

definition repair_from_anchoring :: "dg \<Rightarrow> serder option \<Rightarrow> unit act" where
  "repair_from_anchoring key anchoring =
     (case anchoring of
        None \<Rightarrow> act_ret ()
      | Some a \<Rightarrow>
          act_bind (act_lift (serder_sner a)) (\<lambda>sner.
          (case sner of
             None \<Rightarrow> act_ret ()
           | Some n \<Rightarrow>
               if \<not> truthy (sd_said a) then act_ret ()
               else act_bind (act_lift (diger_of (text_or [] (sd_said a)))) (\<lambda>d.
                 act_mod (\<lambda>db. db\<lparr>db_aess := map_pin key (n, d) (db_aess db)\<rparr>)))))"

definition repairEscrowDelegationSourceSeal :: "env \<Rightarrow> serder \<Rightarrow> unit act" where
  "repairEscrowDelegationSourceSeal en s =
     (case dg_of s of
        None \<Rightarrow> act_ret ()
      | Some key \<Rightarrow>
          if \<not> delegated_ilk s then act_ret ()
          else
            act_bind (act_get (\<lambda>db. db_aess db key)) (\<lambda>stored.
            if stored \<noteq> None then act_ret ()
            else
              act_bind (escrow_delegator en s) (\<lambda>delpre.
              if \<not> truthy delpre then act_ret ()
              else
                act_bind (fetchLastSealingEventByEventSeal en (text_or [] delpre) (fst key)
                  (serder_snh s) (snd key)) (repair_from_anchoring key))))"

definition promotableDelegationMisfit :: "env \<Rightarrow> serder \<Rightarrow> bool act" where
  "promotableDelegationMisfit en s =
     (if \<not> truthy (serder_pre s) \<or> \<not> delegated_ilk s then act_ret False
      else
        act_bind (escrow_delegator en s) (\<lambda>delpre.
        act_get (\<lambda>db. truthy delpre \<and> text_or [] delpre \<in> set (db_prefixes db)
          \<and> text_or [] (serder_pre s) \<notin> set (db_prefixes db))))"

definition siger_of :: "string \<Rightarrow> indexer res" where
  "siger_of s = bind_res (parseIndexerInit \<lparr>xi_raw = None, xi_code = None, xi_index = None,
     xi_ondex = None, xi_qb64b = None, xi_qb64 = Some s, xi_qb2 = None\<rparr>) siger_check"

definition rehydrateEscrowEnvelope ::
  "env \<Rightarrow> escrow_kind \<Rightarrow> string \<Rightarrow> string \<Rightarrow> envelope option act" where
  "rehydrateEscrowEnvelope en esc pre said =
     act_bind (act_get (\<lambda>db. getEvtSerder db pre said)) (\<lambda>found.
     (case found of
        None \<Rightarrow> act_ret None
      | Some s \<Rightarrow>
          act_bind (if esc = EscPartialDels \<or> esc = EscDelegables
                    then repairEscrowDelegationSourceSeal en s else act_ret ()) (\<lambda>_.
          act_bind (act_get (\<lambda>db. (case db_udes db (pre, said) of Some x \<Rightarrow> Some x
                                   | None \<Rightarrow> db_aess db (pre, said)))) (\<lambda>seal.
          act_bind (act_get (\<lambda>db. db_esrs db (pre, said) = Some True)) (\<lambda>source.
          act_bind (act_read (\<lambda>db. map_res siger_of (db_sigs db (pre, said)))) (\<lambda>sigers.
          act_bind (act_read (\<lambda>db. map_res siger_of (db_wigs db (pre, said)))) (\<lambda>wigers.
          act_bind (if esc = EscMisfit then promotableDelegationMisfit en s else act_ret False)
            (\<lambda>promoted.
          act_ret (Some
            \<lparr>ev_serder = s, ev_sigers = sigers, ev_wigers = wigers, ev_frcs = [],
             ev_sscs = (case seal of Some x \<Rightarrow> [x] | None \<Rightarrow> []), ev_ssts = [],
             ev_local = Some (promoted \<or> source),
             ev_eager = (esc = EscPartialSigs \<or> esc = EscPartialWigs \<or> esc = EscPartialDels)\<rparr>)))))))))"

definition removeEscrow :: "escrow_kind \<Rightarrow> string \<Rightarrow> nat option \<Rightarrow> string \<Rightarrow> baser \<Rightarrow> baser" where
  "removeEscrow esc pre on said db =
     (let n = (case on of Some n \<Rightarrow> n | None \<Rightarrow> 0); drop = filter (\<lambda>x. x \<noteq> said)
      in case esc of
           EscOoo \<Rightarrow> db\<lparr>db_ooes := (db_ooes db)(pre := on_rem n said (db_ooes db pre))\<rparr>
         | EscPartialSigs \<Rightarrow> db\<lparr>db_pses := (db_pses db)(pre := on_rem n said (db_pses db pre))\<rparr>
         | EscPartialWigs \<Rightarrow> db\<lparr>db_pwes := (db_pwes db)(pre := on_rem n said (db_pwes db pre))\<rparr>
         | EscPartialDels \<Rightarrow> db\<lparr>db_pdes := (db_pdes db)(pre := on_rem n said (db_pdes db pre))\<rparr>
         | EscDuplicitous \<Rightarrow> db\<lparr>db_ldes := (db_ldes db)(pre := on_rem n said (db_ldes db pre))\<rparr>
         | EscDelegables \<Rightarrow> db\<lparr>db_delegables := (db_delegables db)(pre := drop (db_delegables db pre))\<rparr>
         | EscMisfit \<Rightarrow> db\<lparr>db_misfits := (db_misfits db)(pre := drop (db_misfits db pre))\<rparr>
         | EscQueryNotFound \<Rightarrow> db\<lparr>db_qnfs := (db_qnfs db)([pre] := drop (db_qnfs db [pre]))\<rparr>)"

definition replayEscrowEntry ::
  "nat \<Rightarrow> env \<Rightarrow> bool \<Rightarrow> escrow_kind \<Rightarrow> string \<Rightarrow> nat option \<Rightarrow> string \<Rightarrow> cue list act" where
  "replayEscrowEntry fuel en loc esc pre on said =
     act_bind (rehydrateEscrowEnvelope en esc pre said) (\<lambda>envl.
     (case envl of
        None \<Rightarrow> act_bind (act_mod (removeEscrow esc pre on said)) (\<lambda>_. act_ret [])
      | Some ev \<Rightarrow>
          act_bind (decideEvent fuel en loc ev) (\<lambda>d.
          (case d of
             KReject _ \<Rightarrow> act_bind (act_mod (removeEscrow esc pre on said)) (\<lambda>_. act_ret [])
           | KEscrow i _ \<Rightarrow>
               if ei_escrow i = esc then act_ret []
               else act_bind (act_mod (removeEscrow esc pre on said)) (\<lambda>_. applyDecision en d)
           | _ \<Rightarrow> act_bind (act_mod (removeEscrow esc pre on said)) (\<lambda>_. applyDecision en d)))))"

text \<open>The rows of an escrow index, read before any of them is replayed; \<open>pres\<close> are the
  identifiers that have rows, in key order.\<close>

definition ordinal_rows :: "escrow_kind \<Rightarrow> string list \<Rightarrow> baser \<Rightarrow> (string \<times> nat \<times> string) list" where
  "ordinal_rows esc pres db =
     (let rows = (\<lambda>f. concat (map (\<lambda>pre. map (\<lambda>(n, said). (pre, n, said)) (on_items (f db pre))) pres))
      in case esc of
           EscOoo \<Rightarrow> rows db_ooes
         | EscPartialSigs \<Rightarrow> rows db_pses
         | EscPartialWigs \<Rightarrow> rows db_pwes
         | EscPartialDels \<Rightarrow> rows db_pdes
         | EscDuplicitous \<Rightarrow> rows db_ldes
         | _ \<Rightarrow> [])"

definition set_rows :: "escrow_kind \<Rightarrow> string list \<Rightarrow> baser \<Rightarrow> (string \<times> string) list" where
  "set_rows esc pres db =
     (let rows = (\<lambda>f. concat (map (\<lambda>pre. map (Pair pre) (f db pre)) pres))
      in case esc of
           EscDelegables \<Rightarrow> rows db_delegables
         | EscMisfit \<Rightarrow> rows db_misfits
         | EscQueryNotFound \<Rightarrow> rows (\<lambda>db pre. db_qnfs db [pre])
         | _ \<Rightarrow> [])"

fun replay_all ::
  "nat \<Rightarrow> env \<Rightarrow> bool \<Rightarrow> escrow_kind \<Rightarrow> (string \<times> nat option \<times> string) list \<Rightarrow> cue list act" where
  "replay_all fuel en loc esc [] = act_ret []"
| "replay_all fuel en loc esc ((pre, on, said) # rows) =
     act_bind (if pre = [] then act_ret [] else replayEscrowEntry fuel en loc esc pre on said) (\<lambda>cues.
     act_bind (replay_all fuel en loc esc rows) (\<lambda>rest. act_ret (cues @ rest)))"

definition processOrdinalEscrow ::
  "nat \<Rightarrow> env \<Rightarrow> bool \<Rightarrow> escrow_kind \<Rightarrow> string list \<Rightarrow> cue list act" where
  "processOrdinalEscrow fuel en loc esc pres =
     act_bind (act_get (ordinal_rows esc pres)) (\<lambda>rows.
     replay_all fuel en loc esc (map (\<lambda>(pre, n, said). (pre, Some n, said)) rows))"

definition processSetEscrow ::
  "nat \<Rightarrow> env \<Rightarrow> bool \<Rightarrow> escrow_kind \<Rightarrow> string list \<Rightarrow> cue list act" where
  "processSetEscrow fuel en loc esc pres =
     act_bind (act_get (set_rows esc pres)) (\<lambda>rows.
     replay_all fuel en loc esc (map (\<lambda>(pre, said). (pre, None, said)) rows))"

end
