(* ===== verification/KeverFrame.thy ===== *)
theory KeverFrame
  imports Kevery
begin

text \<open>
  What an operation may do to the database. A locale states the interface of such a claim: a
  reflexive and transitive relation between the database before and after. Inside it the
  combinators of operations are shown to keep the relation, so an interpretation carries a claim
  through every operation that only composes others. It is interpreted for the three relations
  the development needs: evaluation touches nothing but delegation hints and the cache of live
  machines; event bodies and records of acceptance are never lost; logs stay well formed.
\<close>

section \<open>The interface\<close>

definition keeps :: "(baser \<Rightarrow> baser \<Rightarrow> bool) \<Rightarrow> 'a act \<Rightarrow> bool" where
  "keeps R m \<longleftrightarrow> (\<forall>db x db'. m db = Inr (x, db') \<longrightarrow> R db db')"

lemma keepsD: "keeps R m \<Longrightarrow> m db = Inr (x, db') \<Longrightarrow> R db db'"
  by (auto simp: keeps_def)

lemma keeps_mono: "keeps R m \<Longrightarrow> (\<And>a b. R a b \<Longrightarrow> S a b) \<Longrightarrow> keeps S m"
  by (auto simp: keeps_def)

named_theorems act_simps \<open>elimination of the operation combinators\<close>

lemma act_ret_iff [act_simps]: "act_ret x db = Inr (y, db') \<longleftrightarrow> x = y \<and> db = db'"
  by (simp add: act_ret_def)

lemma act_bind_iff [act_simps]:
  "act_bind m f db = Inr (y, db') \<longleftrightarrow> (\<exists>x db1. m db = Inr (x, db1) \<and> f x db1 = Inr (y, db'))"
  by (auto simp: act_bind_def bind_res_def split: sum.splits)

lemma act_lift_iff [act_simps]: "act_lift r db = Inr (x, db') \<longleftrightarrow> r = Inr x \<and> db = db'"
  by (auto simp: act_lift_def bind_res_def split: sum.splits)

lemma act_get_iff [act_simps]: "act_get f db = Inr (x, db') \<longleftrightarrow> f db = x \<and> db = db'"
  by (auto simp: act_get_def)

lemma act_read_iff [act_simps]: "act_read f db = Inr (x, db') \<longleftrightarrow> f db = Inr x \<and> db = db'"
  by (auto simp: act_read_def bind_res_def split: sum.splits)

lemma act_mod_iff [act_simps]: "act_mod f db = Inr (x, db') \<longleftrightarrow> f db = db'"
  by (auto simp: act_mod_def)

locale act_frame =
  fixes R :: "baser \<Rightarrow> baser \<Rightarrow> bool"
  assumes refl: "R a a"
    and trans: "R a b \<Longrightarrow> R b c \<Longrightarrow> R a c"
begin

lemma keeps_pure:
  "keeps R (act_ret x)" "keeps R (act_lift r)" "keeps R (act_get f)" "keeps R (act_read g)"
  by (auto simp: keeps_def act_simps refl)

lemma keeps_bind:
  assumes "keeps R m" and "\<And>x. keeps R (f x)"
  shows "keeps R (act_bind m f)"
  unfolding keeps_def
proof (intro allI impI)
  fix db y db'
  assume "act_bind m f db = Inr (y, db')"
  then obtain x db1 where "m db = Inr (x, db1)" "f x db1 = Inr (y, db')" by (auto simp: act_simps)
  then have "R db db1" "R db1 db'" using assms by (auto intro: keepsD)
  then show "R db db'" by (rule trans)
qed

lemma keeps_mod: "keeps R (act_mod f)" if "\<And>db. R db (f db)"
  using that by (auto simp: keeps_def act_simps)

lemma keeps_if: "keeps R (if b then m else n)" if "b \<Longrightarrow> keeps R m" "\<not> b \<Longrightarrow> keeps R n"
  using that by simp

lemma keeps_option: "keeps R (case x of None \<Rightarrow> m | Some y \<Rightarrow> f y)"
  if "keeps R m" "\<And>y. keeps R (f y)"
  using that by (simp split: option.split)

lemma keeps_list: "keeps R (case xs of [] \<Rightarrow> m | y # ys \<Rightarrow> f y ys)"
  if "keeps R m" "\<And>y ys. keeps R (f y ys)"
  using that by (simp split: list.split)

lemma keeps_sum: "keeps R (case x of Inl e \<Rightarrow> f e | Inr y \<Rightarrow> g y)"
  if "\<And>e. keeps R (f e)" "\<And>y. keeps R (g y)"
  using that by (simp split: sum.split)

lemma keeps_prod: "keeps R (case x of (a, b) \<Rightarrow> f a b)" if "\<And>a b. keeps R (f a b)"
  using that by (simp split: prod.split)

lemma keeps_att_case: "keeps R (case d of AttVerified v \<Rightarrow> f v | AttEscrow i cs \<Rightarrow> g i cs | AttReject c \<Rightarrow> h c)"
  if "\<And>v. keeps R (f v)" "\<And>i cs. keeps R (g i cs)" "\<And>c. keeps R (h c)"
  using that by (simp split: att_decision.split)

lemma keeps_verdict_case: "keeps R (case w of WitOk \<Rightarrow> f | WitReject \<Rightarrow> g | WitPartial \<Rightarrow> h)"
  if "keeps R f" "keeps R g" "keeps R h"
  using that by (simp split: witness_verdict.split)

lemma keeps_decision_case:
  "keeps R (case d of KAccept t cs \<Rightarrow> f t cs | KDuplicate k l \<Rightarrow> g k l | KEscrow i cs \<Rightarrow> h i cs
     | KReject c \<Rightarrow> j c)"
  if "\<And>t cs. keeps R (f t cs)" "\<And>k l. keeps R (g k l)" "\<And>i cs. keeps R (h i cs)" "\<And>c. keeps R (j c)"
  using that by (simp split: decision.split)

lemmas keeps_comb = keeps_pure keeps_bind keeps_if keeps_option keeps_list keeps_sum keeps_prod
  keeps_att_case keeps_verdict_case keeps_decision_case

end

section \<open>Evaluation\<close>

text \<open>Evaluating an event writes only the cache of live machines and the stored source seals.\<close>

locale eval_frame = act_frame +
  assumes kevers: "db_kevers db pre = None \<Longrightarrow> getState db pre = Some st
      \<Longrightarrow> kever_reload en db st = Inr k
      \<Longrightarrow> R db (db\<lparr>db_kevers := (db_kevers db)(pre := Some k)\<rparr>)"
    and aess: "R db (db\<lparr>db_aess := as\<rparr>)"
begin

lemma keeps_getKever: "keeps R (getKever en pre)"
  by (auto simp: keeps_def getKever_def res_simps refl kevers split: option.splits)

lemma keeps_local_keys: "keeps R (local_keys en pres)"
  by (induction pres) (auto intro!: keeps_comb keeps_getKever)

lemma keeps_contributed: "keeps R (locallyContributedIndices en verfers)"
  unfolding keeps_def locallyContributedIndices_def
  by (intro allI impI, erule keepsD [rotated], intro keeps_comb keeps_local_keys)

lemma keeps_hints: "keeps R (act_mod (dropAcceptedSourceSeal s))"
  "keeps R (act_mod (repairAcceptedSourceSeal s l))"
  by (auto intro!: keeps_mod simp: dropAcceptedSourceSeal_def repairAcceptedSourceSeal_def refl aess
      split: option.splits)

lemma keeps_search: "keeps R (search_repair original delpre s)"
  unfolding search_repair_def by (intro keeps_comb keeps_hints)

lemma keeps_fetch: "keeps R (fetchDelegatingEvent delpre s hint original eager)"
  unfolding fetchDelegatingEvent_def fetch_original_def fetch_candidate_def
  by (intro keeps_comb keeps_hints keeps_search)

lemma keeps_att: "keeps R (attachmentEscrow k inp esc cues)" "keeps R (att_reject code)"
  unfolding attachmentEscrow_def att_reject_def by (intro keeps_comb)+

lemma keeps_recovery: "keeps R (recovery_loop fuel k inp visited delpre cand orig)"
proof (induction fuel arbitrary: visited delpre cand orig)
  case 0
  show ?case by (simp add: recovery_loop.simps keeps_pure)
next
  case (Suc n)
  show ?case
    unfolding recovery_loop.simps [of "Suc n"] nat.case
    by (intro keeps_comb keeps_att keeps_fetch Suc.IH)
qed

lemma keeps_delegation: "keeps R (validateDelegation fuel en k inp)"
  unfolding validateDelegation_def delegation_recovery_def
  by (intro keeps_comb keeps_att keeps_fetch keeps_getKever keeps_recovery)

lemma keeps_witnesses: "keeps R (validate_witnesses fuel en k inp found cues)"
  unfolding validate_witnesses_def
  by (intro keeps_comb keeps_att keeps_delegation)

lemma keeps_attachments: "keeps R (validateAttachments fuel en k inp)"
  unfolding validateAttachments_def strip_members_def
  by (intro keeps_comb keeps_att keeps_witnesses keeps_contributed)

lemma keeps_inception: "keeps R (evaluateInception fuel en init)"
  unfolding evaluateInception_def Let_def by (intro keeps_comb keeps_attachments)

lemma keeps_rotation: "keeps R (evaluateRotation fuel en k init sn)"
  unfolding evaluateRotation_def rotation_attach_def Let_def by (intro keeps_comb keeps_attachments)

lemma keeps_interaction: "keeps R (evaluateInteraction fuel en k init sn)"
  unfolding evaluateInteraction_def Let_def by (intro keeps_comb keeps_attachments)

lemma keeps_update: "keeps R (evaluateUpdate fuel en k init)"
  unfolding evaluateUpdate_def Let_def by (intro keeps_comb keeps_rotation keeps_interaction)

lemma keeps_witnessed: "keeps R (fullyWitnessed en s)"
  unfolding fullyWitnessed_def by (intro keeps_comb keeps_getKever)

lemma keeps_last_sealing: "keeps R (last_sealing en pre target items)"
proof (induction items)
  case Nil
  show ?case by (simp add: keeps_pure)
next
  case (Cons item items)
  obtain sn said where "item = (sn, said)" by (cases item)
  then show ?case
    by (simp only: last_sealing.simps) (intro keeps_comb keeps_witnessed Cons.IH)
qed

lemma keeps_sealing: "keeps R (fetchLastSealingEventByEventSeal en pre i s d)"
  unfolding fetchLastSealingEventByEventSeal_def by (intro keeps_comb keeps_last_sealing)

lemma keeps_duplicate: "keeps R (buildDuplicateDecision en k init)"
  unfolding buildDuplicateDecision_def new_source_seal_def validDuplicateSourceSeal_def Let_def
  by (intro keeps_comb keeps_sealing)

lemma keeps_decide: "keeps R (decideEvent fuel en loc ev)"
  unfolding decideEvent_def decide_known_def Let_def
  by (intro keeps_comb keeps_duplicate keeps_update keeps_inception)

lemma keeps_anchor: "keeps R (repair_anchor en delpre said sner key)"
  unfolding repair_anchor_def by (intro keeps_comb keeps_getKever keeps_mod aess)

lemma keeps_anchors: "keeps R (repair_anchors en delpre said sner vs)"
proof (induction vs)
  case Nil
  show ?case by (simp add: keeps_pure)
next
  case (Cons v vs)
  show ?case by (simp only: repair_anchors.simps) (intro keeps_comb keeps_anchor Cons.IH)
qed

lemma keeps_repair: "keeps R (repairAnchoredDelegationSourceSeals en s)"
  unfolding repairAnchoredDelegationSourceSeals_def by (intro keeps_comb keeps_anchors)

lemma keeps_delegator: "keeps R (escrow_delegator en s)"
  unfolding escrow_delegator_def by (intro keeps_comb keeps_getKever)

lemma keeps_repair_escrow: "keeps R (repairEscrowDelegationSourceSeal en s)"
  unfolding repairEscrowDelegationSourceSeal_def repair_from_anchoring_def
  by (intro keeps_comb keeps_delegator keeps_sealing keeps_mod aess)

lemma keeps_rehydrate: "keeps R (rehydrateEscrowEnvelope en esc pre said)"
  unfolding rehydrateEscrowEnvelope_def promotableDelegationMisfit_def
  by (intro keeps_comb keeps_repair_escrow keeps_delegator)

end

section \<open>Application\<close>

text \<open>The writes of the processor: logging, escrow material and indexes, the saved state and the
  sets of local identifiers.\<close>

locale log_frame = eval_frame +
  assumes logging: "keeps R (logEvent en k args)"
    and material: "keeps R (persistEscrowEventMaterial en msg)"
    and indexing: "R db (index_escrow i db)"
    and removal: "R db (removeEscrow esc pre on said db)"
    and saving: "R db (save_state t k' db)"
    and group: "R db (sync_group k' db)"
begin

lemma keeps_accept: "keeps R (apply_accept en t cues)"
  unfolding apply_accept_def transition_kever_def emitAcceptanceCues_def Let_def
  by (intro keeps_comb logging keeps_repair keeps_mod saving group)

lemma keeps_apply: "keeps R (applyDecision en d)"
  unfolding applyDecision_def apply_duplicate_def persistEscrowInstruction_def
  by (intro keeps_comb keeps_accept logging material keeps_mod indexing)

lemma keeps_process: "keeps R (processEvent fuel en loc ev)"
  unfolding processEvent_def by (intro keeps_comb keeps_decide keeps_apply)

lemma keeps_replay: "keeps R (replayEscrowEntry fuel en loc esc pre on said)"
  unfolding replayEscrowEntry_def
  by (intro keeps_comb keeps_rehydrate keeps_decide keeps_apply keeps_mod removal)

lemma keeps_replay_all: "keeps R (replay_all fuel en loc esc rows)"
proof (induction rows)
  case Nil
  show ?case by (simp add: keeps_pure)
next
  case (Cons row rows)
  obtain pre on said where "row = (pre, on, said)" by (cases row)
  then show ?case
    by (simp only: replay_all.simps) (intro keeps_comb keeps_replay Cons.IH)
qed

lemma keeps_pass:
  "keeps R (processOrdinalEscrow fuel en loc esc pres)" "keeps R (processSetEscrow fuel en loc esc pres)"
  unfolding processOrdinalEscrow_def processSetEscrow_def by (intro keeps_comb keeps_replay_all)+

end

end
