(* ===== verification/KeverSamples.thy ===== *)
theory KeverSamples
  imports KeverEval
begin

text \<open>
  Sample data for the witnesses of the key-state machine: a transferable identifier with one
  key and one next digest, its events and the record of its state, with the primitives their
  texts parse to. Signatures of the sample surroundings always verify.
\<close>

definition ex_pre :: string where
  "ex_pre = CHR ''D'' # replicate 43 (CHR ''A'')"

definition ex_dig :: string where
  "ex_dig = CHR ''E'' # replicate 43 (CHR ''A'')"

definition ex_said :: string where
  "ex_said = CHR ''E'' # replicate 42 (CHR ''A'') @ ''B''"

definition ex_env :: env where
  "ex_env = \<lparr>en_verify = (\<lambda>code key sig ser. Inr True), en_digest = (\<lambda>code ser. replicate 32 0),
     en_json = (\<lambda>s. None), en_now = ''2024-01-01T00:00:00.000000+00:00''\<rparr>"

definition ex_icp :: serder where
  "ex_icp = \<lparr>sd_raw = [1], sd_ked = Some (JObj [(''t'', JStr ''icp''), (''d'', JStr ex_said),
      (''i'', JStr ex_pre), (''s'', JStr ''0''), (''kt'', JStr ''1''), (''k'', JArr [JStr ex_pre]),
      (''nt'', JStr ''1''), (''n'', JArr [JStr ex_dig]), (''bt'', JStr ''0''), (''b'', JArr []),
      (''c'', JArr []), (''a'', JArr [])]),
     sd_ilk = Some ''icp'', sd_said = Some ex_said, sd_pvrsn = Vrsn_1_0\<rparr>"

definition ex_said2 :: string where
  "ex_said2 = CHR ''E'' # replicate 42 (CHR ''A'') @ ''C''"

definition ex_ixn :: serder where
  "ex_ixn = \<lparr>sd_raw = [2], sd_ked = Some (JObj [(''t'', JStr ''ixn''), (''d'', JStr ex_said2),
      (''i'', JStr ex_pre), (''s'', JStr ''1''), (''p'', JStr ex_said), (''a'', JArr [])]),
     sd_ilk = Some ''ixn'', sd_said = Some ex_said2, sd_pvrsn = Vrsn_1_0\<rparr>"

definition ex_rot :: serder where
  "ex_rot = \<lparr>sd_raw = [3], sd_ked = Some (JObj [(''t'', JStr ''rot''), (''d'', JStr ex_said2),
      (''i'', JStr ex_pre), (''s'', JStr ''1''), (''p'', JStr ex_said), (''kt'', JStr ''1''),
      (''k'', JArr [JStr ex_pre]), (''nt'', JStr ''1''), (''n'', JArr [JStr ex_dig]),
      (''bt'', JStr ''0''), (''br'', JArr []), (''ba'', JArr []), (''a'', JArr [])]),
     sd_ilk = Some ''rot'', sd_said = Some ex_said2, sd_pvrsn = Vrsn_1_0\<rparr>"

definition ex_state :: key_state where
  "ex_state = \<lparr>ks_vn = [1, 0], ks_i = ex_pre, ks_s = ''0'', ks_p = [], ks_d = ex_said, ks_f = ''0'',
     ks_dt = en_now ex_env, ks_et = ''icp'', ks_kt = Some (JStr ''1''), ks_k = [ex_pre],
     ks_nt = Some (JStr ''1''), ks_n = [ex_dig], ks_bt = ''0'', ks_b = [], ks_c = [], ks_ee_s = ''0'',
     ks_ee_d = ex_said, ks_ee_br = [], ks_ee_ba = [], ks_di = []\<rparr>"

section \<open>Primitives\<close>

definition ex_key :: matter where
  "ex_key = \<lparr>mt_code = ''D'', mt_raw = replicate 32 0, mt_qb64 = ex_pre, mt_fullSize = 44,
     mt_fullSizeB2 = 33\<rparr>"

definition ex_diger :: matter where
  "ex_diger = \<lparr>mt_code = ''E'', mt_raw = replicate 32 0, mt_qb64 = ex_dig, mt_fullSize = 44,
     mt_fullSizeB2 = 33\<rparr>"

definition ex_zero :: matter where
  "ex_zero = \<lparr>mt_code = ''M'', mt_raw = [0, 0], mt_qb64 = ''MAAA'', mt_fullSize = 4, mt_fullSizeB2 = 3\<rparr>"

definition ex_one :: matter where
  "ex_one = \<lparr>mt_code = ''M'', mt_raw = [0, 1], mt_qb64 = ''MAAB'', mt_fullSize = 4, mt_fullSizeB2 = 3\<rparr>"

definition ex_tholder :: tholder where
  "ex_tholder = \<lparr>th_matter = ex_one, th_threshold = numeric_threshold 1\<rparr>"

definition ex_dater :: matter where
  "ex_dater = \<lparr>mt_code = ''1AAG'', mt_raw = [219, 77, 184, 251, 77, 126, 211, 84, 244, 209, 205, 52, 115, 77, 29, 211, 77, 52, 211, 74, 116, 209, 205, 52],
     mt_qb64 = ''1AAG2024-01-01T00c00c00d000000p00c00'', mt_fullSize = 36, mt_fullSizeB2 = 27\<rparr>"

lemma matter_of_encoded: "encodeMatterFromRaw code raw = Inr m \<Longrightarrow> matter_of_qb64 (mt_qb64 m) = Inr m"
  using parseMatterInit_qb64 by (simp add: matter_of_qb64_def)

lemma ex_key_encode: "encodeMatterFromRaw ''D'' (replicate 32 0) = Inr ex_key"
  by code_simp

lemma ex_diger_encode: "encodeMatterFromRaw ''E'' (replicate 32 0) = Inr ex_diger"
  by code_simp

lemma ex_dater_encode: "encodeMatterFromRaw ''1AAG'' (mt_raw ex_dater) = Inr ex_dater"
  by code_simp

lemma ex_codes: "''D'' \<in> set PREFIX_CODES" "''D'' \<in> set VERFER_CODES" "''E'' \<in> set DIGEST_CODES"
  "''1AAG'' \<in> set DATER_CODES"
  by code_simp+

lemma ex_primitives [simp]:
  "prefixer_of ex_pre = Inr ex_key" "verfer_of ex_pre = Inr ex_key" "diger_of ex_dig = Inr ex_diger"
  "dater_of (encodeDateTimeToDater (en_now ex_env)) = Inr ex_dater"
proof -
  have q: "mt_qb64 ex_key = ex_pre" "mt_qb64 ex_diger = ex_dig"
    "mt_qb64 ex_dater = encodeDateTimeToDater (en_now ex_env)"
    by (simp_all add: ex_key_def ex_diger_def ex_dater_def encodeDateTimeToDater_def ex_env_def)
  have c: "mt_code ex_key = ''D''" "mt_code ex_diger = ''E''" "mt_code ex_dater = ''1AAG''"
    by (simp_all add: ex_key_def ex_diger_def ex_dater_def)
  show "prefixer_of ex_pre = Inr ex_key" "verfer_of ex_pre = Inr ex_key" "diger_of ex_dig = Inr ex_diger"
    "dater_of (encodeDateTimeToDater (en_now ex_env)) = Inr ex_dater"
    using matter_of_encoded [OF ex_key_encode] matter_of_encoded [OF ex_diger_encode]
      matter_of_encoded [OF ex_dater_encode] ex_codes
    by (simp_all add: q c prefixer_of_def verfer_of_def diger_of_def dater_of_def new_prefixer_def
        new_verfer_def new_diger_def new_dater_def check_code_def ensure_def)
qed

lemma ex_numbers [simp]:
  "hydrateNumber ''0'' = Inr ex_zero" "hydrateNumber ''1'' = Inr ex_one" "number_of_nat 0 = Inr ex_zero"
  "number_num ex_zero = 0" "number_num ex_one = 1" "hex_bigint ''0'' = Inr 0" "parse_hex_int ''0'' = Inr 0"
  by code_simp+

lemma ex_threshold [simp]: "tholder_of_sith (\<lambda>s. None) (InText ''1'') = Inr ex_tholder"
  by code_simp

lemma ex_key_sel [simp]: "mt_qb64 ex_key = ex_pre" "mt_code ex_key = ''D''" "ex_pre \<noteq> []"
  by (simp_all add: ex_key_def ex_pre_def)

section \<open>A machine and its signatures\<close>

definition ex_huge :: matter where
  "ex_huge = \<lparr>mt_code = ''0A'', mt_raw = replicate 16 0, mt_qb64 = ''0A'' @ replicate 22 (CHR ''A''),
     mt_fullSize = 24, mt_fullSizeB2 = 18\<rparr>"

lemma ex_huge_num [simp]: "number_num ex_huge = 0"
  by code_simp

definition ex_siger :: indexer where
  "ex_siger = \<lparr>ix_code = ''A'', ix_raw = replicate 64 0, ix_qb64 = replicate 88 (CHR ''A''),
     ix_fullSize = 88, ix_fullSizeB2 = 66, ix_index = 0, ix_ondex = Some 0\<rparr>"

lemma ex_siger_rebuild: "siger_rebuild ex_siger = Inr ex_siger"
  by code_simp

definition ex_kever :: kever where
  "ex_kever = \<lparr>kv_version = (1, 0), kv_prefixer = ex_key, kv_sner = ex_huge, kv_fner = ex_huge,
     kv_dater = ex_dater, kv_serder = ex_icp, kv_ilk = ''icp'', kv_tholder = Some ex_tholder,
     kv_verfers = [ex_key], kv_ndigers = [ex_diger], kv_ntholder = Some ex_tholder,
     kv_toader = ex_zero, kv_wits = [], kv_cuts = [], kv_adds = [], kv_estOnly = False,
     kv_doNotDelegate = False, kv_lastEst_s = 0, kv_lastEst_d = ex_said, kv_delpre = None\<rparr>"

definition ex_init :: "serder \<Rightarrow> kever_init" where
  "ex_init s = \<lparr>ki_serder = s, ki_sigers = [ex_siger], ki_wigers = [], ki_frcs = [], ki_sscs = [],
     ki_ssts = [], ki_local = False, ki_eager = False, ki_check = False\<rparr>"

lemma ex_satisfied [simp]: "tholder_satisfy ex_tholder [0] = Inr True"
  by code_simp

lemma ex_transferable: "matter_transferable ex_key"
  by code_simp

lemma ex_iso [simp]: "dater_iso8601 ex_dater = Inr (en_now ex_env)"
  by code_simp

text \<open>One verified signature of the key, whatever the event.\<close>

lemma ex_verified:
  "verifyIndexedSignatures ex_env raw [ex_siger] [ex_key] = Inr [(0, ex_siger, ex_key)]"
  by (simp add: verifyIndexedSignatures_def nth_opt_def verfer_verify_def VERIFY_SUITES_def ex_env_def
      ex_siger_rebuild) (simp add: ex_siger_def nth_opt_def ex_siger_rebuild [unfolded ex_siger_def])

lemma ex_unwitnessed: "verifyIndexedSignatures ex_env raw [] [] = Inr []"
  by (simp add: verifyIndexedSignatures_def)

lemma ex_exposed: "exposeds ex_env ex_kever [(0, ex_siger, ex_key)] = Inr [0]"
  by (simp add: ex_siger_def ex_kever_def nth_opt_def diger_compare_def ex_codes ex_diger_def ex_env_def)

lemma ex_getters [simp]:
  "serder_pre ex_ixn = Some ex_pre" "serder_prior ex_ixn = Some ex_said" "sd_ilk ex_ixn = Some ''ixn''"
  "serder_snh ex_ixn = Some ''1''" "serder_pre ex_rot = Some ex_pre" "serder_prior ex_rot = Some ex_said"
  "sd_ilk ex_rot = Some ''rot''" "serder_snh ex_rot = Some ''1''" "serder_keys ex_rot = [ex_pre]"
  "serder_ndigs ex_rot = [ex_dig]" "serder_cuts ex_rot = []" "serder_adds ex_rot = []"
  "sad_field ex_rot ''kt'' = Some (JStr ''1'')" "sad_field ex_rot ''bt'' = Some (JStr ''0'')"
  "sd_said ex_icp = Some ex_said"
  by (simp_all add: ex_ixn_def ex_rot_def ex_icp_def serder_pre_def serder_prior_def serder_snh_def
      serder_keys_def serder_ndigs_def serder_cuts_def serder_adds_def text_field_def text_list_def
      text_of_value_def sad_field_def jfield_def)

lemma ex_sn [simp]: "serder_sn ex_ixn = Inr (Some 1)" "serder_sn ex_rot = Inr (Some 1)"
  by (simp_all add: serder_sn_def serder_sner_def makeNumberPrimitive_def)

lemma ex_kever_sel [simp]:
  "kever_pre ex_kever = ex_pre" "kever_sn ex_kever = 0" "kever_said ex_kever = ex_said"
  "kever_transferable ex_kever" "\<not> kever_delegated ex_kever" "kv_tholder ex_kever = Some ex_tholder"
  "kv_verfers ex_kever = [ex_key]" "kv_wits ex_kever = []" "kv_toader ex_kever = ex_zero"
  "kv_estOnly ex_kever = False" "kv_dater ex_kever = ex_dater" "kv_ntholder ex_kever = Some ex_tholder"
  "kv_delpre ex_kever = None"
  by (simp_all add: ex_kever_def kever_pre_def kever_sn_def ordinalNumber_def kever_said_def text_or_def
      kever_transferable_def ex_transferable kever_delegated_def)

lemma ex_not_local [simp]:
  "locallyOwned baser_empty k = False" "locallyMembered baser_empty k = False"
  "locallyWitnessed baser_empty ws = False" "locallyDelegated baser_empty p = False"
  by (simp_all add: baser_empty_def locallyOwned_def locallyMembered_def locallyWitnessed_def
      locallyDelegated_def getHab_def list_ex_iff split: option.splits)

lemma ex_attachments:
  assumes "ai_verfers inp = [ex_key]" "ai_tholder inp = Some ex_tholder" "ai_sigers inp = [ex_siger]"
    "ai_wits inp = []" "ai_wigers inp = []" "ai_toader inp = ex_zero" "ai_delpre inp = None"
    "ai_local inp = False"
  shows "validateAttachments fuel ex_env ex_kever inp baser_empty = Inr (AttVerified
    \<lparr>va_sigers = [ex_siger], va_wigers = [], va_wits = [], va_delpre = None, va_seal = ai_seal inp,
     va_cues = []\<rparr>, baser_empty)"
proof -
  have t: "hasValidThresholdMaterial (Some ex_tholder) 1"
    by (simp add: hasValidThresholdMaterial_def ex_tholder_def numeric_threshold_def)
  have n: "prior_next_satisfied ex_env ex_kever inp [(0, ex_siger, ex_key)] = Inr True"
    by (simp add: prior_next_satisfied_def ex_exposed del: exposeds.simps)
  show ?thesis
    using assms t n
    by (simp add: validateAttachments_def act_bind_def act_lift_def act_get_def act_ret_def strip_members_def
        ex_verified misfit_def Let_def controller_satisfied_def bound_indices_def validate_witnesses_def
        ex_unwitnessed witness_verdict_def validateDelegation_def verified_delegation_def
        merge_delegation_def bound_sigers_def split: option.split)
qed

end
