(* ===== verification/KeverReload.thy ===== *)
theory KeverReload
  imports KeverSamples
begin

text \<open>
  Ordinals of the first-seen log and of sequence numbers as sixteen-byte numbers, and the round
  trip of a live key-state machine through the durable record \<open>state()\<close> writes and
  \<open>reload()\<close> reads.
\<close>

section \<open>Huge ordinals\<close>

lemma bytes_num_Cons: "bytes_num (b # bs) = unat b * 256 ^ length bs + bytes_num bs"
proof -
  have "foldl (\<lambda>v w. v * 256 + unat w) a bs = a * 256 ^ length bs + foldl (\<lambda>v w. v * 256 + unat w) 0 bs"
    for a
  proof (induction bs arbitrary: a)
    case (Cons w ws)
    show ?case
      using Cons.IH [of "a * 256 + unat w"] Cons.IH [of "unat w"] by (simp add: algebra_simps)
  qed simp
  from this [of "unat b"] show ?thesis by (simp add: bytes_num_def)
qed

lemma huge_loop_length: "length (huge_loop i v raw) = i + length raw"
  by (induction i v raw rule: huge_loop.induct) auto

lemma huge_loop_num:
  "bytes_num (huge_loop i v raw) = v mod 256 ^ i * 256 ^ length raw + bytes_num raw"
proof (induction i v raw rule: huge_loop.induct)
  case (2 i v raw)
  have "v mod 256 ^ Suc i = 256 * (v div 256 mod 256 ^ i) + v mod 256"
    by (simp add: mod_mult2_eq)
  moreover have "unat (of_nat (v mod 256) :: byte) = v mod 256" by (simp add: unat_of_nat)
  ultimately show ?case using 2 by (simp add: bytes_num_Cons algebra_simps)
qed simp

lemma huge_loop_mod: "huge_loop i (v mod 256 ^ i) raw = huge_loop i v raw"
proof (induction i v raw rule: huge_loop.induct)
  case (2 i v raw)
  have "v mod 256 ^ Suc i = 256 * (v div 256 mod 256 ^ i) + v mod 256"
    by (simp add: mod_mult2_eq)
  then have "v mod 256 ^ Suc i div 256 = v div 256 mod 256 ^ i" "v mod 256 ^ Suc i mod 256 = v mod 256"
    by simp_all
  with 2 show ?case by simp
qed simp

text \<open>The size entry of the code for sixteen-byte numbers.\<close>

lemma huge_code: "map_of MATTER_SIZES ''0A'' = Some (mz 2 0 0 (Some 24) 0)" "''0A'' \<in> set NUMBER_CODES"
  by code_simp+

lemma encode_huge_raw:
  assumes "length raw = 16"
  shows "\<exists>m. encodeMatterFromRaw ''0A'' raw = Inr m \<and> mt_code m = ''0A'' \<and> mt_raw m = raw"
proof -
  have n: "normalizeVariableMatterCode ''0A'' raw = Inr ''0A''"
    using huge_code(1) by (simp add: normalizeVariableMatterCode_def mz_def)
  show ?thesis
    using assms
    by (simp add: encodeMatterFromRaw_def n sizageForCode_def huge_code mz_def matter_soft_def Let_def
        concatBytes_def length_encodeB64)
qed

lemma encodeHuge_total:
  obtains m where "encodeHugeOrdinal n = Inr m" "number_num m = n mod 2 ^ 128" "mt_code m = ''0A''"
proof -
  obtain m where m: "encodeMatterFromRaw ''0A'' (huge_loop 16 n []) = Inr m" "mt_code m = ''0A''"
    "mt_raw m = huge_loop 16 n []"
    using encode_huge_raw [of "huge_loop 16 n []"] by (auto simp: huge_loop_length)
  have "encodeHugeOrdinal n = Inr m"
    using m huge_code(2)
    by (simp add: encodeHugeOrdinal_def matter_of_raw_def parseMatterInit_def new_number_def
        check_code_def ensure_def)
  moreover have "number_num m = n mod 2 ^ 128"
    using huge_loop_num [of 16 n "[]"] by (simp add: number_num_def m bytes_num_def)
  ultimately show thesis using that m(2) by blast
qed

lemma encodeHuge_num: "encodeHugeOrdinal n = Inr m \<Longrightarrow> number_num m = n mod 2 ^ 128"
  using encodeHuge_total [of n] by auto

lemma encodeHuge_mod: "encodeHugeOrdinal (n mod 2 ^ 128) = encodeHugeOrdinal n"
  using huge_loop_mod [of 16 n "[]"] by (simp add: encodeHugeOrdinal_def)

text \<open>C23: Sixteen-byte ordinals. \<open>encodeHugeOrdinal\<close> accepts every number and keeps it
  modulo \<open>2 ^ 128\<close>: below that bound the number is read back, and two numbers share an
  encoding exactly when they agree modulo \<open>2 ^ 128\<close>.\<close>

theorem huge_ordinal_bounds:
  "(\<exists>m. encodeHugeOrdinal n = Inr m \<and> number_num m = n mod 2 ^ 128)
   \<and> (encodeHugeOrdinal n = encodeHugeOrdinal k) = (n mod 2 ^ 128 = k mod 2 ^ 128)"
proof -
  obtain m where m: "encodeHugeOrdinal n = Inr m" "number_num m = n mod 2 ^ 128"
    by (rule encodeHuge_total)
  have "n mod 2 ^ 128 = k mod 2 ^ 128" if "encodeHugeOrdinal n = encodeHugeOrdinal k"
    using encodeHuge_num [of k m] that m by simp
  moreover have "encodeHugeOrdinal n = encodeHugeOrdinal k" if "n mod 2 ^ 128 = k mod 2 ^ 128"
    using encodeHuge_mod [of n] encodeHuge_mod [of k] that by simp
  ultimately show ?thesis using m by blast
qed

section \<open>Reloading a machine\<close>

text \<open>What a machine holds once it was loaded: primitives that parse back from their text,
  ordinals below the exact range of numbers, thresholds built from an expression.\<close>

definition dated :: "matter \<Rightarrow> bool" where
  "dated d \<longleftrightarrow> dater_of (mt_qb64 d) = Inr d
     \<and> mt_qb64 d = ''1AAG'' @ drop 4 (mt_qb64 d) \<and> mt_code d = ''1AAG''
     \<and> list_all (\<lambda>c. c \<notin> set '':.+'') (mt_qb64 d) \<and> drop 4 (mt_qb64 d) \<noteq> []"

definition exact_ordinal :: "matter \<Rightarrow> bool" where
  "exact_ordinal m \<longleftrightarrow> number_num m < 2 ^ 53 \<and> encodeHugeOrdinal (number_num m) = Inr m"

definition threshold_built :: "tholder option \<Rightarrow> bool" where
  "threshold_built t \<longleftrightarrow> (\<exists>jp i th. t = Some th \<and> tholder_of_sith jp i = Inr th)"

definition kever_loaded :: "kever \<Rightarrow> bool" where
  "kever_loaded k \<longleftrightarrow>
     prefixer_of (kever_pre k) = Inr (kv_prefixer k)
     \<and> exact_ordinal (kv_sner k) \<and> exact_ordinal (kv_fner k) \<and> dated (kv_dater k)
     \<and> threshold_built (kv_tholder k) \<and> threshold_built (kv_ntholder k)
     \<and> list_all (\<lambda>v. verfer_of (mt_qb64 v) = Inr v) (kv_verfers k)
     \<and> list_all (\<lambda>d. diger_of (mt_qb64 d) = Inr d) (kv_ndigers k)
     \<and> number_of_nat (number_num (kv_toader k)) = Inr (kv_toader k)
     \<and> kv_lastEst_s k < 2 ^ 53 \<and> kv_delpre k \<noteq> Some [] \<and> kv_ilk k \<noteq> [] \<and> kever_said k \<noteq> []"

lemma encode_iso8601:
  "list_all (\<lambda>c. c \<notin> set '':.+'') dts \<Longrightarrow> encodeDateTimeToDater (toIso8601 dts) = ''1AAG'' @ dts"
  by (induction dts) (auto simp: encodeDateTimeToDater_def toIso8601_def)

lemma dated_iso8601:
  assumes "dated d"
  shows "dater_iso8601 d = Inr (toIso8601 (drop 4 (mt_qb64 d)))"
    and "dater_of (encodeDateTimeToDater (toIso8601 (drop 4 (mt_qb64 d)))) = Inr d"
proof -
  have "map_of MATTER_SIZES ''1AAG'' = Some (mz 4 0 0 (Some 36) 0)" by code_simp
  then show "dater_iso8601 d = Inr (toIso8601 (drop 4 (mt_qb64 d)))"
    using assms by (simp add: dated_def dater_iso8601_def dater_dts_def sizageForCode_def mz_def)
  have "list_all (\<lambda>c. c \<notin> set '':.+'') (drop 4 (mt_qb64 d))"
    using assms by (auto simp: dated_def list_all_iff dest: in_set_dropD)
  then show "dater_of (encodeDateTimeToDater (toIso8601 (drop 4 (mt_qb64 d)))) = Inr d"
    using assms by (simp add: encode_iso8601 dated_def)
qed

lemma tholder_of_value_again:
  "threshold_built t \<Longrightarrow> tholder_of_value en (Some (sith_or_zero t)) = Inr t"
  using tholder_of_sith_again
  by (fastforce simp: threshold_built_def tholder_of_value_def sith_or_zero_def)

lemma ordinal_again:
  assumes "exact_ordinal m"
  shows "encodeHugeOrdinal (ordinalNumber m) = Inr m"
  using assms by (simp add: exact_ordinal_def ordinalNumber_def)

lemma map_res_again:
  "list_all (\<lambda>x. f (mt_qb64 x) = Inr x) xs \<Longrightarrow> map_res f (map mt_qb64 xs) = Inr xs"
  by (induction xs) auto

lemma parse_hex_int_hex:
  assumes "n < 2 ^ 53"
  shows "parse_hex_int (hex_str n) = Inr n"
proof -
  have d: "\<not> js_white c \<and> digit_val c \<noteq> None" if "c \<in> set (hex_str n)" for c
  proof -
    have "list_all (\<lambda>c. \<not> js_white c \<and> digit_val c \<noteq> None) digit_chars" by code_simp
    then show ?thesis using that hex_chars [of n] by (auto simp: list_all_iff)
  qed
  have drop: "dropWhile js_white (hex_str n) = hex_str n"
    using d by (cases "hex_str n") auto
  have take: "takeWhile (\<lambda>c. digit_val c \<noteq> None) (hex_str n) = hex_str n"
    using d by (simp add: takeWhile_eq_all_conv del: not_None_eq)
  show ?thesis unfolding parse_hex_int_def Let_def drop take using assms by simp
qed

text \<open>A primitive parsed from ASCII text parses back from its own text.\<close>

definition ascii :: "string \<Rightarrow> bool" where
  "ascii s \<longleftrightarrow> list_all (\<lambda>c. of_char c < (128 :: nat)) s"

lemma utf8_ascii: "ascii s \<Longrightarrow> utf8 s = map byte_of_char s"
  by (induction s) (auto simp: ascii_def utf8_def utf8_char_def byte_of_char_def Let_def)

lemma text_of_ascii: "ascii s \<Longrightarrow> text_of (utf8 s) = s"
  by (simp add: utf8_ascii text_of_def comp_def)

lemma matter_of_qb64_again:
  assumes "ascii s" and "matter_of_qb64 s = Inr m"
  shows "matter_of_qb64 (mt_qb64 m) = Inr m" and "mt_qb64 m = take (mt_fullSize m) s"
    and "0 < mt_fullSize m" and "mt_fullSize m \<le> length s"
proof -
  have p: "parseMatterFromTextData (utf8 s) = Inr m"
    using assms(2) by (auto simp: matter_of_qb64_def parseMatterInit_def split: list.splits)
  note f = matter_text_frame [OF p]
  show q: "mt_qb64 m = take (mt_fullSize m) s" using f(4) by (simp add: text_of_ascii assms(1))
  show l: "0 < mt_fullSize m" "mt_fullSize m \<le> length s"
    using f(2,3) by (simp_all add: utf8_ascii assms(1))
  have a: "ascii (mt_qb64 m)" using assms(1) by (auto simp: q ascii_def list_all_iff dest: in_set_takeD)
  have "utf8 (mt_qb64 m) = take (mt_fullSize m) (utf8 s)"
    unfolding utf8_ascii [OF a] utf8_ascii [OF assms(1)] by (simp add: q take_map)
  then have "parseMatterFromTextData (utf8 (mt_qb64 m)) = Inr m" using f(6) [of "[]"] by simp
  moreover have "mt_qb64 m \<noteq> []" using l q by auto
  ultimately show "matter_of_qb64 (mt_qb64 m) = Inr m"
    by (cases "mt_qb64 m") (simp_all add: matter_of_qb64_def parseMatterInit_def)
qed

lemma check_code_Inr: "check_code codes m = Inr m' \<longleftrightarrow> m' = m \<and> mt_code m \<in> set codes"
  by (auto simp: check_code_def res_simps ensure_def)

lemma primitives_again:
  assumes "ascii s"
  shows "prefixer_of s = Inr m \<Longrightarrow> prefixer_of (mt_qb64 m) = Inr m"
    and "verfer_of s = Inr m \<Longrightarrow> verfer_of (mt_qb64 m) = Inr m"
    and "diger_of s = Inr m \<Longrightarrow> diger_of (mt_qb64 m) = Inr m"
    and "dater_of s = Inr m \<Longrightarrow> dater_of (mt_qb64 m) = Inr m"
  using matter_of_qb64_again(1) [OF assms]
  by (auto simp: prefixer_of_def verfer_of_def diger_of_def dater_of_def new_prefixer_def new_verfer_def
      new_diger_def new_dater_def check_code_Inr res_simps)

lemma map_res_primitives:
  assumes "map_res f ss = Inr ms" and "\<And>s m. s \<in> set ss \<Longrightarrow> f s = Inr m \<Longrightarrow> f (mt_qb64 m) = Inr m"
  shows "list_all (\<lambda>m. f (mt_qb64 m) = Inr m) ms"
  unfolding list_all_iff using assms(2) map_res_Inr_in [OF assms(1)] by blast

lemma loaded_date:
  assumes "ascii dt" and "dater_of (encodeDateTimeToDater dt) = Inr d"
  shows "dated d"
proof -
  let ?q = "encodeDateTimeToDater dt"
  have a: "ascii ?q" using assms(1) by (auto simp: ascii_def encodeDateTimeToDater_def list_all_iff)
  have clean: "list_all (\<lambda>c. c \<notin> set '':.+'') ?q"
    by (auto simp: encodeDateTimeToDater_def list_all_iff)
  have m: "matter_of_qb64 ?q = Inr d" and c: "mt_code d = ''1AAG''"
    using assms(2) by (auto simp: dater_of_def new_dater_def check_code_Inr res_simps DATER_CODES_def)
  note again = matter_of_qb64_again [OF a m]
  have "parseMatterFromTextData (utf8 ?q) = Inr d"
    using m by (auto simp: matter_of_qb64_def parseMatterInit_def encodeDateTimeToDater_def)
  from parseText_Inr [OF this] obtain z where z: "map_of MATTER_SIZES (mt_code d) = Some z"
    "(case m_fs z of Some f \<Rightarrow> Inr f
      | None \<Rightarrow> bind_res (b64ToInt (if 0 < m_ss z
            then drop (m_xs z) (slice (m_hs z) (m_hs z + m_ss z) (text_of (utf8 ?q))) else []))
          (\<lambda>n. Inr (m_hs z + m_ss z + n * 4))) = Inr (mt_fullSize d)" by blast
  moreover have "map_of MATTER_SIZES ''1AAG'' = Some (mz 4 0 0 (Some 36) 0)" by code_simp
  ultimately have fs: "mt_fullSize d = 36" by (auto simp: c mz_def)
  have q: "mt_qb64 d = take 36 ?q" "36 \<le> length ?q" using again(2,4) fs by simp_all
  then have "mt_qb64 d = ''1AAG'' @ drop 4 (mt_qb64 d)" "drop 4 (mt_qb64 d) \<noteq> []"
    by (auto simp: encodeDateTimeToDater_def)
  moreover have "list_all (\<lambda>c. c \<notin> set '':.+'') (mt_qb64 d)"
    using clean by (auto simp: q(1) list_all_iff dest: in_set_takeD)
  ultimately show ?thesis
    using primitives_again(4) [OF a assms(2)] by (simp add: dated_def c)
qed

lemma loaded_threshold:
  "tholder_of_value en v = Inr t \<Longrightarrow> v \<noteq> None \<Longrightarrow> threshold_built t"
  by (cases v) (simp_all add: tholder_of_value_def threshold_built_def res_simps, blast)

text \<open>The conditions under which a record's machine is exact: ASCII texts, thresholds, numbers
  below the exact range.\<close>

definition plain_state :: "key_state \<Rightarrow> bool" where
  "plain_state st \<longleftrightarrow> ascii (ks_i st) \<and> ascii (ks_dt st) \<and> list_all ascii (ks_k st)
     \<and> list_all ascii (ks_n st) \<and> ks_kt st \<noteq> None \<and> ks_nt st \<noteq> None"

lemma exact_huge:
  "encodeHugeOrdinal n = Inr m \<Longrightarrow> number_num m < 2 ^ 53 \<Longrightarrow> exact_ordinal m"
  using encodeHuge_num [of n m] encodeHuge_mod [of n] by (simp add: exact_ordinal_def)

lemma loadState_loaded:
  assumes "loadState en st s = Inr k" and "plain_state st" and "sd_said s = Some (c # cs)"
    and "number_num (kv_sner k) < 2 ^ 53" and "number_num (kv_fner k) < 2 ^ 53"
    and "kv_lastEst_s k < 2 ^ 53"
  shows "kever_loaded k"
proof -
  have ok: "ks_et st \<noteq> []" using assms(1) by (auto simp: loadState_def split: if_splits)
  from assms(1) obtain sn fn where k:
    "prefixer_of (ks_i st) = Inr (kv_prefixer k)"
    "encodeHugeOrdinal sn = Inr (kv_sner k)" "encodeHugeOrdinal fn = Inr (kv_fner k)"
    "dater_of (encodeDateTimeToDater (ks_dt st)) = Inr (kv_dater k)"
    "tholder_of_value en (ks_kt st) = Inr (kv_tholder k)"
    "tholder_of_value en (ks_nt st) = Inr (kv_ntholder k)"
    "map_res verfer_of (ks_k st) = Inr (kv_verfers k)" "map_res diger_of (ks_n st) = Inr (kv_ndigers k)"
    "numberPrimitiveFromHex (ks_bt st) = Inr (kv_toader k)" "kv_ilk k = ks_et st"
    "kv_delpre k = (if ks_di st = [] then None else Some (ks_di st))" "kv_serder k = s"
    unfolding loadState_def by (auto simp: res_simps split: if_split_asm)
  note p = assms(2) [unfolded plain_state_def]
  have "list_all (\<lambda>v. verfer_of (mt_qb64 v) = Inr v) (kv_verfers k)"
    using map_res_primitives [OF k(7)] primitives_again(2) p by (auto simp: list_all_iff)
  moreover have "list_all (\<lambda>d. diger_of (mt_qb64 d) = Inr d) (kv_ndigers k)"
    using map_res_primitives [OF k(8)] primitives_again(3) p by (auto simp: list_all_iff)
  moreover have "number_of_nat (number_num (kv_toader k)) = Inr (kv_toader k)"
    using k(9) by (auto simp: numberPrimitiveFromHex_def hydrateNumber_def res_simps
        dest: number_of_nat_num(1))
  ultimately show ?thesis
    using k p ok assms primitives_again(1) loaded_date loaded_threshold exact_huge
    by (auto simp: kever_loaded_def kever_pre_def kever_said_def text_or_def)
qed

text \<open>C22: Saving and reloading. A loaded machine, written with \<open>state()\<close> and reloaded
  from the record next to its stored event, is the machine it was: prefix, ordinals, date,
  thresholds, keys, next digests, witnesses, traits, last establishment and delegator.\<close>

theorem kever_reload_state:
  assumes "kever_loaded k" and "kever_state k = Inr st"
    and "getEvtSerder db (kever_pre k) (kever_said k) = Some (kv_serder k)"
  shows "kever_reload en db st = Inr k"
proof -
  note w = assms(1) [unfolded kever_loaded_def]
  note iso = dated_iso8601 [of "kv_dater k"]
  have st: "st = \<lparr>ks_vn = [fst (kv_version k), snd (kv_version k)], ks_i = kever_pre k,
      ks_s = hex_str (kever_sn k), ks_p = text_or [] (serder_prior (kv_serder k)),
      ks_d = kever_said k, ks_f = hex_str (kever_fn k),
      ks_dt = toIso8601 (drop 4 (mt_qb64 (kv_dater k))), ks_et = kv_ilk k,
      ks_kt = Some (sith_or_zero (kv_tholder k)), ks_k = map mt_qb64 (kv_verfers k),
      ks_nt = Some (sith_or_zero (kv_ntholder k)), ks_n = kever_ndigs k,
      ks_bt = number_numh (kv_toader k), ks_b = kv_wits k,
      ks_c = config_traits (kv_estOnly k) (kv_doNotDelegate k),
      ks_ee_s = hex_str (kv_lastEst_s k), ks_ee_d = kv_lastEst_d k, ks_ee_br = kv_cuts k,
      ks_ee_ba = kv_adds k, ks_di = text_or [] (kv_delpre k)\<rparr>"
    using assms(2) w iso by (simp add: kever_state_def)
  have "kever_pre k \<noteq> []"
    using w by (auto simp: prefixer_of_def matter_of_qb64_def parseMatterInit_def)
  moreover have "toIso8601 (drop 4 (mt_qb64 (kv_dater k))) \<noteq> []"
    using w by (simp add: dated_def toIso8601_def)
  ultimately have ne: "\<not> (ks_i st = [] \<or> ks_d st = [] \<or> ks_s st = [] \<or> ks_f st = []
      \<or> ks_dt st = [] \<or> ks_et st = [])"
    using w by (simp add: st)
  have di: "text_or [] (kv_delpre k) = [] \<longleftrightarrow> kv_delpre k = None"
    "kv_delpre k \<noteq> None \<Longrightarrow> Some (text_or [] (kv_delpre k)) = kv_delpre k"
    using w by (auto simp: text_or_def split: option.splits)
  have traits: "(''EO'' \<in> set (config_traits a b)) = a" "(''DND'' \<in> set (config_traits a b)) = b" for a b
    by (simp_all add: config_traits_def)
  have "loadState en st (kv_serder k) = Inr k"
    unfolding loadState_def if_not_P [OF ne] unfolding st
    using w iso
    by (auto simp: ordinal_again kever_sn_def kever_fn_def tholder_of_value_again map_res_again
        kever_ndigs_def numberPrimitiveFromHex_def hydrateNumber_def number_numh_def di traits
        parse_hex_int_hex vn_at_def intro!: kever.equality)
  then show ?thesis
    using ne assms(3) by (simp add: kever_reload_def st)
qed

text \<open>The sample record is plain and its machine is loaded.\<close>

lemma ex_state_plain: "plain_state ex_state"
  by code_simp

lemma ex_load:
  obtains k where "loadState ex_env ex_state ex_icp = Inr k" "kever_loaded k" "kever_pre k = ex_pre"
    "kever_said k = ex_said" "kv_serder k = ex_icp"
proof -
  obtain z where z: "encodeHugeOrdinal 0 = Inr z" "number_num z = 0"
    using encodeHuge_total [of 0] by auto
  have e: "en_json ex_env = (\<lambda>s. None)" "ex_pre \<noteq> []" "ex_said \<noteq> []" "en_now ex_env \<noteq> []"
    by (simp_all add: ex_env_def ex_pre_def ex_said_def)
  obtain k where k: "loadState ex_env ex_state ex_icp = Inr k"
    "kv_sner k = z" "kv_fner k = z" "kv_lastEst_s k = 0" "kv_prefixer k = ex_key" "kv_serder k = ex_icp"
    by (simp add: loadState_def ex_state_def z e tholder_of_value_def sith_input_def
        numberPrimitiveFromHex_def)
  have s: "sd_said ex_icp = Some (CHR ''E'' # tl ex_said)" by (simp add: ex_icp_def ex_said_def)
  have "kever_loaded k" using loadState_loaded [OF k(1) ex_state_plain s] k z by simp
  moreover have "kever_pre k = ex_pre" "kever_said k = ex_said"
    using k by (simp_all add: kever_pre_def kever_said_def ex_key_def ex_icp_def text_or_def)
  ultimately show thesis using that k by blast
qed

theorem kever_reload_state_witness:
  "\<exists>k st. kever_loaded k \<and> kever_state k = Inr st
     \<and> kever_reload ex_env (baser_empty\<lparr>db_evts := [(ex_pre, ex_said) \<mapsto> ex_icp]\<rparr>) st = Inr k"
proof -
  obtain k where k: "kever_loaded k" "kever_pre k = ex_pre" "kever_said k = ex_said" "kv_serder k = ex_icp"
    by (rule ex_load)
  then obtain st where st: "kever_state k = Inr st"
    using dated_iso8601(1) [of "kv_dater k"] by (auto simp: kever_state_def kever_loaded_def)
  show ?thesis
    using k st kever_reload_state [OF k(1) st,
        of "baser_empty\<lparr>db_evts := [(ex_pre, ex_said) \<mapsto> ex_icp]\<rparr>" ex_env]
    by (auto simp: getEvtSerder_def)
qed

end
