(* ===== verification/KeveryInv.thy ===== *)
theory KeveryInv
  imports KeverFrame KeverReload "HOL-Library.Sublist"
begin

text \<open>
  The runs of the event processor and what they keep: the step relation, evaluation as a read
  up to hints, the append-only reading of the stores, and the invariant that ties the key event
  log, the first-seen log, the ordinals and the stored bodies together.
\<close>

section \<open>Runs\<close>

text \<open>One turn of the processor: a message or a pass over one escrow index. The surroundings
  may differ between turns (the clock moves on); the fuel and the local flag are the
  processor's.\<close>

inductive kevery_step :: "nat \<Rightarrow> bool \<Rightarrow> baser \<Rightarrow> baser \<Rightarrow> bool" for fuel loc where
  step_event: "processEvent fuel en loc ev db = Inr (r, db') \<Longrightarrow> kevery_step fuel loc db db'"
| step_ordinal: "processOrdinalEscrow fuel en loc esc pres db = Inr (cues, db')
    \<Longrightarrow> kevery_step fuel loc db db'"
| step_set: "processSetEscrow fuel en loc esc pres db = Inr (cues, db') \<Longrightarrow> kevery_step fuel loc db db'"

inductive kevery_run :: "nat \<Rightarrow> bool \<Rightarrow> baser \<Rightarrow> baser \<Rightarrow> bool" for fuel loc where
  run_refl: "kevery_run fuel loc db db"
| run_step: "kevery_run fuel loc db db' \<Longrightarrow> kevery_step fuel loc db' db'' \<Longrightarrow> kevery_run fuel loc db db''"

inductive_cases kevery_stepE: "kevery_step fuel loc db db'"

context log_frame
begin

lemma step: "kevery_step fuel loc db db' \<Longrightarrow> R db db'"
  by (erule kevery_stepE) (auto dest: keepsD [OF keeps_process] keepsD [OF keeps_pass(1)]
      keepsD [OF keeps_pass(2)])

lemma run: "kevery_run fuel loc db db' \<Longrightarrow> R db db'"
  by (induction rule: kevery_run.induct) (auto intro: refl trans step)

end

section \<open>Effects of logging\<close>

lemma log_material_sel [simp]:
  "db_evts (log_material key args d w db) = map_put key (ke_serder args) (db_evts db)"
  "db_kels (log_material key args d w db) = db_kels db" "db_fels (log_material key args d w db) = db_fels db"
  "db_fons (log_material key args d w db) = db_fons db"
  by (simp_all add: log_material_def)

lemma log_seal_sel [simp]:
  "db_evts (log_seal k key args db) = db_evts db" "db_kels (log_seal k key args db) = db_kels db"
  "db_fels (log_seal k key args db) = db_fels db" "db_fons (log_seal k key args db) = db_fons db"
  by (simp_all add: log_seal_def split: option.splits)

lemma log_source_sel [simp]:
  "db_evts (log_source key b db) = db_evts db" "db_kels (log_source key b db) = db_kels db"
  "db_fels (log_source key b db) = db_fels db" "db_fons (log_source key b db) = db_fons db"
  by (simp_all add: log_source_def)

lemma kels_add_sel [simp]:
  "db_kels (kels_add pre n said db) = (db_kels db)(pre := on_add n said (db_kels db pre))"
  "db_evts (kels_add pre n said db) = db_evts db" "db_fels (kels_add pre n said db) = db_fels db"
  "db_fons (kels_add pre n said db) = db_fons db"
  by (simp_all add: kels_add_def)

lemma logEvent_effect:
  assumes "logEvent en k args db = Inr ((fn, dater, cues), db')"
  obtains n pre said where
    "serder_sn (ke_serder args) = Inr (Some n)" "dg_of (ke_serder args) = Some (pre, said)"
    "db_evts db' = map_put (pre, said) (ke_serder args) (db_evts db)"
    "db_kels db' = (db_kels db)(pre := on_add n said (db_kels db pre))"
    "if ke_first args then fn = Some (length (db_fels db pre))
        \<and> db_fels db' = (db_fels db)(pre := db_fels db pre @ [said])
        \<and> (\<exists>m. encodeHugeOrdinal (length (db_fels db pre)) = Inr m
             \<and> db_fons db' = map_pin (pre, said) m (db_fons db))
     else fn = None \<and> db_fels db' = db_fels db \<and> db_fons db' = db_fons db"
proof -
  let ?s = "ke_serder args"
  obtain sn where sn: "serder_sn ?s = Inr sn"
    using assms unfolding logEvent_def Let_def by (auto simp: act_simps)
  then obtain n where n: "serder_sn ?s = Inr (Some n)"
    using assms unfolding logEvent_def Let_def by (cases sn) (auto simp: act_simps)
  have t: "truthy (serder_pre ?s)" "truthy (sd_said ?s)"
    using assms unfolding logEvent_def Let_def by (auto simp: act_simps n split: if_splits)
  then have d: "dg_of ?s = Some (text_or [] (serder_pre ?s), text_or [] (sd_said ?s))"
    by (simp add: dg_of_def)
  show thesis
    apply (rule that [OF n d])
    using assms t unfolding logEvent_def Let_def
    by (auto simp: act_simps n log_first_def appendFel_def res_simps split: if_splits)
qed

section \<open>Evaluation reads\<close>

text \<open>The database apart from source seals of delegated events and the cache.\<close>

definition without_hints :: "baser \<Rightarrow> baser" where
  "without_hints db = db\<lparr>db_aess := Map.empty, db_kevers := Map.empty\<rparr>"

definition only_hints :: "baser \<Rightarrow> baser \<Rightarrow> bool" where
  "only_hints db db' \<longleftrightarrow> without_hints db' = without_hints db \<and> db_kevers db \<subseteq>\<^sub>m db_kevers db'"

interpretation hints: eval_frame only_hints
proof
  show "only_hints a a" for a by (simp add: only_hints_def)
  show "only_hints a c" if "only_hints a b" "only_hints b c" for a b c
    using that map_le_trans [of "db_kevers a" "db_kevers b" "db_kevers c"] by (simp add: only_hints_def)
  show "only_hints db (db\<lparr>db_kevers := (db_kevers db)(pre := Some k)\<rparr>)"
    if "db_kevers db pre = None" for db pre k
    using that by (auto simp: only_hints_def without_hints_def map_le_def)
  show "only_hints db (db\<lparr>db_aess := as\<rparr>)" for db as
    by (simp add: only_hints_def without_hints_def)
qed

lemma without_hints_sel:
  assumes "without_hints a = without_hints b"
  shows "db_evts a = db_evts b" "db_kels a = db_kels b" "db_fels a = db_fels b" "db_fons a = db_fons b"
    "db_states a = db_states b" "db_habs a = db_habs b" "db_prefixes a = db_prefixes b"
    "db_groups a = db_groups b" "db_sigs a = db_sigs b" "db_wigs a = db_wigs b" "db_esrs a = db_esrs b"
  using arg_cong [OF assms, of db_evts]
    arg_cong [OF assms, of db_kels]
    arg_cong [OF assms, of db_fels]
    arg_cong [OF assms, of db_fons]
    arg_cong [OF assms, of db_states]
    arg_cong [OF assms, of db_habs]
    arg_cong [OF assms, of db_prefixes]
    arg_cong [OF assms, of db_groups]
    arg_cong [OF assms, of db_sigs]
    arg_cong [OF assms, of db_wigs]
    arg_cong [OF assms, of db_esrs]
  by (simp_all add: without_hints_def)

section \<open>The stores only grow\<close>

definition grows :: "baser \<Rightarrow> baser \<Rightarrow> bool" where
  "grows db db' \<longleftrightarrow>
     db_evts db \<subseteq>\<^sub>m db_evts db'
     \<and> (\<forall>pre. prefix (db_fels db pre) (db_fels db' pre))
     \<and> (\<forall>pre n. set (on_get n (db_kels db pre)) \<subseteq> set (on_get n (db_kels db' pre)))
     \<and> dom (db_fons db) \<subseteq> dom (db_fons db') \<and> dom (db_states db) \<subseteq> dom (db_states db')
     \<and> (\<forall>key. set (db_sigs db key) \<subseteq> set (db_sigs db' key)
          \<and> set (db_wigs db key) \<subseteq> set (db_wigs db' key) \<and> set (db_wits db key) \<subseteq> set (db_wits db' key))
     \<and> (\<forall>key. db_esrs db key = Some True \<longrightarrow> db_esrs db' key = Some True)"

named_theorems store_defs \<open>the primitive writes of the processor\<close>
lemmas [store_defs] = log_material_def log_seal_def log_source_def kels_add_def escrow_material_def
  index_escrow_def removeEscrow_def save_state_def pinState_def sync_group_def esr_update_def io_store_def

lemma map_put_le: "m \<subseteq>\<^sub>m map_put k v m"
  by (auto simp: map_le_def map_put_def)

lemma grows_material: "grows db (log_material key args d w db)"
  by (auto simp: grows_def log_material_def map_put_le io_store_def io_put_set)

lemma grows_seal: "grows db (log_seal k key args db)"
  by (simp add: grows_def log_seal_def split: option.splits)

lemma grows_source: "grows db (log_source key b db)"
  by (auto simp: grows_def log_source_def esr_update_def split: option.splits)

lemma grows_kels: "grows db (kels_add pre n said db)"
  using ol.get_mono by (fastforce simp: grows_def kels_add_def)

lemma grows_first: "keeps grows (log_first key args d)"
  by (auto simp: keeps_def log_first_def appendFel_def res_simps grows_def map_pin_def)

lemma grows_escrow: "grows db (escrow_material key args d w db)"
  by (auto simp: grows_def escrow_material_def log_source_def log_material_def map_put_le io_store_def
      io_put_set esr_update_def split: option.splits)

interpretation grow: act_frame grows
proof
  show "grows a a" for a by (simp add: grows_def)
  show "grows a c" if "grows a b" "grows b c" for a b c
    using that unfolding grows_def by (meson map_le_trans prefix_order.trans subset_trans)
qed

interpretation grow: log_frame grows
proof
  show "grows db (db\<lparr>db_kevers := (db_kevers db)(pre := Some k)\<rparr>)" for db pre k
    by (simp add: grows_def)
  show "grows db (db\<lparr>db_aess := as\<rparr>)" for db as by (simp add: grows_def)
  show "keeps grows (logEvent en k args)" for en k args
    unfolding logEvent_def Let_def
    by (intro grow.keeps_comb grow.keeps_mod grows_first grows_material grows_seal grows_source grows_kels)
  show "keeps grows (persistEscrowEventMaterial en msg)" for en msg
    unfolding persistEscrowEventMaterial_def
    by (intro grow.keeps_comb grow.keeps_mod grows_escrow)
  show "grows db (index_escrow i db)" for i db
    by (simp add: grows_def index_escrow_def Let_def split: escrow_kind.split)
  show "grows db (removeEscrow esc pre on said db)" for esc pre on said db
    by (simp add: grows_def removeEscrow_def Let_def split: escrow_kind.split)
  show "grows db (save_state t k db)" for t k db
    by (auto simp: grows_def save_state_def pinState_def)
  show "grows db (sync_group k db)" for k db
    by (simp add: grows_def sync_group_def split: option.split)
qed

section \<open>Shapes of the stores\<close>

text \<open>Logs are sorted by ordinal with nonempty buckets, buckets hold no value twice.\<close>

definition stores_shaped :: "baser \<Rightarrow> bool" where
  "stores_shaped db \<longleftrightarrow>
     (\<forall>pre. log_ok (db_kels db pre) \<and> log_ok (db_ooes db pre) \<and> log_ok (db_pses db pre)
        \<and> log_ok (db_pwes db pre) \<and> log_ok (db_pdes db pre) \<and> log_ok (db_ldes db pre)
        \<and> distinct (db_delegables db pre) \<and> distinct (db_misfits db pre) \<and> distinct (db_qnfs db [pre]))
     \<and> (\<forall>key. distinct (db_sigs db key) \<and> distinct (db_wigs db key) \<and> distinct (db_wits db key))"

definition shapes_kept :: "baser \<Rightarrow> baser \<Rightarrow> bool" where
  "shapes_kept db db' \<longleftrightarrow> (stores_shaped db \<longrightarrow> stores_shaped db')"

interpretation shape: act_frame shapes_kept
  by unfold_locales (simp_all add: shapes_kept_def)

lemma shapes_log:
  "shapes_kept db (log_material key args d w db)" "shapes_kept db (log_seal k key args db)"
  "shapes_kept db (log_source key b db)" "shapes_kept db (kels_add pre n said db)"
  "shapes_kept db (escrow_material key args d w db)"
  by (cases key, simp add: shapes_kept_def stores_shaped_def store_defs io_put_distinct on_add_ok
      split: option.split)+

interpretation shape: log_frame shapes_kept
proof
  show "shapes_kept db (db\<lparr>db_kevers := (db_kevers db)(pre := Some k)\<rparr>)" for db pre k
    by (simp add: shapes_kept_def stores_shaped_def)
  show "shapes_kept db (db\<lparr>db_aess := as\<rparr>)" for db as by (simp add: shapes_kept_def stores_shaped_def)
  have first: "keeps shapes_kept (log_first key args d)" for key args d
    by (auto simp: keeps_def log_first_def appendFel_def res_simps shapes_kept_def stores_shaped_def)
  show "keeps shapes_kept (logEvent en k args)" for en k args
    unfolding logEvent_def Let_def by (intro shape.keeps_comb shape.keeps_mod first shapes_log)
  show "keeps shapes_kept (persistEscrowEventMaterial en msg)" for en msg
    unfolding persistEscrowEventMaterial_def by (intro shape.keeps_comb shape.keeps_mod shapes_log)
  show "shapes_kept db (index_escrow i db)" for i db
    by (simp add: shapes_kept_def stores_shaped_def index_escrow_def Let_def on_add_ok io_add_distinct
        split: escrow_kind.split)
  show "shapes_kept db (removeEscrow esc pre on said db)" for esc pre on said db
    by (simp add: shapes_kept_def stores_shaped_def removeEscrow_def Let_def on_rem_ok
        split: escrow_kind.split)
  show "shapes_kept db (save_state t k db)" for t k db
    by (simp add: shapes_kept_def stores_shaped_def save_state_def pinState_def)
  show "shapes_kept db (sync_group k db)" for k db
    by (simp add: shapes_kept_def stores_shaped_def sync_group_def split: option.split)
qed

section \<open>Links between the stores\<close>

text \<open>A digest in the key event log or the first-seen log names a stored body of that identifier
  and digest; a first-seen ordinal points into the first-seen log, modulo the width of its
  encoding; and every entry of that log has its ordinal.\<close>

definition stores_linked :: "baser \<Rightarrow> bool" where
  "stores_linked db \<longleftrightarrow>
     (\<forall>key s. db_evts db key = Some s \<longrightarrow> dg_of s = Some key)
     \<and> (\<forall>pre n said. said \<in> set (on_get n (db_kels db pre)) \<longrightarrow> db_evts db (pre, said) \<noteq> None)
     \<and> (\<forall>pre said. said \<in> set (db_fels db pre) \<longrightarrow>
          db_evts db (pre, said) \<noteq> None \<and> db_fons db (pre, said) \<noteq> None)
     \<and> (\<forall>pre said m. db_fons db (pre, said) = Some m \<longrightarrow>
          (\<exists>i < length (db_fels db pre). db_fels db pre ! i = said \<and> number_num m = i mod 2 ^ 128))"

definition links_kept :: "baser \<Rightarrow> baser \<Rightarrow> bool" where
  "links_kept db db' \<longleftrightarrow> (stores_linked db \<longrightarrow> stores_linked db')"

lemma links_same:
  assumes "db_evts db' = db_evts db" "db_kels db' = db_kels db" "db_fels db' = db_fels db"
    "db_fons db' = db_fons db"
  shows "links_kept db db'"
  using assms by (simp add: links_kept_def stores_linked_def)

text \<open>Every ordinal points at its digest.\<close>

definition points :: "(string \<Rightarrow> string list) \<Rightarrow> (dg \<Rightarrow> matter option) \<Rightarrow> bool" where
  "points L F \<longleftrightarrow> (\<forall>pre said m. F (pre, said) = Some m \<longrightarrow>
     (\<exists>i < length (L pre). L pre ! i = said \<and> number_num m = i mod 2 ^ 128))"

lemma points_append:
  assumes "points L F" and "number_num m = length (L pre) mod 2 ^ 128"
  shows "points (L(pre := L pre @ [said])) (map_pin (pre, said) m F)"
  unfolding points_def
proof (intro allI impI)
  fix p v m' assume e: "map_pin (pre, said) m F (p, v) = Some m'"
  let ?L = "L(pre := L pre @ [said])"
  show "\<exists>i < length (?L p). ?L p ! i = v \<and> number_num m' = i mod 2 ^ 128"
  proof (cases "(p, v) = (pre, said)")
    case True
    then show ?thesis using e assms(2) by (intro exI [of _ "length (L pre)"]) (simp add: map_pin_get)
  next
    case False
    then have "F (p, v) = Some m'" using e by (auto simp: map_pin_get split: if_splits)
    then obtain i where "i < length (L p)" "L p ! i = v" "number_num m' = i mod 2 ^ 128"
      using assms(1) unfolding points_def by blast
    then show ?thesis by (intro exI [of _ i]) (auto simp: nth_append)
  qed
qed

lemma links_log: "keeps links_kept (logEvent en k args)"
  unfolding keeps_def links_kept_def
proof (intro allI impI)
  fix db x db' assume r: "logEvent en k args db = Inr (x, db')" and l: "stores_linked db"
  obtain fn dater cues where x: "x = (fn, dater, cues)" by (cases x)
  obtain n pre said where e: "dg_of (ke_serder args) = Some (pre, said)"
    "db_evts db' = map_put (pre, said) (ke_serder args) (db_evts db)"
    "db_kels db' = (db_kels db)(pre := on_add n said (db_kels db pre))"
    and f: "if ke_first args then fn = Some (length (db_fels db pre))
        \<and> db_fels db' = (db_fels db)(pre := db_fels db pre @ [said])
        \<and> (\<exists>m. encodeHugeOrdinal (length (db_fels db pre)) = Inr m
             \<and> db_fons db' = map_pin (pre, said) m (db_fons db))
     else fn = None \<and> db_fels db' = db_fels db \<and> db_fons db' = db_fons db"
    using logEvent_effect [OF r [unfolded x]] by metis
  note l = l [unfolded stores_linked_def]
  have evts: "\<forall>key s. db_evts db' key = Some s \<longrightarrow> dg_of s = Some key"
    using l e(1) by (auto simp: e(2) map_put_get split: if_splits)
  have kels: "\<forall>pre n v. v \<in> set (on_get n (db_kels db' pre)) \<longrightarrow> db_evts db' (pre, v) \<noteq> None"
    using l by (auto simp: e(2,3) map_put_get ol.get_member split: if_splits)
  have fels: "\<forall>p v. v \<in> set (db_fels db' p) \<longrightarrow> db_evts db' (p, v) \<noteq> None \<and> db_fons db' (p, v) \<noteq> None"
    using l f by (auto simp: e(2) map_put_get map_pin_get split: if_splits)
  have old: "points (db_fels db) (db_fons db)" using l unfolding points_def by blast
  have "points (db_fels db') (db_fons db')"
    using f old points_append [OF old] encodeHuge_num by (auto split: if_splits)
  then show "stores_linked db'" unfolding stores_linked_def points_def using evts kels fels by blast
qed

lemma links_escrow: "keeps links_kept (persistEscrowEventMaterial en msg)"
  by (auto simp: keeps_def persistEscrowEventMaterial_def act_simps links_kept_def stores_linked_def
      escrow_material_def log_source_def log_material_def map_put_get split: option.splits if_splits)

interpretation link: log_frame links_kept
proof
  show "links_kept a a" for a by (simp add: links_kept_def)
  show "links_kept a c" if "links_kept a b" "links_kept b c" for a b c
    using that by (simp add: links_kept_def)
  show "links_kept db (db\<lparr>db_kevers := (db_kevers db)(pre := Some k)\<rparr>)" for db pre k
    by (rule links_same) simp_all
  show "links_kept db (db\<lparr>db_aess := as\<rparr>)" for db as by (rule links_same) simp_all
  show "keeps links_kept (logEvent en k args)" for en k args by (rule links_log)
  show "keeps links_kept (persistEscrowEventMaterial en msg)" for en msg by (rule links_escrow)
  show "links_kept db (index_escrow i db)" for i db
    by (rule links_same; simp add: index_escrow_def Let_def split: escrow_kind.split)
  show "links_kept db (removeEscrow esc pre on said db)" for esc pre on said db
    by (rule links_same; simp add: removeEscrow_def Let_def split: escrow_kind.split)
  show "links_kept db (save_state t k db)" for t k db
    by (rule links_same; simp add: save_state_def pinState_def)
  show "links_kept db (sync_group k db)" for k db
    by (rule links_same; simp add: sync_group_def split: option.split)
qed

end
