(* ===== verification/KeverSafety.thy ===== *)
theory KeverSafety
  imports KeveryInv "HOL-Library.Multiset"
begin

text \<open>
  What an accepted event has proved: the signatures that count, the controller, prior-next and
  witness thresholds, the hash chain and the rules of recovery, local protection and the anchor
  of a delegated event.
\<close>

section \<open>Verified signatures\<close>

definition good_siger :: "env \<Rightarrow> byte list \<Rightarrow> matter list \<Rightarrow> indexer \<Rightarrow> bool" where
  "good_siger en raw verfers s \<longleftrightarrow>
     (\<exists>v. nth_opt verfers (ix_index s) = Some v \<and> verfer_verify en v (ix_raw s) raw = Inr True)"

definition bound_ok :: "env \<Rightarrow> byte list \<Rightarrow> matter list \<Rightarrow> indexer list \<Rightarrow> bound_siger \<Rightarrow> bool" where
  "bound_ok en raw verfers sigers b \<longleftrightarrow>
     (case b of (i, s', v) \<Rightarrow> nth_opt verfers i = Some v \<and>
        (\<exists>s \<in> set sigers. ix_index s = i \<and> siger_rebuild s = Inr s' \<and> verfer_verify en v (ix_raw s) raw = Inr True))"

lemma bound_ok_mono: "bound_ok en raw vs ss b \<Longrightarrow> set ss \<subseteq> set ss' \<Longrightarrow> bound_ok en raw vs ss' b"
  by (auto simp: bound_ok_def)

lemma verify_loop_spec:
  assumes "verify_loop en raw verfers acc sigers = Inr found"
    and "distinct (map fst acc)" and "\<forall>b \<in> set acc. bound_ok en raw verfers done b"
    and "\<forall>s \<in> set done. good_siger en raw verfers s \<longrightarrow> ix_index s \<in> fst ` set acc"
  shows "distinct (map fst found) \<and> (\<forall>b \<in> set found. bound_ok en raw verfers (done @ sigers) b)
    \<and> (\<forall>s \<in> set (done @ sigers). good_siger en raw verfers s \<longrightarrow> ix_index s \<in> fst ` set found)"
  using assms
proof (induction sigers arbitrary: acc "done")
  case Nil
  then show ?case by simp
next
  case (Cons s ss)
  have mono: "\<forall>b \<in> set acc. bound_ok en raw verfers (done @ [s]) b"
    using Cons.prems(3) bound_ok_mono [of en raw verfers "done" _ "done @ [s]"] by auto
  show ?case
  proof (cases "\<exists>v. nth_opt verfers (ix_index s) = Some v \<and> ix_index s \<notin> fst ` set acc
      \<and> verfer_verify en v (ix_raw s) raw = Inr True")
    case True
    then obtain v s' where v: "nth_opt verfers (ix_index s) = Some v" "ix_index s \<notin> fst ` set acc"
      "verfer_verify en v (ix_raw s) raw = Inr True" "siger_rebuild s = Inr s'"
      and r: "verify_loop en raw verfers (acc @ [(ix_index s, s', v)]) ss = Inr found"
      using Cons.prems(1) by (auto simp: res_simps)
    have "bound_ok en raw verfers (done @ [s]) (ix_index s, s', v)"
      using v by (auto simp: bound_ok_def)
    then have "\<forall>b \<in> set (acc @ [(ix_index s, s', v)]). bound_ok en raw verfers (done @ [s]) b"
      using mono by simp
    moreover have "distinct (map fst (acc @ [(ix_index s, s', v)]))"
      using Cons.prems(2) v(2) by simp
    moreover have "\<forall>x \<in> set (done @ [s]). good_siger en raw verfers x \<longrightarrow>
        ix_index x \<in> fst ` set (acc @ [(ix_index s, s', v)])"
      using Cons.prems(4) by auto
    ultimately show ?thesis using Cons.IH [OF r, of "done @ [s]"] by simp
  next
    case False
    then have r: "verify_loop en raw verfers acc ss = Inr found"
      using Cons.prems(1) by (auto simp: res_simps split: option.splits if_splits)
    have "\<forall>x \<in> set (done @ [s]). good_siger en raw verfers x \<longrightarrow> ix_index x \<in> fst ` set acc"
      using Cons.prems(4) False by (auto simp: good_siger_def)
    then show ?thesis using Cons.IH [OF r Cons.prems(2) mono] by simp
  qed
qed

lemma verifyIndexed_spec:
  assumes "verifyIndexedSignatures en raw sigers verfers = Inr found"
  shows "sorted_wrt (<) (bound_indices found)"
    and "\<forall>b \<in> set found. bound_ok en raw verfers sigers b"
    and "set (bound_indices found) = ix_index ` {s \<in> set sigers. good_siger en raw verfers s}"
proof -
  from assms obtain f where f: "verify_loop en raw verfers [] sigers = Inr f"
    and found: "found = sort_key fst f"
    by (auto simp: verifyIndexedSignatures_def res_simps)
  note spec = verify_loop_spec [OF f, of "[]", simplified]
  have "mset (map fst found) = mset (map fst f)" by (simp add: found)
  then have "distinct (map fst found)" using spec by (metis mset_eq_imp_distinct_iff)
  moreover have "sorted (map fst found)" by (simp add: found)
  ultimately show "sorted_wrt (<) (bound_indices found)"
    by (simp add: bound_indices_def strict_sorted_iff)
  show ok: "\<forall>b \<in> set found. bound_ok en raw verfers sigers b" using spec by (simp add: found)
  show "set (bound_indices found) = ix_index ` {s \<in> set sigers. good_siger en raw verfers s}"
  proof
    show "set (bound_indices found) \<subseteq> ix_index ` {s \<in> set sigers. good_siger en raw verfers s}"
      using ok by (fastforce simp: bound_indices_def bound_ok_def good_siger_def)
    show "ix_index ` {s \<in> set sigers. good_siger en raw verfers s} \<subseteq> set (bound_indices found)"
      using spec by (auto simp: bound_indices_def found)
  qed
qed

section \<open>Local protection does not depend on hints\<close>

lemma local_hints:
  assumes "without_hints a = without_hints b"
  shows "locallyOwned a k = locallyOwned b k" "locallyDelegated a p = locallyDelegated b p"
    "locallyMembered a k = locallyMembered b k" "locallyWitnessed a ws = locallyWitnessed b ws"
    "misfit a k inp = misfit b k inp" "witness_verdict a k inp n = witness_verdict b k inp n"
proof -
  note s = without_hints_sel [OF assms]
  show l: "locallyOwned a k = locallyOwned b k" "locallyDelegated a p = locallyDelegated b p"
    "locallyMembered a k = locallyMembered b k" "locallyWitnessed a ws = locallyWitnessed b ws" for p ws
    by (simp_all add: locallyOwned_def locallyDelegated_def locallyMembered_def locallyWitnessed_def
        getHab_def s cong: option.case_cong)
  show "misfit a k inp = misfit b k inp" "witness_verdict a k inp n = witness_verdict b k inp n"
    unfolding misfit_def witness_verdict_def l by (rule refl)+
qed

section \<open>Verified attachments\<close>

lemma validateAttachments_verified:
  assumes "validateAttachments fuel en k inp db = Inr (AttVerified v, db')"
  obtains sigers found wigs werfers db1 d where
    "hasValidThresholdMaterial (ai_tholder inp) (length (ai_verfers inp))"
    "set sigers \<subseteq> set (ai_sigers inp)"
    "verifyIndexedSignatures en (sd_raw (ai_serder inp)) sigers (ai_verfers inp) = Inr found"
    "found \<noteq> []" "\<not> misfit db k inp"
    "controller_satisfied (ai_tholder inp) (bound_indices found) = Inr True"
    "prior_next_satisfied en k inp found = Inr True"
    "map_res verfer_of (ai_wits inp) = Inr werfers"
    "verifyIndexedSignatures en (sd_raw (ai_serder inp)) (ai_wigers inp) werfers = Inr wigs"
    "witness_verdict db k inp (length wigs) = WitOk"
    "only_hints db db1" "validateDelegation fuel en k inp db1 = Inr (AttVerified d, db')"
    "va_sigers v = bound_sigers found" "va_wigers v = bound_sigers wigs" "va_wits v = ai_wits inp"
proof -
  have mat: "hasValidThresholdMaterial (ai_tholder inp) (length (ai_verfers inp))"
    using assms by (auto simp: validateAttachments_def att_reject_def act_simps split: if_splits)
  obtain sigers cues db1 where strip: "strip_members en k inp db = Inr ((sigers, cues), db1)"
    and rest: "act_bind (act_lift (verifyIndexedSignatures en (sd_raw (ai_serder inp)) sigers (ai_verfers inp)))
          (\<lambda>found.
        if found = [] then att_reject InvalidThreshold
        else
          act_bind (act_get (\<lambda>db. misfit db k inp)) (\<lambda>protect.
          if protect then attachmentEscrow k inp EscMisfit cues
          else
            act_bind (act_lift (controller_satisfied (ai_tholder inp) (bound_indices found))) (\<lambda>ok.
            if \<not> ok then attachmentEscrow k inp EscPartialSigs cues
            else
              act_bind (act_lift (prior_next_satisfied en k inp found)) (\<lambda>ok'.
              if \<not> ok' then attachmentEscrow k inp EscPartialSigs cues
              else validate_witnesses fuel en k inp found cues)))) db1 = Inr (AttVerified v, db')"
    using assms mat unfolding validateAttachments_def by (auto simp: act_simps)
  have esc: "attachmentEscrow k inp e cs d \<noteq> Inr (AttVerified v, d')" for e cs d d'
    by (auto simp: attachmentEscrow_def act_simps)
  have rej: "att_reject c d \<noteq> Inr (AttVerified v, d')" for c d d'
    by (auto simp: att_reject_def act_simps)
  obtain found where f:
    "verifyIndexedSignatures en (sd_raw (ai_serder inp)) sigers (ai_verfers inp) = Inr found"
    "found \<noteq> []" "\<not> misfit db1 k inp"
    "controller_satisfied (ai_tholder inp) (bound_indices found) = Inr True"
    "prior_next_satisfied en k inp found = Inr True"
    "validate_witnesses fuel en k inp found cues db1 = Inr (AttVerified v, db')"
    using rest by (auto simp: act_simps esc rej split: if_splits)
  obtain werfers wigs where w: "map_res verfer_of (ai_wits inp) = Inr werfers"
    "verifyIndexedSignatures en (sd_raw (ai_serder inp)) (ai_wigers inp) werfers = Inr wigs"
    and wr: "(case witness_verdict db1 k inp (length wigs) of
        WitReject \<Rightarrow> att_reject InvalidWitnessThreshold
      | WitPartial \<Rightarrow> attachmentEscrow k inp EscPartialWigs (cues @ [witness_query inp])
      | WitOk \<Rightarrow> act_bind (validateDelegation fuel en k inp) (\<lambda>d.
          act_ret (merge_delegation inp found wigs cues d))) db1 = Inr (AttVerified v, db')"
    using f(6) by (auto simp: validate_witnesses_def act_simps)
  have ok: "witness_verdict db1 k inp (length wigs) = WitOk"
    using wr by (auto simp: esc rej split: witness_verdict.splits)
  obtain d where d: "validateDelegation fuel en k inp db1 = Inr (d, db')"
    "merge_delegation inp found wigs cues d = AttVerified v"
    using wr by (auto simp: ok act_simps)
  obtain d' where d': "d = AttVerified d'" using d(2) by (cases d) (simp_all add: merge_delegation_def)
  have hint: "only_hints db db1"
    using strip keepsD [OF hints.keeps_contributed] hints.refl
    by (auto simp: strip_members_def act_simps split: if_splits)
  have sub: "set sigers \<subseteq> set (ai_sigers inp)"
    using strip by (auto simp: strip_members_def act_simps split: if_splits)
  have h: "without_hints db1 = without_hints db" using hint by (simp add: only_hints_def)
  show thesis
    using that [OF mat sub f(1,2) _ f(4,5) w _ hint d(1) [unfolded d']] d(2) f(3) ok
    by (auto simp: local_hints [OF h] d' merge_delegation_def)
qed

section \<open>Accepted events\<close>

text \<open>What every accepted event has shown, whatever its kind: enough keys for the threshold, a
  controller threshold met by verified signatures of distinct keys, witnesses within bounds or
  local authority, and no protected party on the receiving side.\<close>

definition signed_enough ::
  "env \<Rightarrow> byte list \<Rightarrow> tholder option \<Rightarrow> matter list \<Rightarrow> indexer list \<Rightarrow> indexer list \<Rightarrow> bool" where
  "signed_enough en raw tholder verfers sigers logged \<longleftrightarrow>
     (\<exists>th found. tholder = Some th \<and> tn_size (th_threshold th) \<le> int (length verfers)
        \<and> sorted_wrt (<) (bound_indices found)
        \<and> (\<forall>b \<in> set found. bound_ok en raw verfers sigers b)
        \<and> tholder_satisfy th (bound_indices found) = Inr True
        \<and> logged = bound_sigers found)"

definition witnessed_enough ::
  "env \<Rightarrow> byte list \<Rightarrow> bool \<Rightarrow> matter \<Rightarrow> string list \<Rightarrow> indexer list \<Rightarrow> indexer list \<Rightarrow> bool" where
  "witnessed_enough en raw authority toader wits wigers logged \<longleftrightarrow>
     (\<exists>werfers found. map_res verfer_of wits = Inr werfers
        \<and> sorted_wrt (<) (bound_indices found)
        \<and> (\<forall>b \<in> set found. bound_ok en raw werfers wigers b)
        \<and> logged = bound_sigers found
        \<and> (if wits = [] then number_num toader = 0
           else authority \<or> 1 \<le> number_num toader \<and> number_num toader \<le> length wits
             \<and> number_num toader \<le> length logged))"

definition local_authority :: "baser \<Rightarrow> kever \<Rightarrow> string list \<Rightarrow> bool" where
  "local_authority db k wits \<longleftrightarrow> locallyOwned db k \<or> locallyMembered db k \<or> locallyWitnessed db wits"

lemma validate_signed:
  assumes "validateAttachments fuel en k inp db = Inr (AttVerified v, db')"
  shows "signed_enough en (sd_raw (ai_serder inp)) (ai_tholder inp) (ai_verfers inp) (ai_sigers inp)
      (va_sigers v)"
    and "witnessed_enough en (sd_raw (ai_serder inp)) (local_authority db k (ai_wits inp))
      (ai_toader inp) (ai_wits inp) (ai_wigers inp) (va_wigers v)"
    and "\<not> misfit db k inp" and "va_wits v = ai_wits inp"
    and "\<exists>sigers found. set sigers \<subseteq> set (ai_sigers inp) \<and>
      verifyIndexedSignatures en (sd_raw (ai_serder inp)) sigers (ai_verfers inp) = Inr found
      \<and> prior_next_satisfied en k inp found = Inr True \<and> va_sigers v = bound_sigers found"
    and "\<exists>db1 d. only_hints db db1 \<and> validateDelegation fuel en k inp db1 = Inr (AttVerified d, db')"
proof -
  obtain sigers found wigs werfers db1 d where v:
    "hasValidThresholdMaterial (ai_tholder inp) (length (ai_verfers inp))"
    "set sigers \<subseteq> set (ai_sigers inp)"
    "verifyIndexedSignatures en (sd_raw (ai_serder inp)) sigers (ai_verfers inp) = Inr found"
    "found \<noteq> []" "\<not> misfit db k inp"
    "controller_satisfied (ai_tholder inp) (bound_indices found) = Inr True"
    "prior_next_satisfied en k inp found = Inr True"
    "map_res verfer_of (ai_wits inp) = Inr werfers"
    "verifyIndexedSignatures en (sd_raw (ai_serder inp)) (ai_wigers inp) werfers = Inr wigs"
    "witness_verdict db k inp (length wigs) = WitOk"
    "only_hints db db1" "validateDelegation fuel en k inp db1 = Inr (AttVerified d, db')"
    "va_sigers v = bound_sigers found" "va_wigers v = bound_sigers wigs" "va_wits v = ai_wits inp"
    using assms by (rule validateAttachments_verified)
  note f = verifyIndexed_spec [OF v(3)] and w = verifyIndexed_spec [OF v(9)]
  obtain th where th: "ai_tholder inp = Some th" "tn_size (th_threshold th) \<le> int (length (ai_verfers inp))"
    using v(1) by (auto simp: hasValidThresholdMaterial_def split: option.splits)
  have "\<forall>b \<in> set found. bound_ok en (sd_raw (ai_serder inp)) (ai_verfers inp) (ai_sigers inp) b"
    using f(2) v(2) bound_ok_mono by blast
  moreover have "tholder_satisfy th (bound_indices found) = Inr True"
    using v(6) by (simp add: controller_satisfied_def th)
  ultimately show "signed_enough en (sd_raw (ai_serder inp)) (ai_tholder inp) (ai_verfers inp)
      (ai_sigers inp) (va_sigers v)"
    using th f(1) v(13) unfolding signed_enough_def by blast
  have "if ai_wits inp = [] then number_num (ai_toader inp) = 0
      else local_authority db k (ai_wits inp)
        \<or> 1 \<le> number_num (ai_toader inp) \<and> number_num (ai_toader inp) \<le> length (ai_wits inp)
          \<and> number_num (ai_toader inp) \<le> length (bound_sigers wigs)"
    using v(10) by (auto simp: witness_verdict_def Let_def local_authority_def bound_sigers_def
        split: if_splits)
  then show "witnessed_enough en (sd_raw (ai_serder inp)) (local_authority db k (ai_wits inp))
      (ai_toader inp) (ai_wits inp) (ai_wigers inp) (va_wigers v)"
    unfolding witnessed_enough_def v(14) using v(8) w(1,2) by blast
  show "\<not> misfit db k inp" "va_wits v = ai_wits inp" by (fact v(5), fact v(15))
  show "\<exists>sigers found. set sigers \<subseteq> set (ai_sigers inp) \<and>
      verifyIndexedSignatures en (sd_raw (ai_serder inp)) sigers (ai_verfers inp) = Inr found
      \<and> prior_next_satisfied en k inp found = Inr True \<and> va_sigers v = bound_sigers found"
    using v(2,3,7,13) by blast
  show "\<exists>db1 d. only_hints db db1 \<and> validateDelegation fuel en k inp db1 = Inr (AttVerified d, db')"
    using v(11,12) by blast
qed

lemma fromAttachment_not_accept: "fromAttachmentDecision d \<noteq> KAccept t cues"
  by (simp add: fromAttachmentDecision_def split: att_decision.split)

lemma escrow_not_accept: "makeEscrowDecision k esc init \<noteq> Inr (KAccept t cues)"
  by (auto simp: makeEscrowDecision_def res_simps)

lemma rotation_accepted:
  assumes "evaluateRotation fuel en k init sn db = Inr (KAccept t cues, db')"
  obtains verfers backs v db1 st where
    "sn \<le> js_num (kever_sn k + 1)" "kever_delegated k \<longleftrightarrow> sd_ilk (ki_serder init) = Some ''drt''"
    "rotation_fault k (ki_serder init) sn db = Inr None"
    "serder_verfers (ki_serder init) = Inr verfers"
    "deriveBacksDecision k (ki_serder init) = Inr (Some backs)"
    "validateAttachments fuel en k (rotation_input en k init verfers backs) db = Inr (AttVerified v, db')"
    "rotation_state en k (ki_serder init) sn verfers backs = Inr st"
    "KAccept t cues = accept_update k init (if sn \<le> kever_sn k then AkRecovery else AkUpdate) sn st v
       (Some (va_wits v)) (va_seal v)"
proof -
  let ?s = "ki_serder init"
  have g: "\<not> (kever_delegated k \<and> sd_ilk ?s \<noteq> Some ''drt'')" "\<not> (\<not> kever_delegated k \<and> sd_ilk ?s = Some ''drt'')"
    "\<not> js_num (kever_sn k + 1) < sn"
    using assms escrow_not_accept unfolding evaluateRotation_def Let_def
    by (auto simp: act_simps split: if_split_asm)
  have r: "act_bind (act_read (rotation_fault k ?s sn)) (\<lambda>fault.
           (case fault of
              Some code \<Rightarrow> act_ret (KReject code)
            | None \<Rightarrow>
                act_bind (act_lift (serder_verfers ?s)) (\<lambda>verfers.
                if \<not> hasValidThresholdMaterial (serder_tholder (en_json en) ?s) (length verfers)
                then act_ret (KReject InvalidThreshold)
                else
                  act_bind (act_lift (deriveBacksDecision k ?s)) (\<lambda>derived.
                  (case derived of
                     None \<Rightarrow> act_ret (KReject RejWitnessSet)
                   | Some backs \<Rightarrow> rotation_attach fuel en k init sn verfers backs))))) db
      = Inr (KAccept t cues, db')"
    using assms g unfolding evaluateRotation_def Let_def by (simp only: if_False)
  obtain fault where f: "rotation_fault k ?s sn db = Inr fault" using r by (auto simp: act_simps)
  have none: "fault = None" using r f by (cases fault) (auto simp: act_simps)
  obtain verfers where vf: "serder_verfers ?s = Inr verfers"
    using r f none by (auto simp: act_simps)
  obtain derived where dv: "deriveBacksDecision k ?s = Inr derived"
    using r f none vf by (auto simp: act_simps split: if_split_asm)
  obtain backs where bk: "derived = Some backs"
    using r f none vf dv by (cases derived) (auto simp: act_simps split: if_split_asm)
  have at: "rotation_attach fuel en k init sn verfers backs db = Inr (KAccept t cues, db')"
    using r f none vf dv bk by (auto simp: act_simps split: if_split_asm)
  obtain d db1 where d: "validateAttachments fuel en k (rotation_input en k init verfers backs) db = Inr (d, db1)"
    using at by (auto simp: rotation_attach_def act_simps)
  obtain v where v: "d = AttVerified v"
    using at d fromAttachment_not_accept
    by (cases d) (auto simp: rotation_attach_def act_simps)
  obtain st where st: "rotation_state en k ?s sn verfers backs = Inr st" "db1 = db'"
    "KAccept t cues = accept_update k init (if sn \<le> kever_sn k then AkRecovery else AkUpdate) sn st v
       (Some (va_wits v)) (va_seal v)"
    using at d v by (auto simp: rotation_attach_def act_simps)
  show thesis
    using that [OF _ _ _ vf _ d [unfolded v st(2)] st(1) st(3)] g f none dv bk by auto
qed

lemma interaction_accepted:
  assumes "evaluateInteraction fuel en k init sn db = Inr (KAccept t cues, db')"
  obtains v st where
    "\<not> kv_estOnly k" "kever_sn k < sn" "sn \<le> js_num (kever_sn k + 1)"
    "serder_prior (ki_serder init) = Some (kever_said k)"
    "validateAttachments fuel en k (interaction_input k init) db = Inr (AttVerified v, db')"
    "interaction_state k (ki_serder init) sn = Inr st"
    "KAccept t cues = accept_update k init AkUpdate sn st v None None"
proof -
  let ?s = "ki_serder init"
  have g: "\<not> kv_estOnly k" "\<not> js_num (kever_sn k + 1) < sn" "\<not> sn \<le> kever_sn k"
    "\<not> serder_prior ?s \<noteq> Some (kever_said k)"
    using assms escrow_not_accept unfolding evaluateInteraction_def Let_def
    by (auto simp: act_simps split: if_split_asm)
  have r: "act_bind (validateAttachments fuel en k (interaction_input k init)) (\<lambda>d.
           (case d of
              AttVerified v \<Rightarrow>
                act_bind (act_lift (interaction_state k ?s sn)) (\<lambda>st.
                act_ret (accept_update k init AkUpdate sn st v None None))
            | _ \<Rightarrow> act_ret (fromAttachmentDecision d))) db = Inr (KAccept t cues, db')"
    using assms g unfolding evaluateInteraction_def Let_def by (simp only: if_False)
  obtain d db1 where d: "validateAttachments fuel en k (interaction_input k init) db = Inr (d, db1)"
    using r by (auto simp: act_simps)
  obtain v where v: "d = AttVerified v"
    using r d fromAttachment_not_accept by (cases d) (auto simp: act_simps)
  obtain st where st: "interaction_state k ?s sn = Inr st" "db1 = db'"
    "KAccept t cues = accept_update k init AkUpdate sn st v None None"
    using r d v by (auto simp: act_simps)
  show thesis
    using that [OF _ _ _ _ d [unfolded v st(2)] st(1) st(3)] g by auto
qed

end
