(* ===== verification/KeverAccept.thy ===== *)
theory KeverAccept
  imports KeverSafety
begin

text \<open>
  The rules an accepted event obeys, as properties of the evaluation functions of
  \<^verbatim>\<open>kever.ts\<close>: the hash chain and recovery, the thresholds, the commitment to next
  keys, the witness list, local protection, the anchor of delegation and the shape of an
  inception.
\<close>

section \<open>Lemmas\<close>

text \<open>A recovery replaces interactions after the last establishment, and chains to the event
  stored just before it.\<close>

definition recovers :: "baser \<Rightarrow> kever \<Rightarrow> serder \<Rightarrow> nat \<Rightarrow> bool" where
  "recovers db k s sn \<longleftrightarrow>
     (sd_ilk s = Some ''rot'' \<and> kv_ilk k = ''ixn'' \<and> kv_lastEst_s k < sn
      \<or> sd_ilk s = Some ''drt'' \<and> kv_lastEst_s k \<le> sn)
     \<and> (\<exists>pdig prior. kels_getLast db (kever_pre k) (sn_before sn) = Some pdig
          \<and> getEvtSerder db (kever_pre k) pdig = Some prior
          \<and> serder_prior s = sd_said prior \<and> truthy (sd_said prior))"

lemma compare_prior:
  assumes "serder_compare prior (text_or [] p) = Inr True"
  shows "p = sd_said prior \<and> truthy (sd_said prior)"
  using assms
  by (auto simp: serder_compare_def text_or_def truthy_def split: option.splits if_splits list.splits)

lemma recovery_ok:
  assumes "recovery_fault k s sn db = Inr None" and "sd_ilk s = Some ''rot'' \<or> sd_ilk s = Some ''drt''"
  shows "recovers db k s sn"
proof -
  have a: "sd_ilk s = Some ''rot'' \<and> kv_ilk k = ''ixn'' \<and> kv_lastEst_s k < sn
      \<or> sd_ilk s = Some ''drt'' \<and> kv_lastEst_s k \<le> sn"
    using assms by (auto simp: recovery_fault_def split: if_splits)
  then have r: "(case kels_getLast db (kever_pre k) (sn_before sn) of
           Some (c # cs) \<Rightarrow>
             (case getEvtSerder db (kever_pre k) (c # cs) of
                None \<Rightarrow> Inr (Some InvalidRecovery)
              | Some prior \<Rightarrow>
                  bind_res (serder_compare prior (text_or [] (serder_prior s))) (\<lambda>eq.
                    Inr (if eq then None else Some InvalidRecovery)))
         | _ \<Rightarrow> Inr (Some InvalidRecovery)) = (Inr None :: reject_kind option res)"
    using assms(1) by (auto simp: recovery_fault_def split: if_splits)
  then obtain c cs where d: "kels_getLast db (kever_pre k) (sn_before sn) = Some (c # cs)"
    by (auto split: option.splits list.splits)
  then obtain prior where p: "getEvtSerder db (kever_pre k) (c # cs) = Some prior"
    using r by (auto split: option.splits)
  have "serder_compare prior (text_or [] (serder_prior s)) = Inr True"
    using r d p by (auto simp: res_simps split: if_splits)
  then show ?thesis using a d p compare_prior unfolding recovers_def by blast
qed

lemma update_accepted:
  assumes "evaluateUpdate fuel en k init db = Inr (KAccept t cues, db')"
  shows "kever_transferable k" and "serder_pre (ki_serder init) = Some (kever_pre k)"
    and "(sd_ilk (ki_serder init) = Some ''rot'' \<or> sd_ilk (ki_serder init) = Some ''drt'')
           \<and> (\<exists>sn. serder_sn (ki_serder init) = Inr (Some sn)
                \<and> evaluateRotation fuel en k init sn db = Inr (KAccept t cues, db'))
         \<or> sd_ilk (ki_serder init) = Some ''ixn''
           \<and> (\<exists>sn. serder_sn (ki_serder init) = Inr (Some sn)
                \<and> evaluateInteraction fuel en k init sn db = Inr (KAccept t cues, db'))"
proof -
  let ?s = "ki_serder init"
  obtain sn where sn: "serder_sn ?s = Inr sn"
    using assms unfolding evaluateUpdate_def Let_def by (auto simp: act_simps)
  have g: "kever_transferable k" "serder_pre ?s = Some (kever_pre k)" "truthy (sd_ilk ?s)"
    using assms unfolding evaluateUpdate_def Let_def by (auto simp: act_simps sn split: if_split_asm)
  then show "kever_transferable k" "serder_pre ?s = Some (kever_pre k)" by blast+
  obtain n where n: "sn = Some n"
    using assms g unfolding evaluateUpdate_def Let_def by (cases sn) (auto simp: act_simps sn)
  show "(sd_ilk ?s = Some ''rot'' \<or> sd_ilk ?s = Some ''drt'')
           \<and> (\<exists>sn. serder_sn ?s = Inr (Some sn)
                \<and> evaluateRotation fuel en k init sn db = Inr (KAccept t cues, db'))
         \<or> sd_ilk ?s = Some ''ixn''
           \<and> (\<exists>sn. serder_sn ?s = Inr (Some sn)
                \<and> evaluateInteraction fuel en k init sn db = Inr (KAccept t cues, db'))"
    using assms g n sn unfolding evaluateUpdate_def Let_def
    by (auto simp: act_simps split: if_split_asm)
qed

lemma exposed_spec:
  assumes "exposeds en k bs = Inr is" and "i \<in> set is"
  shows "\<exists>b \<in> set bs. \<exists>d. ix_ondex (fst (snd b)) = Some i \<and> nth_opt (kv_ndigers k) i = Some d
    \<and> en_digest en (mt_code d) (matter_qb64b (snd (snd b))) = mt_raw d"
  using assms
proof (induction bs arbitrary: "is")
  case Nil
  then show ?case by simp
next
  case (Cons b bs)
  obtain j s v where b: "b = (j, s, v)" by (cases b)
  show ?case
  proof (cases "exposeds en k bs = Inr is")
    case True
    then show ?thesis using Cons.IH Cons.prems(2) by (meson list.set_intros(2))
  next
    case False
    then obtain ondex d eq rest where o: "ix_ondex s = Some ondex" "nth_opt (kv_ndigers k) ondex = Some d"
      "diger_compare en (matter_qb64b v) (mt_code d) (mt_raw d) = Inr eq" "exposeds en k bs = Inr rest"
      "is = (if eq then ondex # rest else rest)"
      using Cons.prems(1) by (auto simp: b res_simps split: option.splits)
    then have e: eq "is = ondex # rest" using False by (auto split: if_splits)
    have dig: "en_digest en (mt_code d) (matter_qb64b v) = mt_raw d"
      using o(3) e(1) by (auto simp: diger_compare_def split: if_splits)
    show ?thesis
    proof (cases "i = ondex")
      case True
      then show ?thesis using o(1,2) dig b by auto
    next
      case False
      then show ?thesis using Cons.IH [OF o(4)] Cons.prems(2) e(2) by auto
    qed
  qed
qed

section \<open>Properties\<close>


text \<open>The sample machine accepts the sample interaction and the sample rotation.\<close>

lemma ex_ixn_accepted:
  obtains t where "evaluateUpdate fuel ex_env ex_kever (ex_init ex_ixn) baser_empty
      = Inr (KAccept t [], baser_empty)" "tr_sn t = 1" "ke_sigers (tr_log t) = [ex_siger]"
proof -
  have a: "validateAttachments fuel ex_env ex_kever (interaction_input ex_kever (ex_init ex_ixn)) baser_empty
      = Inr (AttVerified \<lparr>va_sigers = [ex_siger], va_wigers = [], va_wits = [], va_delpre = None,
          va_seal = None, va_cues = []\<rparr>, baser_empty)"
    by (subst ex_attachments) (simp_all add: interaction_input_def ex_init_def)
  obtain st where st: "interaction_state ex_kever ex_ixn 1 = Inr st"
    by (simp add: interaction_state_def)
  have "evaluateUpdate fuel ex_env ex_kever (ex_init ex_ixn) baser_empty
      = Inr (accept_update ex_kever (ex_init ex_ixn) AkUpdate 1 st
          \<lparr>va_sigers = [ex_siger], va_wigers = [], va_wits = [], va_delpre = None,
           va_seal = None, va_cues = []\<rparr> None None, baser_empty)"
    using a st
    by (simp add: evaluateUpdate_def evaluateInteraction_def act_bind_def act_lift_def act_ret_def
        ex_init_def truthy_def)
  then show thesis by (intro that) (auto simp: accept_update_def)
qed

lemma ex_rot_accepted:
  obtains t where "evaluateUpdate fuel ex_env ex_kever (ex_init ex_rot) baser_empty
      = Inr (KAccept t [], baser_empty)" "tr_sn t = 1" "ke_sigers (tr_log t) = [ex_siger]"
    "ks_b (tr_state t) = []"
proof -
  let ?backs = "\<lparr>bk_wits = [], bk_cuts = [], bk_adds = [], bk_toader = ex_zero\<rparr>"
  have j: "serder_tholder (en_json ex_env) ex_rot = Some ex_tholder"
    by (simp add: serder_tholder_def makeThreshold_def sith_input_def ex_env_def)
  have m: "hasValidThresholdMaterial (Some ex_tholder) 1"
    by (simp add: hasValidThresholdMaterial_def ex_tholder_def numeric_threshold_def)
  have v: "serder_verfers ex_rot = Inr [ex_key]" by (simp add: serder_verfers_def)
  have b: "deriveBacksDecision ex_kever ex_rot = Inr (Some ?backs)"
    by (simp add: deriveBacksDecision_def deriveRotatedWitnessSet_def toader_of_def serder_bner_def
        makeNumberPrimitive_def toad_fits_def)
  have a: "validateAttachments fuel ex_env ex_kever
        (rotation_input ex_env ex_kever (ex_init ex_rot) [ex_key] ?backs) baser_empty
      = Inr (AttVerified \<lparr>va_sigers = [ex_siger], va_wigers = [], va_wits = [], va_delpre = None,
          va_seal = None, va_cues = []\<rparr>, baser_empty)"
    by (subst ex_attachments)
      (simp_all add: rotation_input_def ex_init_def Let_def j normalizeSourceSeal_def hd_opt_def)
  obtain st where st: "rotation_state ex_env ex_kever ex_rot 1 [ex_key] ?backs = Inr st" "ks_b st = []"
    by (simp add: rotation_state_def serder_ndigers_def)
  have "evaluateUpdate fuel ex_env ex_kever (ex_init ex_rot) baser_empty
      = Inr (accept_update ex_kever (ex_init ex_rot) AkUpdate 1 st
          \<lparr>va_sigers = [ex_siger], va_wigers = [], va_wits = [], va_delpre = None,
           va_seal = None, va_cues = []\<rparr> (Some []) None, baser_empty)"
    using a st v b j m
    by (simp add: evaluateUpdate_def evaluateRotation_def rotation_attach_def rotation_fault_def
        act_bind_def act_lift_def act_ret_def act_read_def ex_init_def truthy_def)
  then show thesis by (intro that) (auto simp: accept_update_def st)
qed






text \<open>C20: Pre-rotation. When a rotation is accepted by a machine with a next threshold, that
  threshold is satisfied by indices of the machine's next digests, each of which is the digest of
  the text of a key whose signature over the rotation verified and was logged.\<close>

theorem rotation_commitment:
  assumes "evaluateUpdate fuel en k init db = Inr (KAccept t cues, db')"
    and "sd_ilk (ki_serder init) \<noteq> Some ''ixn''" and "kv_ntholder k = Some nt"
  shows "\<exists>verfers found exposed. serder_verfers (ki_serder init) = Inr verfers
    \<and> tholder_satisfy nt exposed = Inr True \<and> ke_sigers (tr_log t) = bound_sigers found
    \<and> (\<forall>b \<in> set found. bound_ok en (sd_raw (ki_serder init)) verfers (ki_sigers init) b)
    \<and> (\<forall>i \<in> set exposed. \<exists>(j, s, v) \<in> set found. \<exists>d. ix_ondex s = Some i
         \<and> nth_opt (kv_ndigers k) i = Some d \<and> en_digest en (mt_code d) (matter_qb64b v) = mt_raw d)"
proof -
  obtain sn where e: "evaluateRotation fuel en k init sn db = Inr (KAccept t cues, db')"
    and rot: "sd_ilk (ki_serder init) = Some ''rot'' \<or> sd_ilk (ki_serder init) = Some ''drt''"
    using update_accepted(3) [OF assms(1)] assms(2) by blast
  show ?thesis
    using e
  proof (rule rotation_accepted)
    fix verfers backs v st
    let ?inp = "rotation_input en k init verfers backs"
    assume vf: "serder_verfers (ki_serder init) = Inr verfers"
      and va: "validateAttachments fuel en k ?inp db = Inr (AttVerified v, db')"
      and t: "KAccept t cues = accept_update k init (if sn \<le> kever_sn k then AkRecovery else AkUpdate)
        sn st v (Some (va_wits v)) (va_seal v)"
    from validate_signed(5) [OF va] obtain sigers found where f:
      "set sigers \<subseteq> set (ki_sigers init)"
      "verifyIndexedSignatures en (sd_raw (ki_serder init)) sigers verfers = Inr found"
      "prior_next_satisfied en k ?inp found = Inr True" "va_sigers v = bound_sigers found"
      by (auto simp: rotation_input_def Let_def)
    obtain exposed where x: "exposeds en k found = Inr exposed" "tholder_satisfy nt exposed = Inr True"
      using f(3) rot assms(3)
      by (auto simp: prior_next_satisfied_def rotation_input_def Let_def res_simps)
    have ok: "\<forall>b \<in> set found. bound_ok en (sd_raw (ki_serder init)) verfers (ki_sigers init) b"
      using verifyIndexed_spec(2) [OF f(2)] f(1) bound_ok_mono by blast
    have "\<forall>i \<in> set exposed. \<exists>(j, s, v) \<in> set found. \<exists>d. ix_ondex s = Some i
         \<and> nth_opt (kv_ndigers k) i = Some d \<and> en_digest en (mt_code d) (matter_qb64b v) = mt_raw d"
      using exposed_spec [OF x(1)] by (fastforce simp: case_prod_beta)
    moreover have "ke_sigers (tr_log t) = bound_sigers found"
      using t f(4) by (simp add: accept_update_def)
    ultimately show ?thesis using vf x(2) ok by blast
  qed
qed

theorem rotation_commitment_witness:
  "\<exists>exposed. tholder_satisfy ex_tholder exposed = Inr True \<and>
    (\<forall>i \<in> set exposed. \<exists>v d. nth_opt (kv_ndigers ex_kever) i = Some d
       \<and> en_digest ex_env (mt_code d) (matter_qb64b v) = mt_raw d)"
proof -
  obtain t where t: "evaluateUpdate 0 ex_env ex_kever (ex_init ex_rot) baser_empty
      = Inr (KAccept t [], baser_empty)"
    by (rule ex_rot_accepted)
  from rotation_commitment [OF t, of ex_tholder] show ?thesis
    by (fastforce simp: ex_init_def)
qed

text \<open>C21: The next witness list. An accepted rotation leaves the witnesses that were not cut, in
  their order, followed by the added ones; cuts are current witnesses, adds are not, nothing is
  named twice, and the list has no duplicates when it had none before.\<close>

theorem rotation_witness_list:
  assumes "evaluateUpdate fuel en k init db = Inr (KAccept t cues, db')"
    and "sd_ilk (ki_serder init) \<noteq> Some ''ixn''" and "distinct (kv_wits k)"
  shows "let s = ki_serder init; wits = ks_b (tr_state t)
    in wits = filter (\<lambda>w. w \<notin> set (serder_cuts s)) (kv_wits k) @ serder_adds s
      \<and> distinct wits \<and> set (serder_cuts s) \<subseteq> set (kv_wits k)
      \<and> set (serder_adds s) \<inter> set (kv_wits k) = {}
      \<and> length wits + length (serder_cuts s) = length (kv_wits k) + length (serder_adds s)"
proof -
  let ?s = "ki_serder init"
  obtain sn where e: "evaluateRotation fuel en k init sn db = Inr (KAccept t cues, db')"
    and rot: "sd_ilk ?s = Some ''rot'' \<or> sd_ilk ?s = Some ''drt''"
    using update_accepted(3) [OF assms(1)] assms(2) by blast
  show ?thesis
    using e
  proof (rule rotation_accepted)
    fix verfers backs v st
    assume bk: "deriveBacksDecision k ?s = Inr (Some backs)"
      and st: "rotation_state en k ?s sn verfers backs = Inr st"
      and t: "KAccept t cues = accept_update k init (if sn \<le> kever_sn k then AkRecovery else AkUpdate)
        sn st v (Some (va_wits v)) (va_seal v)"
    obtain w where w: "deriveRotatedWitnessSet (kv_wits k) (serder_cuts ?s) (serder_adds ?s) = Inr w"
      "bk_wits backs = dw_wits w"
      using bk rot by (auto simp: deriveBacksDecision_def res_simps split: sum.splits if_splits)
    have "ks_b (tr_state t) = dw_wits w"
      using t st w(2) by (auto simp: accept_update_def rotation_state_def res_simps)
    then show ?thesis
      using w(1) deriveRotated_distinct [OF assms(3) w(1)] by (auto simp: deriveRotated_iff Let_def)
  qed
qed

theorem rotation_witness_list_witness:
  "\<exists>t cues db'. evaluateUpdate 0 ex_env ex_kever (ex_init ex_rot) baser_empty = Inr (KAccept t cues, db')
     \<and> ks_b (tr_state t) = []"
proof -
  obtain t where t: "evaluateUpdate 0 ex_env ex_kever (ex_init ex_rot) baser_empty
      = Inr (KAccept t [], baser_empty)"
    by (rule ex_rot_accepted)
  from rotation_witness_list [OF t] t show ?thesis by (auto simp: ex_init_def Let_def)
qed

end
