(* ===== verification/KeveryProps.thy ===== *)
theory KeveryProps
  imports KeverAccept
begin

text \<open>
  Properties of the event processor of \<^verbatim>\<open>eventing.ts\<close> over its runs: what its stores keep
  forever, how they stay consistent, what deciding an event may touch, and what acceptance,
  escrow and rejection change.
\<close>

section \<open>A sample step\<close>

text \<open>An interaction of an identifier nobody has seen goes to the out-of-order escrow.\<close>

definition ex_envelope :: envelope where
  "ex_envelope = \<lparr>ev_serder = ex_ixn, ev_sigers = [ex_siger], ev_wigers = [], ev_frcs = [],
     ev_sscs = [], ev_ssts = [], ev_local = None, ev_eager = False\<rparr>"

lemma ex_step:
  obtains i db' where "processEvent fuel ex_env False ex_envelope baser_empty = Inr ((KEscrow i [], []), db')"
    "db_ooes db' ex_pre = [(1, [ex_said2])]" "db_evts db' (ex_pre, ex_said2) = Some ex_ixn"
proof -
  have d: "dg_of ex_ixn = Some (ex_pre, ex_said2)"
    by (simp add: dg_of_def truthy_def text_or_def ex_pre_def ex_said2_def ex_ixn_def serder_pre_def
        text_field_def sad_field_def jfield_def)
  have s: "sd_said ex_ixn = Some ex_said2" "ex_said2 \<noteq> []" by (simp_all add: ex_ixn_def ex_said2_def)
  then have t: "truthy (Some ex_pre)" "truthy (Some ex_said2)" "truthy (Some ''ixn'')"
    by (simp_all add: truthy_def ex_pre_def ex_said2_def)
  obtain i where i: "decideEvent fuel ex_env False ex_envelope baser_empty = Inr (KEscrow i [], baser_empty)"
    "ei_escrow i = EscOoo" "ei_pre i = ex_pre" "ei_said i = ex_said2" "ei_sn i = 1"
    "ke_serder (ei_log i) = ex_ixn" "ke_wits (ei_log i) = None" "ke_frc (ei_log i) = None"
    by (simp add: decideEvent_def Let_def act_bind_def act_lift_def act_get_def ex_envelope_def s t
        text_or_def baser_empty_def kevery_escrow_def makeKeverEventInit_def first_frc_def hd_opt_def)
  show thesis
    by (rule that) (use i in \<open>auto simp: processEvent_def act_bind_def act_ret_def applyDecision_def
        persistEscrowInstruction_def persistEscrowEventMaterial_def d act_get_def act_lift_def
        baser_empty_def escrow_dater_def act_mod_def index_escrow_def escrow_material_def
        log_source_def log_material_def map_put_def\<close>)
qed

section \<open>Properties\<close>



text \<open>The history only grows. A run never loses or replaces a stored body, only appends to
  the first-seen log, never removes a digest from the key event log, a signature or a witness
  from an event, an ordinal or a state record, and an event once known to be local stays so.\<close>

lemma kevery_append_only:
  assumes "kevery_run fuel loc db db'"
  shows "db_evts db \<subseteq>\<^sub>m db_evts db' \<and> prefix (db_fels db pre) (db_fels db' pre)
    \<and> set (on_get n (db_kels db pre)) \<subseteq> set (on_get n (db_kels db' pre))
    \<and> dom (db_fons db) \<subseteq> dom (db_fons db') \<and> dom (db_states db) \<subseteq> dom (db_states db')
    \<and> set (db_sigs db key) \<subseteq> set (db_sigs db' key) \<and> set (db_wigs db key) \<subseteq> set (db_wigs db' key)
    \<and> set (db_wits db key) \<subseteq> set (db_wits db' key)
    \<and> (db_esrs db key = Some True \<longrightarrow> db_esrs db' key = Some True)"
  using grow.run [OF assms] by (cases key) (simp add: grows_def)

text \<open>Deciding reads. Deciding an event, whatever the decision, leaves every store as it was
  except the source seals of delegated events and the cache of live machines; and no cached
  machine changes.\<close>

lemma decide_only_hints:
  assumes "decideEvent fuel en loc ev db = Inr (d, db')"
  shows "db'\<lparr>db_aess := db_aess db, db_kevers := db_kevers db\<rparr> = db \<and> db_kevers db \<subseteq>\<^sub>m db_kevers db'"
proof -
  have h: "only_hints db db'" using keepsD [OF hints.keeps_decide assms] .
  have "(without_hints db')\<lparr>db_aess := db_aess db, db_kevers := db_kevers db\<rparr>
      = (without_hints db)\<lparr>db_aess := db_aess db, db_kevers := db_kevers db\<rparr>"
    using h by (simp add: only_hints_def)
  then show ?thesis using h by (simp add: only_hints_def without_hints_def)
qed

end
