(* ===== verification/LmdbKeys.thy ===== *)
theory LmdbKeys
  imports Serder "HOL-Library.Sublist" "HOL-Library.List_Lexorder" "HOL-Library.Char_ord"
    "HOL-Library.Product_Lexorder"
begin

text \<open>
  Keys of the key-value store (\<^verbatim>\<open>keri/src/db/core/keys.ts\<close>): composite keys, ordinal
  keys whose fixed-width hexadecimal suffix sorts like the number, and their inverses. Keys are
  texts of one-byte characters, ordered as the store orders them, byte by byte. The lemmas show
  that an ordinal key is split into what it was built from, that keys of one top sort by
  ordinal, and that the keys of one top are contiguous as long as no top extends another.
\<close>

section \<open>Errors\<close>

datatype db_error = ValidationError | DatabaseKeyError | DatabaseAppendError

type_synonym 'a dres = "db_error + 'a"

section \<open>Building keys\<close>

definition dgKey :: "string \<Rightarrow> string \<Rightarrow> string" where
  "dgKey pre dig = pre @ ''.'' @ dig"

definition to32CharHex :: "nat \<Rightarrow> string" where
  "to32CharHex num = padStart 32 (CHR ''0'') (hex_str num)"

definition onKey :: "string \<Rightarrow> nat \<Rightarrow> string \<Rightarrow> string" where
  "onKey key on sep = key @ sep @ to32CharHex on"

definition riKey :: "string \<Rightarrow> nat \<Rightarrow> string" where
  "riKey pre ri = onKey pre ri ''.''"

definition dtKey :: "string \<Rightarrow> string \<Rightarrow> string" where
  "dtKey pre dts = pre @ ''|'' @ dts"

definition suffix_key :: "string \<Rightarrow> nat \<Rightarrow> string \<Rightarrow> string" where
  "suffix_key key ion sep = key @ sep @ padStart 32 (CHR ''0'') (hex_str ion)"

section \<open>Splitting keys\<close>

fun lastIndexOf :: "string \<Rightarrow> string \<Rightarrow> nat option" where
  "lastIndexOf sep [] = (if sep = [] then Some 0 else None)"
| "lastIndexOf sep (c # cs) =
     (case lastIndexOf sep cs of
        Some i \<Rightarrow> Some (Suc i)
      | None \<Rightarrow> if prefix sep (c # cs) then Some 0 else None)"

definition splitKey :: "string \<Rightarrow> string \<Rightarrow> (string \<times> string) dres" where
  "splitKey key sep =
     (case lastIndexOf sep key of
        None \<Rightarrow> Inl ValidationError
      | Some i \<Rightarrow>
          if i = 0 \<or> length key \<le> i + length sep then Inl ValidationError
          else Inr (take i key, drop (i + length sep) key))"

text \<open>\<open>parseInt(s, 16)\<close> of a text of digits, rounded to a JavaScript number; \<open>None\<close> is
  \<open>NaN\<close>. Signs, which no key has, are not read.\<close>

definition parseInt16 :: "string \<Rightarrow> nat option" where
  "parseInt16 s =
     map_option js_num (read_radix 16 (takeWhile (\<lambda>c. digit_val c \<noteq> None) (dropWhile js_white s)))"

definition splitKeyON :: "string \<Rightarrow> string \<Rightarrow> (string \<times> nat option) dres" where
  "splitKeyON key sep = bind_res (splitKey key sep) (\<lambda>(pre, on). Inr (pre, parseInt16 on))"

definition splitKeyDT :: "string \<Rightarrow> (string \<times> string) dres" where
  "splitKeyDT key = splitKey key ''|''"

definition unsuffix :: "string \<Rightarrow> string \<Rightarrow> (string \<times> nat option) dres" where
  "unsuffix iokey sep =
     (case lastIndexOf sep iokey of
        None \<Rightarrow> Inl DatabaseKeyError
      | Some i \<Rightarrow> Inr (take i iokey, parseInt16 (drop (i + length sep) iokey)))"

section \<open>Fixed-width ordinals\<close>

definition ordinal_digits :: "nat \<Rightarrow> nat list" where
  "ordinal_digits n = replicate (32 - length (digits 16 n)) 0 @ digits 16 n"

lemma ordinal_digits_text: "to32CharHex n = map (\<lambda>d. digit_chars ! d) (ordinal_digits n)"
  by (simp add: to32CharHex_def padStart_def hex_str_def show_radix_def ordinal_digits_def
      digit_chars_def)

lemma ordinal_digits_bound: "d \<in> set (ordinal_digits n) \<Longrightarrow> d < 16"
  by (auto simp: ordinal_digits_def split: if_splits dest: digits_bound [rotated])

lemma ordinal_digits_value: "of_digits 16 (ordinal_digits n) = n"
  by (simp add: ordinal_digits_def radix_simps)

lemma ordinal_digits_length: "n < 16 ^ 32 \<Longrightarrow> length (ordinal_digits n) = 32"
  using digits_length_le [of 16 n 32] by (simp add: ordinal_digits_def)

lemma length_to32CharHex [simp]: "n < 16 ^ 32 \<Longrightarrow> length (to32CharHex n) = 32"
  by (simp only: ordinal_digits_text length_map ordinal_digits_length)

lemma to32CharHex_nonempty [simp]: "to32CharHex n \<noteq> []"
  by (simp add: ordinal_digits_text ordinal_digits_def)

lemma digit_chars_mono:
  assumes "i < 16" and "j < 16"
  shows "digit_chars ! i < digit_chars ! j \<longleftrightarrow> i < j"
proof -
  have "list_all (\<lambda>i. list_all (\<lambda>j. (digit_chars ! i < digit_chars ! j) = (i < j)) [0..<16]) [0..<16]"
    by code_simp
  with assms show ?thesis by (simp add: list_all_iff)
qed

lemma map_less_iff:
  fixes f :: "'a::linorder \<Rightarrow> 'b::linorder"
  assumes f: "\<And>x y. x \<in> A \<Longrightarrow> y \<in> A \<Longrightarrow> f x < f y \<longleftrightarrow> x < y"
    and "set xs \<subseteq> A" and "set ys \<subseteq> A"
  shows "map f xs < map f ys \<longleftrightarrow> xs < ys"
  using assms(2,3)
proof (induction xs arbitrary: ys)
  case Nil
  then show ?case by (cases ys) auto
next
  case (Cons x xs)
  show ?case
  proof (cases ys)
    case ys: (Cons y ys')
    have "f x < f y \<longleftrightarrow> x < y" "f y < f x \<longleftrightarrow> y < x" using f Cons.prems ys by simp_all
    then have "f x = f y \<longleftrightarrow> x = y" by (metis linorder_neqE less_irrefl)
    then show ?thesis using \<open>f x < f y \<longleftrightarrow> x < y\<close> Cons ys by simp
  qed simp
qed

lemma of_digits_less:
  assumes "length xs = length ys" and "\<forall>d \<in> set xs. d < b" and "\<forall>d \<in> set ys. d < b"
  shows "xs < ys \<longleftrightarrow> of_digits b xs < of_digits b ys"
  using assms
proof (induction xs ys rule: list_induct2)
  case (Cons x xs y ys)
  have b: "of_digits b xs < b ^ length ys" "of_digits b ys < b ^ length ys"
    using Cons of_digits_bound [of xs b] of_digits_bound [of ys b] by simp_all
  have v: "of_digits b (x # xs) = x * b ^ length ys + of_digits b xs"
    "of_digits b (y # ys) = y * b ^ length ys + of_digits b ys"
    using of_digits_append [of b "[x]" xs] of_digits_append [of b "[y]" ys] Cons.hyps
    by (simp_all add: radix_simps)
  have lt: "u * k + p < w * k + q" if "u < w" "p < k" for u w p q k :: nat
  proof -
    have "u * k + k \<le> w * k" using that(1) by (metis Suc_leI mult_Suc add.commute mult_le_mono1)
    then show ?thesis using that(2) by linarith
  qed
  show ?case
  proof (cases x y rule: linorder_cases)
    case less
    then show ?thesis using lt [OF less b(1)] v by simp
  next
    case equal
    then show ?thesis using Cons v by simp
  next
    case greater
    then show ?thesis using lt [OF greater b(2)] v by (simp add: not_less_iff_gr_or_eq)
  qed
qed simp

lemma to32CharHex_less:
  assumes "m < 16 ^ 32" and "n < 16 ^ 32"
  shows "to32CharHex m < to32CharHex n \<longleftrightarrow> m < n"
proof -
  have "to32CharHex m < to32CharHex n \<longleftrightarrow> ordinal_digits m < ordinal_digits n"
    unfolding ordinal_digits_text
    using ordinal_digits_bound by (intro map_less_iff [of "{..<16}"]) (auto simp: digit_chars_mono)
  also have "\<dots> \<longleftrightarrow> m < n"
    using of_digits_less [of "ordinal_digits m" "ordinal_digits n" 16] ordinal_digits_length assms
    by (simp add: ordinal_digits_bound ordinal_digits_value)
  finally show ?thesis .
qed

lemma length_digit_chars: "length digit_chars = 16"
  by (simp add: digit_chars_def)

lemma digits_readable: "\<forall>d \<in> set ds. d < 16 \<Longrightarrow> map digit_val (map (\<lambda>d. digit_chars ! d) ds) = map Some ds"
  by (simp add: digit_val_nth)

lemma parseInt16_digits:
  assumes "\<forall>d \<in> set ds. d < 16" and "ds \<noteq> []"
  shows "parseInt16 (map (\<lambda>d. digit_chars ! d) ds) = Some (js_num (of_digits 16 ds))"
proof -
  let ?s = "map (\<lambda>d. digit_chars ! d) ds"
  have "list_all (\<lambda>c. \<not> js_white c) digit_chars" by code_simp
  moreover have "c \<in> set ?s \<Longrightarrow> c \<in> set digit_chars" for c
    using assms(1) by (auto intro!: nth_mem simp: length_digit_chars)
  ultimately have w: "dropWhile js_white ?s = ?s"
    by (cases ?s) (auto simp: list_all_iff)
  have t: "takeWhile (\<lambda>c. digit_val c \<noteq> None) ?s = ?s"
    using assms(1) by (auto simp: takeWhile_eq_all_conv digit_val_nth)
  have d: "map (\<lambda>d. the (digit_val (digit_chars ! d))) ds = ds"
    using assms(1) by (intro map_idI) (simp add: digit_val_nth)
  have "read_radix 16 ?s = Some (of_digits 16 ds)"
    using assms digits_readable [OF assms(1)] d unfolding read_radix_def Let_def
    by (auto simp: comp_def not_le)
  then show ?thesis unfolding parseInt16_def w t by simp
qed

lemma parseInt16_ordinal [simp]: "parseInt16 (to32CharHex n) = Some (js_num n)"
proof -
  have "ordinal_digits n \<noteq> []" by (simp add: ordinal_digits_def)
  then show ?thesis
    using parseInt16_digits [of "ordinal_digits n"] ordinal_digits_bound
    by (simp add: ordinal_digits_text ordinal_digits_value)
qed

lemma no_dot_in_ordinal: "CHR ''.'' \<notin> set (to32CharHex n)"
proof -
  have "list_all (\<lambda>d. digit_chars ! d \<noteq> CHR ''.'') [0..<16]" by code_simp
  then show ?thesis using ordinal_digits_bound by (auto simp: ordinal_digits_text list_all_iff)
qed

section \<open>Splitting what was built\<close>

lemma lastIndexOf_none: "CHR ''.'' \<notin> set s \<Longrightarrow> lastIndexOf ''.'' s = None"
  by (induction s) auto

lemma lastIndexOf_last:
  "CHR ''.'' \<notin> set s \<Longrightarrow> lastIndexOf ''.'' (k @ CHR ''.'' # s) = Some (length k)"
  by (induction k) (auto simp: lastIndexOf_none)

lemma splitKey_built:
  assumes "CHR ''.'' \<notin> set s" and "k \<noteq> []" and "s \<noteq> []"
  shows "splitKey (k @ CHR ''.'' # s) ''.'' = Inr (k, s)"
  using assms by (simp add: splitKey_def lastIndexOf_last)

lemma suffix_key_onKey: "suffix_key key ion sep = onKey key ion sep"
  by (simp add: suffix_key_def onKey_def to32CharHex_def)

lemma splitKeyON_onKey [simp]:
  assumes "k \<noteq> []"
  shows "splitKeyON (onKey k n ''.'') ''.'' = Inr (k, Some (js_num n))"
  using splitKey_built [OF no_dot_in_ordinal assms to32CharHex_nonempty]
  by (simp add: splitKeyON_def onKey_def res_simps)

lemma unsuffix_onKey [simp]:
  "unsuffix (onKey k n ''.'') ''.'' = Inr (k, Some (js_num n))"
  using lastIndexOf_last [OF no_dot_in_ordinal, of k] by (simp add: unsuffix_def onKey_def)

lemma append_less_iff: "(xs @ ys < xs @ zs) = (ys < (zs :: 'a::linorder list))"
  by (induction xs) auto

lemma append_le_iff: "(xs @ ys \<le> xs @ zs) = (ys \<le> (zs :: 'a::linorder list))"
  by (induction xs) auto

lemma onKey_less:
  assumes "m < 16 ^ 32" and "n < 16 ^ 32"
  shows "onKey k m sep < onKey k n sep \<longleftrightarrow> m < n"
  by (simp add: onKey_def append_less_iff to32CharHex_less [OF assms])

lemma onKey_le:
  assumes "m < 16 ^ 32" and "n < 16 ^ 32"
  shows "onKey k m sep \<le> onKey k n sep \<longleftrightarrow> m \<le> n"
  using onKey_less [OF assms(2,1)] by (simp add: not_less [symmetric])

lemma onkey_injective:
  assumes "key \<noteq> []" and "m < 2 ^ 53" and "n < 2 ^ 53"
  shows "onKey key m ''.'' = onKey key' n ''.'' \<longleftrightarrow> key = key' \<and> m = n"
proof -
  have "key' \<noteq> []" if "onKey key m ''.'' = onKey key' n ''.''"
  proof
    assume "key' = []"
    then have "length (onKey key m ''.'') = 33" using that assms(3) by (simp add: onKey_def)
    then show False using assms(1,2) by (simp add: onKey_def)
  qed
  then show ?thesis
    using splitKeyON_onKey [OF assms(1), of m] splitKeyON_onKey [of key' n] assms(2,3) by fastforce
qed

text \<open>C24: Ordinal keys. An ordinal key is split into the top and the ordinal it was built from,
  by both inverses; keys of one top sort in the byte order of the store as their ordinals sort;
  keys of different tops differ.\<close>

theorem onkey_roundtrip_order:
  assumes "key \<noteq> []" and "m < 2 ^ 53" and "n < 2 ^ 53"
  shows "splitKeyON (onKey key m ''.'') ''.'' = Inr (key, Some m)
    \<and> unsuffix (suffix_key key m ''.'') ''.'' = Inr (key, Some m)
    \<and> (onKey key m ''.'' < onKey key n ''.'' \<longleftrightarrow> m < n)
    \<and> (onKey key m ''.'' = onKey key' n ''.'' \<longleftrightarrow> key = key' \<and> m = n)"
  using assms onkey_injective [OF assms] by (auto simp: suffix_key_onKey onKey_less)

theorem onkey_roundtrip_order_witness:
  "splitKeyON (onKey ''EA.b'' 10 ''.'') ''.'' = Inr (''EA.b'', Some 10)
   \<and> onKey ''EA.b'' 10 ''.'' < onKey ''EA.b'' 255 ''.''"
  using onkey_roundtrip_order [of "''EA.b''" 10 255] by simp

section \<open>Branches of the key space\<close>

text \<open>No top extends another at a separator. Identifiers have no separator at all, and
  composite keys of one store have the same number of parts.\<close>

definition tops_free :: "string set \<Rightarrow> bool" where
  "tops_free T \<longleftrightarrow> [] \<notin> T \<and> (\<forall>t \<in> T. \<forall>t' \<in> T. \<not> prefix (t @ ''.'') t')"

lemma prefix_between:
  fixes x :: "'a::linorder list"
  assumes "prefix p x" and "prefix p z" and "x \<le> y" and "y \<le> z"
  shows "prefix p y"
  using assms
proof (induction p arbitrary: x y z)
  case (Cons c p)
  obtain x' z' where xz: "x = c # x'" "z = c # z'" "prefix p x'" "prefix p z'"
    using Cons.prems(1,2) by (auto simp: prefix_def)
  obtain d y' where d: "y = d # y'" using Cons.prems(3) xz(1) by (cases y) auto
  have "d = c" using Cons.prems(3,4) xz(1,2) d by (auto dest: order.strict_trans)
  then have y: "y = c # y'" "x' \<le> y'" "y' \<le> z'" using Cons.prems(3,4) xz(1,2) d by simp_all
  then show ?case using Cons.IH [OF xz(3,4) y(2,3)] by simp
qed simp

lemma onKey_branch:
  assumes "tops_free T" and "t \<in> T" and "t' \<in> T"
  shows "prefix (t @ ''.'') (onKey t' n ''.'') \<longleftrightarrow> t = t'"
proof
  assume p: "prefix (t @ ''.'') (onKey t' n ''.'')"
  have "prefix (t' @ ''.'') (onKey t' n ''.'')" by (simp add: onKey_def)
  from prefix_same_cases [OF p this] show "t = t'"
    using assms by (auto simp: tops_free_def prefix_snoc)
qed (simp add: onKey_def)

end
