(* ===== verification/Lmdber.thy ===== *)
theory Lmdber
  imports LmdbKeys
begin

text \<open>
  The access layer of the key-value store (\<^verbatim>\<open>keri/src/db/core/lmdber.ts\<close>): plain values,
  branch scans, values under ordinal keys, and the emulated families (insertion-ordered sets in
  suffixed keys, insertion-ordered duplicates behind a hidden proem, both also per ordinal).
  The engine (the third-party package \<^verbatim>\<open>lmdb\<close>) is the record \<open>lmdb\<close> of its
  operations over a table state; what its documentation promises is the locale
  \<open>lmdb_table\<close> of the theory \<open>LmdbLaws\<close>. A database is open and the engine does not fail:
  its exceptions, which the code wraps, have no branch. A generator is the list of what it
  yields; when a key cannot be split, the whole scan is the error. A number that is not a number
  (an ordinal suffix without digits) is \<open>None\<close> where it is passed on and an error where
  the code computes with it.
\<close>

section \<open>The engine\<close>

record 's lmdb =
  lm_range :: "'s \<Rightarrow> string option \<Rightarrow> (string \<times> string) list"
  lm_before :: "'s \<Rightarrow> string \<Rightarrow> (string \<times> string) option"
  lm_get :: "'s \<Rightarrow> string \<Rightarrow> string option"
  lm_values :: "'s \<Rightarrow> string \<Rightarrow> string list"
  lm_put :: "string \<Rightarrow> string \<Rightarrow> 's \<Rightarrow> 's"
  lm_remove :: "string \<Rightarrow> 's \<Rightarrow> bool \<times> 's"
  lm_removeVal :: "string \<Rightarrow> string \<Rightarrow> 's \<Rightarrow> bool \<times> 's"

type_synonym onitem = "string \<times> nat option \<times> string"

text \<open>A loop over entries that collects until it breaks.\<close>

fun scan :: "('e \<Rightarrow> 'x option dres) \<Rightarrow> 'e list \<Rightarrow> 'x list dres" where
  "scan f [] = Inr []"
| "scan f (e # es) =
     bind_res (f e) (\<lambda>r.
     (case r of None \<Rightarrow> Inr [] | Some x \<Rightarrow> bind_res (scan f es) (\<lambda>xs. Inr (x # xs))))"

definition next_on :: "nat option \<Rightarrow> nat dres" where
  "next_on cn = (case cn of Some n \<Rightarrow> Inr (js_num (n + 1)) | None \<Rightarrow> Inl DatabaseAppendError)"

section \<open>Plain values and branches\<close>

definition putVal :: "'s lmdb \<Rightarrow> string \<Rightarrow> string \<Rightarrow> 's \<Rightarrow> bool \<times> 's" where
  "putVal L key val s = (if lm_get L s key \<noteq> None then (False, s) else (True, lm_put L key val s))"

definition setVal :: "'s lmdb \<Rightarrow> string \<Rightarrow> string \<Rightarrow> 's \<Rightarrow> bool \<times> 's" where
  "setVal L key val s = (True, lm_put L key val s)"

definition getVal :: "'s lmdb \<Rightarrow> string \<Rightarrow> 's \<Rightarrow> string option" where
  "getVal L key s = lm_get L s key"

definition delVal :: "'s lmdb \<Rightarrow> string \<Rightarrow> string option \<Rightarrow> 's \<Rightarrow> bool \<times> 's" where
  "delVal L key val s =
     (case val of
        Some v \<Rightarrow> lm_removeVal L key v s
      | None \<Rightarrow> if lm_get L s key \<noteq> None then (True, snd (lm_remove L key s)) else (False, s))"

definition cnt :: "'s lmdb \<Rightarrow> 's \<Rightarrow> nat" where
  "cnt L s = length (lm_range L s None)"

definition branch_start :: "string \<Rightarrow> string option" where
  "branch_start br = (if br = [] then None else Some br)"

definition getTopItemIter :: "'s lmdb \<Rightarrow> string \<Rightarrow> 's \<Rightarrow> (string \<times> string) list" where
  "getTopItemIter L br s = takeWhile (\<lambda>e. br = [] \<or> prefix br (fst e)) (lm_range L s (branch_start br))"

definition cntTop :: "'s lmdb \<Rightarrow> string \<Rightarrow> 's \<Rightarrow> nat" where
  "cntTop L br s =
     length (takeWhile (\<lambda>e. br = [] \<or> prefix br (fst e)) (lm_range L s (branch_start br)))"

definition cntAll :: "'s lmdb \<Rightarrow> 's \<Rightarrow> nat" where
  "cntAll L s = cnt L s"

definition remove_keys :: "'s lmdb \<Rightarrow> string list \<Rightarrow> 's \<Rightarrow> 's" where
  "remove_keys L keys s = foldl (\<lambda>s k. snd (lm_remove L k s)) s keys"

definition delTop :: "'s lmdb \<Rightarrow> string \<Rightarrow> 's \<Rightarrow> bool \<times> 's" where
  "delTop L br s =
     (let keys = map fst (takeWhile (\<lambda>e. br = [] \<or> prefix br (fst e)) (lm_range L s (branch_start br)))
      in if keys = [] then (False, s) else (True, remove_keys L keys s))"

section \<open>Ordinal keys\<close>

definition putOnVal :: "'s lmdb \<Rightarrow> string \<Rightarrow> nat \<Rightarrow> string option \<Rightarrow> string \<Rightarrow> 's \<Rightarrow> bool \<times> 's" where
  "putOnVal L key on val sep s =
     (case val of None \<Rightarrow> (False, s) | Some v \<Rightarrow> putVal L (onKey key on sep) v s)"

definition pinOnVal :: "'s lmdb \<Rightarrow> string \<Rightarrow> nat \<Rightarrow> string option \<Rightarrow> string \<Rightarrow> 's \<Rightarrow> bool \<times> 's" where
  "pinOnVal L key on val sep s =
     (case val of
        Some v \<Rightarrow> if key = [] then (False, s) else setVal L (onKey key on sep) v s
      | None \<Rightarrow> (False, s))"

definition getOnVal :: "'s lmdb \<Rightarrow> string \<Rightarrow> nat \<Rightarrow> string \<Rightarrow> 's \<Rightarrow> string option" where
  "getOnVal L key on sep s = (if key = [] then None else getVal L (onKey key on sep) s)"

definition getOnItem :: "'s lmdb \<Rightarrow> string \<Rightarrow> nat \<Rightarrow> string \<Rightarrow> 's \<Rightarrow> (string \<times> nat \<times> string) option" where
  "getOnItem L key on sep s = map_option (\<lambda>v. (key, on, v)) (getOnVal L key on sep s)"

definition remOn :: "'s lmdb \<Rightarrow> string \<Rightarrow> nat \<Rightarrow> string \<Rightarrow> 's \<Rightarrow> bool \<times> 's" where
  "remOn L key on sep s = (if key = [] then (False, s) else delVal L (onKey key on sep) None s)"

definition on_start :: "string \<Rightarrow> nat \<Rightarrow> string \<Rightarrow> string" where
  "on_start key on sep = (if key = [] then [] else onKey key on sep)"

definition getOnAllItemIter :: "'s lmdb \<Rightarrow> string \<Rightarrow> nat \<Rightarrow> string \<Rightarrow> 's \<Rightarrow> onitem list dres" where
  "getOnAllItemIter L key on sep s =
     scan (\<lambda>(ckey, cval). bind_res (splitKeyON ckey sep) (\<lambda>(pre, cn).
         Inr (if key \<noteq> [] \<and> pre \<noteq> key then None else Some (pre, cn, cval))))
       (lm_range L s (Some (on_start key on sep)))"

definition cntOnAll :: "'s lmdb \<Rightarrow> string \<Rightarrow> nat \<Rightarrow> string \<Rightarrow> 's \<Rightarrow> nat dres" where
  "cntOnAll L key on sep s =
     bind_res
       (scan (\<lambda>(ckey, cval). bind_res (splitKeyON ckey sep) (\<lambda>(pre, cn).
           Inr (if key \<noteq> [] \<and> pre \<noteq> key then None else Some ())))
         (lm_range L s (Some (on_start key on sep))))
       (\<lambda>found. Inr (length found))"

definition remOnAll :: "'s lmdb \<Rightarrow> string \<Rightarrow> nat \<Rightarrow> string \<Rightarrow> 's \<Rightarrow> (bool \<times> 's) dres" where
  "remOnAll L key on sep s =
     (if key = [] then Inr (delTop L [] s)
      else
        bind_res
          (scan (\<lambda>(ckey, cval). bind_res (splitKeyON ckey sep) (\<lambda>(pre, cn).
              Inr (if pre \<noteq> key then None else Some ckey)))
            (lm_range L s (Some (onKey key on sep))))
          (\<lambda>keys. Inr (if keys = [] then (False, s) else (True, remove_keys L keys s))))"

definition getOnTopItemIter :: "'s lmdb \<Rightarrow> string \<Rightarrow> string \<Rightarrow> 's \<Rightarrow> onitem list dres" where
  "getOnTopItemIter L br sep s =
     map_res (\<lambda>(onkey, val). bind_res (splitKeyON onkey sep) (\<lambda>(key, on). Inr (key, on, val)))
       (getTopItemIter L br s)"

text \<open>The tail of a key is looked for backwards from its greatest ordinal key. The fallback
  counts the branch when the slot after the tail is taken.\<close>

definition max_on_key :: "string \<Rightarrow> string \<Rightarrow> string" where
  "max_on_key key sep = key @ sep @ replicate 32 (CHR ''f'')"

definition append_on :: "'s lmdb \<Rightarrow> string \<Rightarrow> string \<Rightarrow> 's \<Rightarrow> nat dres" where
  "append_on L key sep s =
     (case lm_before L s (max_on_key key sep) of
        None \<Rightarrow> Inr 0
      | Some (tailOnKey, _) \<Rightarrow>
          bind_res (splitKeyON tailOnKey sep) (\<lambda>(ckey, cn).
          if ckey \<noteq> key then Inr 0
          else if tailOnKey = max_on_key key sep then Inl DatabaseAppendError
          else next_on cn))"

definition appendOnVal ::
  "'s lmdb \<Rightarrow> string \<Rightarrow> string option \<Rightarrow> string \<Rightarrow> 's \<Rightarrow> (nat \<times> 's) dres" where
  "appendOnVal L key val sep s =
     (case val of
        None \<Rightarrow> Inl DatabaseAppendError
      | Some v \<Rightarrow>
          if key = [] then Inl DatabaseAppendError
          else
            bind_res (append_on L key sep s) (\<lambda>nextOn.
            let (added, s') = putVal L (onKey key nextOn sep) v s
            in if added then Inr (nextOn, s')
               else
                 bind_res (cntOnAll L key 0 sep s) (\<lambda>fallbackOn.
                 let (added', s'') = putVal L (onKey key fallbackOn sep) v s
                 in if fallbackOn \<noteq> nextOn \<and> added' then Inr (fallbackOn, s'')
                    else Inl DatabaseAppendError)))"

section \<open>Insertion-ordered sets\<close>

fun unique_loop :: "string set \<Rightarrow> string list \<Rightarrow> string list" where
  "unique_loop seen [] = []"
| "unique_loop seen (v # vs) =
     (if v \<in> seen then unique_loop seen vs else v # unique_loop (insert v seen) vs)"

definition asUniqueVals :: "string list \<Rightarrow> string list" where
  "asUniqueVals vals = unique_loop {} vals"

text \<open>The run of a key: the members from an insertion ordinal on, with their physical keys.\<close>

definition io_run :: "'s lmdb \<Rightarrow> string \<Rightarrow> nat \<Rightarrow> string \<Rightarrow> 's \<Rightarrow> (string \<times> nat option \<times> string) list dres" where
  "io_run L key ion sep s =
     scan (\<lambda>(iokey, cval). bind_res (unsuffix iokey sep) (\<lambda>(ckey, cion).
         Inr (if ckey \<noteq> key then None else Some (iokey, cion, cval))))
       (lm_range L s (Some (suffix_key key ion sep)))"

definition next_ion :: "(string \<times> nat option \<times> string) list \<Rightarrow> nat dres" where
  "next_ion run = (case run of [] \<Rightarrow> Inr 0 | _ \<Rightarrow> next_on (fst (snd (last run))))"

fun put_suffixed :: "'s lmdb \<Rightarrow> string \<Rightarrow> string \<Rightarrow> nat \<Rightarrow> string list \<Rightarrow> 's \<Rightarrow> 's" where
  "put_suffixed L key sep ion [] s = s"
| "put_suffixed L key sep ion (v # vs) s =
     put_suffixed L key sep (ion + 1) vs (lm_put L (suffix_key key ion sep) v s)"

definition putIoSetVals ::
  "'s lmdb \<Rightarrow> string \<Rightarrow> string list option \<Rightarrow> string \<Rightarrow> 's \<Rightarrow> (bool \<times> 's) dres" where
  "putIoSetVals L key vals sep s =
     (case vals of
        None \<Rightarrow> Inr (False, s)
      | Some vs \<Rightarrow>
          if key = [] \<or> asUniqueVals vs = [] then Inr (False, s)
          else
            bind_res (io_run L key 0 sep s) (\<lambda>run.
            bind_res (next_ion run) (\<lambda>ion.
            let fresh = filter (\<lambda>v. v \<notin> set (map (\<lambda>(_, _, w). w) run)) (asUniqueVals vs)
            in Inr (if fresh = [] then (False, s) else (True, put_suffixed L key sep ion fresh s)))))"

definition remIoSet :: "'s lmdb \<Rightarrow> string \<Rightarrow> string \<Rightarrow> 's \<Rightarrow> (bool \<times> 's) dres" where
  "remIoSet L key sep s =
     (if key = [] then Inr (False, s)
      else bind_res (io_run L key 0 sep s) (\<lambda>run.
        Inr (if run = [] then (False, s) else (True, remove_keys L (map fst run) s))))"

definition pinIoSetVals ::
  "'s lmdb \<Rightarrow> string \<Rightarrow> string list option \<Rightarrow> string \<Rightarrow> 's \<Rightarrow> (bool \<times> 's) dres" where
  "pinIoSetVals L key vals sep s =
     (case vals of
        None \<Rightarrow> Inr (False, s)
      | Some vs \<Rightarrow>
          if key = [] \<or> asUniqueVals vs = [] then Inr (False, s)
          else bind_res (remIoSet L key sep s) (\<lambda>(_, s').
            Inr (True, put_suffixed L key sep 0 (asUniqueVals vs) s')))"

text \<open>The search of \<open>addIoSetVal\<close>: the next insertion ordinal, or \<open>None\<close> when the value
  is a member.\<close>

fun add_search :: "string \<Rightarrow> string \<Rightarrow> string \<Rightarrow> nat \<Rightarrow> (string \<times> string) list \<Rightarrow> nat option dres" where
  "add_search key sep val ion [] = Inr (Some ion)"
| "add_search key sep val ion ((iokey, cval) # es) =
     bind_res (unsuffix iokey sep) (\<lambda>(ckey, cion).
     if ckey \<noteq> key then Inr (Some ion)
     else if cval = val then Inr None
     else bind_res (next_on cion) (\<lambda>ion'. add_search key sep val ion' es))"

definition addIoSetVal ::
  "'s lmdb \<Rightarrow> string \<Rightarrow> string option \<Rightarrow> string \<Rightarrow> 's \<Rightarrow> (bool \<times> 's) dres" where
  "addIoSetVal L key val sep s =
     (case val of
        None \<Rightarrow> Inr (False, s)
      | Some v \<Rightarrow>
          if key = [] then Inr (False, s)
          else
            bind_res (add_search key sep v 0 (lm_range L s (Some (suffix_key key 0 sep)))) (\<lambda>slot.
            Inr (case slot of
                   None \<Rightarrow> (False, s)
                 | Some ion \<Rightarrow> putVal L (suffix_key key ion sep) v s)))"

definition getIoSetItemIter ::
  "'s lmdb \<Rightarrow> string \<Rightarrow> nat \<Rightarrow> string \<Rightarrow> 's \<Rightarrow> (string \<times> string) list dres" where
  "getIoSetItemIter L key ion sep s =
     (if key = [] then Inr []
      else bind_res (io_run L key ion sep s) (\<lambda>run. Inr (map (\<lambda>(_, _, v). (key, v)) run)))"

definition getIoSetLastItem ::
  "'s lmdb \<Rightarrow> string \<Rightarrow> string \<Rightarrow> 's \<Rightarrow> (string \<times> string) option dres" where
  "getIoSetLastItem L key sep s =
     bind_res (getIoSetItemIter L key 0 sep s) (\<lambda>items.
     Inr (if items = [] then None else Some (last items)))"

fun find_member :: "string \<Rightarrow> string \<Rightarrow> string \<Rightarrow> (string \<times> string) list \<Rightarrow> string option dres" where
  "find_member key sep val [] = Inr None"
| "find_member key sep val ((iokey, cval) # es) =
     bind_res (unsuffix iokey sep) (\<lambda>(ckey, _).
     if ckey \<noteq> key then Inr None
     else if cval = val then Inr (Some iokey)
     else find_member key sep val es)"

definition remIoSetVal ::
  "'s lmdb \<Rightarrow> string \<Rightarrow> string option \<Rightarrow> string \<Rightarrow> 's \<Rightarrow> (bool \<times> 's) dres" where
  "remIoSetVal L key val sep s =
     (case val of
        None \<Rightarrow> remIoSet L key sep s
      | Some v \<Rightarrow>
          if key = [] then Inr (False, s)
          else
            bind_res (find_member key sep v (lm_range L s (Some (suffix_key key 0 sep)))) (\<lambda>found.
            Inr (case found of
                   None \<Rightarrow> (False, s)
                 | Some iokey \<Rightarrow> (True, snd (lm_remove L iokey s)))))"

definition cntIoSet :: "'s lmdb \<Rightarrow> string \<Rightarrow> nat \<Rightarrow> string \<Rightarrow> 's \<Rightarrow> nat dres" where
  "cntIoSet L key ion sep s =
     (if key = [] then Inr 0
      else bind_res (getIoSetItemIter L key ion sep s) (\<lambda>items. Inr (length items)))"

definition getTopIoSetItemIter ::
  "'s lmdb \<Rightarrow> string \<Rightarrow> string \<Rightarrow> 's \<Rightarrow> (string \<times> string) list dres" where
  "getTopIoSetItemIter L br sep s =
     map_res (\<lambda>(iokey, val). bind_res (unsuffix iokey sep) (\<lambda>(key, _). Inr (key, val)))
       (getTopItemIter L br s)"

fun last_members :: "(string \<times> string) option \<Rightarrow> (string \<times> string) list \<Rightarrow> (string \<times> string) list" where
  "last_members cur [] = (case cur of None \<Rightarrow> [] | Some e \<Rightarrow> [e])"
| "last_members cur ((ckey, cval) # es) =
     (case cur of
        None \<Rightarrow> last_members (Some (ckey, cval)) es
      | Some (lkey, lval) \<Rightarrow>
          if ckey = lkey then last_members (Some (ckey, cval)) es
          else (lkey, lval) # last_members (Some (ckey, cval)) es)"

definition getIoSetLastItemIterAll ::
  "'s lmdb \<Rightarrow> string \<Rightarrow> string \<Rightarrow> 's \<Rightarrow> (string \<times> string) list dres" where
  "getIoSetLastItemIterAll L key sep s =
     bind_res
       (map_res (\<lambda>(iokey, val). bind_res (unsuffix iokey sep) (\<lambda>(ckey, _). Inr (ckey, val)))
         (lm_range L s (if key = [] then None else Some (suffix_key key 0 sep))))
       (\<lambda>items. Inr (last_members None items))"

definition getIoSetLastIterAll :: "'s lmdb \<Rightarrow> string \<Rightarrow> string \<Rightarrow> 's \<Rightarrow> string list dres" where
  "getIoSetLastIterAll L key sep s =
     bind_res (getIoSetLastItemIterAll L key sep s) (\<lambda>items. Inr (map snd items))"

end
