(* ===== verification/LmdberDup.thy ===== *)
theory LmdberDup
  imports Lmdber
begin

text \<open>
  The duplicate families of \<^verbatim>\<open>keri/src/db/core/lmdber.ts\<close> over a table that keeps several
  values per key sorted by their bytes: native duplicates, duplicates whose hidden proem makes
  the byte order the insertion order, the same per ordinal, and insertion-ordered sets per
  ordinal.
\<close>

section \<open>Native duplicates\<close>

definition getVals :: "'s lmdb \<Rightarrow> string \<Rightarrow> 's \<Rightarrow> string list" where
  "getVals L key s = lm_values L s key"

fun put_vals :: "'s lmdb \<Rightarrow> string \<Rightarrow> string set \<Rightarrow> string list \<Rightarrow> 's \<Rightarrow> bool \<times> 's" where
  "put_vals L key existing [] s = (True, s)"
| "put_vals L key existing (v # vs) s =
     (if v \<in> existing then (False, snd (put_vals L key existing vs s))
      else put_vals L key (insert v existing) vs (lm_put L key v s))"

definition putVals :: "'s lmdb \<Rightarrow> string \<Rightarrow> string list \<Rightarrow> 's \<Rightarrow> bool \<times> 's" where
  "putVals L key vals s = put_vals L key (set (getVals L key s)) vals s"

definition single_val :: "string option \<Rightarrow> string list" where
  "single_val val = (case val of None \<Rightarrow> [[]] | Some v \<Rightarrow> [v])"

definition addVal :: "'s lmdb \<Rightarrow> string \<Rightarrow> string option \<Rightarrow> 's \<Rightarrow> bool \<times> 's" where
  "addVal L key val s = putVals L key (single_val val) s"

definition getValLast :: "'s lmdb \<Rightarrow> string \<Rightarrow> 's \<Rightarrow> string option" where
  "getValLast L key s = (let vals = getVals L key s in if vals = [] then None else Some (last vals))"

definition getValsIter :: "'s lmdb \<Rightarrow> string \<Rightarrow> 's \<Rightarrow> string list" where
  "getValsIter L key s = lm_values L s key"

definition cntVals :: "'s lmdb \<Rightarrow> string \<Rightarrow> 's \<Rightarrow> nat" where
  "cntVals L key s = length (lm_values L s key)"

definition delVals :: "'s lmdb \<Rightarrow> string \<Rightarrow> 's \<Rightarrow> bool \<times> 's" where
  "delVals L key s = lm_remove L key s"

section \<open>Duplicates in insertion order\<close>

definition iDupProem :: "nat \<Rightarrow> string" where
  "iDupProem index = padStart 32 (CHR ''0'') (hex_str index) @ ''.''"

definition withIoDupProem :: "nat \<Rightarrow> string \<Rightarrow> string" where
  "withIoDupProem index val = iDupProem index @ val"

definition stripIoDupProem :: "string \<Rightarrow> string" where
  "stripIoDupProem val = (if 33 \<le> length val then drop 33 val else [])"

definition parseIoDupOrdinal :: "string \<Rightarrow> nat" where
  "parseIoDupOrdinal val =
     (if length val < 32 then 0
      else (case parseInt16 (take 32 val) of Some n \<Rightarrow> n | None \<Rightarrow> 0))"

definition getIoDupVals :: "'s lmdb \<Rightarrow> string \<Rightarrow> 's \<Rightarrow> string list" where
  "getIoDupVals L key s = map stripIoDupProem (getVals L key s)"

fun put_iodups :: "'s lmdb \<Rightarrow> string \<Rightarrow> string set \<Rightarrow> nat \<Rightarrow> string list \<Rightarrow> 's \<Rightarrow> bool \<times> 's" where
  "put_iodups L key existing idx [] s = (False, s)"
| "put_iodups L key existing idx (v # vs) s =
     (if v \<in> existing then put_iodups L key existing idx vs s
      else (True, snd (put_iodups L key (insert v existing) (js_num (idx + 1)) vs
                         (lm_put L key (withIoDupProem idx v) s))))"

definition next_idx :: "string option \<Rightarrow> nat" where
  "next_idx tl_val = (case tl_val of None \<Rightarrow> 0 | Some v \<Rightarrow> js_num (parseIoDupOrdinal v + 1))"

definition putIoDupVals :: "'s lmdb \<Rightarrow> string \<Rightarrow> string list \<Rightarrow> 's \<Rightarrow> bool \<times> 's" where
  "putIoDupVals L key vals s =
     put_iodups L key (set (getIoDupVals L key s)) (next_idx (getValLast L key s)) vals s"

definition addIoDupVal :: "'s lmdb \<Rightarrow> string \<Rightarrow> string option \<Rightarrow> 's \<Rightarrow> bool \<times> 's" where
  "addIoDupVal L key val s = putIoDupVals L key (single_val val) s"

definition getIoDupValsIter :: "'s lmdb \<Rightarrow> string \<Rightarrow> 's \<Rightarrow> string list" where
  "getIoDupValsIter L key s = map stripIoDupProem (getValsIter L key s)"

definition getIoDupValLast :: "'s lmdb \<Rightarrow> string \<Rightarrow> 's \<Rightarrow> string option" where
  "getIoDupValLast L key s = map_option stripIoDupProem (getValLast L key s)"

definition delIoDupVals :: "'s lmdb \<Rightarrow> string \<Rightarrow> 's \<Rightarrow> bool \<times> 's" where
  "delIoDupVals L key s = delVals L key s"

fun del_iodup :: "'s lmdb \<Rightarrow> string \<Rightarrow> string \<Rightarrow> string list \<Rightarrow> 's \<Rightarrow> bool \<times> 's" where
  "del_iodup L key val [] s = (False, s)"
| "del_iodup L key val (p # ps) s =
     (if stripIoDupProem p = val then lm_removeVal L key p s else del_iodup L key val ps s)"

definition delIoDupVal :: "'s lmdb \<Rightarrow> string \<Rightarrow> string \<Rightarrow> 's \<Rightarrow> bool \<times> 's" where
  "delIoDupVal L key val s = del_iodup L key val (getVals L key s) s"

definition cntIoDups :: "'s lmdb \<Rightarrow> string \<Rightarrow> 's \<Rightarrow> nat" where
  "cntIoDups L key s = cntVals L key s"

definition getTopIoDupItemIter :: "'s lmdb \<Rightarrow> string \<Rightarrow> 's \<Rightarrow> (string \<times> string) list" where
  "getTopIoDupItemIter L br s = map (\<lambda>(key, val). (key, stripIoDupProem val)) (getTopItemIter L br s)"

section \<open>Duplicates per ordinal\<close>

definition putOnIoDupVals ::
  "'s lmdb \<Rightarrow> string \<Rightarrow> nat \<Rightarrow> string list \<Rightarrow> string \<Rightarrow> 's \<Rightarrow> bool \<times> 's" where
  "putOnIoDupVals L key on vals sep s = putIoDupVals L (onKey key on sep) vals s"

definition addOnIoDupVal ::
  "'s lmdb \<Rightarrow> string \<Rightarrow> nat \<Rightarrow> string option \<Rightarrow> string \<Rightarrow> 's \<Rightarrow> bool \<times> 's" where
  "addOnIoDupVal L key on val sep s = addIoDupVal L (onKey key on sep) val s"

definition appendOnIoDupVal :: "'s lmdb \<Rightarrow> string \<Rightarrow> string \<Rightarrow> string \<Rightarrow> 's \<Rightarrow> (nat \<times> 's) dres" where
  "appendOnIoDupVal L key val sep s = appendOnVal L key (Some (withIoDupProem 0 val)) sep s"

definition getOnIoDupVals :: "'s lmdb \<Rightarrow> string \<Rightarrow> nat \<Rightarrow> string \<Rightarrow> 's \<Rightarrow> string list" where
  "getOnIoDupVals L key on sep s = (if key = [] then [] else getIoDupVals L (onKey key on sep) s)"

definition getOnIoDupValsIter :: "'s lmdb \<Rightarrow> string \<Rightarrow> nat \<Rightarrow> string \<Rightarrow> 's \<Rightarrow> string list" where
  "getOnIoDupValsIter L key on sep s =
     (if key = [] then [] else getIoDupValsIter L (onKey key on sep) s)"

definition getOnIoDupLast :: "'s lmdb \<Rightarrow> string \<Rightarrow> nat \<Rightarrow> string \<Rightarrow> 's \<Rightarrow> string option" where
  "getOnIoDupLast L key on sep s = getIoDupValLast L (onKey key on sep) s"

text \<open>The loop of \<open>getOnIoDupLastItemIter\<close>: the current ordinal key, its split and the last
  value seen under it; a new key gives out the one before.\<close>

type_synonym cursor = "(string \<times> string \<times> nat option \<times> string) option"

definition cursor_item :: "cursor \<Rightarrow> onitem list" where
  "cursor_item cur =
     (case cur of None \<Rightarrow> [] | Some (_, lkey, lon, v) \<Rightarrow> [(lkey, lon, stripIoDupProem v)])"

fun last_iodups :: "string \<Rightarrow> string \<Rightarrow> cursor \<Rightarrow> (string \<times> string) list \<Rightarrow> onitem list dres" where
  "last_iodups key sep cur [] = Inr (cursor_item cur)"
| "last_iodups key sep cur ((onkey, cval) # es) =
     bind_res (splitKeyON onkey sep) (\<lambda>(ckey, con).
     if key \<noteq> [] \<and> ckey \<noteq> key then Inr (cursor_item cur)
     else
       (case cur of
          Some (lonkey, lkey, lon, _) \<Rightarrow>
            if lonkey = onkey then last_iodups key sep (Some (lonkey, lkey, lon, cval)) es
            else bind_res (last_iodups key sep (Some (onkey, ckey, con, cval)) es)
                   (\<lambda>items. Inr (cursor_item cur @ items))
        | None \<Rightarrow> last_iodups key sep (Some (onkey, ckey, con, cval)) es))"

definition getOnIoDupLastItemIter ::
  "'s lmdb \<Rightarrow> string \<Rightarrow> nat \<Rightarrow> string \<Rightarrow> 's \<Rightarrow> onitem list dres" where
  "getOnIoDupLastItemIter L key on sep s =
     last_iodups key sep None (lm_range L s (Some (on_start key on sep)))"

definition item_vals :: "onitem list dres \<Rightarrow> string list dres" where
  "item_vals r = bind_res r (\<lambda>items. Inr (map (\<lambda>(_, _, v). v) items))"

definition getOnIoDupLastValIter :: "'s lmdb \<Rightarrow> string \<Rightarrow> nat \<Rightarrow> string \<Rightarrow> 's \<Rightarrow> string list dres" where
  "getOnIoDupLastValIter L key on sep s = item_vals (getOnIoDupLastItemIter L key on sep s)"

definition strip_items :: "onitem list dres \<Rightarrow> onitem list dres" where
  "strip_items r = bind_res r (\<lambda>items. Inr (map (\<lambda>(k, on, v). (k, on, stripIoDupProem v)) items))"

definition getOnTopIoDupItemIter :: "'s lmdb \<Rightarrow> string \<Rightarrow> string \<Rightarrow> 's \<Rightarrow> onitem list dres" where
  "getOnTopIoDupItemIter L br sep s = strip_items (getOnTopItemIter L br sep s)"

definition delOnIoDups :: "'s lmdb \<Rightarrow> string \<Rightarrow> nat \<Rightarrow> string \<Rightarrow> 's \<Rightarrow> bool \<times> 's" where
  "delOnIoDups L key on sep s = delIoDupVals L (onKey key on sep) s"

definition delOnIoDupVal :: "'s lmdb \<Rightarrow> string \<Rightarrow> nat \<Rightarrow> string \<Rightarrow> string \<Rightarrow> 's \<Rightarrow> bool \<times> 's" where
  "delOnIoDupVal L key on val sep s = delIoDupVal L (onKey key on sep) val s"

definition cntOnIoDups :: "'s lmdb \<Rightarrow> string \<Rightarrow> nat \<Rightarrow> string \<Rightarrow> 's \<Rightarrow> nat" where
  "cntOnIoDups L key on sep s = cntIoDups L (onKey key on sep) s"

definition getOnIoDupItemIterAll ::
  "'s lmdb \<Rightarrow> string \<Rightarrow> nat \<Rightarrow> string \<Rightarrow> 's \<Rightarrow> onitem list dres" where
  "getOnIoDupItemIterAll L key on sep s = strip_items (getOnAllItemIter L key on sep s)"

definition getOnIoDupIterAll :: "'s lmdb \<Rightarrow> string \<Rightarrow> nat \<Rightarrow> string \<Rightarrow> 's \<Rightarrow> string list dres" where
  "getOnIoDupIterAll L key on sep s = item_vals (getOnIoDupItemIterAll L key on sep s)"

definition at_most :: "nat \<Rightarrow> nat option \<Rightarrow> bool" where
  "at_most on n \<longleftrightarrow> (case n of None \<Rightarrow> False | Some m \<Rightarrow> m \<le> on)"

definition getOnIoDupItemBackIter ::
  "'s lmdb \<Rightarrow> string \<Rightarrow> nat \<Rightarrow> string \<Rightarrow> 's \<Rightarrow> onitem list dres" where
  "getOnIoDupItemBackIter L key on sep s =
     bind_res (getOnIoDupItemIterAll L key 0 sep s) (\<lambda>items.
     Inr (rev (if key = [] then items else filter (\<lambda>(_, n, _). at_most on n) items)))"

definition getOnIoDupValBackIter :: "'s lmdb \<Rightarrow> string \<Rightarrow> nat \<Rightarrow> string \<Rightarrow> 's \<Rightarrow> string list dres" where
  "getOnIoDupValBackIter L key on sep s = item_vals (getOnIoDupItemBackIter L key on sep s)"

section \<open>Insertion-ordered sets per ordinal\<close>

definition putOnIoSetVals ::
  "'s lmdb \<Rightarrow> string \<Rightarrow> nat \<Rightarrow> string list option \<Rightarrow> string \<Rightarrow> 's \<Rightarrow> (bool \<times> 's) dres" where
  "putOnIoSetVals L key on vals sep s =
     (if key = [] then Inr (False, s) else putIoSetVals L (onKey key on sep) vals sep s)"

definition pinOnIoSetVals ::
  "'s lmdb \<Rightarrow> string \<Rightarrow> nat \<Rightarrow> string list option \<Rightarrow> string \<Rightarrow> 's \<Rightarrow> (bool \<times> 's) dres" where
  "pinOnIoSetVals L key on vals sep s =
     (if key = [] then Inr (False, s) else pinIoSetVals L (onKey key on sep) vals sep s)"

text \<open>The entries of a key in a store of sets per ordinal: the physical key, the ordinal and
  the member.\<close>

definition onio_run ::
  "'s lmdb \<Rightarrow> string \<Rightarrow> nat \<Rightarrow> string \<Rightarrow> 's \<Rightarrow> (string \<times> nat option \<times> string) list dres" where
  "onio_run L key on sep s =
     scan (\<lambda>(iokey, cval).
         bind_res (unsuffix iokey sep) (\<lambda>(onkey, _).
         bind_res (splitKeyON onkey sep) (\<lambda>(ckey, con).
         Inr (if ckey \<noteq> key then None else Some (iokey, con, cval)))))
       (lm_range L s (Some (suffix_key (onKey key on sep) 0 sep)))"

definition appendOnIoSetVals ::
  "'s lmdb \<Rightarrow> string \<Rightarrow> string list option \<Rightarrow> string \<Rightarrow> 's \<Rightarrow> (nat \<times> 's) dres" where
  "appendOnIoSetVals L key vals sep s =
     (if key = [] \<or> vals = None then Inl DatabaseAppendError
      else
        bind_res (onio_run L key 0 sep s) (\<lambda>run.
        bind_res (next_ion run) (\<lambda>on.
        bind_res (putOnIoSetVals L key on vals sep s) (\<lambda>(ok, s').
        if ok then Inr (on, s') else Inl DatabaseAppendError))))"

definition addOnIoSetVal ::
  "'s lmdb \<Rightarrow> string \<Rightarrow> nat \<Rightarrow> string option \<Rightarrow> string \<Rightarrow> 's \<Rightarrow> (bool \<times> 's) dres" where
  "addOnIoSetVal L key on val sep s = addIoSetVal L (onKey key on sep) val sep s"

definition split_item :: "string \<Rightarrow> string \<times> string \<Rightarrow> onitem dres" where
  "split_item sep e = bind_res (splitKeyON (fst e) sep) (\<lambda>(k, n). Inr (k, n, snd e))"

definition getOnIoSetItemIter ::
  "'s lmdb \<Rightarrow> string \<Rightarrow> nat \<Rightarrow> nat \<Rightarrow> string \<Rightarrow> 's \<Rightarrow> onitem list dres" where
  "getOnIoSetItemIter L key on ion sep s =
     bind_res (getIoSetItemIter L (onKey key on sep) ion sep s) (map_res (split_item sep))"

definition getOnIoSetLastItem ::
  "'s lmdb \<Rightarrow> string \<Rightarrow> nat \<Rightarrow> string \<Rightarrow> 's \<Rightarrow> onitem option dres" where
  "getOnIoSetLastItem L key on sep s =
     bind_res (getIoSetLastItem L (onKey key on sep) sep s) (\<lambda>item.
     (case item of
        None \<Rightarrow> Inr None
      | Some e \<Rightarrow> bind_res (split_item sep e) (\<lambda>i. Inr (Some i))))"

definition remOnIoSetVal ::
  "'s lmdb \<Rightarrow> string \<Rightarrow> nat \<Rightarrow> string option \<Rightarrow> string \<Rightarrow> 's \<Rightarrow> (bool \<times> 's) dres" where
  "remOnIoSetVal L key on val sep s = remIoSetVal L (onKey key on sep) val sep s"

definition remOnAllIoSet :: "'s lmdb \<Rightarrow> string \<Rightarrow> nat \<Rightarrow> string \<Rightarrow> 's \<Rightarrow> (bool \<times> 's) dres" where
  "remOnAllIoSet L key on sep s =
     (if key = [] then Inr (delTop L [] s)
      else bind_res (onio_run L key on sep s) (\<lambda>run.
        Inr (if run = [] then (False, s) else (True, remove_keys L (map fst run) s))))"

definition cntOnIoSet :: "'s lmdb \<Rightarrow> string \<Rightarrow> nat \<Rightarrow> nat \<Rightarrow> string \<Rightarrow> 's \<Rightarrow> nat dres" where
  "cntOnIoSet L key on ion sep s = cntIoSet L (onKey key on sep) ion sep s"

definition cntOnAllIoSet :: "'s lmdb \<Rightarrow> string \<Rightarrow> nat \<Rightarrow> string \<Rightarrow> 's \<Rightarrow> nat dres" where
  "cntOnAllIoSet L key on sep s =
     (if key = [] then Inr (cntAll L s)
      else bind_res (onio_run L key on sep s) (\<lambda>run. Inr (length run)))"

definition getOnTopIoSetItemIter :: "'s lmdb \<Rightarrow> string \<Rightarrow> string \<Rightarrow> 's \<Rightarrow> onitem list dres" where
  "getOnTopIoSetItemIter L br sep s =
     bind_res (getTopIoSetItemIter L br sep s) (map_res (split_item sep))"

definition getOnAllIoSetItemIter ::
  "'s lmdb \<Rightarrow> string \<Rightarrow> nat \<Rightarrow> string \<Rightarrow> 's \<Rightarrow> onitem list dres" where
  "getOnAllIoSetItemIter L key on sep s =
     (if key = [] then getOnTopIoSetItemIter L [] sep s
      else bind_res (onio_run L key on sep s) (\<lambda>run.
        Inr (map (\<lambda>(_, con, v). (key, con, v)) run)))"

fun last_per_ordinal :: "onitem option \<Rightarrow> onitem list \<Rightarrow> onitem list" where
  "last_per_ordinal cur [] = (case cur of None \<Rightarrow> [] | Some e \<Rightarrow> [e])"
| "last_per_ordinal cur (e # es) =
     (case cur of
        None \<Rightarrow> last_per_ordinal (Some e) es
      | Some l \<Rightarrow>
          if fst (snd e) \<noteq> fst (snd l) then l # last_per_ordinal (Some e) es
          else last_per_ordinal (Some e) es)"

definition getOnAllIoSetLastItemIter ::
  "'s lmdb \<Rightarrow> string \<Rightarrow> nat \<Rightarrow> string \<Rightarrow> 's \<Rightarrow> onitem list dres" where
  "getOnAllIoSetLastItemIter L key on sep s =
     (if key = [] then bind_res (getIoSetLastItemIterAll L [] sep s) (map_res (split_item sep))
      else bind_res (getOnAllIoSetItemIter L key on sep s) (\<lambda>items.
        Inr (last_per_ordinal None items)))"

definition back_to :: "string \<Rightarrow> nat option \<Rightarrow> onitem list \<Rightarrow> onitem list" where
  "back_to key on items =
     filter (\<lambda>(_, n, _). \<not> (key \<noteq> [] \<and> (case (on, n) of (Some m, Some k) \<Rightarrow> m < k | _ \<Rightarrow> False)))
       (rev items)"

definition getOnAllIoSetItemBackIter ::
  "'s lmdb \<Rightarrow> string \<Rightarrow> nat option \<Rightarrow> string \<Rightarrow> 's \<Rightarrow> onitem list dres" where
  "getOnAllIoSetItemBackIter L key on sep s =
     bind_res (if key = [] then getOnTopIoSetItemIter L [] sep s
               else getOnAllIoSetItemIter L key 0 sep s) (\<lambda>items. Inr (back_to key on items))"

definition getOnAllIoSetLastItemBackIter ::
  "'s lmdb \<Rightarrow> string \<Rightarrow> nat option \<Rightarrow> string \<Rightarrow> 's \<Rightarrow> onitem list dres" where
  "getOnAllIoSetLastItemBackIter L key on sep s =
     bind_res (getOnAllIoSetLastItemIter L key 0 sep s) (\<lambda>items. Inr (back_to key on items))"

end
