(* ===== verification/LmdbLaws.thy ===== *)
theory LmdbLaws
  imports LmdberDup Baser "HOL-Library.AList"
begin

text \<open>
  What the access layer relies on of the engine, as the interface \<open>lmdb_table\<close>: the entries
  of a table are sorted by key and value, a range gives those from a key on, a write changes the
  entries of its own key only. A table with \<open>dup\<close> keeps several values per key. The locale
  derives what scans of one branch of the key space return. The engine on lists,
  \<open>list_lmdb\<close>, satisfies the interface and runs the samples.
\<close>

section \<open>Sorted lists\<close>

lemma sorted_wrt_concat:
  "sorted_wrt P (concat xss) \<longleftrightarrow>
     (\<forall>xs \<in> set xss. sorted_wrt P xs) \<and> sorted_wrt (\<lambda>xs ys. \<forall>x \<in> set xs. \<forall>y \<in> set ys. P x y) xss"
  by (induction xss) (auto simp: sorted_wrt_append)

lemma takeWhile_block:
  assumes "sorted_wrt (<) xs"
    and "\<And>x y. x \<in> set xs \<Longrightarrow> y \<in> set xs \<Longrightarrow> x < y \<Longrightarrow> P y \<Longrightarrow> P x"
  shows "takeWhile P xs = filter P xs"
  using assms
proof (induction xs)
  case (Cons x xs)
  show ?case
  proof (cases "P x")
    case True
    have "takeWhile P xs = filter P xs"
      using Cons.prems(1) by (intro Cons.IH) (simp, rule Cons.prems(2), auto)
    with True show ?thesis by simp
  next
    case False
    then have "filter P xs = []" using Cons.prems by (auto simp: filter_empty_conv)
    with False show ?thesis by simp
  qed
qed simp

lemma dropWhile_block:
  assumes "takeWhile P xs = filter P xs" and "x \<in> set (dropWhile P xs)"
  shows "\<not> P x"
proof -
  have t: "filter P (takeWhile P xs) = takeWhile P xs"
    by (rule filter_True) (auto dest: set_takeWhileD)
  have "filter P xs = filter P (takeWhile P xs) @ filter P (dropWhile P xs)"
    unfolding filter_append [symmetric] takeWhile_dropWhile_id by (rule refl)
  then have "takeWhile P xs = takeWhile P xs @ filter P (dropWhile P xs)"
    unfolding t by (rule trans [OF assms(1)])
  then have "filter P (dropWhile P xs) = []" by (rule append_self_conv [THEN iffD1, OF sym])
  then show ?thesis using assms(2) by (auto simp: filter_empty_conv)
qed

lemma sorted_last_max:
  fixes m :: "'a::linorder"
  assumes "sorted_wrt (<) xs" and "m \<in> set xs" and "\<forall>x \<in> set xs. x \<le> m"
  shows "xs \<noteq> [] \<and> last xs = m"
proof -
  have ne: "xs \<noteq> []" using assms(2) by auto
  then have xs: "xs = butlast xs @ [last xs]" by simp
  have "m \<le> last xs"
    using assms(1,2) by (subst (asm) (1 2) xs) (auto simp: sorted_wrt_append)
  then show ?thesis using assms(3) ne by (metis last_in_set order.antisym)
qed

lemma sorted_snoc_max:
  fixes m :: "'a::linorder"
  assumes "sorted_wrt (<) xs" and "sorted_wrt (<) ys" and "set ys = insert m (set xs)"
    and "\<forall>x \<in> set xs. x < m"
  shows "ys = xs @ [m]"
  using assms by (intro strict_sorted_equal) (auto simp: sorted_wrt_append)

section \<open>Scans\<close>

lemma scan_prefix:
  assumes "\<And>e. e \<in> set es \<Longrightarrow> f e = Inr (Some (g e))"
    and "rest = [] \<or> f (hd rest) = Inr None"
  shows "scan f (es @ rest) = Inr (map g es)"
  using assms
proof (induction es)
  case Nil
  then show ?case by (cases rest) (auto simp: res_simps)
qed (simp add: res_simps)

section \<open>The interface\<close>

definition entries :: "'s lmdb \<Rightarrow> 's \<Rightarrow> (string \<times> string) list" where
  "entries L s = lm_range L s None"

text \<open>A table whose keys are ordinal keys, below \<open>b\<close>, of a free set of tops; the
  entries of one top from an ordinal on.\<close>

definition keyed :: "'s lmdb \<Rightarrow> string set \<Rightarrow> nat \<Rightarrow> 's \<Rightarrow> bool" where
  "keyed L T b s \<longleftrightarrow> tops_free T \<and> b \<le> 2 ^ 53
     \<and> (\<forall>e \<in> set (entries L s). \<exists>t \<in> T. \<exists>n < b. fst e = onKey t n ''.'')"

definition block :: "'s lmdb \<Rightarrow> string \<Rightarrow> nat \<Rightarrow> 's \<Rightarrow> (string \<times> string) list" where
  "block L t on s = filter (\<lambda>e. onKey t on ''.'' \<le> fst e \<and> prefix (t @ ''.'') (fst e)) (entries L s)"

locale lmdb_table =
  fixes L :: "'s lmdb"
    and dup :: bool
  assumes sorted: "sorted_wrt (<) (entries L s)"
    and single: "\<not> dup \<Longrightarrow> (k, v) \<in> set (entries L s) \<Longrightarrow> (k, w) \<in> set (entries L s) \<Longrightarrow> v = w"
    and range_from: "lm_range L s (Some k) = filter (\<lambda>e. k \<le> fst e) (entries L s)"
    and before: "lm_before L s k =
      (let es = filter (\<lambda>e. fst e \<le> k) (entries L s) in if es = [] then None else Some (last es))"
    and vals: "lm_values L s k = map snd (filter (\<lambda>e. fst e = k) (entries L s))"
    and get: "lm_get L s k = (case lm_values L s k of [] \<Rightarrow> None | v # _ \<Rightarrow> Some v)"
    and put: "k \<noteq> [] \<Longrightarrow>
      set (entries L (lm_put L k v s)) = insert (k, v) {e \<in> set (entries L s). dup \<or> fst e \<noteq> k}"
    and remove: "set (entries L (snd (lm_remove L k s))) = {e \<in> set (entries L s). fst e \<noteq> k}"
    and removed: "fst (lm_remove L k s) \<longleftrightarrow> k \<in> fst ` set (entries L s)"
    and removeVal: "dup \<Longrightarrow>
      set (entries L (snd (lm_removeVal L k v s))) = set (entries L s) - {(k, v)}"
    and removedVal: "dup \<Longrightarrow> fst (lm_removeVal L k v s) \<longleftrightarrow> (k, v) \<in> set (entries L s)"
begin

lemma values_set: "set (lm_values L s k) = {v. (k, v) \<in> set (entries L s)}"
  by (force simp: vals)

lemma values_sorted: "sorted_wrt (<) (lm_values L s k)"
proof -
  have "sorted_wrt (<) (filter (\<lambda>e. fst e = k) (entries L s))"
    using sorted by (rule sorted_wrt_filter)
  then have "sorted_wrt (\<lambda>x y. snd x < snd y) (filter (\<lambda>e. fst e = k) (entries L s))"
    by (rule sorted_wrt_mono_rel [rotated]) auto
  then show ?thesis by (simp add: vals sorted_wrt_map)
qed

lemma values_eqI:
  assumes "\<And>v. (k, v) \<in> set (entries L s) \<longleftrightarrow> (k', v) \<in> set (entries L s')"
  shows "lm_values L s k = lm_values L s' k'"
  using values_sorted values_sorted by (rule strict_sorted_equal) (simp add: values_set assms)

lemma get_none: "lm_get L s k = None \<longleftrightarrow> k \<notin> fst ` set (entries L s)"
proof -
  have "lm_get L s k = None \<longleftrightarrow> set (lm_values L s k) = {}"
    by (auto simp: get split: list.splits)
  then show ?thesis by (force simp: values_set)
qed

lemma entries_eqI: "set (entries L s) = set (entries L s') \<Longrightarrow> entries L s = entries L s'"
  using sorted sorted by (rule strict_sorted_equal)

lemma block_sorted: "sorted_wrt (<) (block L t on s)"
  unfolding block_def using sorted by (rule sorted_wrt_filter)

lemma block_member:
  assumes "keyed L T b s" and "t \<in> T" and "on < 2 ^ 53"
  shows "e \<in> set (block L t on s) \<longleftrightarrow> e \<in> set (entries L s) \<and> (\<exists>n < b. on \<le> n \<and> fst e = onKey t n ''.'')"
proof -
  have "(onKey t on ''.'' \<le> fst e \<and> prefix (t @ ''.'') (fst e))
      \<longleftrightarrow> (\<exists>n < b. on \<le> n \<and> fst e = onKey t n ''.'')"
    if e: "e \<in> set (entries L s)"
  proof -
    from e assms(1) obtain t' n where n: "t' \<in> T" "n < b" "fst e = onKey t' n ''.''" "b \<le> 2 ^ 53"
      unfolding keyed_def by blast
    have free: "tops_free T" using assms(1) by (simp add: keyed_def)
    have tt: "t = t'" if "onKey t m ''.'' = onKey t' n ''.''" for m
    proof -
      have "prefix (t @ ''.'') (onKey t m ''.'')" by (simp add: onKey_def)
      then show ?thesis unfolding that using onKey_branch [OF free assms(2) n(1)] by simp
    qed
    have inj: "m = n" if "onKey t m ''.'' = onKey t n ''.''" "m < b" for m
      using onKey_less [of m n t "''.''"] onKey_less [of n m t "''.''"] that n by auto
    show ?thesis
      using n assms(3) onKey_branch [OF free assms(2) n(1)] onKey_le [of on n t "''.''"] tt inj
      by (auto simp: n(3))
  qed
  then show ?thesis by (auto simp: block_def)
qed

text \<open>A range from an ordinal key of \<open>t\<close> starts with the block of \<open>t\<close>; what follows
  belongs to another top.\<close>

lemma range_block:
  assumes "keyed L T b s" and "t \<in> T"
  obtains rest where "lm_range L s (Some (onKey t on ''.'')) = block L t on s @ rest"
    and "\<And>e. e \<in> set rest \<Longrightarrow> \<exists>t' n. t' \<noteq> t \<and> t' \<noteq> [] \<and> n < b \<and> fst e = onKey t' n ''.''"
proof -
  let ?P = "\<lambda>e. prefix (t @ ''.'') (fst e)" and ?start = "onKey t on ''.''"
  let ?r = "lm_range L s (Some ?start)"
  have r: "?r = filter (\<lambda>e. ?start \<le> fst e) (entries L s)" by (rule range_from)
  have tw: "takeWhile ?P ?r = filter ?P ?r"
  proof (rule takeWhile_block)
    show "sorted_wrt (<) ?r" unfolding r using sorted by (rule sorted_wrt_filter)
    fix x y assume x: "x \<in> set ?r" and xy: "x < y" and y: "?P y"
    have "fst x \<le> fst y" using xy by (auto simp: less_prod_def)
    moreover have "?start \<le> fst x" using x by (simp add: r)
    moreover have "prefix (t @ ''.'') ?start" by (simp add: onKey_def)
    ultimately show "?P x" using prefix_between y by blast
  qed
  then have b: "takeWhile ?P ?r = block L t on s" by (simp add: r block_def conj_commute)
  have free: "tops_free T" using assms(1) by (simp add: keyed_def)
  have E: "\<exists>t' n. t' \<noteq> t \<and> t' \<noteq> [] \<and> n < b \<and> fst e = onKey t' n ''.''" if "e \<in> set (dropWhile ?P ?r)" for e
  proof -
    have "\<not> ?P e" using dropWhile_block [OF tw that] .
    moreover have "e \<in> set ?r" using set_dropWhileD [OF that] by blast
    ultimately have e: "e \<in> set (entries L s)" "\<not> ?P e" by (simp_all add: r)
    from e(1) assms(1) obtain t' n where n: "t' \<in> T" "n < b" "fst e = onKey t' n ''.''"
      unfolding keyed_def by blast
    have "t' \<noteq> t" using e(2) n(3) by (auto simp: onKey_def)
    moreover have "t' \<noteq> []" using n(1) free by (auto simp: tops_free_def)
    ultimately show ?thesis using n(2,3) by blast
  qed
  have R: "?r = block L t on s @ dropWhile ?P ?r" unfolding b [symmetric] by simp
  show thesis by (rule that [OF R E])
qed

end

section \<open>The engine on lists\<close>

text \<open>The state is the list of the writes; the entries are its sorted content.\<close>

definition list_entries :: "bool \<Rightarrow> (string \<times> string) list \<Rightarrow> (string \<times> string) list" where
  "list_entries dup s = sort (if dup then remdups s else AList.clearjunk s)"

definition list_lmdb :: "bool \<Rightarrow> (string \<times> string) list lmdb" where
  "list_lmdb dup =
     \<lparr>lm_range = (\<lambda>s start. filter (\<lambda>e. case start of None \<Rightarrow> True | Some k \<Rightarrow> k \<le> fst e) (list_entries dup s)),
      lm_before = (\<lambda>s k. let es = filter (\<lambda>e. fst e \<le> k) (list_entries dup s)
                         in if es = [] then None else Some (last es)),
      lm_get = (\<lambda>s k. case map snd (filter (\<lambda>e. fst e = k) (list_entries dup s)) of
                  [] \<Rightarrow> None | v # _ \<Rightarrow> Some v),
      lm_values = (\<lambda>s k. map snd (filter (\<lambda>e. fst e = k) (list_entries dup s))),
      lm_put = (\<lambda>k v s. (k, v) # s),
      lm_remove = (\<lambda>k s. (k \<in> fst ` set s, filter (\<lambda>e. fst e \<noteq> k) s)),
      lm_removeVal = (\<lambda>k v s. ((k, v) \<in> set s, filter (\<lambda>e. e \<noteq> (k, v)) s))\<rparr>"

lemma list_entries_set:
  "set (list_entries True s) = set s"
  "set (list_entries False s) = set (AList.clearjunk s)"
  by (simp_all add: list_entries_def)

lemma list_entries_sorted: "sorted_wrt (<) (list_entries dup s)"
proof -
  have "distinct (AList.clearjunk s)"
    using distinct_clearjunk [of s] by (auto simp: distinct_map)
  then show ?thesis
    by (auto simp: list_entries_def strict_sorted_iff)
qed

lemma clearjunk_mem: "(k, v) \<in> set (AList.clearjunk s) \<longleftrightarrow> map_of s k = Some v"
  by (metis map_of_clearjunk map_of_eq_Some_iff distinct_clearjunk)

lemma list_lmdb_entries: "entries (list_lmdb dup) s = list_entries dup s"
  by (simp add: entries_def list_lmdb_def)

lemma list_lmdb_ops:
  "lm_put (list_lmdb dup) k v s = (k, v) # s"
  "lm_remove (list_lmdb dup) k s = (k \<in> fst ` set s, filter (\<lambda>e. fst e \<noteq> k) s)"
  "lm_removeVal (list_lmdb dup) k v s = ((k, v) \<in> set s, filter (\<lambda>e. e \<noteq> (k, v)) s)"
  by (simp_all add: list_lmdb_def)

lemma list_lmdb_table: "lmdb_table (list_lmdb dup) dup"
proof
  fix s k v w
  show "sorted_wrt (<) (entries (list_lmdb dup) s)"
    by (simp add: list_lmdb_entries list_entries_sorted)
  show "lm_range (list_lmdb dup) s (Some k) = filter (\<lambda>e. k \<le> fst e) (entries (list_lmdb dup) s)"
    by (simp add: list_lmdb_entries) (simp add: list_lmdb_def)
  show "lm_before (list_lmdb dup) s k =
      (let es = filter (\<lambda>e. fst e \<le> k) (entries (list_lmdb dup) s) in if es = [] then None else Some (last es))"
    by (simp add: list_lmdb_entries) (simp add: list_lmdb_def)
  show "lm_values (list_lmdb dup) s k = map snd (filter (\<lambda>e. fst e = k) (entries (list_lmdb dup) s))"
    by (simp add: list_lmdb_entries) (simp add: list_lmdb_def)
  show "lm_get (list_lmdb dup) s k =
      (case lm_values (list_lmdb dup) s k of [] \<Rightarrow> None | v # _ \<Rightarrow> Some v)"
    by (simp add: list_lmdb_def)
  show "\<not> dup \<Longrightarrow> (k, v) \<in> set (entries (list_lmdb dup) s) \<Longrightarrow>
      (k, w) \<in> set (entries (list_lmdb dup) s) \<Longrightarrow> v = w"
    by (simp add: list_lmdb_entries list_entries_set clearjunk_mem)
  show "set (entries (list_lmdb dup) (lm_put (list_lmdb dup) k v s)) =
      insert (k, v) {e \<in> set (entries (list_lmdb dup) s). dup \<or> fst e \<noteq> k}"
    by (cases dup) (auto simp: list_lmdb_entries list_entries_set clearjunk_mem list_lmdb_ops delete_conv'
        split: if_splits)
  have mem: "k \<in> fst ` set (AList.clearjunk s) \<longleftrightarrow> k \<in> fst ` set s"
    by (metis dom_clearjunk)
  show "fst (lm_remove (list_lmdb dup) k s) \<longleftrightarrow> k \<in> fst ` set (entries (list_lmdb dup) s)"
    using mem by (cases dup) (simp_all add: list_lmdb_entries list_entries_set list_lmdb_ops)
  have del: "map_of (filter (\<lambda>e. fst e \<noteq> k) s) = (map_of s)(k := None)"
    by (induction s) auto
  show "set (entries (list_lmdb dup) (snd (lm_remove (list_lmdb dup) k s))) =
      {e \<in> set (entries (list_lmdb dup) s). fst e \<noteq> k}"
    using del by (cases dup) (auto simp: list_lmdb_entries list_entries_set clearjunk_mem list_lmdb_ops split: if_splits)
  show "dup \<Longrightarrow> set (entries (list_lmdb dup) (snd (lm_removeVal (list_lmdb dup) k v s))) =
      set (entries (list_lmdb dup) s) - {(k, v)}"
    by (auto simp: list_lmdb_entries list_entries_set list_lmdb_ops)
  show "dup \<Longrightarrow> fst (lm_removeVal (list_lmdb dup) k v s) \<longleftrightarrow> (k, v) \<in> set (entries (list_lmdb dup) s)"
    by (auto simp: list_lmdb_entries list_entries_set list_lmdb_ops)
qed

interpretation plain_table: lmdb_table "list_lmdb False" False
  by (rule list_lmdb_table)

interpretation dup_table: lmdb_table "list_lmdb True" True
  by (rule list_lmdb_table)

end
