(* ===== verification/LmdbIoDup.thy ===== *)
theory LmdbIoDup
  imports LmdbLaws
begin

text \<open>
  Insertion-ordered duplicates per ordinal implement the ordinal logs of the key event logic.
  The relation \<open>onio_rel\<close> ties a table to one log per top, \<open>b\<close> bounding the hidden
  ordinals used so far; every operation of the access layer keeps it and returns what the
  operation on the log returns.
\<close>

section \<open>Proems\<close>

lemma proem_text: "withIoDupProem i w = to32CharHex i @ CHR ''.'' # w"
  by (simp add: withIoDupProem_def iDupProem_def to32CharHex_def)

lemma strip_proem [simp]: "i < 16 ^ 32 \<Longrightarrow> stripIoDupProem (withIoDupProem i w) = w"
  by (simp add: proem_text stripIoDupProem_def)

lemma parse_proem [simp]: "i < 2 ^ 53 \<Longrightarrow> parseIoDupOrdinal (withIoDupProem i w) = i"
  by (simp add: proem_text parseIoDupOrdinal_def)

lemma append_less_same_length:
  "length xs = length ys \<Longrightarrow> xs < ys \<Longrightarrow> xs @ us < ys @ (vs :: 'a::linorder list)"
  by (induction xs ys rule: list_induct2) auto

lemma proem_less: "i < j \<Longrightarrow> j < 16 ^ 32 \<Longrightarrow> withIoDupProem i v < withIoDupProem j w"
  unfolding proem_text by (rule append_less_same_length) (simp_all add: to32CharHex_less)

text \<open>Stored duplicates: proems below \<open>b\<close>, no value twice.\<close>

definition iodups :: "nat \<Rightarrow> string list \<Rightarrow> bool" where
  "iodups b ps \<longleftrightarrow> (\<forall>p \<in> set ps. \<exists>i < b. \<exists>w. p = withIoDupProem i w) \<and> distinct (map stripIoDupProem ps)"

lemma iodups_mono: "iodups b ps \<Longrightarrow> b \<le> c \<Longrightarrow> iodups c ps"
  unfolding iodups_def by (meson order.strict_trans2)

lemma iodups_Nil [simp]: "iodups b []"
  by (simp add: iodups_def)

lemma iodups_snoc:
  assumes "iodups i ps" and "w \<notin> set (map stripIoDupProem ps)" and "i < 2 ^ 53"
  shows "iodups (Suc i) (ps @ [withIoDupProem i w])"
  using assms by (fastforce simp: iodups_def less_Suc_eq)

lemma iodups_filter: "iodups b ps \<Longrightarrow> iodups b (filter P ps)"
  by (auto simp: iodups_def distinct_map_filter)

lemma sorted_le_last:
  fixes p :: "'a::linorder"
  shows "sorted_wrt (<) ps \<Longrightarrow> p \<in> set ps \<Longrightarrow> p \<le> last ps"
  by (induction ps) (auto intro: order.strict_implies_order)

lemma next_idx_bound:
  assumes "iodups b ps" and "sorted_wrt (<) ps" and "b < 2 ^ 53"
  defines "j \<equiv> next_idx (if ps = [] then None else Some (last ps))"
  shows "iodups j ps" and "j \<le> b"
proof -
  have "iodups j ps \<and> j \<le> b"
  proof (cases "ps = []")
    case False
    from False assms(1) obtain i w where i: "last ps = withIoDupProem i w" "i < b"
      unfolding iodups_def by (meson last_in_set)
    then have j: "j = Suc i" using False assms(3) by (simp add: j_def next_idx_def)
    have "\<exists>k < j. \<exists>u. p = withIoDupProem k u" if p: "p \<in> set ps" for p
    proof -
      obtain k u where k: "p = withIoDupProem k u" "k < b"
        using assms(1) p unfolding iodups_def by blast
      have "p \<le> last ps"
        using sorted_le_last [OF assms(2) p] .
      then have "\<not> i < k" using proem_less [of i k w u] k i assms(3) by auto
      then have "k < j" using j by simp
      then show ?thesis using k(1) by blast
    qed
    then show ?thesis using assms(1) i(2) j by (auto simp: iodups_def)
  qed (simp add: j_def next_idx_def)
  then show "iodups j ps" and "j \<le> b" by simp_all
qed

section \<open>One bucket\<close>

context lmdb_table
begin

lemma put_dup_values:
  assumes dup and "k \<noteq> []" and "\<forall>p \<in> set (lm_values L s k). p < v"
  shows "lm_values L (lm_put L k v s) k' = lm_values L s k' @ (if k' = k then [v] else [])"
proof (cases "k' = k")
  case True
  have "set (lm_values L (lm_put L k v s) k) = insert v (set (lm_values L s k))"
    using assms(1,2) by (auto simp: values_set put)
  from sorted_snoc_max [OF values_sorted values_sorted this assms(3)] True show ?thesis by simp
next
  case False
  then have "lm_values L (lm_put L k v s) k' = lm_values L s k'"
    using assms(1,2) by (intro values_eqI) (auto simp: put)
  with False show ?thesis by simp
qed

lemma put_iodups_spec:
  assumes dup and "k \<noteq> []"
  shows "iodups i (lm_values L s k) \<Longrightarrow> i + length vs < 2 ^ 53 \<Longrightarrow>
    X = set (map stripIoDupProem (lm_values L s k)) \<Longrightarrow> s' = snd (put_iodups L k X i vs s) \<Longrightarrow>
    map stripIoDupProem (lm_values L s' k) = io_put vs (map stripIoDupProem (lm_values L s k))
    \<and> iodups (i + length vs) (lm_values L s' k) \<and> (\<forall>k'. k' \<noteq> k \<longrightarrow> lm_values L s' k' = lm_values L s k')"
proof (induction vs arbitrary: X i s)
  case Nil
  then show ?case by (simp add: io_put_def)
next
  case (Cons v vs)
  let ?vals = "lm_values L s k"
  show ?case
  proof (cases "v \<in> X")
    case True
    then have "s' = snd (put_iodups L k X i vs s)" using Cons.prems(4) by simp
    then have ih: "map stripIoDupProem (lm_values L s' k) = io_put vs (map stripIoDupProem ?vals)
        \<and> iodups (i + length vs) (lm_values L s' k)
        \<and> (\<forall>k'. k' \<noteq> k \<longrightarrow> lm_values L s' k' = lm_values L s k')"
      using Cons.IH [OF Cons.prems(1) _ Cons.prems(3)] Cons.prems(2) by simp
    moreover have "iodups (i + length (v # vs)) (lm_values L s' k)"
      using ih by (auto intro: iodups_mono)
    moreover have "io_put (v # vs) (map stripIoDupProem ?vals) = io_put vs (map stripIoDupProem ?vals)"
      using True Cons.prems(3) by (simp add: io_put_def io_add_def)
    ultimately show ?thesis by simp
  next
    case False
    let ?p = "withIoDupProem i v" and ?s = "lm_put L k (withIoDupProem i v) s"
    have "p < ?p" if p: "p \<in> set ?vals" for p
    proof -
      obtain j u where "p = withIoDupProem j u" "j < i"
        using Cons.prems(1) p unfolding iodups_def by blast
      then show ?thesis using Cons.prems(2) by (simp add: proem_less)
    qed
    then have new: "lm_values L ?s k' = lm_values L s k' @ (if k' = k then [?p] else [])" for k'
      by (intro put_dup_values assms ballI)
    have strip: "map stripIoDupProem (lm_values L ?s k) = map stripIoDupProem ?vals @ [v]"
      using Cons.prems(2) by (simp add: new)
    have "iodups (Suc i) (lm_values L ?s k)"
      using iodups_snoc [OF Cons.prems(1), of v] Cons.prems(2,3) False by (simp add: new)
    moreover have "Suc i + length vs < 2 ^ 53" using Cons.prems(2) by simp
    moreover have "insert v X = set (map stripIoDupProem (lm_values L ?s k))"
      unfolding strip Cons.prems(3) by simp
    moreover have "s' = snd (put_iodups L k (insert v X) (Suc i) vs ?s)"
      using Cons.prems(2,4) False by simp
    ultimately have "map stripIoDupProem (lm_values L s' k) = io_put vs (map stripIoDupProem ?vals @ [v])
        \<and> iodups (Suc i + length vs) (lm_values L s' k)
        \<and> (\<forall>k'. k' \<noteq> k \<longrightarrow> lm_values L s' k' = lm_values L ?s k')"
      unfolding strip [symmetric] by (rule Cons.IH)
    moreover have "io_put (v # vs) (map stripIoDupProem ?vals) = io_put vs (map stripIoDupProem ?vals @ [v])"
      using False Cons.prems(3) by (simp add: io_put_def io_add_def)
    ultimately show ?thesis by (simp add: new)
  qed
qed

lemma putIoDupVals_spec:
  assumes dup and "k \<noteq> []" and "iodups b (lm_values L s k)" and "b + length vs < 2 ^ 53"
    and s': "s' = snd (putIoDupVals L k vs s)"
  shows "getIoDupVals L k s' = io_put vs (getIoDupVals L k s)"
    and "iodups (b + length vs) (lm_values L s' k)"
    and "k' \<noteq> k \<Longrightarrow> lm_values L s' k' = lm_values L s k'"
proof -
  let ?j = "next_idx (getValLast L k s)"
  have j: "iodups ?j (lm_values L s k)" "?j \<le> b"
    using next_idx_bound [OF assms(3) values_sorted] assms(4)
    by (simp_all add: getValLast_def getVals_def Let_def)
  then have "?j + length vs < 2 ^ 53" using assms(4) by simp
  note spec = put_iodups_spec [OF assms(1,2) j(1) this refl s' [unfolded putIoDupVals_def getIoDupVals_def getVals_def]]
  show "getIoDupVals L k s' = io_put vs (getIoDupVals L k s)"
    using spec by (simp add: getIoDupVals_def getVals_def)
  show "iodups (b + length vs) (lm_values L s' k)"
    using spec j(2) by (auto intro: iodups_mono)
  show "k' \<noteq> k \<Longrightarrow> lm_values L s' k' = lm_values L s k'" using spec by simp
qed

lemma remove_values: "lm_values L (snd (lm_remove L k s)) k' = (if k' = k then [] else lm_values L s k')"
proof (cases "k' = k")
  case True
  have "set (lm_values L (snd (lm_remove L k s)) k) = {}" by (simp add: values_set remove)
  with True show ?thesis by simp
next
  case False
  then show ?thesis by (auto intro!: values_eqI simp: remove)
qed

lemma removeVal_values:
  assumes dup
  shows "lm_values L (snd (lm_removeVal L k v s)) k' =
    (if k' = k then filter (\<lambda>p. p \<noteq> v) (lm_values L s k) else lm_values L s k')"
proof (cases "k' = k")
  case True
  have "lm_values L (snd (lm_removeVal L k v s)) k = filter (\<lambda>p. p \<noteq> v) (lm_values L s k)"
    by (rule strict_sorted_equal [OF sorted_wrt_filter [OF values_sorted] values_sorted])
      (auto simp: values_set removeVal [OF assms])
  with True show ?thesis by simp
next
  case False
  then show ?thesis by (auto intro!: values_eqI simp: removeVal [OF assms])
qed

lemma del_iodup_found:
  "del_iodup L k v ps s = (case filter (\<lambda>p. stripIoDupProem p = v) ps of
     [] \<Rightarrow> (False, s) | p # _ \<Rightarrow> lm_removeVal L k p s)"
  by (induction ps) auto

lemma delIoDupVal_spec:
  assumes dup and "iodups b (lm_values L s k)" and s': "s' = snd (delIoDupVal L k v s)"
  shows "getIoDupVals L k s' = filter (\<lambda>w. w \<noteq> v) (getIoDupVals L k s)"
    and "iodups b (lm_values L s' k)"
    and "k' \<noteq> k \<Longrightarrow> lm_values L s' k' = lm_values L s k'"
    and "fst (delIoDupVal L k v s) \<longleftrightarrow> v \<in> set (getIoDupVals L k s)"
proof -
  let ?ps = "lm_values L s k"
  have "(getIoDupVals L k s' = filter (\<lambda>w. w \<noteq> v) (getIoDupVals L k s) \<and> iodups b (lm_values L s' k)
      \<and> (k' \<noteq> k \<longrightarrow> lm_values L s' k' = lm_values L s k')
      \<and> (fst (delIoDupVal L k v s) \<longleftrightarrow> v \<in> set (getIoDupVals L k s)))" for k'
  proof (cases "filter (\<lambda>p. stripIoDupProem p = v) ?ps")
    case Nil
    then have "v \<notin> set (map stripIoDupProem ?ps)" by (auto simp: filter_empty_conv)
    moreover have "delIoDupVal L k v s = (False, s)"
      using Nil by (simp add: delIoDupVal_def del_iodup_found getVals_def)
    moreover have "filter (\<lambda>w. w \<noteq> v) (map stripIoDupProem ?ps) = map stripIoDupProem ?ps"
      using calculation(1) by (intro filter_True) auto
    ultimately show ?thesis using assms by (simp add: getIoDupVals_def getVals_def)
  next
    case (Cons p rest)
    then have p: "p \<in> set ?ps" "stripIoDupProem p = v" by (auto dest!: arg_cong [of _ _ set])
    have d: "delIoDupVal L k v s = lm_removeVal L k p s"
      using Cons by (simp add: delIoDupVal_def del_iodup_found getVals_def)
    have "stripIoDupProem q = v \<longleftrightarrow> q = p" if "q \<in> set ?ps" for q
      using assms(2) p that unfolding iodups_def distinct_map by (auto dest: inj_onD)
    then have "filter (\<lambda>q. q \<noteq> p) ?ps = filter (\<lambda>q. stripIoDupProem q \<noteq> v) ?ps"
      by (intro filter_cong) auto
    moreover have "fst (delIoDupVal L k v s)"
      using p(1) unfolding d by (simp add: removedVal [OF assms(1)] values_set)
    ultimately show ?thesis
      using p iodups_filter [OF assms(2)]
      by (auto simp: s' d getIoDupVals_def getVals_def removeVal_values [OF assms(1)] filter_map comp_def)
  qed
  then show "getIoDupVals L k s' = filter (\<lambda>w. w \<noteq> v) (getIoDupVals L k s)"
    and "iodups b (lm_values L s' k)" and "k' \<noteq> k \<Longrightarrow> lm_values L s' k' = lm_values L s k'"
    and "fst (delIoDupVal L k v s) \<longleftrightarrow> v \<in> set (getIoDupVals L k s)"
    by blast+
qed

end

end
