(* ===== verification/LmdbLog.thy ===== *)
theory LmdbLog
  imports LmdbIoDup
begin

text \<open>
  The refinement of the ordinal logs of \<open>Baser\<close> by the duplicates per ordinal of the access
  layer: one relation, kept by every writing operation, under which the reading operations
  return what the log returns.
\<close>

section \<open>Logs\<close>

lemma on_get_rem:
  "log_ok lg \<Longrightarrow> on_get k (on_rem n v lg) = (if k = n then filter (\<lambda>w. w \<noteq> v) (on_get n lg) else on_get k lg)"
proof (induction n v lg rule: on_rem.induct)
  case (2 n v m vs lg)
  have "on_get j lg = []" if "j \<le> m" for j using 2(2) that by (intro on_get_below) auto
  with 2 show ?case by (auto simp: Let_def on_get_below)
qed simp

definition log_from :: "nat \<Rightarrow> ordinal_log \<Rightarrow> ordinal_log" where
  "log_from on lg = filter (\<lambda>b. on \<le> fst b) lg"

lemma log_from_zero [simp]: "log_from 0 lg = lg"
  by (simp add: log_from_def)

lemma log_from_ok: "log_ok lg \<Longrightarrow> log_ok (log_from on lg)"
  by (induction lg) (auto simp: log_from_def)

section \<open>The relation\<close>

definition onio_rel ::
  "'s lmdb \<Rightarrow> string set \<Rightarrow> nat \<Rightarrow> 's \<Rightarrow> (string \<Rightarrow> ordinal_log) \<Rightarrow> bool" where
  "onio_rel L T b s logs \<longleftrightarrow> keyed L T (2 ^ 53) s
     \<and> (\<forall>t \<in> T. log_ok (logs t) \<and> (\<forall>e \<in> set (logs t). fst e < 2 ^ 53)
          \<and> (\<forall>n < 2 ^ 53. iodups b (lm_values L s (onKey t n ''.''))
               \<and> getIoDupVals L (onKey t n ''.'') s = on_get n (logs t)))"

lemma onio_relD:
  assumes "onio_rel L T b s logs"
  shows "keyed L T (2 ^ 53) s" and "tops_free T"
    and "t \<in> T \<Longrightarrow> log_ok (logs t)"
    and "t \<in> T \<Longrightarrow> e \<in> set (logs t) \<Longrightarrow> fst e < 2 ^ 53"
    and "t \<in> T \<Longrightarrow> n < 2 ^ 53 \<Longrightarrow> iodups b (lm_values L s (onKey t n ''.''))"
    and "t \<in> T \<Longrightarrow> n < 2 ^ 53 \<Longrightarrow> getIoDupVals L (onKey t n ''.'') s = on_get n (logs t)"
  using assms by (auto simp: onio_rel_def keyed_def)

lemma onKey_inj:
  assumes "tops_free T" and "t \<in> T" and "t' \<in> T" and "m < 2 ^ 53" and "n < 2 ^ 53"
  shows "onKey t m ''.'' = onKey t' n ''.'' \<longleftrightarrow> t = t' \<and> m = n"
  using onkey_injective [of t m n t'] assms by (auto simp: tops_free_def)

context lmdb_table
begin

text \<open>A write to one bucket of one top carries the relation to the log of that top.\<close>

lemma onio_rel_write:
  assumes r: "onio_rel L T b s logs" and tn: "t \<in> T" "n < 2 ^ 53" and bc: "b \<le> c"
    and same: "\<And>k. k \<noteq> onKey t n ''.'' \<Longrightarrow> lm_values L s' k = lm_values L s k"
    and io: "iodups c (lm_values L s' (onKey t n ''.''))"
    and lg: "log_ok lg" "\<forall>e \<in> set lg. fst e < 2 ^ 53" "\<And>m. m \<noteq> n \<Longrightarrow> on_get m lg = on_get m (logs t)"
    and val: "getIoDupVals L (onKey t n ''.'') s' = on_get n lg"
  shows "onio_rel L T c s' (logs(t := lg))"
proof -
  note d = onio_relD [OF r]
  have "\<exists>t \<in> T. \<exists>n < 2 ^ 53. fst e = onKey t n ''.''" if e: "e \<in> set (entries L s')" for e
  proof (cases "fst e = onKey t n ''.''")
    case False
    have "snd e \<in> set (lm_values L s' (fst e))" using e by (simp add: values_set)
    then have "e \<in> set (entries L s)" using same [OF False] by (simp add: values_set)
    then show ?thesis using d(1) by (auto simp: keyed_def)
  qed (use tn in blast)
  then have "keyed L T (2 ^ 53) s'" using d(1) by (simp add: keyed_def)
  moreover have "iodups c (lm_values L s' (onKey t' m ''.''))
      \<and> getIoDupVals L (onKey t' m ''.'') s' = on_get m ((logs(t := lg)) t')"
    if t': "t' \<in> T" "m < 2 ^ 53" for t' m
  proof (cases "t' = t \<and> m = n")
    case True
    then show ?thesis using io val by simp
  next
    case False
    then have "onKey t' m ''.'' \<noteq> onKey t n ''.''" using onKey_inj [OF d(2) t'(1) tn(1) t'(2) tn(2)] by simp
    then have "lm_values L s' (onKey t' m ''.'') = lm_values L s (onKey t' m ''.'')" by (rule same)
    then show ?thesis
      using d(5,6) [OF t'] bc lg(3) False
      by (auto simp: getIoDupVals_def getVals_def intro: iodups_mono)
  qed
  ultimately show ?thesis using d(3,4) lg(1,2) by (auto simp: onio_rel_def)
qed

lemma onio_rel_add:
  assumes dup and "onio_rel L T b s logs" and "t \<in> T" and "n < 2 ^ 53" and "Suc b < 2 ^ 53"
  shows "onio_rel L T (Suc b) (snd (addOnIoDupVal L t n (Some v) ''.'' s)) (logs(t := on_add n v (logs t)))"
proof -
  note d = onio_relD [OF assms(2)]
  have "onKey t n ''.'' \<noteq> []" by (simp add: onKey_def)
  note p = putIoDupVals_spec [OF assms(1) this d(5) [OF assms(3,4)] _ refl, of "[v]"]
  have s': "snd (addOnIoDupVal L t n (Some v) ''.'' s) = snd (putIoDupVals L (onKey t n ''.'') [v] s)"
    by (simp add: addOnIoDupVal_def addIoDupVal_def single_val_def)
  have "\<forall>e \<in> set (on_add n v (logs t)). fst e < 2 ^ 53"
    using on_add_fst [of n v "logs t"] d(4) [OF assms(3)] assms(4) by (auto dest!: equalityD1 intro: imageI)
  then show ?thesis
    unfolding s' using p assms(5) d(3) [OF assms(3)] d(6) [OF assms(3,4)]
    by (intro onio_rel_write [OF assms(2-4)])
      (auto simp: on_add_ok on_get_add io_put_def)
qed

lemma onio_rel_del:
  assumes dup and "onio_rel L T b s logs" and "t \<in> T" and "n < 2 ^ 53"
  shows "onio_rel L T b (snd (delOnIoDupVal L t n v ''.'' s)) (logs(t := on_rem n v (logs t)))"
proof -
  note d = onio_relD [OF assms(2)]
  note p = delIoDupVal_spec [OF assms(1) d(5) [OF assms(3,4)] refl, where v = v]
  have "\<forall>e \<in> set (on_rem n v (logs t)). fst e < 2 ^ 53"
    using on_rem_fst [of n v "logs t"] d(4) [OF assms(3)] by (force simp: image_subset_iff)
  then show ?thesis
    unfolding delOnIoDupVal_def using p d(3) [OF assms(3)] d(6) [OF assms(3,4)]
    by (intro onio_rel_write [OF assms(2-4)]) (auto simp: on_rem_ok on_get_rem)
qed

lemma onio_last:
  assumes "onio_rel L T b s logs" and "t \<in> T" and "n < 2 ^ 53"
  shows "getOnIoDupLast L t n ''.'' s = on_last (int n) (logs t)"
proof -
  have v: "map stripIoDupProem (lm_values L s (onKey t n ''.'')) = on_get n (logs t)"
    using onio_relD(6) [OF assms] by (simp add: getIoDupVals_def getVals_def)
  show ?thesis
    using v [symmetric]
    by (auto simp: getOnIoDupLast_def getIoDupValLast_def getValLast_def getVals_def Let_def
        on_last_def last_map split: list.splits)
qed

text \<open>The stored block of a top is its log, bucket by bucket.\<close>

definition stored_buckets :: "string \<Rightarrow> 's \<Rightarrow> ordinal_log \<Rightarrow> (nat \<times> string list) list" where
  "stored_buckets t s lg = map (\<lambda>b. (fst b, lm_values L s (onKey t (fst b) ''.''))) lg"

definition bucket_entries :: "string \<Rightarrow> (nat \<times> string list) list \<Rightarrow> (string \<times> string) list" where
  "bucket_entries t bs = concat (map (\<lambda>b. map (Pair (onKey t (fst b) ''.'')) (snd b)) bs)"

lemma bucket_entries_sorted:
  assumes "sorted_wrt (<) (map fst bs)" and "\<forall>b \<in> set bs. fst b < 2 ^ 53 \<and> sorted_wrt (<) (snd b)"
  shows "sorted_wrt (<) (bucket_entries t bs)"
  using assms
proof (induction bs)
  case (Cons b bs)
  have "sorted_wrt (<) (map (Pair (onKey t (fst b) ''.'')) (snd b))"
    using Cons.prems(2) by (simp add: sorted_wrt_map)
  moreover have "x < y" if x: "x \<in> set (map (Pair (onKey t (fst b) ''.'')) (snd b))"
    and y: "y \<in> set (bucket_entries t bs)" for x y
  proof -
    from y obtain c where c: "c \<in> set bs" "fst y = onKey t (fst c) ''.''"
      by (auto simp: bucket_entries_def)
    have "fst b < fst c" using Cons.prems(1) c(1) by simp
    then have "fst x < fst y" using x c Cons.prems(2) by (auto simp: onKey_less)
    then show ?thesis by (simp add: less_prod_def)
  qed
  ultimately show ?case using Cons by (auto simp: bucket_entries_def sorted_wrt_append)
qed (simp add: bucket_entries_def)

lemma block_buckets:
  assumes r: "onio_rel L T b s logs" and t: "t \<in> T" and on: "on < 2 ^ 53"
  shows "block L t on s = bucket_entries t (stored_buckets t s (log_from on (logs t)))"
proof (rule strict_sorted_equal [OF _ block_sorted])
  note d = onio_relD [OF r]
  let ?lg = "log_from on (logs t)"
  have ok: "log_ok ?lg" using d(3) [OF t] by (rule log_from_ok)
  have bound: "\<forall>e \<in> set ?lg. fst e < 2 ^ 53" using d(4) [OF t] by (auto simp: log_from_def)
  show "sorted_wrt (<) (bucket_entries t (stored_buckets t s ?lg))"
    using ok bound values_sorted
    by (intro bucket_entries_sorted) (auto simp: stored_buckets_def log_ok_def comp_def)
  have "e \<in> set (block L t on s) \<longleftrightarrow>
      (\<exists>c \<in> set ?lg. fst e = onKey t (fst c) ''.'' \<and> snd e \<in> set (lm_values L s (fst e)))" for e
  proof
    assume "e \<in> set (block L t on s)"
    then obtain n where n: "e \<in> set (entries L s)" "n < 2 ^ 53" "on \<le> n" "fst e = onKey t n ''.''"
      unfolding block_member [OF d(1) t on] by blast
    have m: "snd e \<in> set (lm_values L s (fst e))" using n(1) by (simp add: values_set)
    then have "on_get n (logs t) \<noteq> []"
      using d(6) [OF t n(2)] n(4) by (auto simp: getIoDupVals_def getVals_def)
    then have "(n, on_get n (logs t)) \<in> set ?lg" using on_get_in n(3) by (simp add: log_from_def)
    then show "\<exists>c \<in> set ?lg. fst e = onKey t (fst c) ''.'' \<and> snd e \<in> set (lm_values L s (fst e))"
      using m n(4) by force
  next
    assume "\<exists>c \<in> set ?lg. fst e = onKey t (fst c) ''.'' \<and> snd e \<in> set (lm_values L s (fst e))"
    then obtain c where c: "c \<in> set ?lg" "fst e = onKey t (fst c) ''.''" "e \<in> set (entries L s)"
      by (auto simp: values_set)
    have "fst c < 2 ^ 53" "on \<le> fst c" using bspec [OF bound c(1)] c(1) by (simp_all add: log_from_def)
    then show "e \<in> set (block L t on s)" unfolding block_member [OF d(1) t on] using c(2,3) by blast
  qed
  moreover have "e \<in> set (bucket_entries t (stored_buckets t s ?lg)) \<longleftrightarrow>
      (\<exists>c \<in> set ?lg. fst e = onKey t (fst c) ''.'' \<and> snd e \<in> set (lm_values L s (fst e)))" for e
    by (cases e) (auto simp: bucket_entries_def stored_buckets_def)
  ultimately show "set (block L t on s) = set (bucket_entries t (stored_buckets t s ?lg))"
    by blast
qed

text \<open>What the scans of a block return.\<close>

lemma split_onKey:
  "t \<noteq> [] \<Longrightarrow> n < 2 ^ 53 \<Longrightarrow> splitKeyON (onKey t n ''.'') ''.'' = Inr (t, Some n)"
  by simp

lemma scan_buckets:
  assumes "t \<noteq> []" and "\<forall>b \<in> set bs. fst b < 2 ^ 53"
    and rest: "\<And>e. e \<in> set rest \<Longrightarrow> \<exists>t' n. t' \<noteq> t \<and> t' \<noteq> [] \<and> n < (2 ^ 53 :: nat) \<and> fst e = onKey t' n ''.''"
  shows "scan (\<lambda>(ckey, cval). bind_res (splitKeyON ckey ''.'') (\<lambda>(pre, cn).
        Inr (if t \<noteq> [] \<and> pre \<noteq> t then None else Some (pre, cn, cval)))) (bucket_entries t bs @ rest)
    = Inr (concat (map (\<lambda>b. map (\<lambda>v. (t, Some (fst b), v)) (snd b)) bs))"
    (is "scan ?f _ = _")
proof -
  let ?g = "\<lambda>e. case splitKeyON (fst e) ''.'' of Inr (p, c) \<Rightarrow> (p, c, snd e) | Inl _ \<Rightarrow> ([], None, [])"
  have "?f e = Inr (Some (?g e))" if "e \<in> set (bucket_entries t bs)" for e
    using that assms(1,2) by (auto simp: bucket_entries_def bind_res_def)
  moreover have "rest = [] \<or> ?f (hd rest) = Inr None"
  proof (cases rest)
    case (Cons e es)
    then obtain t' n where "t' \<noteq> t" "t' \<noteq> []" "fst e = onKey t' n ''.''" using rest [of e] by auto
    then show ?thesis using Cons assms(1) by (cases e) (simp add: bind_res_def)
  qed simp
  ultimately have "scan ?f (bucket_entries t bs @ rest) = Inr (map ?g (bucket_entries t bs))"
    by (rule scan_prefix)
  also have "map ?g (bucket_entries t bs) = concat (map (\<lambda>b. map (\<lambda>v. (t, Some (fst b), v)) (snd b)) bs)"
    using assms(1,2) by (auto simp: bucket_entries_def map_concat comp_def intro!: arg_cong [of _ _ concat])
  finally show ?thesis .
qed

lemma last_bucket:
  assumes "t \<noteq> []" and "n < 2 ^ 53"
  shows "last_iodups t ''.'' (Some (onKey t n ''.'', t, Some n, v)) (map (Pair (onKey t n ''.'')) vs @ rest)
    = last_iodups t ''.'' (Some (onKey t n ''.'', t, Some n, last (v # vs))) rest"
  using assms by (induction vs arbitrary: v) (simp_all add: bind_res_def)

lemma last_buckets:
  assumes "t \<noteq> []" and "\<forall>b \<in> set bs. fst b < 2 ^ 53 \<and> snd b \<noteq> []" and "sorted_wrt (<) (map fst bs)"
    and cur: "cur = None \<or> (\<exists>n v. cur = Some (onKey t n ''.'', t, Some n, v) \<and> n < 2 ^ 53 \<and> (\<forall>b \<in> set bs. n < fst b))"
    and rest: "\<And>e. e \<in> set rest \<Longrightarrow> \<exists>t' n. t' \<noteq> t \<and> t' \<noteq> [] \<and> n < (2 ^ 53 :: nat) \<and> fst e = onKey t' n ''.''"
  shows "last_iodups t ''.'' cur (bucket_entries t bs @ rest)
    = Inr (cursor_item cur @ map (\<lambda>b. (t, Some (fst b), stripIoDupProem (last (snd b)))) bs)"
  using assms(2-4)
proof (induction bs arbitrary: cur)
  case Nil
  show ?case
  proof (cases rest)
    case (Cons e es)
    then obtain t' n where "t' \<noteq> t" "t' \<noteq> []" "fst e = onKey t' n ''.''" using rest [of e] by auto
    then show ?thesis using Cons assms(1) by (cases e) (simp add: bucket_entries_def bind_res_def)
  qed (simp add: bucket_entries_def)
next
  case (Cons b bs)
  obtain v vs where v: "snd b = v # vs" using Cons.prems(1) by (cases "snd b") auto
  define w where "w = last (v # vs)"
  have w: "last (snd b) = w" by (simp add: v w_def)
  let ?k = "onKey t (fst b) ''.''" and ?cur = "Some (onKey t (fst b) ''.'', t, Some (fst b), w)"
  have b: "fst b < 2 ^ 53" using Cons.prems(1) by simp
  have ih: "last_iodups t ''.'' ?cur (bucket_entries t bs @ rest)
      = Inr (cursor_item ?cur @ map (\<lambda>b. (t, Some (fst b), stripIoDupProem (last (snd b)))) bs)"
    using Cons.prems b by (intro Cons.IH) auto
  have e: "bucket_entries t (b # bs) @ rest = (?k, v) # map (Pair ?k) vs @ bucket_entries t bs @ rest"
    by (simp add: bucket_entries_def v)
  have first: "last_iodups t ''.'' (Some (?k, t, Some (fst b), v)) (map (Pair ?k) vs @ bucket_entries t bs @ rest)
      = last_iodups t ''.'' ?cur (bucket_entries t bs @ rest)"
    unfolding w_def using assms(1) b by (rule last_bucket)
  from Cons.prems(3) show ?case
  proof (elim disjE exE conjE)
    assume "cur = None"
    then show ?thesis using assms(1) b
      unfolding e by (simp add: bind_res_def first ih cursor_item_def w)
  next
    fix n u assume n: "cur = Some (onKey t n ''.'', t, Some n, u)" "n < 2 ^ 53" "\<forall>b \<in> set (b # bs). n < fst b"
    then have "onKey t n ''.'' \<noteq> ?k" using onKey_less [of n "fst b" t "''.''"] b by fastforce
    then show ?thesis using assms(1) b n(1)
      unfolding e by (simp add: bind_res_def first ih cursor_item_def w)
  qed
qed

lemma onio_items:
  assumes r: "onio_rel L T b s logs" and t: "t \<in> T" and on: "on < 2 ^ 53"
  shows "getOnIoDupItemIterAll L t on ''.'' s
      = Inr (map (\<lambda>(n, v). (t, Some n, v)) (on_items (log_from on (logs t))))"
    and "getOnIoDupLastItemIter L t on ''.'' s
      = Inr (map (\<lambda>(n, v). (t, Some n, v)) (on_last_items (log_from on (logs t))))"
proof -
  note d = onio_relD [OF r]
  let ?lg = "log_from on (logs t)"
  let ?bs = "stored_buckets t s ?lg"
  have t0: "t \<noteq> []" using d(2) t by (auto simp: tops_free_def)
  obtain rest where rng: "lm_range L s (Some (onKey t on ''.'')) = bucket_entries t ?bs @ rest"
    and rest: "\<And>e. e \<in> set rest \<Longrightarrow> \<exists>t' n. t' \<noteq> t \<and> t' \<noteq> [] \<and> n < (2 ^ 53 :: nat) \<and> fst e = onKey t' n ''.''"
    using range_block [OF d(1) t, of on] block_buckets [OF r t on] by metis
  have ok: "log_ok ?lg" using d(3) [OF t] by (rule log_from_ok)
  have val: "map stripIoDupProem (lm_values L s (onKey t (fst c) ''.'')) = snd c" "fst c < 2 ^ 53" "snd c \<noteq> []"
    if "c \<in> set ?lg" for c
  proof -
    have c: "(fst c, snd c) \<in> set (logs t)" "fst c < 2 ^ 53" using that d(4) [OF t] by (auto simp: log_from_def)
    show "fst c < 2 ^ 53" by (rule c(2))
    show "map stripIoDupProem (lm_values L s (onKey t (fst c) ''.'')) = snd c"
      using d(6) [OF t c(2)] on_get_mem [OF d(3) [OF t] c(1)] by (simp add: getIoDupVals_def getVals_def)
    show "snd c \<noteq> []" using that ok by (auto simp: log_ok_def)
  qed
  have bs: "\<forall>c \<in> set ?bs. fst c < 2 ^ 53 \<and> snd c \<noteq> []" using val by (force simp: stored_buckets_def)
  have "getOnAllItemIter L t on ''.'' s = Inr (concat (map (\<lambda>b. map (\<lambda>v. (t, Some (fst b), v)) (snd b)) ?bs))"
    unfolding getOnAllItemIter_def on_start_def if_not_P [OF t0] rng
    using bs by (intro scan_buckets t0 rest) auto
  moreover have "concat (map (\<lambda>b. map (\<lambda>v. (t, Some (fst b), stripIoDupProem v)) (snd b)) ?bs)
      = map (\<lambda>(n, v). (t, Some n, v)) (on_items ?lg)"
  proof -
    have "map (\<lambda>v. (t, Some (fst c), stripIoDupProem v)) (lm_values L s (onKey t (fst c) ''.''))
        = map (\<lambda>v. (t, Some (fst c), v)) (snd c)" if "c \<in> set ?lg" for c
      unfolding val(1) [OF that, symmetric] by simp
    then show ?thesis
      by (auto simp: stored_buckets_def on_items_def map_concat comp_def split_def
          intro!: arg_cong [of _ _ concat])
  qed
  ultimately show "getOnIoDupItemIterAll L t on ''.'' s
      = Inr (map (\<lambda>(n, v). (t, Some n, v)) (on_items ?lg))"
    by (simp add: getOnIoDupItemIterAll_def strip_items_def bind_res_def map_concat comp_def)
  have "sorted_wrt (<) (map fst ?bs)" using ok by (simp add: stored_buckets_def log_ok_def comp_def)
  then have "getOnIoDupLastItemIter L t on ''.'' s
      = Inr (map (\<lambda>b. (t, Some (fst b), stripIoDupProem (last (snd b)))) ?bs)"
    unfolding getOnIoDupLastItemIter_def on_start_def if_not_P [OF t0] rng
    using last_buckets [OF t0 bs _ _ rest, of None] by (simp add: cursor_item_def)
  moreover have "stripIoDupProem (last (lm_values L s (onKey t (fst c) ''.''))) = last (snd c)"
    if "c \<in> set ?lg" for c
    using val [OF that] by (metis last_map list.map_disc_iff)
  ultimately show "getOnIoDupLastItemIter L t on ''.'' s
      = Inr (map (\<lambda>(n, v). (t, Some n, v)) (on_last_items ?lg))"
    by (simp add: stored_buckets_def on_last_items_def comp_def split_def)
qed

end

section \<open>The refinement\<close>

text \<open>C25: Duplicates per ordinal are ordinal logs. For any engine that keeps the promises of
  \<open>lmdb_table\<close>, a table related to one log per identifier stays related when a value is added
  to, or removed from, the bucket of an ordinal, and reading a bucket, its last value, all items
  in order, or the last item per ordinal, returns what the log holds.\<close>

theorem onio_dup_refines_log:
  assumes "lmdb_table L True" and "onio_rel L T b s logs" and "t \<in> T" and "n < 2 ^ 53"
    and "Suc b < 2 ^ 53"
  shows "onio_rel L T (Suc b) (snd (addOnIoDupVal L t n (Some v) ''.'' s)) (logs(t := on_add n v (logs t)))
    \<and> onio_rel L T b (snd (delOnIoDupVal L t n v ''.'' s)) (logs(t := on_rem n v (logs t)))
    \<and> getOnIoDupVals L t n ''.'' s = on_get n (logs t)
    \<and> getOnIoDupLast L t n ''.'' s = on_last (int n) (logs t)
    \<and> getOnIoDupItemIterAll L t 0 ''.'' s = Inr (map (\<lambda>(m, w). (t, Some m, w)) (on_items (logs t)))
    \<and> getOnIoDupLastItemIter L t 0 ''.'' s = Inr (map (\<lambda>(m, w). (t, Some m, w)) (on_last_items (logs t)))"
proof -
  have "t \<noteq> []" using onio_relD(2) [OF assms(2)] assms(3) by (auto simp: tops_free_def)
  then have "getOnIoDupVals L t n ''.'' s = on_get n (logs t)"
    using onio_relD(6) [OF assms(2-4)] by (simp add: getOnIoDupVals_def)
  then show ?thesis
    using lmdb_table.onio_rel_add [OF assms(1) TrueI assms(2-5)]
      lmdb_table.onio_rel_del [OF assms(1) TrueI assms(2-4)]
      lmdb_table.onio_last [OF assms(1-4)]
      lmdb_table.onio_items [OF assms(1-3), of 0] by simp
qed

theorem onio_dup_refines_log_witness:
  "getOnIoDupLastItemIter (list_lmdb True) ''EA'' 0 ''.''
     (snd (addOnIoDupVal (list_lmdb True) ''EA'' 7 (Some ''said'') ''.'' [])) = Inr [(''EA'', Some 7, ''said'')]"
proof -
  have r: "onio_rel (list_lmdb True) {''EA''} 0 [] (\<lambda>_. [])"
    by (simp add: onio_rel_def keyed_def tops_free_def list_lmdb_entries list_entries_def
        dup_table.vals getIoDupVals_def getVals_def)
  note one = onio_dup_refines_log [OF list_lmdb_table r, of "''EA''" 7 "''said''"]
  have "onio_rel (list_lmdb True) {''EA''} (Suc 0)
      (snd (addOnIoDupVal (list_lmdb True) ''EA'' 7 (Some ''said'') ''.'' []))
      ((\<lambda>_. [])(''EA'' := on_add 7 ''said'' []))"
    using one by simp
  from onio_dup_refines_log [OF list_lmdb_table this, of "''EA''" 7]
  show ?thesis by (simp add: on_last_items_def)
qed

end
