(* ===== verification/LmdbSets.thy ===== *)
theory LmdbSets
  imports LmdbLog
begin

text \<open>
  Values under ordinal keys and insertion-ordered sets of the access layer, in a table with one
  value per key. Appending refines the first-seen logs of \<open>Baser\<close> (\<open>fel_rel\<close>): a new value
  goes to the ordinal after the last one. The suffixed keys of an insertion-ordered set refine a
  list without repetition (\<open>ioset_rel\<close>), the hidden ordinals bounded by \<open>b\<close>.
\<close>

section \<open>The greatest ordinal key\<close>

lemma le_replicate:
  fixes c :: "'a::linorder"
  shows "\<forall>x \<in> set xs. x \<le> c \<Longrightarrow> xs \<le> replicate (length xs) c"
  by (induction xs) (auto simp: order.order_iff_strict)

lemma ordinal_below_max:
  assumes "n < 2 ^ 53"
  shows "onKey t n ''.'' < max_on_key t ''.''"
proof -
  have "list_all (\<lambda>d. digit_chars ! d \<le> CHR ''f'') [0..<16]" by code_simp
  then have "\<forall>c \<in> set (to32CharHex (Suc n)). c \<le> CHR ''f''"
    using ordinal_digits_bound by (auto simp: ordinal_digits_text list_all_iff)
  from le_replicate [OF this] assms have "to32CharHex (Suc n) \<le> replicate 32 (CHR ''f'')" by simp
  moreover have "to32CharHex n < to32CharHex (Suc n)" using assms by (simp add: to32CharHex_less)
  ultimately show ?thesis by (simp add: onKey_def max_on_key_def append_less_iff)
qed

section \<open>Writes to a table with one value per key\<close>

context lmdb_table
begin

lemma put_plain:
  assumes "\<not> dup" and "k \<noteq> []"
  shows "e \<in> set (entries L (lm_put L k v s)) \<longleftrightarrow> e = (k, v) \<or> e \<in> set (entries L s) \<and> fst e \<noteq> k"
  using assms by (auto simp: put)

lemma put_plain_values:
  assumes "\<not> dup" and "k \<noteq> []"
  shows "lm_values L (lm_put L k v s) k' = (if k' = k then [v] else lm_values L s k')"
proof (cases "k' = k")
  case True
  have "lm_values L (lm_put L k v s) k = [v]"
    by (rule strict_sorted_equal [OF _ values_sorted]) (auto simp: values_set put_plain [OF assms])
  with True show ?thesis by simp
next
  case False
  then show ?thesis by (auto intro!: values_eqI simp: put_plain [OF assms])
qed

lemma keyed_put:
  assumes "keyed L T b s" and "t \<in> T" and "n < c" and "b \<le> c" and "c \<le> 2 ^ 53" and "\<not> dup"
  shows "keyed L T c (lm_put L (onKey t n ''.'') v s)"
proof -
  have k: "onKey t n ''.'' \<noteq> []" by (simp add: onKey_def)
  have "\<exists>t \<in> T. \<exists>n < c. fst e = onKey t n ''.''" if e: "e \<in> set (entries L (lm_put L (onKey t n ''.'') v s))" for e
  proof (cases "e \<in> set (entries L s)")
    case True
    then obtain u m where "u \<in> T" "m < b" "fst e = onKey u m ''.''" using assms(1) unfolding keyed_def by blast
    then show ?thesis using assms(4) by (meson order.strict_trans2)
  next
    case False
    then have "fst e = onKey t n ''.''" using e unfolding put_plain [OF assms(6) k] by simp
    then show ?thesis using assms(2,3) by blast
  qed
  then show ?thesis using assms(1,5) by (simp add: keyed_def)
qed

end

section \<open>Appending\<close>

definition fel_rel :: "'s lmdb \<Rightarrow> string set \<Rightarrow> 's \<Rightarrow> (string \<Rightarrow> string list) \<Rightarrow> bool" where
  "fel_rel L T s logs \<longleftrightarrow> keyed L T (2 ^ 53) s
     \<and> (\<forall>t \<in> T. length (logs t) < 2 ^ 53 \<and> (\<forall>n < 2 ^ 53.
          lm_values L s (onKey t n ''.'') = (if n < length (logs t) then [logs t ! n] else [])))"

context lmdb_table
begin

lemma fel_entry:
  assumes "fel_rel L T s logs" and "e \<in> set (entries L s)"
  obtains t n where "t \<in> T" and "n < length (logs t)" and "n < 2 ^ 53"
    and "e = (onKey t n ''.'', logs t ! n)" and "t \<noteq> []"
proof -
  obtain t n where n: "t \<in> T" "n < 2 ^ 53" "fst e = onKey t n ''.''" "t \<noteq> []"
    using assms by (fastforce simp: fel_rel_def keyed_def tops_free_def)
  have "snd e \<in> set (lm_values L s (fst e))" using assms(2) by (simp add: values_set)
  then have "n < length (logs t) \<and> snd e = logs t ! n"
    using assms(1) n by (auto simp: fel_rel_def split: if_splits)
  then show thesis using that n by (metis prod.collapse)
qed

lemma fel_member:
  assumes "fel_rel L T s logs" and "t \<in> T" and "n < length (logs t)"
  shows "(onKey t n ''.'', logs t ! n) \<in> set (entries L s)"
proof -
  have "n < 2 ^ 53" using assms by (auto simp: fel_rel_def)
  then have "logs t ! n \<in> set (lm_values L s (onKey t n ''.''))" using assms by (auto simp: fel_rel_def)
  then show ?thesis by (simp add: values_set)
qed

lemma append_slot:
  assumes r: "fel_rel L T s logs" and t: "t \<in> T" and len: "Suc (length (logs t)) < 2 ^ 53"
  shows "append_on L t ''.'' s = Inr (length (logs t))"
proof -
  let ?max = "max_on_key t ''.''"
  let ?es = "filter (\<lambda>e. fst e \<le> ?max) (entries L s)"
  have free: "tops_free T" using r by (simp add: fel_rel_def keyed_def)
  show ?thesis
  proof (cases "logs t")
    case Nil
    show ?thesis
    proof (cases "?es = []")
      case False
      then have "last ?es \<in> set (entries L s)" using last_in_set [OF False] by simp
      then obtain t' n where e: "last ?es = (onKey t' n ''.'', logs t' ! n)" "n < length (logs t')" "t' \<noteq> []"
        using fel_entry [OF r] by metis
      then have "t' \<noteq> t" using Nil by auto
      then show ?thesis using e(1,3) False Nil
        by (simp add: append_on_def before Let_def bind_res_def)
    qed (simp add: append_on_def before Nil)
  next
    case (Cons v vs)
    define m where "m = length vs"
    have m: "m < length (logs t)" "length (logs t) = Suc m" "Suc m < 2 ^ 53"
      using Cons len by (simp_all add: m_def)
    let ?e = "(onKey t m ''.'', logs t ! m)"
    have "?e \<in> set ?es"
      using fel_member [OF r t m(1)] ordinal_below_max [of m t] m(3) by simp
    moreover have "e \<le> ?e" if e: "e \<in> set ?es" for e
    proof (rule ccontr)
      assume "\<not> e \<le> ?e"
      then have lt: "onKey t m ''.'' \<le> fst e" by (cases e) auto
      from e have "e \<in> set (entries L s)" by simp
      from fel_entry [OF r this] obtain t' n where n: "t' \<in> T" "n < length (logs t')" "n < 2 ^ 53"
        "e = (onKey t' n ''.'', logs t' ! n)" by blast
      have "prefix (t @ ''.'') (fst e)"
        using prefix_between [of "t @ ''.''" "onKey t m ''.''" ?max "fst e"] lt e
        by (simp add: onKey_def max_on_key_def)
      then have "t = t'" using onKey_branch [OF free t n(1)] n(4) by simp
      then have "n \<le> m" using n(2) m(2) by simp
      moreover have "m \<le> n" using lt n(3,4) m(3) \<open>t = t'\<close> by (simp add: onKey_le)
      ultimately show False using \<open>\<not> e \<le> ?e\<close> n(4) \<open>t = t'\<close> by simp
    qed
    ultimately have last: "?es \<noteq> []" "last ?es = ?e"
      using sorted_last_max [OF sorted_wrt_filter [OF sorted]] by (metis (no_types, lifting))+
    have "t \<noteq> []" using free t by (auto simp: tops_free_def)
    moreover have "onKey t m ''.'' \<noteq> ?max" using ordinal_below_max [of m t] m(3) by auto
    ultimately show ?thesis
      using last m by (simp add: append_on_def before Let_def bind_res_def next_on_def)
  qed
qed

lemma append_refines:
  fixes v :: string
  assumes p: "\<not> dup" and r: "fel_rel L T s logs" and t: "t \<in> T" and len: "Suc (length (logs t)) < 2 ^ 53"
  defines "s' \<equiv> lm_put L (onKey t (length (logs t)) ''.'') v s"
  shows "appendOnVal L t (Some v) ''.'' s = Inr (length (logs t), s')"
    and "fel_rel L T s' (logs(t := logs t @ [v]))"
proof -
  let ?n = "length (logs t)" and ?k = "onKey t (length (logs t)) ''.''"
  have free: "tops_free T" and key: "keyed L T (2 ^ 53) s" using r by (auto simp: fel_rel_def keyed_def)
  have k: "?k \<noteq> []" by (simp add: onKey_def)
  have "lm_values L s ?k = []" using r t len by (auto simp: fel_rel_def)
  then have "lm_get L s ?k = None" by (simp add: get)
  moreover have "t \<noteq> []" using free t by (auto simp: tops_free_def)
  ultimately show "appendOnVal L t (Some v) ''.'' s = Inr (?n, s')"
    using append_slot [OF r t len] by (simp add: appendOnVal_def putVal_def bind_res_def s'_def)
  have "lm_values L s' (onKey t' m ''.'') =
      (if m < length ((logs(t := logs t @ [v])) t') then [(logs(t := logs t @ [v])) t' ! m] else [])"
    if m: "t' \<in> T" "m < 2 ^ 53" for t' m
  proof (cases "t' = t \<and> m = ?n")
    case True
    then show ?thesis by (simp add: s'_def put_plain_values [OF p k])
  next
    case False
    then have "onKey t' m ''.'' \<noteq> ?k"
      using onKey_inj [OF free m(1) t m(2)] len by auto
    then show ?thesis
      using r m False by (auto simp: s'_def put_plain_values [OF p k] fel_rel_def nth_append)
  qed
  moreover have "keyed L T (2 ^ 53) s'"
    unfolding s'_def using key t len p by (intro keyed_put [of T "2 ^ 53"]) auto
  ultimately show "fel_rel L T s' (logs(t := logs t @ [v]))" using r t len by (auto simp: fel_rel_def)
qed

end

context lmdb_table
begin

lemma fel_get:
  assumes "fel_rel L T s logs" and "t \<in> T" and "n < 2 ^ 53"
  shows "getOnVal L t n ''.'' s = (if n < length (logs t) then Some (logs t ! n) else None)"
proof -
  have "t \<noteq> []" using assms(1,2) by (auto simp: fel_rel_def keyed_def tops_free_def)
  then show ?thesis using assms by (simp add: fel_rel_def getOnVal_def getVal_def get)
qed

end

text \<open>The first-seen log. For any engine that keeps the promises of \<open>lmdb_table\<close>, appending to
  the log of an identifier returns the number of values already there, so first-seen ordinals
  have no gap, and carries the relation to the log with the value at its end; reading any
  ordinal returns what the logs hold.\<close>

lemma first_seen_append:
  assumes "lmdb_table L False" and "fel_rel L T s logs" and "t \<in> T" and "Suc (length (logs t)) < 2 ^ 53"
  shows "\<exists>s'. appendOnVal L t (Some v) ''.'' s = Inr (length (logs t), s')
    \<and> fel_rel L T s' (logs(t := logs t @ [v]))
    \<and> (\<forall>t' \<in> T. \<forall>n < 2 ^ 53. getOnVal L t' n ''.'' s' =
         (if n < length ((logs(t := logs t @ [v])) t') then Some ((logs(t := logs t @ [v])) t' ! n) else None))"
proof -
  note a = lmdb_table.append_refines [OF assms(1) _ assms(2-4), of v]
  show ?thesis
    using a lmdb_table.fel_get [OF assms(1) a(2)] by blast
qed

end
