(* ===== verification/LmdbIoSets.thy ===== *)
theory LmdbIoSets
  imports LmdbSets
begin

text \<open>
  The insertion-ordered sets of the access layer, kept in suffixed keys of a table with one value
  per key, refine lists without repetition. The relation \<open>ioset_rel\<close> ties each effective
  key to the list of its members; \<open>b\<close> bounds the hidden insertion ordinals, which grow over
  deletions.
\<close>

definition ioset_rel ::
  "'s lmdb \<Rightarrow> string set \<Rightarrow> nat \<Rightarrow> 's \<Rightarrow> (string \<Rightarrow> string list) \<Rightarrow> bool" where
  "ioset_rel L T b s members \<longleftrightarrow> keyed L T b s
     \<and> (\<forall>t \<in> T. map snd (block L t 0 s) = members t \<and> distinct (members t))"

definition suffixed :: "string \<Rightarrow> nat \<Rightarrow> (string \<times> string) list \<Rightarrow> bool" where
  "suffixed t b es \<longleftrightarrow> (\<forall>e \<in> set es. \<exists>n < b. fst e = onKey t n ''.'')"

definition other_top :: "string \<Rightarrow> (string \<times> string) list \<Rightarrow> bool" where
  "other_top t es \<longleftrightarrow> (\<forall>e \<in> set es. \<exists>t' n. t' \<noteq> t \<and> fst e = onKey t' n ''.'')"

text \<open>The ordinal after the last entry.\<close>

definition slot_after :: "nat \<Rightarrow> (string \<times> string) list \<Rightarrow> nat" where
  "slot_after ion es =
     (if es = [] then ion
      else case snd (sum.projr (unsuffix (fst (last es)) ''.'')) of Some n \<Rightarrow> Suc n | None \<Rightarrow> ion)"

lemma unsuffix_inj: "onKey t n ''.'' = onKey t' m ''.'' \<Longrightarrow> t = t'"
  using unsuffix_onKey [of t n] unsuffix_onKey [of t' m] by simp

lemma add_search_block:
  assumes "suffixed t b es" and "b < 2 ^ 53" and "other_top t rest"
  shows "add_search t ''.'' v ion (es @ rest)
    = Inr (if v \<in> set (map snd es) then None else Some (slot_after ion es))"
  using assms(1)
proof (induction es arbitrary: ion)
  case Nil
  show ?case
  proof (cases rest)
    case (Cons e es)
    then obtain t' n where "t' \<noteq> t" "fst e = onKey t' n ''.''" using assms(3) by (auto simp: other_top_def)
    then show ?thesis using Cons by (cases e) (simp add: bind_res_def slot_after_def)
  qed (simp add: slot_after_def)
next
  case (Cons e es)
  then obtain n where n: "n < b" "fst e = onKey t n ''.''" by (auto simp: suffixed_def)
  have "slot_after ion (e # es) = slot_after (Suc n) es"
  proof (cases "es = []")
    case True
    then show ?thesis using n assms(2) by (simp add: slot_after_def)
  next
    case False
    then have "last es \<in> set (e # es)" by simp
    then obtain m where "m < b" "fst (last es) = onKey t m ''.''"
      using Cons.prems unfolding suffixed_def by blast
    with False show ?thesis by (simp add: slot_after_def)
  qed
  moreover have "Suc n < 2 ^ 53" using n(1) assms(2) by simp
  moreover have "suffixed t b es" using Cons.prems by (simp add: suffixed_def)
  ultimately show ?case
    using Cons.IH [of "Suc n"] n(2) by (cases e) (simp add: bind_res_def next_on_def)
qed

lemma find_member_block:
  assumes "suffixed t b es" and "other_top t rest"
  shows "find_member t ''.'' v (es @ rest) = Inr (map_option fst (List.find (\<lambda>e. snd e = v) es))"
  using assms(1)
proof (induction es)
  case Nil
  show ?case
  proof (cases rest)
    case (Cons e es)
    then obtain t' n where "t' \<noteq> t" "fst e = onKey t' n ''.''" using assms(2) by (auto simp: other_top_def)
    then show ?thesis using Cons by (cases e) (simp add: bind_res_def)
  qed simp
next
  case (Cons e es)
  then obtain n where "fst e = onKey t n ''.''" by (auto simp: suffixed_def)
  then show ?case using Cons by (cases e) (simp add: bind_res_def suffixed_def)
qed

lemma unique_loop_filter:
  "unique_loop seen vs = filter (\<lambda>v. v \<notin> seen) (unique_loop {} vs)"
proof (induction vs arbitrary: seen)
  case (Cons v vs)
  have "unique_loop (insert v seen) vs = filter (\<lambda>u. u \<notin> seen) (unique_loop {v} vs)"
    using Cons.IH [of "insert v seen"] Cons.IH [of "{v}"] by (simp add: filter_filter conj_commute)
  then show ?case using Cons.IH [of seen] Cons.IH [of "{v}"] by (auto simp: filter_filter intro!: filter_cong)
qed simp

lemma io_put_unique: "io_put vs ms = ms @ filter (\<lambda>v. v \<notin> set ms) (asUniqueVals vs)"
proof (induction vs arbitrary: ms)
  case (Cons v vs)
  have "asUniqueVals (v # vs) = v # filter (\<lambda>u. u \<noteq> v) (asUniqueVals vs)"
    using unique_loop_filter [of "{v}" vs] by (simp add: asUniqueVals_def)
  then show ?case
    using Cons.IH [of "io_add v ms"]
    by (auto simp: io_put_def io_add_def filter_filter intro!: filter_cong)
qed (simp add: io_put_def asUniqueVals_def)

lemma asUniqueVals_io_put: "asUniqueVals vs = io_put vs []"
  by (simp add: io_put_unique)

text \<open>The entries of a run with their insertion ordinals.\<close>

definition run_of :: "(string \<times> string) list \<Rightarrow> (string \<times> nat option \<times> string) list" where
  "run_of es = map (\<lambda>e. (fst e, snd (sum.projr (unsuffix (fst e) ''.'')), snd e)) es"

lemma run_of_simps:
  "map fst (run_of es) = map fst es" "map (\<lambda>(_, _, v). v) (run_of es) = map snd es"
  "map (\<lambda>(_, _, v). f v) (run_of es) = map (f \<circ> snd) es"
  "run_of es = [] \<longleftrightarrow> es = []" "length (run_of es) = length es"
  by (simp_all add: run_of_def comp_def)

lemma next_ion_run:
  assumes "suffixed t b es" and "b < 2 ^ 53"
  shows "next_ion (run_of es) = Inr (slot_after 0 es)"
proof (cases "es = []")
  case False
  obtain n where n: "n < b" "fst (last es) = onKey t n ''.''"
    using last_in_set [OF False] assms(1) unfolding suffixed_def by blast
  have "snd (last (run_of es)) = (Some n, snd (last es))"
    using n assms(2) False by (simp add: run_of_def last_map)
  moreover obtain r rs where "run_of es = r # rs" using False by (cases "run_of es") (auto simp: run_of_def)
  ultimately show ?thesis
    using n assms(2) False by (simp add: next_ion_def next_on_def slot_after_def del: last.simps)
qed (simp add: next_ion_def slot_after_def run_of_def)

lemma keyed_mono: "keyed L T b s \<Longrightarrow> b \<le> c \<Longrightarrow> c \<le> 2 ^ 53 \<Longrightarrow> keyed L T c s"
  unfolding keyed_def by (meson order.strict_trans2)

section \<open>Writing and reading a run\<close>

context lmdb_table
begin

lemma block_zero:
  assumes "keyed L T b s" and "t \<in> T"
  shows "e \<in> set (block L t 0 s) \<longleftrightarrow> e \<in> set (entries L s) \<and> (\<exists>n < b. fst e = onKey t n ''.'')"
  using block_member [OF assms, of 0] by simp

lemma block_suffixed: "keyed L T b s \<Longrightarrow> t \<in> T \<Longrightarrow> suffixed t b (block L t on s)"
proof -
  assume a: "keyed L T b s" "t \<in> T"
  have "\<exists>n < b. fst e = onKey t n ''.''" if e: "e \<in> set (block L t on s)" for e
  proof -
    obtain u n where u: "u \<in> T" "n < b" "fst e = onKey u n ''.''"
      using e a(1) unfolding block_def keyed_def by auto
    have "tops_free T" using a(1) by (simp add: keyed_def)
    then have "t = u" using onKey_branch [OF _ a(2) u(1), of n] e u(3) by (simp add: block_def)
    then show ?thesis using u by blast
  qed
  then show ?thesis by (simp add: suffixed_def)
qed

lemma range_run:
  assumes "keyed L T b s" and "t \<in> T"
  obtains rest where "lm_range L s (Some (suffix_key t on ''.'')) = block L t on s @ rest" and "other_top t rest"
  using range_block [OF assms, of on] unfolding other_top_def suffix_key_onKey by metis

lemma io_run_block:
  assumes "keyed L T b s" and "t \<in> T"
  shows "io_run L t on ''.'' s = Inr (run_of (block L t on s))"
proof -
  obtain rest where r: "lm_range L s (Some (suffix_key t on ''.'')) = block L t on s @ rest" "other_top t rest"
    using range_run [OF assms] .
  have "suffixed t b (block L t on s)" using assms by (rule block_suffixed)
  then have "\<exists>n < b. fst e = onKey t n ''.''" if "e \<in> set (block L t on s)" for e
    using that by (simp add: suffixed_def)
  moreover have "\<exists>t' n. t' \<noteq> t \<and> fst (hd rest) = onKey t' n ''.''" if "rest \<noteq> []"
    using r(2) hd_in_set [OF that] unfolding other_top_def by blast
  ultimately show ?thesis
    unfolding io_run_def r(1) run_of_def by (intro scan_prefix) (fastforce simp: bind_res_def split_def)+
qed

lemma keyedE:
  assumes "keyed L T b s" and "e \<in> set (entries L s)"
  obtains t n where "t \<in> T" and "n < b" and "fst e = onKey t n ''.''"
  using assms unfolding keyed_def by blast

text \<open>A new entry behind all others of its run.\<close>

lemma block_put:
  fixes v :: string
  assumes p: "\<not> dup" and k: "keyed L T b s" and t: "t \<in> T" and i: "i < c" "b \<le> c" "c \<le> 2 ^ 53"
    and last: "\<And>e. e \<in> set (block L t 0 s) \<Longrightarrow> fst e < onKey t i ''.''"
  defines "s' \<equiv> lm_put L (onKey t i ''.'') v s"
  shows "keyed L T c s'" and "block L t 0 s' = block L t 0 s @ [(onKey t i ''.'', v)]"
    and "t' \<in> T \<Longrightarrow> t' \<noteq> t \<Longrightarrow> block L t' 0 s' = block L t' 0 s"
proof -
  have key: "onKey t i ''.'' \<noteq> []" by (simp add: onKey_def)
  show k': "keyed L T c s'" unfolding s'_def using k t i p by (rule keyed_put)
  have mem: "e \<in> set (block L u 0 s') \<longleftrightarrow> e \<in> set (block L u 0 s) \<or> u = t \<and> e = (onKey t i ''.'', v)"
    if u: "u \<in> T" for u e
  proof -
    have "fst e \<noteq> onKey t i ''.''" if "e \<in> set (entries L s)" "fst e = onKey u n ''.''" "n < b" for n
    proof
      assume eq: "fst e = onKey t i ''.''"
      then have "u = t" using that(2) by (intro unsuffix_inj [of u n t i]) simp
      then have "e \<in> set (block L t 0 s)" unfolding block_zero [OF k t] using that by blast
      from last [OF this] eq show False by simp
    qed
    moreover have "\<exists>n < b. fst e = onKey u n ''.''" if "e \<in> set (entries L s)" "fst e = onKey u n ''.''" for n
    proof -
      from k that(1) obtain w m where w: "m < b" "fst e = onKey w m ''.''" by (rule keyedE)
      then have "w = u" using that(2) by (intro unsuffix_inj [of w m u n]) simp
      with w show ?thesis by blast
    qed
    ultimately have old: "e \<in> set (block L u 0 s) \<longleftrightarrow>
        e \<in> set (entries L s) \<and> fst e \<noteq> onKey t i ''.'' \<and> (\<exists>n. fst e = onKey u n ''.'')"
      unfolding block_zero [OF k u] by blast
    have new: "e \<in> set (block L u 0 s') \<longleftrightarrow> (e = (onKey t i ''.'', v) \<or> e \<in> set (entries L s) \<and> fst e \<noteq> onKey t i ''.'')
        \<and> (\<exists>n < c. fst e = onKey u n ''.'')"
      unfolding block_zero [OF k' u] unfolding s'_def put_plain [OF p key] by (rule refl)
    have "e \<in> set (block L u 0 s) \<Longrightarrow> \<exists>n < c. fst e = onKey u n ''.''"
      using i(2) unfolding block_zero [OF k u] by (auto intro: order.strict_trans2)
    moreover have "(\<exists>n < c. onKey t i ''.'' = onKey u n ''.'') \<longleftrightarrow> u = t"
      using i(1) unsuffix_inj [of t i u] by blast
    ultimately show ?thesis
      unfolding new using old by (cases "e = (onKey t i ''.'', v)") auto
  qed
  show "block L t 0 s' = block L t 0 s @ [(onKey t i ''.'', v)]"
  proof (rule sorted_snoc_max [OF block_sorted block_sorted])
    show "set (block L t 0 s') = insert (onKey t i ''.'', v) (set (block L t 0 s))"
      using mem [OF t] by blast
    show "\<forall>e \<in> set (block L t 0 s). e < (onKey t i ''.'', v)" using last by (simp add: less_prod_def)
  qed
  show "t' \<in> T \<Longrightarrow> t' \<noteq> t \<Longrightarrow> block L t' 0 s' = block L t' 0 s"
    using mem [of t'] by (intro strict_sorted_equal [OF block_sorted block_sorted] set_eqI) blast
qed

lemma slot_bound:
  assumes "suffixed t b es" and "sorted_wrt (<) es" and "b \<le> 2 ^ 53"
  shows "slot_after 0 es \<le> b" and "e \<in> set es \<Longrightarrow> fst e < onKey t (slot_after 0 es) ''.''"
proof -
  have "slot_after 0 es \<le> b \<and> (e \<in> set es \<longrightarrow> fst e < onKey t (slot_after 0 es) ''.'')" for e
  proof (cases "es = []")
    case False
    obtain n where n: "n < b" "fst (last es) = onKey t n ''.''"
      using assms(1) last_in_set [OF False] unfolding suffixed_def by blast
    then have slot: "slot_after 0 es = Suc n" using False assms(3) by (simp add: slot_after_def)
    have "fst e < onKey t (Suc n) ''.''" if e: "e \<in> set es"
    proof -
      have "fst e \<le> onKey t n ''.''"
        using sorted_le_last [OF assms(2) e] n(2) by (auto simp: less_eq_prod_def)
      also have "\<dots> < onKey t (Suc n) ''.''" using n(1) assms(3) by (simp add: onKey_less)
      finally show ?thesis .
    qed
    then show ?thesis using slot n(1) by auto
  qed (simp add: slot_after_def)
  then show "slot_after 0 es \<le> b" and "e \<in> set es \<Longrightarrow> fst e < onKey t (slot_after 0 es) ''.''"
    by blast+
qed

lemma ioset_relD:
  assumes "ioset_rel L T b s ms"
  shows "keyed L T b s" and "b \<le> 2 ^ 53"
    and "t \<in> T \<Longrightarrow> map snd (block L t 0 s) = ms t" and "t \<in> T \<Longrightarrow> distinct (ms t)"
    and "t \<in> T \<Longrightarrow> t \<noteq> []"
  using assms by (auto simp: ioset_rel_def keyed_def tops_free_def)

lemma put_suffixed_spec:
  assumes p: "\<not> dup" and t: "t \<in> T"
  shows "keyed L T b s \<Longrightarrow> b + length vs \<le> 2 ^ 53 \<Longrightarrow> i \<le> b \<Longrightarrow>
    (\<And>e. e \<in> set (block L t 0 s) \<Longrightarrow> fst e < onKey t i ''.'') \<Longrightarrow>
    keyed L T (b + length vs) (put_suffixed L t ''.'' i vs s)
    \<and> map snd (block L t 0 (put_suffixed L t ''.'' i vs s)) = map snd (block L t 0 s) @ vs
    \<and> (\<forall>u \<in> T. u \<noteq> t \<longrightarrow> block L u 0 (put_suffixed L t ''.'' i vs s) = block L u 0 s)"
proof (induction vs arbitrary: b i s)
  case (Cons v vs)
  let ?s = "lm_put L (onKey t i ''.'') v s"
  have i: "i < Suc b" "Suc b \<le> 2 ^ 53" using Cons.prems(2,3) by simp_all
  note w = block_put [OF p Cons.prems(1) t i(1) le_SucI [OF le_refl] i(2) Cons.prems(4), where v = v]
  have "fst e < onKey t (Suc i) ''.''" if e: "e \<in> set (block L t 0 ?s)" for e
  proof -
    have "onKey t i ''.'' < onKey t (Suc i) ''.''" using Cons.prems(2,3) by (simp add: onKey_less)
    moreover have "fst e \<le> onKey t i ''.''"
    proof (cases "e \<in> set (block L t 0 s)")
      case True
      then show ?thesis using Cons.prems(4) by (simp add: order.strict_implies_order)
    next
      case False
      then show ?thesis using e w(2) by auto
    qed
    ultimately show ?thesis by (rule order.strict_trans1 [rotated])
  qed
  then have ih: "keyed L T (Suc b + length vs) (put_suffixed L t ''.'' (Suc i) vs ?s)
    \<and> map snd (block L t 0 (put_suffixed L t ''.'' (Suc i) vs ?s)) = map snd (block L t 0 ?s) @ vs
    \<and> (\<forall>u \<in> T. u \<noteq> t \<longrightarrow> block L u 0 (put_suffixed L t ''.'' (Suc i) vs ?s) = block L u 0 ?s)"
    using w(1) Cons.prems(2,3) by (intro Cons.IH) auto
  then show ?case using w(2,3) by (simp add: suffix_key_onKey)
qed simp

lemma ioset_rel_put:
  assumes p: "\<not> dup" and r: "ioset_rel L T b s ms" and t: "t \<in> T" and b: "b + length vs < 2 ^ 53"
    and d: "distinct (ms t @ vs)"
  shows "ioset_rel L T (b + length vs) (put_suffixed L t ''.'' (slot_after 0 (block L t 0 s)) vs s) (ms(t := ms t @ vs))"
proof -
  note rd = ioset_relD [OF r]
  note slot = slot_bound [OF block_suffixed [OF rd(1) t, of 0] block_sorted rd(2)]
  from put_suffixed_spec [OF p t rd(1) _ slot, of vs] b rd(3,4) t d show ?thesis
    by (auto simp: ioset_rel_def)
qed

lemma ioset_add:
  assumes p: "\<not> dup" and r: "ioset_rel L T b s ms" and t: "t \<in> T" and b: "Suc b < 2 ^ 53"
  shows "\<exists>s'. addIoSetVal L t (Some v) ''.'' s = Inr (v \<notin> set (ms t), s')
    \<and> ioset_rel L T (Suc b) s' (ms(t := io_add v (ms t)))"
proof -
  note rd = ioset_relD [OF r]
  let ?slot = "slot_after 0 (block L t 0 s)"
  obtain rest where rest: "lm_range L s (Some (suffix_key t 0 ''.'')) = block L t 0 s @ rest" "other_top t rest"
    using range_run [OF rd(1) t] .
  have suf: "suffixed t b (block L t 0 s)" using rd(1) t by (rule block_suffixed)
  have search: "add_search t ''.'' v 0 (lm_range L s (Some (suffix_key t 0 ''.'')))
      = Inr (if v \<in> set (ms t) then None else Some ?slot)"
    unfolding rest(1) using add_search_block [OF suf _ rest(2), of v 0] b rd(3) [OF t] by simp
  show ?thesis
  proof (cases "v \<in> set (ms t)")
    case True
    have "ioset_rel L T (Suc b) s ms"
      using r b keyed_mono [OF rd(1), of "Suc b"] by (simp add: ioset_rel_def)
    then show ?thesis using True search rd(5) [OF t]
      by (simp add: addIoSetVal_def bind_res_def io_add_def)
  next
    case False
    note slot = slot_bound [OF suf block_sorted rd(2)]
    have "lm_get L s (onKey t ?slot ''.'') = None"
    proof (rule ccontr)
      assume "lm_get L s (onKey t ?slot ''.'') \<noteq> None"
      then obtain e where e: "e \<in> set (entries L s)" "fst e = onKey t ?slot ''.''"
        unfolding get_none by auto
      from rd(1) e(1) obtain u n where u: "n < b" "fst e = onKey u n ''.''" by (rule keyedE)
      then have "u = t" using e(2) by (intro unsuffix_inj [of u n t ?slot]) simp
      then have "e \<in> set (block L t 0 s)" unfolding block_zero [OF rd(1) t] using e(1) u by blast
      from slot(2) [OF this] e(2) show False by simp
    qed
    then have "addIoSetVal L t (Some v) ''.'' s = Inr (True, put_suffixed L t ''.'' ?slot [v] s)"
      using False search rd(5) [OF t]
      by (simp add: addIoSetVal_def bind_res_def putVal_def suffix_key_onKey)
    then show ?thesis
      using ioset_rel_put [OF p r t, of "[v]"] b False rd(4) [OF t] by (simp add: io_add_def)
  qed
qed

lemma ioset_put:
  assumes p: "\<not> dup" and r: "ioset_rel L T b s ms" and t: "t \<in> T" and b: "b + length vs < 2 ^ 53"
  shows "\<exists>c s'. putIoSetVals L t (Some vs) ''.'' s = Inr (io_put vs (ms t) \<noteq> ms t, s')
    \<and> c \<le> b + length vs \<and> ioset_rel L T c s' (ms(t := io_put vs (ms t)))"
proof -
  note rd = ioset_relD [OF r]
  let ?fresh = "filter (\<lambda>v. v \<notin> set (ms t)) (asUniqueVals vs)"
  have io: "io_put vs (ms t) = ms t @ ?fresh" by (rule io_put_unique)
  have len: "length ?fresh \<le> length vs"
  proof -
    have "length (unique_loop X vs) \<le> length vs" for X by (induction X vs rule: unique_loop.induct) auto
    then show ?thesis unfolding asUniqueVals_def by (meson length_filter_le order.trans)
  qed
  have run: "io_run L t 0 ''.'' s = Inr (run_of (block L t 0 s))"
    using rd(1) t by (rule io_run_block)
  have "next_ion (run_of (block L t 0 s)) = Inr (slot_after 0 (block L t 0 s))"
    using b by (intro next_ion_run [OF block_suffixed [OF rd(1) t]]) simp
  then have put: "putIoSetVals L t (Some vs) ''.'' s =
      Inr (if ?fresh = [] then (False, s) else (True, put_suffixed L t ''.'' (slot_after 0 (block L t 0 s)) ?fresh s))"
    using rd(5) [OF t] run
    by (cases "asUniqueVals vs = []") (simp_all add: putIoSetVals_def bind_res_def Let_def run_of_simps rd(3) [OF t] del: set_map)
  have "distinct (ms t @ ?fresh)" using io_put_distinct [OF rd(4) [OF t], of vs] io by simp
  from ioset_rel_put [OF p r t _ this] len b
  have rel: "ioset_rel L T (b + length ?fresh) (put_suffixed L t ''.'' (slot_after 0 (block L t 0 s)) ?fresh s)
      (ms(t := ms t @ ?fresh))" by simp
  show ?thesis
  proof (cases "?fresh = []")
    case True
    then show ?thesis using put io r by (intro exI [of _ b] exI [of _ s]) simp
  next
    case False
    then show ?thesis using put io rel len
      by (intro exI [of _ "b + length ?fresh"] exI) auto
  qed
qed

lemma entries_remove: "entries L (snd (lm_remove L k s)) = filter (\<lambda>e. fst e \<noteq> k) (entries L s)"
  by (rule strict_sorted_equal [OF sorted_wrt_filter [OF sorted] sorted]) (auto simp: remove)

lemma entries_remove_keys: "entries L (remove_keys L ks s) = filter (\<lambda>e. fst e \<notin> set ks) (entries L s)"
  by (induction ks arbitrary: s) (auto simp: remove_keys_def entries_remove filter_filter intro!: filter_cong)

lemma ioset_rel_filter:
  assumes r: "ioset_rel L T b s ms" and t: "t \<in> T" and e: "entries L s' = filter P (entries L s)"
    and other: "\<And>u e. u \<in> T \<Longrightarrow> u \<noteq> t \<Longrightarrow> e \<in> set (block L u 0 s) \<Longrightarrow> P e"
    and own: "map snd (filter P (block L t 0 s)) = xs"
  shows "ioset_rel L T b s' (ms(t := xs))"
proof -
  note rd = ioset_relD [OF r]
  have b: "block L u 0 s' = filter P (block L u 0 s)" for u
    unfolding block_def e filter_filter by (rule filter_cong) auto
  have "keyed L T b s'" using rd(1) by (simp add: keyed_def e)
  moreover have "distinct xs"
    using distinct_map_filter [of snd "block L t 0 s" P] rd(3,4) [OF t] own by simp
  moreover have "block L u 0 s' = block L u 0 s" if "u \<in> T" "u \<noteq> t" for u
    unfolding b using other [OF that] by (simp add: filter_True)
  ultimately show ?thesis using rd(3,4) own by (auto simp: ioset_rel_def b)
qed

lemma block_other_key:
  assumes "keyed L T b s" and "u \<in> T" and "e \<in> set (block L u 0 s)" and "fst e = onKey t n ''.''"
  shows "u = t"
proof -
  obtain m where "fst e = onKey u m ''.''" using assms(3) unfolding block_zero [OF assms(1,2)] by blast
  then show ?thesis using assms(4) by (intro unsuffix_inj [of u m t n]) simp
qed

lemma ioset_rem:
  assumes p: "\<not> dup" and r: "ioset_rel L T b s ms" and t: "t \<in> T"
  shows "\<exists>s'. remIoSetVal L t (Some v) ''.'' s = Inr (v \<in> set (ms t), s')
    \<and> ioset_rel L T b s' (ms(t := filter (\<lambda>w. w \<noteq> v) (ms t)))"
proof -
  note rd = ioset_relD [OF r]
  let ?bl = "block L t 0 s"
  obtain rest where rest: "lm_range L s (Some (suffix_key t 0 ''.'')) = ?bl @ rest" "other_top t rest"
    using range_run [OF rd(1) t] .
  have suf: "suffixed t b ?bl" using rd(1) t by (rule block_suffixed)
  have find: "remIoSetVal L t (Some v) ''.'' s =
      Inr (case List.find (\<lambda>e. snd e = v) ?bl of None \<Rightarrow> (False, s) | Some e \<Rightarrow> (True, snd (lm_remove L (fst e) s)))"
    unfolding remIoSetVal_def rest(1) find_member_block [OF suf rest(2)]
    using rd(5) [OF t] by (simp add: bind_res_def split: option.splits)
  show ?thesis
  proof (cases "List.find (\<lambda>e. snd e = v) ?bl")
    case None
    then have "v \<notin> set (ms t)" unfolding rd(3) [OF t, symmetric] find_None_iff by auto
    moreover from this have "filter (\<lambda>w. w \<noteq> v) (ms t) = ms t" by (auto intro: filter_True)
    ultimately show ?thesis using find None r by simp
  next
    case (Some e)
    then have e: "e \<in> set ?bl" "snd e = v" by (auto simp: find_Some_iff)
    have v: "v \<in> set (ms t)" unfolding rd(3) [OF t, symmetric] using e by force
    obtain n where n: "fst e = onKey t n ''.''" using e(1) unfolding block_zero [OF rd(1) t] by blast
    have "fst x = fst e \<longleftrightarrow> snd x = v" if x: "x \<in> set ?bl" for x
    proof
      assume "snd x = v"
      then show "fst x = fst e" using e x rd(3,4) [OF t] by (metis distinct_map inj_onD)
    next
      assume "fst x = fst e"
      then have "(fst e, snd x) \<in> set (entries L s)" "(fst e, snd e) \<in> set (entries L s)"
        using x e(1) unfolding block_zero [OF rd(1) t] by (metis prod.collapse)+
      then show "snd x = v" using single [OF p] e(2) by blast
    qed
    then have "map snd (filter (\<lambda>x. fst x \<noteq> fst e) ?bl) = filter (\<lambda>w. w \<noteq> v) (ms t)"
      unfolding rd(3) [OF t, symmetric] filter_map comp_def by (auto intro!: arg_cong [of _ _ "map snd"] filter_cong)
    moreover have "fst x \<noteq> fst e" if "u \<in> T" "u \<noteq> t" "x \<in> set (block L u 0 s)" for u x
      using block_other_key [OF rd(1) that(1,3)] n that(2) by metis
    ultimately have "ioset_rel L T b (snd (lm_remove L (fst e) s)) (ms(t := filter (\<lambda>w. w \<noteq> v) (ms t)))"
      by (intro ioset_rel_filter [OF r t entries_remove])
    then show ?thesis using find Some v by simp
  qed
qed

lemma ioset_rem_all:
  assumes r: "ioset_rel L T b s ms" and t: "t \<in> T"
  shows "\<exists>s'. remIoSet L t ''.'' s = Inr (ms t \<noteq> [], s') \<and> ioset_rel L T b s' (ms(t := []))"
proof -
  note rd = ioset_relD [OF r]
  let ?keys = "map fst (block L t 0 s)"
  have empty: "block L t 0 s = [] \<longleftrightarrow> ms t = []" using rd(3) [OF t] by force
  have rem: "remIoSet L t ''.'' s = Inr (if ms t = [] then (False, s) else (True, remove_keys L ?keys s))"
    using rd(5) [OF t] io_run_block [OF rd(1) t, of 0] empty
    by (simp add: remIoSet_def bind_res_def run_of_simps)
  have "fst e \<notin> set ?keys" if u: "u \<in> T" "u \<noteq> t" "e \<in> set (block L u 0 s)" for u e
  proof
    assume "fst e \<in> set ?keys"
    then obtain n where "fst e = onKey t n ''.''" unfolding set_map using block_zero [OF rd(1) t] by auto
    then show False using block_other_key [OF rd(1) u(1,3)] u(2) by blast
  qed
  then have "ioset_rel L T b (remove_keys L ?keys s) (ms(t := []))"
    by (intro ioset_rel_filter [OF r t entries_remove_keys]) (auto simp: filter_empty_conv)
  moreover have "ms(t := []) = ms" if "ms t = []" using that by auto
  ultimately show ?thesis using rem r by (cases "ms t = []") auto
qed

lemma ioset_pin:
  assumes p: "\<not> dup" and r: "ioset_rel L T b s ms" and t: "t \<in> T" and b: "b + length vs < 2 ^ 53"
    and vs: "vs \<noteq> []"
  shows "\<exists>s'. pinIoSetVals L t (Some vs) ''.'' s = Inr (True, s')
    \<and> ioset_rel L T (b + length (asUniqueVals vs)) s' (ms(t := asUniqueVals vs))"
proof -
  let ?u = "asUniqueVals vs"
  note rd = ioset_relD [OF r]
  obtain s1 where s1: "remIoSet L t ''.'' s = Inr (ms t \<noteq> [], s1)" "ioset_rel L T b s1 (ms(t := []))"
    using ioset_rem_all [OF r t] by blast
  have len: "length ?u \<le> length vs"
  proof -
    have "length (unique_loop X vs) \<le> length vs" for X by (induction X vs rule: unique_loop.induct) auto
    then show ?thesis unfolding asUniqueVals_def .
  qed
  have "distinct ?u" using io_put_distinct [of "[]" vs] by (simp add: asUniqueVals_io_put)
  then have "ioset_rel L T (b + length ?u) (put_suffixed L t ''.'' (slot_after 0 (block L t 0 s1)) ?u s1)
      ((ms(t := []))(t := (ms(t := [])) t @ ?u))"
    using b len by (intro ioset_rel_put [OF p s1(2) t]) auto
  moreover have "block L t 0 s1 = []" using ioset_relD(3) [OF s1(2) t] by simp
  moreover have "?u \<noteq> []" using vs by (cases vs) (simp_all add: asUniqueVals_def)
  ultimately show ?thesis
    using rd(5) [OF t] s1(1) by (simp add: pinIoSetVals_def bind_res_def slot_after_def)
qed

lemma ioset_items:
  assumes r: "ioset_rel L T b s ms" and t: "t \<in> T"
  shows "getIoSetItemIter L t 0 ''.'' s = Inr (map (Pair t) (ms t))"
    and "getIoSetLastItem L t ''.'' s = Inr (if ms t = [] then None else Some (t, last (ms t)))"
    and "cntIoSet L t 0 ''.'' s = Inr (length (ms t))"
proof -
  note rd = ioset_relD [OF r]
  show items: "getIoSetItemIter L t 0 ''.'' s = Inr (map (Pair t) (ms t))"
    using rd(5) [OF t] io_run_block [OF rd(1) t, of 0]
    unfolding getIoSetItemIter_def rd(3) [OF t, symmetric]
    by (simp add: bind_res_def run_of_def)
  show "getIoSetLastItem L t ''.'' s = Inr (if ms t = [] then None else Some (t, last (ms t)))"
    by (simp add: getIoSetLastItem_def items bind_res_def last_map)
  show "cntIoSet L t 0 ''.'' s = Inr (length (ms t))"
    using rd(5) [OF t] by (simp add: cntIoSet_def items bind_res_def)
qed

end

text \<open>C26: Insertion-ordered sets. For any engine that keeps the promises of \<open>lmdb_table\<close>, the
  suffixed keys of an effective key are a list without repetition: adding appends a value that
  is not a member, a bulk write adds the new ones in order, pinning replaces the list by the
  distinct values, removing drops the value and keeps the order, and each operation reports
  whether it changed anything; iteration, the last member and the count read the list.\<close>

theorem io_set_refines_list:
  assumes "lmdb_table L False" and "ioset_rel L T b s ms" and "t \<in> T"
    and "b + length vs < 2 ^ 53" and "vs \<noteq> []"
  shows "(\<exists>s'. addIoSetVal L t (Some v) ''.'' s = Inr (v \<notin> set (ms t), s')
         \<and> ioset_rel L T (Suc b) s' (ms(t := io_add v (ms t))))
    \<and> (\<exists>c s'. putIoSetVals L t (Some vs) ''.'' s = Inr (io_put vs (ms t) \<noteq> ms t, s')
         \<and> ioset_rel L T c s' (ms(t := io_put vs (ms t))))
    \<and> (\<exists>c s'. pinIoSetVals L t (Some vs) ''.'' s = Inr (True, s') \<and> ioset_rel L T c s' (ms(t := asUniqueVals vs)))
    \<and> (\<exists>s'. remIoSetVal L t (Some v) ''.'' s = Inr (v \<in> set (ms t), s')
         \<and> ioset_rel L T b s' (ms(t := filter (\<lambda>w. w \<noteq> v) (ms t))))
    \<and> getIoSetItemIter L t 0 ''.'' s = Inr (map (Pair t) (ms t))
    \<and> cntIoSet L t 0 ''.'' s = Inr (length (ms t))"
proof -
  have nf: "\<not> False" by simp
  note nd = lmdb_table.ioset_add [OF assms(1) nf assms(2,3)]
    lmdb_table.ioset_put [OF assms(1) nf assms(2-4)]
    lmdb_table.ioset_pin [OF assms(1) nf assms(2-5)]
    lmdb_table.ioset_rem [OF assms(1) nf assms(2,3)]
  have "Suc b < 2 ^ 53" using assms(4,5) by (cases vs) simp_all
  then show ?thesis
    using nd lmdb_table.ioset_items(1,3) [OF assms(1-3)] by blast
qed

theorem io_set_refines_list_witness:
  "\<exists>s'. putIoSetVals (list_lmdb False) ''a.b'' (Some [''x'', ''y'', ''x'']) ''.'' [] = Inr (True, s')
     \<and> getIoSetItemIter (list_lmdb False) ''a.b'' 0 ''.'' s' = Inr [(''a.b'', ''x''), (''a.b'', ''y'')]"
proof -
  have r: "ioset_rel (list_lmdb False) {''a.b''} 0 [] (\<lambda>_. [])"
    by (simp add: ioset_rel_def keyed_def tops_free_def block_def list_lmdb_entries list_entries_def)
  have m: "io_put [''x'', ''y'', ''x''] [] = [''x'', ''y'']" by (simp add: io_put_def io_add_def)
  obtain c s' where s': "putIoSetVals (list_lmdb False) ''a.b'' (Some [''x'', ''y'', ''x'']) ''.'' [] = Inr (True, s')"
    "ioset_rel (list_lmdb False) {''a.b''} c s' ((\<lambda>_. [])(''a.b'' := [''x'', ''y'']))"
    using io_set_refines_list [OF list_lmdb_table r, of "''a.b''" "[''x'', ''y'', ''x'']" "''x''"]
    unfolding m by auto
  have "getIoSetItemIter (list_lmdb False) ''a.b'' 0 ''.'' s' = Inr [(''a.b'', ''x''), (''a.b'', ''y'')]"
    using plain_table.ioset_items(1) [OF s'(2), of "''a.b''"] by simp
  with s'(1) show ?thesis by blast
qed

end
