(* ===== verification/Times.thy ===== *)
theory Times
  imports Kever
begin

text \<open>
  Time stamps as the escrows compare them: \<open>new Date(text).getTime()\<close> on the extended
  form that \<^verbatim>\<open>keri/src/time/mod.ts\<close> writes and a \<open>Dater\<close> carries
  (date, time to the microsecond, offset; 32 characters). The fraction is cut to milliseconds. A
  text of another form is no time: the comparison is with NaN and is false.
\<close>

definition dec_field :: "string \<Rightarrow> nat \<Rightarrow> nat \<Rightarrow> nat option" where
  "dec_field s i n = (let w = take n (drop i s) in if length w = n then read_radix 10 w else None)"

text \<open>Days from 1970-01-01 in the proleptic Gregorian calendar; the year starts in March.\<close>

definition days_from_civil :: "nat \<Rightarrow> nat \<Rightarrow> nat \<Rightarrow> int" where
  "days_from_civil y m d =
     (let y' = int y - (if m \<le> 2 then 1 else 0)
      in 365 * y' + y' div 4 - y' div 100 + y' div 400
         + int ((153 * ((m + 9) mod 12) + 2) div 5) + int d - 719469)"

definition iso_shape :: "string \<Rightarrow> bool" where
  "iso_shape s \<longleftrightarrow> length s = 32 \<and> s ! 4 = CHR ''-'' \<and> s ! 7 = CHR ''-'' \<and> s ! 10 = CHR ''T''
     \<and> s ! 13 = CHR '':'' \<and> s ! 16 = CHR '':'' \<and> s ! 19 = CHR ''.''
     \<and> (s ! 26 = CHR ''+'' \<or> s ! 26 = CHR ''-'') \<and> s ! 29 = CHR '':''"

definition iso_in_range :: "nat list \<Rightarrow> bool" where
  "iso_in_range v \<longleftrightarrow> 1 \<le> v ! 1 \<and> v ! 1 \<le> 12 \<and> 1 \<le> v ! 2 \<and> v ! 2 \<le> 31
     \<and> (v ! 3 \<le> 23 \<or> v ! 3 = 24 \<and> v ! 4 = 0 \<and> v ! 5 = 0 \<and> v ! 6 = 0) \<and> v ! 4 \<le> 59 \<and> v ! 5 \<le> 59
     \<and> v ! 8 \<le> 23 \<and> v ! 9 \<le> 59"

definition iso_ms :: "string \<Rightarrow> int option" where
  "iso_ms s =
     (if \<not> iso_shape s then None
      else case those [dec_field s 0 4, dec_field s 5 2, dec_field s 8 2, dec_field s 11 2,
                       dec_field s 14 2, dec_field s 17 2, dec_field s 20 3, dec_field s 23 3,
                       dec_field s 27 2, dec_field s 30 2] of
             None \<Rightarrow> None
           | Some v \<Rightarrow>
               if \<not> iso_in_range v then None
               else
                 (let secs = (days_from_civil (v ! 0) (v ! 1) (v ! 2) * 24 + int (v ! 3)) * 3600
                        + int (v ! 4) * 60 + int (v ! 5);
                      off = int (v ! 8 * 60 + v ! 9) * 60000
                  in Some (secs * 1000 + int (v ! 6) + (if s ! 26 = CHR ''-'' then off else - off))))"

text \<open>\<open>Date.now() - new Date(then).getTime() > timeout\<close>, false when either is NaN.\<close>

definition older_than :: "int \<Rightarrow> string \<Rightarrow> string \<Rightarrow> bool" where
  "older_than timeout now stamp =
     (case (iso_ms now, iso_ms stamp) of (Some a, Some b) \<Rightarrow> timeout < a - b | _ \<Rightarrow> False)"

definition newer_than :: "string \<Rightarrow> string \<Rightarrow> bool" where
  "newer_than a b = (case (iso_ms a, iso_ms b) of (Some x, Some y) \<Rightarrow> y < x | _ \<Rightarrow> False)"

lemma newer_than_strict: "\<not> newer_than a a"
  by (simp add: newer_than_def split: option.split)

lemma newer_than_trans: "newer_than a b \<Longrightarrow> newer_than b c \<Longrightarrow> newer_than a c"
  by (auto simp: newer_than_def split: option.splits)

lemma older_than_mono: "older_than t now stamp \<Longrightarrow> t' \<le> t \<Longrightarrow> older_than t' now stamp"
  by (auto simp: older_than_def split: option.splits)

lemma iso_ms_epoch: "iso_ms ''1970-01-01T00:00:00.000000+00:00'' = Some 0"
  by code_simp

lemma iso_ms_sample: "iso_ms ''2021-06-27T21:26:21.233257+00:00'' = Some 1624829181233"
  by code_simp

end
