(* ===== verification/Receipts.thy ===== *)
theory Receipts
  imports Kevery Times
begin

text \<open>
  Receipts of the event processor (\<^verbatim>\<open>keri/src/core/eventing.ts\<close>): live receipt
  messages, receipts attached to replayed events, verification and storage of the three families
  (couples, witness signatures, transferable quadruples), and their escrows. Couples verified
  against a witness of the receipted event become indexed witness signatures. The receipt stores
  hold qb64 texts, as the typed stores serialize their rows. \<open>lax\<close> and \<open>loc\<close> are the
  configuration of the processor.
\<close>

section \<open>Receipt material\<close>

record cigar =
  cg_sig :: matter
  cg_verfer :: "matter option"

definition CIGAR_CODES :: "string list" where
  "CIGAR_CODES = [''0B'', ''0C'', ''0I'', ''1AAE'']"

definition new_cigar :: "matter \<Rightarrow> matter option \<Rightarrow> cigar res" where
  "new_cigar m verfer = bind_res (check_code CIGAR_CODES m) (\<lambda>m. Inr \<lparr>cg_sig = m, cg_verfer = verfer\<rparr>)"

datatype dispatch_ordinal = OrdSeqner matter | OrdNumber matter

definition ordinal_num :: "dispatch_ordinal \<Rightarrow> nat" where
  "ordinal_num n = (case n of OrdSeqner m \<Rightarrow> seqner_sn m | OrdNumber m \<Rightarrow> number_num m)"

definition normalizeSealOrdinal :: "dispatch_ordinal \<Rightarrow> matter res" where
  "normalizeSealOrdinal n =
     (case n of
        OrdNumber m \<Rightarrow> Inr m
      | OrdSeqner m \<Rightarrow> bind_res (parseMatterInit \<lparr>ini_raw = None, ini_code = None,
          ini_qb64b = Some (matter_qb64b m), ini_qb64 = None, ini_qb2 = None\<rparr>) new_number)"

record trans_group =
  tg_prefixer :: matter
  tg_seqner :: dispatch_ordinal
  tg_diger :: matter
  tg_sigers :: "indexer list"

record trans_quadruple =
  tq_prefixer :: matter
  tq_seqner :: dispatch_ordinal
  tq_diger :: matter
  tq_siger :: indexer

record receipt_envelope =
  re_serder :: serder
  re_wigers :: "indexer list"
  re_cigars :: "cigar list"
  re_tsgs :: "trans_group list"
  re_local :: "bool option"

text \<open>The accepted event a receipt is about, with its witnesses.\<close>

record receipted =
  rc_pre :: string
  rc_said :: string
  rc_serder :: serder
  rc_wits :: "string list"

section \<open>Decisions\<close>

datatype escrow_keep =
    KeepMissingReceiptedEvent | KeepMissingReceiptorEstablishment | KeepQueryNotFound
  | KeepUnverifiedReply | KeepRecoverableError

datatype escrow_drop =
    DropMissingDater | DropStale | DropWitnesses witness_reason | DropDuplicateWitnesses
  | DropInvalidWitnessIndex | DropInvalidReceiptSignature | DropInvalidReceiptDigest
  | DropInvalidReceiptedEventReference | DropInvalidReceiptorSeal | DropMissingReceiptorKeys
  | DropReceiptorIndexOutOfRange | DropInvalidReceiptorEstablishment | DropMissingEscrowArtifact
  | DropMissingEscrowedEvent | DropMissingEscrowedEndorsements | DropMalformedEscrowedQuery
  | DropMalformedEscrowedReply | DropProcessingError | DropOuterCorruption

datatype escrow_decision = EdAccept | EdKeep escrow_keep | EdDrop escrow_drop

datatype receipt_escrow = EscrowMissingReceiptedEvent | EscrowMissingReceiptorEstablishment

datatype receipt_drop =
    StaleReceipt | MismatchedReplayEvent | OwnTransferableReceiptorConflict | InvalidReceiptorSeal
  | InvalidReceiptorEstablishment | InvalidReceiptorIndex | InvalidReceiptSignature

datatype receipt_decision = RdAccept | RdIgnore | RdEscrow receipt_escrow | RdDrop receipt_drop

datatype receipt_event = ReAccept receipted | ReEscrow receipt_escrow | ReDrop receipt_drop

datatype own_conflict = OwnEvent | Nonlocal

datatype partial_witnesses = PwAccept "string list" | PwContinue | PwDrop escrow_drop

datatype partial_replay = PrAccept | PrContinue | PrDrop escrow_drop

datatype accepted_lookup = AlAccept receipted | AlKeep escrow_keep | AlDrop escrow_drop

section \<open>Writes\<close>

fun act_each :: "('a \<Rightarrow> unit act) \<Rightarrow> 'a list \<Rightarrow> unit act" where
  "act_each f [] = act_ret ()"
| "act_each f (x # xs) = act_bind (f x) (\<lambda>_. act_each f xs)"

definition rcts_add :: "dg \<Rightarrow> couple_row \<Rightarrow> baser \<Rightarrow> baser" where
  "rcts_add key row db = db\<lparr>db_rcts := (db_rcts db)(key := io_add row (db_rcts db key))\<rparr>"

definition vrcs_add :: "dg \<Rightarrow> quadruple_row \<Rightarrow> baser \<Rightarrow> baser" where
  "vrcs_add key row db = db\<lparr>db_vrcs := (db_vrcs db)(key := io_add row (db_vrcs db key))\<rparr>"

definition wigs_add :: "dg \<Rightarrow> string \<Rightarrow> baser \<Rightarrow> baser" where
  "wigs_add key wig db = db\<lparr>db_wigs := (db_wigs db)(key := io_add wig (db_wigs db key))\<rparr>"

definition uwes_add :: "string \<Rightarrow> nat \<Rightarrow> couple_row \<Rightarrow> baser \<Rightarrow> baser" where
  "uwes_add pre sn row db = db\<lparr>db_uwes := (db_uwes db)(pre := on_add sn row (db_uwes db pre))\<rparr>"

definition uwes_rem :: "string \<Rightarrow> nat \<Rightarrow> couple_row \<Rightarrow> baser \<Rightarrow> baser" where
  "uwes_rem pre sn row db = db\<lparr>db_uwes := (db_uwes db)(pre := on_rem sn row (db_uwes db pre))\<rparr>"

definition ures_add :: "string \<Rightarrow> nat \<Rightarrow> triple_row \<Rightarrow> baser \<Rightarrow> baser" where
  "ures_add pre sn row db = db\<lparr>db_ures := (db_ures db)(pre := on_add sn row (db_ures db pre))\<rparr>"

definition ures_rem :: "string \<Rightarrow> nat \<Rightarrow> triple_row \<Rightarrow> baser \<Rightarrow> baser" where
  "ures_rem pre sn row db = db\<lparr>db_ures := (db_ures db)(pre := on_rem sn row (db_ures db pre))\<rparr>"

definition vres_add :: "string \<Rightarrow> nat \<Rightarrow> quintuple_row \<Rightarrow> baser \<Rightarrow> baser" where
  "vres_add pre sn row db = db\<lparr>db_vres := (db_vres db)(pre := on_add sn row (db_vres db pre))\<rparr>"

definition vres_rem :: "string \<Rightarrow> nat \<Rightarrow> quintuple_row \<Rightarrow> baser \<Rightarrow> baser" where
  "vres_rem pre sn row db = db\<lparr>db_vres := (db_vres db)(pre := on_rem sn row (db_vres db pre))\<rparr>"

text \<open>Every escrow write stamps the escrowed digest with the local time.\<close>

definition pin_escrow_time :: "env \<Rightarrow> dg \<Rightarrow> unit act" where
  "pin_escrow_time en key =
     act_bind (act_lift (dater_of (encodeDateTimeToDater (en_now en)))) (\<lambda>d.
     act_mod (\<lambda>db. db\<lparr>db_dtss := map_pin key d (db_dtss db)\<rparr>))"

section \<open>The receipted event\<close>

definition resolveAcceptedEventWitnesses ::
  "env \<Rightarrow> string \<Rightarrow> string \<Rightarrow> serder \<Rightarrow> string list option act" where
  "resolveAcceptedEventWitnesses en pre said s =
     act_bind (act_get (\<lambda>db. db_wits db (pre, said))) (\<lambda>stored.
     if stored \<noteq> [] then act_ret (Some stored)
     else if sd_ilk s = Some ''icp'' \<or> sd_ilk s = Some ''dip'' then act_ret (Some (serder_backs s))
     else act_bind (getKever en pre) (\<lambda>k. act_ret (map_option kv_wits k)))"

definition decide_target :: "env \<Rightarrow> string \<Rightarrow> string \<Rightarrow> receipt_event act" where
  "decide_target en pre said =
     act_bind (act_get (\<lambda>db. getEvtSerder db pre said)) (\<lambda>found.
     (case found of
        None \<Rightarrow> act_ret (ReDrop StaleReceipt)
      | Some s \<Rightarrow>
          act_bind (resolveAcceptedEventWitnesses en pre said s) (\<lambda>wits.
          act_ret (case wits of
              Some ws \<Rightarrow> ReAccept \<lparr>rc_pre = pre, rc_said = said, rc_serder = s, rc_wits = ws\<rparr>
            | None \<Rightarrow> ReEscrow EscrowMissingReceiptedEvent))))"

definition decideReceiptEvent :: "env \<Rightarrow> string \<Rightarrow> nat \<Rightarrow> string \<Rightarrow> receipt_event act" where
  "decideReceiptEvent en pre sn said =
     act_bind (act_get (\<lambda>db. kels_getLast db pre (int sn))) (\<lambda>accepted.
     if truthy accepted \<and> accepted \<noteq> Some said then act_ret (ReDrop StaleReceipt)
     else if \<not> truthy accepted then act_ret (ReEscrow EscrowMissingReceiptedEvent)
     else decide_target en pre said)"

definition getFel :: "baser \<Rightarrow> string \<Rightarrow> nat \<Rightarrow> string option" where
  "getFel db pre fn = nth_opt (db_fels db pre) (int fn)"

definition resolveReplayReceiptedEvent :: "env \<Rightarrow> serder \<Rightarrow> matter option \<Rightarrow> receipt_event act" where
  "resolveReplayReceiptedEvent en s firner =
     act_bind (act_lift (serder_sn s)) (\<lambda>sn.
     (case sn of
        None \<Rightarrow> act_ret (ReDrop StaleReceipt)
      | Some n \<Rightarrow>
          if \<not> truthy (serder_pre s) \<or> \<not> truthy (sd_said s) then act_ret (ReDrop StaleReceipt)
          else
            (let pre = text_or [] (serder_pre s)
             in act_bind (act_get (\<lambda>db. (case firner of
                    Some f \<Rightarrow> getFel db pre (js_num (number_num f))
                  | None \<Rightarrow> kels_getLast db pre (int n)))) (\<lambda>replay.
                if \<not> truthy replay then act_ret (ReEscrow EscrowMissingReceiptedEvent)
                else
                  act_bind (act_lift (serder_compare s (text_or [] replay))) (\<lambda>same.
                  if \<not> same then act_ret (ReDrop MismatchedReplayEvent)
                  else decide_target en pre (text_or [] replay))))))"

section \<open>Verification and storage\<close>

text \<open>Outside lax mode an own identifier neither receipts its own events nor, from a remote
  source, the events of others.\<close>

definition ownReceiptConflict :: "bool \<Rightarrow> baser \<Rightarrow> string \<Rightarrow> string \<Rightarrow> bool \<Rightarrow> own_conflict option" where
  "ownReceiptConflict lax db receiptedPre receiptorPre loc =
     (if lax \<or> receiptorPre \<notin> set (db_prefixes db) then None
      else if receiptedPre \<in> set (db_prefixes db) then Some OwnEvent
      else if loc then None else Some Nonlocal)"

definition wigerFromCigar :: "cigar \<Rightarrow> nat \<Rightarrow> matter \<Rightarrow> indexer res" where
  "wigerFromCigar c index verfer =
     siger_fromCigar (Some (mt_code verfer)) (mt_raw (cg_sig c)) (int index) None False"

definition promote_cigar :: "dg \<Rightarrow> string list \<Rightarrow> matter \<Rightarrow> cigar \<Rightarrow> unit act" where
  "promote_cigar key wits v c =
     (case index_of wits (mt_qb64 v) of
        Some i \<Rightarrow> act_bind (act_lift (wigerFromCigar c i v)) (\<lambda>w. act_mod (wigs_add key (ix_qb64 w)))
      | None \<Rightarrow> act_bind (act_lift (prefixer_of (mt_qb64 v))) (\<lambda>p.
          act_mod (rcts_add key (mt_qb64 p, mt_qb64 (cg_sig c)))))"

definition store_cigar :: "env \<Rightarrow> bool \<Rightarrow> bool \<Rightarrow> receipted \<Rightarrow> cigar \<Rightarrow> unit act" where
  "store_cigar en lax loc ev c =
     (case cg_verfer c of
        None \<Rightarrow> act_ret ()
      | Some v \<Rightarrow>
          if matter_transferable v then act_ret ()
          else
            act_bind (act_get (\<lambda>db. ownReceiptConflict lax db (rc_pre ev) (mt_qb64 v) loc)) (\<lambda>conflict.
            if conflict \<noteq> None then act_ret ()
            else
              act_bind (act_lift (verfer_verify en v (mt_raw (cg_sig c)) (sd_raw (rc_serder ev)))) (\<lambda>ok.
              if \<not> ok then act_ret () else promote_cigar (rc_pre ev, rc_said ev) (rc_wits ev) v c)))"

definition store_wiger :: "env \<Rightarrow> bool \<Rightarrow> bool \<Rightarrow> receipted \<Rightarrow> indexer \<Rightarrow> unit act" where
  "store_wiger en lax loc ev w =
     (if \<not> truthy (nth_opt (rc_wits ev) (ix_index w)) then act_ret ()
      else
        act_bind (act_lift (verfer_of (text_or [] (nth_opt (rc_wits ev) (ix_index w))))) (\<lambda>v.
        if matter_transferable v then act_ret ()
        else
          act_bind (act_lift (verfer_verify en v (ix_raw w) (sd_raw (rc_serder ev)))) (\<lambda>ok.
          if \<not> ok then act_ret ()
          else
            act_bind (act_get (\<lambda>db. ownReceiptConflict lax db (rc_pre ev) (mt_qb64 v) loc)) (\<lambda>conflict.
            if conflict \<noteq> None then act_ret ()
            else act_bind (act_lift (siger_rebuild w)) (\<lambda>w'.
              act_mod (wigs_add (rc_pre ev, rc_said ev) (ix_qb64 w')))))))"

definition storeVerifiedDetachedReceiptMaterial ::
  "env \<Rightarrow> bool \<Rightarrow> receipted \<Rightarrow> receipt_envelope \<Rightarrow> bool \<Rightarrow> unit act" where
  "storeVerifiedDetachedReceiptMaterial en lax ev envl loc =
     act_bind (act_each (store_cigar en lax loc ev) (re_cigars envl)) (\<lambda>_.
     act_each (store_wiger en lax loc ev) (re_wigers envl))"

definition store_quadruple ::
  "receipted \<Rightarrow> matter \<Rightarrow> dispatch_ordinal \<Rightarrow> matter \<Rightarrow> indexer \<Rightarrow> unit act" where
  "store_quadruple ev prefixer seqner diger siger =
     act_bind (act_lift (normalizeSealOrdinal seqner)) (\<lambda>n.
     act_bind (act_lift (siger_rebuild siger)) (\<lambda>s.
     act_mod (vrcs_add (rc_pre ev, rc_said ev) (mt_qb64 prefixer, mt_qb64 n, mt_qb64 diger, ix_qb64 s))))"

text \<open>The keys of the receiptor's establishment event; a missing event has none.\<close>

definition establishment_verfers :: "string \<Rightarrow> string \<Rightarrow> matter list act" where
  "establishment_verfers pre said =
     act_read (\<lambda>db. (case getEvtSerder db pre said of None \<Rightarrow> Inr [] | Some s \<Rightarrow> serder_verfers s))"

definition processVerifiedTransferableReceiptQuadruple ::
  "env \<Rightarrow> bool \<Rightarrow> receipted \<Rightarrow> matter \<Rightarrow> dispatch_ordinal \<Rightarrow> matter \<Rightarrow> indexer \<Rightarrow> bool \<Rightarrow> bool
    \<Rightarrow> receipt_decision act" where
  "processVerifiedTransferableReceiptQuadruple en lax ev prefixer seqner diger siger loc ignore =
     act_bind (act_get (\<lambda>db. ownReceiptConflict lax db (rc_pre ev) (mt_qb64 prefixer) loc)) (\<lambda>conflict.
     if conflict \<noteq> None then act_ret (RdDrop OwnTransferableReceiptorConflict)
     else
       act_bind (act_get (\<lambda>db. kels_getLast db (mt_qb64 prefixer) (int (js_num (ordinal_num seqner)))))
         (\<lambda>est.
       if \<not> truthy est then act_ret (RdEscrow EscrowMissingReceiptorEstablishment)
       else if est \<noteq> Some (mt_qb64 diger) then act_ret (RdDrop InvalidReceiptorSeal)
       else
         act_bind (establishment_verfers (mt_qb64 prefixer) (mt_qb64 diger)) (\<lambda>verfers.
         if verfers = [] then act_ret (RdDrop InvalidReceiptorEstablishment)
         else if int (length verfers) \<le> ix_index siger then act_ret (RdDrop InvalidReceiptorIndex)
         else
           (case nth_opt verfers (ix_index siger) of
              None \<Rightarrow> act_ret (RdDrop InvalidReceiptorEstablishment)
            | Some v \<Rightarrow>
                act_bind (act_lift (verfer_verify en v (ix_raw siger) (sd_raw (rc_serder ev)))) (\<lambda>ok.
                if \<not> ok then act_ret (if ignore then RdIgnore else RdDrop InvalidReceiptSignature)
                else act_bind (store_quadruple ev prefixer seqner diger siger) (\<lambda>_. act_ret RdAccept))))))"

fun group_loop ::
  "env \<Rightarrow> bool \<Rightarrow> receipted \<Rightarrow> trans_group \<Rightarrow> bool \<Rightarrow> bool \<Rightarrow> indexer list \<Rightarrow> receipt_decision act" where
  "group_loop en lax ev tsg loc stored [] = act_ret (if stored then RdAccept else RdIgnore)"
| "group_loop en lax ev tsg loc stored (s # ss) =
     act_bind (processVerifiedTransferableReceiptQuadruple en lax ev (tg_prefixer tsg) (tg_seqner tsg)
       (tg_diger tsg) s loc True) (\<lambda>d.
     (case d of
        RdAccept \<Rightarrow> group_loop en lax ev tsg loc True ss
      | RdIgnore \<Rightarrow> group_loop en lax ev tsg loc stored ss
      | _ \<Rightarrow> act_ret d))"

definition processVerifiedTransferableReceiptGroup ::
  "env \<Rightarrow> bool \<Rightarrow> receipted \<Rightarrow> trans_group \<Rightarrow> bool \<Rightarrow> receipt_decision act" where
  "processVerifiedTransferableReceiptGroup en lax ev tsg loc =
     group_loop en lax ev tsg loc False (tg_sigers tsg)"

section \<open>Escrow\<close>

definition escrow_key :: "serder \<Rightarrow> (string \<times> nat) option res" where
  "escrow_key s =
     bind_res (serder_sn s) (\<lambda>sn.
     Inr (case sn of
            Some n \<Rightarrow> if truthy (serder_pre s) then Some (text_or [] (serder_pre s), n) else None
          | None \<Rightarrow> None))"

definition escrowUWReceipt :: "env \<Rightarrow> serder \<Rightarrow> indexer list \<Rightarrow> string \<Rightarrow> unit act" where
  "escrowUWReceipt en s wigers said =
     act_bind (act_lift (escrow_key s)) (\<lambda>key.
     (case key of
        None \<Rightarrow> act_ret ()
      | Some (pre, sn) \<Rightarrow>
          act_bind (pin_escrow_time en (pre, said)) (\<lambda>_.
          act_each (\<lambda>w. act_mod (uwes_add pre sn (said, ix_qb64 w))) wigers)))"

definition escrow_ure :: "string \<Rightarrow> nat \<Rightarrow> string \<Rightarrow> cigar \<Rightarrow> unit act" where
  "escrow_ure pre sn said c =
     (case cg_verfer c of
        None \<Rightarrow> act_ret ()
      | Some v \<Rightarrow>
          if matter_transferable v then act_ret ()
          else
            act_bind (act_lift (diger_of said)) (\<lambda>d.
            act_bind (act_lift (prefixer_of (mt_qb64 v))) (\<lambda>p.
            act_mod (ures_add pre sn (mt_qb64 d, mt_qb64 p, mt_qb64 (cg_sig c))))))"

definition escrowUReceipt :: "env \<Rightarrow> serder \<Rightarrow> cigar list \<Rightarrow> string \<Rightarrow> unit act" where
  "escrowUReceipt en s cigars said =
     act_bind (act_lift (escrow_key s)) (\<lambda>key.
     (case key of
        None \<Rightarrow> act_ret ()
      | Some (pre, sn) \<Rightarrow>
          act_bind (pin_escrow_time en (pre, said)) (\<lambda>_. act_each (escrow_ure pre sn said) cigars)))"

definition escrow_vre ::
  "string \<Rightarrow> nat \<Rightarrow> string \<Rightarrow> matter \<Rightarrow> dispatch_ordinal \<Rightarrow> matter \<Rightarrow> indexer \<Rightarrow> unit act" where
  "escrow_vre pre sn said prefixer seqner diger siger =
     act_bind (act_lift (diger_of said)) (\<lambda>d.
     act_bind (act_lift (normalizeSealOrdinal seqner)) (\<lambda>n.
     act_mod (vres_add pre sn
       (mt_qb64 d, mt_qb64 prefixer, mt_qb64 n, mt_qb64 diger, ix_qb64 siger))))"

text \<open>The three writers of transferable rows share their guard and their time stamp.\<close>

definition escrow_trans :: "env \<Rightarrow> serder \<Rightarrow> (string \<Rightarrow> nat \<Rightarrow> string \<Rightarrow> unit act) \<Rightarrow> unit act" where
  "escrow_trans en s rows =
     act_bind (act_lift (escrow_key s)) (\<lambda>key.
     (case key of
        None \<Rightarrow> act_ret ()
      | Some (pre, sn) \<Rightarrow>
          if \<not> truthy (sd_said s) then act_ret ()
          else act_bind (pin_escrow_time en (pre, text_or [] (sd_said s))) (\<lambda>_.
            rows pre sn (text_or [] (sd_said s)))))"

definition escrowTRGroups :: "env \<Rightarrow> serder \<Rightarrow> trans_group list \<Rightarrow> unit act" where
  "escrowTRGroups en s tsgs =
     escrow_trans en s (\<lambda>pre sn said.
       act_each (\<lambda>tsg. act_each (escrow_vre pre sn said (tg_prefixer tsg) (tg_seqner tsg) (tg_diger tsg))
         (tg_sigers tsg)) tsgs)"

definition escrowTReceipts ::
  "env \<Rightarrow> serder \<Rightarrow> matter \<Rightarrow> dispatch_ordinal \<Rightarrow> matter \<Rightarrow> indexer list \<Rightarrow> unit act" where
  "escrowTReceipts en s prefixer seqner diger sigers =
     escrow_trans en s (\<lambda>pre sn said. act_each (escrow_vre pre sn said prefixer seqner diger) sigers)"

definition escrowTRQuadruple ::
  "env \<Rightarrow> serder \<Rightarrow> matter \<Rightarrow> dispatch_ordinal \<Rightarrow> matter \<Rightarrow> indexer \<Rightarrow> unit act" where
  "escrowTRQuadruple en s prefixer seqner diger siger =
     escrow_trans en s (\<lambda>pre sn said. escrow_vre pre sn said prefixer seqner diger siger)"

definition escrowMissingReceiptedEvent :: "env \<Rightarrow> receipt_envelope \<Rightarrow> string \<Rightarrow> unit act" where
  "escrowMissingReceiptedEvent en envl said =
     (let s = re_serder envl
      in act_bind (if re_cigars envl \<noteq> [] then escrowUReceipt en s (re_cigars envl) said else act_ret ())
           (\<lambda>_.
         act_bind (if re_tsgs envl \<noteq> [] then escrowTRGroups en s (re_tsgs envl) else act_ret ()) (\<lambda>_.
         if re_wigers envl \<noteq> [] then escrowUWReceipt en s (re_wigers envl) said else act_ret ())))"

section \<open>Messages\<close>

fun process_groups ::
  "env \<Rightarrow> bool \<Rightarrow> bool \<Rightarrow> serder \<Rightarrow> receipted \<Rightarrow> trans_group list \<Rightarrow> unit act" where
  "process_groups en lax loc s ev [] = act_ret ()"
| "process_groups en lax loc s ev (tsg # tsgs) =
     act_bind (processVerifiedTransferableReceiptGroup en lax ev tsg loc) (\<lambda>d.
     (case d of
        RdAccept \<Rightarrow> process_groups en lax loc s ev tsgs
      | RdIgnore \<Rightarrow> process_groups en lax loc s ev tsgs
      | RdEscrow _ \<Rightarrow>
          escrowTReceipts en s (tg_prefixer tsg) (tg_seqner tsg) (tg_diger tsg) (tg_sigers tsg)
      | RdDrop _ \<Rightarrow> act_ret ()))"

definition processReceipt :: "env \<Rightarrow> bool \<Rightarrow> bool \<Rightarrow> receipt_envelope \<Rightarrow> cue list act" where
  "processReceipt en lax loc envl =
     (let s = re_serder envl; l = (case re_local envl of Some b \<Rightarrow> b | None \<Rightarrow> loc)
      in act_bind (act_lift (serder_sn s)) (\<lambda>sn.
         (case sn of
            None \<Rightarrow> act_ret [CueInvalid s]
          | Some n \<Rightarrow>
              if \<not> truthy (serder_pre s) \<or> \<not> truthy (sd_said s) then act_ret [CueInvalid s]
              else
                act_bind (decideReceiptEvent en (text_or [] (serder_pre s)) n (text_or [] (sd_said s)))
                  (\<lambda>d.
                (case d of
                   ReDrop _ \<Rightarrow> act_ret []
                 | ReEscrow _ \<Rightarrow>
                     act_bind (escrowMissingReceiptedEvent en envl (text_or [] (sd_said s)))
                       (\<lambda>_. act_ret [])
                 | ReAccept ev \<Rightarrow>
                     act_bind (storeVerifiedDetachedReceiptMaterial en lax ev envl l) (\<lambda>_.
                     act_bind (process_groups en lax l s ev (re_tsgs envl)) (\<lambda>_. act_ret [])))))))"

definition processAttachedReceiptCouples ::
  "env \<Rightarrow> bool \<Rightarrow> bool \<Rightarrow> serder \<Rightarrow> cigar list \<Rightarrow> matter option \<Rightarrow> bool option \<Rightarrow> unit act" where
  "processAttachedReceiptCouples en lax loc s cigars firner isLocal =
     (if cigars = [] \<or> \<not> truthy (serder_pre s) \<or> \<not> truthy (sd_said s) then act_ret ()
      else
        (let l = (case isLocal of Some b \<Rightarrow> b | None \<Rightarrow> loc)
         in act_bind (resolveReplayReceiptedEvent en s firner) (\<lambda>d.
            (case d of
               ReDrop _ \<Rightarrow> act_ret ()
             | ReEscrow _ \<Rightarrow> escrowUReceipt en s cigars (text_or [] (sd_said s))
             | ReAccept ev \<Rightarrow>
                 storeVerifiedDetachedReceiptMaterial en lax ev
                   \<lparr>re_serder = s, re_wigers = [], re_cigars = cigars, re_tsgs = [],
                    re_local = Some l\<rparr> l))))"

definition attached_quadruple ::
  "env \<Rightarrow> bool \<Rightarrow> bool \<Rightarrow> serder \<Rightarrow> receipted \<Rightarrow> trans_quadruple \<Rightarrow> unit act" where
  "attached_quadruple en lax l s ev q =
     act_bind (processVerifiedTransferableReceiptQuadruple en lax ev (tq_prefixer q) (tq_seqner q)
       (tq_diger q) (tq_siger q) l False) (\<lambda>d.
     (case d of
        RdEscrow _ \<Rightarrow> escrowTRQuadruple en s (tq_prefixer q) (tq_seqner q) (tq_diger q) (tq_siger q)
      | _ \<Rightarrow> act_ret ()))"

definition processAttachedReceiptQuadruples ::
  "env \<Rightarrow> bool \<Rightarrow> bool \<Rightarrow> serder \<Rightarrow> trans_quadruple list \<Rightarrow> matter option \<Rightarrow> bool option \<Rightarrow> unit act" where
  "processAttachedReceiptQuadruples en lax loc s trqs firner isLocal =
     (if trqs = [] \<or> \<not> truthy (serder_pre s) \<or> \<not> truthy (sd_said s) then act_ret ()
      else
        (let l = (case isLocal of Some b \<Rightarrow> b | None \<Rightarrow> loc)
         in act_bind (resolveReplayReceiptedEvent en s firner) (\<lambda>d.
            (case d of
               ReDrop _ \<Rightarrow> act_ret ()
             | ReEscrow _ \<Rightarrow>
                 act_each (\<lambda>q. escrowTRQuadruple en s (tq_prefixer q) (tq_seqner q) (tq_diger q)
                   (tq_siger q)) trqs
             | ReAccept ev \<Rightarrow> act_each (attached_quadruple en lax l s ev) trqs))))"

end
