(* ===== verification/ReceiptEscrows.thy ===== *)
theory ReceiptEscrows
  imports Receipts
begin

text \<open>
  Replay of receipt escrows (\<^verbatim>\<open>keri/src/core/eventing.ts\<close>): one pass over each
  family reads its rows, tries every row against events waiting for witnesses or against the
  accepted event, and removes a row that was accepted or found invalid. \<open>pres\<close> are the
  identifiers that have rows, in key order. Rows are read before any of them is replayed.
\<close>

section \<open>Rows\<close>

definition cigar_of :: "string \<Rightarrow> matter option \<Rightarrow> cigar res" where
  "cigar_of s verfer = bind_res (matter_of_qb64 s) (\<lambda>m. new_cigar m verfer)"

definition number_of :: "string \<Rightarrow> matter res" where
  "number_of s = bind_res (matter_of_qb64 s) new_number"

definition triple_of :: "triple_row \<Rightarrow> (matter \<times> matter \<times> cigar) res" where
  "triple_of row =
     (case row of (d, p, c) \<Rightarrow>
        bind_res (diger_of d) (\<lambda>d. bind_res (prefixer_of p) (\<lambda>p.
        bind_res (cigar_of c None) (\<lambda>c. Inr (d, p, c)))))"

definition quintuple_of :: "quintuple_row \<Rightarrow> (matter \<times> matter \<times> matter \<times> matter \<times> indexer) res" where
  "quintuple_of row =
     (case row of (d, p, n, e, s) \<Rightarrow>
        bind_res (diger_of d) (\<lambda>d. bind_res (prefixer_of p) (\<lambda>p. bind_res (number_of n) (\<lambda>n.
        bind_res (diger_of e) (\<lambda>e. bind_res (siger_of s) (\<lambda>s. Inr (d, p, n, e, s)))))))"

definition log_rows :: "(string \<Rightarrow> 'v olog) \<Rightarrow> string list \<Rightarrow> (string \<times> nat \<times> 'v) list" where
  "log_rows f pres = concat (map (\<lambda>pre. map (\<lambda>(n, row). (pre, n, row)) (on_items (f pre))) pres)"

definition TimeoutUWE :: int where "TimeoutUWE = 3600000"
definition TimeoutURE :: int where "TimeoutURE = 3600000"
definition TimeoutVRE :: int where "TimeoutVRE = 3600000"
definition TimeoutQNF :: int where "TimeoutQNF = 300000"

section \<open>One row\<close>

definition escrowReplayExpiry :: "env \<Rightarrow> string \<Rightarrow> string \<Rightarrow> int \<Rightarrow> escrow_drop option act" where
  "escrowReplayExpiry en pre said timeout =
     act_bind (act_get (\<lambda>db. db_dtss db (pre, said))) (\<lambda>dater.
     (case dater of
        None \<Rightarrow> act_ret (Some DropMissingDater)
      | Some d \<Rightarrow>
          act_bind (act_lift (dater_iso8601 d)) (\<lambda>stamp.
          act_ret (if older_than timeout (en_now en) stamp then Some DropStale else None))))"

definition lookupAcceptedReceiptedEvent :: "env \<Rightarrow> string \<Rightarrow> nat \<Rightarrow> string \<Rightarrow> accepted_lookup act" where
  "lookupAcceptedReceiptedEvent en pre sn said =
     act_bind (act_get (\<lambda>db. kels_getLast db pre (int sn))) (\<lambda>accepted.
     if \<not> truthy accepted then act_ret (AlKeep KeepMissingReceiptedEvent)
     else if accepted \<noteq> Some said then act_ret (AlDrop DropInvalidReceiptDigest)
     else
       act_bind (act_get (\<lambda>db. getEvtSerder db pre said)) (\<lambda>found.
       (case found of
          None \<Rightarrow> act_ret (AlDrop DropInvalidReceiptedEventReference)
        | Some s \<Rightarrow>
            act_bind (resolveAcceptedEventWitnesses en pre said s) (\<lambda>wits.
            act_ret (case wits of
                Some ws \<Rightarrow> AlAccept \<lparr>rc_pre = pre, rc_said = said, rc_serder = s, rc_wits = ws\<rparr>
              | None \<Rightarrow> AlKeep KeepMissingReceiptedEvent)))))"

text \<open>The witness list of an event that still waits for witnesses, from the event itself and the
  current key state.\<close>

definition resolvePartialWitnessEscrowWitnesses :: "env \<Rightarrow> serder \<Rightarrow> partial_witnesses act" where
  "resolvePartialWitnessEscrowWitnesses en s =
     (if sd_ilk s = Some ''icp'' \<or> sd_ilk s = Some ''dip'' then
        act_ret (if hasUniqueWitnesses (serder_backs s) then PwAccept (serder_backs s)
                 else PwDrop DropDuplicateWitnesses)
      else
        act_bind (getKever en (text_or [] (serder_pre s))) (\<lambda>k.
        act_ret
          (if sd_ilk s = Some ''rot'' \<or> sd_ilk s = Some ''drt'' then
             (case k of
                None \<Rightarrow> PwContinue
              | Some k \<Rightarrow>
                  (case deriveRotatedWitnessSet (kv_wits k) (serder_cuts s) (serder_adds s) of
                     Inr derived \<Rightarrow> PwAccept (dw_wits derived)
                   | Inl reason \<Rightarrow> PwDrop (DropWitnesses reason)))
           else (case k of None \<Rightarrow> PwDrop DropProcessingError | Some k \<Rightarrow> PwAccept (kv_wits k)))))"

text \<open>The material of a row: an indexed witness signature, or a detached signature.\<close>

type_synonym receipt_material = "indexer + cigar"

definition promote_wiger :: "env \<Rightarrow> dg \<Rightarrow> serder \<Rightarrow> string list \<Rightarrow> indexer \<Rightarrow> partial_replay act" where
  "promote_wiger en key s wits w =
     (if \<not> truthy (nth_opt wits (ix_index w)) then act_ret (PrDrop DropInvalidWitnessIndex)
      else
        act_bind (act_lift (verfer_of (text_or [] (nth_opt wits (ix_index w))))) (\<lambda>v.
        act_bind (act_lift (verfer_verify en v (ix_raw w) (sd_raw s))) (\<lambda>ok.
        if \<not> ok then act_ret (PrDrop DropInvalidReceiptSignature)
        else
          act_bind (act_lift (siger_rebuild w)) (\<lambda>w'.
          act_bind (act_mod (wigs_add key (ix_qb64 w'))) (\<lambda>_. act_ret PrAccept)))))"

definition promote_detached :: "env \<Rightarrow> dg \<Rightarrow> serder \<Rightarrow> nat \<Rightarrow> matter \<Rightarrow> cigar \<Rightarrow> partial_replay act" where
  "promote_detached en key s i v c =
     act_bind (act_lift (verfer_verify en v (mt_raw (cg_sig c)) (sd_raw s))) (\<lambda>ok.
     if \<not> ok then act_ret (PrDrop DropInvalidReceiptSignature)
     else
       act_bind (act_lift (wigerFromCigar c i v)) (\<lambda>w.
       act_bind (act_mod (wigs_add key (ix_qb64 w))) (\<lambda>_. act_ret PrAccept)))"

fun find_unver ::
  "env \<Rightarrow> string \<Rightarrow> string \<Rightarrow> receipt_material \<Rightarrow> string list \<Rightarrow> partial_replay act" where
  "find_unver en pre said mat [] = act_ret PrContinue"
| "find_unver en pre said mat (cand # cands) =
     (if cand \<noteq> said then find_unver en pre said mat cands
      else
        act_bind (act_get (\<lambda>db. getEvtSerder db pre cand)) (\<lambda>found.
        (case found of
           None \<Rightarrow> act_ret (PrDrop DropMissingEscrowedEvent)
         | Some s \<Rightarrow>
             act_bind (resolvePartialWitnessEscrowWitnesses en s) (\<lambda>state.
             (case state of
                PwContinue \<Rightarrow> act_ret PrContinue
              | PwDrop r \<Rightarrow> act_ret (PrDrop r)
              | PwAccept wits \<Rightarrow>
                  (let key = (pre, text_or said (sd_said s))
                   in case mat of
                        Inl w \<Rightarrow> promote_wiger en key s wits w
                      | Inr c \<Rightarrow>
                          (case cg_verfer c of
                             None \<Rightarrow> act_ret (PrDrop DropMissingEscrowArtifact)
                           | Some v \<Rightarrow>
                               if mt_qb64 v = [] then act_ret (PrDrop DropMissingEscrowArtifact)
                               else
                                 (case index_of wits (mt_qb64 v) of
                                    None \<Rightarrow> find_unver en pre said mat cands
                                  | Some i \<Rightarrow> promote_detached en key s i v c))))))))"

definition processEscrowFindUnver ::
  "env \<Rightarrow> string \<Rightarrow> nat \<Rightarrow> string \<Rightarrow> receipt_material \<Rightarrow> partial_replay act" where
  "processEscrowFindUnver en pre sn said mat =
     act_bind (act_get (\<lambda>db. on_get sn (db_pwes db pre))) (find_unver en pre said mat)"

definition reprocessEscrowedWitnessReceipt ::
  "env \<Rightarrow> string \<Rightarrow> nat \<Rightarrow> string \<Rightarrow> indexer \<Rightarrow> escrow_decision act" where
  "reprocessEscrowedWitnessReceipt en pre sn said w =
     act_bind (escrowReplayExpiry en pre said TimeoutUWE) (\<lambda>expiry.
     (case expiry of
        Some r \<Rightarrow> act_ret (EdDrop r)
      | None \<Rightarrow>
          act_bind (processEscrowFindUnver en pre sn said (Inl w)) (\<lambda>d.
          act_ret (case d of
              PrAccept \<Rightarrow> EdAccept
            | PrDrop r \<Rightarrow> EdDrop r
            | PrContinue \<Rightarrow> EdKeep KeepMissingReceiptedEvent))))"

definition accept_detached :: "env \<Rightarrow> receipted \<Rightarrow> matter \<Rightarrow> cigar \<Rightarrow> escrow_decision act" where
  "accept_detached en ev v c =
     act_bind (act_lift (verfer_verify en v (mt_raw (cg_sig c)) (sd_raw (rc_serder ev)))) (\<lambda>ok.
     if \<not> ok then act_ret (EdDrop DropInvalidReceiptSignature)
     else act_bind (promote_cigar (rc_pre ev, rc_said ev) (rc_wits ev) v c) (\<lambda>_. act_ret EdAccept))"

definition reprocessEscrowedNonTransReceipt ::
  "env \<Rightarrow> string \<Rightarrow> nat \<Rightarrow> matter \<Rightarrow> cigar \<Rightarrow> escrow_decision act" where
  "reprocessEscrowedNonTransReceipt en pre sn diger c =
     (let said = mt_qb64 diger
      in act_bind (escrowReplayExpiry en pre said TimeoutURE) (\<lambda>expiry.
         (case expiry of
            Some r \<Rightarrow> act_ret (EdDrop r)
          | None \<Rightarrow>
              (case cg_verfer c of
                 None \<Rightarrow> act_ret (EdDrop DropMissingEscrowArtifact)
               | Some v \<Rightarrow>
                   act_bind (processEscrowFindUnver en pre sn said (Inr c)) (\<lambda>d.
                   (case d of
                      PrAccept \<Rightarrow> act_ret EdAccept
                    | PrDrop r \<Rightarrow> act_ret (EdDrop r)
                    | PrContinue \<Rightarrow>
                        act_bind (lookupAcceptedReceiptedEvent en pre sn said) (\<lambda>l.
                        (case l of
                           AlKeep r \<Rightarrow> act_ret (EdKeep r)
                         | AlDrop r \<Rightarrow> act_ret (EdDrop r)
                         | AlAccept ev \<Rightarrow> accept_detached en ev v c))))))))"

text \<open>A row of the index too low to name a key has no verifier to call.\<close>

definition accept_quadruple ::
  "env \<Rightarrow> receipted \<Rightarrow> matter \<Rightarrow> matter \<Rightarrow> matter \<Rightarrow> indexer \<Rightarrow> matter list \<Rightarrow> escrow_decision act" where
  "accept_quadruple en ev prefixer snumber ssaider siger verfers =
     (if verfers = [] then act_ret (EdDrop DropMissingReceiptorKeys)
      else if int (length verfers) \<le> ix_index siger then act_ret (EdDrop DropReceiptorIndexOutOfRange)
      else
        act_bind (act_lift (of_opt JsError (nth_opt verfers (ix_index siger)))) (\<lambda>v.
        act_bind (act_lift (verfer_verify en v (ix_raw siger) (sd_raw (rc_serder ev)))) (\<lambda>ok.
        if \<not> ok then act_ret (EdDrop DropInvalidReceiptSignature)
        else
          act_bind (store_quadruple ev prefixer (OrdNumber snumber) ssaider siger)
            (\<lambda>_. act_ret EdAccept))))"

definition reprocessEscrowedTransferableReceipt ::
  "env \<Rightarrow> string \<Rightarrow> nat \<Rightarrow> matter \<times> matter \<times> matter \<times> matter \<times> indexer \<Rightarrow> escrow_decision act" where
  "reprocessEscrowedTransferableReceipt en pre sn quintuple =
     (case quintuple of (receiptedDiger, prefixer, snumber, ssaider, siger) \<Rightarrow>
        let said = mt_qb64 receiptedDiger
        in act_bind (escrowReplayExpiry en pre said TimeoutVRE) (\<lambda>expiry.
           (case expiry of
              Some r \<Rightarrow> act_ret (EdDrop r)
            | None \<Rightarrow>
                act_bind (lookupAcceptedReceiptedEvent en pre sn said) (\<lambda>l.
                (case l of
                   AlKeep r \<Rightarrow> act_ret (EdKeep r)
                 | AlDrop r \<Rightarrow> act_ret (EdDrop r)
                 | AlAccept ev \<Rightarrow>
                     act_bind (act_get (\<lambda>db. kels_getLast db (mt_qb64 prefixer) (int (ordinalNumber snumber))))
                       (\<lambda>est.
                     if \<not> truthy est then act_ret (EdKeep KeepMissingReceiptorEstablishment)
                     else if est \<noteq> Some (mt_qb64 ssaider) then act_ret (EdDrop DropInvalidReceiptorSeal)
                     else
                       act_bind (act_get (\<lambda>db. getEvtSerder db (mt_qb64 prefixer) (mt_qb64 ssaider))) (\<lambda>found.
                       (case found of
                          None \<Rightarrow> act_ret (EdDrop DropInvalidReceiptorEstablishment)
                        | Some e \<Rightarrow>
                            act_bind (act_lift (serder_verfers e))
                              (accept_quadruple en ev prefixer snumber ssaider siger)))))))))"

section \<open>Passes\<close>

text \<open>What a pass does with the decision on a row.\<close>

definition settle_row :: "(baser \<Rightarrow> baser) \<Rightarrow> escrow_decision \<Rightarrow> unit act" where
  "settle_row remove d = (case d of EdKeep _ \<Rightarrow> act_ret () | _ \<Rightarrow> act_mod remove)"

definition uwe_row :: "env \<Rightarrow> string \<times> nat \<times> couple_row \<Rightarrow> unit act" where
  "uwe_row en r =
     (case r of (pre, sn, said, wig) \<Rightarrow>
        if pre = [] \<or> said = [] \<or> wig = [] then act_ret ()
        else
          act_bind (act_lift (siger_of wig)) (\<lambda>w.
          act_bind (reprocessEscrowedWitnessReceipt en pre sn said w)
            (settle_row (uwes_rem pre sn (said, wig)))))"

definition processEscrowUnverWitness :: "env \<Rightarrow> string list \<Rightarrow> unit act" where
  "processEscrowUnverWitness en pres =
     act_bind (act_get (\<lambda>db. log_rows (db_uwes db) pres)) (act_each (uwe_row en))"

definition ure_row :: "env \<Rightarrow> string \<times> nat \<times> matter \<times> matter \<times> cigar \<Rightarrow> unit act" where
  "ure_row en r =
     (case r of (pre, sn, d, p, c) \<Rightarrow>
        if pre = [] then act_ret ()
        else
          act_bind (act_lift (verfer_of (mt_qb64 p))) (\<lambda>v.
          act_bind (act_lift (new_cigar (cg_sig c) (Some v))) (\<lambda>hydrated.
          act_bind (reprocessEscrowedNonTransReceipt en pre (js_num sn) d hydrated)
            (settle_row (ures_rem pre sn (mt_qb64 d, mt_qb64 p, mt_qb64 (cg_sig c)))))))"

definition hydrate_row :: "('a \<Rightarrow> 'b res) \<Rightarrow> string \<times> nat \<times> 'a \<Rightarrow> (string \<times> nat \<times> 'b) res" where
  "hydrate_row f r = (case r of (pre, sn, row) \<Rightarrow> bind_res (f row) (\<lambda>x. Inr (pre, sn, x)))"

definition processEscrowUnverNonTrans :: "env \<Rightarrow> string list \<Rightarrow> unit act" where
  "processEscrowUnverNonTrans en pres =
     act_bind (act_read (\<lambda>db. map_res (hydrate_row triple_of) (log_rows (db_ures db) pres)))
       (act_each (ure_row en))"

definition vre_row :: "env \<Rightarrow> string \<times> nat \<times> matter \<times> matter \<times> matter \<times> matter \<times> indexer \<Rightarrow> unit act" where
  "vre_row en r =
     (case r of (pre, sn, d, p, n, e, s) \<Rightarrow>
        if pre = [] then act_ret ()
        else
          act_bind (reprocessEscrowedTransferableReceipt en pre (js_num sn) (d, p, n, e, s))
            (settle_row (vres_rem pre sn
               (mt_qb64 d, mt_qb64 p, mt_qb64 n, mt_qb64 e, ix_qb64 s))))"

definition processEscrowUnverTrans :: "env \<Rightarrow> string list \<Rightarrow> unit act" where
  "processEscrowUnverTrans en pres =
     act_bind (act_read (\<lambda>db. map_res (hydrate_row quintuple_of) (log_rows (db_vres db) pres)))
       (act_each (vre_row en))"

end
