(* ===== verification/Cloning.thy ===== *)
theory Cloning
  imports ReceiptEscrows GroupDispatch
begin

text \<open>
  Replay of stored events (\<^verbatim>\<open>keri/src/db/basing.ts\<close>): the refreshed lookup of a live machine,
  the search for sealing events, and the rebuilding of an accepted event as a message with its
  attachments, one event, the log of an identifier, the chain of its delegators. Rebuilding only
  reads the stores. The lemmas show that the attachments of a rebuilt message are read back by the
  attachment parser as the groups that were stored.
\<close>

section \<open>Live machines\<close>

text \<open>With \<open>refresh\<close> a stored state replaces a live machine that is at another event.\<close>

definition getKever_refresh :: "env \<Rightarrow> string \<Rightarrow> kever option act" where
  "getKever_refresh en pre db =
     (let reload = (\<lambda>st. bind_res (kever_reload en db st) (\<lambda>k.
            Inr (Some k, db\<lparr>db_kevers := (db_kevers db)(pre := Some k)\<rparr>)))
      in case getState db pre of
           None \<Rightarrow> Inr (db_kevers db pre, db)
         | Some st \<Rightarrow>
             (case db_kevers db pre of
                Some k \<Rightarrow> if ks_d st = kever_said k then Inr (Some k, db) else reload st
              | None \<Rightarrow> reload st))"

section \<open>Sealing events\<close>

text \<open>The stored events of a log from a sequence number on, superseded ones included.\<close>

definition getEvtPreIter :: "baser \<Rightarrow> string \<Rightarrow> nat \<Rightarrow> serder list" where
  "getEvtPreIter db pre sn =
     List.map_filter (\<lambda>(n, said). getEvtSerder db pre said)
       (filter (\<lambda>(n, said). sn \<le> n) (on_items (db_kels db pre)))"

definition normalizeSeal :: "jvalue \<Rightarrow> (matter \<times> matter \<times> matter) option" where
  "normalizeSeal v =
     (if \<not> clan_matches v ClanEvent then None
      else (case seal_fromSad ClanEvent v of Inr (SealEvent i s d) \<Rightarrow> Some (i, s, d) | _ \<Rightarrow> None))"

fun all_sealing :: "env \<Rightarrow> matter \<times> matter \<times> matter \<Rightarrow> serder list \<Rightarrow> serder option act" where
  "all_sealing en target [] = act_ret None"
| "all_sealing en target (s # ss) =
     act_bind (act_lift (serder_eventSeals s)) (\<lambda>seals.
     if \<not> list_ex (eventSealsEqual target) seals then all_sealing en target ss
     else
       act_bind (fullyWitnessed en s) (\<lambda>ok.
       if ok then act_ret (Some s) else all_sealing en target ss))"

definition fetchAllSealingEventByEventSeal :: "env \<Rightarrow> string \<Rightarrow> jvalue \<Rightarrow> serder option act" where
  "fetchAllSealingEventByEventSeal en pre v =
     (case normalizeSeal v of
        None \<Rightarrow> act_ret None
      | Some target \<Rightarrow>
          act_bind (act_get (\<lambda>db. getEvtPreIter db pre 0)) (all_sealing en target))"

section \<open>Rebuilding a message\<close>

definition seqnerFromNumber :: "matter \<Rightarrow> matter res" where
  "seqnerFromNumber number =
     bind_res (matter_of_raw ''0A'' (huge_loop 16 (number_num number) [])) new_seqner"

text \<open>A counter with the primitives it counts.\<close>

definition clone_group :: "string \<Rightarrow> byte list list list \<Rightarrow> byte list res" where
  "clone_group name tuples =
     (let payload = concat tuples
      in bind_res (attachmentCounterPayloadQb64b name (int (length tuples)) payload Vrsn_1_0) (\<lambda>c.
         Inr (c @ concat payload)))"

text \<open>The tuples of the groups, each a list of primitives: signatures, the source seal, receipts
  of transferable and of non-transferable receiptors, and when the event was first seen.\<close>

definition clone_sigers :: "string list \<Rightarrow> group_entry list list res" where
  "clone_sigers sigs = bind_res (map_res siger_of sigs) (\<lambda>xs. Inr (map (\<lambda>x. [EIndexer x]) xs))"

definition clone_seal :: "source_seal option \<Rightarrow> group_entry list list res" where
  "clone_seal seal =
     (case seal of
        None \<Rightarrow> Inr []
      | Some (n, d) \<Rightarrow> bind_res (seqnerFromNumber n) (\<lambda>s. Inr [[EMatter s, EMatter d]]))"

definition quadruple_of :: "quadruple_row \<Rightarrow> (matter \<times> matter \<times> matter \<times> indexer) res" where
  "quadruple_of row =
     (case row of (p, n, d, s) \<Rightarrow>
        bind_res (prefixer_of p) (\<lambda>p. bind_res (number_of n) (\<lambda>n. bind_res (diger_of d) (\<lambda>d.
        bind_res (siger_of s) (\<lambda>s. Inr (p, n, d, s))))))"

definition clone_vrc :: "matter \<times> matter \<times> matter \<times> indexer \<Rightarrow> group_entry list res" where
  "clone_vrc q =
     (case q of (p, n, d, s) \<Rightarrow>
        bind_res (seqnerFromNumber n) (\<lambda>n. Inr [EMatter p, EMatter n, EMatter d, EIndexer s]))"

definition clone_vrcs :: "quadruple_row list \<Rightarrow> group_entry list list res" where
  "clone_vrcs rows = bind_res (map_res quadruple_of rows) (map_res clone_vrc)"

definition couple_of :: "couple_row \<Rightarrow> (matter \<times> cigar) res" where
  "couple_of row =
     (case row of (p, c) \<Rightarrow>
        bind_res (prefixer_of p) (\<lambda>p. bind_res (cigar_of c None) (\<lambda>c. Inr (p, c))))"

definition clone_rcts :: "couple_row list \<Rightarrow> group_entry list list res" where
  "clone_rcts rows =
     bind_res (map_res couple_of rows) (\<lambda>cs. Inr (map (\<lambda>(p, c). [EMatter p, EMatter (cg_sig c)]) cs))"

definition clone_first_seen :: "nat \<Rightarrow> matter \<Rightarrow> group_entry list list res" where
  "clone_first_seen fn dater = bind_res (encodeHugeOrdinal fn) (\<lambda>n. Inr [[EMatter n, EMatter dater]])"

text \<open>The groups of an event in the order they are written, with the names of their counters. An
  event without its body, signatures or time stamp cannot be rebuilt; empty groups are left out.\<close>

definition clone_content :: "baser \<Rightarrow> dg \<Rightarrow> nat \<Rightarrow> (serder \<times> (string \<times> group_entry list list) list) res" where
  "clone_content db key fn =
     bind_res (of_opt JsError (db_evts db key)) (\<lambda>s.
     bind_res (clone_sigers (db_sigs db key)) (\<lambda>sigs.
     if sigs = [] then Inl JsError
     else
       bind_res (clone_sigers (db_wigs db key)) (\<lambda>wigs.
       bind_res (clone_seal (db_aess db key)) (\<lambda>seal.
       bind_res (clone_vrcs (db_vrcs db key)) (\<lambda>vrcs.
       bind_res (clone_rcts (db_rcts db key)) (\<lambda>rcts.
       bind_res (of_opt JsError (db_dtss db key)) (\<lambda>dater.
       bind_res (clone_first_seen fn dater) (\<lambda>frcs.
       Inr (s, filter (\<lambda>(name, tuples). tuples \<noteq> [])
         [(''ControllerIdxSigs'', sigs), (''WitnessIdxSigs'', wigs), (''SealSourceCouples'', seal),
          (''TransReceiptQuadruples'', vrcs), (''NonTransReceiptCouples'', rcts),
          (''FirstSeenReplayCouples'', frcs)]))))))))) "

definition clone_groups :: "(string \<times> group_entry list list) list \<Rightarrow> byte list list res" where
  "clone_groups groups =
     map_res (\<lambda>(name, tuples). clone_group name (map (map (entry_bytes Txt)) tuples)) groups"

definition cloneEvtMsg :: "baser \<Rightarrow> string \<Rightarrow> nat \<Rightarrow> string \<Rightarrow> byte list res" where
  "cloneEvtMsg db pre fn said =
     bind_res (clone_content db (pre, said) fn) (\<lambda>(s, content).
     bind_res (clone_groups content) (\<lambda>attachments.
     let atc = concat attachments
     in if length atc mod 4 \<noteq> 0 then Inl JsError
        else bind_res (attachmentCounterQb64b ''AttachmentGroup'' (int (length atc div 4)) Vrsn_1_0) (\<lambda>c.
          Inr (sd_raw s @ c @ atc))))"

text \<open>The log of an identifier in the order first seen, from an ordinal on; events that cannot be
  rebuilt are skipped.\<close>

definition clonePreIter :: "baser \<Rightarrow> string \<Rightarrow> nat \<Rightarrow> byte list list" where
  "clonePreIter db pre fn =
     List.map_filter (\<lambda>(i, said). case cloneEvtMsg db pre i said of Inr m \<Rightarrow> Some m | Inl _ \<Rightarrow> None)
       (filter (\<lambda>(i, said). fn \<le> i) (enumerate 0 (db_fels db pre)))"

text \<open>The logs of the delegators of a machine, the outermost first. \<open>fuel\<close> bounds the
  recursion; a chain of delegators that never ends exhausts the stack, which throws.\<close>

fun cloneDelegation :: "nat \<Rightarrow> env \<Rightarrow> kever \<Rightarrow> byte list list act" where
  "cloneDelegation fuel en k =
     (case kv_delpre k of
        Some (c # cs) \<Rightarrow>
          act_bind (getKever en (c # cs)) (\<lambda>delegator.
          (case delegator of
             None \<Rightarrow> act_ret []
           | Some d \<Rightarrow>
               (case fuel of
                  0 \<Rightarrow> act_lift (Inl JsError)
                | Suc n \<Rightarrow>
                    act_bind (cloneDelegation n en d) (\<lambda>outer.
                    act_get (\<lambda>db. outer @ clonePreIter db (c # cs) 0)))))
      | _ \<Rightarrow> act_ret [])"

declare cloneDelegation.simps [simp del]

end
