(* ===== verification/CloneProps.thy ===== *)
theory CloneProps
  imports Cloning KeverSamples
begin

text \<open>
  A rebuilt message is read back: the attachments \<open>cloneEvtMsg\<close> writes after the body of a
  stored event dispatch, in either mode, to one attachment group that holds the stored groups in
  order. The stored primitives are taken to be canonical, as the encoders make them.
\<close>

section \<open>One group\<close>

fun entry_valid :: "group_entry \<Rightarrow> bool" where
  "entry_valid (EMatter m) = matter_valid m"
| "entry_valid (EIndexer x) = indexer_valid x"
| "entry_valid _ = False"

definition content_valid :: "(string \<times> group_entry list list) list \<Rightarrow> bool" where
  "content_valid content \<longleftrightarrow> list_all (\<lambda>(name, tuples). list_all (list_all entry_valid) tuples) content"

fun kind_of :: "group_entry \<Rightarrow> prim_kind" where
  "kind_of (EIndexer x) = KIndexer"
| "kind_of _ = KMatter"

text \<open>The counter of each group a rebuilt message can have, and the tuples it counts.\<close>

definition CLONE_KINDS :: "(string \<times> string \<times> prim_kind list) list" where
  "CLONE_KINDS =
     [(''ControllerIdxSigs'', ''-A'', [KIndexer]), (''WitnessIdxSigs'', ''-B'', [KIndexer]),
      (''SealSourceCouples'', ''-G'', [KMatter, KMatter]),
      (''TransReceiptQuadruples'', ''-D'', [KMatter, KMatter, KMatter, KIndexer]),
      (''NonTransReceiptCouples'', ''-C'', [KMatter, KMatter]),
      (''FirstSeenReplayCouples'', ''-E'', [KMatter, KMatter])]"

definition well_kinded :: "string \<times> group_entry list list \<Rightarrow> bool" where
  "well_kinded g \<longleftrightarrow> (case g of (name, tuples) \<Rightarrow>
     (\<exists>code kinds. map_of CLONE_KINDS name = Some (code, kinds) \<and> list_all (\<lambda>t. map kind_of t = kinds) tuples))"

lemma clone_tables:
  "\<exists>table. getDispatch Vrsn_1_0 = Inr table \<and> list_all (\<lambda>(name, code, kinds).
      map_of CtrDexV1 name = Some code \<and> map_of CtrDexV1 (''Big'' @ name) = None \<and> code \<noteq> GENUS_VERSION_CODE
      \<and> map_option dd_kind (map_of table code) = Some (RepeatTuple kinds)) CLONE_KINDS
    \<and> list_all (\<lambda>code. map_option dd_kind (map_of table code) = Some Quadlet
        \<and> map_option dd_version (map_of table code) = Some 1) [''-V'', ''--V'']"
proof -
  have "(case getDispatch Vrsn_1_0 of Inr table \<Rightarrow> list_all (\<lambda>(name, code, kinds).
      map_of CtrDexV1 name = Some code \<and> map_of CtrDexV1 (''Big'' @ name) = None \<and> code \<noteq> GENUS_VERSION_CODE
      \<and> map_option dd_kind (map_of table code) = Some (RepeatTuple kinds)) CLONE_KINDS
    \<and> list_all (\<lambda>code. map_option dd_kind (map_of table code) = Some Quadlet
        \<and> map_option dd_version (map_of table code) = Some 1) [''-V'', ''--V''] | Inl _ \<Rightarrow> False)"
    by code_simp
  then show ?thesis by (auto split: sum.splits)
qed

lemma wrapper_codes:
  "map_of CtrDexV1 ''AttachmentGroup'' = Some ''-V''" "map_of CtrDexV1 ''BigAttachmentGroup'' = Some ''--V''"
  "''-V'' \<in> set (codeSet dd_wrapper 1)" "''--V'' \<in> set (codeSet dd_wrapper 1)"
  by code_simp+

lemma attachment_counter:
  assumes "attachmentCounterQb64b name count Vrsn_1_0 = Inr cb"
  obtains code c where "attachment_codeFor name count Vrsn_1_0 = Inr code"
    "encodeCounterFromFields code count Vrsn_1_0 = Inr c" "counter_bytes Txt c = cb"
  using assms by (auto simp: attachmentCounterQb64b_def res_simps counter_bytes_def)

lemma v1_codeFor:
  assumes "attachment_codeFor name count Vrsn_1_0 = Inr code"
  shows "map_of CtrDexV1 (''Big'' @ name) = Some code \<or> map_of CtrDexV1 name = Some code"
  using assms by (auto simp: attachment_codeFor_def Vrsn_1_0_def Let_def res_simps of_opt_def
      split: if_splits option.splits)

lemma kinds_entries:
  "list_all entry_valid es \<Longrightarrow> map kind_of es = kinds \<Longrightarrow> list_all2 entry_kind kinds es"
proof (induction es arbitrary: kinds)
  case (Cons e es)
  then show ?case by (cases e) auto
qed simp

lemma clone_group_parses:
  assumes "clone_group name (map (map (entry_bytes Txt)) tuples) = Inr e" and "well_kinded (name, tuples)"
    and "list_all (list_all entry_valid) tuples"
  obtains c where "map_of CtrDexV1 name = Some (ct_code c)" "ct_code c \<noteq> GENUS_VERSION_CODE"
    "parses (\<lambda>bs. dispatch (Suc n) mode Txt bs Vrsn_1_0) e (EGroup c e (map ETuple tuples))"
proof -
  obtain code kinds where k: "map_of CLONE_KINDS name = Some (code, kinds)"
    "list_all (\<lambda>t. map kind_of t = kinds) tuples"
    using assms(2) by (auto simp: well_kinded_def)
  obtain table where t: "getDispatch Vrsn_1_0 = Inr table" "map_of CtrDexV1 name = Some code"
    "map_of CtrDexV1 (''Big'' @ name) = None" "code \<noteq> GENUS_VERSION_CODE"
    "map_option dd_kind (map_of table code) = Some (RepeatTuple kinds)"
    using clone_tables map_of_SomeD [OF k(1)] unfolding list_all_iff by blast
  then obtain d where d: "map_of table code = Some d" "dd_kind d = RepeatTuple kinds" by auto
  let ?payload = "concat (map (entry_bytes Txt) (map ETuple tuples))"
  have p: "concat (concat (map (map (entry_bytes Txt)) tuples)) = ?payload"
    by (induction tuples) (simp_all add: comp_def)
  obtain cb where cb: "attachmentCounterQb64b name (int (length tuples)) Vrsn_1_0 = Inr cb" "e = cb @ ?payload"
    using assms(1) p by (auto simp: clone_group_def Let_def attachmentCounterPayloadQb64b_def res_simps
        Vrsn_1_0_def simp del: entry_bytes.simps split: if_splits)
  obtain code' c where c: "attachment_codeFor name (int (length tuples)) Vrsn_1_0 = Inr code'"
    "encodeCounterFromFields code' (int (length tuples)) Vrsn_1_0 = Inr c" "counter_bytes Txt c = cb"
    by (rule attachment_counter [OF cb(1)])
  have code: "code' = code" using v1_codeFor [OF c(1)] t(2,3) by simp
  have kinds: "list_all (list_all2 entry_kind kinds) tuples"
    using assms(3) k(2) kinds_entries by (auto simp: list_all_iff)
  note r = repeat_tuple_roundtrip [OF c(2) t(1) d(1) [folded code] d(2) kinds HOL.refl, where domain = Txt
      and n = n and mode = mode]
  have "parses (\<lambda>bs. dispatch (Suc n) mode Txt bs Vrsn_1_0) e (EGroup c e (map ETuple tuples))"
    using r c(3) cb(2) by (simp add: parses_def del: dispatch.simps)
  moreover have "ct_code c = code" using encodeCounter_encoded [OF c(2)] code by simp
  ultimately show thesis using that [of c] t(2,4) by (simp del: dispatch.simps)
qed

section \<open>The whole message\<close>

text \<open>The group that is read for a stored one: the counter of its name and its tuples.\<close>

definition group_of :: "string \<times> group_entry list list \<Rightarrow> group_entry \<Rightarrow> bool" where
  "group_of stored g \<longleftrightarrow> (case stored of (name, tuples) \<Rightarrow>
     \<exists>c raw. g = EGroup c raw (map ETuple tuples) \<and> map_of CtrDexV1 name = Some (ct_code c))"

lemma clone_groups_parse:
  assumes "clone_groups content = Inr es" and "content_valid content" and "list_all well_kinded content"
  shows "\<exists>gs. length gs = length es \<and> list_all2 group_of content gs
    \<and> list_all (\<lambda>(e, g). parses (\<lambda>bs. dispatch (Suc n) mode Txt bs Vrsn_1_0) e g
         \<and> group_code g \<noteq> GENUS_VERSION_CODE) (zip es gs)"
  using assms
proof (induction content arbitrary: es)
  case Nil
  then show ?case by (simp add: clone_groups_def)
next
  case (Cons x content)
  obtain name tuples where x: "x = (name, tuples)" by (cases x)
  obtain e es' where es: "es = e # es'" "clone_group name (map (map (entry_bytes Txt)) tuples) = Inr e"
    "clone_groups content = Inr es'"
    using Cons.prems(1) by (auto simp: clone_groups_def x res_simps)
  obtain gs where gs: "length gs = length es'" "list_all2 group_of content gs"
    "list_all (\<lambda>(e, g). parses (\<lambda>bs. dispatch (Suc n) mode Txt bs Vrsn_1_0) e g
       \<and> group_code g \<noteq> GENUS_VERSION_CODE) (zip es' gs)"
    using Cons.IH [OF es(3)] Cons.prems(2,3) by (auto simp: content_valid_def)
  obtain c where c: "map_of CtrDexV1 name = Some (ct_code c)" "ct_code c \<noteq> GENUS_VERSION_CODE"
    "parses (\<lambda>bs. dispatch (Suc n) mode Txt bs Vrsn_1_0) e (EGroup c e (map ETuple tuples))"
    using clone_group_parses [OF es(2)] Cons.prems(2,3) x by (auto simp: content_valid_def)
  let ?g = "EGroup c e (map ETuple tuples)"
  have "group_of x ?g" "group_code ?g \<noteq> GENUS_VERSION_CODE"
    using c by (simp_all add: group_of_def x group_code_def)
  then show ?case
    using gs c(3) by (intro exI [of _ "?g # gs"]) (simp add: es(1) del: dispatch.simps)
qed

lemma clone_sigers_kind:
  "clone_sigers sigs = Inr ts \<Longrightarrow> list_all (\<lambda>t. map kind_of t = [KIndexer]) ts"
  by (auto simp: clone_sigers_def res_simps list_all_iff)

lemma clone_kinds:
  "clone_seal seal = Inr ts \<Longrightarrow> list_all (\<lambda>t. map kind_of t = [KMatter, KMatter]) ts"
  "clone_vrcs vs = Inr ts \<Longrightarrow> list_all (\<lambda>t. map kind_of t = [KMatter, KMatter, KMatter, KIndexer]) ts"
  "clone_rcts cs = Inr ts \<Longrightarrow> list_all (\<lambda>t. map kind_of t = [KMatter, KMatter]) ts"
  "clone_first_seen fn d = Inr ts \<Longrightarrow> list_all (\<lambda>t. map kind_of t = [KMatter, KMatter]) ts"
  by (auto simp: clone_seal_def clone_vrcs_def clone_vrc_def clone_rcts_def clone_first_seen_def res_simps
      list_all_iff split: option.splits dest!: map_res_Inr_in)

lemma clone_content_kinds:
  assumes "clone_content db key fn = Inr (s, content)"
  shows "list_all well_kinded content \<and> db_evts db key = Some s"
proof -
  obtain sigs wigs seal vrcs rcts d frcs where c:
    "clone_sigers (db_sigs db key) = Inr sigs" "clone_sigers (db_wigs db key) = Inr wigs"
    "clone_seal (db_aess db key) = Inr seal" "clone_vrcs (db_vrcs db key) = Inr vrcs"
    "clone_rcts (db_rcts db key) = Inr rcts" "clone_first_seen fn d = Inr frcs"
    "content = filter (\<lambda>(name, tuples). tuples \<noteq> [])
         [(''ControllerIdxSigs'', sigs), (''WitnessIdxSigs'', wigs), (''SealSourceCouples'', seal),
          (''TransReceiptQuadruples'', vrcs), (''NonTransReceiptCouples'', rcts),
          (''FirstSeenReplayCouples'', frcs)]" and s: "db_evts db key = Some s"
    using assms unfolding clone_content_def by (auto simp: res_simps of_opt_def split: option.splits if_splits)
  note k = clone_sigers_kind [OF c(1)] clone_sigers_kind [OF c(2)] clone_kinds(1) [OF c(3)]
    clone_kinds(2) [OF c(4)] clone_kinds(3) [OF c(5)] clone_kinds(4) [OF c(6)]
  have "list_all well_kinded [(''ControllerIdxSigs'', sigs), (''WitnessIdxSigs'', wigs), (''SealSourceCouples'', seal),
          (''TransReceiptQuadruples'', vrcs), (''NonTransReceiptCouples'', rcts), (''FirstSeenReplayCouples'', frcs)]"
    using k by (simp add: well_kinded_def CLONE_KINDS_def)
  then show ?thesis using s unfolding c(7) by (auto simp: list_all_iff)
qed

text \<open>C31: A replayed event is read back. The message rebuilt from the stores for an accepted event is
  its body followed by one attachment group; whatever follows it in the stream, the attachment
  parser, strict or lenient, reads that group as the stored groups in order, each under its counter
  and with exactly the stored primitives.\<close>

theorem clone_reads_back:
  assumes "cloneEvtMsg db pre fn said = Inr msg" and "clone_content db (pre, said) fn = Inr (s, content)"
    and "content_valid content"
  shows "\<exists>c e groups. msg = sd_raw s @ e \<and> list_all2 group_of content groups
    \<and> dispatch 2 mode Txt (e @ rest) Vrsn_1_0 = Inr (EGroup c e groups, length e)"
proof -
  obtain es where es: "clone_groups content = Inr es" using assms(1,2) by (auto simp: cloneEvtMsg_def res_simps)
  let ?atc = "concat es"
  obtain cb where cb: "length ?atc mod 4 = 0" "msg = sd_raw s @ cb @ ?atc"
    "attachmentCounterQb64b ''AttachmentGroup'' (int (length ?atc div 4)) Vrsn_1_0 = Inr cb"
    using assms(1,2) es by (auto simp: cloneEvtMsg_def res_simps Let_def split: if_splits)
  obtain code c where c: "attachment_codeFor ''AttachmentGroup'' (int (length ?atc div 4)) Vrsn_1_0 = Inr code"
    "encodeCounterFromFields code (int (length ?atc div 4)) Vrsn_1_0 = Inr c" "counter_bytes Txt c = cb"
    by (rule attachment_counter [OF cb(3)])
  have code: "code = ''-V'' \<or> code = ''--V''" using v1_codeFor [OF c(1)] wrapper_codes(1,2) by auto
  obtain table where table: "getDispatch Vrsn_1_0 = Inr table" "map_option dd_kind (map_of table code) = Some Quadlet"
    "map_option dd_version (map_of table code) = Some 1" using clone_tables code by auto
  then obtain d where d: "map_of table code = Some d" "dd_kind d = Quadlet" "dd_version d = 1" by auto
  obtain gs where gs: "length gs = length es" "list_all2 group_of content gs"
    "list_all (\<lambda>(e, g). parses (\<lambda>bs. dispatch (Suc 0) Strict Txt bs Vrsn_1_0) e g
         \<and> group_code g \<noteq> GENUS_VERSION_CODE) (zip es gs)"
    using clone_groups_parse [OF es assms(3)] clone_content_kinds [OF assms(2)] by blast
  have "?atc = concat (map fst (zip es gs))" using gs(1) by simp
  from wrapper_group_parses [OF table(1) d(1,2) _ gs(3) this _ c(2), of mode rest]
  have "dispatch (Suc (Suc 0)) mode Txt (cb @ ?atc @ rest) Vrsn_1_0
      = Inr (EGroup c (cb @ ?atc) gs, length (cb @ ?atc))"
    using d(3) code wrapper_codes(3,4) cb(1) c(3) gs(1)
    by (auto simp: quadletUnitSize_def simp del: dispatch.simps)
  then show ?thesis using cb(2) gs(2)
    by (intro exI [of _ c] exI [of _ "cb @ ?atc"] exI [of _ gs])
      (simp add: numeral_2_eq_2 del: dispatch.simps)
qed

text \<open>The sample inception event with one signature, first seen as number zero.\<close>

definition ex_clone_db :: baser where
  "ex_clone_db = baser_empty\<lparr>db_evts := [(ex_pre, ex_said) \<mapsto> ex_icp], db_fels := (\<lambda>_. [])(ex_pre := [ex_said]),
     db_sigs := (\<lambda>_. [])((ex_pre, ex_said) := [ix_qb64 ex_siger]), db_dtss := [(ex_pre, ex_said) \<mapsto> ex_dater]\<rparr>"

lemma ex_clone_content:
  "clone_content ex_clone_db (ex_pre, ex_said) 0 = Inr (ex_icp, [(''ControllerIdxSigs'', [[EIndexer ex_siger]]),
     (''FirstSeenReplayCouples'', [[EMatter ex_huge, EMatter ex_dater]])])"
proof -
  have "clone_sigers [ix_qb64 ex_siger] = Inr [[EIndexer ex_siger]]"
    "clone_first_seen 0 ex_dater = Inr [[EMatter ex_huge, EMatter ex_dater]]"
    "clone_sigers [] = Inr []"
    by code_simp+
  then show ?thesis
    by (simp add: clone_content_def ex_clone_db_def baser_empty_def clone_seal_def clone_vrcs_def
        clone_rcts_def)
qed

lemma ex_clone_valid: "indexer_valid ex_siger" "matter_valid ex_huge" "matter_valid ex_dater"
proof -
  have i: "encodeIndexerFromRaw ''A'' (replicate 64 0) 0 (Some 0) = Inr ex_siger"
    "(case map_of INDEXER_SIZES ''A'' of Some z \<Rightarrow> i_fs z \<noteq> None | None \<Rightarrow> False)"
    by code_simp+
  then show "indexer_valid ex_siger" using encodeIndexer_encoded by (auto split: option.splits)
  have "encodeMatterFromRaw ''0A'' (replicate 16 0) = Inr ex_huge" by code_simp
  then show "matter_valid ex_huge" "matter_valid ex_dater"
    using encodeMatter_valid ex_dater_encode by blast+
qed

theorem clone_reads_back_witness:
  "\<exists>msg c e groups. cloneEvtMsg ex_clone_db ex_pre 0 ex_said = Inr msg \<and> msg = sd_raw ex_icp @ e
     \<and> length groups = 2 \<and> dispatch 2 Strict Txt (e @ [7]) Vrsn_1_0 = Inr (EGroup c e groups, length e)"
proof -
  let ?content = "[(''ControllerIdxSigs'', [[EIndexer ex_siger]]),
     (''FirstSeenReplayCouples'', [[EMatter ex_huge, EMatter ex_dater]])]"
  have "(case clone_groups ?content of Inr es \<Rightarrow> length (concat es) = 156
      \<and> (case attachmentCounterQb64b ''AttachmentGroup'' 39 Vrsn_1_0 of Inr _ \<Rightarrow> True | Inl _ \<Rightarrow> False)
    | Inl _ \<Rightarrow> False)"
    by code_simp
  then obtain msg where msg: "cloneEvtMsg ex_clone_db ex_pre 0 ex_said = Inr msg"
    using ex_clone_content by (auto simp: cloneEvtMsg_def Let_def split: sum.splits)
  have "content_valid ?content" using ex_clone_valid by (simp add: content_valid_def)
  from clone_reads_back [OF msg ex_clone_content this, of Strict "[7]"] msg
  show ?thesis by (fastforce dest: list_all2_lengthD simp del: dispatch.simps)
qed

end
