(* ===== verification/Queries.thy ===== *)
theory Queries
  imports Cloning
begin

text \<open>
  Queries (\<^verbatim>\<open>keri/src/core/eventing.ts\<close>, \<^verbatim>\<open>kever-decisions.ts\<close>): the decision on a
  query for logs, key state or a mailbox, what a live query does, the escrow of a query whose
  answer is not there yet and its replay, and the sweep over every escrow of the processor. An answer
  is a cue: the messages of a replay, the key state of a reply, which the host wraps into a \<open>rpy\<close>
  message, and the topics of a stream as they were asked for.
\<close>

section \<open>Envelopes and decisions\<close>

record query_envelope =
  qe_serder :: serder
  qe_source :: "matter option"
  qe_sigers :: "indexer list"
  qe_cigars :: "cigar list"

datatype query_escrow =
    QueryMissingKever | QueryMissingAnchor | QueryUnmetSequenceGate | QueryNotFullyWitnessed

datatype query_drop = QueryMalformed | QueryMissingRequester | QueryInvalidLogsGate | QueryUnsupportedRoute

datatype query_decision = QdAccept "cue list" | QdEscrow query_escrow | QdDrop query_drop

definition queryRequester :: "query_envelope \<Rightarrow> string option" where
  "queryRequester qe =
     (case qe_source qe of
        Some p \<Rightarrow> Some (mt_qb64 p)
      | None \<Rightarrow>
          (case qe_cigars qe of
             [] \<Rightarrow> None
           | c # _ \<Rightarrow> map_option mt_qb64 (cg_verfer c)))"

definition serder_route :: "serder \<Rightarrow> string option" where
  "serder_route s = text_field s ''r''"

definition value_text :: "jvalue option \<Rightarrow> string option" where
  "value_text v = (case v of Some (JStr t) \<Rightarrow> Some t | _ \<Rightarrow> None)"

text \<open>An ordinal is a safe integer or hexadecimal text; a text is rounded as \<open>parseInt\<close> does.\<close>

definition parseQueryOrdinal :: "jvalue \<Rightarrow> nat option" where
  "parseQueryOrdinal v =
     (case v of
        JNum n \<Rightarrow> if 0 \<le> n \<and> n < 2 ^ 53 then Some (nat n) else None
      | JStr t \<Rightarrow> map_option js_num (read_radix 16 t)
      | _ \<Rightarrow> None)"

text \<open>\<open>BigInt(n)\<close> throws on the infinite number that texts of too many digits become.\<close>

definition js_bigint :: "nat \<Rightarrow> nat res" where
  "js_bigint n = (if n < 2 ^ 1024 then Inr n else Inl JsError)"

section \<open>Deciding\<close>

definition repairReplaySourceSeal :: "env \<Rightarrow> kever \<Rightarrow> unit act" where
  "repairReplaySourceSeal en k =
     (let s = kv_serder k
      in case dg_of s of
           None \<Rightarrow> act_ret ()
         | Some key \<Rightarrow>
             if \<not> truthy (kv_delpre k) \<or> sd_ilk s = Some ''ixn'' then act_ret ()
             else
               act_bind (act_get (\<lambda>db. db_aess db key)) (\<lambda>stored.
               if stored \<noteq> None then act_ret ()
               else
                 act_bind (fetchLastSealingEventByEventSeal en (text_or [] (kv_delpre k)) (fst key)
                   (serder_snh s) (snd key)) (repair_from_anchoring key)))"

text \<open>The gates of a log query, in order: an anchor asked for must be sealed; otherwise a sequence
  number asked for must be reached and its machine witnessed.\<close>

definition logs_gate :: "env \<Rightarrow> kever \<Rightarrow> string \<Rightarrow> jvalue option \<Rightarrow> nat option \<Rightarrow> query_escrow option act" where
  "logs_gate en k pre anchor sn =
     (case anchor of
        Some a \<Rightarrow>
          act_bind (fetchAllSealingEventByEventSeal en pre a) (\<lambda>found.
          act_ret (if found = None then Some QueryMissingAnchor else None))
      | None \<Rightarrow>
          (case sn of
             None \<Rightarrow> act_ret None
           | Some n \<Rightarrow>
               act_bind (act_lift (js_bigint n)) (\<lambda>n.
               if number_num (kv_sner k) < n then act_ret (Some QueryUnmetSequenceGate)
               else act_bind (fullyWitnessed en (kv_serder k)) (\<lambda>ok.
                 act_ret (if ok then None else Some QueryNotFullyWitnessed)))))"

definition replay_logs :: "nat \<Rightarrow> env \<Rightarrow> kever \<Rightarrow> string \<Rightarrow> string \<Rightarrow> string \<Rightarrow> nat \<Rightarrow> query_decision act" where
  "replay_logs fuel en k pre src dest fn =
     act_bind (repairReplaySourceSeal en k) (\<lambda>_.
     act_bind (act_get (\<lambda>db. clonePreIter db pre fn)) (\<lambda>own.
     act_bind (cloneDelegation fuel en k) (\<lambda>outer.
     let msgs = own @ outer
     in act_ret (QdAccept (if msgs = [] then [] else [CueReplay pre src dest (concat msgs)])))))"

definition decide_logs ::
  "nat \<Rightarrow> env \<Rightarrow> jvalue \<Rightarrow> string \<Rightarrow> string \<Rightarrow> string \<Rightarrow> query_decision act" where
  "decide_logs fuel en q pre src dest =
     (let fn = (case jfield q ''fn'' of None \<Rightarrow> Some 0 | Some v \<Rightarrow> parseQueryOrdinal v);
          sn = (case jfield q ''s'' of None \<Rightarrow> None | Some v \<Rightarrow> parseQueryOrdinal v)
      in case fn of
           None \<Rightarrow> act_ret (QdDrop QueryInvalidLogsGate)
         | Some fn \<Rightarrow>
             if jfield q ''s'' \<noteq> None \<and> sn = None then act_ret (QdDrop QueryInvalidLogsGate)
             else
               act_bind (getKever_refresh en pre) (\<lambda>k.
               (case k of
                  None \<Rightarrow> act_ret (QdEscrow QueryMissingKever)
                | Some k \<Rightarrow>
                    act_bind (logs_gate en k pre (jfield q ''a'') sn) (\<lambda>gate.
                    (case gate of
                       Some r \<Rightarrow> act_ret (QdEscrow r)
                     | None \<Rightarrow> replay_logs fuel en k pre src dest fn)))))"

definition decide_ksn :: "env \<Rightarrow> string \<Rightarrow> string \<Rightarrow> string \<Rightarrow> query_decision act" where
  "decide_ksn en pre src dest =
     act_bind (getKever_refresh en pre) (\<lambda>k.
     (case k of
        None \<Rightarrow> act_ret (QdEscrow QueryMissingKever)
      | Some k \<Rightarrow>
          act_bind (fullyWitnessed en (kv_serder k)) (\<lambda>ok.
          if \<not> ok then act_ret (QdEscrow QueryNotFullyWitnessed)
          else act_bind (act_lift (kever_state k)) (\<lambda>ksn.
            act_ret (QdAccept [CueReply ''/ksn'' ksn src dest])))))"

definition decide_mbx :: "env \<Rightarrow> serder \<Rightarrow> jvalue \<Rightarrow> string \<Rightarrow> string \<Rightarrow> query_decision act" where
  "decide_mbx en s q pre src =
     act_bind (getKever en pre) (\<lambda>k.
     act_ret (case k of
         None \<Rightarrow> QdEscrow QueryMissingKever
       | Some _ \<Rightarrow> QdAccept [CueStream s pre src (jfield q ''topics'')]))"

definition decideQuery :: "nat \<Rightarrow> env \<Rightarrow> query_envelope \<Rightarrow> query_decision act" where
  "decideQuery fuel en qe =
     (let s = qe_serder qe;
          route = serder_route s;
          q = (case sad_field s ''q'' of Some v \<Rightarrow> v | None \<Rightarrow> JNull);
          pre = value_text (jfield q ''i'');
          src = value_text (jfield q ''src'');
          dest = queryRequester qe
      in if \<not> truthy route \<or> \<not> truthy pre \<or> \<not> truthy src then act_ret (QdDrop QueryMalformed)
         else if \<not> truthy dest then act_ret (QdDrop QueryMissingRequester)
         else if route = Some ''logs''
         then decide_logs fuel en q (text_or [] pre) (text_or [] src) (text_or [] dest)
         else if route = Some ''ksn'' then decide_ksn en (text_or [] pre) (text_or [] src) (text_or [] dest)
         else if route = Some ''mbx'' then decide_mbx en s q (text_or [] pre) (text_or [] src)
         else act_ret (QdDrop QueryUnsupportedRoute))"

section \<open>Escrow\<close>

definition query_couple :: "cigar \<Rightarrow> couple_row list res" where
  "query_couple c =
     (case cg_verfer c of
        None \<Rightarrow> Inr []
      | Some v \<Rightarrow> bind_res (prefixer_of (mt_qb64 v)) (\<lambda>p. Inr [(mt_qb64 p, mt_qb64 (cg_sig c))]))"

text \<open>\<open>pin\<close> of a set store: an empty set of values leaves the store as it is.\<close>

definition io_pin :: "'k \<Rightarrow> 'v list \<Rightarrow> ('k \<Rightarrow> 'v list) \<Rightarrow> 'k \<Rightarrow> 'v list" where
  "io_pin key vs m = (if vs = [] then m else m(key := io_put vs []))"

definition query_material :: "dg \<Rightarrow> serder \<Rightarrow> matter \<Rightarrow> string list \<Rightarrow> couple_row list \<Rightarrow> baser \<Rightarrow> baser" where
  "query_material key s d sigs couples db =
     db\<lparr>db_evts := map_pin key s (db_evts db), db_dtss := map_pin key d (db_dtss db),
        db_sigs := io_pin key sigs (db_sigs db), db_rcts := io_pin key couples (db_rcts db),
        db_qnfs := (db_qnfs db)([fst key, snd key] := io_add (snd key) (db_qnfs db [fst key, snd key]))\<rparr>"

definition escrowQueryNotFoundEvent :: "env \<Rightarrow> query_envelope \<Rightarrow> unit act" where
  "escrowQueryNotFoundEvent en qe =
     (let s = qe_serder qe; said = sd_said s; requester = queryRequester qe
      in if \<not> truthy said \<or> \<not> truthy requester then act_lift (Inl JsError)
         else
           act_bind (act_lift (dater_of (encodeDateTimeToDater (en_now en)))) (\<lambda>d.
           act_bind (act_lift (map_res query_couple (qe_cigars qe))) (\<lambda>couples.
           act_mod (query_material (text_or [] requester, text_or [] said) s d
             (map ix_qb64 (qe_sigers qe)) (concat couples)))))"

definition applyLiveQueryDecision :: "env \<Rightarrow> query_envelope \<Rightarrow> query_decision \<Rightarrow> cue list act" where
  "applyLiveQueryDecision en qe d =
     (case d of
        QdAccept cues \<Rightarrow> act_ret cues
      | QdEscrow _ \<Rightarrow> act_bind (escrowQueryNotFoundEvent en qe) (\<lambda>_. act_ret [])
      | QdDrop r \<Rightarrow> act_ret (if r = QueryUnsupportedRoute then [CueInvalid (qe_serder qe)] else []))"

definition processQuery :: "nat \<Rightarrow> env \<Rightarrow> query_envelope \<Rightarrow> cue list act" where
  "processQuery fuel en qe = act_bind (decideQuery fuel en qe) (applyLiveQueryDecision en qe)"

section \<open>Replay\<close>

definition clearEscrowedQueryMaterial :: "string \<Rightarrow> string \<Rightarrow> baser \<Rightarrow> baser" where
  "clearEscrowedQueryMaterial requester said db =
     db\<lparr>db_sigs := (db_sigs db)((requester, said) := []), db_rcts := (db_rcts db)((requester, said) := []),
        db_evts := (db_evts db)((requester, said) := None),
        db_dtss := (db_dtss db)((requester, said) := None)\<rparr>"

definition rehydrate_cigar :: "matter \<times> cigar \<Rightarrow> cigar res" where
  "rehydrate_cigar pc =
     (case pc of (p, c) \<Rightarrow> bind_res (verfer_of (mt_qb64 p)) (\<lambda>v. new_cigar (cg_sig c) (Some v)))"

definition replay_query :: "nat \<Rightarrow> env \<Rightarrow> query_envelope \<Rightarrow> (escrow_decision \<times> cue list) act" where
  "replay_query fuel en qe =
     act_bind (decideQuery fuel en qe) (\<lambda>d.
     act_ret (case d of
         QdAccept cues \<Rightarrow> (EdAccept, cues)
       | QdEscrow _ \<Rightarrow> (EdKeep KeepQueryNotFound, [])
       | QdDrop _ \<Rightarrow> (EdDrop DropMalformedEscrowedQuery, [])))"

definition reprocessEscrowedQuery ::
  "nat \<Rightarrow> env \<Rightarrow> string \<Rightarrow> string \<Rightarrow> (escrow_decision \<times> cue list) act" where
  "reprocessEscrowedQuery fuel en requester qsaid =
     act_bind (escrowReplayExpiry en requester qsaid TimeoutQNF) (\<lambda>expiry.
     (case expiry of
        Some r \<Rightarrow> act_ret (EdDrop r, [])
      | None \<Rightarrow>
          act_bind (act_get (\<lambda>db. db_evts db (requester, qsaid))) (\<lambda>found.
          (case found of
             None \<Rightarrow> act_ret (EdDrop DropMissingEscrowedEvent, [])
           | Some s \<Rightarrow>
               if sd_ilk s \<noteq> Some ''qry'' then act_ret (EdDrop DropMalformedEscrowedQuery, [])
               else
                 act_bind (act_read (\<lambda>db. map_res siger_of (db_sigs db (requester, qsaid)))) (\<lambda>sigers.
                 act_bind (act_read (\<lambda>db. map_res couple_of (db_rcts db (requester, qsaid)))) (\<lambda>couples.
                 act_bind (act_lift (map_res rehydrate_cigar couples)) (\<lambda>cigars.
                 if sigers = [] \<and> cigars = [] then act_ret (EdDrop DropMissingEscrowedEndorsements, [])
                 else if sigers = [] then
                   replay_query fuel en
                     \<lparr>qe_serder = s, qe_source = None, qe_sigers = [], qe_cigars = cigars\<rparr>
                 else
                   (case prefixer_of requester of
                      Inl _ \<Rightarrow> act_ret (EdDrop DropMalformedEscrowedQuery, [])
                    | Inr p \<Rightarrow> replay_query fuel en
                        \<lparr>qe_serder = s, qe_source = Some p, qe_sigers = sigers, qe_cigars = cigars\<rparr>))))))))"

definition qnfs_rem :: "string list \<Rightarrow> string \<Rightarrow> baser \<Rightarrow> baser" where
  "qnfs_rem key said db =
     db\<lparr>db_qnfs := (db_qnfs db)(key := filter (\<lambda>x. x \<noteq> said) (db_qnfs db key))\<rparr>"

definition qnf_row :: "nat \<Rightarrow> env \<Rightarrow> string list \<times> string \<Rightarrow> cue list act" where
  "qnf_row fuel en row =
     (case row of
        ((r # rs) # (q # qs) # parts, said) \<Rightarrow>
          act_bind (reprocessEscrowedQuery fuel en (r # rs) (q # qs)) (\<lambda>(d, cues).
          (case d of
             EdKeep _ \<Rightarrow> act_ret cues
           | _ \<Rightarrow> act_bind (act_mod (\<lambda>db. clearEscrowedQueryMaterial (r # rs) (q # qs)
               (qnfs_rem [r # rs, q # qs] said db))) (\<lambda>_. act_ret cues)))
      | _ \<Rightarrow> act_ret [])"

fun act_cues :: "('a \<Rightarrow> cue list act) \<Rightarrow> 'a list \<Rightarrow> cue list act" where
  "act_cues f [] = act_ret []"
| "act_cues f (x # xs) = act_bind (f x) (\<lambda>cues. act_bind (act_cues f xs) (\<lambda>rest. act_ret (cues @ rest)))"

text \<open>\<open>keys\<close> are the keys that have rows, in key order; the rows are read first.\<close>

definition qnf_rows :: "string list list \<Rightarrow> baser \<Rightarrow> (string list \<times> string) list" where
  "qnf_rows keys db = concat (map (\<lambda>key. map (Pair key) (db_qnfs db key)) keys)"

definition processQueryNotFound :: "nat \<Rightarrow> env \<Rightarrow> string list list \<Rightarrow> cue list act" where
  "processQueryNotFound fuel en keys = act_bind (act_get (qnf_rows keys)) (act_cues (qnf_row fuel en))"

section \<open>The sweep\<close>

text \<open>One pass over every escrow. \<open>pres\<close> and \<open>keys\<close> list, in key order, at least the keys
  that have rows when their pass begins; a key without rows contributes none.\<close>

definition processEscrows :: "nat \<Rightarrow> env \<Rightarrow> bool \<Rightarrow> string list \<Rightarrow> string list list \<Rightarrow> cue list act" where
  "processEscrows fuel en loc pres keys =
     act_bind (processOrdinalEscrow fuel en loc EscOoo pres) (\<lambda>c1.
     act_bind (processEscrowUnverWitness en pres) (\<lambda>_.
     act_bind (processEscrowUnverNonTrans en pres) (\<lambda>_.
     act_bind (processEscrowUnverTrans en pres) (\<lambda>_.
     act_bind (act_cues (\<lambda>esc. processOrdinalEscrow fuel en loc esc pres)
       [EscPartialDels, EscPartialWigs, EscPartialSigs, EscDuplicitous]) (\<lambda>c2.
     act_bind (processSetEscrow fuel en loc EscMisfit pres) (\<lambda>c3.
     act_bind (processQueryNotFound fuel en keys) (\<lambda>c4.
     act_ret (c1 @ c2 @ c3 @ c4))))))))"

end
