(* ===== verification/Routing.thy ===== *)
theory Routing
  imports Queries "HOL-Library.List_Lexorder" "HOL-Library.Char_ord"
begin

text \<open>
  Routes of reply messages (\<^verbatim>\<open>keri/src/core/routing.ts\<close>): the templates of routes, the
  matching of a route against a compiled template, and the table of a \<open>Router\<close>. A reply
  operation (\<open>ract\<close>) changes the database and appends cues; unlike an \<open>act\<close> it keeps the
  state when it throws, since the escrow pass catches what a replay throws and goes on with the stores
  as they were left.
\<close>

section \<open>Operations that keep their state on a throw\<close>

type_synonym reply_state = "baser \<times> cue list"
type_synonym 'a ract = "reply_state \<Rightarrow> 'a res \<times> reply_state"

definition ra_ret :: "'a \<Rightarrow> 'a ract" where
  "ra_ret x st = (Inr x, st)"

definition ra_bind :: "'a ract \<Rightarrow> ('a \<Rightarrow> 'b ract) \<Rightarrow> 'b ract" where
  "ra_bind m f st = (case m st of (Inl e, st') \<Rightarrow> (Inl e, st') | (Inr x, st') \<Rightarrow> f x st')"

definition ra_lift :: "'a res \<Rightarrow> 'a ract" where
  "ra_lift r st = (r, st)"

definition ra_get :: "(baser \<Rightarrow> 'a) \<Rightarrow> 'a ract" where
  "ra_get f st = (Inr (f (fst st)), st)"

definition ra_read :: "(baser \<Rightarrow> 'a res) \<Rightarrow> 'a ract" where
  "ra_read f st = (f (fst st), st)"

definition ra_mod :: "(baser \<Rightarrow> baser) \<Rightarrow> unit ract" where
  "ra_mod f st = (Inr (), (f (fst st), snd st))"

definition ra_cue :: "cue \<Rightarrow> unit ract" where
  "ra_cue c st = (Inr (), (fst st, snd st @ [c]))"

definition ra_throw :: "'a ract" where
  "ra_throw st = (Inl JsError, st)"

text \<open>\<open>try\<close> with a \<open>catch\<close> that turns the exception into a value.\<close>

definition ra_try :: "'a ract \<Rightarrow> 'a res ract" where
  "ra_try m st = (case m st of (r, st') \<Rightarrow> (Inr r, st'))"

section \<open>Templates\<close>

text \<open>A compiled template is a sequence of literal characters and named fields. The code gives a
  template to the regular expression engine with the characters \<open>. ( ) [ ] ? * + ^ |\<close> escaped;
  a brace that is no field, a backslash or a dollar would keep its special meaning there and is outside the
  templates described here (\<open>None\<close>).\<close>

datatype uri_token = UriChar char | UriField string

definition ascii_letter :: "char \<Rightarrow> bool" where
  "ascii_letter c \<longleftrightarrow> (let n = of_char c :: nat in (65 \<le> n \<and> n \<le> 90) \<or> (97 \<le> n \<and> n \<le> 122))"

definition word_char :: "char \<Rightarrow> bool" where
  "word_char c \<longleftrightarrow> ascii_letter c \<or> c = CHR ''_'' \<or> (let n = of_char c :: nat in 48 \<le> n \<and> n \<le> 57)"

definition plain_char :: "char \<Rightarrow> bool" where
  "plain_char c \<longleftrightarrow> c \<noteq> CHR ''{'' \<and> c \<noteq> CHR ''}'' \<and> c \<noteq> CHR ''$'' \<and> (of_char c :: nat) \<noteq> 92"

function uri_tokens :: "string \<Rightarrow> uri_token list option" where
  "uri_tokens [] = Some []"
| "uri_tokens (c # s) =
     (if c = CHR ''{'' then
        (let name = takeWhile word_char s; rest = dropWhile word_char s
         in if name \<noteq> [] \<and> ascii_letter (hd name) \<and> rest \<noteq> [] \<and> hd rest = CHR ''}''
            then map_option (Cons (UriField name)) (uri_tokens (tl rest))
            else None)
      else if plain_char c then map_option (Cons (UriChar c)) (uri_tokens s)
      else None)"
  by pat_completeness auto
termination
  by (relation "measure length") (auto simp: le_less_trans [OF diff_le_self] less_Suc_eq_le length_dropWhile_le
      intro: le_trans [OF diff_le_self])

definition token_fields :: "uri_token list \<Rightarrow> string list" where
  "token_fields ts = concat (map (\<lambda>t. case t of UriField f \<Rightarrow> [f] | UriChar _ \<Rightarrow> []) ts)"

fun double_slash :: "string \<Rightarrow> bool" where
  "double_slash (c # d # s) \<longleftrightarrow> (c = CHR ''/'' \<and> d = CHR ''/'') \<or> double_slash (d # s)"
| "double_slash _ = False"

text \<open>A name used by two groups is a syntax error of the expression.\<close>

definition compileUriTemplate :: "string \<Rightarrow> (string list \<times> uri_token list) res" where
  "compileUriTemplate template =
     (if take 1 template \<noteq> ''/'' then Inl JsError
      else if double_slash template then Inl JsError
      else
        (let normalized = if template \<noteq> ''/'' \<and> last template = CHR ''/'' then butlast template else template
         in case uri_tokens normalized of
              None \<Rightarrow> Inl JsError
            | Some ts \<Rightarrow>
                if distinct (token_fields ts) then Inr (remdups (token_fields ts), ts) else Inl JsError))"

section \<open>Matching\<close>

text \<open>The flag \<open>i\<close>: two characters are equal when their upper-case forms are; a mapping that
  leaves the ASCII range for it, or one character, does not count.\<close>

definition js_canon :: "char \<Rightarrow> nat" where
  "js_canon c =
     (let n = of_char c :: nat
      in if (97 \<le> n \<and> n \<le> 122) \<or> (224 \<le> n \<and> n \<le> 254 \<and> n \<noteq> 247) then n - 32 else n)"

fun first_some :: "('a \<Rightarrow> 'b option) \<Rightarrow> 'a list \<Rightarrow> 'b option" where
  "first_some f [] = None"
| "first_some f (x # xs) = (case f x of Some y \<Rightarrow> Some y | None \<Rightarrow> first_some f xs)"

text \<open>A field is \<open>[^/]+\<close>: the longest text without a slash first, then shorter ones.\<close>

definition greedy :: "string \<Rightarrow> nat list" where
  "greedy s = rev [1..<Suc (length (takeWhile (\<lambda>c. c \<noteq> CHR ''/'') s))]"

fun uri_match :: "uri_token list \<Rightarrow> string \<Rightarrow> (string \<times> string) list option" where
  "uri_match [] s = (if s = [] then Some [] else None)"
| "uri_match (UriChar c # ts) [] = None"
| "uri_match (UriChar c # ts) (x # s) = (if js_canon c = js_canon x then uri_match ts s else None)"
| "uri_match (UriField f # ts) s =
     first_some (\<lambda>n. map_option (Cons (f, take n s)) (uri_match ts (drop n s))) (greedy s)"

section \<open>The table\<close>

datatype reply_decision = ReplyAccept | ReplyUnverified

record reply_msg =
  rm_serder :: serder
  rm_diger :: matter
  rm_cigars :: "cigar list"
  rm_tsgs :: "trans_group list"

text \<open>A handler takes the message, its route and the fields of the match; a resource is the table
  of its methods by name.\<close>

type_synonym reply_handler = "reply_msg \<Rightarrow> string \<Rightarrow> (string \<times> string) list \<Rightarrow> reply_decision ract"

record route =
  rt_regex :: "uri_token list"
  rt_fields :: "string list"
  rt_resource :: "string \<Rightarrow> reply_handler option"
  rt_suffix :: "string option"

type_synonym router = "route list"

definition addRoute :: "router \<Rightarrow> string \<Rightarrow> (string \<Rightarrow> reply_handler option) \<Rightarrow> string option \<Rightarrow> router res" where
  "addRoute rtr template resource suffix =
     bind_res (compileUriTemplate template) (\<lambda>(fields, regex).
     Inr (rtr @ [\<lparr>rt_regex = regex, rt_fields = fields, rt_resource = resource, rt_suffix = suffix\<rparr>]))"

definition route_method :: "route \<Rightarrow> string" where
  "route_method r = ''processReply'' @ text_or [] (rt_suffix r)"

fun dispatch_routes :: "router \<Rightarrow> reply_msg \<Rightarrow> string \<Rightarrow> reply_decision ract" where
  "dispatch_routes [] msg route = ra_throw"
| "dispatch_routes (r # rs) msg route =
     (case uri_match (rt_regex r) route of
        None \<Rightarrow> dispatch_routes rs msg route
      | Some params \<Rightarrow>
          (case rt_resource r (route_method r) of
             None \<Rightarrow> ra_throw
           | Some handler \<Rightarrow>
               if \<exists>f \<in> set (rt_fields r). f \<notin> fst ` set params then ra_throw
               else handler msg route params))"

definition router_dispatch :: "router \<Rightarrow> reply_msg \<Rightarrow> reply_decision ract" where
  "router_dispatch rtr msg =
     (let route = serder_route (rm_serder msg)
      in if \<not> truthy route then ra_throw else dispatch_routes rtr msg (text_or [] route))"

section \<open>What a route matches\<close>

text \<open>The language of a compiled template, without an order of choices.\<close>

inductive uri_route :: "uri_token list \<Rightarrow> string \<Rightarrow> (string \<times> string) list \<Rightarrow> bool" where
  route_end: "uri_route [] [] []"
| route_char: "js_canon c = js_canon x \<Longrightarrow> uri_route ts s ps \<Longrightarrow> uri_route (UriChar c # ts) (x # s) ps"
| route_field: "v \<noteq> [] \<Longrightarrow> CHR ''/'' \<notin> set v \<Longrightarrow> uri_route ts s ps
    \<Longrightarrow> uri_route (UriField f # ts) (v @ s) ((f, v) # ps)"

inductive_cases uri_route_end: "uri_route [] s ps"
inductive_cases uri_route_char: "uri_route (UriChar c # ts) s ps"
inductive_cases uri_route_field: "uri_route (UriField f # ts) s ps"

lemma first_some_Some: "first_some f xs = Some y \<Longrightarrow> \<exists>x \<in> set xs. f x = Some y"
  by (induction xs) (auto split: option.splits)

lemma first_some_None: "first_some f xs = None \<longleftrightarrow> (\<forall>x \<in> set xs. f x = None)"
  by (induction xs) (auto split: option.splits)

lemma takeWhile_length_iff:
  "n \<le> length (takeWhile P s) \<longleftrightarrow> n \<le> length s \<and> (\<forall>c \<in> set (take n s). P c)"
proof (induction s arbitrary: n)
  case (Cons c s)
  then show ?case by (cases n) auto
qed simp

lemma greedy_iff: "n \<in> set (greedy s) \<longleftrightarrow> 1 \<le> n \<and> n \<le> length s \<and> CHR ''/'' \<notin> set (take n s)"
proof -
  have "n \<in> set (greedy s) \<longleftrightarrow> 1 \<le> n \<and> n \<le> length (takeWhile (\<lambda>c. c \<noteq> CHR ''/'') s)"
    by (auto simp: greedy_def less_Suc_eq_le simp del: upt_Suc)
  then show ?thesis unfolding takeWhile_length_iff by auto
qed

lemma uri_match_sound: "uri_match ts s = Some ps \<Longrightarrow> uri_route ts s ps"
proof (induction ts s arbitrary: ps rule: uri_match.induct)
  case (4 f ts s)
  obtain n qs where n: "n \<in> set (greedy s)" and m: "uri_match ts (drop n s) = Some qs"
    and ps: "ps = (f, take n s) # qs"
    using 4(2) by (auto dest!: first_some_Some)
  have "uri_route (UriField f # ts) (take n s @ drop n s) ((f, take n s) # qs)"
    by (rule route_field) (use n 4(1) [OF m] in \<open>auto simp: greedy_iff\<close>)
  then show ?case using ps by simp
qed (auto intro: uri_route.intros split: if_splits)

lemma uri_match_complete: "uri_route ts s ps \<Longrightarrow> uri_match ts s \<noteq> None"
proof (induction rule: uri_route.induct)
  case (route_field v ts s ps f)
  have "length v \<in> set (greedy (v @ s))" using route_field(1,2) by (cases v) (auto simp: greedy_iff)
  moreover obtain y where "uri_match ts s = Some y" using route_field.IH by blast
  ultimately show ?case by (auto simp: first_some_None intro!: bexI [of _ "length v"])
qed auto

end
