(* ===== verification/Replies.thy ===== *)
theory Replies
  imports Routing
begin

text \<open>
  Replies (\<^verbatim>\<open>keri/src/core/routing.ts\<close> and the reply handlers of
  \<^verbatim>\<open>core/eventing.ts\<close>): the acceptance of a reply under the rules for best available data, what
  is stored of an accepted reply, the escrow of replies whose signers are not known yet and its replay,
  and the handlers of the four families a node registers: endpoint roles, locations, key state notices
  and watched identifiers. \<open>reply_env\<close> holds what the handlers take from outside: the check of a message's
  SAID (\<open>serder.verify()\<close>), the protocol of a parsed URL, the lax mode, and the keys of the habitat
  store in key order.
\<close>

record reply_env =
  rn_env :: env
  rn_verify :: "serder \<Rightarrow> bool res"
  rn_url :: "string \<Rightarrow> string option"
  rn_lax :: bool
  rn_habs :: "string list"

definition TimeoutRPE :: int where
  "TimeoutRPE = 3600000"

section \<open>Stored signature groups\<close>

definition encodeOrdinalHex :: "dispatch_ordinal \<Rightarrow> string" where
  "encodeOrdinalHex n = (case n of OrdSeqner m \<Rightarrow> seqner_snh m | OrdNumber m \<Rightarrow> number_numh m)"

definition group_row :: "trans_group \<Rightarrow> triple_row" where
  "group_row g = (mt_qb64 (tg_prefixer g), encodeOrdinalHex (tg_seqner g), mt_qb64 (tg_diger g))"

definition row_text :: "triple_row \<Rightarrow> string" where
  "row_text row = (case row of (p, s, d) \<Rightarrow> p @ ''.'' @ s @ ''.'' @ d @ ''.'')"

fun ssgs_insert :: "triple_row \<Rightarrow> string list \<Rightarrow> (triple_row \<times> string list) list \<Rightarrow> (triple_row \<times> string list) list" where
  "ssgs_insert k v [] = [(k, v)]"
| "ssgs_insert k v ((k', v') # rows) =
     (if k = k' then (k, v) # rows
      else if row_text k < row_text k' then (k, v) # (k', v') # rows
      else (k', v') # ssgs_insert k v rows)"

text \<open>The rows under a SAID stand in key order; \<open>pin\<close> with no values changes nothing.\<close>

definition ssgs_pin :: "string \<Rightarrow> triple_row \<Rightarrow> string list \<Rightarrow> baser \<Rightarrow> baser" where
  "ssgs_pin said row sigs db =
     (if sigs = [] then db
      else db\<lparr>db_ssgs := (db_ssgs db)(said := ssgs_insert row (io_put sigs []) (db_ssgs db said))\<rparr>)"

definition ssgs_get :: "baser \<Rightarrow> string \<Rightarrow> triple_row \<Rightarrow> string list" where
  "ssgs_get db said row = (case map_of (db_ssgs db said) row of Some sigs \<Rightarrow> sigs | None \<Rightarrow> [])"

text \<open>One stored group; the ordinal is that of the signer's event, and a row whose event is missing,
  or has no ordinal, is no group.\<close>

definition stored_group :: "baser \<Rightarrow> triple_row \<times> string list \<Rightarrow> trans_group list res" where
  "stored_group db row =
     (case row of
        ((p, s, d), sigs) \<Rightarrow>
          bind_res (map_res siger_of sigs) (\<lambda>sigers.
          if p = [] \<or> s = [] \<or> d = [] then Inr []
          else
            (case getEvtSerder db p d of
               None \<Rightarrow> Inr []
             | Some e \<Rightarrow>
                 bind_res (serder_sner e) (\<lambda>sner.
                 (case sner of
                    None \<Rightarrow> Inr []
                  | Some n \<Rightarrow>
                      bind_res (prefixer_of p) (\<lambda>prefixer.
                      bind_res (diger_of d) (\<lambda>diger.
                      Inr [\<lparr>tg_prefixer = prefixer, tg_seqner = OrdNumber n, tg_diger = diger,
                        tg_sigers = sigers\<rparr>])))))))"

definition fetchStoredTsgs :: "baser \<Rightarrow> string \<Rightarrow> trans_group list res" where
  "fetchStoredTsgs db said =
     bind_res (map_res (stored_group db) (db_ssgs db said)) (\<lambda>groups.
     Inr (sort_key (\<lambda>g. - int (ordinal_num (tg_seqner g))) (concat groups)))"

section \<open>What is stored\<close>

definition reply_pin :: "string \<Rightarrow> matter \<Rightarrow> serder \<Rightarrow> baser \<Rightarrow> baser" where
  "reply_pin said dater s db =
     db\<lparr>db_sdts := map_pin said dater (db_sdts db), db_rpys := map_pin said s (db_rpys db)\<rparr>"

definition updateReply_cigar :: "serder \<Rightarrow> matter \<Rightarrow> matter \<Rightarrow> matter \<Rightarrow> cigar \<Rightarrow> baser \<Rightarrow> baser" where
  "updateReply_cigar s saider dater v c db =
     (let db = reply_pin (mt_qb64 saider) dater s db
      in db\<lparr>db_scgs := (db_scgs db)(mt_qb64 saider := [(mt_qb64 v, mt_qb64 (cg_sig c))])\<rparr>)"

definition updateReply_group :: "serder \<Rightarrow> matter \<Rightarrow> matter \<Rightarrow> trans_group \<Rightarrow> indexer list \<Rightarrow> baser \<Rightarrow> baser" where
  "updateReply_group s saider dater g sigers db =
     ssgs_pin (mt_qb64 saider) (group_row g) (map ix_qb64 sigers) (reply_pin (mt_qb64 saider) dater s db)"

definition removeReply :: "matter option \<Rightarrow> baser \<Rightarrow> baser" where
  "removeReply saider db =
     (case saider of
        None \<Rightarrow> db
      | Some d \<Rightarrow>
          db\<lparr>db_ssgs := (db_ssgs db)(mt_qb64 d := []), db_scgs := (db_scgs db)(mt_qb64 d := []),
             db_rpys := (db_rpys db)(mt_qb64 d := None), db_sdts := (db_sdts db)(mt_qb64 d := None)\<rparr>)"

definition rpes_add :: "string \<Rightarrow> string \<Rightarrow> baser \<Rightarrow> baser" where
  "rpes_add route said db = db\<lparr>db_rpes := (db_rpes db)(route := io_add said (db_rpes db route))\<rparr>"

definition rpes_rem :: "string \<Rightarrow> string \<Rightarrow> baser \<Rightarrow> baser" where
  "rpes_rem route said db =
     db\<lparr>db_rpes := (db_rpes db)(route := filter (\<lambda>x. x \<noteq> said) (db_rpes db route))\<rparr>"

definition escrowReply :: "serder \<Rightarrow> matter \<Rightarrow> matter \<Rightarrow> string \<Rightarrow> trans_group \<Rightarrow> indexer list \<Rightarrow> baser \<Rightarrow> baser" where
  "escrowReply s saider dater route g sigers db =
     (if sigers = [] then db
      else rpes_add route (mt_qb64 saider) (updateReply_group s saider dater g sigers db))"

section \<open>Acceptance\<close>

record acceptance =
  ac_serder :: serder
  ac_saider :: matter
  ac_route :: string
  ac_aid :: string
  ac_osaider :: "matter option"
  ac_cigars :: "cigar list"
  ac_tsgs :: "trans_group list"

definition sameOrNewerReply :: "matter \<Rightarrow> matter option \<Rightarrow> bool res" where
  "sameOrNewerReply nextDater oldDater =
     (case oldDater of
        None \<Rightarrow> Inr True
      | Some od \<Rightarrow>
          bind_res (dater_iso8601 nextDater) (\<lambda>a.
          bind_res (dater_iso8601 od) (\<lambda>b. Inr (newer_than a b))))"

fun accept_cigars :: "env \<Rightarrow> acceptance \<Rightarrow> matter \<Rightarrow> matter option \<Rightarrow> cigar list \<Rightarrow> bool ract" where
  "accept_cigars en ac dater odater [] = ra_ret False"
| "accept_cigars en ac dater odater (c # cs) =
     (case cg_verfer c of
        None \<Rightarrow> ra_throw
      | Some v \<Rightarrow>
          if mt_qb64 v \<noteq> ac_aid ac then accept_cigars en ac dater odater cs
          else
            ra_bind (ra_lift (sameOrNewerReply dater odater)) (\<lambda>newer.
            if \<not> newer then accept_cigars en ac dater odater cs
            else
              ra_bind (ra_lift (verfer_verify en v (mt_raw (cg_sig c)) (sd_raw (ac_serder ac)))) (\<lambda>ok.
              if \<not> ok then accept_cigars en ac dater odater cs
              else
                ra_bind (ra_mod (updateReply_cigar (ac_serder ac) (ac_saider ac) dater v c)) (\<lambda>_.
                ra_bind (ra_mod (removeReply (ac_osaider ac))) (\<lambda>_. ra_ret True)))))"

text \<open>An older lead group bars a group of a lower ordinal, and one of the same ordinal unless the
  reply is newer.\<close>

definition group_barred :: "matter \<Rightarrow> matter option \<Rightarrow> trans_group option \<Rightarrow> trans_group \<Rightarrow> bool res" where
  "group_barred dater odater lead g =
     (case lead of
        None \<Rightarrow> Inr False
      | Some l \<Rightarrow>
          let n = ordinal_num (tg_seqner g); m = ordinal_num (tg_seqner l)
          in if n < m then Inr True
             else if n = m then bind_res (sameOrNewerReply dater odater) (\<lambda>newer. Inr (\<not> newer))
             else Inr False)"

definition reply_threshold :: "env \<Rightarrow> serder \<Rightarrow> (tholder \<times> matter list) res" where
  "reply_threshold en e =
     (case serder_tholder (en_json en) e of
        None \<Rightarrow> Inl JsError
      | Some t \<Rightarrow>
          bind_res (serder_verfers e) (\<lambda>vs.
          if int (length vs) < tn_size (th_threshold t) then Inl JsError else Inr (t, vs)))"

text \<open>Signatures whose index has a key, each index once, are checked in order; the signature is rebuilt
  with its key.\<close>

fun verify_group ::
  "env \<Rightarrow> byte list \<Rightarrow> matter list \<Rightarrow> (int \<times> indexer) list \<Rightarrow> indexer list \<Rightarrow> (int \<times> indexer) list res" where
  "verify_group en raw vs got [] = Inr got"
| "verify_group en raw vs got (s # ss) =
     (case nth_opt vs (ix_index s) of
        None \<Rightarrow> verify_group en raw vs got ss
      | Some v \<Rightarrow>
          if ix_index s \<in> fst ` set got then verify_group en raw vs got ss
          else
            bind_res (verfer_verify en v (ix_raw s) raw) (\<lambda>ok.
            if \<not> ok then verify_group en raw vs got ss
            else
              bind_res (siger_rebuild s) (\<lambda>s'.
              verify_group en raw vs (got @ [(ix_index s, s')]) ss)))"

definition accept_group ::
  "env \<Rightarrow> acceptance \<Rightarrow> matter \<Rightarrow> trans_group \<Rightarrow> serder \<Rightarrow> bool ract" where
  "accept_group en ac dater g e =
     ra_bind (ra_read (\<lambda>db. map_res siger_of (ssgs_get db (mt_qb64 (ac_saider ac)) (group_row g)))) (\<lambda>escrowed.
     ra_bind (ra_lift (reply_threshold en e)) (\<lambda>(t, vs).
     ra_bind (ra_lift (verify_group en (sd_raw (ac_serder ac)) vs [] (trans_group.tg_sigers g @ escrowed))) (\<lambda>verified.
     ra_bind (ra_lift (tholder_satisfy t (map fst verified))) (\<lambda>ok.
     if ok then
       ra_bind (ra_mod (updateReply_group (ac_serder ac) (ac_saider ac) dater g (map snd verified))) (\<lambda>_.
       ra_bind (ra_mod (removeReply (ac_osaider ac))) (\<lambda>_. ra_ret True))
     else
       ra_bind (ra_mod (escrowReply (ac_serder ac) (ac_saider ac) dater (ac_route ac) g (map snd verified)))
         (\<lambda>_. ra_ret False)))))"

definition escrow_unknown :: "acceptance \<Rightarrow> matter \<Rightarrow> trans_group \<Rightarrow> unit ract" where
  "escrow_unknown ac dater g =
     ra_mod (escrowReply (ac_serder ac) (ac_saider ac) dater (ac_route ac) g (trans_group.tg_sigers g))"

fun accept_groups ::
  "env \<Rightarrow> acceptance \<Rightarrow> matter \<Rightarrow> matter option \<Rightarrow> trans_group option \<Rightarrow> trans_group list \<Rightarrow> bool ract" where
  "accept_groups en ac dater odater lead [] = ra_ret False"
| "accept_groups en ac dater odater lead (g # gs) =
     (if mt_qb64 (tg_prefixer g) \<noteq> ac_aid ac then accept_groups en ac dater odater lead gs
      else
        ra_bind (ra_lift (group_barred dater odater lead g)) (\<lambda>barred.
        if barred then accept_groups en ac dater odater lead gs
        else
          ra_bind (ra_get (\<lambda>db. kels_getLast db (mt_qb64 (tg_prefixer g)) (int (js_num (ordinal_num (tg_seqner g))))))
            (\<lambda>est.
          if \<not> truthy est \<or> est \<noteq> Some (mt_qb64 (tg_diger g)) then
            ra_bind (escrow_unknown ac dater g) (\<lambda>_.
            ra_bind (ra_cue (CueQuery (Some (mt_qb64 (tg_prefixer g))) None None)) (\<lambda>_.
            accept_groups en ac dater odater lead gs))
          else
            ra_bind (ra_get (\<lambda>db. getEvtSerder db (mt_qb64 (tg_prefixer g)) (mt_qb64 (tg_diger g)))) (\<lambda>found.
            (case found of
               None \<Rightarrow>
                 ra_bind (escrow_unknown ac dater g) (\<lambda>_. accept_groups en ac dater odater lead gs)
             | Some e \<Rightarrow>
                 ra_bind (accept_group en ac dater g e) (\<lambda>ok.
                 if ok then ra_ret True else accept_groups en ac dater odater lead gs))))))"

definition old_lead :: "baser \<Rightarrow> matter option \<Rightarrow> trans_group option res" where
  "old_lead db osaider =
     (case osaider of
        None \<Rightarrow> Inr None
      | Some o' \<Rightarrow> bind_res (fetchStoredTsgs db (mt_qb64 o')) (\<lambda>gs. Inr (case gs of [] \<Rightarrow> None | g # _ \<Rightarrow> Some g)))"

definition old_dater :: "baser \<Rightarrow> matter option \<Rightarrow> matter option" where
  "old_dater db osaider = (case osaider of None \<Rightarrow> None | Some o' \<Rightarrow> db_sdts db (mt_qb64 o'))"

definition acceptReply :: "env \<Rightarrow> acceptance \<Rightarrow> reply_decision ract" where
  "acceptReply en ac =
     (case text_field (ac_serder ac) ''dt'' of
        None \<Rightarrow> ra_throw
      | Some dt \<Rightarrow>
          ra_bind (ra_lift (dater_of (encodeDateTimeToDater dt))) (\<lambda>dater.
          ra_bind (ra_get (\<lambda>db. old_dater db (ac_osaider ac))) (\<lambda>odater.
          ra_bind (accept_cigars en ac dater odater (ac_cigars ac)) (\<lambda>got.
          if got then ra_ret ReplyAccept
          else
            ra_bind (ra_read (\<lambda>db. old_lead db (ac_osaider ac))) (\<lambda>lead.
            ra_bind (accept_groups en ac dater odater lead (ac_tsgs ac)) (\<lambda>got.
            ra_ret (if got then ReplyAccept else ReplyUnverified)))))))"

section \<open>Endpoint roles and locations\<close>

definition Roles :: "string list" where
  "Roles = [''controller'', ''witness'', ''registrar'', ''gateway'', ''watcher'', ''judge'', ''juror'',
     ''peer'', ''mailbox'', ''agent'', ''indexer'']"

definition isRole :: "string \<Rightarrow> bool" where
  "isRole role \<longleftrightarrow> role \<in> set Roles"

definition starts_with :: "string \<Rightarrow> string \<Rightarrow> bool" where
  "starts_with p s \<longleftrightarrow> take (length p) s = p"

text \<open>The text of a field of the data \<open>a\<close> of a reply; a prefix among them must parse.\<close>

definition reply_text :: "serder \<Rightarrow> string \<Rightarrow> string option" where
  "reply_text s f = (case sad_field s ''a'' of None \<Rightarrow> None | Some a \<Rightarrow> value_text (jfield a f))"

definition reply_prefix :: "serder \<Rightarrow> string \<Rightarrow> string option res" where
  "reply_prefix s f =
     (case reply_text s f of
        None \<Rightarrow> Inr None
      | Some t \<Rightarrow> bind_res (prefixer_of t) (\<lambda>p. Inr (Some (mt_qb64 p))))"

text \<open>A reply with the SAID of the accepted one is compared with nothing.\<close>

definition prior_reply :: "matter option \<Rightarrow> matter \<Rightarrow> matter option" where
  "prior_reply old d = (case old of None \<Rightarrow> None | Some m \<Rightarrow> if mt_qb64 m = mt_qb64 d then None else Some m)"

definition reply_acceptance :: "reply_msg \<Rightarrow> string \<Rightarrow> string \<Rightarrow> matter option \<Rightarrow> acceptance" where
  "reply_acceptance msg route aid osaider =
     \<lparr>ac_serder = rm_serder msg, ac_saider = rm_diger msg, ac_route = route, ac_aid = aid,
      ac_osaider = osaider, ac_cigars = rm_cigars msg, ac_tsgs = rm_tsgs msg\<rparr>"

definition updateEnd :: "triple_row \<Rightarrow> matter \<Rightarrow> bool \<Rightarrow> baser \<Rightarrow> baser" where
  "updateEnd keys saider allowed db =
     (let existing = (case db_ends db keys of
            Some r \<Rightarrow> r
          | None \<Rightarrow> \<lparr>er_allowed = None, er_enabled = None, er_name = None\<rparr>)
      in db\<lparr>db_eans := map_pin keys saider (db_eans db),
            db_ends := map_pin keys (existing\<lparr>er_allowed := Some allowed\<rparr>) (db_ends db)\<rparr>)"

definition updateLoc :: "couple_row \<Rightarrow> matter \<Rightarrow> string \<Rightarrow> baser \<Rightarrow> baser" where
  "updateLoc keys saider url db =
     db\<lparr>db_lans := map_pin keys saider (db_lans db), db_locs := map_pin keys url (db_locs db)\<rparr>"

definition role_allowed :: "string \<Rightarrow> bool option" where
  "role_allowed route =
     (if starts_with ''/end/role/add'' route then Some True
      else if starts_with ''/end/role/cut'' route then Some False else None)"

text \<open>What a handler does once the reply is accepted; otherwise the decision is unverified.\<close>

definition when_accepted :: "reply_decision \<Rightarrow> unit ract \<Rightarrow> reply_decision ract" where
  "when_accepted d m =
     (if d = ReplyUnverified then ra_ret ReplyUnverified else ra_bind m (\<lambda>_. ra_ret ReplyAccept))"

definition processReplyEndRole :: "reply_env \<Rightarrow> reply_handler" where
  "processReplyEndRole rn msg route params =
     (case role_allowed route of
        None \<Rightarrow> ra_throw
      | Some allowed \<Rightarrow>
          ra_bind (ra_lift (reply_prefix (rm_serder msg) ''cid'')) (\<lambda>cid.
          ra_bind (ra_lift (reply_prefix (rm_serder msg) ''eid'')) (\<lambda>eid.
          let role = reply_text (rm_serder msg) ''role''
          in if \<not> truthy cid \<or> \<not> truthy role \<or> \<not> truthy eid then ra_throw
             else if \<not> isRole (text_or [] role) then ra_throw
             else
               (let keys = (text_or [] cid, text_or [] role, text_or [] eid)
                in ra_bind (ra_get (\<lambda>db. prior_reply (db_eans db keys) (rm_diger msg))) (\<lambda>osaider.
                   ra_bind (acceptReply (rn_env rn)
                     (reply_acceptance msg ''/end/role'' (text_or [] cid) osaider)) (\<lambda>d.
                   when_accepted d (ra_mod (updateEnd keys (rm_diger msg) allowed))))))))"

text \<open>A location with an empty URL takes the location back and is not parsed.\<close>

definition url_scheme_ok :: "reply_env \<Rightarrow> string \<Rightarrow> string \<Rightarrow> bool" where
  "url_scheme_ok rn url scheme \<longleftrightarrow>
     url = []
     \<or> (case rn_url rn url of None \<Rightarrow> False | Some protocol \<Rightarrow> protocol = [] \<or> butlast protocol = scheme)"

definition processReplyLocScheme :: "reply_env \<Rightarrow> reply_handler" where
  "processReplyLocScheme rn msg route params =
     (if \<not> starts_with ''/loc/scheme'' route then ra_throw
      else
        ra_bind (ra_lift (reply_prefix (rm_serder msg) ''eid'')) (\<lambda>eid.
        let scheme = reply_text (rm_serder msg) ''scheme''; url = reply_text (rm_serder msg) ''url''
        in if \<not> truthy eid \<or> \<not> truthy scheme \<or> url = None then ra_throw
           else if \<not> url_scheme_ok rn (text_or [] url) (text_or [] scheme) then ra_throw
           else
             (let keys = (text_or [] eid, text_or [] scheme)
              in ra_bind (ra_get (\<lambda>db. prior_reply (db_lans db keys) (rm_diger msg))) (\<lambda>osaider.
                 ra_bind (acceptReply (rn_env rn)
                   (reply_acceptance msg ''/loc/scheme'' (text_or [] eid) osaider)) (\<lambda>d.
                 when_accepted d (ra_mod (updateLoc keys (rm_diger msg) (text_or [] url))))))))"

section \<open>Key state notices\<close>

text \<open>\<open>KeyStateRecord.fromDict\<close>: the list members are copied by spreading, which takes a
  text apart and throws on a value that is not iterable; the member \<open>ee\<close> is read the same way.\<close>

definition js_falsy :: "jvalue \<Rightarrow> bool" where
  "js_falsy v \<longleftrightarrow> v = JNull \<or> v = JBool False \<or> v = JNum 0 \<or> v = JStr []"

definition js_spread :: "jvalue \<Rightarrow> jvalue res" where
  "js_spread v =
     (if js_falsy v then Inr v
      else case v of
             JArr vs \<Rightarrow> Inr (JArr vs)
           | JStr t \<Rightarrow> Inr (JArr (map (\<lambda>c. JStr [c]) t))
           | _ \<Rightarrow> Inl JsError)"

fun spread_fields :: "(string \<Rightarrow> jvalue \<Rightarrow> jvalue res) \<Rightarrow> (string \<times> jvalue) list \<Rightarrow> (string \<times> jvalue) list res" where
  "spread_fields f [] = Inr []"
| "spread_fields f ((k, v) # kvs) =
     bind_res (f k v) (\<lambda>v'. bind_res (spread_fields f kvs) (\<lambda>rest. Inr ((k, v') # rest)))"

definition object_spread :: "jvalue \<Rightarrow> (string \<times> jvalue) list" where
  "object_spread v =
     (case v of
        JObj kvs \<Rightarrow> kvs
      | JArr vs \<Rightarrow> zip (map dec_str [0..<length vs]) vs
      | JStr t \<Rightarrow> zip (map dec_str [0..<length t]) (map (\<lambda>c. JStr [c]) t)
      | _ \<Rightarrow> [])"

definition state_ee_fromDict :: "jvalue \<Rightarrow> jvalue res" where
  "state_ee_fromDict v =
     bind_res (spread_fields (\<lambda>k x. if k \<in> {''br'', ''ba''} then js_spread x else Inr x) (object_spread v))
       (\<lambda>kvs. Inr (JObj kvs))"

definition key_state_member :: "string \<Rightarrow> jvalue \<Rightarrow> jvalue res" where
  "key_state_member k v =
     (if k \<in> {''vn'', ''k'', ''n'', ''b'', ''c''} then js_spread v
      else if k = ''ee'' \<and> \<not> js_falsy v then state_ee_fromDict v else Inr v)"

definition key_state_fromDict :: "jvalue option \<Rightarrow> jvalue res" where
  "key_state_fromDict a =
     (case a of
        None \<Rightarrow> Inr (JObj [])
      | Some JNull \<Rightarrow> Inl JsError
      | Some v \<Rightarrow> bind_res (spread_fields key_state_member (object_spread v)) (\<lambda>kvs. Inr (JObj kvs)))"

text \<open>\<open>parseInt(s, 16)\<close>: white space, a sign, \<open>0x\<close>, the longest run of digits;
  \<open>None\<close> is NaN.\<close>

definition js_parseInt16 :: "string \<Rightarrow> int option" where
  "js_parseInt16 s =
     (let t = dropWhile js_white s;
          neg = take 1 t = ''-'';
          u = (if neg \<or> take 1 t = ''+'' then drop 1 t else t);
          w = (if take 2 u = ''0x'' \<or> take 2 u = ''0X'' then drop 2 u else u)
      in map_option (\<lambda>n. if neg then - int (js_num n) else int (js_num n))
           (read_radix 16 (takeWhile (\<lambda>c. digit_val c \<noteq> None) w)))"

definition configuredWatchers :: "string list \<Rightarrow> baser \<Rightarrow> string list" where
  "configuredWatchers habs db =
     concat (map (\<lambda>pre. case db_habs db pre of Some hab \<Rightarrow> hb_watchers hab | None \<Rightarrow> []) habs)"

text \<open>The sources a strict node takes key states from: the controller, a backer the notice names, a
  watcher of its own.\<close>

definition ksn_backed :: "jvalue \<Rightarrow> string \<Rightarrow> bool res" where
  "ksn_backed ksn aid =
     (case jfield ksn ''b'' of
        None \<Rightarrow> Inr False
      | Some JNull \<Rightarrow> Inr False
      | Some (JStr t) \<Rightarrow> Inr False
      | Some (JArr vs) \<Rightarrow> Inr (JStr aid \<in> set vs)
      | Some _ \<Rightarrow> Inl JsError)"

definition ksn_trusted :: "reply_env \<Rightarrow> jvalue \<Rightarrow> string \<Rightarrow> string \<Rightarrow> bool ract" where
  "ksn_trusted rn ksn pre aid =
     (if rn_lax rn \<or> aid = pre then ra_ret True
      else
        ra_bind (ra_lift (ksn_backed ksn aid)) (\<lambda>backed.
        if backed then ra_ret True
        else ra_get (\<lambda>db. aid \<in> set (configuredWatchers (rn_habs rn) db))))"

definition knas_key :: "string \<Rightarrow> string \<Rightarrow> string" where
  "knas_key pre aid = pre @ ''.'' @ aid"

definition updateKeyState :: "string \<Rightarrow> string \<Rightarrow> jvalue \<Rightarrow> matter \<Rightarrow> matter \<Rightarrow> baser \<Rightarrow> baser" where
  "updateKeyState aid pre ksn saider dater db =
     db\<lparr>db_kdts := map_pin (mt_qb64 saider) dater (db_kdts db),
        db_ksns := map_pin (mt_qb64 saider) ksn (db_ksns db),
        db_knas := map_pin (knas_key pre aid) saider (db_knas db)\<rparr>"

definition stale_notice :: "baser \<Rightarrow> string \<Rightarrow> int \<Rightarrow> bool" where
  "stale_notice db pre sn = (case db_kevers db pre of None \<Rightarrow> False | Some k \<Rightarrow> sn < int (kever_sn k))"

definition save_notice :: "string \<Rightarrow> jvalue \<Rightarrow> string \<Rightarrow> int \<Rightarrow> string \<Rightarrow> string \<Rightarrow> unit ract" where
  "save_notice aid ksn pre sn said dt =
     ra_bind (ra_get (\<lambda>db. kels_getLast db pre sn)) (\<lambda>ldig.
     if truthy ldig \<and> ldig \<noteq> Some said then ra_throw
     else
       ra_bind (ra_lift (diger_of said)) (\<lambda>saider.
       ra_bind (ra_lift (dater_of (encodeDateTimeToDater dt))) (\<lambda>dater.
       ra_bind (ra_mod (updateKeyState aid pre ksn saider dater)) (\<lambda>_.
       ra_cue (CueKeyStateNoticed ksn)))))"

definition processReplyKeyStateNotice :: "reply_env \<Rightarrow> reply_handler" where
  "processReplyKeyStateNotice rn msg route params =
     (if \<not> starts_with ''/ksn'' route then ra_throw
      else
        ra_bind (ra_lift (key_state_fromDict (sad_field (rm_serder msg) ''a''))) (\<lambda>ksn.
        let aid = text_or [] (map_of params ''aid'');
            pre = value_text (jfield ksn ''i'');
            sn = Option.bind (value_text (jfield ksn ''s'')) js_parseInt16;
            said = value_text (jfield ksn ''d'');
            dt = value_text (jfield ksn ''dt'')
        in case sn of
             None \<Rightarrow> ra_throw
           | Some n \<Rightarrow>
               if \<not> truthy pre \<or> \<not> truthy said \<or> \<not> truthy dt then ra_throw
               else
                 ra_bind (ksn_trusted rn ksn (text_or [] pre) aid) (\<lambda>trusted.
                 if \<not> trusted then ra_throw
                 else
                   ra_bind (ra_get (\<lambda>db. stale_notice db (text_or [] pre) n)) (\<lambda>stale.
                   if stale then ra_throw
                   else
                     ra_bind (ra_get (\<lambda>db. prior_reply (db_knas db (knas_key (text_or [] pre) aid)) (rm_diger msg)))
                       (\<lambda>osaider.
                     ra_bind (acceptReply (rn_env rn) (reply_acceptance msg route aid osaider)) (\<lambda>d.
                     when_accepted d
                       (save_notice aid ksn (text_or [] pre) n (text_or [] said) (text_or [] dt))))))))"

section \<open>Watched identifiers\<close>

definition watch_action :: "string option \<Rightarrow> bool option" where
  "watch_action action =
     (if action = Some ''add'' then Some True else if action = Some ''cut'' then Some False else None)"

definition updateWatched :: "string \<Rightarrow> triple_row \<Rightarrow> matter \<Rightarrow> bool \<Rightarrow> baser \<Rightarrow> baser" where
  "updateWatched now keys saider enabled db =
     (let observed = (case db_obvs db keys of
            Some r \<Rightarrow> r
          | None \<Rightarrow> \<lparr>ob_enabled = None, ob_name = None, ob_datetime = Some now\<rparr>)
      in db\<lparr>db_wwas := map_pin keys saider (db_wwas db),
            db_obvs := map_pin keys (observed\<lparr>ob_enabled := Some enabled\<rparr>) (db_obvs db)\<rparr>)"

definition queue_oobi :: "string \<Rightarrow> string option \<Rightarrow> baser \<Rightarrow> baser" where
  "queue_oobi now oobi db =
     (if truthy oobi
      then db\<lparr>db_oobis := map_pin (text_or [] oobi) \<lparr>oo_date = Some now, oo_state = Some ''queued''\<rparr> (db_oobis db)\<rparr>
      else db)"

definition processReplyAddWatched :: "reply_env \<Rightarrow> reply_handler" where
  "processReplyAddWatched rn msg route params =
     (if \<not> starts_with ''/watcher'' route then ra_throw
      else case watch_action (map_of params ''action'') of
             None \<Rightarrow> ra_throw
           | Some enabled \<Rightarrow>
               ra_bind (ra_lift (reply_prefix (rm_serder msg) ''cid'')) (\<lambda>cid.
               ra_bind (ra_lift (reply_prefix (rm_serder msg) ''oid'')) (\<lambda>oid.
               if \<not> truthy cid \<or> \<not> truthy oid then ra_throw
               else
                 (let aid = text_or [] (map_of params ''aid'');
                      keys = (text_or [] cid, aid, text_or [] oid)
                  in ra_bind (ra_get (\<lambda>db. prior_reply (db_wwas db keys) (rm_diger msg))) (\<lambda>osaider.
                     ra_bind (acceptReply (rn_env rn)
                       (reply_acceptance msg (''/watcher/'' @ aid) (text_or [] cid) osaider)) (\<lambda>d.
                     when_accepted d
                       (ra_mod (\<lambda>db. updateWatched (en_now (rn_env rn)) keys (rm_diger msg) enabled
                         (queue_oobi (en_now (rn_env rn)) (reply_text (rm_serder msg) ''oobi'') db)))))))))"

section \<open>The reply verifier\<close>

text \<open>The methods of the two handler objects, and the table of routes the reactor builds.\<close>

definition basic_handler :: "reply_env \<Rightarrow> string \<Rightarrow> reply_handler option" where
  "basic_handler rn name =
     (if name = ''processReplyEndRole'' then Some (processReplyEndRole rn)
      else if name = ''processReplyLocScheme'' then Some (processReplyLocScheme rn) else None)"

definition kevery_handler :: "reply_env \<Rightarrow> string \<Rightarrow> reply_handler option" where
  "kevery_handler rn name =
     (if name = ''processReplyKeyStateNotice'' then Some (processReplyKeyStateNotice rn)
      else if name = ''processReplyAddWatched'' then Some (processReplyAddWatched rn) else None)"

definition basic_routes :: "reply_env \<Rightarrow> router \<Rightarrow> router res" where
  "basic_routes rn rtr =
     bind_res (addRoute rtr ''/end/role/{action}'' (basic_handler rn) (Some ''EndRole'')) (\<lambda>rtr.
     addRoute rtr ''/loc/scheme'' (basic_handler rn) (Some ''LocScheme''))"

definition kevery_routes :: "reply_env \<Rightarrow> router \<Rightarrow> router res" where
  "kevery_routes rn rtr =
     bind_res (addRoute rtr ''/ksn/{aid}'' (kevery_handler rn) (Some ''KeyStateNotice'')) (\<lambda>rtr.
     addRoute rtr ''/watcher/{aid}/{action}'' (kevery_handler rn) (Some ''AddWatched''))"

definition node_router :: "reply_env \<Rightarrow> router res" where
  "node_router rn = bind_res (basic_routes rn []) (kevery_routes rn)"

definition processReply ::
  "reply_env \<Rightarrow> router \<Rightarrow> serder \<Rightarrow> cigar list \<Rightarrow> trans_group list \<Rightarrow> reply_decision ract" where
  "processReply rn rtr s cigars tsgs =
     ra_bind (ra_lift (rn_verify rn s)) (\<lambda>ok.
     if \<not> ok \<or> \<not> truthy (sd_said s) then ra_throw
     else
       ra_bind (ra_lift (diger_of (text_or [] (sd_said s)))) (\<lambda>diger.
       router_dispatch rtr \<lparr>rm_serder = s, rm_diger = diger, rm_cigars = cigars, rm_tsgs = tsgs\<rparr>))"

section \<open>Escrow\<close>

definition replay_reply :: "reply_env \<Rightarrow> router \<Rightarrow> serder \<Rightarrow> trans_group list \<Rightarrow> escrow_decision ract" where
  "replay_reply rn rtr s tsgs =
     ra_bind (ra_try (processReply rn rtr s [] tsgs)) (\<lambda>r.
     ra_ret (case r of
         Inl _ \<Rightarrow> EdDrop DropProcessingError
       | Inr ReplyUnverified \<Rightarrow> EdKeep KeepUnverifiedReply
       | Inr ReplyAccept \<Rightarrow> EdAccept))"

definition reprocessEscrowedReply :: "reply_env \<Rightarrow> router \<Rightarrow> matter \<Rightarrow> escrow_decision ract" where
  "reprocessEscrowedReply rn rtr diger =
     ra_bind (ra_get (\<lambda>db. (db_sdts db (mt_qb64 diger), db_rpys db (mt_qb64 diger)))) (\<lambda>(dater, found).
     ra_bind (ra_read (\<lambda>db. fetchStoredTsgs db (mt_qb64 diger))) (\<lambda>tsgs.
     (case (dater, found) of
        (Some d, Some s) \<Rightarrow>
          if tsgs = [] then ra_ret (EdDrop DropMissingEscrowArtifact)
          else
            ra_bind (ra_lift (dater_iso8601 d)) (\<lambda>stamp.
            if older_than TimeoutRPE (en_now (rn_env rn)) stamp then ra_ret (EdDrop DropStale)
            else replay_reply rn rtr s tsgs)
      | _ \<Rightarrow> ra_ret (EdDrop DropMissingEscrowArtifact))))"

text \<open>A row is known by its route up to the first dot, the separator of keys.\<close>

definition rpes_route :: "string \<Rightarrow> string" where
  "rpes_route key = takeWhile (\<lambda>c. c \<noteq> CHR ''.'') key"

definition rpe_row :: "reply_env \<Rightarrow> router \<Rightarrow> string \<times> string \<Rightarrow> unit ract" where
  "rpe_row rn rtr row =
     (case row of
        (key, said) \<Rightarrow>
          ra_bind (ra_lift (diger_of said)) (\<lambda>diger.
          if rpes_route key = [] then ra_ret ()
          else
            ra_bind (reprocessEscrowedReply rn rtr diger) (\<lambda>d.
            (case d of
               EdAccept \<Rightarrow> ra_mod (rpes_rem (rpes_route key) (mt_qb64 diger))
             | EdKeep _ \<Rightarrow> ra_ret ()
             | EdDrop _ \<Rightarrow>
                 ra_mod (\<lambda>db. removeReply (Some diger) (rpes_rem (rpes_route key) (mt_qb64 diger) db))))))"

fun ra_each :: "('a \<Rightarrow> unit ract) \<Rightarrow> 'a list \<Rightarrow> unit ract" where
  "ra_each f [] = ra_ret ()"
| "ra_each f (x # xs) = ra_bind (f x) (\<lambda>_. ra_each f xs)"

text \<open>\<open>keys\<close> are the routes that have rows, in key order; the rows are read first.\<close>

definition rpe_rows :: "string list \<Rightarrow> baser \<Rightarrow> (string \<times> string) list" where
  "rpe_rows keys db = concat (map (\<lambda>key. map (Pair key) (db_rpes db key)) keys)"

definition processEscrowReply :: "reply_env \<Rightarrow> router \<Rightarrow> string list \<Rightarrow> unit ract" where
  "processEscrowReply rn rtr keys = ra_bind (ra_get (rpe_rows keys)) (ra_each (rpe_row rn rtr))"

end
