(* ===== verification/ReceiptFrame.thy ===== *)
theory ReceiptFrame
  imports ReceiptEscrows KeveryInv
begin

text \<open>
  What receipt processing may do to the stores, proved once. The locale \<open>receipt_frame\<close>
  asks of a relation between the database before and after that the primitive writes of receipts
  keep it, the writes of verified material under what was verified; it gives the relation for
  every receipt operation. The signature suites are fixed; the clock may differ between operations.
\<close>

section \<open>Verified material\<close>

text \<open>The event a receipt is about is stored and was accepted.\<close>

definition accepted :: "baser \<Rightarrow> string \<Rightarrow> string \<Rightarrow> bool" where
  "accepted db pre said \<longleftrightarrow>
     (\<exists>n. said \<in> set (on_get n (db_kels db pre))) \<or> said \<in> set (db_fels db pre)"

definition receipted_ok :: "baser \<Rightarrow> receipted \<Rightarrow> bool" where
  "receipted_ok db ev \<longleftrightarrow>
     db_evts db (rc_pre ev, rc_said ev) = Some (rc_serder ev) \<and> accepted db (rc_pre ev) (rc_said ev)"

definition couple_ok :: "env \<Rightarrow> serder \<Rightarrow> couple_row \<Rightarrow> bool" where
  "couple_ok en s row \<longleftrightarrow>
     (\<exists>v p (m :: matter). row = (mt_qb64 p, mt_qb64 m) \<and> prefixer_of (mt_qb64 v) = Inr p
        \<and> verfer_verify en v (mt_raw m) (sd_raw s) = Inr True)"

lemma truthy_Some: "truthy (Some s) \<longleftrightarrow> s \<noteq> []"
  by (simp add: truthy_def split: list.split)

lemma couple_okI:
  "prefixer_of (mt_qb64 v) = Inr p \<Longrightarrow> verfer_verify en v (mt_raw m) (sd_raw s) = Inr True
    \<Longrightarrow> couple_ok en s (mt_qb64 p, mt_qb64 m)" for m :: matter
  unfolding couple_ok_def by blast

text \<open>The key is that of the index in an establishment event of the receiptor's log.\<close>

definition quadruple_ok :: "env \<Rightarrow> baser \<Rightarrow> serder \<Rightarrow> quadruple_row \<Rightarrow> bool" where
  "quadruple_ok en db s row \<longleftrightarrow>
     (\<exists>(p :: matter) (n :: matter) (d :: matter) w w' v e vs k. row = (mt_qb64 p, mt_qb64 n, mt_qb64 d, ix_qb64 w') \<and> siger_rebuild w = Inr w'
        \<and> mt_qb64 d \<in> set (on_get k (db_kels db (mt_qb64 p))) \<and> db_evts db (mt_qb64 p, mt_qb64 d) = Some e
        \<and> serder_verfers e = Inr vs \<and> nth_opt vs (ix_index w) = Some v
        \<and> verfer_verify en v (ix_raw w) (sd_raw s) = Inr True)"

lemma quadruple_okI:
  "siger_rebuild w = Inr w' \<Longrightarrow> mt_qb64 d \<in> set (on_get k (db_kels db (mt_qb64 p)))
    \<Longrightarrow> db_evts db (mt_qb64 p, mt_qb64 d) = Some e \<Longrightarrow> serder_verfers e = Inr vs
    \<Longrightarrow> nth_opt vs (ix_index w) = Some v \<Longrightarrow> verfer_verify en v (ix_raw w) (sd_raw s) = Inr True
    \<Longrightarrow> quadruple_ok en db s (mt_qb64 p, mt_qb64 n, mt_qb64 d, ix_qb64 w')" for p n d :: matter
  unfolding quadruple_ok_def by blast

lemma same_verify: "en_verify en = en_verify en' \<Longrightarrow> verfer_verify en = verfer_verify en'"
  by (intro ext) (simp add: verfer_verify_def)

section \<open>The interface\<close>

locale receipt_frame = act_frame +
  fixes en0 :: env
  assumes cache: "db_kevers db pre = None \<Longrightarrow> getState db pre = Some st \<Longrightarrow> kever_reload en db st = Inr k
      \<Longrightarrow> R db (db\<lparr>db_kevers := (db_kevers db)(pre := Some k)\<rparr>)"
    and stamp: "R db (db\<lparr>db_dtss := map_pin key d (db_dtss db)\<rparr>)"
    and uwes: "R db (uwes_add pre sn crow db)" "R db (uwes_rem pre sn crow db)"
    and ures: "R db (ures_add pre sn trow db)" "R db (ures_rem pre sn trow db)"
    and vres: "R db (vres_add pre sn qrow db)" "R db (vres_rem pre sn qrow db)"
    and wigs: "R db (wigs_add key wig db)"
    and couple: "receipted_ok db ev \<Longrightarrow> couple_ok en0 (rc_serder ev) row
      \<Longrightarrow> R db (rcts_add (rc_pre ev, rc_said ev) row db)"
    and quadruple: "receipted_ok db ev \<Longrightarrow> quadruple_ok en0 db (rc_serder ev) qu
      \<Longrightarrow> R db (vrcs_add (rc_pre ev, rc_said ev) qu db)"
    and stable: "R a b \<Longrightarrow> receipted_ok a ev \<Longrightarrow> receipted_ok b ev"
begin

text \<open>The relation for an operation on an event that is known to be accepted.\<close>

definition on_event :: "receipted \<Rightarrow> baser \<Rightarrow> baser \<Rightarrow> bool" where
  "on_event ev a b \<longleftrightarrow> (receipted_ok a ev \<longrightarrow> R a b)"

lemma on_event_frame: "act_frame (on_event ev)"
  by unfold_locales (auto simp: on_event_def refl intro: trans stable)

lemmas oe_pure = act_frame.keeps_pure [OF on_event_frame]
  and oe_bind = act_frame.keeps_bind [OF on_event_frame]
  and oe_mod = act_frame.keeps_mod [OF on_event_frame]
  and oe_option = act_frame.keeps_option [OF on_event_frame]
  and oe_comb = act_frame.keeps_comb [OF on_event_frame]

lemma on_event_keeps: "keeps R m \<Longrightarrow> keeps (on_event ev) m"
  by (auto simp: keeps_def on_event_def)

lemma frame_each: "act_frame S \<Longrightarrow> (\<And>x. keeps S (f x)) \<Longrightarrow> keeps S (act_each f xs)"
  by (induction xs) (auto intro: act_frame.keeps_pure act_frame.keeps_bind)

lemma keeps_each: "(\<And>x. keeps R (f x)) \<Longrightarrow> keeps R (act_each f xs)"
  by (rule frame_each) unfold_locales

lemma keeps_kever: "keeps R (getKever en pre)"
  by (auto simp: keeps_def getKever_def res_simps refl cache split: option.splits)

lemma keeps_resolve: "keeps R (resolveAcceptedEventWitnesses en pre said s)"
  unfolding resolveAcceptedEventWitnesses_def by (intro keeps_comb keeps_kever)

lemma keeps_target: "keeps R (decide_target en pre said)"
  unfolding decide_target_def by (intro keeps_comb keeps_resolve)

lemma keeps_receipt_event: "keeps R (decideReceiptEvent en pre sn said)"
  unfolding decideReceiptEvent_def by (intro keeps_comb keeps_target)

lemma keeps_replay_event: "keeps R (resolveReplayReceiptedEvent en s firner)"
  unfolding resolveReplayReceiptedEvent_def Let_def by (intro keeps_comb keeps_target)

lemma keeps_stamp: "keeps R (pin_escrow_time en key)"
  unfolding pin_escrow_time_def by (intro keeps_comb keeps_mod stamp)

lemma keeps_escrow:
  "keeps R (escrowUWReceipt en s wigers said)" "keeps R (escrowUReceipt en s cigars said)"
  "keeps R (escrowTRGroups en s tsgs)" "keeps R (escrowTReceipts en s p n d sigers)"
  "keeps R (escrowTRQuadruple en s p n d siger)"
  unfolding escrowUWReceipt_def escrowUReceipt_def escrowTRGroups_def escrowTReceipts_def
    escrowTRQuadruple_def escrow_trans_def escrow_ure_def escrow_vre_def
  by (intro keeps_comb keeps_stamp keeps_each keeps_mod uwes ures vres)+

lemma keeps_missing: "keeps R (escrowMissingReceiptedEvent en envl said)"
  unfolding escrowMissingReceiptedEvent_def Let_def by (intro keeps_comb keeps_escrow)

section \<open>Storing verified material\<close>

lemma lift_frame:
  "act_frame S \<Longrightarrow> (\<And>x. r = Inr x \<Longrightarrow> keeps S (f x)) \<Longrightarrow> keeps S (act_bind (act_lift r) f)"
  by (auto simp: keeps_def act_simps)

lemma keeps_promote:
  assumes "verfer_verify en0 v (mt_raw (cg_sig c)) (sd_raw (rc_serder ev)) = Inr True"
  shows "keeps (on_event ev) (promote_cigar (rc_pre ev, rc_said ev) wits v c)"
  unfolding promote_cigar_def
  by (intro lift_frame [OF on_event_frame] oe_mod oe_option)
    (use assms in \<open>auto simp: on_event_def intro!: wigs couple couple_okI\<close>)

lemma keeps_store_cigar:
  assumes "en_verify en = en_verify en0"
  shows "keeps (on_event ev) (store_cigar en lax loc ev c)"
  unfolding store_cigar_def same_verify [OF assms]
  by (intro lift_frame [OF on_event_frame] oe_comb keeps_promote) auto

lemma keeps_store_wiger: "keeps R (store_wiger en lax loc ev w)"
  unfolding store_wiger_def by (intro keeps_comb keeps_mod wigs)

lemma keeps_detached:
  assumes "en_verify en = en_verify en0"
  shows "keeps (on_event ev) (storeVerifiedDetachedReceiptMaterial en lax ev envl loc)"
  unfolding storeVerifiedDetachedReceiptMaterial_def
  by (intro oe_bind frame_each [OF on_event_frame] keeps_store_cigar [OF assms]
      on_event_keeps [OF keeps_store_wiger])

lemma store_quadruple_kept:
  assumes "store_quadruple ev p n d w db = Inr (u, db')" and "receipted_ok db ev"
    and "mt_qb64 d \<in> set (on_get k (db_kels db (mt_qb64 p)))" "db_evts db (mt_qb64 p, mt_qb64 d) = Some e"
    and "serder_verfers e = Inr vs" "nth_opt vs (ix_index w) = Some v"
    and "verfer_verify en0 v (ix_raw w) (sd_raw (rc_serder ev)) = Inr True"
  shows "R db db'"
proof -
  obtain n' :: matter and w' where "siger_rebuild w = Inr w'"
    "db' = vrcs_add (rc_pre ev, rc_said ev) (mt_qb64 p, mt_qb64 n', mt_qb64 d, ix_qb64 w') db"
    using assms(1) unfolding store_quadruple_def act_simps by blast
  then show ?thesis using quadruple [OF assms(2) quadruple_okI] assms(3-) by blast
qed

lemma kels_last_in:
  "kels_getLast db pre (int n) = Some said \<Longrightarrow> said \<in> set (on_get n (db_kels db pre))"
  using on_last_in [of "int n" "db_kels db pre" said] by (simp add: kels_getLast_def)

lemma keeps_quadruple:
  assumes "en_verify en = en_verify en0"
  shows "keeps (on_event ev) (processVerifiedTransferableReceiptQuadruple en lax ev p n d w loc ig)"
  unfolding keeps_def on_event_def
proof (intro allI impI)
  fix db r db'
  assume run: "processVerifiedTransferableReceiptQuadruple en lax ev p n d w loc ig db = Inr (r, db')"
    and ok: "receipted_ok db ev"
  show "R db db'"
  proof (cases "r = RdAccept")
    case True
    then obtain e vs v where m: "kels_getLast db (mt_qb64 p) (int (js_num (ordinal_num n))) = Some (mt_qb64 d)"
      "getEvtSerder db (mt_qb64 p) (mt_qb64 d) = Some e" "serder_verfers e = Inr vs"
      "nth_opt vs (ix_index w) = Some v" "verfer_verify en v (ix_raw w) (sd_raw (rc_serder ev)) = Inr True"
      "store_quadruple ev p n d w db = Inr ((), db')"
      using run by (auto simp: processVerifiedTransferableReceiptQuadruple_def act_simps
          establishment_verfers_def split: if_splits option.splits)
    then show ?thesis
      using store_quadruple_kept [OF m(6) ok kels_last_in [OF m(1)]] same_verify [OF assms]
      by (simp add: getEvtSerder_def)
  next
    case False
    then have "db' = db"
      using run by (auto simp: processVerifiedTransferableReceiptQuadruple_def act_simps
          establishment_verfers_def split: if_splits option.splits)
    then show ?thesis by (simp add: refl)
  qed
qed

lemma receipt_decision_cases:
  "act_frame S \<Longrightarrow> keeps S f \<Longrightarrow> keeps S g \<Longrightarrow> (\<And>r. keeps S (h r)) \<Longrightarrow> (\<And>r. keeps S (j r))
    \<Longrightarrow> keeps S (case d of RdAccept \<Rightarrow> f | RdIgnore \<Rightarrow> g | RdEscrow r \<Rightarrow> h r | RdDrop r \<Rightarrow> j r)"
  by (cases d) simp_all

lemma keeps_group:
  assumes "en_verify en = en_verify en0"
  shows "keeps (on_event ev) (group_loop en lax ev tsg loc stored ss)"
proof (induction ss arbitrary: stored)
  case Nil
  show ?case by (simp add: oe_pure)
next
  case (Cons s ss)
  show ?case
    unfolding group_loop.simps
    by (intro oe_bind keeps_quadruple [OF assms] receipt_decision_cases on_event_frame
        oe_pure Cons.IH)
qed

lemma keeps_groups:
  assumes "en_verify en = en_verify en0"
  shows "keeps (on_event ev) (process_groups en lax loc s ev tsgs)"
proof (induction tsgs)
  case Nil
  show ?case by (simp add: oe_pure)
next
  case (Cons t ts)
  show ?case
    unfolding process_groups.simps processVerifiedTransferableReceiptGroup_def
    by (intro oe_bind keeps_group [OF assms] receipt_decision_cases on_event_frame
        oe_pure Cons.IH on_event_keeps [OF keeps_escrow(4)])
qed

section \<open>Messages\<close>

lemma decide_target_ok:
  assumes "decide_target en pre said db = Inr (ReAccept ev, db')"
    and "accepted db pre said"
  shows "receipted_ok db ev"
proof -
  have "db_evts db (pre, said) = Some (rc_serder ev) \<and> rc_pre ev = pre \<and> rc_said ev = said"
    using assms(1) by (auto simp: decide_target_def act_simps getEvtSerder_def split: option.splits)
  then show ?thesis using assms(2) by (simp add: receipted_ok_def)
qed

lemma receipt_event_ok:
  assumes "decideReceiptEvent en pre sn said db = Inr (ReAccept ev, db')"
  shows "receipted_ok db ev"
proof -
  have "decide_target en pre said db = Inr (ReAccept ev, db')" "kels_getLast db pre (int sn) = Some said"
    using assms by (auto simp: decideReceiptEvent_def act_simps truthy_def split: if_splits option.splits)
  then show ?thesis using decide_target_ok kels_last_in unfolding accepted_def by blast
qed

lemma nth_opt_in: "nth_opt xs i = Some x \<Longrightarrow> x \<in> set xs"
  by (auto simp: nth_opt_def split: if_splits)

lemma replay_event_ok:
  assumes "resolveReplayReceiptedEvent en s firner db = Inr (ReAccept ev, db')"
  shows "receipted_ok db ev"
proof -
  let ?pre = "text_or [] (serder_pre s)"
  let ?replay = "\<lambda>n. case firner of Some f \<Rightarrow> getFel db ?pre (js_num (number_num f))
      | None \<Rightarrow> kels_getLast db ?pre (int n)"
  obtain sn where sn: "serder_sn s = Inr sn"
    using assms unfolding resolveReplayReceiptedEvent_def act_simps by blast
  then obtain n where "sn = Some n"
    using assms by (cases sn) (auto simp: resolveReplayReceiptedEvent_def act_simps)
  then have "truthy (?replay n)" and d: "decide_target en ?pre (text_or [] (?replay n)) db = Inr (ReAccept ev, db')"
    using assms sn by (auto simp: resolveReplayReceiptedEvent_def act_simps Let_def split: if_splits)
  then obtain replay where rep: "?replay n = Some replay"
    by (cases "?replay n") (simp_all add: truthy_def)
  then have r: "decide_target en ?pre replay db = Inr (ReAccept ev, db')" "?replay n = Some replay"
    using d by (simp_all add: text_or_def)
  then have "accepted db ?pre replay"
    using nth_opt_in kels_last_in unfolding getFel_def accepted_def by (cases firner) fastforce+
  with decide_target_ok [OF r(1)] show ?thesis by blast
qed

text \<open>An operation that resolves the event first and then works on it.\<close>

lemma keeps_on_accepted:
  assumes "keeps R m" and "\<And>ev db db'. m db = Inr (ReAccept ev, db') \<Longrightarrow> receipted_ok db ev"
    and "\<And>d. (\<forall>ev. d \<noteq> ReAccept ev) \<Longrightarrow> keeps R (f d)" and "\<And>ev. keeps (on_event ev) (f (ReAccept ev))"
  shows "keeps R (act_bind m f)"
  unfolding keeps_def
proof (intro allI impI)
  fix db x db' assume "act_bind m f db = Inr (x, db')"
  then obtain d db1 where m: "m db = Inr (d, db1)" and f: "f d db1 = Inr (x, db')"
    by (auto simp: act_simps)
  have first: "R db db1" using keepsD [OF assms(1) m] .
  show "R db db'"
  proof (cases "\<exists>ev. d = ReAccept ev")
    case True
    then obtain ev where d: "d = ReAccept ev" by blast
    have "receipted_ok db1 ev" using stable [OF first assms(2)] m d by simp
    then have "R db1 db'" using keepsD [OF assms(4)] f d unfolding on_event_def by blast
    then show ?thesis by (rule trans [OF first])
  next
    case False
    then show ?thesis using trans [OF first keepsD [OF assms(3)]] f by blast
  qed
qed

lemma receipt_event_cases:
  "(\<And>e. keeps S (f e)) \<Longrightarrow> (\<And>e. keeps S (g e)) \<Longrightarrow> (\<And>ev. keeps S (h ev))
    \<Longrightarrow> keeps S (case d of ReAccept ev \<Rightarrow> h ev | ReEscrow e \<Rightarrow> f e | ReDrop e \<Rightarrow> g e)"
  by (cases d) simp_all

lemma keeps_receipt:
  assumes "en_verify en = en_verify en0"
  shows "keeps R (processReceipt en lax loc envl)"
proof -
  have acc: "keeps (on_event ev) (act_bind (storeVerifiedDetachedReceiptMaterial en lax ev envl l) (\<lambda>_.
      act_bind (process_groups en lax l s ev (re_tsgs envl)) (\<lambda>_. act_ret [])))" for l s ev
  proof -
    show ?thesis by (intro oe_comb keeps_detached [OF assms] keeps_groups [OF assms])
  qed
  show ?thesis
    unfolding processReceipt_def Let_def
    by (intro keeps_bind keeps_option keeps_if keeps_pure keeps_on_accepted keeps_receipt_event)
      (auto split: receipt_event.split intro: receipt_event_ok acc keeps_comb keeps_missing)
qed

lemma keeps_couples:
  assumes "en_verify en = en_verify en0"
  shows "keeps R (processAttachedReceiptCouples en lax loc s cigars firner l)"
  unfolding processAttachedReceiptCouples_def Let_def
  by (intro keeps_if keeps_pure keeps_on_accepted keeps_replay_event)
    (auto split: receipt_event.split intro: replay_event_ok keeps_pure keeps_escrow keeps_detached [OF assms])

lemma keeps_attached:
  assumes "en_verify en = en_verify en0"
  shows "keeps (on_event ev) (act_each (attached_quadruple en lax l s ev) qs)"
  unfolding attached_quadruple_def
  by (intro frame_each on_event_frame oe_bind keeps_quadruple [OF assms] receipt_decision_cases
      oe_pure on_event_keeps [OF keeps_escrow(5)])

lemma keeps_quadruples:
  assumes "en_verify en = en_verify en0"
  shows "keeps R (processAttachedReceiptQuadruples en lax loc s trqs firner l)"
  unfolding processAttachedReceiptQuadruples_def Let_def
  by (intro keeps_if keeps_pure keeps_on_accepted keeps_replay_event)
    (auto split: receipt_event.split intro: replay_event_ok keeps_pure keeps_each keeps_escrow
      keeps_attached [OF assms])

section \<open>Passes\<close>

lemma keeps_expiry: "keeps R (escrowReplayExpiry en pre said timeout)"
  unfolding escrowReplayExpiry_def by (intro keeps_comb)

lemma keeps_partial: "keeps R (resolvePartialWitnessEscrowWitnesses en s)"
  unfolding resolvePartialWitnessEscrowWitnesses_def by (intro keeps_comb keeps_kever)

lemma keeps_lookup: "keeps R (lookupAcceptedReceiptedEvent en pre sn said)"
  unfolding lookupAcceptedReceiptedEvent_def by (intro keeps_comb keeps_resolve)

lemma keeps_promoted:
  "keeps R (promote_wiger en key s wits w)" "keeps R (promote_detached en key s i v c)"
  unfolding promote_wiger_def promote_detached_def by (intro keeps_comb keeps_mod wigs)+

lemma partial_cases:
  "keeps R f \<Longrightarrow> (\<And>r. keeps R (g r)) \<Longrightarrow> (\<And>ws. keeps R (h ws))
    \<Longrightarrow> keeps R (case x of PwAccept ws \<Rightarrow> h ws | PwContinue \<Rightarrow> f | PwDrop r \<Rightarrow> g r)"
  by (cases x) simp_all

lemma keeps_find: "keeps R (find_unver en pre said mat cands)"
proof (induction cands)
  case Nil
  show ?case by (simp add: keeps_pure)
next
  case (Cons cand cands)
  show ?case
    unfolding find_unver.simps Let_def
    by (intro keeps_comb keeps_partial partial_cases keeps_promoted Cons.IH)
qed

lemma keeps_find_unver: "keeps R (processEscrowFindUnver en pre sn said mat)"
  unfolding processEscrowFindUnver_def by (intro keeps_comb keeps_find)

lemma lookup_ok:
  assumes "lookupAcceptedReceiptedEvent en pre sn said db = Inr (AlAccept ev, db')"
  shows "receipted_ok db ev"
proof -
  have "db_evts db (pre, said) = Some (rc_serder ev) \<and> rc_pre ev = pre \<and> rc_said ev = said"
    "kels_getLast db pre (int sn) = Some said"
    using assms by (auto simp: lookupAcceptedReceiptedEvent_def act_simps getEvtSerder_def
        split: option.splits if_splits)
  then show ?thesis using kels_last_in [of db pre sn said] by (auto simp: receipted_ok_def accepted_def)
qed

text \<open>A row that reached an accepted event.\<close>

lemma keeps_on_lookup:
  assumes "\<And>ev. keeps (on_event ev) (h ev)"
  shows "keeps R (act_bind (lookupAcceptedReceiptedEvent en pre sn said)
    (\<lambda>l. case l of AlKeep r \<Rightarrow> act_ret (EdKeep r) | AlDrop r \<Rightarrow> act_ret (EdDrop r) | AlAccept ev \<Rightarrow> h ev))"
  unfolding keeps_def
proof (intro allI impI)
  fix db x db'
  assume "act_bind (lookupAcceptedReceiptedEvent en pre sn said)
    (\<lambda>l. case l of AlKeep r \<Rightarrow> act_ret (EdKeep r) | AlDrop r \<Rightarrow> act_ret (EdDrop r) | AlAccept ev \<Rightarrow> h ev) db
    = Inr (x, db')"
  then obtain l db1 where m: "lookupAcceptedReceiptedEvent en pre sn said db = Inr (l, db1)"
    and f: "(case l of AlKeep r \<Rightarrow> act_ret (EdKeep r) | AlDrop r \<Rightarrow> act_ret (EdDrop r) | AlAccept ev \<Rightarrow> h ev) db1
      = Inr (x, db')"
    by (auto simp: act_simps)
  have first: "R db db1" using keepsD [OF keeps_lookup m] .
  show "R db db'"
  proof (cases l)
    case (AlAccept ev)
    have "receipted_ok db1 ev" using stable [OF first lookup_ok] m AlAccept by simp
    then have "R db1 db'" using keepsD [OF assms] f AlAccept unfolding on_event_def by auto
    then show ?thesis by (rule trans [OF first])
  qed (use f first in \<open>auto simp: act_simps\<close>)
qed

lemma keeps_accept_detached:
  assumes "en_verify en = en_verify en0"
  shows "keeps (on_event ev) (accept_detached en ev v c)"
  unfolding accept_detached_def same_verify [OF assms]
  by (intro lift_frame [OF on_event_frame] oe_comb keeps_promote) auto

lemma keeps_nontrans:
  assumes "en_verify en = en_verify en0"
  shows "keeps R (reprocessEscrowedNonTransReceipt en pre sn d c)"
proof -
  have "keeps R (case p of PrAccept \<Rightarrow> act_ret EdAccept | PrDrop r \<Rightarrow> act_ret (EdDrop r)
      | PrContinue \<Rightarrow> act_bind (lookupAcceptedReceiptedEvent en pre sn said)
        (\<lambda>l. case l of AlKeep r \<Rightarrow> act_ret (EdKeep r) | AlDrop r \<Rightarrow> act_ret (EdDrop r)
          | AlAccept ev \<Rightarrow> accept_detached en ev v c))" for p said v
    by (cases p) (auto intro: keeps_pure keeps_on_lookup keeps_accept_detached [OF assms])
  then show ?thesis
    unfolding reprocessEscrowedNonTransReceipt_def Let_def
    by (intro keeps_bind keeps_option keeps_pure keeps_expiry keeps_find_unver) auto
qed

lemma keeps_accept_quadruple:
  assumes "accept_quadruple en ev p n d w vs db = Inr (r, db')" and "receipted_ok db ev"
    and "en_verify en = en_verify en0"
    and "mt_qb64 d \<in> set (on_get k (db_kels db (mt_qb64 p)))" "db_evts db (mt_qb64 p, mt_qb64 d) = Some e"
    and "serder_verfers e = Inr vs"
  shows "R db db'"
proof (cases "r = EdAccept")
  case True
  then obtain v where "nth_opt vs (ix_index w) = Some v"
    "verfer_verify en v (ix_raw w) (sd_raw (rc_serder ev)) = Inr True"
    "store_quadruple ev p (OrdNumber n) d w db = Inr ((), db')"
    using assms(1) by (auto simp: accept_quadruple_def act_simps of_opt_def split: if_splits option.splits)
  then show ?thesis
    using store_quadruple_kept assms(2,4-6) same_verify [OF assms(3)] by metis
next
  case False
  then have "db' = db" using assms(1) by (auto simp: accept_quadruple_def act_simps split: if_splits)
  then show ?thesis by (simp add: refl)
qed

lemma keeps_trans:
  assumes "en_verify en = en_verify en0"
  shows "keeps R (reprocessEscrowedTransferableReceipt en pre sn q)"
proof -
  obtain d p n e w where q: "q = (d, p, n, e, w)" by (cases q)
  let ?on = "\<lambda>ev. act_bind (act_get (\<lambda>db. kels_getLast db (mt_qb64 p) (int (ordinalNumber n)))) (\<lambda>est.
      if \<not> truthy est then act_ret (EdKeep KeepMissingReceiptorEstablishment)
      else if est \<noteq> Some (mt_qb64 e) then act_ret (EdDrop DropInvalidReceiptorSeal)
      else act_bind (act_get (\<lambda>db. getEvtSerder db (mt_qb64 p) (mt_qb64 e))) (\<lambda>found.
        (case found of
           None \<Rightarrow> act_ret (EdDrop DropInvalidReceiptorEstablishment)
         | Some s \<Rightarrow> act_bind (act_lift (serder_verfers s)) (accept_quadruple en ev p n e w))))"
  have "keeps (on_event ev) (?on ev)" for ev
    unfolding keeps_def on_event_def
  proof (intro allI impI)
    fix db x db' assume run: "?on ev db = Inr (x, db')" and ok: "receipted_ok db ev"
    show "R db db'"
    proof (cases "kels_getLast db (mt_qb64 p) (int (ordinalNumber n)) = Some (mt_qb64 e)
        \<and> mt_qb64 e \<noteq> [] \<and> getEvtSerder db (mt_qb64 p) (mt_qb64 e) \<noteq> None")
      case True
      then obtain s vs where m: "kels_getLast db (mt_qb64 p) (int (ordinalNumber n)) = Some (mt_qb64 e)"
        "getEvtSerder db (mt_qb64 p) (mt_qb64 e) = Some s" "serder_verfers s = Inr vs"
        "accept_quadruple en ev p n e w vs db = Inr (x, db')"
        using run by (auto simp: act_simps truthy_Some split: if_splits)
      show ?thesis
        using keeps_accept_quadruple [OF m(4) ok assms kels_last_in [OF m(1)]] m by (simp add: getEvtSerder_def)
    next
      case False
      then have "db' = db"
        using run by (auto simp: act_simps truthy_def split: if_splits option.splits list.splits)
      then show ?thesis by (simp add: refl)
    qed
  qed
  then show ?thesis
    unfolding reprocessEscrowedTransferableReceipt_def q Let_def prod.case
    by (intro keeps_bind keeps_option keeps_pure keeps_expiry keeps_on_lookup)
qed

lemma keeps_settle: "(\<And>db. R db (f db)) \<Longrightarrow> keeps R (settle_row f d)"
  unfolding settle_row_def by (cases d) (auto intro: keeps_pure keeps_mod)

lemma keeps_witness_row: "keeps R (uwe_row en r)"
proof -
  have "keeps R (reprocessEscrowedWitnessReceipt en pre sn said w)" for pre sn said w
    unfolding reprocessEscrowedWitnessReceipt_def by (intro keeps_comb keeps_expiry keeps_find_unver)
  then show ?thesis
    unfolding uwe_row_def by (intro keeps_comb keeps_settle uwes)
qed

lemma keeps_receipt_passes:
  "keeps R (processEscrowUnverWitness en pres)"
  "en_verify en = en_verify en0 \<Longrightarrow> keeps R (processEscrowUnverNonTrans en pres)"
  "en_verify en = en_verify en0 \<Longrightarrow> keeps R (processEscrowUnverTrans en pres)"
  unfolding processEscrowUnverWitness_def processEscrowUnverNonTrans_def processEscrowUnverTrans_def
    ure_row_def vre_row_def
  by (intro keeps_comb keeps_each keeps_witness_row keeps_settle ures vres keeps_nontrans keeps_trans; assumption)+

end

end
