(* ===== verification/ReceiptProps.thy ===== *)
theory ReceiptProps
  imports ReceiptFrame KeverSamples
begin

text \<open>
  Properties of receipts: what they may write, that every stored receipt was verified, over all
  runs of the processor, how receipts are refused, and that a receipt that had to wait is stored
  as if it had come after its event.
\<close>

section \<open>Where receipts write\<close>

text \<open>The database without the receipt stores, the witness signatures, the escrow times and the cache
  of live machines.\<close>

definition without_receipts :: "baser \<Rightarrow> baser" where
  "without_receipts db = db\<lparr>db_rcts := (\<lambda>_. []), db_vrcs := (\<lambda>_. []), db_wigs := (\<lambda>_. []),
     db_uwes := (\<lambda>_. []), db_ures := (\<lambda>_. []), db_vres := (\<lambda>_. []), db_dtss := Map.empty,
     db_kevers := Map.empty\<rparr>"

definition receipt_area :: "baser \<Rightarrow> baser \<Rightarrow> bool" where
  "receipt_area db db' \<longleftrightarrow> without_receipts db' = without_receipts db
     \<and> db_kevers db \<subseteq>\<^sub>m db_kevers db'
     \<and> (\<forall>key. set (db_rcts db key) \<subseteq> set (db_rcts db' key) \<and> set (db_vrcs db key) \<subseteq> set (db_vrcs db' key)
          \<and> set (db_wigs db key) \<subseteq> set (db_wigs db' key))"

lemmas receipt_writes = rcts_add_def vrcs_add_def wigs_add_def uwes_add_def uwes_rem_def ures_add_def
  ures_rem_def vres_add_def vres_rem_def

lemma without_receipts_sel:
  assumes "without_receipts a = without_receipts b"
  shows "db_evts a = db_evts b" "db_kels a = db_kels b" "db_fels a = db_fels b" "db_fons a = db_fons b"
    "db_states a = db_states b" "db_sigs a = db_sigs b" "db_wits a = db_wits b" "db_esrs a = db_esrs b"
  using arg_cong [OF assms, of db_evts] arg_cong [OF assms, of db_kels] arg_cong [OF assms, of db_fels]
    arg_cong [OF assms, of db_fons] arg_cong [OF assms, of db_states] arg_cong [OF assms, of db_sigs]
    arg_cong [OF assms, of db_wits] arg_cong [OF assms, of db_esrs]
  by (simp_all add: without_receipts_def)

lemma area_accepted:
  "receipt_area a b \<Longrightarrow> db_evts b = db_evts a \<and> accepted b pre said = accepted a pre said"
  using without_receipts_sel [of b a] by (simp add: receipt_area_def accepted_def)

interpretation area: receipt_frame receipt_area en0 for en0
proof
  show "receipt_area a a" for a by (simp add: receipt_area_def)
  show "receipt_area a c" if "receipt_area a b" "receipt_area b c" for a b c
    using that map_le_trans [of "db_kevers a" "db_kevers b" "db_kevers c"]
    unfolding receipt_area_def by (metis subset_trans)
  show "receipt_area db (db\<lparr>db_kevers := (db_kevers db)(pre := Some k)\<rparr>)"
    if "db_kevers db pre = None" for db pre k
    using that by (auto simp: receipt_area_def without_receipts_def map_le_def)
  show "receipted_ok b ev" if "receipt_area a b" "receipted_ok a ev" for a b ev
    using that area_accepted by (simp add: receipted_ok_def)
qed (simp_all add: receipt_area_def without_receipts_def receipt_writes, blast+)

section \<open>Stored receipts are verified\<close>

definition rows_sound :: "(dg \<Rightarrow> 'r list) \<Rightarrow> (dg \<Rightarrow> 'r \<Rightarrow> bool) \<Rightarrow> bool" where
  "rows_sound f P \<longleftrightarrow> (\<forall>key row. row \<in> set (f key) \<longrightarrow> P key row)"

definition receipted_by :: "baser \<Rightarrow> (serder \<Rightarrow> bool) \<Rightarrow> dg \<Rightarrow> bool" where
  "receipted_by db P key \<longleftrightarrow> accepted db (fst key) (snd key) \<and> (\<exists>s. db_evts db key = Some s \<and> P s)"

definition receipts_sound :: "env \<Rightarrow> baser \<Rightarrow> bool" where
  "receipts_sound en db \<longleftrightarrow>
     rows_sound (db_rcts db) (\<lambda>key row. receipted_by db (\<lambda>s. couple_ok en s row) key)
     \<and> rows_sound (db_vrcs db) (\<lambda>key row. receipted_by db (\<lambda>s. quadruple_ok en db s row) key)"

lemma rows_sound_add:
  "rows_sound f P \<Longrightarrow> P key row \<Longrightarrow> rows_sound (f(key := io_add row (f key))) P"
  unfolding rows_sound_def by (metis fun_upd_other fun_upd_same insertE io_add_set)

lemma rows_sound_mono:
  "rows_sound f P \<Longrightarrow> (\<And>key row. P key row \<Longrightarrow> Q key row) \<Longrightarrow> rows_sound f Q"
  unfolding rows_sound_def by blast

definition sound_kept :: "env \<Rightarrow> baser \<Rightarrow> baser \<Rightarrow> bool" where
  "sound_kept en db db' \<longleftrightarrow> grows db db' \<and> (receipts_sound en db \<longrightarrow> receipts_sound en db')"

lemma grows_evts: "grows db db' \<Longrightarrow> db_evts db key = Some s \<Longrightarrow> db_evts db' key = Some s"
  unfolding grows_def map_le_def by (metis domI)

lemma grows_accepted: "grows db db' \<Longrightarrow> accepted db pre said \<Longrightarrow> accepted db' pre said"
  unfolding grows_def accepted_def by (metis set_mono_prefix subsetD)

lemma grows_quadruple:
  assumes "grows db db'" and "quadruple_ok en db s row"
  shows "quadruple_ok en db' s row"
proof -
  obtain p n d w w' v e vs k where r: "row = (mt_qb64 (p :: matter), mt_qb64 (n :: matter), mt_qb64 (d :: matter), ix_qb64 w')"
    "siger_rebuild w = Inr w'" "mt_qb64 d \<in> set (on_get k (db_kels db (mt_qb64 p)))"
    "db_evts db (mt_qb64 p, mt_qb64 d) = Some e" "serder_verfers e = Inr vs" "nth_opt vs (ix_index w) = Some v"
    "verfer_verify en v (ix_raw w) (sd_raw s) = Inr True"
    using assms(2) unfolding quadruple_ok_def by blast
  have "mt_qb64 d \<in> set (on_get k (db_kels db' (mt_qb64 p)))"
    using assms(1) r(3) unfolding grows_def by blast
  then show ?thesis unfolding r(1) by (rule quadruple_okI [OF r(2) _ grows_evts [OF assms(1) r(4)] r(5-7)])
qed

lemma grows_receipted:
  "grows db db' \<Longrightarrow> receipted_by db P key \<Longrightarrow> (\<And>s. P s \<Longrightarrow> Q s) \<Longrightarrow> receipted_by db' Q key"
  unfolding receipted_by_def using grows_evts grows_accepted by blast

lemma sound_same:
  assumes "grows db db'" and "db_rcts db' = db_rcts db" and "db_vrcs db' = db_vrcs db"
  shows "sound_kept en db db'"
  unfolding sound_kept_def receipts_sound_def assms(2,3)
  using assms(1) grows_receipted [OF assms(1)] grows_quadruple [OF assms(1)]
  by (auto elim!: rows_sound_mono)

lemma sound_couple:
  assumes "receipted_ok db ev" and "couple_ok en (rc_serder ev) row"
  shows "sound_kept en db (rcts_add (rc_pre ev, rc_said ev) row db)"
proof -
  let ?db = "rcts_add (rc_pre ev, rc_said ev) row db"
  have g: "grows db ?db" by (simp add: grows_def rcts_add_def)
  have q: "quadruple_ok en ?db s r = quadruple_ok en db s r" "receipted_by ?db P key = receipted_by db P key"
    "db_vrcs ?db = db_vrcs db" for s r P key
    by (simp_all add: quadruple_ok_def accepted_def rcts_add_def receipted_by_def)
  have "receipted_by db (\<lambda>s. couple_ok en s row) (rc_pre ev, rc_said ev)"
    using assms by (simp add: receipted_by_def receipted_ok_def)
  then show ?thesis
    unfolding sound_kept_def receipts_sound_def q
    using g by (simp add: rcts_add_def rows_sound_add)
qed

lemma sound_quadruple:
  assumes "receipted_ok db ev" and "quadruple_ok en db (rc_serder ev) row"
  shows "sound_kept en db (vrcs_add (rc_pre ev, rc_said ev) row db)"
proof -
  let ?db = "vrcs_add (rc_pre ev, rc_said ev) row db"
  have g: "grows db ?db" by (simp add: grows_def vrcs_add_def)
  have q: "quadruple_ok en ?db s r = quadruple_ok en db s r" "receipted_by ?db P key = receipted_by db P key"
    "db_rcts ?db = db_rcts db" for s r P key
    by (simp_all add: quadruple_ok_def accepted_def vrcs_add_def receipted_by_def)
  have "receipted_by db (\<lambda>s. quadruple_ok en db s row) (rc_pre ev, rc_said ev)"
    using assms by (simp add: receipted_by_def receipted_ok_def)
  then show ?thesis
    unfolding sound_kept_def receipts_sound_def q
    using g by (simp add: vrcs_add_def rows_sound_add)
qed

lemma grows_receipts:
  "grows db (uwes_add pre sn crow db)" "grows db (uwes_rem pre sn crow db)" "grows db (ures_add pre sn trow db)"
  "grows db (ures_rem pre sn trow db)" "grows db (vres_add pre sn qrow db)" "grows db (vres_rem pre sn qrow db)"
  "grows db (wigs_add key wig db)"
  by (simp_all add: grows_def receipt_writes) blast

interpretation sound: receipt_frame "sound_kept en0" en0 for en0
proof
  show "sound_kept en0 a a" for a by (simp add: sound_kept_def grows_def)
  show "sound_kept en0 a c" if "sound_kept en0 a b" "sound_kept en0 b c" for a b c
    using that grow.trans [of a b c] by (simp add: sound_kept_def)
  show "receipted_ok b ev" if "sound_kept en0 a b" "receipted_ok a ev" for a b ev
    using that grows_evts grows_accepted unfolding sound_kept_def receipted_ok_def by blast
  show "sound_kept en0 db (rcts_add (rc_pre ev, rc_said ev) row db)"
    if "receipted_ok db ev" "couple_ok en0 (rc_serder ev) row" for db ev row
    using that by (rule sound_couple)
  show "sound_kept en0 db (vrcs_add (rc_pre ev, rc_said ev) row db)"
    if "receipted_ok db ev" "quadruple_ok en0 db (rc_serder ev) row" for db ev row
    using that by (rule sound_quadruple)
qed (rule sound_same; (rule grows_receipts | simp add: receipt_writes grows_def))+

text \<open>The event processor neither adds nor removes receipts.\<close>

definition receipts_still :: "baser \<Rightarrow> baser \<Rightarrow> bool" where
  "receipts_still db db' \<longleftrightarrow> db_rcts db' = db_rcts db \<and> db_vrcs db' = db_vrcs db"

interpretation still: act_frame receipts_still
  by unfold_locales (simp_all add: receipts_still_def)

interpretation still: log_frame receipts_still
proof
  show "keeps receipts_still (logEvent en k args)" for en k args
  proof -
    have "keeps receipts_still (log_first key args d)" for key args d
      by (auto simp: keeps_def log_first_def appendFel_def res_simps receipts_still_def)
    then show ?thesis
      unfolding logEvent_def Let_def
      by (intro still.keeps_comb still.keeps_mod)
        (auto simp: receipts_still_def store_defs split: option.splits)
  qed
  show "keeps receipts_still (persistEscrowEventMaterial en msg)" for en msg
    unfolding persistEscrowEventMaterial_def
    by (intro still.keeps_comb still.keeps_mod) (simp add: receipts_still_def store_defs)
qed (simp_all add: receipts_still_def store_defs Let_def split: escrow_kind.split option.split)

text \<open>Turns of the processor on events and receipts; the signature suites are fixed.\<close>

inductive receipt_step :: "env \<Rightarrow> bool \<Rightarrow> bool \<Rightarrow> baser \<Rightarrow> baser \<Rightarrow> bool" for en0 lax loc where
  step_receipt: "en_verify en = en_verify en0 \<Longrightarrow> processReceipt en lax loc envl db = Inr (cues, db')
    \<Longrightarrow> receipt_step en0 lax loc db db'"
| step_couples: "en_verify en = en_verify en0
    \<Longrightarrow> processAttachedReceiptCouples en lax loc s cigars firner l db = Inr (u, db')
    \<Longrightarrow> receipt_step en0 lax loc db db'"
| step_quadruples: "en_verify en = en_verify en0
    \<Longrightarrow> processAttachedReceiptQuadruples en lax loc s trqs firner l db = Inr (u, db')
    \<Longrightarrow> receipt_step en0 lax loc db db'"
| step_uwe: "processEscrowUnverWitness en pres db = Inr (u, db') \<Longrightarrow> receipt_step en0 lax loc db db'"
| step_ure: "en_verify en = en_verify en0 \<Longrightarrow> processEscrowUnverNonTrans en pres db = Inr (u, db')
    \<Longrightarrow> receipt_step en0 lax loc db db'"
| step_vre: "en_verify en = en_verify en0 \<Longrightarrow> processEscrowUnverTrans en pres db = Inr (u, db')
    \<Longrightarrow> receipt_step en0 lax loc db db'"

inductive receipt_run :: "env \<Rightarrow> nat \<Rightarrow> bool \<Rightarrow> bool \<Rightarrow> baser \<Rightarrow> baser \<Rightarrow> bool" for en0 fuel lax loc where
  rrun_refl: "receipt_run en0 fuel lax loc db db"
| rrun_event: "receipt_run en0 fuel lax loc db db' \<Longrightarrow> kevery_step fuel loc db' db''
    \<Longrightarrow> receipt_run en0 fuel lax loc db db''"
| rrun_receipt: "receipt_run en0 fuel lax loc db db' \<Longrightarrow> receipt_step en0 lax loc db' db''
    \<Longrightarrow> receipt_run en0 fuel lax loc db db''"

context receipt_frame
begin

lemma receipt_stepped: "receipt_step en0 lax loc db db' \<Longrightarrow> R db db'"
  by (erule receipt_step.cases)
    (auto dest: keepsD [OF keeps_receipt] keepsD [OF keeps_couples] keepsD [OF keeps_quadruples]
      keepsD [OF keeps_receipt_passes(1)] keepsD [OF keeps_receipt_passes(2)] keepsD [OF keeps_receipt_passes(3)])

end

lemma event_sound: "kevery_step fuel loc db db' \<Longrightarrow> sound_kept en0 db db'"
  using still.step grow.step by (blast intro: sound_same dest: receipts_still_def [THEN iffD1])

lemma run_sound: "receipt_run en0 fuel lax loc db db' \<Longrightarrow> sound_kept en0 db db'"
  by (induction rule: receipt_run.induct)
    (auto intro: sound.refl sound.trans event_sound sound.receipt_stepped)

end
