(* ===== verification/QueryFrame.thy ===== *)
theory QueryFrame
  imports Queries ReceiptProps
begin

text \<open>
  What queries may do to the stores, proved once. The locale \<open>query_frame\<close> asks of a relation
  on databases that a refreshed machine, the material of a query under a key of the set \<open>K\<close> and
  its removal keep it, and gives the relation for live queries and their replay; together with the
  laws of events and receipts (\<open>sweep_frame\<close>) it gives the relation for the sweep over all
  escrows. Two interpretations: where a query may write at all, and the growth of the history at
  every key that is not a query's.
\<close>

section \<open>The interface\<close>

locale query_frame = eval_frame +
  fixes K :: "dg set"
  assumes refreshed: "getState db pre = Some st \<Longrightarrow> kever_reload en db st = Inr k
      \<Longrightarrow> R db (db\<lparr>db_kevers := (db_kevers db)(pre := Some k)\<rparr>)"
    and asking: "key \<in> K \<Longrightarrow> R db (query_material key s d sigs couples db)"
    and cleared: "(r, q) \<in> K \<Longrightarrow> R db (clearEscrowedQueryMaterial r q (qnfs_rem [r, q] said db))"
begin

lemma keeps_refresh: "keeps R (getKever_refresh en pre)"
  by (auto simp: keeps_def getKever_refresh_def Let_def res_simps refl refreshed split: option.splits if_splits)

lemma keeps_all_sealing: "keeps R (all_sealing en target ss)"
proof (induction ss)
  case Nil
  show ?case by (simp add: keeps_pure)
next
  case (Cons s ss)
  show ?case by (simp only: all_sealing.simps) (intro keeps_comb keeps_witnessed Cons.IH)
qed

lemma keeps_gate: "keeps R (logs_gate en k pre anchor sn)"
  unfolding logs_gate_def fetchAllSealingEventByEventSeal_def
  by (intro keeps_comb keeps_all_sealing keeps_witnessed)

lemma keeps_cloneDelegation: "keeps R (cloneDelegation fuel en k)"
proof (induction fuel arbitrary: k)
  case 0
  show ?case
    unfolding cloneDelegation.simps [of 0] nat.case by (intro keeps_comb keeps_getKever)
next
  case (Suc n)
  show ?case
    unfolding cloneDelegation.simps [of "Suc n"] nat.case by (intro keeps_comb keeps_getKever Suc.IH)
qed

lemma keeps_replay_seal: "keeps R (repairReplaySourceSeal en k)"
  unfolding repairReplaySourceSeal_def repair_from_anchoring_def Let_def
  by (intro keeps_comb keeps_sealing keeps_mod aess)

lemma keeps_decide_query: "keeps R (decideQuery fuel en qe)"
  unfolding decideQuery_def decide_logs_def decide_ksn_def decide_mbx_def replay_logs_def Let_def
  by (intro keeps_comb keeps_refresh keeps_gate keeps_replay_seal keeps_cloneDelegation keeps_witnessed
      keeps_getKever)

end

text \<open>The key a query's material is stored under, and the keys a pass may clear.\<close>

definition query_key :: "query_envelope \<Rightarrow> dg" where
  "query_key qe = (text_or [] (queryRequester qe), text_or [] (sd_said (qe_serder qe)))"

definition asked :: "string list list \<Rightarrow> dg set" where
  "asked keys = {(r, q). \<exists>parts. r # q # parts \<in> set keys}"

context query_frame
begin

lemma keeps_escrow_query: "query_key qe \<in> K \<Longrightarrow> keeps R (escrowQueryNotFoundEvent en qe)"
  unfolding escrowQueryNotFoundEvent_def Let_def query_key_def
  by (intro keeps_comb keeps_mod asking)

lemma keeps_query: "query_key qe \<in> K \<Longrightarrow> keeps R (processQuery fuel en qe)"
  unfolding processQuery_def applyLiveQueryDecision_def
  by (rule keeps_bind [OF keeps_decide_query])
    (auto split: query_decision.split intro!: keeps_comb keeps_escrow_query)

lemma keeps_reprocess_query: "keeps R (reprocessEscrowedQuery fuel en requester qsaid)"
  unfolding reprocessEscrowedQuery_def escrowReplayExpiry_def replay_query_def
  by (intro keeps_comb keeps_decide_query)

lemma keeps_qnf_row:
  assumes "fst row \<in> set keys" and "asked keys \<subseteq> K"
  shows "keeps R (qnf_row fuel en row)"
proof (cases "\<exists>r q qs parts said. row = (r # (q # qs) # parts, said) \<and> r \<noteq> []")
  case True
  then obtain r rs q qs parts said where row: "row = ((r # rs) # (q # qs) # parts, said)"
    by (metis list.exhaust)
  then have "(r # rs, q # qs) \<in> K" using assms by (auto simp: asked_def)
  then show ?thesis
    unfolding row qnf_row_def prod.case list.case
    by (intro keeps_bind [OF keeps_reprocess_query])
      (auto split: escrow_decision.split intro!: keeps_comb keeps_mod cleared)
next
  case False
  then have "qnf_row fuel en row = act_ret []"
    by (auto simp: qnf_row_def split: prod.split list.split)
  then show ?thesis by (simp add: keeps_pure)
qed

lemma keeps_cues: "(\<And>x. x \<in> set xs \<Longrightarrow> keeps R (f x)) \<Longrightarrow> keeps R (act_cues f xs)"
  by (induction xs) (auto intro!: keeps_comb)

lemma keeps_unasked: "asked keys \<subseteq> K \<Longrightarrow> keeps R (processQueryNotFound fuel en keys)"
proof -
  assume k: "asked keys \<subseteq> K"
  have "keeps R (act_cues (qnf_row fuel en) (qnf_rows keys db))" for db
    by (rule keeps_cues, rule keeps_qnf_row [OF _ k]) (auto simp: qnf_rows_def)
  then show ?thesis by (auto simp: processQueryNotFound_def keeps_def act_simps)
qed

end

text \<open>Events, receipts and queries together.\<close>

locale sweep_frame = log_frame R + query_frame R K for R K +
  assumes receipts: "receipt_area a b \<Longrightarrow> R a b"
begin

lemma keeps_receipts:
  "keeps R (processEscrowUnverWitness en pres)" "keeps R (processEscrowUnverNonTrans en pres)"
  "keeps R (processEscrowUnverTrans en pres)"
  by (rule keeps_mono [where R = receipt_area, OF _ receipts],
      rule area.keeps_receipt_passes(1) area.keeps_receipt_passes(2,3) [OF HOL.refl], assumption)+

lemma keeps_sweep: "asked keys \<subseteq> K \<Longrightarrow> keeps R (processEscrows fuel en loc pres keys)"
  unfolding processEscrows_def
  by (intro keeps_bind keeps_pass keeps_receipts keeps_cues keeps_unasked keeps_pure)

end

section \<open>Runs of the processor\<close>

text \<open>A turn is an event, a receipt, a query, a pass over one escrow or the sweep over all;
  \<open>K\<close> holds the keys of the queries.\<close>

inductive node_step :: "nat \<Rightarrow> bool \<Rightarrow> bool \<Rightarrow> dg set \<Rightarrow> baser \<Rightarrow> baser \<Rightarrow> bool" for fuel lax loc K where
  node_event: "kevery_step fuel loc db db' \<Longrightarrow> node_step fuel lax loc K db db'"
| node_receipt: "receipt_step en lax loc db db' \<Longrightarrow> node_step fuel lax loc K db db'"
| node_query: "query_key qe \<in> K \<Longrightarrow> processQuery fuel en qe db = Inr (cues, db')
    \<Longrightarrow> node_step fuel lax loc K db db'"
| node_unasked: "asked keys \<subseteq> K \<Longrightarrow> processQueryNotFound fuel en keys db = Inr (cues, db')
    \<Longrightarrow> node_step fuel lax loc K db db'"
| node_sweep: "asked keys \<subseteq> K \<Longrightarrow> processEscrows fuel en loc pres keys db = Inr (cues, db')
    \<Longrightarrow> node_step fuel lax loc K db db'"

inductive node_run :: "nat \<Rightarrow> bool \<Rightarrow> bool \<Rightarrow> dg set \<Rightarrow> baser \<Rightarrow> baser \<Rightarrow> bool" for fuel lax loc K where
  node_refl: "node_run fuel lax loc K db db"
| node_next: "node_run fuel lax loc K db db' \<Longrightarrow> node_step fuel lax loc K db' db''
    \<Longrightarrow> node_run fuel lax loc K db db''"

inductive_cases node_stepE: "node_step fuel lax loc K db db'"

context sweep_frame
begin

lemma node_stepped: "node_step fuel lax loc K db db' \<Longrightarrow> R db db'"
  by (erule node_stepE) (auto dest: step area.receipt_stepped keepsD [OF keeps_query]
      keepsD [OF keeps_unasked] keepsD [OF keeps_sweep] intro: receipts)

lemma node_ran: "node_run fuel lax loc K db db' \<Longrightarrow> R db db'"
  by (induction rule: node_run.induct) (auto intro: refl trans node_stepped)

end

section \<open>Where queries write\<close>

text \<open>Apart from the cache of live machines and the source seals, the material under the keys
  in \<open>K\<close> and the index of waiting queries.\<close>

definition same_but :: "'k set \<Rightarrow> ('k \<Rightarrow> 'v) \<Rightarrow> ('k \<Rightarrow> 'v) \<Rightarrow> bool" where
  "same_but K f g \<longleftrightarrow> (\<forall>k. k \<notin> K \<longrightarrow> g k = f k)"

definition without_queries :: "baser \<Rightarrow> baser" where
  "without_queries db = db\<lparr>db_kevers := Map.empty, db_aess := Map.empty, db_evts := Map.empty,
     db_dtss := Map.empty, db_sigs := (\<lambda>_. []), db_rcts := (\<lambda>_. []), db_qnfs := (\<lambda>_. [])\<rparr>"

definition query_area :: "dg set \<Rightarrow> baser \<Rightarrow> baser \<Rightarrow> bool" where
  "query_area K a b \<longleftrightarrow>
     without_queries b = without_queries a
     \<and> same_but K (db_evts a) (db_evts b) \<and> same_but K (db_dtss a) (db_dtss b)
     \<and> same_but K (db_sigs a) (db_sigs b) \<and> same_but K (db_rcts a) (db_rcts b)
     \<and> same_but {[r, q] | r q. (r, q) \<in> K} (db_qnfs a) (db_qnfs b)"

lemma same_but_refl [simp]: "same_but K f f"
  by (simp add: same_but_def)

lemma same_but_trans: "same_but K f g \<Longrightarrow> same_but K g h \<Longrightarrow> same_but K f h"
  by (simp add: same_but_def)

lemma same_but_upd: "k \<in> K \<Longrightarrow> same_but K f (f(k := v))"
  by (simp add: same_but_def)

lemma same_but_pin: "k \<in> K \<Longrightarrow> same_but K f (io_pin k vs f)" "k \<in> K \<Longrightarrow> same_but K g (map_pin k v g)"
  by (simp_all add: same_but_def io_pin_def map_pin_def)

interpretation asks: query_frame "query_area K" K for K
proof
  show "query_area K a c" if "query_area K a b" "query_area K b c" for a b c
    using that unfolding query_area_def by (elim conjE, intro conjI) (erule (1) same_but_trans | simp (no_asm_simp))+
  show "query_area K db (query_material key s d sigs couples db)" if "key \<in> K" for db key s d sigs couples
    using that by (cases key) (auto simp: query_area_def query_material_def without_queries_def
        intro!: same_but_upd same_but_pin)
  show "query_area K db (clearEscrowedQueryMaterial r q (qnfs_rem [r, q] said db))"
    if "(r, q) \<in> K" for db r q said
    using that by (auto simp: query_area_def clearEscrowedQueryMaterial_def qnfs_rem_def
        without_queries_def intro!: same_but_upd)
qed (simp_all add: query_area_def without_queries_def)

section \<open>The history grows\<close>

text \<open>At every key that is not a query's, nothing is lost; the logs only grow.\<close>

definition grows_but :: "dg set \<Rightarrow> baser \<Rightarrow> baser \<Rightarrow> bool" where
  "grows_but K a b \<longleftrightarrow>
     (\<forall>pre. prefix (db_fels a pre) (db_fels b pre))
     \<and> (\<forall>pre n. set (on_get n (db_kels a pre)) \<subseteq> set (on_get n (db_kels b pre)))
     \<and> dom (db_fons a) \<subseteq> dom (db_fons b) \<and> dom (db_states a) \<subseteq> dom (db_states b)
     \<and> (\<forall>key. set (db_wigs a key) \<subseteq> set (db_wigs b key) \<and> set (db_vrcs a key) \<subseteq> set (db_vrcs b key))
     \<and> (\<forall>key. key \<notin> K \<longrightarrow> (\<forall>s. db_evts a key = Some s \<longrightarrow> db_evts b key = Some s)
          \<and> set (db_sigs a key) \<subseteq> set (db_sigs b key) \<and> set (db_rcts a key) \<subseteq> set (db_rcts b key))"

lemma grows_but_events: "grows a b \<Longrightarrow> receipts_still a b \<Longrightarrow> grows_but K a b"
  unfolding grows_but_def receipts_still_def using grows_evts by (auto simp: grows_def)

lemma grows_but_receipts: "receipt_area a b \<Longrightarrow> grows_but K a b"
  using without_receipts_sel [of b a] by (simp add: grows_but_def receipt_area_def)

lemma without_queries_sel:
  assumes "without_queries a = without_queries b"
  shows "db_kels a = db_kels b" "db_fels a = db_fels b" "db_fons a = db_fons b"
    "db_states a = db_states b" "db_wigs a = db_wigs b" "db_vrcs a = db_vrcs b"
  using arg_cong [OF assms, of db_kels] arg_cong [OF assms, of db_fels]
    arg_cong [OF assms, of db_fons] arg_cong [OF assms, of db_states] arg_cong [OF assms, of db_wigs]
    arg_cong [OF assms, of db_vrcs]
  by (simp_all add: without_queries_def)

lemma grows_but_queries: "query_area K a b \<Longrightarrow> grows_but K a b"
  using without_queries_sel [of b a] by (simp add: grows_but_def query_area_def same_but_def)

lemma keeps_both: "keeps R m \<Longrightarrow> keeps S m \<Longrightarrow> (\<And>a b. R a b \<Longrightarrow> S a b \<Longrightarrow> T a b) \<Longrightarrow> keeps T m"
  by (auto simp: keeps_def)

interpretation nodes: sweep_frame "grows_but K" K for K
proof
  show "grows_but K a c" if "grows_but K a b" "grows_but K b c" for a b c
    using that unfolding grows_but_def by (meson prefix_order.trans subset_trans)
  show "grows_but K db (query_material key s d sigs couples db)" if "key \<in> K" for db key s d sigs couples
    by (rule grows_but_queries [OF asks.asking [OF that]])
  show "grows_but K db (clearEscrowedQueryMaterial r q (qnfs_rem [r, q] said db))"
    if "(r, q) \<in> K" for db r q said
    by (rule grows_but_queries [OF asks.cleared [OF that]])
  show "grows_but K db (db\<lparr>db_kevers := (db_kevers db)(pre := Some k)\<rparr>)" for db pre k
    by (simp add: grows_but_def)
  then show "grows_but K db (db\<lparr>db_kevers := (db_kevers db)(pre := Some k)\<rparr>)" for db pre k .
  show "keeps (grows_but K) (logEvent en k args)" for en k args
    by (rule keeps_both [OF grow.logging still.logging grows_but_events])
  show "keeps (grows_but K) (persistEscrowEventMaterial en msg)" for en msg
    by (rule keeps_both [OF grow.material still.material grows_but_events])
  show "grows_but K db (index_escrow i db)" for db i
    by (rule grows_but_events [OF grow.indexing still.indexing])
  show "grows_but K db (removeEscrow esc pre on said db)" for db esc pre on said
    by (rule grows_but_events [OF grow.removal still.removal])
  show "grows_but K db (save_state t k db)" for db t k
    by (rule grows_but_events [OF grow.saving still.saving])
  show "grows_but K db (sync_group k db)" for db k
    by (rule grows_but_events [OF grow.group still.group])
  show "grows_but K a b" if "receipt_area a b" for a b
    by (rule grows_but_receipts [OF that])
qed (simp_all add: grows_but_def)

end
