(* ===== verification/ReplyFrame.thy ===== *)
theory ReplyFrame
  imports Replies QueryFrame
begin

text \<open>
  What replies may do to the stores, proved once. \<open>rkeeps R m\<close> is a relation between the
  database before and after \<open>m\<close>, whether it returns or throws. The locale \<open>accept_frame\<close> asks
  for it at the writes of accepted and escrowed replies and gives it for their acceptance;
  \<open>reply_frame\<close> asks for the writes of the four handlers as well and gives it for every reply
  operation. Interpretations: what acceptance leaves to the handlers, where replies may write at all, and
  the shape of what they store. The runs of a node are extended by replies and by their escrow pass.
\<close>

section \<open>Operations that keep a relation\<close>

definition rkeeps :: "(baser \<Rightarrow> baser \<Rightarrow> bool) \<Rightarrow> 'a ract \<Rightarrow> bool" where
  "rkeeps R m \<longleftrightarrow> (\<forall>db cs. R db (fst (snd (m (db, cs)))))"

lemma rkeepsD: "rkeeps R m \<Longrightarrow> m (db, cs) = (r, (db', cs')) \<Longrightarrow> R db db'"
  by (metis fst_conv rkeeps_def snd_conv)

named_theorems ract_simps \<open>elimination of the reply operations\<close>

lemma ra_ret_iff [ract_simps]: "ra_ret x st = (r, st') \<longleftrightarrow> r = Inr x \<and> st' = st"
  by (auto simp: ra_ret_def)

lemma ra_lift_iff [ract_simps]: "ra_lift q st = (r, st') \<longleftrightarrow> q = r \<and> st' = st"
  by (auto simp: ra_lift_def)

lemma ra_get_iff [ract_simps]: "ra_get f st = (r, st') \<longleftrightarrow> r = Inr (f (fst st)) \<and> st' = st"
  by (auto simp: ra_get_def)

lemma ra_read_iff [ract_simps]: "ra_read f st = (r, st') \<longleftrightarrow> f (fst st) = r \<and> st' = st"
  by (auto simp: ra_read_def)

lemma ra_mod_iff [ract_simps]: "ra_mod f st = (r, st') \<longleftrightarrow> r = Inr () \<and> st' = (f (fst st), snd st)"
  by (auto simp: ra_mod_def)

lemma ra_cue_iff [ract_simps]: "ra_cue c st = (r, st') \<longleftrightarrow> r = Inr () \<and> st' = (fst st, snd st @ [c])"
  by (auto simp: ra_cue_def)

lemma ra_throw_iff [ract_simps]: "ra_throw st = (r, st') \<longleftrightarrow> r = Inl JsError \<and> st' = st"
  by (auto simp: ra_throw_def)

lemma ra_try_iff [ract_simps]: "ra_try m st = (r, st') \<longleftrightarrow> (\<exists>q. m st = (q, st') \<and> r = Inr q)"
  by (auto simp: ra_try_def split: prod.split)

lemma ra_bind_Inr [ract_simps]:
  "ra_bind m f st = (Inr y, st') \<longleftrightarrow> (\<exists>x st1. m st = (Inr x, st1) \<and> f x st1 = (Inr y, st'))"
  by (auto simp: ra_bind_def split: prod.split sum.split)

lemma ra_bind_Inl:
  "ra_bind m f st = (Inl e, st') \<longleftrightarrow>
     m st = (Inl e, st') \<or> (\<exists>x st1. m st = (Inr x, st1) \<and> f x st1 = (Inl e, st'))"
  by (auto simp: ra_bind_def split: prod.split sum.split)

lemma ra_bind_step: "m st = (Inr x, st1) \<Longrightarrow> ra_bind m f st = f x st1"
  by (simp add: ra_bind_def)

text \<open>\<open>ends Q m st\<close>: \<open>m\<close> leaves a database with \<open>Q\<close>, returning or throwing. The rules
  go through the guards of a handler, which leave the state.\<close>

definition ends :: "(baser \<Rightarrow> bool) \<Rightarrow> 'a ract \<Rightarrow> reply_state \<Rightarrow> bool" where
  "ends Q m st \<longleftrightarrow> Q (fst (snd (m st)))"

lemma ends_pure: "Q (fst st) \<Longrightarrow> ends Q ra_throw st" "Q (fst st) \<Longrightarrow> ends Q (ra_ret x) st"
  by (simp_all add: ends_def ra_throw_def ra_ret_def)

lemma ends_lift: "Q (fst st) \<Longrightarrow> (\<And>x. q = Inr x \<Longrightarrow> ends Q (f x) st) \<Longrightarrow> ends Q (ra_bind (ra_lift q) f) st"
  by (cases q) (simp_all add: ends_def ra_bind_def ra_lift_def)

lemma ends_get: "ends Q (f (g (fst st))) st \<Longrightarrow> ends Q (ra_bind (ra_get g) f) st"
  by (simp add: ends_def ra_bind_def ra_get_def)

lemma ends_if: "(c \<Longrightarrow> ends Q m st) \<Longrightarrow> (\<not> c \<Longrightarrow> ends Q n st) \<Longrightarrow> ends Q (if c then m else n) st"
  by simp

lemma ends_option: "(x = None \<Longrightarrow> ends Q m st) \<Longrightarrow> (\<And>y. x = Some y \<Longrightarrow> ends Q (f y) st)
    \<Longrightarrow> ends Q (case x of None \<Rightarrow> m | Some y \<Rightarrow> f y) st"
  by (simp split: option.split)

lemmas ends_intros = ends_pure ends_lift ends_get ends_if ends_option

context act_frame
begin

lemma rkeeps_pure:
  "rkeeps R (ra_ret x)" "rkeeps R (ra_lift r)" "rkeeps R (ra_get f)" "rkeeps R (ra_read g)"
  "rkeeps R (ra_cue c)" "rkeeps R ra_throw"
  by (auto simp: rkeeps_def refl ra_ret_def ra_lift_def ra_get_def ra_read_def ra_cue_def ra_throw_def)

lemma rkeeps_bind:
  assumes "rkeeps R m" and "\<And>x. rkeeps R (f x)"
  shows "rkeeps R (ra_bind m f)"
  unfolding rkeeps_def
proof (intro allI)
  fix db cs
  obtain r db1 cs1 where m: "m (db, cs) = (r, (db1, cs1))" by (metis prod.exhaust)
  show "R db (fst (snd (ra_bind m f (db, cs))))"
  proof (cases r)
    case (Inl e)
    then show ?thesis using rkeepsD [OF assms(1) m] m by (simp add: ra_bind_def)
  next
    case (Inr x)
    then have "fst (snd (ra_bind m f (db, cs))) = fst (snd (f x (db1, cs1)))" using m by (simp add: ra_bind_def)
    moreover have "R db1 (fst (snd (f x (db1, cs1))))" using assms(2) by (simp add: rkeeps_def)
    ultimately show ?thesis using trans [OF rkeepsD [OF assms(1) m]] by simp
  qed
qed

lemma rkeeps_mod: "(\<And>db. R db (f db)) \<Longrightarrow> rkeeps R (ra_mod f)"
  by (simp add: rkeeps_def ra_mod_def)

lemma rkeeps_try: "rkeeps R m \<Longrightarrow> rkeeps R (ra_try m)"
  by (auto simp: rkeeps_def ra_try_def split: prod.split) (metis snd_conv fst_conv)

lemma rkeeps_if: "rkeeps R (if b then m else n)" if "b \<Longrightarrow> rkeeps R m" "\<not> b \<Longrightarrow> rkeeps R n"
  using that by simp

lemma rkeeps_option: "rkeeps R (case x of None \<Rightarrow> m | Some y \<Rightarrow> f y)"
  if "rkeeps R m" "\<And>y. rkeeps R (f y)"
  using that by (simp split: option.split)

lemma rkeeps_prod: "rkeeps R (case x of (a, b) \<Rightarrow> f a b)" if "\<And>a b. rkeeps R (f a b)"
  using that by (simp split: prod.split)

lemma rkeeps_decision:
  "rkeeps R (case d of EdAccept \<Rightarrow> f | EdKeep k \<Rightarrow> g k | EdDrop e \<Rightarrow> h e)"
  if "rkeeps R f" "\<And>k. rkeeps R (g k)" "\<And>e. rkeeps R (h e)"
  using that by (simp split: escrow_decision.split)

lemma rkeeps_each: "(\<And>x. rkeeps R (f x)) \<Longrightarrow> rkeeps R (ra_each f xs)"
  by (induction xs) (auto intro: rkeeps_bind rkeeps_pure)

lemmas rkeeps_comb = rkeeps_pure rkeeps_bind rkeeps_if rkeeps_option rkeeps_prod rkeeps_decision rkeeps_try

end

section \<open>The interface\<close>

locale accept_frame = act_frame +
  assumes cigar: "R db (updateReply_cigar s saider dater v c db)"
    and pinned: "R db (updateReply_group s saider dater g sigers db)"
    and removed: "R db (removeReply o' db)"
    and waiting: "R db (rpes_add route said db)" "R db (rpes_rem route said db)"
begin

lemma escrowed: "R db (escrowReply s saider dater route g sigers db)"
  unfolding escrowReply_def using refl trans [OF pinned waiting(1)] by simp

lemma keeps_accept_cigars: "rkeeps R (accept_cigars en ac dater odater cs)"
  by (induction cs) (auto intro!: rkeeps_comb rkeeps_mod cigar removed)

lemma keeps_accept_group: "rkeeps R (accept_group en ac dater g e)"
  unfolding accept_group_def by (intro rkeeps_comb rkeeps_mod pinned removed escrowed)

lemma keeps_accept_groups: "rkeeps R (accept_groups en ac dater odater lead gs)"
proof (induction gs)
  case (Cons g gs)
  show ?case
    unfolding accept_groups.simps escrow_unknown_def
    by (intro rkeeps_comb rkeeps_mod escrowed keeps_accept_group Cons.IH)
qed (simp add: rkeeps_pure)

lemma keeps_acceptReply: "rkeeps R (acceptReply en ac)"
  unfolding acceptReply_def by (intro rkeeps_comb keeps_accept_cigars keeps_accept_groups)

end

locale reply_frame = accept_frame +
  assumes ended: "R db (updateEnd ekeys d allowed db)"
    and located: "R db (updateLoc lkeys d url db)"
    and noticed: "R db (updateKeyState aid pre ksn d dater db)"
    and watched: "R db (updateWatched now wkeys d enabled db)"
    and queued: "R db (queue_oobi now oobi db)"
begin

lemma keeps_when: "rkeeps R m \<Longrightarrow> rkeeps R (when_accepted d m)"
  unfolding when_accepted_def by (intro rkeeps_comb)

lemma keeps_save: "rkeeps R (save_notice aid ksn pre sn said dt)"
  unfolding save_notice_def by (intro rkeeps_comb rkeeps_mod noticed)

lemma keeps_watched: "rkeeps R (ra_mod (\<lambda>db. updateWatched now keys d enabled (queue_oobi now oobi db)))"
  by (rule rkeeps_mod) (rule trans [OF queued watched])

lemma keeps_end_role: "rkeeps R (processReplyEndRole rn msg route params)"
  unfolding processReplyEndRole_def Let_def
  by (intro rkeeps_comb keeps_acceptReply keeps_when rkeeps_mod ended)

lemma keeps_loc_scheme: "rkeeps R (processReplyLocScheme rn msg route params)"
  unfolding processReplyLocScheme_def Let_def
  by (intro rkeeps_comb keeps_acceptReply keeps_when rkeeps_mod located)

lemma keeps_notice: "rkeeps R (processReplyKeyStateNotice rn msg route params)"
  unfolding processReplyKeyStateNotice_def ksn_trusted_def Let_def
  by (intro rkeeps_comb keeps_acceptReply keeps_when keeps_save)

lemma keeps_watcher: "rkeeps R (processReplyAddWatched rn msg route params)"
  unfolding processReplyAddWatched_def Let_def
  by (intro rkeeps_comb keeps_acceptReply keeps_when keeps_watched)

text \<open>A table whose handlers keep the relation.\<close>

definition keeping_table :: "router \<Rightarrow> bool" where
  "keeping_table rtr \<longleftrightarrow>
     (\<forall>r \<in> set rtr. \<forall>h. rt_resource r (route_method r) = Some h \<longrightarrow>
        (\<forall>msg route params. rkeeps R (h msg route params)))"

lemma keeps_dispatch: "keeping_table rtr \<Longrightarrow> rkeeps R (dispatch_routes rtr msg route)"
proof (induction rtr)
  case (Cons r rs)
  then have h: "rkeeps R (h msg route params)" if "rt_resource r (route_method r) = Some h" for h params
    using that by (simp add: keeping_table_def)
  have "rkeeps R (dispatch_routes rs msg route)" using Cons by (simp add: keeping_table_def)
  then show ?case by (auto split: option.split intro!: rkeeps_pure h)
qed (simp add: rkeeps_pure)

lemma keeps_reply: "keeping_table rtr \<Longrightarrow> rkeeps R (processReply rn rtr s cigars tsgs)"
  unfolding processReply_def router_dispatch_def Let_def by (intro rkeeps_comb keeps_dispatch)

lemma keeps_rpe_row: "keeping_table rtr \<Longrightarrow> rkeeps R (rpe_row rn rtr row)"
  unfolding rpe_row_def reprocessEscrowedReply_def replay_reply_def
  by (intro rkeeps_comb rkeeps_mod keeps_reply waiting trans [OF waiting(2) removed])

lemma keeps_reply_pass: "keeping_table rtr \<Longrightarrow> rkeeps R (processEscrowReply rn rtr keys)"
  unfolding processEscrowReply_def by (intro rkeeps_comb rkeeps_each keeps_rpe_row)

end

section \<open>The table of the node\<close>

definition end_role_tokens :: "uri_token list" where
  "end_role_tokens = map UriChar ''/end/role/'' @ [UriField ''action'']"

definition loc_scheme_tokens :: "uri_token list" where
  "loc_scheme_tokens = map UriChar ''/loc/scheme''"

definition ksn_tokens :: "uri_token list" where
  "ksn_tokens = map UriChar ''/ksn/'' @ [UriField ''aid'']"

definition watcher_tokens :: "uri_token list" where
  "watcher_tokens = map UriChar ''/watcher/'' @ [UriField ''aid'', UriChar (CHR ''/''), UriField ''action'']"

lemma compiled_templates:
  "compileUriTemplate ''/end/role/{action}'' = Inr ([''action''], end_role_tokens)"
  "compileUriTemplate ''/loc/scheme'' = Inr ([], loc_scheme_tokens)"
  "compileUriTemplate ''/ksn/{aid}'' = Inr ([''aid''], ksn_tokens)"
  "compileUriTemplate ''/watcher/{aid}/{action}'' = Inr ([''aid'', ''action''], watcher_tokens)"
  by code_simp+

definition node_routes :: "reply_env \<Rightarrow> router" where
  "node_routes rn =
     [\<lparr>rt_regex = end_role_tokens, rt_fields = [''action''], rt_resource = basic_handler rn, rt_suffix = Some ''EndRole''\<rparr>,
      \<lparr>rt_regex = loc_scheme_tokens, rt_fields = [], rt_resource = basic_handler rn, rt_suffix = Some ''LocScheme''\<rparr>,
      \<lparr>rt_regex = ksn_tokens, rt_fields = [''aid''], rt_resource = kevery_handler rn, rt_suffix = Some ''KeyStateNotice''\<rparr>,
      \<lparr>rt_regex = watcher_tokens, rt_fields = [''aid'', ''action''], rt_resource = kevery_handler rn,
       rt_suffix = Some ''AddWatched''\<rparr>]"

lemma node_router_routes: "node_router rn = Inr (node_routes rn)"
  unfolding node_router_def basic_routes_def kevery_routes_def addRoute_def compiled_templates node_routes_def
  by simp

context reply_frame
begin

lemma keeping_node: "keeping_table (node_routes rn)"
  by (auto simp: keeping_table_def node_routes_def basic_handler_def kevery_handler_def
      intro: keeps_end_role keeps_loc_scheme keeps_notice keeps_watcher split: if_splits)

end

section \<open>What acceptance leaves to the handlers\<close>

definition same_indexes :: "baser \<Rightarrow> baser \<Rightarrow> bool" where
  "same_indexes a b \<longleftrightarrow>
     db_eans b = db_eans a \<and> db_lans b = db_lans a \<and> db_knas b = db_knas a \<and> db_wwas b = db_wwas a"

lemmas reply_writes = updateReply_cigar_def updateReply_group_def reply_pin_def ssgs_pin_def removeReply_def
  rpes_add_def rpes_rem_def updateEnd_def updateLoc_def updateKeyState_def updateWatched_def queue_oobi_def

interpretation indexes: accept_frame same_indexes
  by unfold_locales (auto simp: same_indexes_def reply_writes Let_def split: option.split)

section \<open>Where replies write\<close>

definition without_replies :: "baser \<Rightarrow> baser" where
  "without_replies db = db\<lparr>db_sdts := Map.empty, db_rpys := Map.empty, db_ssgs := (\<lambda>_. []),
     db_scgs := (\<lambda>_. []), db_rpes := (\<lambda>_. []), db_eans := Map.empty, db_ends := Map.empty,
     db_lans := Map.empty, db_locs := Map.empty, db_kdts := Map.empty, db_ksns := Map.empty,
     db_knas := Map.empty, db_wwas := Map.empty, db_obvs := Map.empty, db_oobis := Map.empty\<rparr>"

definition reply_area :: "baser \<Rightarrow> baser \<Rightarrow> bool" where
  "reply_area a b \<longleftrightarrow> without_replies b = without_replies a"

interpretation replies: reply_frame reply_area
  by unfold_locales (auto simp: reply_area_def without_replies_def reply_writes Let_def split: option.split)

lemma reply_area_sel:
  assumes "reply_area a b"
  shows "db_kels b = db_kels a" "db_fels b = db_fels a" "db_fons b = db_fons a" "db_states b = db_states a"
    "db_wigs b = db_wigs a" "db_vrcs b = db_vrcs a" "db_evts b = db_evts a" "db_sigs b = db_sigs a"
    "db_rcts b = db_rcts a" "db_kevers b = db_kevers a" "db_habs b = db_habs a"
  using assms [unfolded reply_area_def, THEN arg_cong, of db_kels]
    assms [unfolded reply_area_def, THEN arg_cong, of db_fels]
    assms [unfolded reply_area_def, THEN arg_cong, of db_fons]
    assms [unfolded reply_area_def, THEN arg_cong, of db_states]
    assms [unfolded reply_area_def, THEN arg_cong, of db_wigs]
    assms [unfolded reply_area_def, THEN arg_cong, of db_vrcs]
    assms [unfolded reply_area_def, THEN arg_cong, of db_evts]
    assms [unfolded reply_area_def, THEN arg_cong, of db_sigs]
    assms [unfolded reply_area_def, THEN arg_cong, of db_rcts]
    assms [unfolded reply_area_def, THEN arg_cong, of db_kevers]
    assms [unfolded reply_area_def, THEN arg_cong, of db_habs]
  by (simp_all add: without_replies_def)

lemma grows_but_replies: "reply_area a b \<Longrightarrow> grows_but K a b"
  using reply_area_sel [of a b] by (simp add: grows_but_def)

section \<open>The shape of what is stored\<close>

text \<open>The groups under a SAID are a finite map kept in key order, none of them empty, and no SAID
  waits twice under a route.\<close>

definition rows_ok :: "(triple_row \<times> string list) list \<Rightarrow> bool" where
  "rows_ok rows \<longleftrightarrow>
     sorted (map (row_text \<circ> fst) rows) \<and> distinct (map fst rows)
     \<and> (\<forall>sigs \<in> snd ` set rows. sigs \<noteq> [] \<and> distinct sigs)"

definition replies_ok :: "baser \<Rightarrow> bool" where
  "replies_ok db \<longleftrightarrow> (\<forall>said. rows_ok (db_ssgs db said)) \<and> (\<forall>route. distinct (db_rpes db route))"

lemma ssgs_insert_set: "set (ssgs_insert k v rows) \<subseteq> insert (k, v) (set rows)"
  by (induction k v rows rule: ssgs_insert.induct) auto

lemma ssgs_insert_keys: "fst ` set (ssgs_insert k v rows) = insert k (fst ` set rows)"
  by (induction k v rows rule: ssgs_insert.induct) auto

lemma ssgs_insert_ok: "rows_ok rows \<Longrightarrow> v \<noteq> [] \<Longrightarrow> distinct v \<Longrightarrow> rows_ok (ssgs_insert k v rows)"
proof (induction k v rows rule: ssgs_insert.induct)
  case (2 k v k' v' rows)
  have ok: "rows_ok rows" using 2(2) by (simp add: rows_ok_def)
  consider "k = k'" | "k \<noteq> k'" "row_text k < row_text k'" | "k \<noteq> k'" "\<not> row_text k < row_text k'" by blast
  then show ?case
  proof cases
    case 2
    have "k \<notin> fst ` set rows"
      using 2 \<open>rows_ok ((k', v') # rows)\<close> by (force simp: rows_ok_def)
    then show ?thesis using 2 \<open>rows_ok ((k', v') # rows)\<close> \<open>v \<noteq> []\<close> \<open>distinct v\<close>
      by (auto simp: rows_ok_def intro: order.strict_implies_order order.trans)
  next
    case 3
    have r: "rows_ok (ssgs_insert k v rows)" using 2(1) [OF 3 ok] 2(3,4) by blast
    have "\<forall>x \<in> set (ssgs_insert k v rows). row_text k' \<le> row_text (fst x)"
      using ssgs_insert_set [of k v rows] 3(2) 2(2) by (fastforce simp: rows_ok_def not_less)
    then show ?thesis using r 3 2(2) ssgs_insert_keys [of k v rows]
      by (auto simp: rows_ok_def)
  qed (use 2 in \<open>auto simp: rows_ok_def\<close>)
qed (simp add: rows_ok_def)

lemma ssgs_insert_map: "rows_ok rows \<Longrightarrow> map_of (ssgs_insert k v rows) = (map_of rows)(k \<mapsto> v)"
proof (induction k v rows rule: ssgs_insert.induct)
  case (2 k v k' v' rows)
  then show ?case by (auto simp: rows_ok_def fun_upd_twist)
qed simp

lemma io_put_keeps: "distinct (io_put vs [])" "vs \<noteq> [] \<Longrightarrow> io_put vs [] \<noteq> []"
  using io_put_distinct [of "[]" vs] io_put_set [of vs "[]"] by (auto simp del: io_put_set)

lemma ssgs_pin_ok: "replies_ok db \<Longrightarrow> replies_ok (ssgs_pin said row sigs db)"
  by (auto simp: replies_ok_def ssgs_pin_def io_put_keeps intro!: ssgs_insert_ok)

definition keeps_ok :: "baser \<Rightarrow> baser \<Rightarrow> bool" where
  "keeps_ok a b \<longleftrightarrow> (replies_ok a \<longrightarrow> replies_ok b)"

lemma replies_ok_cong:
  "db_ssgs b = db_ssgs a \<Longrightarrow> db_rpes b = db_rpes a \<Longrightarrow> replies_ok b \<longleftrightarrow> replies_ok a"
  by (simp add: replies_ok_def)

interpretation kept: reply_frame keeps_ok
proof
  show "keeps_ok db (updateReply_group s saider dater g sigers db)" for db s saider dater g sigers
    unfolding keeps_ok_def updateReply_group_def
    by (intro impI ssgs_pin_ok) (simp add: replies_ok_def reply_pin_def)
  show "keeps_ok db (removeReply o' db)" for db o'
    by (auto simp: keeps_ok_def replies_ok_def removeReply_def rows_ok_def split: option.split)
  show "keeps_ok db (rpes_add route said db)" "keeps_ok db (rpes_rem route said db)" for db route said
    by (auto simp: keeps_ok_def replies_ok_def rpes_add_def rpes_rem_def io_add_distinct)
qed (auto simp: keeps_ok_def replies_ok_def reply_writes Let_def split: option.split)

section \<open>Runs of a node with replies\<close>

inductive agent_step :: "nat \<Rightarrow> bool \<Rightarrow> bool \<Rightarrow> dg set \<Rightarrow> baser \<Rightarrow> baser \<Rightarrow> bool" for fuel lax loc K where
  agent_node: "node_step fuel lax loc K db db' \<Longrightarrow> agent_step fuel lax loc K db db'"
| agent_reply: "processReply rn (node_routes rn) s cigars tsgs (db, cs) = (r, (db', cs'))
    \<Longrightarrow> agent_step fuel lax loc K db db'"
| agent_replies: "processEscrowReply rn (node_routes rn) routes (db, cs) = (u, (db', cs'))
    \<Longrightarrow> agent_step fuel lax loc K db db'"

inductive agent_run :: "nat \<Rightarrow> bool \<Rightarrow> bool \<Rightarrow> dg set \<Rightarrow> baser \<Rightarrow> baser \<Rightarrow> bool" for fuel lax loc K where
  agent_refl: "agent_run fuel lax loc K db db"
| agent_next: "agent_run fuel lax loc K db db' \<Longrightarrow> agent_step fuel lax loc K db' db''
    \<Longrightarrow> agent_run fuel lax loc K db db''"

inductive_cases agent_stepE: "agent_step fuel lax loc K db db'"

lemma replies_stepped:
  "processReply rn (node_routes rn) s cigars tsgs (db, cs) = (r, (db', cs')) \<Longrightarrow> reply_area db db'"
  "processEscrowReply rn (node_routes rn) routes (db, cs) = (u, (db', cs')) \<Longrightarrow> reply_area db db'"
  by (erule rkeepsD [rotated], rule replies.keeps_reply [OF replies.keeping_node]
      replies.keeps_reply_pass [OF replies.keeping_node])+

lemma agent_stepped: "agent_step fuel lax loc K db db' \<Longrightarrow> grows_but K db db'"
  by (erule agent_stepE) (auto intro: nodes.node_stepped grows_but_replies replies_stepped)

lemma agent_ran: "agent_run fuel lax loc K db db' \<Longrightarrow> grows_but K db db'"
  by (induction rule: agent_run.induct) (auto intro: nodes.refl nodes.trans agent_stepped)

end
