(* ===== verification/ReplyProps.thy ===== *)
theory ReplyProps
  imports ReplyFrame KeverSamples
begin

text \<open>
  What replies do: the table of the node sends a route to the handler its segments name; an
  accepted reply is endorsed by the identifier it speaks for and newer than what it replaces, and only
  then an index moves to it.
\<close>

section \<open>Routing\<close>

definition same_text :: "string \<Rightarrow> string \<Rightarrow> bool" where
  "same_text a b \<longleftrightarrow> map js_canon a = map js_canon b"

lemma js_canon_slash: "js_canon c = js_canon (CHR ''/'') \<longleftrightarrow> c = CHR ''/''"
proof
  assume "js_canon c = js_canon (CHR ''/'')"
  then have "js_canon c = 47" by (simp add: js_canon_def)
  then have "(of_char c :: nat) = of_char (CHR ''/'')" by (auto simp: js_canon_def Let_def split: if_splits)
  then show "c = CHR ''/''" by (simp only: of_char_eq_iff)
qed simp

lemma uri_route_chars:
  "uri_route (map UriChar w @ ts) s ps \<longleftrightarrow> (\<exists>u t. s = u @ t \<and> same_text w u \<and> uri_route ts t ps)"
proof (induction w arbitrary: s)
  case (Cons c w)
  have "uri_route (map UriChar (c # w) @ ts) s ps
    \<longleftrightarrow> (\<exists>x s'. s = x # s' \<and> js_canon c = js_canon x \<and> uri_route (map UriChar w @ ts) s' ps)"
    by (auto elim: uri_route_char intro: uri_route.intros)
  also have "\<dots> \<longleftrightarrow> (\<exists>u t. s = u @ t \<and> same_text (c # w) u \<and> uri_route ts t ps)"
    unfolding Cons.IH by (auto simp: same_text_def Cons_eq_append_conv) (metis append_Cons list.simps(9))+
  finally show ?case .
qed (simp add: same_text_def)

lemma uri_route_field_iff:
  "uri_route (UriField f # ts) s ps \<longleftrightarrow>
     (\<exists>v t qs. s = v @ t \<and> v \<noteq> [] \<and> CHR ''/'' \<notin> set v \<and> uri_route ts t qs \<and> ps = (f, v) # qs)"
  by (auto elim: uri_route_field intro: uri_route.intros)

lemma uri_route_nil: "uri_route [] s ps \<longleftrightarrow> s = [] \<and> ps = []"
  by (auto elim: uri_route_end intro: uri_route.intros)

lemma same_text_no_slash: "same_text w a \<Longrightarrow> CHR ''/'' \<notin> set w \<Longrightarrow> CHR ''/'' \<notin> set a"
proof -
  assume e: "same_text w a" and n: "CHR ''/'' \<notin> set w"
  show "CHR ''/'' \<notin> set a"
  proof
    assume "CHR ''/'' \<in> set a"
    then have "js_canon (CHR ''/'') \<in> set (map js_canon w)" using e by (simp add: same_text_def)
    then obtain c where "c \<in> set w" "js_canon c = js_canon (CHR ''/'')" by auto
    then show False using n by (simp add: js_canon_slash)
  qed
qed

lemma js_join_split: "js_join c (js_split c s) = s"
proof (induction s)
  case (Cons x s)
  obtain w ws where w: "js_split c s = w # ws" by (cases "js_split c s") auto
  show ?case using Cons.IH by (cases ws) (auto simp: w)
qed simp

lemma js_split_parts: "w \<in> set (js_split c s) \<Longrightarrow> c \<notin> set w"
  by (induction s arbitrary: w) (auto split: list.splits if_splits)

text \<open>A template as its segments: a text, or a field. \<open>seg_params\<close> compares them with the
  segments of a route one by one.\<close>

definition seg_tokens :: "(string + string) list \<Rightarrow> uri_token list" where
  "seg_tokens segs = concat (map (\<lambda>g. UriChar (CHR ''/'') #
     (case g of Inl w \<Rightarrow> map UriChar w | Inr f \<Rightarrow> [UriField f])) segs)"

fun seg_params :: "(string + string) list \<Rightarrow> string list \<Rightarrow> (string \<times> string) list option" where
  "seg_params [] [] = Some []"
| "seg_params (Inl w # segs) (a # parts) = (if same_text w a then seg_params segs parts else None)"
| "seg_params (Inr f # segs) (v # parts) =
     (if v \<noteq> [] then map_option (Cons (f, v)) (seg_params segs parts) else None)"
| "seg_params _ _ = None"

definition slashed :: "string list \<Rightarrow> string" where
  "slashed parts = concat (map (Cons (CHR ''/'')) parts)"

lemma slashed_split:
  "(\<forall>w \<in> set parts. CHR ''/'' \<notin> set w) \<and> s = slashed parts \<longleftrightarrow> js_split (CHR ''/'') s = [] # parts"
proof -
  have j: "js_join (CHR ''/'') ([] # parts) = slashed parts"
  proof (induction parts)
    case (Cons p ps)
    then show ?case by (cases ps) (auto simp: slashed_def)
  qed (simp add: slashed_def)
  have "js_split (CHR ''/'') (slashed parts) = [] # parts" if "\<forall>w \<in> set parts. CHR ''/'' \<notin> set w"
    using js_split_join [of "[] # parts" "CHR ''/''"] that unfolding j by simp
  moreover have "s = slashed parts" if "js_split (CHR ''/'') s = [] # parts"
    using js_join_split [of "CHR ''/''" s] unfolding that j by simp
  moreover have "CHR ''/'' \<notin> set w" if "js_split (CHR ''/'') s = [] # parts" "w \<in> set parts" for w
    using js_split_parts [of w "CHR ''/''" s] that by simp
  ultimately show ?thesis by blast
qed

lemma seg_route:
  assumes "\<forall>w. Inl w \<in> set segs \<longrightarrow> CHR ''/'' \<notin> set w"
  shows "uri_route (seg_tokens segs) s ps \<longleftrightarrow>
     (\<exists>parts. (\<forall>w \<in> set parts. CHR ''/'' \<notin> set w) \<and> s = slashed parts \<and> seg_params segs parts = Some ps)"
  using assms
proof (induction segs arbitrary: s ps)
  case Nil
  have "seg_params [] parts = Some ps \<longleftrightarrow> parts = [] \<and> ps = []" for parts by (cases parts) auto
  then show ?case by (auto simp: seg_tokens_def uri_route_nil slashed_def)
next
  case (Cons g segs)
  have slash: "uri_route (UriChar (CHR ''/'') # ts) s ps \<longleftrightarrow> (\<exists>t. s = CHR ''/'' # t \<and> uri_route ts t ps)" for ts
    by (auto elim!: uri_route_char intro: uri_route.intros dest: iffD1 [OF js_canon_slash, OF sym])
  have parts: "(\<exists>parts. (\<forall>w \<in> set parts. CHR ''/'' \<notin> set w) \<and> s = slashed parts \<and> seg_params (g # segs) parts = Some ps)
    \<longleftrightarrow> (\<exists>a parts. CHR ''/'' \<notin> set a \<and> (\<forall>w \<in> set parts. CHR ''/'' \<notin> set w) \<and> s = CHR ''/'' # a @ slashed parts
          \<and> seg_params (g # segs) (a # parts) = Some ps)" (is "?l \<longleftrightarrow> ?r")
  proof
    assume ?l
    then obtain parts where p: "\<forall>w \<in> set parts. CHR ''/'' \<notin> set w" "s = slashed parts"
      "seg_params (g # segs) parts = Some ps" by blast
    then obtain a rest where "parts = a # rest" by (cases parts; cases g) auto
    then show ?r using p by (intro exI [of _ a] exI [of _ rest]) (simp add: slashed_def)
  next
    assume ?r
    then obtain a parts where "CHR ''/'' \<notin> set a" "\<forall>w \<in> set parts. CHR ''/'' \<notin> set w"
      "s = CHR ''/'' # a @ slashed parts" "seg_params (g # segs) (a # parts) = Some ps" by blast
    then show ?l by (intro exI [of _ "a # parts"]) (auto simp: slashed_def)
  qed
  have IH: "uri_route (seg_tokens segs) t qs \<longleftrightarrow>
      (\<exists>parts. (\<forall>w \<in> set parts. CHR ''/'' \<notin> set w) \<and> t = slashed parts \<and> seg_params segs parts = Some qs)" for t qs
    by (rule Cons.IH) (use Cons.prems in auto)
  show ?case
  proof (cases g)
    case (Inl w)
    then have "CHR ''/'' \<notin> set a" if "same_text w a" for a
      using Cons.prems same_text_no_slash [OF that] by simp
    then show ?thesis unfolding parts
      by (auto simp: Inl seg_tokens_def [of "Inl w # segs"] slash uri_route_chars
          IH [unfolded seg_tokens_def] split: if_splits; metis)
  next
    case (Inr f)
    show ?thesis unfolding parts
      by (auto simp: Inr seg_tokens_def [of "Inr f # segs"] slash uri_route_field_iff
          IH [unfolded seg_tokens_def] split: if_splits; metis)
  qed
qed

definition route_params :: "(string + string) list \<Rightarrow> string \<Rightarrow> (string \<times> string) list option" where
  "route_params segs s =
     (case js_split (CHR ''/'') s of p # parts \<Rightarrow> if p = [] then seg_params segs parts else None | [] \<Rightarrow> None)"

lemma uri_match_segments:
  assumes "\<forall>w. Inl w \<in> set segs \<longrightarrow> CHR ''/'' \<notin> set w"
  shows "uri_match (seg_tokens segs) s = route_params segs s"
proof -
  have r: "uri_route (seg_tokens segs) s ps \<longleftrightarrow> route_params segs s = Some ps" for ps
    unfolding seg_route [OF assms] conj_assoc [symmetric] slashed_split
    by (auto simp: route_params_def split: list.split if_splits)
  show ?thesis
  proof (cases "uri_match (seg_tokens segs) s")
    case None
    then show ?thesis using r uri_match_complete by (metis option.exhaust)
  next
    case (Some ps)
    then show ?thesis using r uri_match_sound by metis
  qed
qed

lemma node_tokens:
  "end_role_tokens = seg_tokens [Inl ''end'', Inl ''role'', Inr ''action'']"
  "loc_scheme_tokens = seg_tokens [Inl ''loc'', Inl ''scheme'']"
  "ksn_tokens = seg_tokens [Inl ''ksn'', Inr ''aid'']"
  "watcher_tokens = seg_tokens [Inl ''watcher'', Inr ''aid'', Inr ''action'']"
  by (simp_all add: seg_tokens_def end_role_tokens_def loc_scheme_tokens_def ksn_tokens_def watcher_tokens_def)



section \<open>What endorses a reply\<close>

definition cigar_endorses :: "env \<Rightarrow> acceptance \<Rightarrow> baser \<Rightarrow> matter \<Rightarrow> bool" where
  "cigar_endorses en ac db dater \<longleftrightarrow>
     (\<exists>c \<in> set (ac_cigars ac). \<exists>v. cg_verfer c = Some v \<and> mt_qb64 v = ac_aid ac
        \<and> sameOrNewerReply dater (old_dater db (ac_osaider ac)) = Inr True
        \<and> verfer_verify en v (mt_raw (cg_sig c)) (sd_raw (ac_serder ac)) = Inr True)"

text \<open>Distinct indices, each with a signature that verifies under the key of that index.\<close>

definition verified_ok :: "env \<Rightarrow> byte list \<Rightarrow> matter list \<Rightarrow> (int \<times> indexer) list \<Rightarrow> bool" where
  "verified_ok en raw vs got \<longleftrightarrow>
     distinct (map fst got)
     \<and> (\<forall>(i, s') \<in> set got. \<exists>s v. ix_index s = i \<and> siger_rebuild s = Inr s' \<and> nth_opt vs i = Some v
          \<and> verfer_verify en v (ix_raw s) raw = Inr True)"

definition outranks :: "acceptance \<Rightarrow> baser \<Rightarrow> matter \<Rightarrow> trans_group \<Rightarrow> bool" where
  "outranks ac db dater g \<longleftrightarrow>
     (\<exists>lead. old_lead db (ac_osaider ac) = Inr lead
        \<and> (\<forall>l. lead = Some l \<longrightarrow> ordinal_num (tg_seqner l) < ordinal_num (tg_seqner g)
             \<or> ordinal_num (tg_seqner g) = ordinal_num (tg_seqner l)
                \<and> sameOrNewerReply dater (old_dater db (ac_osaider ac)) = Inr True))"

text \<open>The signer's event is the last of its log at the ordinal of the group.\<close>

definition group_endorses :: "env \<Rightarrow> acceptance \<Rightarrow> baser \<Rightarrow> matter \<Rightarrow> bool" where
  "group_endorses en ac db dater \<longleftrightarrow>
     (\<exists>g \<in> set (ac_tsgs ac). \<exists>e t vs got. mt_qb64 (tg_prefixer g) = ac_aid ac \<and> outranks ac db dater g
        \<and> kels_getLast db (ac_aid ac) (int (js_num (ordinal_num (tg_seqner g)))) = Some (mt_qb64 (tg_diger g))
        \<and> db_evts db (ac_aid ac, mt_qb64 (tg_diger g)) = Some e
        \<and> serder_tholder (en_json en) e = Some t \<and> serder_verfers e = Inr vs
        \<and> verified_ok en (sd_raw (ac_serder ac)) vs got \<and> tholder_satisfy t (map fst got) = Inr True)"

definition endorsed :: "env \<Rightarrow> acceptance \<Rightarrow> baser \<Rightarrow> bool" where
  "endorsed en ac db \<longleftrightarrow>
     (\<exists>dt dater. text_field (ac_serder ac) ''dt'' = Some dt \<and> dater_of (encodeDateTimeToDater dt) = Inr dater
        \<and> (cigar_endorses en ac db dater \<or> group_endorses en ac db dater))"

lemma verify_group_ok:
  "verify_group en raw vs got ss = Inr got' \<Longrightarrow> verified_ok en raw vs got \<Longrightarrow> verified_ok en raw vs got'"
proof (induction ss arbitrary: got)
  case (Cons s ss)
  consider "verify_group en raw vs got ss = Inr got'"
    | v s' where "nth_opt vs (ix_index s) = Some v" "ix_index s \<notin> fst ` set got"
      "verfer_verify en v (ix_raw s) raw = Inr True" "siger_rebuild s = Inr s'"
      "verify_group en raw vs (got @ [(ix_index s, s')]) ss = Inr got'"
    using Cons.prems(1) by (auto simp: res_simps split: option.splits if_splits)
  then show ?case
  proof cases
    case 2
    have "verified_ok en raw vs (got @ [(ix_index s, s')])"
      using Cons.prems(2) 2(1-4) unfolding verified_ok_def by auto
    then show ?thesis by (rule Cons.IH [OF 2(5)])
  qed (use Cons in blast)
qed simp

lemma accept_cigars_ok:
  assumes "accept_cigars en ac dater odater cs st = (Inr b, st')"
  shows "b \<Longrightarrow> \<exists>c \<in> set cs. \<exists>v. cg_verfer c = Some v \<and> mt_qb64 v = ac_aid ac
      \<and> sameOrNewerReply dater odater = Inr True
      \<and> verfer_verify en v (mt_raw (cg_sig c)) (sd_raw (ac_serder ac)) = Inr True"
    and "\<not> b \<Longrightarrow> st' = st"
  using assms by (induction cs) (auto simp: ract_simps split: option.splits if_splits)

lemma accept_group_ok:
  assumes "accept_group en ac dater g e st = (Inr True, st')"
  shows "\<exists>t vs got. serder_tholder (en_json en) e = Some t \<and> serder_verfers e = Inr vs
      \<and> verified_ok en (sd_raw (ac_serder ac)) vs got \<and> tholder_satisfy t (map fst got) = Inr True"
proof -
  obtain t vs ss got where t: "reply_threshold en e = Inr (t, vs)"
    and v: "verify_group en (sd_raw (ac_serder ac)) vs [] ss = Inr got" and s: "tholder_satisfy t (map fst got) = Inr True"
    using assms unfolding accept_group_def by (auto simp: ract_simps split: if_splits)
  have "verified_ok en (sd_raw (ac_serder ac)) vs got"
    by (rule verify_group_ok [OF v]) (simp add: verified_ok_def)
  moreover have "serder_tholder (en_json en) e = Some t" "serder_verfers e = Inr vs"
    using t by (auto simp: reply_threshold_def res_simps split: option.splits if_splits)
  ultimately show ?thesis using s by blast
qed

lemma group_barred_not:
  assumes "group_barred dater odater lead g = Inr False" and "lead = Some l"
  shows "ordinal_num (tg_seqner l) < ordinal_num (tg_seqner g)
    \<or> ordinal_num (tg_seqner g) = ordinal_num (tg_seqner l) \<and> sameOrNewerReply dater odater = Inr True"
  using assms by (auto simp: group_barred_def Let_def res_simps split: if_splits)

definition signer_ok :: "env \<Rightarrow> acceptance \<Rightarrow> baser \<Rightarrow> trans_group \<Rightarrow> bool" where
  "signer_ok en ac db g \<longleftrightarrow>
     (\<exists>e t vs got. mt_qb64 (tg_prefixer g) = ac_aid ac
        \<and> kels_getLast db (ac_aid ac) (int (js_num (ordinal_num (tg_seqner g)))) = Some (mt_qb64 (tg_diger g))
        \<and> db_evts db (ac_aid ac, mt_qb64 (tg_diger g)) = Some e
        \<and> serder_tholder (en_json en) e = Some t \<and> serder_verfers e = Inr vs
        \<and> verified_ok en (sd_raw (ac_serder ac)) vs got \<and> tholder_satisfy t (map fst got) = Inr True)"

lemma signer_ok_area: "reply_area a b \<Longrightarrow> signer_ok en ac b = signer_ok en ac a"
  by (intro ext) (simp add: signer_ok_def kels_getLast_def reply_area_sel)

lemma escrow_unknown_area: "escrow_unknown ac dater g (db, cs) = (x, (db1, cs1)) \<Longrightarrow> reply_area db db1"
  using replies.escrowed [of db] by (auto simp: escrow_unknown_def ract_simps)

lemma accept_group_signer:
  assumes "accept_group en ac dater g e st = (Inr True, st')" and "mt_qb64 (tg_prefixer g) = ac_aid ac"
    and "kels_getLast db (ac_aid ac) (int (js_num (ordinal_num (tg_seqner g)))) = Some (mt_qb64 (tg_diger g))"
    and "db_evts db (ac_aid ac, mt_qb64 (tg_diger g)) = Some e"
  shows "signer_ok en ac db g"
  using accept_group_ok [OF assms(1)] assms(2-) unfolding signer_ok_def by blast

text \<open>A group is passed over, with writes in the reply stores at most, or it is accepted.\<close>

lemma accept_groups_step:
  assumes "accept_groups en ac dater odater lead (g # gs) (db, cs) = (Inr True, st')"
  shows "(\<exists>db1 cs1. reply_area db db1 \<and> accept_groups en ac dater odater lead gs (db1, cs1) = (Inr True, st'))
    \<or> group_barred dater odater lead g = Inr False \<and> signer_ok en ac db g"
proof (cases "mt_qb64 (tg_prefixer g) = ac_aid ac \<and> group_barred dater odater lead g = Inr False")
  case False
  then have "accept_groups en ac dater odater lead gs (db, cs) = (Inr True, st')"
    using assms by (auto simp: ract_simps split: if_splits)
  then show ?thesis using replies.refl by blast
next
  case True
  let ?d = "mt_qb64 (tg_diger g)" and ?est = "kels_getLast db (ac_aid ac) (int (js_num (ordinal_num (tg_seqner g))))"
  show ?thesis
  proof (cases "\<not> truthy ?est \<or> ?est \<noteq> Some ?d")
    case unknown: True
    obtain x db1 cs1 where e: "escrow_unknown ac dater g (db, cs) = (x, (db1, cs1))" by (metis prod.exhaust)
    then have "\<exists>cs2. accept_groups en ac dater odater lead gs (db1, cs2) = (Inr True, st')"
      using assms True unknown by (auto simp: ract_simps simp del: de_Morgan_conj)
    then show ?thesis using escrow_unknown_area [OF e] by blast
  next
    case est: False
    show ?thesis
    proof (cases "db_evts db (ac_aid ac, ?d)")
      case None
      obtain x db1 cs1 where e: "escrow_unknown ac dater g (db, cs) = (x, (db1, cs1))" by (metis prod.exhaust)
      then have "accept_groups en ac dater odater lead gs (db1, cs1) = (Inr True, st')"
        using assms True est None by (auto simp: ract_simps getEvtSerder_def)
      then show ?thesis using escrow_unknown_area [OF e] by blast
    next
      case (Some e)
      obtain ok db1 cs1 where g: "accept_group en ac dater g e (db, cs) = (Inr ok, (db1, cs1))"
        and r: "\<not> ok \<Longrightarrow> accept_groups en ac dater odater lead gs (db1, cs1) = (Inr True, st')"
        using assms True est Some by (auto simp: ract_simps getEvtSerder_def split: if_splits)
      show ?thesis
      proof (cases ok)
        case ok: True
        have "signer_ok en ac db g" by (rule accept_group_signer [of en ac dater g e]) (use g ok True est Some in simp_all)
        then show ?thesis using True by simp
      qed (use rkeepsD [OF replies.keeps_accept_group g] r in blast)
    qed
  qed
qed

lemma accept_groups_ok:
  assumes "accept_groups en ac dater odater lead gs (db, cs) = (Inr True, st')"
  shows "\<exists>g \<in> set gs. group_barred dater odater lead g = Inr False \<and> signer_ok en ac db g"
  using assms
proof (induction gs arbitrary: db cs)
  case (Cons g gs)
  show ?case
    using accept_groups_step [OF Cons.prems] Cons.IH signer_ok_area by (metis list.set_intros)
qed (simp add: ract_simps)

lemma acceptReply_endorsed:
  assumes "acceptReply en ac (db, cs) = (Inr ReplyAccept, st')"
  shows "endorsed en ac db"
proof -
  obtain dt dater where d: "text_field (ac_serder ac) ''dt'' = Some dt" "dater_of (encodeDateTimeToDater dt) = Inr dater"
    using assms by (auto simp: acceptReply_def ract_simps split: option.splits)
  let ?od = "old_dater db (ac_osaider ac)"
  obtain b st1 where c: "accept_cigars en ac dater ?od (ac_cigars ac) (db, cs) = (Inr b, st1)"
    using assms d by (auto simp: acceptReply_def ract_simps)
  show ?thesis
  proof (cases b)
    case True
    then show ?thesis using accept_cigars_ok(1) [OF c] d by (auto simp: endorsed_def cigar_endorses_def)
  next
    case False
    then have st1: "st1 = (db, cs)" using accept_cigars_ok(2) [OF c] by simp
    obtain lead st2 where l: "old_lead db (ac_osaider ac) = Inr lead"
      "accept_groups en ac dater ?od lead (ac_tsgs ac) (db, cs) = (Inr True, st2)"
      using assms d c False st1 by (auto simp: acceptReply_def ract_simps split: if_splits)
    obtain g where g: "g \<in> set (ac_tsgs ac)" "group_barred dater ?od lead g = Inr False" "signer_ok en ac db g"
      using accept_groups_ok [OF l(2)] by blast
    have "outranks ac db dater g" unfolding outranks_def using l(1) group_barred_not [OF g(2)] by blast
    then show ?thesis using g(1,3) d unfolding endorsed_def group_endorses_def signer_ok_def by blast
  qed
qed

section \<open>Indexes\<close>

text \<open>An index entry stays, or becomes the message's own SAID, for an identifier \<open>aid\<close> the key
  names that endorses the message against the entry it replaces.\<close>

definition authorizes :: "reply_env \<Rightarrow> reply_msg \<Rightarrow> string \<Rightarrow> matter option \<Rightarrow> baser \<Rightarrow> bool" where
  "authorizes rn msg aid old db \<longleftrightarrow>
     endorsed (rn_env rn) (reply_acceptance msg [] aid (prior_reply old (rm_diger msg))) db"

definition index_moves ::
  "reply_env \<Rightarrow> reply_msg \<Rightarrow> baser \<Rightarrow> ('k \<Rightarrow> string \<Rightarrow> bool) \<Rightarrow> ('k \<Rightarrow> matter option) \<Rightarrow> ('k \<Rightarrow> matter option) \<Rightarrow> bool" where
  "index_moves rn msg db P a b \<longleftrightarrow>
     (\<forall>k. b k = a k \<or> b k = Some (rm_diger msg) \<and> (\<exists>aid. P k aid \<and> authorizes rn msg aid (a k) db))"

definition indexes_move :: "reply_env \<Rightarrow> reply_msg \<Rightarrow> baser \<Rightarrow> baser \<Rightarrow> bool" where
  "indexes_move rn msg db db' \<longleftrightarrow>
     index_moves rn msg db (\<lambda>(cid, role, eid) aid. aid = cid) (db_eans db) (db_eans db')
     \<and> index_moves rn msg db (\<lambda>(eid, scheme) aid. aid = eid) (db_lans db) (db_lans db')
     \<and> index_moves rn msg db (\<lambda>(cid, watcher, oid) aid. aid = cid) (db_wwas db) (db_wwas db')"

lemma endorsed_route: "endorsed en (reply_acceptance msg r aid o') db = endorsed en (reply_acceptance msg [] aid o') db"
  by (simp add: endorsed_def cigar_endorses_def group_endorses_def outranks_def reply_acceptance_def)

lemma accepted_then:
  assumes "\<And>db1. same_indexes db db1 \<Longrightarrow> Q db1"
    and "\<And>db1 cs1. same_indexes db db1 \<Longrightarrow> endorsed en ac db \<Longrightarrow> ends Q m (db1, cs1)"
  shows "ends Q (ra_bind (acceptReply en ac) (\<lambda>d. when_accepted d m)) (db, cs)"
proof -
  obtain q db1 cs1 where a: "acceptReply en ac (db, cs) = (q, (db1, cs1))" by (metis prod.exhaust)
  have s: "same_indexes db db1" by (rule rkeepsD [OF indexes.keeps_acceptReply a])
  consider e where "q = Inl e" | "q = Inr ReplyUnverified" | "q = Inr ReplyAccept"
    by (metis reply_decision.exhaust sum.exhaust)
  then show ?thesis
  proof cases
    case 3
    have "ends Q m (db1, cs1)" by (rule assms(2) [OF s acceptReply_endorsed [OF a [unfolded 3]]])
    then show ?thesis using a 3
      by (auto simp: ends_def ra_bind_def when_accepted_def ra_ret_def split: prod.splits sum.splits)
  qed (use a s assms(1) in \<open>auto simp: ends_def ra_bind_def when_accepted_def ra_ret_def\<close>)
qed

lemma index_stays: "index_moves rn msg db P a a"
  by (simp add: index_moves_def)

lemma index_pinned:
  assumes "endorsed (rn_env rn) (reply_acceptance msg r aid (prior_reply (a k) (rm_diger msg))) db" and "P k aid"
  shows "index_moves rn msg db P a (map_pin k (rm_diger msg) a)"
  using assms endorsed_route [of "rn_env rn" msg r] by (auto simp: index_moves_def map_pin_def authorizes_def)

lemma indexes_stay: "same_indexes db db' \<Longrightarrow> indexes_move rn msg db db'"
  by (simp add: same_indexes_def indexes_move_def index_stays)

lemma end_role_moves: "ends (indexes_move rn msg db) (processReplyEndRole rn msg route params) (db, cs)"
  unfolding processReplyEndRole_def Let_def
  by (intro ends_intros accepted_then indexes_stay)
    (auto simp: same_indexes_def ends_def ra_mod_def indexes_move_def updateEnd_def Let_def
      intro!: index_stays index_pinned)

lemma loc_scheme_moves: "ends (indexes_move rn msg db) (processReplyLocScheme rn msg route params) (db, cs)"
  unfolding processReplyLocScheme_def Let_def
  by (intro ends_intros accepted_then indexes_stay)
    (auto simp: same_indexes_def ends_def ra_mod_def indexes_move_def updateLoc_def Let_def
      intro!: index_stays index_pinned)

lemma watched_moves: "ends (indexes_move rn msg db) (processReplyAddWatched rn msg route params) (db, cs)"
  unfolding processReplyAddWatched_def Let_def
  by (intro ends_intros accepted_then indexes_stay)
    (auto simp: same_indexes_def ends_def ra_mod_def indexes_move_def updateWatched_def queue_oobi_def Let_def
      intro!: index_stays index_pinned)

lemma ends_trusted:
  assumes "Q (fst st)" and "\<And>x. ends Q (f x) st"
  shows "ends Q (ra_bind (ksn_trusted rn ksn pre aid) f) st"
proof -
  have "snd (ksn_trusted rn ksn pre aid st) = st"
    by (simp add: ksn_trusted_def ra_bind_def ra_lift_def ra_get_def ra_ret_def split: sum.split)
  then obtain q where "ksn_trusted rn ksn pre aid st = (q, st)" by (metis prod.collapse)
  then show ?thesis using assms by (cases q) (simp_all add: ends_def ra_bind_def)
qed

lemma save_notice_moves:
  "same_indexes db db1 \<Longrightarrow> ends (indexes_move rn msg db) (save_notice aid ksn pre sn said dt) (db1, cs)"
  unfolding save_notice_def
  by (intro ends_intros indexes_stay)
    (auto simp: same_indexes_def ends_def ra_bind_def ra_mod_def ra_cue_def indexes_move_def updateKeyState_def
      intro!: index_stays)

lemma notice_moves: "ends (indexes_move rn msg db) (processReplyKeyStateNotice rn msg route params) (db, cs)"
  unfolding processReplyKeyStateNotice_def Let_def
  by (intro ends_intros ends_trusted accepted_then indexes_stay save_notice_moves)
    (auto simp: same_indexes_def)

lemma ends_dispatch:
  assumes "Q (fst st)"
    and "\<And>r h params. r \<in> set rtr \<Longrightarrow> rt_resource r (route_method r) = Some h \<Longrightarrow> ends Q (h msg route params) st"
  shows "ends Q (dispatch_routes rtr msg route) st"
  using assms(2)
proof (induction rtr)
  case (Cons r rs)
  have "ends Q (dispatch_routes rs msg route) st" by (rule Cons.IH) (rule Cons.prems, auto)
  then show ?case using assms(1) Cons.prems [of r]
    by (auto intro!: ends_pure split: option.split)
qed (simp add: ends_pure assms(1))

lemma node_moves: "ends (indexes_move rn msg db) (dispatch_routes (node_routes rn) msg route) (db, cs)"
  by (rule ends_dispatch)
    (auto simp: node_routes_def basic_handler_def kevery_handler_def indexes_stay same_indexes_def
      split: if_splits intro: end_role_moves loc_scheme_moves watched_moves notice_moves)

end
