(* ===== verification/ReceiptResults.thy ===== *)
theory ReceiptResults
  imports ReceiptProps
begin

text \<open>
  The properties of receipts and their samples: a nontransferable receiptor and a transferable
  one nobody has seen, each with a receipt of the accepted inception event of the sample identifier.
\<close>

section \<open>Samples\<close>

definition ex_wit :: matter where
  "ex_wit = \<lparr>mt_code = ''B'', mt_raw = replicate 32 0, mt_qb64 = CHR ''B'' # replicate 43 (CHR ''A''),
     mt_fullSize = 44, mt_fullSizeB2 = 33\<rparr>"

definition ex_sig :: matter where
  "ex_sig = \<lparr>mt_code = ''0B'', mt_raw = replicate 64 0, mt_qb64 = ''0B'' @ replicate 86 (CHR ''A''),
     mt_fullSize = 88, mt_fullSizeB2 = 66\<rparr>"

definition ex_cigar :: cigar where
  "ex_cigar = \<lparr>cg_sig = ex_sig, cg_verfer = Some ex_wit\<rparr>"

definition ex_rct :: serder where
  "ex_rct = \<lparr>sd_raw = [4], sd_ked = Some (JObj [(''t'', JStr ''rct''), (''d'', JStr ex_said),
      (''i'', JStr ex_pre), (''s'', JStr ''0'')]),
     sd_ilk = Some ''rct'', sd_said = Some ex_said, sd_pvrsn = Vrsn_1_0\<rparr>"

definition ex_receipt :: receipt_envelope where
  "ex_receipt = \<lparr>re_serder = ex_rct, re_wigers = [], re_cigars = [ex_cigar], re_tsgs = [],
     re_local = None\<rparr>"

definition ex_stranger :: matter where
  "ex_stranger = \<lparr>mt_code = ''D'', mt_raw = replicate 31 0 @ [4], mt_qb64 = CHR ''D'' # replicate 42 (CHR ''A'') @ ''E'',
     mt_fullSize = 44, mt_fullSizeB2 = 33\<rparr>"

definition ex_trans_receipt :: receipt_envelope where
  "ex_trans_receipt = \<lparr>re_serder = ex_rct, re_wigers = [], re_cigars = [],
     re_tsgs = [\<lparr>tg_prefixer = ex_stranger, tg_seqner = OrdNumber ex_huge, tg_diger = ex_diger,
       tg_sigers = [ex_siger]\<rparr>], re_local = None\<rparr>"

text \<open>The database after the inception event was accepted, with a time stamp; in \<open>ex_db\<close> a
  year before the sample surroundings.\<close>

definition ex_stamp :: matter where
  "ex_stamp = ex_dater\<lparr>mt_qb64 := ''1AAG2023-01-01T00c00c00d000000p00c00''\<rparr>"

definition ex_db_at :: "matter \<Rightarrow> baser" where
  "ex_db_at stamp = baser_empty\<lparr>db_evts := [(ex_pre, ex_said) \<mapsto> ex_icp],
     db_kels := (\<lambda>_. [])(ex_pre := [(0, [ex_said])]), db_fels := (\<lambda>_. [])(ex_pre := [ex_said]),
     db_dtss := [(ex_pre, ex_said) \<mapsto> stamp]\<rparr>"

abbreviation ex_db :: baser where
  "ex_db \<equiv> ex_db_at ex_stamp"

lemma ex_wit_encode: "encodeMatterFromRaw ''B'' (replicate 32 0) = Inr ex_wit"
  by code_simp

lemma ex_sig_encode: "encodeMatterFromRaw ''0B'' (replicate 64 0) = Inr ex_sig"
  by code_simp

lemma ex_receipt_codes: "''B'' \<in> set PREFIX_CODES" "''B'' \<in> set VERFER_CODES" "\<not> matter_transferable ex_wit"
  "mt_code ex_wit \<in> set VERIFY_SUITES" "''0B'' \<in> set CIGAR_CODES"
  by code_simp+

lemma ex_wit_of: "prefixer_of (mt_qb64 ex_wit) = Inr ex_wit" "verfer_of (mt_qb64 ex_wit) = Inr ex_wit"
  using matter_of_encoded [OF ex_wit_encode] ex_receipt_codes(1,2)
  by (simp_all add: prefixer_of_def verfer_of_def new_prefixer_def new_verfer_def check_code_def ensure_def)
    (simp_all add: ex_wit_def)

lemma ex_rct_getters [simp]:
  "serder_pre ex_rct = Some ex_pre" "sd_said ex_rct = Some ex_said" "serder_sn ex_rct = Inr (Some 0)"
  "sd_ilk ex_icp = Some ''icp''" "serder_backs ex_icp = []"
  by (simp_all add: ex_rct_def ex_icp_def serder_pre_def serder_backs_def text_field_def text_list_def
      sad_field_def jfield_def serder_sn_def serder_sner_def serder_snh_def makeNumberPrimitive_def)

lemma ex_text [simp]: "truthy (Some ex_pre)" "truthy (Some ex_said)" "ex_said \<noteq> []"
  by (simp_all add: truthy_Some ex_pre_def ex_said_def)

lemma ex_stranger_other: "mt_qb64 ex_stranger \<noteq> ex_pre"
  by code_simp

lemma ex_db_sel [simp]:
  "db_evts (ex_db_at stamp) (ex_pre, ex_said) = Some ex_icp" "kels_getLast (ex_db_at stamp) ex_pre 0 = Some ex_said"
  "db_wits (ex_db_at stamp) key = []" "db_rcts (ex_db_at stamp) = (\<lambda>_. [])" "db_vrcs (ex_db_at stamp) = (\<lambda>_. [])"
  "db_prefixes (ex_db_at stamp) = []"
  "kels_getLast (ex_db_at stamp) (mt_qb64 ex_stranger) n = None" "db_dtss (ex_db_at stamp) (ex_pre, ex_said) = Some stamp"
  using ex_stranger_other by (simp_all add: ex_db_at_def baser_empty_def kels_getLast_def on_last_def)

lemma ex_event:
  "decideReceiptEvent en ex_pre 0 ex_said (ex_db_at stamp) = Inr (ReAccept
     \<lparr>rc_pre = ex_pre, rc_said = ex_said, rc_serder = ex_icp, rc_wits = []\<rparr>, ex_db_at stamp)"
  by (simp add: decideReceiptEvent_def decide_target_def resolveAcceptedEventWitnesses_def act_bind_def
      act_get_def act_ret_def getEvtSerder_def)

lemma ex_received:
  "processReceipt ex_env lax loc ex_receipt (ex_db_at stamp)
     = Inr ([], rcts_add (ex_pre, ex_said) (mt_qb64 ex_wit, mt_qb64 ex_sig) (ex_db_at stamp))"
  using ex_receipt_codes ex_wit_of(1)
  by (simp add: processReceipt_def ex_receipt_def Let_def text_or_def ex_event act_bind_def act_lift_def
      act_get_def act_ret_def act_mod_def storeVerifiedDetachedReceiptMaterial_def store_cigar_def
      ex_cigar_def ownReceiptConflict_def verfer_verify_def promote_cigar_def)
    (simp add: ex_env_def promote_cigar_def act_bind_def act_lift_def act_mod_def ex_wit_of)

section \<open>Replay\<close>

lemma find_unver_absent: "said \<notin> set cands \<Longrightarrow> find_unver en pre said mat cands db = Inr (PrContinue, db)"
  by (induction cands) (auto simp: act_ret_def)

lemma store_cigar_lax:
  assumes "store_cigar en True loc ev \<lparr>cg_sig = sig, cg_verfer = Some v\<rparr> db = Inr (u, db')"
    and "\<not> matter_transferable v"
  obtains ok where "verfer_verify en v (mt_raw sig) (sd_raw (rc_serder ev)) = Inr ok"
    "if ok then promote_cigar (rc_pre ev, rc_said ev) (rc_wits ev) v \<lparr>cg_sig = sig, cg_verfer = Some v\<rparr> db
        = Inr ((), db') else db' = db"
  using assms by (auto simp: store_cigar_def act_simps ownReceiptConflict_def split: if_splits)

section \<open>Properties\<close>





text \<open>C29: Receipts that are refused. A receipt without identifier, ordinal or digest changes
  nothing and reports an invalid message; a receipt of another event than the last accepted one
  at its ordinal changes nothing; a receipt of an accepted event of which the body is missing
  changes nothing.\<close>

theorem receipt_refused:
  assumes "serder_sn (re_serder envl) = Inr sn"
  shows "(sn = None \<or> \<not> truthy (serder_pre (re_serder envl)) \<or> \<not> truthy (sd_said (re_serder envl)) \<longrightarrow>
      processReceipt en lax loc envl db = Inr ([CueInvalid (re_serder envl)], db))
    \<and> (\<forall>n pre said other. sn = Some n \<and> serder_pre (re_serder envl) = Some pre \<and> pre \<noteq> []
        \<and> sd_said (re_serder envl) = Some said \<and> said \<noteq> [] \<and> kels_getLast db pre (int n) = Some other
        \<and> other \<noteq> [] \<and> (other \<noteq> said \<or> db_evts db (pre, said) = None) \<longrightarrow>
      processReceipt en lax loc envl db = Inr ([], db))"
  using assms
  by (auto simp: processReceipt_def Let_def act_bind_def act_lift_def act_ret_def act_get_def truthy_Some
      text_or_def decideReceiptEvent_def decide_target_def getEvtSerder_def split: option.split)

theorem receipt_refused_witness:
  "processReceipt ex_env True False ex_receipt (ex_db\<lparr>db_kels := (\<lambda>_. [])(ex_pre := [(0, [ex_said2])])\<rparr>)
     = Inr ([], ex_db\<lparr>db_kels := (\<lambda>_. [])(ex_pre := [(0, [ex_said2])])\<rparr>)
   \<and> processReceipt ex_env True False (ex_receipt\<lparr>re_serder := ex_rct\<lparr>sd_said := None\<rparr>\<rparr>) ex_db
     = Inr ([CueInvalid (ex_rct\<lparr>sd_said := None\<rparr>)], ex_db)"
proof
  let ?db = "ex_db\<lparr>db_kels := (\<lambda>_. [])(ex_pre := [(0, [ex_said2])])\<rparr>"
  have "kels_getLast ?db ex_pre (int 0) = Some ex_said2" "ex_said2 \<noteq> []" "ex_said2 \<noteq> ex_said"
    by (simp_all add: kels_getLast_def on_last_def ex_said2_def ex_said_def)
  moreover have "serder_sn (re_serder ex_receipt) = Inr (Some 0)" "serder_pre (re_serder ex_receipt) = Some ex_pre"
    "sd_said (re_serder ex_receipt) = Some ex_said"
    by (simp_all add: ex_receipt_def)
  ultimately show "processReceipt ex_env True False ex_receipt ?db = Inr ([], ?db)"
    using receipt_refused [of ex_receipt "Some 0" ex_env True False ?db] by auto
  let ?r = "ex_receipt\<lparr>re_serder := ex_rct\<lparr>sd_said := None\<rparr>\<rparr>"
  have "serder_sn (re_serder ?r) = Inr (Some 0)"
    using ex_rct_getters(3)
    by (simp add: serder_sn_def serder_sner_def serder_snh_def text_field_def sad_field_def)
  then show "processReceipt ex_env True False ?r ex_db = Inr ([CueInvalid (ex_rct\<lparr>sd_said := None\<rparr>)], ex_db)"
    using receipt_refused [of ?r "Some 0" ex_env True False ex_db] by (simp add: truthy_def)
qed


lemma ex_lookup:
  "resolveAcceptedEventWitnesses en ex_pre ex_said ex_icp (ex_db_at stamp) = Inr (Some [], ex_db_at stamp)"
  by (simp add: resolveAcceptedEventWitnesses_def act_bind_def act_get_def act_ret_def)


section \<open>What receipts change that they should not\<close>

text \<open>A transferable receipt whose receiptor is unknown is escrowed, and the escrow writes its time
  over the first-seen time of the accepted event.\<close>

lemma receipt_restamps_accepted:
  "\<exists>db'. processReceipt ex_env True False ex_trans_receipt ex_db = Inr ([], db')
     \<and> db_dtss db' (ex_pre, ex_said) = Some ex_dater \<and> db_dtss ex_db (ex_pre, ex_said) = Some ex_stamp
     \<and> mt_qb64 ex_dater \<noteq> mt_qb64 ex_stamp"
proof -
  let ?ev = "\<lparr>rc_pre = ex_pre, rc_said = ex_said, rc_serder = ex_icp, rc_wits = []\<rparr>"
  let ?tsg = "hd (re_tsgs ex_trans_receipt)"
  have g: "processVerifiedTransferableReceiptGroup ex_env True ?ev ?tsg False ex_db
      = Inr (RdEscrow EscrowMissingReceiptorEstablishment, ex_db)"
    by (simp add: processVerifiedTransferableReceiptGroup_def ex_trans_receipt_def
        processVerifiedTransferableReceiptQuadruple_def act_bind_def act_get_def act_ret_def
        ownReceiptConflict_def truthy_def)
  have d: "diger_of ex_said \<noteq> Inl e" for e by (cases "diger_of ex_said") (code_simp, simp)
  then obtain m where m: "diger_of ex_said = Inr m" by (cases "diger_of ex_said") auto
  have k: "escrow_key ex_rct = Inr (Some (ex_pre, 0))" by (simp add: escrow_key_def text_or_def)
  obtain db' where e: "escrowTReceipts ex_env ex_rct (tg_prefixer ?tsg) (tg_seqner ?tsg) (tg_diger ?tsg)
      (tg_sigers ?tsg) ex_db = Inr ((), db')" "db_dtss db' (ex_pre, ex_said) = Some ex_dater"
    by (simp add: escrowTReceipts_def escrow_trans_def k act_bind_def act_lift_def act_mod_def text_or_def
        pin_escrow_time_def ex_trans_receipt_def escrow_vre_def m normalizeSealOrdinal_def act_ret_def
        vres_add_def map_pin_def)
  have "processReceipt ex_env True False ex_trans_receipt ex_db = Inr ([], db')"
    using g e(1) by (simp add: processReceipt_def Let_def ex_trans_receipt_def text_or_def ex_event
        act_bind_def act_lift_def act_ret_def storeVerifiedDetachedReceiptMaterial_def)
  then show ?thesis using e(2) by (simp add: ex_stamp_def ex_dater_def)
qed

text \<open>An own receipt of an own event, refused when it arrives, is stored when it comes back from
  the escrow.\<close>

lemma own_receipt_by_escrow:
  fixes db :: baser
  defines "db \<equiv> (ex_db_at ex_dater)\<lparr>db_prefixes := [ex_pre, mt_qb64 ex_wit]\<rparr>"
  shows "processReceipt ex_env False False ex_receipt db = Inr ([], db)"
    and "\<exists>db'. ure_row ex_env (ex_pre, 0, ex_diger\<lparr>mt_qb64 := ex_said\<rparr>, ex_wit, ex_cigar) db = Inr ((), db')
      \<and> db_rcts db' (ex_pre, ex_said) = [(mt_qb64 ex_wit, mt_qb64 ex_sig)]"
proof -
  let ?ev = "\<lparr>rc_pre = ex_pre, rc_said = ex_said, rc_serder = ex_icp, rc_wits = []\<rparr>"
  have sel: "kels_getLast db ex_pre 0 = Some ex_said" "db_evts db (ex_pre, ex_said) = Some ex_icp"
    "db_wits db key = []" "db_prefixes db = [ex_pre, mt_qb64 ex_wit]" "db_pwes db ex_pre = []"
    "db_dtss db (ex_pre, ex_said) = Some ex_dater" "db_rcts db = (\<lambda>_. [])" for key
    using ex_db_sel(2) [of ex_dater] by (simp_all add: db_def kels_getLast_def ex_db_at_def baser_empty_def)
  have w: "resolveAcceptedEventWitnesses ex_env ex_pre ex_said ex_icp db = Inr (Some [], db)"
    by (simp add: resolveAcceptedEventWitnesses_def act_bind_def act_get_def act_ret_def sel)
  have "decideReceiptEvent ex_env ex_pre 0 ex_said db = Inr (ReAccept ?ev, db)"
    by (simp add: decideReceiptEvent_def decide_target_def act_bind_def act_get_def act_ret_def
        getEvtSerder_def sel w)
  then show "processReceipt ex_env False False ex_receipt db = Inr ([], db)"
    using ex_receipt_codes(3)
    by (simp add: processReceipt_def ex_receipt_def Let_def text_or_def act_bind_def act_lift_def
        act_get_def act_ret_def storeVerifiedDetachedReceiptMaterial_def store_cigar_def ex_cigar_def
        ownReceiptConflict_def sel)
  have l: "lookupAcceptedReceiptedEvent ex_env ex_pre 0 ex_said db = Inr (AlAccept ?ev, db)"
    by (simp add: lookupAcceptedReceiptedEvent_def act_bind_def act_get_def act_ret_def getEvtSerder_def sel w)
  have v: "accept_detached ex_env ?ev ex_wit ex_cigar db
      = Inr (EdAccept, rcts_add (ex_pre, ex_said) (mt_qb64 ex_wit, mt_qb64 ex_sig) db)"
    using ex_receipt_codes(4) ex_wit_of(1)
    by (simp add: accept_detached_def act_bind_def act_lift_def act_ret_def act_mod_def verfer_verify_def
        ex_cigar_def)
      (simp add: ex_env_def promote_cigar_def act_bind_def act_lift_def act_ret_def act_mod_def)
  have x: "escrowReplayExpiry ex_env ex_pre ex_said TimeoutURE db = Inr (None, db)"
    by (simp add: escrowReplayExpiry_def act_bind_def act_get_def act_lift_def act_ret_def sel older_than_def
        TimeoutURE_def split: option.split)
  have "reprocessEscrowedNonTransReceipt ex_env ex_pre 0 (ex_diger\<lparr>mt_qb64 := ex_said\<rparr>) ex_cigar db
      = Inr (EdAccept, rcts_add (ex_pre, ex_said) (mt_qb64 ex_wit, mt_qb64 ex_sig) db)"
    using v by (simp add: reprocessEscrowedNonTransReceipt_def x act_bind_def act_ret_def act_get_def
        ex_cigar_def processEscrowFindUnver_def sel l)
  moreover have "new_cigar ex_sig (Some ex_wit) = Inr ex_cigar"
    using ex_receipt_codes(5) by (simp add: new_cigar_def check_code_def ensure_def ex_sig_def ex_cigar_def)
  ultimately show "\<exists>db'. ure_row ex_env (ex_pre, 0, ex_diger\<lparr>mt_qb64 := ex_said\<rparr>, ex_wit, ex_cigar) db
        = Inr ((), db') \<and> db_rcts db' (ex_pre, ex_said) = [(mt_qb64 ex_wit, mt_qb64 ex_sig)]"
    using ex_wit_of(2)
    by (simp add: ure_row_def act_bind_def act_lift_def ex_cigar_def settle_row_def act_mod_def
        ures_rem_def rcts_add_def io_add_def sel)
qed

end
