(* ===== verification/QueryProps.thy ===== *)
theory QueryProps
  imports QueryFrame ReceiptResults
begin

text \<open>
  Properties of queries and of whole runs of the processor: where queries write, that the history
  grows over events, receipts, queries and sweeps, that a query that had to wait is answered as
  if it had come later, and what a gate of too many digits does to the sweep.
\<close>

section \<open>Samples\<close>

text \<open>A query for the key state of an identifier nobody has seen, signed by a nontransferable
  requester.\<close>

definition ex_qry :: serder where
  "ex_qry = \<lparr>sd_raw = [5], sd_ked = Some (JObj [(''t'', JStr ''qry''), (''d'', JStr ex_said2),
      (''r'', JStr ''ksn''), (''q'', JObj [(''i'', JStr ex_pre), (''src'', JStr ex_pre)])]),
     sd_ilk = Some ''qry'', sd_said = Some ex_said2, sd_pvrsn = Vrsn_1_0\<rparr>"

definition ex_query :: query_envelope where
  "ex_query = \<lparr>qe_serder = ex_qry, qe_source = None, qe_sigers = [], qe_cigars = [ex_cigar]\<rparr>"

definition ex_asked :: "baser \<Rightarrow> baser" where
  "ex_asked = query_material (mt_qb64 ex_wit, ex_said2) ex_qry ex_dater [] [(mt_qb64 ex_wit, mt_qb64 ex_sig)]"

lemma ex_said2_text [simp]: "truthy (Some ex_said2)" "ex_said2 \<noteq> []"
  by (simp_all add: truthy_Some ex_said2_def)

lemma ex_wit_text [simp]: "truthy (Some (mt_qb64 ex_wit))"
  by (simp add: truthy_Some ex_wit_def)

lemma ex_query_key: "query_key ex_query = (mt_qb64 ex_wit, ex_said2)"
  by (simp add: query_key_def ex_query_def queryRequester_def ex_cigar_def text_or_def ex_qry_def)

lemma ex_escrowed: "escrowQueryNotFoundEvent ex_env ex_query db = Inr ((), ex_asked db)"
  by (simp add: escrowQueryNotFoundEvent_def Let_def ex_query_def queryRequester_def ex_cigar_def ex_qry_def
      act_bind_def act_lift_def act_mod_def text_or_def query_couple_def ex_wit_of ex_asked_def)

lemma ex_queried:
  assumes "getState db ex_pre = None" and "db_kevers db ex_pre = None"
  shows "processQuery fuel ex_env ex_query db = Inr ([], ex_asked db)"
proof -
  have "decideQuery fuel ex_env ex_query db = Inr (QdEscrow QueryMissingKever, db)"
    using assms by (simp add: decideQuery_def Let_def ex_query_def serder_route_def text_field_def sad_field_def
        ex_qry_def jfield_def value_text_def truthy_Some queryRequester_def ex_cigar_def ex_wit_def text_or_def
        decide_ksn_def act_bind_def getKever_refresh_def act_ret_def ex_pre_def)
  then show ?thesis using ex_escrowed [of db]
    by (simp add: processQuery_def act_bind_def applyLiveQueryDecision_def act_ret_def)
qed

section \<open>Where queries write\<close>

text \<open>A turn on queries: one that arrives, or the pass over those that wait.\<close>

inductive query_step :: "dg set \<Rightarrow> baser \<Rightarrow> baser \<Rightarrow> bool" for K where
  step_query: "query_key qe \<in> K \<Longrightarrow> processQuery fuel en qe db = Inr (cues, db') \<Longrightarrow> query_step K db db'"
| step_unasked: "asked keys \<subseteq> K \<Longrightarrow> processQueryNotFound fuel en keys db = Inr (cues, db')
    \<Longrightarrow> query_step K db db'"

lemma query_stepped: "query_step K db db' \<Longrightarrow> query_area K db db'"
  by (erule query_step.cases) (auto dest: keepsD [OF asks.keeps_query] keepsD [OF asks.keeps_unasked])

text \<open>Queries stay with their own material. A query, when it arrives and when it is replayed,
  leaves every store as it was except the cache of live machines, the source seals of delegated
  events, the index of waiting queries, and the body, time, signatures and couples under the keys of
  the queries themselves; everything under another key is as before.\<close>

lemma query_confined:
  assumes "query_step K db db'" and "key \<notin> K"
  shows "db'\<lparr>db_kevers := db_kevers db, db_aess := db_aess db, db_evts := db_evts db, db_dtss := db_dtss db,
      db_sigs := db_sigs db, db_rcts := db_rcts db, db_qnfs := db_qnfs db\<rparr> = db
    \<and> db_evts db' key = db_evts db key \<and> db_dtss db' key = db_dtss db key
    \<and> db_sigs db' key = db_sigs db key \<and> db_rcts db' key = db_rcts db key
    \<and> db_qnfs db' [fst key, snd key] = db_qnfs db [fst key, snd key]"
proof -
  have a: "query_area K db db'" by (rule query_stepped [OF assms(1)])
  let ?reset = "\<lambda>x. x\<lparr>db_kevers := db_kevers db, db_aess := db_aess db, db_evts := db_evts db,
      db_dtss := db_dtss db, db_sigs := db_sigs db, db_rcts := db_rcts db, db_qnfs := db_qnfs db\<rparr>"
  have "?reset (without_queries db') = ?reset (without_queries db)" using a by (simp add: query_area_def)
  then show ?thesis using a assms(2)
    by (cases key) (simp add: query_area_def without_queries_def same_but_def)
qed

section \<open>The history over whole runs\<close>

text \<open>The history only grows. Over every run of the processor, on events, receipts, queries,
  passes and sweeps, the first-seen logs only get appended to, no digest leaves a key event log, no
  identifier loses its state, no event a witness signature or quadruple; and at every key that is
  not a query's, no body is lost or replaced and no signature or couple is removed.\<close>

lemma node_history_grows:
  assumes "node_run fuel lax loc K db db'"
  shows "prefix (db_fels db pre) (db_fels db' pre)
    \<and> set (on_get n (db_kels db pre)) \<subseteq> set (on_get n (db_kels db' pre))
    \<and> dom (db_fons db) \<subseteq> dom (db_fons db') \<and> dom (db_states db) \<subseteq> dom (db_states db')
    \<and> set (db_wigs db key) \<subseteq> set (db_wigs db' key) \<and> set (db_vrcs db key) \<subseteq> set (db_vrcs db' key)
    \<and> (key \<notin> K \<longrightarrow> (\<forall>s. db_evts db key = Some s \<longrightarrow> db_evts db' key = Some s)
         \<and> set (db_sigs db key) \<subseteq> set (db_sigs db' key) \<and> set (db_rcts db key) \<subseteq> set (db_rcts db' key))"
  using nodes.node_ran [OF assms] unfolding grows_but_def by (cases key) blast

section \<open>Queries that wait\<close>

text \<open>A query whose endorsements are read back as they were stored.\<close>

definition cigar_kept :: "cigar \<Rightarrow> bool" where
  "cigar_kept c \<longleftrightarrow> (\<exists>v. cg_verfer c = Some v \<and> prefixer_of (mt_qb64 v) = Inr v \<and> verfer_of (mt_qb64 v) = Inr v
     \<and> matter_of_qb64 (mt_qb64 (cg_sig c)) = Inr (cg_sig c) \<and> mt_code (cg_sig c) \<in> set CIGAR_CODES)"

definition couple_text :: "cigar \<Rightarrow> couple_row" where
  "couple_text c = (mt_qb64 (the (cg_verfer c)), mt_qb64 (cg_sig c))"

definition query_kept :: "query_envelope \<Rightarrow> bool" where
  "query_kept qe \<longleftrightarrow>
     list_all (\<lambda>x. siger_of (ix_qb64 x) = Inr x) (qe_sigers qe) \<and> distinct (map ix_qb64 (qe_sigers qe))
     \<and> list_all cigar_kept (qe_cigars qe)
     \<and> distinct (map couple_text (qe_cigars qe))
     \<and> (case qe_source qe of
          None \<Rightarrow> qe_sigers qe = [] \<and> qe_cigars qe \<noteq> []
        | Some p \<Rightarrow> qe_sigers qe \<noteq> [] \<and> prefixer_of (mt_qb64 p) = Inr p)"

lemma io_put_fresh: "distinct (vs @ ms) \<Longrightarrow> io_put ms vs = vs @ ms"
proof (induction ms arbitrary: vs)
  case (Cons m ms)
  then have "io_put ms (vs @ [m]) = (vs @ [m]) @ ms" by simp
  then show ?case using Cons.prems by (simp add: io_put_def io_add_def)
qed (simp add: io_put_def)

lemma io_pin_fresh: "m key = [] \<Longrightarrow> distinct vs \<Longrightarrow> io_pin key vs m key = vs"
  using io_put_fresh [of "[]" vs] by (simp add: io_pin_def)

lemma cigar_couple:
  assumes "cigar_kept c"
  shows "query_couple c = Inr [couple_text c]"
    and "couple_of (couple_text c) = Inr (the (cg_verfer c), \<lparr>cg_sig = cg_sig c, cg_verfer = None\<rparr>)"
    and "rehydrate_cigar (the (cg_verfer c), \<lparr>cg_sig = cg_sig c, cg_verfer = None\<rparr>) = Inr c"
  using assms by (auto simp: cigar_kept_def query_couple_def couple_text_def couple_of_def cigar_of_def
      new_cigar_def check_code_def ensure_def rehydrate_cigar_def)

lemma cigars_stored:
  assumes "list_all cigar_kept cs"
  shows "map_res query_couple cs = Inr (map (\<lambda>c. [couple_text c]) cs)"
    and "map_res couple_of (map couple_text cs)
      = Inr (map (\<lambda>c. (the (cg_verfer c), \<lparr>cg_sig = cg_sig c, cg_verfer = None\<rparr>)) cs)"
    and "map_res rehydrate_cigar (map (\<lambda>c. (the (cg_verfer c), \<lparr>cg_sig = cg_sig c, cg_verfer = None\<rparr>)) cs) = Inr cs"
  using assms by (induction cs) (simp_all add: cigar_couple)

lemma sigers_stored: "list_all (\<lambda>x. siger_of (ix_qb64 x) = Inr x) xs \<Longrightarrow> map_res siger_of (map ix_qb64 xs) = Inr xs"
  by (induction xs) simp_all

lemma replay_stored:
  assumes "escrowReplayExpiry en r said TimeoutQNF db = Inr (None, db)" and "db_evts db (r, said) = Some s"
    and "sd_ilk s = Some ''qry''" and "map_res siger_of (db_sigs db (r, said)) = Inr sigers"
    and "map_res couple_of (db_rcts db (r, said)) = Inr couples" and "map_res rehydrate_cigar couples = Inr cigars"
    and "source = None \<and> sigers = [] \<and> cigars \<noteq> [] \<or> (\<exists>p. source = Some p \<and> sigers \<noteq> [] \<and> prefixer_of r = Inr p)"
  shows "reprocessEscrowedQuery fuel en r said db = replay_query fuel en
    \<lparr>qe_serder = s, qe_source = source, qe_sigers = sigers, qe_cigars = cigars\<rparr> db"
  using assms by (auto simp: reprocessEscrowedQuery_def act_bind_def act_get_def act_read_def act_lift_def)

text \<open>C32: A query that had to wait. The escrow of a query, later and within its time limit, is
  replayed as the query itself would be decided then: answered with the same cues, kept while it
  would still have to wait, dropped when it would be dropped, whatever else the database holds by
  then, as long as the stored material of the query is untouched.\<close>

theorem query_replay_direct:
  assumes "escrowQueryNotFoundEvent en qe db = Inr (u, db1)" and "query_key qe = (r, said)"
    and "sd_ilk (qe_serder qe) = Some ''qry''" and "query_kept qe"
    and "db_sigs db (r, said) = []" and "db_rcts db (r, said) = []"
    and "db_evts db2 (r, said) = db_evts db1 (r, said)" and "db_dtss db2 (r, said) = db_dtss db1 (r, said)"
    and "db_sigs db2 (r, said) = db_sigs db1 (r, said)" and "db_rcts db2 (r, said) = db_rcts db1 (r, said)"
    and "dater_of (encodeDateTimeToDater (en_now en)) = Inr d" and "dater_iso8601 d = Inr dt"
    and "\<not> older_than TimeoutQNF (en_now en') dt"
  shows "reprocessEscrowedQuery fuel en' r said db2 = replay_query fuel en' qe db2"
proof -
  note kept = assms(4) [unfolded query_kept_def]
  have cigars: "list_all cigar_kept (qe_cigars qe)" using kept by blast
  have key: "text_or [] (queryRequester qe) = r" "text_or [] (sd_said (qe_serder qe)) = said"
    using assms(2) by (simp_all add: query_key_def)
  have cc: "concat (map (\<lambda>c. [couple_text c]) (qe_cigars qe)) = map couple_text (qe_cigars qe)"
    by (rule concat_map_singleton)
  have db1: "db1 = query_material (r, said) (qe_serder qe) d (map ix_qb64 (qe_sigers qe))
      (map couple_text (qe_cigars qe)) db"
    using assms(1,11) cigars_stored(1) [OF cigars] key cc
    by (auto simp: escrowQueryNotFoundEvent_def Let_def act_simps split: if_splits)
  have m: "db_evts db2 (r, said) = Some (qe_serder qe)" "db_dtss db2 (r, said) = Some d"
    "db_sigs db2 (r, said) = map ix_qb64 (qe_sigers qe)" "db_rcts db2 (r, said) = map couple_text (qe_cigars qe)"
    using assms(5-10) kept
    by (simp_all add: db1 query_material_def map_pin_def io_pin_fresh)
  have e: "escrowReplayExpiry en' r said TimeoutQNF db2 = Inr (None, db2)"
    using assms(12,13) m(2) by (simp add: escrowReplayExpiry_def act_bind_def act_get_def act_lift_def act_ret_def)
  have s: "map_res siger_of (map ix_qb64 (qe_sigers qe)) = Inr (qe_sigers qe)"
    using kept sigers_stored by blast
  have "(qe_source qe = None \<and> qe_sigers qe = [] \<and> qe_cigars qe \<noteq> [])
      \<or> (\<exists>p. qe_source qe = Some p \<and> qe_sigers qe \<noteq> [] \<and> prefixer_of r = Inr p)"
    using kept key(1) by (auto simp: queryRequester_def text_or_def split: option.splits)
  moreover have eq: "\<lparr>qe_serder = qe_serder qe, qe_source = qe_source qe, qe_sigers = qe_sigers qe,
      qe_cigars = qe_cigars qe\<rparr> = qe" by (cases qe) simp
  ultimately have "reprocessEscrowedQuery fuel en' r said db2 = replay_query fuel en'
      \<lparr>qe_serder = qe_serder qe, qe_source = qe_source qe, qe_sigers = qe_sigers qe, qe_cigars = qe_cigars qe\<rparr> db2"
    using replay_stored [OF e m(1) assms(3) _ _ cigars_stored(3) [OF cigars], where source = "qe_source qe" and fuel = fuel]
      s cigars_stored(2) [OF cigars] m(3,4) by simp
  then show ?thesis unfolding eq .
qed

theorem query_replay_direct_witness:
  "reprocessEscrowedQuery 0 ex_env (mt_qb64 ex_wit) ex_said2 (ex_asked ex_db)
     = Inr ((EdKeep KeepQueryNotFound, []), ex_asked ex_db)"
proof -
  have c: "mt_code (cg_sig ex_cigar) \<in> set CIGAR_CODES" "matter_of_qb64 (mt_qb64 ex_sig) = Inr ex_sig"
    using ex_receipt_codes(5) matter_of_encoded [OF ex_sig_encode] by (simp_all add: ex_cigar_def ex_sig_def)
  then have k: "query_kept ex_query" "sd_ilk (qe_serder ex_query) = Some ''qry''"
    using ex_wit_of by (simp_all add: query_kept_def ex_query_def cigar_kept_def ex_cigar_def ex_qry_def)
  have t: "\<not> older_than TimeoutQNF (en_now ex_env) (en_now ex_env)"
    by (simp add: older_than_def TimeoutQNF_def split: option.split)
  have e: "db_sigs ex_db (mt_qb64 ex_wit, ex_said2) = []" "db_rcts ex_db (mt_qb64 ex_wit, ex_said2) = []"
    by (simp_all add: ex_db_at_def baser_empty_def)
  have "decideQuery 0 ex_env ex_query (ex_asked ex_db) = Inr (QdEscrow QueryMissingKever, ex_asked ex_db)"
    by (simp add: decideQuery_def Let_def ex_query_def serder_route_def text_field_def sad_field_def
        ex_qry_def jfield_def value_text_def truthy_Some queryRequester_def ex_cigar_def ex_wit_def text_or_def
        decide_ksn_def act_bind_def getKever_refresh_def act_ret_def ex_pre_def ex_asked_def query_material_def
        getState_def ex_db_at_def baser_empty_def)
  then have "replay_query 0 ex_env ex_query (ex_asked ex_db) = Inr ((EdKeep KeepQueryNotFound, []), ex_asked ex_db)"
    by (simp add: replay_query_def act_bind_def act_ret_def)
  with query_replay_direct [OF ex_escrowed ex_query_key k(2,1) e HOL.refl HOL.refl HOL.refl HOL.refl _ ex_iso t, of 0]
  show ?thesis by simp
qed

section \<open>A gate of too many digits\<close>

text \<open>A query for logs whose sequence gate is a text of 257 hexadecimal digits passes the check
  of the gate, which reads it as an infinite number; converting that number throws. The escrow of
  such a query, made while its identifier was unknown, ends every pass over the waiting queries
  once the identifier is known, and with it the sweep.\<close>

lemma js_num_large:
  assumes "2 ^ 1024 \<le> n"
  shows "2 ^ 1024 \<le> js_num n"
proof -
  define L where "L = length (digits 2 n)"
  define e where "e = L - 53"
  have l: "1024 < L" using digits_length_gt [of 2 1024 n] assms by (simp add: L_def)
  then have e: "L - 1 = 52 + e" "1024 \<le> L - 1" by (simp_all add: e_def)
  have "\<not> n < 2 ^ (L - 1)" using digits_length_le [of 2 n "L - 1"] l by (auto simp: L_def)
  then have "2 ^ 52 * 2 ^ e \<le> n" by (simp only: e(1) power_add not_less)
  then have q: "2 ^ 52 \<le> n div 2 ^ e" by (simp add: div_le_mono less_eq_div_iff_mult_less_eq)
  have "(2 :: nat) ^ 1024 \<le> 2 ^ (L - 1)" by (rule power_increasing [OF e(2)]) simp
  also have "\<dots> \<le> n div 2 ^ e * 2 ^ e" unfolding e(1) power_add using q by (rule mult_le_mono1)
  also have "\<dots> \<le> js_num n"
  proof -
    have "\<not> n < 2 ^ 53" using assms power_increasing [of 53 1024 "2 :: nat"] by linarith
    then have "js_num n = (let q = n div 2 ^ e; r = n mod 2 ^ e; h = 2 ^ (e - 1)
        in (if h < r \<or> (r = h \<and> odd q) then q + 1 else q) * 2 ^ e)"
      by (simp add: js_num_def e_def L_def Let_def)
    then show ?thesis by (simp add: Let_def)
  qed
  finally show ?thesis .
qed

lemma long_gate: "\<exists>n. parseQueryOrdinal (JStr (replicate 257 (CHR ''f''))) = Some n \<and> js_bigint n = Inl JsError"
proof -
  let ?n = "of_digits 16 (replicate 257 15)"
  have f: "digit_val (CHR ''f'') = Some 15" by code_simp
  have "read_radix 16 (replicate 257 (CHR ''f'')) = Some ?n"
    by (simp only: read_radix_def Let_def map_replicate f option.sel) (simp add: set_replicate_conv_if)
  moreover have "(2 :: nat) ^ 1024 \<le> ?n"
  proof -
    have "replicate 257 15 = [15] @ replicate 256 (15 :: nat)" by (simp add: replicate_Suc [symmetric] del: replicate_Suc)
    then have "?n = of_digits 16 [15] * 16 ^ length (replicate 256 (15 :: nat)) + of_digits 16 (replicate 256 15)"
      by (simp only: of_digits_append)
    moreover have "of_digits 16 [15] = 15" by (simp add: of_digits_def)
    moreover have "(16 :: nat) ^ 256 = 2 ^ 1024" using power_mult [of "2 :: nat" 4 256] by simp
    ultimately show ?thesis by simp
  qed
  ultimately show ?thesis using js_num_large by (simp add: parseQueryOrdinal_def js_bigint_def not_less)
qed

lemma query_gate_overflow:
  assumes "getKever_refresh en pre db = Inr (Some k, db1)" and "jfield q ''fn'' = None" and "jfield q ''a'' = None"
    and "jfield q ''s'' = Some (JStr (replicate 257 (CHR ''f'')))"
  shows "decide_logs fuel en q pre src dest db = Inl JsError"
  using long_gate assms by (auto simp: decide_logs_def act_bind_def logs_gate_def act_lift_def)

lemma waiting_query_stops_pass:
  assumes "reprocessEscrowedQuery fuel en r q db = Inl e" and "db_qnfs db [r, q] = v # vs" and "r \<noteq> []" and "q \<noteq> []"
  shows "processQueryNotFound fuel en ([r, q] # keys) db = Inl e"
  using assms
  by (cases r; cases q) (simp_all add: processQueryNotFound_def act_bind_def act_get_def qnf_rows_def qnf_row_def)

end
