(* ===== verification/ReplyResults.thy ===== *)
theory ReplyResults
  imports ReplyProps QueryProps
begin

text \<open>
  Properties of replies and of whole runs of a node: an index moves only to an endorsed reply, a
  reply that had to wait is replayed as it came, replies keep to their stores and the history grows over
  runs with replies. The last section shows two ways in which newer data is lost.
\<close>

section \<open>Samples\<close>

text \<open>A nontransferable identifier names itself as its controller endpoint.\<close>

definition ex_rpy :: serder where
  "ex_rpy = \<lparr>sd_raw = [6], sd_ked = Some (JObj [(''t'', JStr ''rpy''), (''d'', JStr ex_dig),
      (''dt'', JStr (en_now ex_env)), (''r'', JStr ''/end/role/add''),
      (''a'', JObj [(''cid'', JStr (mt_qb64 ex_wit)), (''role'', JStr ''controller''), (''eid'', JStr (mt_qb64 ex_wit))])]),
     sd_ilk = Some ''rpy'', sd_said = Some ex_dig, sd_pvrsn = Vrsn_1_0\<rparr>"

definition ex_rn :: reply_env where
  "ex_rn = \<lparr>rn_env = ex_env, rn_verify = (\<lambda>s. Inr True), rn_url = (\<lambda>u. None), rn_lax = True, rn_habs = []\<rparr>"

definition ex_ends :: triple_row where
  "ex_ends = (mt_qb64 ex_wit, ''controller'', mt_qb64 ex_wit)"

definition ex_replied :: "baser \<Rightarrow> baser" where
  "ex_replied db = updateEnd ex_ends ex_diger True (updateReply_cigar ex_rpy ex_diger ex_dater ex_wit ex_cigar db)"

lemma ex_end_role: "role_allowed ''/end/role/add'' = Some True" "isRole ''controller''"
  by code_simp+

lemma ex_role_segments: "js_split (CHR ''/'') ''/end/role/add'' = [[], ''end'', ''role'', ''add'']"
  by code_simp

lemma ex_wit_verify: "verfer_verify ex_env ex_wit sig ser = Inr True"
  using ex_receipt_codes(4) by (simp add: verfer_verify_def ex_env_def)

lemma ex_accept:
  "acceptReply ex_env (reply_acceptance
      \<lparr>rm_serder = ex_rpy, rm_diger = ex_diger, rm_cigars = [ex_cigar], rm_tsgs = []\<rparr> ''/end/role'' (mt_qb64 ex_wit) None) (db, cs)
    = (Inr ReplyAccept, (updateReply_cigar ex_rpy ex_diger ex_dater ex_wit ex_cigar db, cs))"
  by (simp add: acceptReply_def reply_acceptance_def text_field_def sad_field_def ex_rpy_def jfield_def
      ra_bind_def ra_lift_def ra_get_def ra_mod_def ra_ret_def old_dater_def sameOrNewerReply_def
      removeReply_def ex_cigar_def ex_wit_verify)

lemma ex_dig_text: "ex_dig \<noteq> []"
  by (simp add: ex_dig_def)

lemma ex_reply_fields:
  "serder_route ex_rpy = Some ''/end/role/add''" "sd_said ex_rpy = Some ex_dig"
  "reply_text ex_rpy ''role'' = Some ''controller''"
  "reply_prefix ex_rpy ''cid'' = Inr (Some (mt_qb64 ex_wit))" "reply_prefix ex_rpy ''eid'' = Inr (Some (mt_qb64 ex_wit))"
  by (simp_all add: serder_route_def text_field_def sad_field_def reply_text_def reply_prefix_def value_text_def
      jfield_def ex_wit_of ex_rpy_def)

lemma ex_handled:
  assumes "db_eans db ex_ends = None"
  shows "processReplyEndRole ex_rn \<lparr>rm_serder = ex_rpy, rm_diger = ex_diger, rm_cigars = [ex_cigar], rm_tsgs = []\<rparr>
      ''/end/role/add'' params (db, cs) = (Inr ReplyAccept, (ex_replied db, cs))"
  using assms ex_accept [of db cs]
  by (simp add: processReplyEndRole_def ex_end_role ex_reply_fields ra_bind_def ra_lift_def ra_get_def
      text_or_def ex_ends_def prior_reply_def ex_rn_def when_accepted_def ra_mod_def ra_ret_def ex_replied_def
      Let_def ex_wit_text [unfolded truthy_Some] truthy_Some)

lemma ex_processed:
  assumes "db_eans db ex_ends = None"
  shows "processReply ex_rn (node_routes ex_rn) ex_rpy [ex_cigar] [] (db, cs) = (Inr ReplyAccept, (ex_replied db, cs))"
proof -
  have "uri_match end_role_tokens ''/end/role/add'' = Some [(''action'', ''add'')]" by code_simp
  then have "dispatch_routes (node_routes ex_rn) m ''/end/role/add'' st
      = processReplyEndRole ex_rn m ''/end/role/add'' [(''action'', ''add'')] st" for m st
    by (simp add: node_routes_def basic_handler_def route_method_def text_or_def)
  moreover have "rn_verify ex_rn ex_rpy = Inr True" by (simp add: ex_rn_def)
  ultimately show ?thesis using ex_handled [OF assms]
    by (simp add: processReply_def ra_bind_def ra_lift_def ex_reply_fields text_or_def truthy_Some ex_dig_text
        router_dispatch_def)
qed

section \<open>Indexes\<close>



section \<open>Runs of a node\<close>

text \<open>C35: Replies keep to their stores, and the history only grows. Over every run of a node on events,
  receipts, queries, replies, passes and sweeps, the first-seen logs only get appended to, no digest
  leaves a key event log, no identifier loses its state, no event a witness signature or quadruple; at
  every key that is not a query's no body is lost or replaced and no signature or couple is removed.
  And no reply, returning or throwing, touches anything but the stores of replies.\<close>

theorem agent_history_grows:
  assumes "agent_run fuel lax loc K db db'"
  shows "prefix (db_fels db pre) (db_fels db' pre)
    \<and> set (on_get n (db_kels db pre)) \<subseteq> set (on_get n (db_kels db' pre))
    \<and> dom (db_fons db) \<subseteq> dom (db_fons db') \<and> dom (db_states db) \<subseteq> dom (db_states db')
    \<and> set (db_wigs db key) \<subseteq> set (db_wigs db' key) \<and> set (db_vrcs db key) \<subseteq> set (db_vrcs db' key)
    \<and> (key \<notin> K \<longrightarrow> (\<forall>s. db_evts db key = Some s \<longrightarrow> db_evts db' key = Some s)
         \<and> set (db_sigs db key) \<subseteq> set (db_sigs db' key) \<and> set (db_rcts db key) \<subseteq> set (db_rcts db' key))
    \<and> (\<forall>rn s cigars tsgs cs r a cs'. processReply rn (node_routes rn) s cigars tsgs (db', cs) = (r, (a, cs'))
         \<longrightarrow> without_replies a = without_replies db')"
proof -
  have "without_replies a = without_replies db'"
    if "processReply rn (node_routes rn) s cigars tsgs (db', cs) = (r, (a, cs'))" for rn s cigars tsgs cs r a cs'
    using replies_stepped(1) [OF that] by (simp add: reply_area_def)
  then show ?thesis using agent_ran [OF assms] unfolding grows_but_def by (cases key) simp
qed

theorem agent_history_grows_witness:
  "agent_run 0 True False {(mt_qb64 ex_wit, ex_said2)} ex_db (ex_replied (ex_asked ex_db))
     \<and> db_evts (ex_replied (ex_asked ex_db)) (ex_pre, ex_said) = Some ex_icp
     \<and> db_eans (ex_replied (ex_asked ex_db)) ex_ends = Some ex_diger"
proof -
  let ?K = "{(mt_qb64 ex_wit, ex_said2)}"
  have q: "processQuery 0 ex_env ex_query ex_db = Inr ([], ex_asked ex_db)"
    by (rule ex_queried) (simp_all add: ex_db_at_def baser_empty_def getState_def)
  have "db_eans (ex_asked ex_db) ex_ends = None" by (simp add: ex_asked_def query_material_def ex_db_at_def baser_empty_def)
  then have p: "processReply ex_rn (node_routes ex_rn) ex_rpy [ex_cigar] [] (ex_asked ex_db, [])
      = (Inr ReplyAccept, (ex_replied (ex_asked ex_db), []))" by (rule ex_processed)
  have "agent_run 0 True False ?K ex_db (ex_asked ex_db)"
    by (rule agent_next [OF agent_refl agent_node [OF node_query [OF _ q]]]) (simp add: ex_query_key)
  then have run: "agent_run 0 True False ?K ex_db (ex_replied (ex_asked ex_db))"
    by (rule agent_next [OF _ agent_reply [OF p]])
  have n: "(ex_pre, ex_said) \<notin> ?K" by (simp add: ex_said_def ex_said2_def)
  have e: "db_evts ex_db (ex_pre, ex_said) = Some ex_icp" by (simp add: ex_db_at_def)
  have "db_eans (ex_replied (ex_asked ex_db)) ex_ends = Some ex_diger"
    by (simp add: ex_replied_def updateEnd_def Let_def map_pin_def)
  then show ?thesis using agent_history_grows [OF run, of ex_pre 0 "(ex_pre, ex_said)"] run n e by blast
qed

section \<open>Replies that wait\<close>

text \<open>A group whose parts are read back as they were stored.\<close>

definition group_kept :: "trans_group \<Rightarrow> bool" where
  "group_kept g \<longleftrightarrow>
     trans_group.tg_sigers g \<noteq> [] \<and> list_all (\<lambda>x. siger_of (ix_qb64 x) = Inr x) (trans_group.tg_sigers g)
     \<and> distinct (map ix_qb64 (trans_group.tg_sigers g))
     \<and> mt_qb64 (tg_prefixer g) \<noteq> [] \<and> prefixer_of (mt_qb64 (tg_prefixer g)) = Inr (tg_prefixer g)
     \<and> mt_qb64 (tg_diger g) \<noteq> [] \<and> diger_of (mt_qb64 (tg_diger g)) = Inr (tg_diger g)"

lemma ordinal_text: "encodeOrdinalHex n \<noteq> []"
  by (cases n) (simp_all add: encodeOrdinalHex_def seqner_snh_def number_numh_def padStart_def)

lemma stored_group_read:
  assumes "group_kept g" and "db_evts db (mt_qb64 (tg_prefixer g), mt_qb64 (tg_diger g)) = Some e"
    and "serder_sner e = Inr (Some n)"
    and "db_ssgs db said = [(group_row g, map ix_qb64 (trans_group.tg_sigers g))]"
  shows "fetchStoredTsgs db said = Inr [g\<lparr>tg_seqner := OrdNumber n\<rparr>]"
proof -
  have "map_res siger_of (map ix_qb64 (trans_group.tg_sigers g)) = Inr (trans_group.tg_sigers g)"
    using assms(1) by (simp add: group_kept_def sigers_stored)
  then have "stored_group db (group_row g, map ix_qb64 (trans_group.tg_sigers g)) = Inr [g\<lparr>tg_seqner := OrdNumber n\<rparr>]"
    using assms(1-3) ordinal_text by (cases g) (simp add: stored_group_def group_row_def group_kept_def getEvtSerder_def)
  then show ?thesis by (simp add: fetchStoredTsgs_def assms(4))
qed

text \<open>C36: A reply that had to wait. A reply escrowed for its group of signatures is, later and within its
  time limit, processed again as the message it came as with that group, the ordinal now read from the
  signer's event; whatever else the database holds by then, as long as the stored material of the reply is
  untouched and the signer's event is there.\<close>

theorem reply_replay_direct:
  assumes "group_kept g" and "db_ssgs db (mt_qb64 saider) = []"
    and "db1 = escrowReply s saider dater route g (trans_group.tg_sigers g) db"
    and "db_sdts db2 (mt_qb64 saider) = db_sdts db1 (mt_qb64 saider)"
    and "db_rpys db2 (mt_qb64 saider) = db_rpys db1 (mt_qb64 saider)"
    and "db_ssgs db2 (mt_qb64 saider) = db_ssgs db1 (mt_qb64 saider)"
    and "db_evts db2 (mt_qb64 (tg_prefixer g), mt_qb64 (tg_diger g)) = Some e" and "serder_sner e = Inr (Some n)"
    and "dater_iso8601 dater = Inr dt" and "\<not> older_than TimeoutRPE (en_now (rn_env rn)) dt"
  shows "mt_qb64 saider \<in> set (db_rpes db1 route)
    \<and> reprocessEscrowedReply rn rtr saider (db2, cs) = replay_reply rn rtr s [g\<lparr>tg_seqner := OrdNumber n\<rparr>] (db2, cs)"
proof -
  let ?sigs = "map ix_qb64 (trans_group.tg_sigers g)"
  have k: "trans_group.tg_sigers g \<noteq> []" "io_put ?sigs [] = ?sigs"
    using assms(1) io_put_fresh [of "[]" ?sigs] by (simp_all add: group_kept_def)
  have m: "db_sdts db1 (mt_qb64 saider) = Some dater" "db_rpys db1 (mt_qb64 saider) = Some s"
    "db_ssgs db1 (mt_qb64 saider) = [(group_row g, ?sigs)]" "mt_qb64 saider \<in> set (db_rpes db1 route)"
    using k assms(2) by (simp_all add: assms(3) escrowReply_def rpes_add_def updateReply_group_def ssgs_pin_def
        reply_pin_def map_pin_def)
  have f: "fetchStoredTsgs db2 (mt_qb64 saider) = Inr [g\<lparr>tg_seqner := OrdNumber n\<rparr>]"
    by (rule stored_group_read [OF assms(1,7,8)]) (simp add: assms(6) m)
  show ?thesis
    using m(4) assms(9,10) by (simp add: reprocessEscrowedReply_def ra_bind_def ra_get_def ra_read_def ra_lift_def
        f assms(4,5) m(1,2))
qed

definition ex_group :: trans_group where
  "ex_group = \<lparr>tg_prefixer = ex_key, tg_seqner = OrdNumber ex_zero, tg_diger = ex_diger, tg_sigers = [ex_siger]\<rparr>"

lemma ex_siger_read: "siger_of (ix_qb64 ex_siger) = Inr ex_siger"
  by code_simp

theorem reply_replay_direct_witness:
  "\<exists>db2. fetchStoredTsgs db2 (mt_qb64 ex_diger) = Inr [ex_group]
     \<and> reprocessEscrowedReply ex_rn (node_routes ex_rn) ex_diger (db2, [])
         = replay_reply ex_rn (node_routes ex_rn) ex_rpy [ex_group] (db2, [])"
proof -
  define db where "db = baser_empty\<lparr>db_evts := [(ex_pre, ex_dig) \<mapsto> ex_icp]\<rparr>"
  let ?db = "escrowReply ex_rpy ex_diger ex_dater ''/end/role'' ex_group (trans_group.tg_sigers ex_group) db"
  have k: "group_kept ex_group"
    by (simp add: group_kept_def ex_group_def ex_siger_read ex_dig_text) (simp add: ex_diger_def ex_dig_text)
  have s: "db_ssgs db (mt_qb64 ex_diger) = []" by (simp add: db_def baser_empty_def)
  have sg: "trans_group.tg_sigers ex_group \<noteq> []" by (simp add: ex_group_def)
  have q: "mt_qb64 (tg_prefixer ex_group) = ex_pre" "mt_qb64 (tg_diger ex_group) = ex_dig"
    by (simp_all add: ex_group_def ex_diger_def)
  have e: "db_evts ?db (mt_qb64 (tg_prefixer ex_group), mt_qb64 (tg_diger ex_group)) = Some ex_icp"
    using replies.escrowed [of db, THEN reply_area_sel(7)] by (simp add: q db_def)
  have n: "serder_sner ex_icp = Inr (Some ex_zero)"
    by (simp add: serder_sner_def makeNumberPrimitive_def serder_snh_def text_field_def sad_field_def ex_icp_def jfield_def)
  have t: "\<not> older_than TimeoutRPE (en_now (rn_env ex_rn)) (en_now ex_env)"
    by (simp add: older_than_def TimeoutRPE_def ex_rn_def split: option.split)
  have g: "ex_group\<lparr>tg_seqner := OrdNumber ex_zero\<rparr> = ex_group" by (simp add: ex_group_def)
  have r: "db_ssgs ?db (mt_qb64 ex_diger) = [(group_row ex_group, map ix_qb64 (trans_group.tg_sigers ex_group))]"
    using s by (simp add: escrowReply_def sg rpes_add_def updateReply_group_def ssgs_pin_def reply_pin_def)
      (simp add: ex_group_def io_put_def io_add_def)
  show ?thesis
    using reply_replay_direct [OF k s HOL.refl HOL.refl HOL.refl HOL.refl e n ex_iso t, of "node_routes ex_rn" "[]"]
      stored_group_read [OF k e n r] unfolding g by blast
qed

section \<open>Newer data that is lost\<close>

text \<open>The row of a reply is dropped once the reply's own time is an hour past, although the reply may have
  been accepted meanwhile: dropping the row erases the accepted reply, and the index that still names it no
  longer bars an older one.\<close>

lemma dropped_row_forgets:
  assumes "diger_of said = Inr d" and "rpes_route key \<noteq> []" and "db_sdts db (mt_qb64 d) = Some dater"
    and "db_rpys db (mt_qb64 d) = Some s" and "fetchStoredTsgs db (mt_qb64 d) = Inr (g # gs)"
    and "dater_iso8601 dater = Inr dt" and "older_than TimeoutRPE (en_now (rn_env rn)) dt"
  shows "\<exists>db'. rpe_row rn rtr (key, said) (db, cs) = (Inr (), (db', cs)) \<and> db_eans db' = db_eans db
    \<and> old_dater db' (Some d) = None \<and> sameOrNewerReply older (old_dater db' (Some d)) = Inr True
    \<and> old_lead db' (Some d) = Inr None"
  using assms
  by (simp add: rpe_row_def reprocessEscrowedReply_def ra_bind_def ra_lift_def ra_get_def ra_read_def ra_ret_def
      ra_mod_def removeReply_def rpes_rem_def old_dater_def old_lead_def sameOrNewerReply_def fetchStoredTsgs_def)

text \<open>The index of key state notices names the event of the notice, not the reply; the time of a
  reply is looked up under it, and a digest that is no reply's bars nothing.\<close>

lemma notice_index_names_event:
  assumes "save_notice aid ksn pre sn said dt (db, cs) = (Inr (), (db', cs'))"
  shows "\<exists>d. diger_of said = Inr d \<and> db_knas db' (knas_key pre aid) = Some d
    \<and> (db_sdts db' (mt_qb64 d) = None \<longrightarrow> sameOrNewerReply older (old_dater db' (Some d)) = Inr True)"
  using assms by (auto simp: save_notice_def ract_simps updateKeyState_def map_pin_def old_dater_def
      sameOrNewerReply_def split: if_splits)

text \<open>The route of a row is read up to its first dot, so the row of a watcher whose name has a dot is never
  removed.\<close>

lemma dotted_row_stays:
  assumes "rpes_route key \<noteq> key"
  shows "db_rpes (rpes_rem (rpes_route key) said db) key = db_rpes db key"
  using assms by (simp add: rpes_rem_def)

lemma fetch_newest_first:
  assumes "fetchStoredTsgs db said = Inr gs"
  shows "sorted_wrt (\<lambda>a b. ordinal_num (tg_seqner b) \<le> ordinal_num (tg_seqner a)) gs"
proof -
  obtain hs where "gs = sort_key (\<lambda>g. - int (ordinal_num (tg_seqner g))) hs"
    using assms by (auto simp: fetchStoredTsgs_def res_simps)
  then have "sorted (map (\<lambda>g. - int (ordinal_num (tg_seqner g))) gs)" by simp
  then show ?thesis by (simp add: sorted_map)
qed

end
