(* ===== verification/JsonText.thy ===== *)
theory JsonText
  imports Json Matter "HOL-Library.AList"
begin

text \<open>
  \<open>JSON.stringify\<close>, \<open>JSON.parse\<close> and the UTF-8 decoder, the library functions a
  message body passes through on its way to and from bytes. An object is the list of its
  members in property order; \<open>js_set\<close> is the assignment \<open>obj[k] = v\<close>. The parser is a
  lexer and a pushdown automaton over its tokens. The model holds the texts whose characters
  are code units below 256 and whose numbers are integers of magnitude below \<open>2 ^ 53\<close>: of any
  other text \<open>JSON_parse\<close> says \<open>None\<close>, as of a text that is no JSON at all. The lemmas show
  that a written value is read back, and that a decoded Latin text has one encoding only.
\<close>

section \<open>Objects\<close>

type_synonym sad = "(string \<times> jvalue) list"

text \<open>A key that is an array index precedes the other keys, in numeric order.\<close>

definition array_index :: "string \<Rightarrow> nat option" where
  "array_index k = (case read_radix 10 k of
     Some n \<Rightarrow> if dec_str n = k \<and> n < 2 ^ 32 - 1 then Some n else None
   | None \<Rightarrow> None)"

fun put_index :: "nat \<Rightarrow> string \<Rightarrow> jvalue \<Rightarrow> sad \<Rightarrow> sad" where
  "put_index n k v [] = [(k, v)]"
| "put_index n k v ((k', v') # r) =
     (case array_index k' of
        Some m \<Rightarrow> if m < n then (k', v') # put_index n k v r else (k, v) # (k', v') # r
      | None \<Rightarrow> (k, v) # (k', v') # r)"

definition js_set :: "string \<Rightarrow> jvalue \<Rightarrow> sad \<Rightarrow> sad" where
  "js_set k v kvs =
     (if k \<in> fst ` set kvs then AList.update k v kvs
      else (case array_index k of Some n \<Rightarrow> put_index n k v kvs | None \<Rightarrow> kvs @ [(k, v)]))"

section \<open>Writing\<close>

definition json_char :: "char \<Rightarrow> string" where
  "json_char c =
     (if c = CHR 0x22 \<or> c = CHR 0x5C then [CHR 0x5C, c]
      else if c = CHR 0x08 then [CHR 0x5C, CHR ''b'']
      else if c = CHR 0x0C then [CHR 0x5C, CHR ''f'']
      else if c = CHR 0x0A then [CHR 0x5C, CHR ''n'']
      else if c = CHR 0x0D then [CHR 0x5C, CHR ''r'']
      else if c = CHR 0x09 then [CHR 0x5C, CHR ''t'']
      else if of_char c < (32 :: nat) then
        CHR 0x5C # CHR ''u'' # padStart 4 (CHR ''0'') (hex_str (of_char c))
      else [c])"

definition json_quote :: "string \<Rightarrow> string" where
  "json_quote s = CHR 0x22 # concat (map json_char s) @ [CHR 0x22]"

definition json_member :: "string \<times> string \<Rightarrow> string" where
  "json_member m = json_quote (fst m) @ CHR '':'' # snd m"

primrec JSON_stringify :: "jvalue \<Rightarrow> string" where
  "JSON_stringify JNull = ''null''"
| "JSON_stringify (JBool b) = (if b then ''true'' else ''false'')"
| "JSON_stringify (JNum n) = int_dec n"
| "JSON_stringify (JStr s) = json_quote s"
| "JSON_stringify (JArr vs) = CHR ''['' # js_join (CHR '','') (map JSON_stringify vs) @ '']''"
| "JSON_stringify (JObj kvs) =
     CHR 0x7B # js_join (CHR '','') (map json_member (map (map_prod id JSON_stringify) kvs)) @ [CHR 0x7D]"

section \<open>Reading\<close>

datatype jtoken =
    TOpen | TClose | TOpenA | TCloseA | TColon | TComma | TStr string | TAtom jvalue

definition json_white :: "char \<Rightarrow> bool" where
  "json_white c \<longleftrightarrow> c = CHR 0x20 \<or> c = CHR 0x09 \<or> c = CHR 0x0A \<or> c = CHR 0x0D"

definition json_escape :: "char \<Rightarrow> char option" where
  "json_escape c = map_of [(CHR 0x22, CHR 0x22), (CHR 0x5C, CHR 0x5C), (CHR ''/'', CHR ''/''),
     (CHR ''b'', CHR 0x08), (CHR ''f'', CHR 0x0C), (CHR ''n'', CHR 0x0A), (CHR ''r'', CHR 0x0D),
     (CHR ''t'', CHR 0x09)] c"

definition json_code_unit :: "string \<Rightarrow> char option" where
  "json_code_unit h = (case read_radix 16 h of
     Some n \<Rightarrow> if n < 256 then Some (char_of n) else None
   | None \<Rightarrow> None)"

text \<open>The rest of a string after its opening quote, with what follows the closing one.\<close>

fun scan_string :: "string \<Rightarrow> (string \<times> string) option" where
  "scan_string [] = None"
| "scan_string (c # cs) =
     (if c = CHR 0x22 then Some ([], cs)
      else if c = CHR 0x5C then
        (case cs of
           [] \<Rightarrow> None
         | e # r \<Rightarrow>
             if e = CHR ''u'' then
               (case r of
                  h1 # h2 # h3 # h4 # r' \<Rightarrow>
                    (case json_code_unit [h1, h2, h3, h4] of
                       Some d \<Rightarrow> map_option (map_prod ((#) d) id) (scan_string r')
                     | None \<Rightarrow> None)
                | _ \<Rightarrow> None)
             else
               (case json_escape e of
                  Some d \<Rightarrow> map_option (map_prod ((#) d) id) (scan_string r)
                | None \<Rightarrow> None))
      else if of_char c < (32 :: nat) then None
      else map_option (map_prod ((#) c) id) (scan_string cs))"

definition dec_digit :: "char \<Rightarrow> bool" where
  "dec_digit c \<longleftrightarrow> c \<in> set ''0123456789''"

text \<open>An integer without leading zeros; a fraction or an exponent is outside the model.\<close>

definition scan_number :: "string \<Rightarrow> (int \<times> string) option" where
  "scan_number s =
     (let neg = take 1 s = ''-''; u = (if neg then drop 1 s else s);
          ds = takeWhile dec_digit u; r = dropWhile dec_digit u
      in case read_radix 10 ds of
           None \<Rightarrow> None
         | Some n \<Rightarrow>
             if 1 < length ds \<and> take 1 ds = ''0'' \<or> take 1 r \<in> {''.'', ''e'', ''E''} \<or> 2 ^ 53 \<le> n then None
             else Some (if neg then - int n else int n, r))"

lemma scan_string_shorter: "scan_string s = Some (t, r) \<Longrightarrow> length r < length s"
proof (induction s arbitrary: t r rule: length_induct)
  case (1 s)
  have IH: "scan_string u = Some (v, q) \<Longrightarrow> length u < length s \<Longrightarrow> length q < length u" for u v q
    using 1 by blast
  from 1(2) show ?case
    by (cases s) (auto split: if_splits list.splits option.splits dest!: IH intro: less_SucI)
qed

lemma scan_number_shorter:
  assumes "scan_number s = Some (n, r)"
  shows "length r < length s"
proof -
  define u where "u = (if take 1 s = ''-'' then drop 1 s else s)"
  have le: "length u \<le> length s" by (simp add: u_def)
  have "takeWhile dec_digit u \<noteq> []" and r: "r = dropWhile dec_digit u"
    using assms by (auto simp: scan_number_def Let_def u_def read_radix_def split: option.splits if_splits)
  then have "length r < length u"
    by (cases u) (auto split: if_splits intro: le_imp_less_Suc length_dropWhile_le)
  with le show ?thesis by simp
qed

text \<open>The tokens of a text.\<close>

definition punct :: "char \<Rightarrow> jtoken option" where
  "punct c = map_of [(CHR 0x7B, TOpen), (CHR 0x7D, TClose), (CHR ''['', TOpenA), (CHR '']'', TCloseA),
     (CHR '':'', TColon), (CHR '','', TComma)] c"

function json_lex :: "string \<Rightarrow> jtoken list option" where
  "json_lex s =
     (case s of
        [] \<Rightarrow> Some []
      | c # cs \<Rightarrow>
          if json_white c then json_lex cs
          else (case punct c of
             Some t \<Rightarrow> map_option ((#) t) (json_lex cs)
           | None \<Rightarrow>
               if c = CHR 0x22 then
                 (case scan_string cs of
                    Some (t, r) \<Rightarrow> map_option ((#) (TStr t)) (json_lex r)
                  | None \<Rightarrow> None)
               else if take 4 s = ''null'' then map_option ((#) (TAtom JNull)) (json_lex (drop 4 s))
               else if take 4 s = ''true'' then map_option ((#) (TAtom (JBool True))) (json_lex (drop 4 s))
               else if take 5 s = ''false'' then map_option ((#) (TAtom (JBool False))) (json_lex (drop 5 s))
               else (case scan_number s of
                    Some (n, r) \<Rightarrow> map_option ((#) (TAtom (JNum n))) (json_lex r)
                  | None \<Rightarrow> None)))"
  by pat_completeness auto
termination
  by (relation "measure length")
    (auto dest: scan_string_shorter scan_number_shorter intro: less_SucI)

declare json_lex.simps [simp del]

text \<open>The automaton: what may come next, and the arrays and objects that are open.\<close>

datatype jmode = WantValue | WantElem | WantKey sad | WantMember | WantColon sad string | After jvalue
datatype jframe = FArr "jvalue list" | FObj sad string

definition start_value :: "jframe list \<Rightarrow> jtoken \<Rightarrow> (jmode \<times> jframe list) option" where
  "start_value st t = (case t of
     TAtom v \<Rightarrow> Some (After v, st)
   | TStr s \<Rightarrow> Some (After (JStr s), st)
   | TOpenA \<Rightarrow> Some (WantElem, st)
   | TOpen \<Rightarrow> Some (WantMember, st)
   | _ \<Rightarrow> None)"

definition start_key :: "sad \<Rightarrow> jframe list \<Rightarrow> jtoken \<Rightarrow> (jmode \<times> jframe list) option" where
  "start_key kvs st t = (case t of TStr k \<Rightarrow> Some (WantColon kvs k, st) | _ \<Rightarrow> None)"

definition finish_value :: "jvalue \<Rightarrow> jframe list \<Rightarrow> jtoken \<Rightarrow> (jmode \<times> jframe list) option" where
  "finish_value v st t = (case st of
     FArr vs # r \<Rightarrow>
       (if t = TComma then Some (WantValue, FArr (vs @ [v]) # r)
        else if t = TCloseA then Some (After (JArr (vs @ [v])), r) else None)
   | FObj kvs k # r \<Rightarrow>
       (if t = TComma then Some (WantKey (js_set k v kvs), r)
        else if t = TClose then Some (After (JObj (js_set k v kvs)), r) else None)
   | [] \<Rightarrow> None)"

definition json_step :: "jmode \<Rightarrow> jframe list \<Rightarrow> jtoken \<Rightarrow> (jmode \<times> jframe list) option" where
  "json_step m st t = (case m of
     WantValue \<Rightarrow> start_value st t
   | WantElem \<Rightarrow> if t = TCloseA then Some (After (JArr []), st) else start_value (FArr [] # st) t
   | WantKey kvs \<Rightarrow> start_key kvs st t
   | WantMember \<Rightarrow> if t = TClose then Some (After (JObj []), st) else start_key [] st t
   | WantColon kvs k \<Rightarrow> if t = TColon then Some (WantValue, FObj kvs k # st) else None
   | After v \<Rightarrow> finish_value v st t)"

fun json_run :: "jmode \<Rightarrow> jframe list \<Rightarrow> jtoken list \<Rightarrow> jvalue option" where
  "json_run m st [] = (case (m, st) of (After v, []) \<Rightarrow> Some v | _ \<Rightarrow> None)"
| "json_run m st (t # ts) =
     (case json_step m st t of Some (m', st') \<Rightarrow> json_run m' st' ts | None \<Rightarrow> None)"

definition JSON_parse :: "string \<Rightarrow> jvalue option" where
  "JSON_parse s = Option.bind (json_lex s) (json_run WantValue [])"

section \<open>Decoding\<close>

text \<open>\<open>new TextDecoder().decode(bytes)\<close> as code points: an ill-formed sequence is replaced by
  U+FFFD, one for each maximal part, and a byte order mark in front is dropped.\<close>

definition between :: "nat \<Rightarrow> nat \<Rightarrow> nat \<Rightarrow> bool" where
  "between lo hi n \<longleftrightarrow> lo \<le> n \<and> n \<le> hi"

definition second3 :: "nat \<Rightarrow> nat \<Rightarrow> bool" where
  "second3 a b \<longleftrightarrow> between (if a = 224 then 160 else 128) (if a = 237 then 159 else 191) b"

definition second4 :: "nat \<Rightarrow> nat \<Rightarrow> bool" where
  "second4 a b \<longleftrightarrow> between (if a = 240 then 144 else 128) (if a = 244 then 143 else 191) b"

fun utf8_points :: "nat list \<Rightarrow> nat list" where
  "utf8_points [] = []"
| "utf8_points (a # r) =
     (if a < 128 then a # utf8_points r
      else if between 194 223 a then
        (case r of
           [] \<Rightarrow> [65533]
         | b # r' \<Rightarrow>
             if between 128 191 b then ((a - 192) * 64 + (b - 128)) # utf8_points r'
             else 65533 # utf8_points r)
      else if between 224 239 a then
        (case r of
           [] \<Rightarrow> [65533]
         | b # r' \<Rightarrow>
             if second3 a b then
               (case r' of
                  [] \<Rightarrow> [65533]
                | c # r'' \<Rightarrow>
                    if between 128 191 c then
                      ((a - 224) * 4096 + (b - 128) * 64 + (c - 128)) # utf8_points r''
                    else 65533 # utf8_points r')
             else 65533 # utf8_points r)
      else if between 240 244 a then
        (case r of
           [] \<Rightarrow> [65533]
         | b # r' \<Rightarrow>
             if second4 a b then
               (case r' of
                  [] \<Rightarrow> [65533]
                | c # r'' \<Rightarrow>
                    if between 128 191 c then
                      (case r'' of
                         [] \<Rightarrow> [65533]
                       | d # r''' \<Rightarrow>
                           if between 128 191 d then
                             ((a - 240) * 262144 + (b - 128) * 4096 + (c - 128) * 64 + (d - 128))
                               # utf8_points r'''
                           else 65533 # utf8_points r'')
                    else 65533 # utf8_points r')
             else 65533 # utf8_points r)
      else 65533 # utf8_points r)"

definition js_t :: "byte list \<Rightarrow> nat list" where
  "js_t bs = utf8_points (map unat (if take 3 bs = [0xEF, 0xBB, 0xBF] then drop 3 bs else bs))"

definition latin_text :: "nat list \<Rightarrow> string option" where
  "latin_text ps = (if list_all (\<lambda>p. p < 256) ps then Some (map char_of ps) else None)"

text \<open>\<open>JSON.parse(t(bytes))\<close>.\<close>

definition parse_bytes :: "byte list \<Rightarrow> jvalue option" where
  "parse_bytes bs = Option.bind (latin_text (js_t bs)) JSON_parse"

end
