(* ===== verification/JsonLaws.thy ===== *)
theory JsonLaws
  imports JsonText
begin

text \<open>
  What \<open>JSON.stringify\<close> writes \<open>JSON.parse\<close> reads back: the lexer yields the tokens of the
  value whatever text follows, and the automaton builds the value from them. A text of Latin
  characters is recovered from its UTF-8 bytes, and no other bytes decode to it but the same
  behind a byte order mark.
\<close>

section \<open>Property order\<close>

definition key_before :: "string \<Rightarrow> string \<Rightarrow> bool" where
  "key_before k k' \<longleftrightarrow> (case array_index k' of
     None \<Rightarrow> True
   | Some n' \<Rightarrow> (case array_index k of None \<Rightarrow> False | Some n \<Rightarrow> n < n'))"

definition key_order :: "string list \<Rightarrow> bool" where
  "key_order ks \<longleftrightarrow> distinct ks \<and> sorted_wrt key_before ks"

lemma put_index_last:
  "\<forall>k' \<in> fst ` set kvs. \<exists>m. array_index k' = Some m \<and> m < n \<Longrightarrow> put_index n k v kvs = kvs @ [(k, v)]"
  by (induction kvs) auto

lemma js_set_last: "key_order (map fst kvs @ [k]) \<Longrightarrow> js_set k v kvs = kvs @ [(k, v)]"
proof -
  assume o: "key_order (map fst kvs @ [k])"
  then have new: "k \<notin> fst ` set kvs" and b: "\<forall>k' \<in> fst ` set kvs. key_before k' k"
    by (auto simp: key_order_def sorted_wrt_append)
  show ?thesis
  proof (cases "array_index k")
    case None
    with new show ?thesis by (simp add: js_set_def)
  next
    case (Some n)
    then have "\<forall>k' \<in> fst ` set kvs. \<exists>m. array_index k' = Some m \<and> m < n"
      using b by (fastforce simp: key_before_def split: option.splits)
    from put_index_last [OF this] show ?thesis using new Some by (simp add: js_set_def)
  qed
qed

lemma array_index_inj: "array_index k = Some n \<Longrightarrow> array_index k' = Some n \<Longrightarrow> k = k'"
  by (auto simp: array_index_def split: option.splits if_splits)

lemma fst_put_index: "fst ` set (put_index n k v kvs) = insert k (fst ` set kvs)"
  by (induction n k v kvs rule: put_index.induct) (auto split: option.splits)

lemma put_index_order:
  assumes "key_order (map fst kvs)" and "array_index k = Some n" and "k \<notin> fst ` set kvs"
  shows "key_order (map fst (put_index n k v kvs))"
  using assms
proof (induction kvs)
  case Nil
  then show ?case by (simp add: key_order_def)
next
  case (Cons e r)
  obtain k' v' where e: "e = (k', v')" by (cases e)
  have rest: "key_order (map fst r)" "\<forall>q \<in> fst ` set r. key_before k' q" "k' \<notin> fst ` set r"
    using Cons.prems(1) by (auto simp: key_order_def e)
  have ne: "k \<noteq> k'" "k \<notin> fst ` set r" using Cons.prems(3) by (auto simp: e)
  show ?case
  proof (cases "\<exists>m. array_index k' = Some m \<and> m < n")
    case True
    then obtain m where m: "array_index k' = Some m" "m < n" by blast
    then have first: "key_before k' k" using Cons.prems(2) by (simp add: key_before_def)
    have "key_order (map fst (put_index n k v r))"
      using Cons.IH rest(1) Cons.prems(2) ne(2) by blast
    moreover have "set (map fst (put_index n k v r)) = insert k (fst ` set r)"
      using fst_put_index [of n k v r] by simp
    ultimately show ?thesis
      using m rest ne first unfolding key_order_def e by (simp del: set_map)
  next
    case False
    then have first: "key_before k k'"
      using Cons.prems(2) ne(1) array_index_inj [of k n k']
      by (auto simp: key_before_def split: option.splits) (metis linorder_neqE_nat)
    have "key_before k q" if "q \<in> fst ` set r" for q
      using rest(2) that first False Cons.prems(2)
      by (fastforce simp: key_before_def split: option.splits)
    with first have "\<forall>q \<in> fst ` set (e # r). key_before k q" by (auto simp: e)
    moreover have "put_index n k v (e # r) = (k, v) # e # r"
      using False by (auto simp: e split: option.splits)
    ultimately show ?thesis using Cons.prems by (auto simp: key_order_def)
  qed
qed

lemma map_fst_update: "k \<in> fst ` set kvs \<Longrightarrow> map fst (AList.update k v kvs) = map fst kvs"
  by (induction kvs) auto

lemma js_set_keys: "k \<in> fst ` set kvs \<Longrightarrow> map fst (js_set k v kvs) = map fst kvs"
  by (simp add: js_set_def map_fst_update)

lemma js_set_order: "key_order (map fst kvs) \<Longrightarrow> key_order (map fst (js_set k v kvs))"
proof -
  assume o: "key_order (map fst kvs)"
  show ?thesis
  proof (cases "k \<in> fst ` set kvs")
    case True
    with o show ?thesis by (simp add: js_set_keys)
  next
    case new: False
    show ?thesis
    proof (cases "array_index k")
      case None
      with o new show ?thesis
        by (auto simp: js_set_def key_order_def sorted_wrt_append key_before_def)
    next
      case (Some n)
      with put_index_order [OF o Some new] new show ?thesis by (simp add: js_set_def)
    qed
  qed
qed

lemma set_update: "set (AList.update k v kvs) \<subseteq> insert (k, v) (set kvs)"
  by (induction kvs) auto

lemma set_put_index: "set (put_index n k v kvs) \<subseteq> insert (k, v) (set kvs)"
  by (induction n k v kvs rule: put_index.induct) (auto split: option.splits)

lemma set_js_set: "set (js_set k v kvs) \<subseteq> insert (k, v) (set kvs)"
  using set_update [of k v kvs] set_put_index [of _ k v kvs]
  by (auto simp: js_set_def split: option.splits)

lemma map_of_put_index: "k \<notin> fst ` set kvs \<Longrightarrow> map_of (put_index n k v kvs) = (map_of kvs)(k \<mapsto> v)"
  by (induction n k v kvs rule: put_index.induct) (auto split: option.splits simp: fun_eq_iff)

lemma map_of_js_set: "map_of (js_set k v kvs) = (map_of kvs)(k \<mapsto> v)"
proof (cases "k \<in> fst ` set kvs")
  case True
  then show ?thesis by (simp add: js_set_def update_conv')
next
  case False
  then have "map_of kvs k = None" by (simp add: map_of_eq_None_iff)
  with False show ?thesis
    by (auto simp: js_set_def map_of_put_index map_add_def fun_eq_iff split: option.splits)
qed

section \<open>Values of the model\<close>

primrec json_ok :: "jvalue \<Rightarrow> bool" where
  "json_ok JNull = True"
| "json_ok (JBool b) = True"
| "json_ok (JNum n) = (\<bar>n\<bar> < 2 ^ 53)"
| "json_ok (JStr s) = True"
| "json_ok (JArr vs) = list_all id (map json_ok vs)"
| "json_ok (JObj kvs) = (key_order (map fst kvs) \<and> list_all snd (map (map_prod id json_ok) kvs))"

fun join_toks :: "jtoken list list \<Rightarrow> jtoken list" where
  "join_toks [] = []"
| "join_toks [w] = w"
| "join_toks (w # v # ws) = w @ TComma # join_toks (v # ws)"

definition member_toks :: "string \<times> jtoken list \<Rightarrow> jtoken list" where
  "member_toks m = TStr (fst m) # TColon # snd m"

primrec toks :: "jvalue \<Rightarrow> jtoken list" where
  "toks JNull = [TAtom JNull]"
| "toks (JBool b) = [TAtom (JBool b)]"
| "toks (JNum n) = [TAtom (JNum n)]"
| "toks (JStr s) = [TStr s]"
| "toks (JArr vs) = TOpenA # join_toks (map toks vs) @ [TCloseA]"
| "toks (JObj kvs) = TOpen # join_toks (map member_toks (map (map_prod id toks) kvs)) @ [TClose]"

lemma json_ok_obj:
  "json_ok (JObj kvs) \<longleftrightarrow> key_order (map fst kvs) \<and> (\<forall>m \<in> set kvs. json_ok (snd m))"
  by (auto simp: list_all_iff)

lemma snd_in_snds [simp]: "snd m \<in> Basic_BNFs.snds m"
  by (rule snds.intros)

section \<open>The automaton\<close>

lemma toks_start: "\<exists>t r. toks v = t # r \<and> t \<noteq> TCloseA"
  by (cases v) simp_all

lemma run_elements:
  assumes "\<And>v st ts. v \<in> set vs \<Longrightarrow> json_run WantValue st (toks v @ ts) = json_run (After v) st ts"
    and "vs \<noteq> []"
  shows "json_run WantValue (FArr acc # st) (join_toks (map toks vs) @ TCloseA # ts)
    = json_run (After (JArr (acc @ vs))) st ts"
  using assms
proof (induction "map toks vs" arbitrary: vs acc rule: join_toks.induct)
  case 1
  then show ?case by simp
next
  case (2 w)
  then obtain v where "vs = [v]" by auto
  with 2 show ?case by (simp add: json_step_def finish_value_def)
next
  case (3 w u ws)
  then obtain v rest where vs: "vs = v # rest" "rest \<noteq> []" "u # ws = map toks rest" by auto
  have "json_run WantValue (FArr acc # st) (join_toks (map toks vs) @ TCloseA # ts)
    = json_run WantValue (FArr acc # st) (toks v @ TComma # join_toks (map toks rest) @ TCloseA # ts)"
    using vs by (cases rest) simp_all
  also have "\<dots> = json_run WantValue (FArr (acc @ [v]) # st) (join_toks (map toks rest) @ TCloseA # ts)"
    using 3(3) [of v] vs(1) by (simp add: json_step_def finish_value_def)
  also have "\<dots> = json_run (After (JArr ((acc @ [v]) @ rest))) st ts"
    using 3(3) vs by (intro 3(1)) simp_all
  finally show ?case using vs by simp
qed

lemma run_first_element:
  "json_run WantElem st (toks v @ ts) = json_run WantValue (FArr [] # st) (toks v @ ts)"
proof -
  from toks_start [of v] obtain t r where "toks v = t # r" "t \<noteq> TCloseA" by blast
  then show ?thesis by (simp add: json_step_def)
qed

lemma run_members:
  assumes "\<And>m st ts. m \<in> set kvs \<Longrightarrow> json_run WantValue st (toks (snd m) @ ts) = json_run (After (snd m)) st ts"
    and "kvs \<noteq> []" and "key_order (map fst (acc @ kvs))"
  shows "json_run (WantKey acc) st (join_toks (map (\<lambda>m. member_toks (fst m, toks (snd m))) kvs) @ TClose # ts)
    = json_run (After (JObj (acc @ kvs))) st ts"
  using assms
proof (induction kvs arbitrary: acc)
  case Nil
  then show ?case by simp
next
  case (Cons m rest)
  have put: "js_set (fst m) (snd m) acc = acc @ [m]"
    using Cons.prems(3) by (subst js_set_last) (simp_all add: key_order_def sorted_wrt_append)
  note v = Cons.prems(1) [of m, simplified]
  show ?case
  proof (cases rest)
    case Nil
    then show ?thesis
      by (simp add: member_toks_def json_step_def start_key_def v finish_value_def put)
  next
    case (Cons m' rest')
    have "json_run (WantKey (acc @ [m])) st
        (join_toks (map (\<lambda>m. member_toks (fst m, toks (snd m))) rest) @ TClose # ts)
      = json_run (After (JObj ((acc @ [m]) @ rest))) st ts"
      using Cons.prems \<open>rest = m' # rest'\<close> by (intro Cons.IH) auto
    then show ?thesis
      using Cons by (simp add: member_toks_def json_step_def start_key_def v finish_value_def put)
  qed
qed

lemma run_first_member:
  "json_run WantMember st (TStr k # ts) = json_run (WantKey []) st (TStr k # ts)"
  by (simp add: json_step_def)

lemma run_toks: "json_ok v \<Longrightarrow> json_run WantValue st (toks v @ ts) = json_run (After v) st ts"
proof (induction v arbitrary: st ts)
  case (JArr vs)
  show ?case
  proof (cases vs)
    case Nil
    then show ?thesis by (simp add: json_step_def start_value_def)
  next
    case (Cons v r)
    have ok: "\<forall>v \<in> set vs. json_ok v" using JArr.prems by (simp add: list_all_iff)
    obtain q where q: "join_toks (map toks vs) = toks v @ q" using Cons by (cases r) simp_all
    have "json_run WantElem st (join_toks (map toks vs) @ TCloseA # ts)
      = json_run WantValue (FArr [] # st) (join_toks (map toks vs) @ TCloseA # ts)"
      using run_first_element by (simp add: q)
    also have "\<dots> = json_run (After (JArr ([] @ vs))) st ts"
      using JArr.IH ok Cons by (intro run_elements) auto
    finally show ?thesis by (simp add: json_step_def start_value_def)
  qed
next
  case (JObj kvs)
  have eq: "map member_toks (map (map_prod id toks) kvs) = map (\<lambda>m. member_toks (fst m, toks (snd m))) kvs"
    by (simp add: map_prod_def split_beta)
  show ?case
  proof (cases kvs)
    case Nil
    then show ?thesis by (simp add: json_step_def start_value_def)
  next
    case (Cons m r)
    let ?ts = "join_toks (map (\<lambda>m. member_toks (fst m, toks (snd m))) kvs) @ TClose # ts"
    have ok: "key_order (map fst kvs)" "\<forall>m \<in> set kvs. json_ok (snd m)"
      using JObj.prems unfolding json_ok_obj by blast+
    obtain q where q: "?ts = TStr (fst m) # q" using Cons by (cases r) (simp_all add: member_toks_def)
    have run: "json_run WantValue st (toks (snd m) @ ts) = json_run (After (snd m)) st ts"
      if "m \<in> set kvs" for m st ts
      using JObj.IH [OF that snd_in_snds] ok(2) that by blast
    have "json_run WantMember st ?ts = json_run (WantKey []) st ?ts"
      unfolding q by (rule run_first_member)
    also have "\<dots> = json_run (After (JObj ([] @ kvs))) st ts"
      by (rule run_members [OF run]) (use ok Cons in simp_all)
    finally have run_rest: "json_run WantMember st ?ts = json_run (After (JObj ([] @ kvs))) st ts" .
    have "toks (JObj kvs) @ ts = TOpen # ?ts"
      by (simp only: toks.simps eq append_Cons append_assoc append_Nil)
    then show ?thesis using run_rest by (simp add: json_step_def start_value_def del: toks.simps)
  qed
qed (simp_all add: json_step_def start_value_def)

section \<open>The lexer\<close>

lemma json_escapes:
  "json_escape (CHR 0x22) = Some (CHR 0x22)" "json_escape (CHR 0x5C) = Some (CHR 0x5C)"
  "json_escape (CHR ''b'') = Some (CHR 0x08)" "json_escape (CHR ''f'') = Some (CHR 0x0C)"
  "json_escape (CHR ''n'') = Some (CHR 0x0A)" "json_escape (CHR ''r'') = Some (CHR 0x0D)"
  "json_escape (CHR ''t'') = Some (CHR 0x09)"
  by (simp_all add: json_escape_def)

lemma code_unit_written:
  "of_char c < (32 :: nat) \<Longrightarrow>
     \<exists>h1 h2 h3 h4. padStart 4 (CHR ''0'') (hex_str (of_char c)) = [h1, h2, h3, h4]
       \<and> json_code_unit [h1, h2, h3, h4] = Some c"
proof -
  assume c: "of_char c < (32 :: nat)"
  have all: "list_all (\<lambda>n. case padStart 4 (CHR ''0'') (hex_str n) of
      [h1, h2, h3, h4] \<Rightarrow> json_code_unit [h1, h2, h3, h4] = Some (char_of n) | _ \<Rightarrow> False) [0..<32]"
    by code_simp
  have "of_char c \<in> set [0 :: nat..<32]" using c by simp
  with all have "case padStart 4 (CHR ''0'') (hex_str (of_char c)) of
      [h1, h2, h3, h4] \<Rightarrow> json_code_unit [h1, h2, h3, h4] = Some (char_of (of_char c :: nat)) | _ \<Rightarrow> False"
    unfolding list_all_iff by blast
  then show ?thesis by (auto split: list.splits)
qed

lemma scan_char: "scan_string (json_char c @ r) = map_option (map_prod ((#) c) id) (scan_string r)"
proof (cases "of_char c < (32 :: nat) \<and> json_char c = CHR 0x5C # CHR ''u'' # padStart 4 (CHR ''0'') (hex_str (of_char c))")
  case True
  then obtain h1 h2 h3 h4 where "json_char c = [CHR 0x5C, CHR ''u'', h1, h2, h3, h4]"
    "json_code_unit [h1, h2, h3, h4] = Some c"
    using code_unit_written [of c] by auto
  then show ?thesis by simp
next
  case False
  then show ?thesis
    by (auto simp: json_char_def json_escapes)
qed

lemma scan_quoted: "scan_string (concat (map json_char s) @ CHR 0x22 # r) = Some (s, r)"
  by (induction s) (simp_all add: scan_char)

definition delimited :: "string \<Rightarrow> bool" where
  "delimited r \<longleftrightarrow> r = [] \<or> hd r \<in> {CHR '','', CHR '']'', CHR 0x7D}"

lemma lex_punct: "punct c = Some t \<Longrightarrow> \<not> json_white c \<Longrightarrow> json_lex (c # cs) = map_option ((#) t) (json_lex cs)"
  by (subst json_lex.simps) simp

lemma puncts:
  "punct (CHR 0x7B) = Some TOpen" "punct (CHR 0x7D) = Some TClose" "punct (CHR ''['') = Some TOpenA"
  "punct (CHR '']'') = Some TCloseA" "punct (CHR '':'') = Some TColon" "punct (CHR '','') = Some TComma"
  by (simp_all add: punct_def)

lemma lex_puncts [simp]:
  "json_lex (CHR 0x7B # cs) = map_option ((#) TOpen) (json_lex cs)"
  "json_lex (CHR 0x7D # cs) = map_option ((#) TClose) (json_lex cs)"
  "json_lex (CHR ''['' # cs) = map_option ((#) TOpenA) (json_lex cs)"
  "json_lex (CHR '']'' # cs) = map_option ((#) TCloseA) (json_lex cs)"
  "json_lex (CHR '':'' # cs) = map_option ((#) TColon) (json_lex cs)"
  "json_lex (CHR '','' # cs) = map_option ((#) TComma) (json_lex cs)"
  by (simp_all add: lex_punct puncts json_white_def)

lemma lex_quoted: "json_lex (json_quote s @ r) = map_option ((#) (TStr s)) (json_lex r)"
  using scan_quoted [of s r]
  by (subst json_lex.simps) (simp add: json_quote_def json_white_def punct_def)

lemma lex_atom:
  assumes "\<not> json_white c" and "punct c = None" and "c \<noteq> CHR 0x22"
  shows "json_lex (c # cs) =
     (if take 4 (c # cs) = ''null'' then map_option ((#) (TAtom JNull)) (json_lex (drop 4 (c # cs)))
      else if take 4 (c # cs) = ''true'' then map_option ((#) (TAtom (JBool True))) (json_lex (drop 4 (c # cs)))
      else if take 5 (c # cs) = ''false'' then map_option ((#) (TAtom (JBool False))) (json_lex (drop 5 (c # cs)))
      else (case scan_number (c # cs) of
           Some (n, r) \<Rightarrow> map_option ((#) (TAtom (JNum n))) (json_lex r)
         | None \<Rightarrow> None))"
  unfolding json_lex.simps [of "c # cs"] list.case using assms by (simp only: if_False option.case refl)

lemma lex_words:
  "json_lex (''null'' @ r) = map_option ((#) (TAtom JNull)) (json_lex r)"
  "json_lex (''true'' @ r) = map_option ((#) (TAtom (JBool True))) (json_lex r)"
  "json_lex (''false'' @ r) = map_option ((#) (TAtom (JBool False))) (json_lex r)"
proof -
  have n: "\<not> json_white c" "punct c = None" "c \<noteq> CHR 0x22" if "c \<in> set ''ntf''" for c
    using that by (auto simp: json_white_def punct_def)
  show "json_lex (''null'' @ r) = map_option ((#) (TAtom JNull)) (json_lex r)"
    unfolding append.simps by (subst lex_atom) (simp_all add: n)
  show "json_lex (''true'' @ r) = map_option ((#) (TAtom (JBool True))) (json_lex r)"
    unfolding append.simps by (subst lex_atom) (simp_all add: n)
  show "json_lex (''false'' @ r) = map_option ((#) (TAtom (JBool False))) (json_lex r)"
    unfolding append.simps by (subst lex_atom) (simp_all add: n)
qed

lemma dec_str_digits: "\<forall>c \<in> set (dec_str n). dec_digit c"
  using set_dec_str [of n] unfolding dec_digit_def by blast

lemma digits_head: "2 \<le> b \<Longrightarrow> 1 < length (digits b n) \<Longrightarrow> hd (digits b n) \<noteq> 0"
proof (induction b n rule: digits.induct)
  case (1 b n)
  show ?case
  proof (cases "n < b")
    case True
    with 1(3) show ?thesis by (subst (asm) digits.simps) simp
  next
    case False
    have d: "digits b n = digits b (n div b) @ [n mod b]" using False 1(2) by (subst digits.simps) simp
    show ?thesis
    proof (cases "1 < length (digits b (n div b))")
      case True
      then show ?thesis using 1 False by (simp add: d)
    next
      case short: False
      then obtain e where e: "digits b (n div b) = [e]"
        using digits_nonempty [of b "n div b"] by (cases "digits b (n div b)") auto
      have "e = n div b" using of_digits_digits [of b "n div b"] by (simp add: e radix_simps)
      moreover have "0 < n div b" using False 1(2) by (simp add: div_greater_zero_iff)
      ultimately show ?thesis by (simp add: d e)
    qed
  qed
qed

lemma dec_str_head: "1 < length (dec_str n) \<Longrightarrow> take 1 (dec_str n) \<noteq> ''0''"
proof -
  assume long: "1 < length (dec_str n)"
  then have "hd (digits 10 n) \<noteq> 0" using digits_head [of 10 n] by (simp add: dec_str_def show_radix_def)
  moreover have "hd (digits 10 n) < 10" using digits_bound [of 10 _ n] by simp
  moreover have "list_all (\<lambda>d. d = 0 \<or> digit_chars ! d \<noteq> CHR ''0'') [0..<10]" by code_simp
  ultimately have "digit_chars ! hd (digits 10 n) \<noteq> CHR ''0''"
    unfolding list_all_iff by (metis atLeastLessThan_iff le0 set_upt)
  then show ?thesis
    by (cases "digits 10 n") (simp_all add: dec_str_def show_radix_def)
qed

lemma scan_written:
  assumes "\<bar>n\<bar> < 2 ^ 53" and "delimited r"
  shows "scan_number (int_dec n @ r) = Some (n, r)"
proof -
  have stop: "takeWhile dec_digit (dec_str k @ r) = dec_str k \<and> dropWhile dec_digit (dec_str k @ r) = r" for k
    using dec_str_digits [of k] assms(2)
    by (cases r) (auto simp: takeWhile_append dropWhile_append delimited_def dec_digit_def)
  have fine: "take 1 r \<notin> {''.'', ''e'', ''E''}" using assms(2) by (cases r) (auto simp: delimited_def)
  have lead: "\<not> (1 < length (dec_str k) \<and> take 1 (dec_str k) = ''0'')" for k using dec_str_head by blast
  have nominus: "take 1 (dec_str k @ r) \<noteq> ''-''" for k
    using dec_str_no [of "CHR ''-''" k] by (cases "dec_str k") auto
  show ?thesis
  proof (cases "n < 0")
    case True
    then have "nat (- n) < 2 ^ 53" using assms(1) by simp
    then show ?thesis using True stop [of "nat (- n)"] fine lead [of "nat (- n)"]
      unfolding scan_number_def int_dec_def Let_def by auto
  next
    case False
    then have "nat n < 2 ^ 53" using assms(1) by simp
    then show ?thesis using False stop [of "nat n"] fine lead [of "nat n"] nominus [of "nat n"]
      unfolding scan_number_def int_dec_def Let_def by auto
  qed
qed

lemma int_dec_start:
  obtains c cs where "int_dec n = c # cs" "c \<in> set ''-0123456789''"
proof (cases "n < 0")
  case True
  then show thesis by (intro that [of "CHR ''-''"]) (simp_all add: int_dec_def)
next
  case False
  obtain c cs where c: "dec_str (nat n) = c # cs" by (cases "dec_str (nat n)") auto
  then have "c \<in> set ''0123456789''" using set_dec_str [of "nat n"] by auto
  then show thesis using c False by (intro that [of c cs]) (auto simp: int_dec_def)
qed

lemma lex_number:
  assumes "\<bar>n\<bar> < 2 ^ 53" and "delimited r"
  shows "json_lex (int_dec n @ r) = map_option ((#) (TAtom (JNum n))) (json_lex r)"
proof -
  obtain c cs where c: "int_dec n = c # cs" "c \<in> set ''-0123456789''" by (rule int_dec_start)
  have "list_all (\<lambda>c. \<not> json_white c \<and> punct c = None \<and> c \<noteq> CHR 0x22 \<and> c \<notin> set ''ntf'') ''-0123456789''"
    by code_simp
  then have "\<not> json_white c \<and> punct c = None \<and> c \<noteq> CHR 0x22 \<and> c \<notin> set ''ntf''"
    using c(2) unfolding list_all_iff by blast
  then show ?thesis using scan_written [OF assms]
    by (subst json_lex.simps) (auto simp: c(1))
qed

lemma lex_elements:
  assumes "\<And>v r. v \<in> set vs \<Longrightarrow> delimited r \<Longrightarrow> json_lex (f v @ r) = map_option ((@) (g v)) (json_lex r)"
    and "delimited r"
  shows "json_lex (js_join (CHR '','') (map f vs) @ r) = map_option ((@) (join_toks (map g vs))) (json_lex r)"
  using assms(1)
proof (induction vs)
  case Nil
  then show ?case by (cases "json_lex r") simp_all
next
  case (Cons v vs)
  show ?case
  proof (cases vs)
    case Nil
    then show ?thesis using Cons.prems assms(2) by simp
  next
    case (Cons w ws)
    have "delimited (CHR '','' # q)" for q by (simp add: delimited_def)
    then show ?thesis using Cons.IH Cons.prems Cons
      by (simp add: option.map_comp comp_def)
  qed
qed

lemma lex_written:
  "json_ok v \<Longrightarrow> delimited r \<Longrightarrow> json_lex (JSON_stringify v @ r) = map_option ((@) (toks v)) (json_lex r)"
proof (induction v arbitrary: r)
  case JNull
  then show ?case using lex_words(1) [of r] by (simp add: fun_eq_iff cong: option.map_cong)
next
  case (JBool b)
  then show ?case using lex_words(2,3) [of r] by (simp cong: option.map_cong)
next
  case (JNum n)
  then show ?case by (simp add: lex_number cong: option.map_cong)
next
  case (JStr s)
  then show ?case by (simp add: lex_quoted cong: option.map_cong)
next
  case (JArr vs)
  have d: "delimited (CHR '']'' # r)" by (simp add: delimited_def)
  have "json_lex (js_join (CHR '','') (map JSON_stringify vs) @ CHR '']'' # r)
    = map_option ((@) (join_toks (map toks vs))) (json_lex (CHR '']'' # r))"
    using JArr.IH JArr.prems(1) by (intro lex_elements d) (auto simp: list_all_iff)
  then show ?case by (simp add: option.map_comp comp_def)
next
  case (JObj kvs)
  have d: "delimited (CHR 0x7D # r)" by (simp add: delimited_def)
  have ok: "\<forall>m \<in> set kvs. json_ok (snd m)" using JObj.prems(1) unfolding json_ok_obj by blast
  have "json_lex (js_join (CHR '','') (map (\<lambda>m. json_member (fst m, JSON_stringify (snd m))) kvs) @ CHR 0x7D # r)
    = map_option ((@) (join_toks (map (\<lambda>m. member_toks (fst m, toks (snd m))) kvs))) (json_lex (CHR 0x7D # r))"
  proof (rule lex_elements [OF _ d])
    fix m q
    assume "m \<in> set kvs" "delimited q"
    then have "json_lex (JSON_stringify (snd m) @ q) = map_option ((@) (toks (snd m))) (json_lex q)"
      using JObj.IH [of m "snd m" q] ok by simp
    then show "json_lex (json_member (fst m, JSON_stringify (snd m)) @ q)
      = map_option ((@) (member_toks (fst m, toks (snd m)))) (json_lex q)"
      by (cases "json_lex q") (simp_all add: json_member_def member_toks_def lex_quoted)
  qed
  then show ?case by (simp add: option.map_comp comp_def map_prod_def split_beta)
qed

lemma JSON_roundtrip:
  assumes "json_ok v"
  shows "JSON_parse (JSON_stringify v) = Some v"
proof -
  have "json_lex (JSON_stringify v @ []) = map_option ((@) (toks v)) (json_lex [])"
    by (rule lex_written [OF assms]) (simp add: delimited_def)
  moreover have "json_lex [] = Some []" by (subst json_lex.simps) simp
  ultimately show ?thesis
    using run_toks [OF assms, of "[]" "[]"] by (simp add: JSON_parse_def)
qed

text \<open>Whatever is read is a value of the model.\<close>

definition tok_ok :: "jtoken \<Rightarrow> bool" where
  "tok_ok t \<longleftrightarrow> (case t of TAtom v \<Rightarrow> json_ok v | _ \<Rightarrow> True)"

lemma scan_number_ok: "scan_number s = Some (n, r) \<Longrightarrow> \<bar>n\<bar> < 2 ^ 53"
  by (auto simp: scan_number_def Let_def not_le split: option.splits if_splits)

lemma lex_ok: "json_lex s = Some ts \<Longrightarrow> \<forall>t \<in> set ts. tok_ok t"
proof (induction s arbitrary: ts rule: length_induct)
  case (1 s)
  have IH: "json_lex u = Some us \<Longrightarrow> length u < length s \<Longrightarrow> \<forall>t \<in> set us. tok_ok t" for u us
    using 1 by blast
  have punct_ok: "punct c = Some t \<Longrightarrow> tok_ok t" for c t
    by (auto simp: punct_def tok_ok_def split: if_splits)
  show ?case
  proof (cases s)
    case Nil
    then show ?thesis using 1(2) by (subst (asm) json_lex.simps) simp
  next
    case (Cons c cs)
    have sub: "length (drop k s) < length s" if "0 < k" for k using that Cons by simp
    note shorter = scan_string_shorter [of cs] scan_number_shorter [of s]
    consider (white) "json_white c" | (mark) t where "\<not> json_white c" "punct c = Some t"
      | (str) "\<not> json_white c" "punct c = None" "c = CHR 0x22"
      | (atom) "\<not> json_white c" "punct c = None" "c \<noteq> CHR 0x22" by fastforce
    then show ?thesis
    proof cases
      case white
      then have "json_lex cs = Some ts" using 1(2) unfolding Cons by (subst (asm) json_lex.simps) simp
      then show ?thesis using IH [of cs ts] Cons by simp
    next
      case mark
      then obtain us where "json_lex cs = Some us" "ts = t # us"
        using 1(2) unfolding Cons by (subst (asm) json_lex.simps) auto
      then show ?thesis using IH [of cs us] Cons punct_ok [OF mark(2)] by simp
    next
      case str
      then obtain t q us where "scan_string cs = Some (t, q)" "json_lex q = Some us" "ts = TStr t # us"
        using 1(2) unfolding Cons by (subst (asm) json_lex.simps) (auto split: option.splits)
      then show ?thesis using IH [of q us] Cons shorter(1) [of t q] by (simp add: tok_ok_def)
    next
      case atom
      from 1(2) obtain v q us where "json_lex q = Some us" "ts = TAtom v # us" "json_ok v" "length q < length s"
        unfolding Cons lex_atom [OF atom] using sub [unfolded Cons] scan_number_ok shorter(2) [unfolded Cons]
        by (fastforce split: if_splits option.splits)
      then show ?thesis using IH [of q us] by (simp add: tok_ok_def)
    qed
  qed
qed

fun frame_ok :: "jframe \<Rightarrow> bool" where
  "frame_ok (FArr vs) = (\<forall>v \<in> set vs. json_ok v)"
| "frame_ok (FObj kvs k) = json_ok (JObj kvs)"

fun mode_ok :: "jmode \<Rightarrow> bool" where
  "mode_ok (WantKey kvs) = json_ok (JObj kvs)"
| "mode_ok (WantColon kvs k) = json_ok (JObj kvs)"
| "mode_ok (After v) = json_ok v"
| "mode_ok WantValue = True"
| "mode_ok WantElem = True"
| "mode_ok WantMember = True"

lemma json_ok_set: "json_ok (JObj kvs) \<Longrightarrow> json_ok v \<Longrightarrow> json_ok (JObj (js_set k v kvs))"
  unfolding json_ok_obj using js_set_order [of kvs k v] set_js_set [of k v kvs] by fastforce

lemma step_ok:
  assumes "json_step m st t = Some (m', st')" and "mode_ok m" and "\<forall>f \<in> set st. frame_ok f" and "tok_ok t"
  shows "mode_ok m' \<and> (\<forall>f \<in> set st'. frame_ok f)"
proof -
  have empty: "json_ok (JObj [])" by (simp add: key_order_def)
  show ?thesis
    using assms empty
    by (auto simp: json_step_def start_value_def start_key_def finish_value_def
        tok_ok_def list_all_iff simp del: json_ok.simps(6) intro: json_ok_set
        split: jmode.splits jtoken.splits if_splits list.splits jframe.splits)
qed

lemma run_ok:
  "json_run m st ts = Some v \<Longrightarrow> mode_ok m \<Longrightarrow> \<forall>f \<in> set st. frame_ok f \<Longrightarrow> \<forall>t \<in> set ts. tok_ok t
    \<Longrightarrow> json_ok v"
proof (induction m st ts rule: json_run.induct)
  case (1 m st)
  then show ?case by (auto split: jmode.splits list.splits)
next
  case (2 m st t ts)
  from 2(2) obtain m' st' where s: "json_step m st t = Some (m', st')" "json_run m' st' ts = Some v"
    by (auto split: option.splits)
  from step_ok [OF s(1) 2(3,4)] 2(5) have "mode_ok m'" "\<forall>f \<in> set st'. frame_ok f" by auto
  with 2(1) [OF s(1) _ s(2)] 2(5) show ?case by simp
qed

lemma JSON_parse_ok: "JSON_parse s = Some v \<Longrightarrow> json_ok v"
proof -
  assume "JSON_parse s = Some v"
  then obtain ts where "json_lex s = Some ts" "json_run WantValue [] ts = Some v"
    by (auto simp: JSON_parse_def bind_eq_Some_conv)
  then show "json_ok v" using lex_ok [of s ts] run_ok [of WantValue "[]" ts v] by simp
qed

section \<open>Encoded and decoded\<close>

definition latin_enc :: "nat \<Rightarrow> nat list" where
  "latin_enc n = (if n < 128 then [n] else [192 + n div 64, 128 + n mod 64])"

lemma points_latin:
  "\<forall>n \<in> set ns. n < 256 \<Longrightarrow> utf8_points (concat (map latin_enc ns)) = ns"
proof (induction ns)
  case Nil
  then show ?case by simp
next
  case (Cons n ns)
  have "n div 64 * 64 + n mod 64 = n" by simp
  moreover have "\<not> n < 128 \<Longrightarrow> 2 \<le> n div 64 \<and> n div 64 \<le> 3" using Cons.prems by auto
  ultimately show ?case using Cons by (auto simp: latin_enc_def between_def)
qed

text \<open>An ill-formed sequence and a longer one both leave a code point above 255.\<close>

lemma three_big:
  assumes "between 224 239 a" and "second3 a b"
  shows "256 \<le> (a - 224) * 4096 + (b - 128) * 64 + c"
proof (cases "a = 224")
  case True
  then have "160 \<le> b" using assms(2) by (simp add: second3_def between_def)
  then have "32 \<le> b - 128" by linarith
  then show ?thesis by linarith
next
  case False
  then have "1 \<le> a - 224" using assms(1) unfolding between_def by linarith
  then have "1 * 4096 \<le> (a - 224) * 4096" by (rule mult_le_mono1)
  then show ?thesis by linarith
qed

lemma four_big:
  assumes "between 240 244 a" and "second4 a b"
  shows "256 \<le> (a - 240) * 262144 + (b - 128) * 4096 + c"
proof (cases "a = 240")
  case True
  then have "144 \<le> b" using assms(2) by (simp add: second4_def between_def)
  then have "16 \<le> b - 128" by linarith
  then show ?thesis by linarith
next
  case False
  then have "1 \<le> a - 240" using assms(1) unfolding between_def by linarith
  then have "1 * 262144 \<le> (a - 240) * 262144" by (rule mult_le_mono1)
  then show ?thesis by linarith
qed

lemma points_big:
  assumes "\<not> a < 128" and "\<not> between 194 223 a"
  shows "\<exists>n r'. utf8_points (a # r) = n # r' \<and> 256 \<le> n"
proof -
  consider (three) "between 224 239 a" | (four) "\<not> between 224 239 a" "between 240 244 a"
    | (bad) "\<not> between 224 239 a" "\<not> between 240 244 a" by blast
  then show ?thesis
  proof cases
    case three
    then show ?thesis using assms three_big [OF three]
      by (simp split: list.split)
  next
    case four
    then show ?thesis using assms four_big [OF four(2), unfolded add.assoc]
      by (simp add: add.assoc split: list.split)
  next
    case bad
    then show ?thesis using assms by simp
  qed
qed

lemma latin_points:
  "\<forall>n \<in> set (utf8_points bs). n < 256 \<Longrightarrow> concat (map latin_enc (utf8_points bs)) = bs"
proof (induction bs rule: length_induct)
  case (1 bs)
  show ?case
  proof (cases bs)
    case Nil
    then show ?thesis by simp
  next
    case (Cons a r)
    consider (ascii) "a < 128" | (two) "\<not> a < 128" "between 194 223 a"
      | (big) "\<not> a < 128" "\<not> between 194 223 a" by blast
    then show ?thesis
    proof cases
      case ascii
      then show ?thesis using 1 Cons by (simp add: latin_enc_def)
    next
      case two
      then obtain b r' where b: "r = b # r'" "between 128 191 b"
        using 1(2) Cons by (auto split: list.splits if_splits)
      let ?n = "(a - 192) * 64 + (b - 128)"
      have pts: "utf8_points bs = ?n # utf8_points r'" using Cons b two by simp
      obtain x y where ab: "a = 192 + x" "2 \<le> x" "b = 128 + y" "y < 64"
        using two b unfolding between_def
        by (elim conjE) (rule that [of "a - 192" "b - 128"]; linarith)
      then have "latin_enc ?n = [a, b]" by (simp add: latin_enc_def)
      moreover have "concat (map latin_enc (utf8_points r')) = r'" using 1 pts Cons b by simp
      ultimately show ?thesis unfolding pts unfolding Cons b(1) by simp
    next
      case big
      from points_big [OF this, of r] obtain n q where "utf8_points (a # r) = n # q" "256 \<le> n" by blast
      then show ?thesis using 1(2) Cons by simp
    qed
  qed
qed

lemma char_range: "of_char c < (256 :: nat)" "of_char c div 64 < (4 :: nat)" "of_char c mod 64 < (64 :: nat)"
  using byte_of_char_bound [of c] by (simp_all add: less_mult_imp_div_less del: byte_of_char_bound)

lemma byte_nat: "k < 256 \<Longrightarrow> unat (of_nat k :: byte) = k"
  by (simp add: unat_of_nat)

lemma utf8_nats: "map unat (utf8 s) = concat (map latin_enc (map of_char s))"
proof (induction s)
  case Nil
  then show ?case by (simp add: utf8_def)
next
  case (Cons c s)
  have "192 + of_char c div 64 < (256 :: nat)" "128 + of_char c mod 64 < (256 :: nat)"
    using char_range [of c] by linarith+
  then have "map unat (utf8_char c) = latin_enc (of_char c)"
    using char_range(1) [of c]
    by (auto simp: utf8_char_def latin_enc_def Let_def byte_nat simp del: of_nat_add)
  then show ?case using Cons by (simp add: utf8_def)
qed

lemma no_byte_order_mark: "take 3 (utf8 s) \<noteq> [0xEF, 0xBB, 0xBF]"
proof
  assume m: "take 3 (utf8 s) = [0xEF, 0xBB, 0xBF]"
  then obtain c t where s: "s = c # t" by (cases s) (auto simp: utf8_def)
  from m have "map unat (take 3 (utf8 s)) = [239, 187, 191]" by simp
  then have "take 3 (map unat (utf8 s)) = [239, 187, 191]" by (simp add: take_map)
  then have "hd (latin_enc (of_char c)) = 239"
    unfolding utf8_nats by (auto simp: s latin_enc_def split: if_splits)
  moreover have "hd (latin_enc (of_char c)) < 239"
    using char_range [of c] by (auto simp: latin_enc_def)
  ultimately show False by simp
qed

lemma js_t_utf8: "js_t (utf8 s) = map of_char s"
  using points_latin [of "map of_char s"]
  by (simp add: js_t_def no_byte_order_mark utf8_nats)

lemma js_t_utf8_iff:
  assumes "js_t bs = js_t (utf8 s)"
  shows "bs = utf8 s \<or> bs = [0xEF, 0xBB, 0xBF] @ utf8 s"
proof -
  define u where "u = (if take 3 bs = [0xEF, 0xBB, 0xBF] then drop 3 bs else bs)"
  have u: "utf8_points (map unat u) = map of_char s"
    using assms by (simp add: js_t_utf8) (simp add: js_t_def u_def)
  then have "map unat u = concat (map latin_enc (map of_char s))"
    using latin_points [of "map unat u"] by auto
  then have "map unat u = map unat (utf8 s)" by (simp only: utf8_nats)
  then have "u = utf8 s" by (rule map_injective) (auto simp: inj_def word_unat_eq_iff)
  then show ?thesis
    using append_take_drop_id [of 3 bs] unfolding u_def by (cases "take 3 bs = [0xEF, 0xBB, 0xBF]") metis+
qed

lemma utf8_inj: "utf8 s = utf8 t \<Longrightarrow> s = t"
proof -
  assume "utf8 s = utf8 t"
  then have "map (of_char :: char \<Rightarrow> nat) s = map of_char t" by (metis js_t_utf8)
  then show "s = t" by (rule map_injective) (simp add: inj_def)
qed

lemma parse_bytes_written: "json_ok v \<Longrightarrow> parse_bytes (utf8 (JSON_stringify v)) = Some v"
  by (simp add: parse_bytes_def latin_text_def js_t_utf8 list_all_iff comp_def JSON_roundtrip)

lemma stringify_inj: "json_ok v \<Longrightarrow> json_ok w \<Longrightarrow> JSON_stringify v = JSON_stringify w \<Longrightarrow> v = w"
  by (metis JSON_roundtrip option.inject)

end
