(* ===== verification/Smell.thy ===== *)
theory Smell
  imports Counter
begin

text \<open>
  The version string at the head of a message body
  (\<^verbatim>\<open>cesr/src/serder/smell.ts\<close>): \<open>versify\<close> writes it from protocol,
  versions, kind and size, \<open>smell\<close> finds the first one in the head of a stream and reads
  it back. The regular expressions are predicates on the text at an offset, and
  \<open>RegExp.exec\<close> is the search for the leftmost offset where one holds. The lemmas show
  that a written version string is the first one found and gives back what it was made from.
\<close>

section \<open>Definitions\<close>

record smellage =
  sm_proto :: string
  sm_pvrsn :: versionage
  sm_gvrsn :: "versionage option"
  sm_kind :: string
  sm_size :: nat

definition MAXVSOFFSET :: nat where
  "MAXVSOFFSET = 12"

definition is_upper :: "char \<Rightarrow> bool" where
  "is_upper c \<longleftrightarrow> c \<in> set ''ABCDEFGHIJKLMNOPQRSTUVWXYZ''"

definition VER1 :: "string \<Rightarrow> bool" where
  "VER1 s \<longleftrightarrow> 17 \<le> length s \<and> list_all is_upper (slice 0 4 s)
     \<and> list_all (\<lambda>c. c \<in> set digit_chars) (slice 4 6 s) \<and> list_all is_upper (slice 6 10 s)
     \<and> list_all (\<lambda>c. c \<in> set digit_chars) (slice 10 16 s) \<and> s ! 16 = CHR ''_''"

definition VER2 :: "string \<Rightarrow> bool" where
  "VER2 s \<longleftrightarrow> 19 \<le> length s \<and> list_all is_upper (slice 0 4 s) \<and> is_b64 (slice 4 10 s)
     \<and> list_all is_upper (slice 10 14 s) \<and> is_b64 (slice 14 18 s) \<and> s ! 18 = CHR ''.''"

text \<open>\<open>regex.exec(text).index\<close>: the leftmost offset at which the expression matches.\<close>

fun exec_index :: "(string \<Rightarrow> bool) \<Rightarrow> string \<Rightarrow> nat option" where
  "exec_index p [] = (if p [] then Some 0 else None)"
| "exec_index p (c # s) = (if p (c # s) then Some 0 else map_option Suc (exec_index p s))"

definition versify :: "string \<Rightarrow> versionage \<Rightarrow> versionage option \<Rightarrow> string \<Rightarrow> nat \<Rightarrow> string res" where
  "versify proto pvrsn gvrsn kind n =
     (if vn_major pvrsn = 1 then
        Inr (proto @ hex_str (vn_major pvrsn) @ hex_str (vn_minor pvrsn) @ kind
             @ padStart 6 (CHR ''0'') (hex_str n) @ ''_'')
      else
        let genv = (case gvrsn of Some g \<Rightarrow> g | None \<Rightarrow> \<lparr>vn_major = 0, vn_minor = 0\<rparr>)
        in bind_res (intToB64 (int (vn_major pvrsn)) 1) (\<lambda>pmajor.
           bind_res (intToB64 (int (vn_minor pvrsn)) 2) (\<lambda>pminor.
           bind_res (intToB64 (int (vn_major genv)) 1) (\<lambda>gmajor.
           bind_res (intToB64 (int (vn_minor genv)) 2) (\<lambda>gminor.
           bind_res (intToB64 (int n) 4) (\<lambda>sz.
             Inr (proto @ pmajor @ pminor @ gmajor @ gminor @ kind @ sz @ ''.'')))))))"

text \<open>The groups of a match, read at its offset. \<open>parseInt(t, 16)\<close> of a hexadecimal
  group never fails there.\<close>

definition hex_group :: "string \<Rightarrow> nat res" where
  "hex_group s = of_opt JsError (read_radix 16 s)"

definition ver2_groups :: "string \<Rightarrow> smellage res" where
  "ver2_groups s =
     bind_res (b64ToInt (slice 4 5 s)) (\<lambda>pmajor.
     bind_res (b64ToInt (slice 5 7 s)) (\<lambda>pminor.
     bind_res (b64ToInt (slice 7 8 s)) (\<lambda>gmajor.
     bind_res (b64ToInt (slice 8 10 s)) (\<lambda>gminor.
     bind_res (b64ToInt (slice 14 18 s)) (\<lambda>n.
       Inr \<lparr>sm_proto = slice 0 4 s, sm_pvrsn = \<lparr>vn_major = pmajor, vn_minor = pminor\<rparr>,
            sm_gvrsn = Some \<lparr>vn_major = gmajor, vn_minor = gminor\<rparr>,
            sm_kind = slice 10 14 s, sm_size = n\<rparr>)))))"

definition ver1_groups :: "string \<Rightarrow> smellage res" where
  "ver1_groups s =
     bind_res (hex_group (slice 4 5 s)) (\<lambda>major.
     bind_res (hex_group (slice 5 6 s)) (\<lambda>minor.
     bind_res (hex_group (slice 10 16 s)) (\<lambda>n.
       Inr \<lparr>sm_proto = slice 0 4 s, sm_pvrsn = \<lparr>vn_major = major, vn_minor = minor\<rparr>,
            sm_gvrsn = None, sm_kind = slice 6 10 s, sm_size = n\<rparr>)))"

text \<open>A match that begins too late is no match, and the older form is only looked for when
  the newer one is not found. The value is the smellage, the offset and the length of the
  match.\<close>

definition near :: "nat option \<Rightarrow> nat option" where
  "near m = (case m of Some i \<Rightarrow> if i \<le> MAXVSOFFSET then Some i else None | None \<Rightarrow> None)"

definition smell :: "byte list \<Rightarrow> (smellage \<times> nat \<times> nat) res" where
  "smell raw =
     (let s = text_of (take 256 raw)
      in case near (exec_index VER2 s) of
           Some i \<Rightarrow> bind_res (ver2_groups (drop i s)) (\<lambda>sm. Inr (sm, i, 19))
         | None \<Rightarrow>
             (case near (exec_index VER1 s) of
                Some i \<Rightarrow> bind_res (ver1_groups (drop i s)) (\<lambda>sm. Inr (sm, i, 17))
              | None \<Rightarrow>
                  if length raw < 64 then Inl (ShortageError 64 (length raw))
                  else Inl VersionError))"

definition parseVersionString :: "string \<Rightarrow> smellage res" where
  "parseVersionString vs = bind_res (smell (utf8 vs)) (\<lambda>(sm, start, len). Inr sm)"

section \<open>Searching\<close>

lemma exec_index_Some:
  "exec_index p s = Some i \<Longrightarrow> i \<le> length s \<and> p (drop i s) \<and> (\<forall>j < i. \<not> p (drop j s))"
proof (induction p s arbitrary: i rule: exec_index.induct)
  case (1 p)
  then show ?case by (simp split: if_splits)
next
  case (2 p c s)
  show ?case
  proof (cases "p (c # s)")
    case True
    with 2(2) show ?thesis by simp
  next
    case False
    with 2(2) obtain k where k: "exec_index p s = Some k" "i = Suc k" by auto
    have "\<not> p (drop j (c # s))" if "j < i" for j
      using that False k 2(1) [OF False k(1)] by (cases j) auto
    with k 2(1) [OF False k(1)] show ?thesis by auto
  qed
qed

lemma exec_index_at:
  assumes "p (drop i s)" and "\<forall>j < i. \<not> p (drop j s)" and "i \<le> length s"
  shows "exec_index p s = Some i"
  using assms
proof (induction p s arbitrary: i rule: exec_index.induct)
  case (1 p)
  then show ?case by simp
next
  case (2 p c s)
  show ?case
  proof (cases i)
    case 0
    with 2(2) show ?thesis by simp
  next
    case (Suc k)
    have "\<not> p (c # s)" using 2(3) Suc by force
    moreover have "\<forall>j < k. \<not> p (drop j s)"
    proof (intro allI impI)
      fix j
      assume "j < k"
      then have "\<not> p (drop (Suc j) (c # s))" using 2(3) Suc by blast
      then show "\<not> p (drop j s)" by simp
    qed
    ultimately show ?thesis using 2 Suc by simp
  qed
qed

lemma near_Some_iff: "near m = Some i \<longleftrightarrow> m = Some i \<and> i \<le> 12"
  by (auto simp: near_def MAXVSOFFSET_def split: option.splits)

lemma near_None:
  assumes "\<And>i. i \<le> 12 \<Longrightarrow> \<not> p (drop i s)"
  shows "near (exec_index p s) = None"
  using assms exec_index_Some [of p s] by (cases "near (exec_index p s)") (auto simp: near_Some_iff)

text \<open>A character inside a window that must be upper case.\<close>

lemma upper_window:
  assumes "list_all is_upper (slice a b (drop i s))" and "a + i \<le> k" and "k < b + i" and "k < length s"
  shows "is_upper (s ! k)"
proof -
  have "k - (a + i) < length (slice a b (drop i s))" using assms(2-4) by auto
  moreover have "slice a b (drop i s) ! (k - (a + i)) = s ! k"
    using assms(2-4) by (simp add: slice_def add.commute)
  ultimately show ?thesis using assms(1) by (metis list_all_length)
qed

lemma hex_not_upper: "c \<in> set digit_chars \<Longrightarrow> \<not> is_upper c"
proof -
  have "list_all (\<lambda>c. \<not> is_upper c) digit_chars" by code_simp
  then show "c \<in> set digit_chars \<Longrightarrow> \<not> is_upper c" by (simp add: list_all_iff)
qed

lemma upper_b64: "is_upper c \<Longrightarrow> c \<in> set B64_ALPHABET"
proof -
  have "list_all (\<lambda>c. c \<in> set B64_ALPHABET) ''ABCDEFGHIJKLMNOPQRSTUVWXYZ''" by code_simp
  then show "is_upper c \<Longrightarrow> c \<in> set B64_ALPHABET" unfolding is_upper_def list_all_iff by blast
qed

lemma hex_b64: "c \<in> set digit_chars \<Longrightarrow> c \<in> set B64_ALPHABET"
proof -
  have "list_all (\<lambda>c. c \<in> set B64_ALPHABET) digit_chars" by code_simp
  then show "c \<in> set digit_chars \<Longrightarrow> c \<in> set B64_ALPHABET" by (simp add: list_all_iff)
qed

section \<open>What is written\<close>

lemma set_hex_str: "set (hex_str n) \<subseteq> set digit_chars"
proof -
  have "d < length digit_chars" if "d \<in> set (digits 16 n)" for d
    using digits_bound [OF _ that] by (simp add: digit_chars_def)
  then show ?thesis by (auto simp: hex_str_def show_radix_def)
qed

lemma length_hex_str: "n < 16 ^ k \<Longrightarrow> 0 < k \<Longrightarrow> length (hex_str n) \<le> k"
  using digits_length_le [of 16 n k] by (simp add: hex_str_def show_radix_def)

lemma hex_digit: "n < 16 \<Longrightarrow> \<exists>c. hex_str n = [c] \<and> c \<in> set digit_chars"
  using length_hex_str [of n 1] hex_str_nonempty [of n] set_hex_str [of n]
  by (cases "hex_str n") auto

lemma read_zeros: "read_radix 16 s = Some n \<Longrightarrow> read_radix 16 (replicate k (CHR ''0'') @ s) = Some n"
proof -
  assume r: "read_radix 16 s = Some n"
  have z: "digit_val (CHR ''0'') = Some 0" by code_simp
  have "map the (map digit_val (replicate k (CHR ''0'') @ s)) = replicate k 0 @ map the (map digit_val s)"
    by (simp add: z)
  then show ?thesis
    using r z by (auto simp: read_radix_def Let_def radix_simps split: if_splits simp del: map_map)
qed

lemma hex_padded: "hex_group (padStart k (CHR ''0'') (hex_str n)) = Inr n"
  by (simp add: hex_group_def padStart_def read_zeros)

lemma ascii_text:
  assumes "\<forall>c \<in> set s. of_char c < (128 :: nat)"
  shows "utf8 s = map byte_of_char s" and "text_of (utf8 s) = s" and "length (utf8 s) = length s"
proof -
  show u: "utf8 s = map byte_of_char s"
    using assms by (induction s) (auto simp: utf8_def utf8_char_def byte_of_char_def Let_def)
  show "text_of (utf8 s) = s" "length (utf8 s) = length s"
    by (simp_all add: u text_of_def comp_def)
qed

lemma upper_ascii: "is_upper c \<Longrightarrow> of_char c < (128 :: nat)"
  using upper_b64 alphabet_ascii by blast

lemma list_all_b64: "is_b64 s \<longleftrightarrow> list_all (\<lambda>c. c \<in> set B64_ALPHABET) s"
  by (auto simp: is_b64_def list_all_iff)

text \<open>The two forms, character by character.\<close>

lemma slice_parts:
  "length xs = a \<Longrightarrow> slice a (a + length ys) (xs @ ys @ zs) = ys"
  by (simp add: slice_def)

lemma ver1_text:
  assumes "list_all is_upper p" "length p = 4" "M \<in> set digit_chars" "m \<in> set digit_chars"
    "list_all is_upper k" "length k = 4" "set z \<subseteq> set digit_chars" "length z = 6"
    and s: "s = p @ [M, m] @ k @ z @ ''_'' @ rest"
  shows "VER1 s" and "slice 0 4 s = p" and "slice 4 5 s = [M]" and "slice 5 6 s = [m]"
    and "slice 6 10 s = k" and "slice 10 16 s = z"
proof -
  show g: "slice 0 4 s = p" "slice 4 5 s = [M]" "slice 5 6 s = [m]" "slice 6 10 s = k" "slice 10 16 s = z"
    using assms by (simp_all add: slice_def)
  have "slice 4 6 s = [M, m]" "s ! 16 = CHR ''_''" "17 \<le> length s"
    using assms by (simp_all add: slice_def nth_append numeral_eq_Suc)
  with g assms show "VER1 s" by (auto simp: VER1_def list_all_iff)
qed

lemma ver2_text:
  assumes "list_all is_upper p" "length p = 4" "is_b64 a" "length a = 1" "is_b64 b" "length b = 2"
    "is_b64 c" "length c = 1" "is_b64 d" "length d = 2"
    "list_all is_upper k" "length k = 4" "is_b64 z" "length z = 4"
    and s: "s = p @ a @ b @ c @ d @ k @ z @ ''.'' @ rest"
  shows "VER2 s" and "slice 0 4 s = p" and "slice 4 5 s = a" and "slice 5 7 s = b"
    and "slice 7 8 s = c" and "slice 8 10 s = d" and "slice 10 14 s = k" and "slice 14 18 s = z"
proof -
  show g: "slice 0 4 s = p" "slice 4 5 s = a" "slice 5 7 s = b" "slice 7 8 s = c"
    "slice 8 10 s = d" "slice 10 14 s = k" "slice 14 18 s = z"
    using assms by (simp_all add: slice_def)
  have "slice 4 10 s = a @ b @ c @ d" "s ! 18 = CHR ''.''" "19 \<le> length s"
    using assms by (simp_all add: slice_def nth_append)
  with g assms show "VER2 s" by (auto simp: VER2_def)
qed

lemma no_match_before:
  assumes "list_all (\<lambda>c. \<not> is_upper c) pre" and "i < length pre"
  shows "\<not> VER1 (drop i (pre @ t))" and "\<not> VER2 (drop i (pre @ t))"
proof -
  have no: "\<not> is_upper ((pre @ t) ! i)" using assms by (simp add: list_all_length nth_append)
  have len: "i < length (pre @ t)" using assms by simp
  show "\<not> VER1 (drop i (pre @ t))" "\<not> VER2 (drop i (pre @ t))"
    using no upper_window [of 0 4 i "pre @ t" i] len by (auto simp: VER1_def VER2_def)
qed

text \<open>The older form is never taken for the newer one: its version and size digits are no
  upper case letters, and a protocol or kind of the newer form would cover one of them.\<close>

lemma ver1_not_ver2:
  assumes "list_all (\<lambda>c. \<not> is_upper c) pre"
    and "length p = 4" "M \<in> set digit_chars" "m \<in> set digit_chars" "length k = 4"
    "set z \<subseteq> set digit_chars" "length z = 6" and "i \<le> 12"
    and s: "s = pre @ p @ [M, m] @ k @ z @ ''_'' @ rest"
  shows "\<not> VER2 (drop i s)"
proof
  assume v: "VER2 (drop i s)"
  let ?n = "length pre"
  have long: "?n + 17 \<le> length s" using assms by simp
  have at: "s ! (?n + q) = (p @ [M, m] @ k @ z @ ''_'' @ rest) ! q" for q
    by (simp add: s nth_append)
  have zq: "\<not> is_upper (z ! q)" if "q < 6" for q
  proof -
    have "z ! q \<in> set z" using that assms(7) by simp
    then show ?thesis using assms(6) hex_not_upper by blast
  qed
  have low: "\<not> is_upper (s ! (?n + 4))" "\<not> is_upper (s ! (?n + 5))" "\<not> is_upper (s ! (?n + 16))"
    "\<not> is_upper (s ! (?n + 10))" "\<not> is_upper (s ! (?n + 11))" "\<not> is_upper (s ! (?n + 12))"
    using assms(2-7) zq [of 0] zq [of 1] zq [of 2] hex_not_upper
    by (simp_all add: at nth_append is_upper_def)
  have w: "is_upper (s ! q)" if "i \<le> q \<and> q < i + 4 \<or> i + 10 \<le> q \<and> q < i + 14" "q < length s" for q
    using that v upper_window [of 0 4 i s q] upper_window [of 10 14 i s q]
    by (auto simp: VER2_def add.commute)
  show False
  proof (cases "i < ?n")
    case True
    then show False using no_match_before(2) [OF assms(1) True] v s by blast
  next
    case False
    define j where "j = i - ?n"
    have i: "i = ?n + j" "j \<le> 12" using False assms(8) by (simp_all add: j_def)
    from i(2) consider "j = 0" | "1 \<le> j" "j \<le> 4" | "j = 5" | "j = 6" | "7 \<le> j" "j \<le> 10"
      | "j = 11" | "j = 12" by linarith
    then show False
    proof cases
      case 1 then show False using w [of "?n + 10"] low i long by simp
    next
      case 2 then show False using w [of "?n + 4"] low i long by simp
    next
      case 3 then show False using w [of "?n + 5"] low i long by simp
    next
      case 4 then show False using w [of "?n + 16"] low i long by simp
    next
      case 5 then show False using w [of "?n + 10"] low i long by simp
    next
      case 6 then show False using w [of "?n + 11"] low i long by simp
    next
      case 7 then show False using w [of "?n + 12"] low i long by simp
    qed
  qed
qed

section \<open>Written and found\<close>

definition version_fits :: "string \<Rightarrow> versionage \<Rightarrow> string \<Rightarrow> nat \<Rightarrow> bool" where
  "version_fits proto pvrsn kind n \<longleftrightarrow>
     length proto = 4 \<and> list_all is_upper proto \<and> length kind = 4 \<and> list_all is_upper kind
     \<and> (vn_major pvrsn = 1 \<longrightarrow> vn_minor pvrsn < 16 \<and> n < 16 ^ 6)"

definition genus_of :: "versionage \<Rightarrow> versionage option \<Rightarrow> versionage option" where
  "genus_of pvrsn gvrsn =
     (if vn_major pvrsn = 1 then None
      else Some (case gvrsn of Some g \<Rightarrow> g | None \<Rightarrow> \<lparr>vn_major = 0, vn_minor = 0\<rparr>))"

lemma versify_Inr:
  assumes "versify proto pvrsn gvrsn kind n = Inr vs" and "version_fits proto pvrsn kind n"
  obtains (one) M m z where "vn_major pvrsn = 1" "M \<in> set digit_chars" "m \<in> set digit_chars"
      "hex_group [M] = Inr 1" "hex_group [m] = Inr (vn_minor pvrsn)" "set z \<subseteq> set digit_chars"
      "length z = 6" "hex_group z = Inr n" "vs = proto @ [M, m] @ kind @ z @ ''_''"
  | (two) a b c d z g where "vn_major pvrsn \<noteq> 1" "genus_of pvrsn gvrsn = Some g"
      "is_b64 a" "length a = 1" "b64ToInt a = Inr (vn_major pvrsn)"
      "is_b64 b" "length b = 2" "b64ToInt b = Inr (vn_minor pvrsn)"
      "is_b64 c" "length c = 1" "b64ToInt c = Inr (vn_major g)"
      "is_b64 d" "length d = 2" "b64ToInt d = Inr (vn_minor g)"
      "is_b64 z" "length z = 4" "b64ToInt z = Inr n"
      "vs = proto @ a @ b @ c @ d @ kind @ z @ ''.''"
proof (cases "vn_major pvrsn = 1")
  case True
  obtain M where M: "hex_str 1 = [M]" "M \<in> set digit_chars" using hex_digit [of 1] by auto
  obtain m where m: "hex_str (vn_minor pvrsn) = [m]" "m \<in> set digit_chars"
    using hex_digit [of "vn_minor pvrsn"] assms(2) True by (auto simp: version_fits_def)
  let ?z = "padStart 6 (CHR ''0'') (hex_str n)"
  have "length (hex_str n) \<le> 6"
    using length_hex_str [of n 6] assms(2) True by (simp add: version_fits_def)
  then have "length ?z = 6" by simp
  moreover have "set ?z \<subseteq> set digit_chars"
    using set_hex_str [of n] by (auto simp: padStart_def digit_chars_def)
  moreover have "hex_group [M] = Inr 1" "hex_group [m] = Inr (vn_minor pvrsn)"
    using M m read_hex_str by (metis hex_group_def of_opt_Some)+
  ultimately show thesis
    using one [of M m ?z] assms(1) True M m hex_padded [of 6 n] by (simp add: versify_def)
next
  case False
  obtain g where g: "genus_of pvrsn gvrsn = Some g" using False by (simp add: genus_of_def)
  then have g': "(case gvrsn of Some g \<Rightarrow> g | None \<Rightarrow> \<lparr>vn_major = 0, vn_minor = 0\<rparr>) = g"
    using False by (simp add: genus_of_def)
  from assms(1) False obtain a b c d z where
    e: "intToB64 (int (vn_major pvrsn)) 1 = Inr a" "intToB64 (int (vn_minor pvrsn)) 2 = Inr b"
      "intToB64 (int (vn_major g)) 1 = Inr c" "intToB64 (int (vn_minor g)) 2 = Inr d"
      "intToB64 (int n) 4 = Inr z" and vs: "vs = proto @ a @ b @ c @ d @ kind @ z @ ''.''"
    by (auto simp: versify_def g' res_simps)
  from e [THEN intToB64_Inr] vs False g show thesis by (intro two) auto
qed

lemma versify_ascii:
  assumes "versify proto pvrsn gvrsn kind n = Inr vs" and "version_fits proto pvrsn kind n"
  shows "\<forall>c \<in> set vs. of_char c < (128 :: nat)"
proof -
  have up: "\<forall>c \<in> set proto \<union> set kind. of_char c < (128 :: nat)"
    using assms(2) upper_ascii by (auto simp: version_fits_def list_all_iff)
  have hex: "of_char c < (128 :: nat)" if "c \<in> set digit_chars" for c
    using that hex_b64 alphabet_ascii by blast
  have b64: "\<forall>c \<in> set t. of_char c < (128 :: nat)" if "is_b64 t" for t
    using that alphabet_ascii by (auto simp: is_b64_def)
  from assms show ?thesis
    by (rule versify_Inr) (use up hex b64 in auto)
qed

lemma length_versify:
  assumes "versify proto pvrsn gvrsn kind n = Inr vs" and "version_fits proto pvrsn kind n"
  shows "length vs = (if vn_major pvrsn = 1 then 17 else 19)"
  using assms by (rule versify_Inr) (use assms(2) in \<open>auto simp: version_fits_def\<close>)

lemma smell_written:
  assumes vs: "versify proto pvrsn gvrsn kind n = Inr vs" and fits: "version_fits proto pvrsn kind n"
    and pre: "list_all (\<lambda>c. \<not> is_upper c) (text_of pre)" and short: "length pre \<le> 12"
  shows "smell (pre @ utf8 vs @ rest) =
    Inr (\<lparr>sm_proto = proto, sm_pvrsn = pvrsn, sm_gvrsn = genus_of pvrsn gvrsn,
          sm_kind = kind, sm_size = n\<rparr>, length pre, length vs)"
proof -
  have ascii: "text_of (utf8 vs) = vs" "length (utf8 vs) = length vs"
    using ascii_text versify_ascii [OF vs fits] by blast+
  have len: "length vs \<le> 19" using length_versify [OF vs fits] by simp
  obtain rest' where win: "text_of (take 256 (pre @ utf8 vs @ rest)) = text_of pre @ vs @ rest'"
    using short len ascii by (simp add: text_of_def flip: take_map)
  define s where "s = text_of pre @ vs @ rest'"
  note win = win [folded s_def]
  have up: "list_all is_upper proto" "length proto = 4" "list_all is_upper kind" "length kind = 4"
    using fits by (simp_all add: version_fits_def)
  have dr: "drop (length pre) s = vs @ rest'" and sl: "length pre \<le> length s" by (simp_all add: s_def)
  have nl: "length vs = (if vn_major pvrsn = 1 then 17 else 19)" using length_versify [OF vs fits] .
  from vs fits show ?thesis
  proof (cases rule: versify_Inr)
    case (one M m z)
    have s: "s = text_of pre @ proto @ [M, m] @ kind @ z @ ''_'' @ rest'" using one by (simp add: s_def)
    have v: "vs @ rest' = proto @ [M, m] @ kind @ z @ ''_'' @ rest'" using one by simp
    note t = ver1_text [OF up(1,2) one(2,3) up(3,4) one(6,7) v]
    have miss: "near (exec_index VER2 s) = None"
      using near_None [of VER2 s] ver1_not_ver2 [OF pre up(2) one(2,3) up(4) one(6,7) _ s] by blast
    have "exec_index VER1 s = Some (length pre)"
      using no_match_before(1) [OF pre] t(1) dr sl
      by (intro exec_index_at) (simp_all add: s_def)
    then have hit: "near (exec_index VER1 s) = Some (length pre)" using short by (simp add: near_Some_iff)
    have g: "ver1_groups (vs @ rest') = Inr \<lparr>sm_proto = proto, sm_pvrsn = pvrsn,
        sm_gvrsn = genus_of pvrsn gvrsn, sm_kind = kind, sm_size = n\<rparr>"
      using one(1,4,5,8) by (simp add: ver1_groups_def t(2-6) genus_of_def del: slice_0)
    show ?thesis unfolding smell_def Let_def win using one(1) nl by (simp add: miss hit dr g)
  next
    case (two a b c d z g)
    have v: "vs @ rest' = proto @ a @ b @ c @ d @ kind @ z @ ''.'' @ rest'" using two by simp
    note t = ver2_text [OF up(1,2) two(3,4,6,7,9,10,12,13) up(3,4) two(15,16) v]
    have "exec_index VER2 s = Some (length pre)"
      using no_match_before(2) [OF pre] t(1) dr sl
      by (intro exec_index_at) (simp_all add: s_def)
    then have hit: "near (exec_index VER2 s) = Some (length pre)" using short by (simp add: near_Some_iff)
    have g: "ver2_groups (vs @ rest') = Inr \<lparr>sm_proto = proto, sm_pvrsn = pvrsn,
        sm_gvrsn = genus_of pvrsn gvrsn, sm_kind = kind, sm_size = n\<rparr>"
      using two(2,5,8,11,14,17) by (simp add: ver2_groups_def t(2-8) del: slice_0)
    show ?thesis unfolding smell_def Let_def win using two(1) nl by (simp add: hit dr g)
  qed
qed

lemma parse_written:
  assumes "versify proto pvrsn gvrsn kind n = Inr vs" and "version_fits proto pvrsn kind n"
  shows "parseVersionString vs =
    Inr \<lparr>sm_proto = proto, sm_pvrsn = pvrsn, sm_gvrsn = genus_of pvrsn gvrsn,
         sm_kind = kind, sm_size = n\<rparr>"
  using smell_written [OF assms, of "[]" "[]"] by (simp add: parseVersionString_def text_of_def)

text \<open>What is found has the size the text claims, and the versions fit again.\<close>

lemma smell_Inr_length:
  assumes "smell raw = Inr (sm, i, n)"
  shows "i \<le> 12 \<and> (n = 17 \<or> n = 19) \<and> i + n \<le> length raw"
proof -
  let ?s = "text_of (take 256 raw)"
  have le: "length ?s \<le> length raw" by simp
  have fit: "i + 19 \<le> length ?s" if "near (exec_index VER2 ?s) = Some i" for i
    using that exec_index_Some [of VER2 ?s i] by (auto simp: near_Some_iff VER2_def)
  have fit1: "i + 17 \<le> length ?s" if "near (exec_index VER1 ?s) = Some i" for i
    using that exec_index_Some [of VER1 ?s i] by (auto simp: near_Some_iff VER1_def)
  show ?thesis
    using assms le fit fit1
    by (auto simp: smell_def Let_def res_simps near_Some_iff split: option.splits if_splits
        intro: order_trans)
qed

end
