(* ===== verification/Serders.thy ===== *)
theory Serders
  imports Saidify Serder
begin

text \<open>
  The serders of \<^verbatim>\<open>cesr/src/serder/serder.ts\<close>: construction from decoded parts,
  from raw bytes and from a semantic body, and verification, for the base class and for the KERI
  and ACDC subclasses. A constructed serder is the record of its fields; the field view of
  Serder is its prefix. An assignment \<open>sad[label] = value\<close> is \<open>js_set\<close>, and a
  body that is no object fails where its required fields are missing.
\<close>

section \<open>Classes\<close>

datatype serder_class = CSerder | CKeri | CAcdc

definition ctor_Protocol :: "serder_class \<Rightarrow> string option" where
  "ctor_Protocol cls =
     (case cls of CSerder \<Rightarrow> None | CKeri \<Rightarrow> Some ''KERI'' | CAcdc \<Rightarrow> Some ''ACDC'')"

definition ctor_Proto :: "serder_class \<Rightarrow> string" where
  "ctor_Proto cls = (case cls of CAcdc \<Rightarrow> ''ACDC'' | _ \<Rightarrow> ''KERI'')"

definition ctor_PVrsn :: versionage where "ctor_PVrsn = Vrsn_1_0"
definition ctor_GVrsn :: versionage where "ctor_GVrsn = Vrsn_2_0"
definition ctor_Kind :: string where "ctor_Kind = ''JSON''"

record wire = serder +
  wi_kind :: string
  wi_size :: nat
  wi_proto :: string
  wi_gvrsn :: "versionage option"

abbreviation wire_view :: "wire \<Rightarrow> serder" where
  "wire_view w \<equiv> serder.truncate w"

section \<open>From bytes\<close>

text \<open>\<open>sniff\<close> of \<^verbatim>\<open>cesr/src/parser/cold-start.ts\<close>: the first three bits of a stream
  tell what it starts with.\<close>

datatype cold_code = ColdMsg | ColdTxt | ColdBny | ColdAno

definition sniff :: "byte list \<Rightarrow> cold_code res" where
  "sniff ims =
     (case ims of
        [] \<Rightarrow> Inl (ShortageError 1 0)
      | w # _ \<Rightarrow>
          (let tritet = unat (drop_bit 5 w)
           in if tritet \<in> {3, 4, 5, 6} then Inr ColdMsg
              else if tritet \<in> {1, 2} then Inr ColdTxt
              else if tritet = 7 then Inr ColdBny
              else if tritet = 0 then Inr ColdAno
              else Inl ColdStartError))"

text \<open>A counted native body is taken apart by the parameter.\<close>

definition reapCesrNativeBody :: "wire_env \<Rightarrow> byte list \<Rightarrow> (smellage \<times> byte list) option res" where
  "reapCesrNativeBody we input =
     bind_res (sniff input) (\<lambda>cold. if cold \<in> {ColdTxt, ColdBny} then we_reap we input else Inr None)"

definition jstring :: "jvalue option \<Rightarrow> string option" where
  "jstring v = (case v of Some (JStr s) \<Rightarrow> Some s | _ \<Rightarrow> None)"

text \<open>A decoding failure of any kind is reported as \<open>DeserializeError\<close>; an unknown kind
  leaves no body.\<close>

definition parseRawToKed ::
  "wire_env \<Rightarrow> byte list \<Rightarrow> smellage \<Rightarrow> (jvalue option \<times> string option \<times> string option) res" where
  "parseRawToKed we raw sm =
     bind_res
       (if sm_kind sm = ''JSON'' then
          (case parse_bytes raw of Some v \<Rightarrow> Inr (Some v) | None \<Rightarrow> Inl DeserializeError)
        else if sm_kind sm \<in> {''MGPK'', ''CBOR'', ''CESR''} then
          (case we_load we (sm_kind sm) raw sm of Inr v \<Rightarrow> Inr (Some v) | Inl _ \<Rightarrow> Inl DeserializeError)
        else Inr None) (\<lambda>ked.
     Inr (ked, jstring (Option.bind ked (\<lambda>v. jfield v ''t'')),
               jstring (Option.bind ked (\<lambda>v. jfield v ''d''))))"

definition hydrated ::
  "byte list \<Rightarrow> smellage \<Rightarrow> jvalue option \<Rightarrow> string option \<Rightarrow> string option \<Rightarrow> wire" where
  "hydrated raw sm ked ilk said =
     \<lparr>sd_raw = raw, sd_ked = ked, sd_ilk = ilk, sd_said = said, sd_pvrsn = sm_pvrsn sm,
      wi_kind = sm_kind sm, wi_size = sm_size sm, wi_proto = sm_proto sm, wi_gvrsn = sm_gvrsn sm\<rparr>"

definition coerceMatterCode :: "jvalue option \<Rightarrow> string option" where
  "coerceMatterCode value =
     (case value of
        Some (JStr (c # cs)) \<Rightarrow>
          (case parseMatter (utf8 (c # cs)) Txt of Inr m \<Rightarrow> Some (mt_code m) | Inl _ \<Rightarrow> None)
      | _ \<Rightarrow> None)"

section \<open>The field domain of a body\<close>

text \<open>The code each SAID field really holds, or the default of its domain.\<close>

definition effective_saids :: "sad \<Rightarrow> (string \<times> string) list \<Rightarrow> (string \<times> string) list" where
  "effective_saids ked saids =
     map (\<lambda>(label, code). (label, or_else (coerceMatterCode (map_of ked label)) code)) saids"

definition validateSadAgainstFieldDom ::
  "serder_class \<Rightarrow> wire \<Rightarrow> (field_dom \<times> (string \<times> string) list \<times> sad) res" where
  "validateSadAgainstFieldDom cls w =
     bind_res (case sd_ked w of Some (JObj kvs) \<Rightarrow> Inr kvs | _ \<Rightarrow> Inl DeserializeError) (\<lambda>ked.
     bind_res (ensure (case ctor_Protocol cls of Some p \<Rightarrow> wi_proto w = p | None \<Rightarrow> True) DeserializeError) (\<lambda>_.
     bind_res (getFieldDom (wi_proto w) (sd_pvrsn w) (sd_ilk w)) (\<lambda>fd.
     let currentKeys = map fst ked; allowedKeys = map fst (fd_alls fd);
         extraKeys = filter (\<lambda>k. k \<notin> set allowedKeys) currentKeys;
         optional = map fst (or_else (fd_opts fd) []);
         required = filter (\<lambda>k. k \<notin> set optional) allowedKeys
     in bind_res (ensure (\<not> (extraKeys \<noteq> [] \<and> or_else (fd_strict fd) True)) DeserializeError) (\<lambda>_.
        bind_res (ensure (list_all (has_key ked) required) DeserializeError) (\<lambda>_.
        bind_res (ensure (js_join (CHR ''|'') (filter (\<lambda>k. k \<in> set allowedKeys) currentKeys)
                          = js_join (CHR ''|'') (filter (has_key ked) allowedKeys)) DeserializeError) (\<lambda>_.
        bind_res (ensure (list_all (\<lambda>(label, alt). \<not> (has_key ked label \<and> has_key ked alt))
                            (or_else (fd_alts fd) [])) DeserializeError) (\<lambda>_.
          Inr (fd, effective_saids ked (or_else (fd_saids fd) []), ked))))))))"

section \<open>From a semantic body\<close>

record sad_init =
  si_sad :: "sad option"
  si_makify :: "bool option"
  si_verify :: "bool option"
  si_proto :: "string option"
  si_pvrsn :: "versionage option"
  si_gvrsn :: "versionage option"
  si_kind :: "string option"
  si_ilk :: "string option"
  si_saids :: "(string \<times> string) list option"
  si_compactify :: "bool option"

record resolved =
  rv_sad :: sad
  rv_proto :: string
  rv_pvrsn :: versionage
  rv_gvrsn :: "versionage option"
  rv_kind :: string
  rv_ilk :: "string option"
  rv_saids :: "(string \<times> string) list"

definition smelled_of :: "sad \<Rightarrow> smellage option" where
  "smelled_of sad = (case map_of sad ''v'' of
     Some (JStr (c # cs)) \<Rightarrow> (case parseVersionString (c # cs) of Inr sm \<Rightarrow> Some sm | Inl _ \<Rightarrow> None)
   | _ \<Rightarrow> None)"

text \<open>\<open>{...a, ...b}\<close> for maps of SAID codes.\<close>

definition assign_saids :: "(string \<times> string) list \<Rightarrow> (string \<times> string) list \<Rightarrow> (string \<times> string) list" where
  "assign_saids saids given = foldl (\<lambda>r (l, c). AList.update l c r) saids given"

definition set_head :: "sad \<Rightarrow> string option \<Rightarrow> string \<Rightarrow> sad" where
  "set_head sad ilk vs =
     js_set ''v'' (JStr vs) (case ilk of Some t \<Rightarrow> js_set ''t'' (JStr t) sad | None \<Rightarrow> sad)"

text \<open>A message type that is not given is that of the body, or else the first of its version.\<close>

definition resolveProtocolDefaults :: "serder_class \<Rightarrow> sad_init \<Rightarrow> resolved res" where
  "resolveProtocolDefaults cls init =
     (let sad = shallowCloneSad (or_else (si_sad init) []);
          smelled = smelled_of sad;
          proto = or_else (si_proto init) (or_else (map_option sm_proto smelled) (ctor_Proto cls));
          pvrsn = or_else (si_pvrsn init) (or_else (map_option sm_pvrsn smelled) ctor_PVrsn);
          gvrsn = (case si_gvrsn init of Some g \<Rightarrow> Some g | None \<Rightarrow>
                    (case Option.bind smelled sm_gvrsn of Some g \<Rightarrow> Some g | None \<Rightarrow>
                       if 2 \<le> vn_major pvrsn then Some ctor_GVrsn else None));
          kind = or_else (si_kind init) (or_else (map_option sm_kind smelled) ctor_Kind)
      in bind_res (of_opt SerializeError (version_map proto pvrsn)) (\<lambda>vmap.
         let defaultIlk = (case vmap of (k, _) # _ \<Rightarrow> k | [] \<Rightarrow> ''<none>'');
             ilk = (case si_ilk init of Some t \<Rightarrow> Some t | None \<Rightarrow>
                     (case jstring (map_of sad ''t'') of Some t \<Rightarrow> Some t | None \<Rightarrow>
                        if defaultIlk = ''<none>'' then None else Some defaultIlk))
         in bind_res (getFieldDom proto pvrsn ilk) (\<lambda>fd.
            bind_res (versify proto pvrsn gvrsn kind 0) (\<lambda>vs.
            let normalized = set_head (normalizeSadWithFieldDom (Some sad) fd) ilk vs;
                given = or_else (si_saids init) [];
                saids = map (\<lambda>(label, code). (label,
                          if label \<in> fst ` set given then code
                          else or_else (coerceMatterCode (map_of normalized label)) code))
                        (assign_saids (or_else (fd_saids fd) []) given)
            in Inr \<lparr>rv_sad = normalized, rv_proto = proto, rv_pvrsn = pvrsn, rv_gvrsn = gvrsn,
                    rv_kind = kind, rv_ilk = ilk, rv_saids = saids\<rparr>))))"

section \<open>ACDC bodies\<close>

definition ACDC_COMPACT_TOP_LEVEL_ILKS :: "string list" where
  "ACDC_COMPACT_TOP_LEVEL_ILKS = [''acm'', ''ace'', ''act'', ''acg'']"

definition ACDC_PARTIAL_SECTION_ILKS :: "string list" where
  "ACDC_PARTIAL_SECTION_ILKS = [''sch'', ''att'', ''agg'', ''edg'', ''rul'']"

definition ACDC_SAIDIVE_TOP_LEVEL_ILKS :: "string list" where
  "ACDC_SAIDIVE_TOP_LEVEL_ILKS = [''acm'', ''ace'', ''act'', ''acg'', ''rip'']"

definition isAcdcCompactiveIlk :: "string option \<Rightarrow> bool" where
  "isAcdcCompactiveIlk ilk \<longleftrightarrow> (case ilk of None \<Rightarrow> True | Some t \<Rightarrow> t \<in> set ACDC_COMPACT_TOP_LEVEL_ILKS)"

definition isAcdcPartialSectionIlk :: "string option \<Rightarrow> bool" where
  "isAcdcPartialSectionIlk ilk \<longleftrightarrow> or_else ilk '''' \<in> set ACDC_PARTIAL_SECTION_ILKS"

text \<open>Object sections \<open>s\<close>, \<open>a\<close>, \<open>e\<close>, \<open>r\<close> and an aggregate list
  \<open>A\<close> are expanded and compacted by the primitives of the parameter; any other value is kept.\<close>

definition computeAcdcFieldVariants ::
  "wire_env \<Rightarrow> string \<Rightarrow> jvalue \<Rightarrow> string \<Rightarrow> bool \<Rightarrow> bool \<Rightarrow> bool \<Rightarrow> (jvalue \<times> jvalue) res" where
  "computeAcdcFieldVariants we label value kind top_level compactify partial =
     (case value of
        JObj _ \<Rightarrow> if label \<in> {''s'', ''a'', ''e'', ''r''}
                   then we_section we label value kind top_level compactify partial
                   else Inr (cloneDefault value, cloneDefault value)
      | JArr _ \<Rightarrow> if label = ''A'' then we_section we label value kind top_level compactify partial
                   else Inr (cloneDefault value, cloneDefault value)
      | _ \<Rightarrow> Inr (cloneDefault value, cloneDefault value))"

fun acdc_sections ::
  "wire_env \<Rightarrow> sad \<Rightarrow> string \<Rightarrow> bool \<Rightarrow> bool \<Rightarrow> bool \<Rightarrow> string list \<Rightarrow> sad \<Rightarrow> sad \<Rightarrow> (sad \<times> sad) res" where
  "acdc_sections we sad kind top_level compactify partial [] disp packed = Inr (disp, packed)"
| "acdc_sections we sad kind top_level compactify partial (label # labels) disp packed =
     (case map_of sad label of
        None \<Rightarrow> acdc_sections we sad kind top_level compactify partial labels disp packed
      | Some value \<Rightarrow>
          bind_res (computeAcdcFieldVariants we label value kind top_level compactify partial) (\<lambda>(d, c).
          acdc_sections we sad kind top_level compactify partial labels
            (js_set label d disp) (js_set label c packed)))"

record acdc_made =
  am_sad :: sad
  am_raw :: "byte list"
  am_compactSad :: sad

definition computeAcdcSad ::
  "wire_env \<Rightarrow> sad \<Rightarrow> string \<Rightarrow> versionage \<Rightarrow> (string \<times> string) list \<Rightarrow> bool \<Rightarrow> acdc_made res" where
  "computeAcdcSad we sad kind pvrsn saids compactify =
     (let ilk = jstring (map_of sad ''t'');
          top_level = (2 \<le> vn_major pvrsn \<and> isAcdcCompactiveIlk ilk);
          partial = isAcdcPartialSectionIlk ilk
      in bind_res
           (if 2 \<le> vn_major pvrsn
            then acdc_sections we sad kind top_level compactify partial [''s'', ''a'', ''A'', ''e'', ''r'']
                   (shallowCloneSad sad) (shallowCloneSad sad)
            else Inr (shallowCloneSad sad, shallowCloneSad sad)) (\<lambda>(disp, packed).
         let code = or_else (map_of saids ''d'') ''E''
         in bind_res (of_opt SerializeError (Option.bind (map_of MATTER_SIZES code) m_fs)) (\<lambda>f.
            let hashSad = js_set ''d'' (JStr (replicate f (CHR ''#''))) (shallowCloneSad packed)
            in bind_res (sizeify we hashSad (Some kind)) (\<lambda>hz.
               bind_res (dumps we (JObj (sz_ked hz)) kind) (\<lambda>digestRaw.
               bind_res (diger_digest we digestRaw code) (\<lambda>dig.
               bind_res (bind_res (matter_of_raw code dig) (\<lambda>m. new_diger m True)) (\<lambda>diger.
               let said = JStr (mt_qb64 diger)
               in bind_res (sizeify we (js_set ''d'' said disp) (Some kind)) (\<lambda>dz.
                    Inr \<lparr>am_sad = sz_ked dz, am_raw = sz_raw dz,
                         am_compactSad = js_set ''d'' said packed\<rparr>))))))))"

section \<open>Verification\<close>

definition nativeSmellage :: "string \<Rightarrow> versionage \<Rightarrow> versionage option \<Rightarrow> nat \<Rightarrow> smellage" where
  "nativeSmellage proto pvrsn gvrsn n =
     \<lparr>sm_proto = proto, sm_pvrsn = pvrsn, sm_gvrsn = gvrsn, sm_kind = ''CESR'', sm_size = n\<rparr>"

definition smell_of :: "byte list \<Rightarrow> smellage res" where
  "smell_of raw = bind_res (smell raw) (\<lambda>(sm, start, len). Inr sm)"

definition serder_verify_base :: "wire_env \<Rightarrow> serder_class \<Rightarrow> wire \<Rightarrow> unit res" where
  "serder_verify_base we cls w =
     bind_res (validateSadAgainstFieldDom cls w) (\<lambda>(fd, saids, ked).
     bind_res (saidifyFields we (shallowCloneSad ked) (Some (wi_kind w)) saids) (\<lambda>actual.
     bind_res (ensure (js_t (sf_raw actual) = js_t (sd_raw w)) DeserializeError) (\<lambda>_.
     bind_res (if wi_kind w = ''CESR''
               then Inr (nativeSmellage (wi_proto w) (sd_pvrsn w) (wi_gvrsn w) (length (sf_raw actual)))
               else smell_of (sf_raw actual)) (\<lambda>sm.
     bind_res (ensure (sm_proto sm = wi_proto w) DeserializeError) (\<lambda>_.
     bind_res (ensure (sm_pvrsn sm = sd_pvrsn w) DeserializeError) (\<lambda>_.
     bind_res (ensure (sm_kind sm = wi_kind w) DeserializeError) (\<lambda>_.
     bind_res (ensure (sm_size sm = wi_size w \<and> length (sf_raw actual) = wi_size w) DeserializeError) (\<lambda>_.
     ensure (sm_gvrsn sm = wi_gvrsn w) DeserializeError))))))))"

definition NON_TRANSFERABLE_CODES :: "string list" where
  "NON_TRANSFERABLE_CODES = codexValues NonTransCodex"

definition NON_DIGEST_PREFIX_CODES :: "string list" where
  "NON_DIGEST_PREFIX_CODES = codexValues PreNonDigCodex"

text \<open>What an inception may look like under the code of its prefix.\<close>

definition inception_prefix_ok :: "serder \<Rightarrow> string \<Rightarrow> string \<Rightarrow> unit res" where
  "inception_prefix_ok s pre code =
     bind_res (if code \<in> set NON_DIGEST_PREFIX_CODES then
        bind_res (ensure (length (serder_keys s) = 1) DeserializeError) (\<lambda>_.
        bind_res (ensure (case serder_tholder JSON_parse s of
            Some th \<Rightarrow> tn_numeric (th_threshold th) = Some 1 | None \<Rightarrow> False) DeserializeError) (\<lambda>_.
        ensure (serder_keys s = [pre]) DeserializeError))
      else Inr ()) (\<lambda>_.
     if code \<in> set NON_TRANSFERABLE_CODES then
       bind_res (ensure (serder_ndigs s = []) DeserializeError) (\<lambda>_.
       bind_res (ensure (serder_backs s = []) DeserializeError) (\<lambda>_.
       ensure (serder_seals s = []) DeserializeError))
     else Inr ())"

definition keri_prefix_ok :: "serder \<Rightarrow> unit res" where
  "keri_prefix_ok s =
     (case serder_pre s of
        Some (c # cs) \<Rightarrow>
          let pre = c # cs; code = or_else (coerceMatterCode (Some (JStr pre))) ''''
          in if code \<in> set PREFIX_CODES then
               bind_res (ensure (\<not> (sd_ilk s = Some ''dip'' \<and> code \<notin> set DIGEST_CODES)) DeserializeError) (\<lambda>_.
               if sd_ilk s \<in> {Some ''icp'', Some ''dip''} then inception_prefix_ok s pre code else Inr ())
             else Inr ()
      | _ \<Rightarrow> Inr ())"

definition keri_delegator_ok :: "serder \<Rightarrow> unit res" where
  "keri_delegator_ok s =
     (case serder_delpre s of
        Some (c # cs) \<Rightarrow>
          if sd_ilk s = Some ''dip'' then
            (case coerceMatterCode (Some (JStr (c # cs))) of
               Some code \<Rightarrow> ensure (code \<in> set PREFIX_CODES \<and> code \<in> set DIGEST_CODES) DeserializeError
             | None \<Rightarrow> Inl DeserializeError)
          else Inr ()
      | _ \<Rightarrow> Inr ())"

definition serder_verify_keri :: "wire_env \<Rightarrow> serder_class \<Rightarrow> wire \<Rightarrow> unit res" where
  "serder_verify_keri we cls w =
     bind_res (serder_verify_base we cls w) (\<lambda>_.
     bind_res (case sd_ked w of Some (JObj kvs) \<Rightarrow> Inr kvs | _ \<Rightarrow> Inl DeserializeError) (\<lambda>sad.
     bind_res (getFieldDom (wi_proto w) (sd_pvrsn w) (sd_ilk w)) (\<lambda>fd.
     bind_res (ensure (js_join (CHR ''|'') (map fst (fd_alls fd)) = js_join (CHR ''|'') (map fst sad))
                 DeserializeError) (\<lambda>_.
     bind_res (keri_prefix_ok (wire_view w)) (\<lambda>_. keri_delegator_ok (wire_view w))))))"

definition acdc_issuer :: "serder \<Rightarrow> string option" where
  "acdc_issuer s = text_field s ''i''"

definition serder_verify_acdc :: "wire_env \<Rightarrow> serder_class \<Rightarrow> wire \<Rightarrow> unit res" where
  "serder_verify_acdc we cls w =
     bind_res (validateSadAgainstFieldDom cls w) (\<lambda>(fd, saids, ked).
     bind_res (computeAcdcSad we (shallowCloneSad ked) (wi_kind w) (sd_pvrsn w) saids False) (\<lambda>actual.
     bind_res (ensure (case map_of ked ''d'' of
         Some (JStr d) \<Rightarrow> map_of (am_sad actual) ''d'' = Some (JStr d) | _ \<Rightarrow> False) DeserializeError) (\<lambda>_.
     bind_res (sizeify we (shallowCloneSad ked) (Some (wi_kind w))) (\<lambda>z.
     bind_res (ensure (js_t (sz_raw z) = js_t (sd_raw w)) DeserializeError) (\<lambda>_.
     if sd_ilk w = None \<or> or_else (sd_ilk w) '''' \<in> set ACDC_SAIDIVE_TOP_LEVEL_ILKS then
       (case acdc_issuer (wire_view w) of
          Some (c # cs) \<Rightarrow>
            (case coerceMatterCode (Some (JStr (c # cs))) of
               Some code \<Rightarrow> ensure (code \<in> set PREFIX_CODES) DeserializeError
             | None \<Rightarrow> Inl DeserializeError)
        | _ \<Rightarrow> Inl DeserializeError)
     else Inr ())))))"

definition serder_check :: "wire_env \<Rightarrow> serder_class \<Rightarrow> wire \<Rightarrow> unit res" where
  "serder_check we cls w = (case cls of
     CSerder \<Rightarrow> serder_verify_base we cls w
   | CKeri \<Rightarrow> serder_verify_keri we cls w
   | CAcdc \<Rightarrow> serder_verify_acdc we cls w)"

definition serder_verify :: "wire_env \<Rightarrow> serder_class \<Rightarrow> wire \<Rightarrow> bool" where
  "serder_verify we cls w = (case serder_check we cls w of Inr _ \<Rightarrow> True | Inl _ \<Rightarrow> False)"

section \<open>Construction\<close>

datatype serder_init =
    HydratedInit "byte list" smellage "jvalue option" "string option" "string option"
  | RawInit "byte list" "smellage option" "bool option"
  | SadInit sad_init

definition verified :: "wire_env \<Rightarrow> serder_class \<Rightarrow> bool option \<Rightarrow> wire \<Rightarrow> wire res" where
  "verified we cls verify w =
     (if or_else verify True then bind_res (serder_check we cls w) (\<lambda>_. Inr w) else Inr w)"

definition serder_from_raw ::
  "wire_env \<Rightarrow> serder_class \<Rightarrow> byte list \<Rightarrow> smellage option \<Rightarrow> bool option \<Rightarrow> wire res" where
  "serder_from_raw we cls input given verify =
     bind_res (case given of Some _ \<Rightarrow> Inr None | None \<Rightarrow> reapCesrNativeBody we input) (\<lambda>native.
     bind_res (case given of Some sm \<Rightarrow> Inr sm | None \<Rightarrow>
                (case native of Some (sm, _) \<Rightarrow> Inr sm | None \<Rightarrow> smell_of input)) (\<lambda>sm.
     let raw = (case native of Some (_, r) \<Rightarrow> r | None \<Rightarrow>
                 if length input = sm_size sm then input else take (sm_size sm) input)
     in bind_res (parseRawToKed we raw sm) (\<lambda>(ked, ilk, said).
        verified we cls verify (hydrated raw sm ked ilk said))))"

definition serder_from_sad :: "wire_env \<Rightarrow> serder_class \<Rightarrow> sad_init \<Rightarrow> wire res" where
  "serder_from_sad we cls init =
     bind_res (resolveProtocolDefaults cls init) (\<lambda>rv.
     bind_res (getFieldDom (rv_proto rv) (rv_pvrsn rv) (rv_ilk rv)) (\<lambda>fd.
     bind_res (versify (rv_proto rv) (rv_pvrsn rv) (rv_gvrsn rv) (rv_kind rv) 0) (\<lambda>vs.
     let normalized = set_head (normalizeSadWithFieldDom (Some (rv_sad rv)) fd) (rv_ilk rv) vs
     in bind_res
          (if or_else (si_makify init) False then
             (if rv_proto rv = ''ACDC'' then
                bind_res (computeAcdcSad we normalized (rv_kind rv) (rv_pvrsn rv) (rv_saids rv)
                            (or_else (si_compactify init) False)) (\<lambda>a. Inr (am_sad a, am_raw a))
              else bind_res (saidifyFields we normalized (Some (rv_kind rv)) (rv_saids rv))
                     (\<lambda>a. Inr (sf_sad a, sf_raw a)))
           else bind_res (sizeify we (shallowCloneSad normalized) (Some (rv_kind rv)))
                  (\<lambda>z. Inr (sz_ked z, sz_raw z))) (\<lambda>(sad, raw).
        bind_res (if rv_kind rv = ''CESR''
                  then Inr (nativeSmellage (rv_proto rv) (rv_pvrsn rv) (rv_gvrsn rv) (length raw))
                  else smell_of raw) (\<lambda>sm.
        verified we cls (si_verify init)
          (hydrated raw sm (Some (JObj sad))
             (case jstring (map_of sad ''t'') of Some t \<Rightarrow> Some t | None \<Rightarrow> rv_ilk rv)
             (jstring (map_of sad ''d''))))))))"

text \<open>The subclasses reject another protocol after the base constructor.\<close>

definition serder_new :: "wire_env \<Rightarrow> serder_class \<Rightarrow> serder_init \<Rightarrow> wire res" where
  "serder_new we cls init =
     bind_res (case init of
         HydratedInit raw sm ked ilk said \<Rightarrow> Inr (hydrated raw sm ked ilk said)
       | RawInit raw given verify \<Rightarrow> serder_from_raw we cls raw given verify
       | SadInit i \<Rightarrow> serder_from_sad we cls i) (\<lambda>w.
     bind_res (ensure (case ctor_Protocol cls of Some p \<Rightarrow> wi_proto w = p | None \<Rightarrow> True) DeserializeError) (\<lambda>_. Inr w))"

definition parseSerder :: "wire_env \<Rightarrow> byte list \<Rightarrow> smellage \<Rightarrow> wire res" where
  "parseSerder we raw sm =
     bind_res (parseRawToKed we raw sm) (\<lambda>(ked, ilk, said).
     serder_new we (if sm_proto sm = ''KERI'' then CKeri else if sm_proto sm = ''ACDC'' then CAcdc else CSerder)
       (HydratedInit raw sm ked ilk said))"

end
