(* ===== verification/SerderLaws.thy ===== *)
theory SerderLaws
  imports Serders
begin

text \<open>
  What construction and verification of a message rely on: the blanking and filling of the SAID
  fields keep the fields and their order, and a body that verification accepts is the very one
  that was serialized. The properties of the message layer rest on these facts.
\<close>

section \<open>Bodies as maps\<close>

lemma alist_eq:
  "map fst a = map fst b \<Longrightarrow> distinct (map fst a) \<Longrightarrow> map_of a = map_of b \<Longrightarrow> a = b"
proof (induction a arbitrary: b)
  case Nil
  then show ?case by simp
next
  case (Cons e a)
  then obtain f b' where b: "b = f # b'" by (cases b) auto
  have keys: "fst e = fst f" "map fst a = map fst b'" "fst e \<notin> set (map fst a)" "distinct (map fst a)"
    using Cons.prems(1,2) b by simp_all
  have at: "map_of (e # a) k = map_of (f # b') k" for k
    using fun_cong [OF Cons.prems(3), of k] unfolding b .
  have ef: "e = f" using at [of "fst e"] keys(1) by (cases e; cases f) simp
  have none: "map_of a (fst e) = None" "map_of b' (fst e) = None"
    using keys(2,3) unfolding map_of_eq_None_iff by (metis list.set_map)+
  have "map_of a = map_of b'"
  proof
    fix k
    show "map_of a k = map_of b' k"
      using at [of k] none ef by (cases "k = fst e"; cases e) simp_all
  qed
  then have "a = b'" using keys by (intro Cons.IH)
  then show ?case using b ef by simp
qed

lemma js_set_same:
  assumes "map_of kvs k = Some v" and "distinct (map fst kvs)"
  shows "js_set k v kvs = kvs"
proof (rule alist_eq)
  have "k \<in> fst ` set kvs" using assms(1) by (metis map_of_eq_None_iff option.distinct(1))
  then show "map fst (js_set k v kvs) = map fst kvs" by (rule js_set_keys)
  then show "distinct (map fst (js_set k v kvs))" using assms(2) by simp
  show "map_of (js_set k v kvs) = map_of kvs" using assms(1) by (auto simp: map_of_js_set)
qed

lemma has_keyD: "has_key kvs k \<Longrightarrow> map fst (js_set k v kvs) = map fst kvs"
  by (simp add: has_key_iff js_set_keys)

section \<open>The SAID fields\<close>

definition digestive_labels :: "(string \<times> string) list \<Rightarrow> string set" where
  "digestive_labels saids = {l. \<exists>c. (l, c) \<in> set saids \<and> c \<in> set DIGEST_CODES}"

lemma digestive_labels_simps [simp]:
  "digestive_labels [] = {}"
  "digestive_labels ((l, c) # saids) =
     (if c \<in> set DIGEST_CODES then insert l (digestive_labels saids) else digestive_labels saids)"
  by (auto simp: digestive_labels_def)

lemma dummy_fields_Inr:
  assumes "dummy_fields saids kvs = Inr d"
  shows "map fst d = map fst kvs" and "\<forall>k. k \<notin> digestive_labels saids \<longrightarrow> map_of d k = map_of kvs k"
    and "json_ok (JObj kvs) \<Longrightarrow> json_ok (JObj d)" and "\<forall>(l, c) \<in> set saids. has_key kvs l"
proof -
  have "map fst d = map fst kvs \<and> (\<forall>k. k \<notin> digestive_labels saids \<longrightarrow> map_of d k = map_of kvs k)
    \<and> (json_ok (JObj kvs) \<longrightarrow> json_ok (JObj d)) \<and> (\<forall>(l, c) \<in> set saids. has_key kvs l)"
    using assms
  proof (induction saids kvs rule: dummy_fields.induct)
    case (1 kvs)
    then show ?case by simp
  next
    case (2 l c saids kvs)
    have here: "has_key kvs l" using 2(3) by (auto split: if_splits)
    show ?case
    proof (cases "c \<in> set DIGEST_CODES")
      case True
      then obtain z f where z: "map_of MATTER_SIZES c = Some z" "m_fs z = Some f"
        and d: "dummy_fields saids (js_set l (JStr (replicate f (CHR ''#''))) kvs) = Inr d"
        using 2(3) here by (auto split: option.splits)
      have "\<not> \<not> has_key kvs l" "\<not> c \<notin> set DIGEST_CODES" using here True by blast+
      note IH = 2(2) [OF this z d]
      show ?thesis
        using IH here True has_keyD [OF here]
        by (auto simp: map_of_js_set intro: json_ok_set simp del: json_ok.simps(6))
    next
      case False
      then have "dummy_fields saids kvs = Inr d" using 2(3) here by simp
      with 2(1) here False show ?thesis by auto
    qed
  qed
  then show "map fst d = map fst kvs" "\<forall>k. k \<notin> digestive_labels saids \<longrightarrow> map_of d k = map_of kvs k"
    "json_ok (JObj kvs) \<Longrightarrow> json_ok (JObj d)" "\<forall>(l, c) \<in> set saids. has_key kvs l"
    by blast+
qed

definition holds_digest :: "wire_env \<Rightarrow> byte list \<Rightarrow> sad \<Rightarrow> string \<Rightarrow> string \<Rightarrow> bool" where
  "holds_digest we ser kvs l c \<longleftrightarrow>
     (case matter_of_raw c (we_digest we c ser) of
        Inr m \<Rightarrow> map_of kvs l = Some (JStr (mt_qb64 m)) | Inl _ \<Rightarrow> False)"

lemma fill_fields_Inr:
  assumes "fill_fields we ser saids kvs acc = Inr (d, acc')" and "\<forall>(l, c) \<in> set saids. has_key kvs l"
    and "distinct (map fst saids)"
  shows "map fst d = map fst kvs" and "\<forall>k. k \<notin> digestive_labels saids \<longrightarrow> map_of d k = map_of kvs k"
    and "json_ok (JObj kvs) \<Longrightarrow> json_ok (JObj d)"
    and "\<forall>(l, c) \<in> set saids. c \<in> set DIGEST_CODES \<longrightarrow> holds_digest we ser d l c"
proof -
  have "map fst d = map fst kvs \<and> (\<forall>k. k \<notin> digestive_labels saids \<longrightarrow> map_of d k = map_of kvs k)
    \<and> (json_ok (JObj kvs) \<longrightarrow> json_ok (JObj d))
    \<and> (\<forall>(l, c) \<in> set saids. c \<in> set DIGEST_CODES \<longrightarrow> holds_digest we ser d l c)"
    using assms
  proof (induction we ser saids kvs acc rule: fill_fields.induct)
    case (1 we ser kvs acc)
    then show ?case by simp
  next
    case (2 we ser l c saids kvs acc)
    have here: "has_key kvs l" and rest: "distinct (map fst saids)" "l \<notin> fst ` set saids"
      using 2(4,5) by auto
    show ?case
    proof (cases "c \<in> set DIGEST_CODES")
      case False
      then have "fill_fields we ser saids kvs acc = Inr (d, acc')" using 2(3) by simp
      with 2(1) 2(4) rest False show ?thesis by auto
    next
      case True
      then obtain m where m: "matter_of_raw c (we_digest we c ser) = Inr m"
        and d: "fill_fields we ser saids (js_set l (JStr (mt_qb64 m)) kvs) (acc @ [(l, m)]) = Inr (d, acc')"
        using 2(3) by (auto simp: res_simps diger_digest_def new_saider_def check_code_def split: if_splits)
      have nn: "\<not> c \<notin> set DIGEST_CODES" using True by blast
      note IH = 2(2) [OF nn d]
      have keys: "\<forall>(l', c') \<in> set saids. has_key (js_set l (JStr (mt_qb64 m)) kvs) l'" using 2(4) by auto
      have fresh: "l \<notin> digestive_labels saids" using rest(2) by (force simp: digestive_labels_def)
      have "map_of d l = Some (JStr (mt_qb64 m))"
        using IH [OF keys rest(1)] fresh by (simp add: map_of_js_set)
      then have "holds_digest we ser d l c" by (simp add: holds_digest_def m)
      then show ?thesis
        using IH [OF keys rest(1)] has_keyD [OF here] True
        by (auto simp: map_of_js_set intro: json_ok_set simp del: json_ok.simps(6))
    qed
  qed
  then show "map fst d = map fst kvs" "\<forall>k. k \<notin> digestive_labels saids \<longrightarrow> map_of d k = map_of kvs k"
    "json_ok (JObj kvs) \<Longrightarrow> json_ok (JObj d)"
    "\<forall>(l, c) \<in> set saids. c \<in> set DIGEST_CODES \<longrightarrow> holds_digest we ser d l c"
    by blast+
qed

section \<open>Sizing\<close>

lemma sizeify_Inr:
  assumes "sizeify we kvs (Some k) = Inr z"
  obtains vs0 sm vs where "map_of kvs ''v'' = Some (JStr vs0)" "vs0 \<noteq> []" "parseVersionString vs0 = Inr sm"
    "sz_ked z = js_set ''v'' (JStr vs) kvs" "sz_kind z = k" "sz_smellage z = sm"
    "versify (sm_proto sm) (sm_pvrsn sm) (sm_gvrsn sm) k (length (sz_raw z)) = Inr vs"
    "dumps we (JObj (sz_ked z)) k = Inr (sz_raw z)"
proof -
  from assms obtain c cs where v: "map_of kvs ''v'' = Some (JStr (c # cs))"
    by (auto simp: sizeify_def split: option.splits jvalue.splits list.splits)
  from assms v obtain sm where p: "parseVersionString (c # cs) = Inr sm"
    by (auto simp: sizeify_def split: sum.splits)
  from assms v p obtain raw0 vs raw where s: "dumps we (JObj kvs) k = Inr raw0"
    "versify (sm_proto sm) (sm_pvrsn sm) (sm_gvrsn sm) k (length raw0) = Inr vs"
    "dumps we (JObj (js_set ''v'' (JStr vs) kvs)) k = Inr raw" "length raw = length raw0"
    "z = \<lparr>sz_raw = raw, sz_kind = k, sz_ked = js_set ''v'' (JStr vs) kvs, sz_smellage = sm\<rparr>"
    by (auto simp: sizeify_def or_else_def Let_def res_simps split: if_splits)
  show thesis by (rule that [OF v _ p]) (use s in simp_all)
qed

section \<open>A saidified body\<close>

lemma saidify_raw:
  "saidifyFields we kvs (Some ''JSON'') saids = Inr r \<Longrightarrow> sf_raw r = utf8 (JSON_stringify (JObj (sf_sad r)))"
  by (auto simp: saidifyFields_def dumps_def res_simps)

lemma saidify_Inr:
  assumes "saidifyFields we kvs (Some ''JSON'') saids = Inr r" and "json_ok (JObj kvs)"
    and "distinct (map fst saids)" and "''v'' \<notin> fst ` set saids" and "has_key kvs ''v''"
  obtains d w where "dummy_fields saids kvs = Inr d" "map fst w = map fst kvs"
    "\<exists>vs. w = js_set ''v'' (JStr vs) d"
    "map fst (sf_sad r) = map fst kvs" "json_ok (JObj (sf_sad r))"
    "sf_raw r = utf8 (JSON_stringify (JObj (sf_sad r)))"
    "\<forall>k. k \<notin> digestive_labels saids \<longrightarrow> map_of (sf_sad r) k = map_of w k"
    "\<forall>(l, c) \<in> set saids. c \<in> set DIGEST_CODES \<longrightarrow>
       holds_digest we (utf8 (JSON_stringify (JObj w))) (sf_sad r) l c"
proof -
  from assms(1) obtain d z filled saiders where d: "dummy_fields saids kvs = Inr d"
    and hv: "(if has_key d ''v'' then bind_res (sizeify we d (Some ''JSON'')) (\<lambda>z. Inr (sz_ked z)) else Inr d) = Inr z"
    and f: "fill_fields we (utf8 (JSON_stringify (JObj z))) saids z [] = Inr (filled, saiders)"
    and r: "r = \<lparr>sf_sad = filled, sf_raw = utf8 (JSON_stringify (JObj filled)), sf_saiders = saiders\<rparr>"
    by (auto simp: saidifyFields_def dumps_def res_simps)
  note df = dummy_fields_Inr [OF d]
  have dv: "has_key d ''v''" using assms(5) df(1) by (metis has_key_iff list.set_map)
  then obtain zz where zz: "sizeify we d (Some ''JSON'') = Inr zz" "z = sz_ked zz"
    using hv by (auto simp: res_simps)
  from zz(1) obtain vs where w: "z = js_set ''v'' (JStr vs) d" by (rule sizeify_Inr) (use zz(2) in blast)
  have keys: "map fst z = map fst kvs" using w has_keyD [OF dv] df(1) by simp
  have has: "\<forall>(l, c) \<in> set saids. has_key z l" using df(4) keys by (metis (no_types, lifting) case_prodI2 case_prod_conv has_key_iff list.set_map)
  have okz: "json_ok (JObj z)" using w json_ok_set [of d "JStr vs" "''v''"] df(3) assms(2) by simp
  note ff = fill_fields_Inr [OF f has assms(3)]
  show thesis
  proof (rule that [OF d keys])
    show "\<exists>vs. z = js_set ''v'' (JStr vs) d" using w by blast
    show "map fst (sf_sad r) = map fst kvs" using ff(1) keys by (simp add: r)
    show "json_ok (JObj (sf_sad r))" using ff(3) [OF okz] by (simp add: r)
    show "sf_raw r = utf8 (JSON_stringify (JObj (sf_sad r)))" by (simp add: r)
    show "\<forall>k. k \<notin> digestive_labels saids \<longrightarrow> map_of (sf_sad r) k = map_of z k"
      using ff(2) by (simp add: r)
    show "\<forall>(l, c) \<in> set saids. c \<in> set DIGEST_CODES \<longrightarrow>
        holds_digest we (utf8 (JSON_stringify (JObj z))) (sf_sad r) l c"
      using ff(4) by (simp add: r)
  qed
qed

lemma getFieldDom_labels:
  assumes "getFieldDom p v i = Inr fd"
  shows "distinct (map fst (or_else (fd_saids fd) []))" and "''v'' \<notin> fst ` set (or_else (fd_saids fd) [])"
    and "\<exists>r. map fst (fd_alls fd) = ''v'' # r" and "distinct (map fst (fd_alls fd))"
    and "''v'' \<notin> set (map fst (or_else (fd_opts fd) []))"
proof -
  have ok: "dom_ok fd" using getFieldDom_ok assms by blast
  then show "distinct (map fst (or_else (fd_saids fd) []))" "distinct (map fst (fd_alls fd))"
    "''v'' \<notin> set (map fst (or_else (fd_opts fd) []))" by (simp_all add: dom_ok_def)
  from ok show "''v'' \<notin> fst ` set (or_else (fd_saids fd) [])" by (auto simp: dom_ok_def list_all_iff)
  from ok show "\<exists>r. map fst (fd_alls fd) = ''v'' # r"
    by (cases "map fst (fd_alls fd)") (simp_all add: dom_ok_def)
qed

lemma fst_effective: "map fst (effective_saids ked saids) = map fst saids"
  by (simp add: effective_saids_def comp_def split_beta)

lemma validate_Inr:
  assumes "validateSadAgainstFieldDom cls w = Inr (fd, saids, ked)"
  shows "sd_ked w = Some (JObj ked)" and "getFieldDom (wi_proto w) (sd_pvrsn w) (sd_ilk w) = Inr fd"
    and "saids = effective_saids ked (or_else (fd_saids fd) [])" and "has_key ked ''v''"
    and "distinct (map fst saids)" and "''v'' \<notin> fst ` set saids"
proof -
  from assms show k: "sd_ked w = Some (JObj ked)"
    and g: "getFieldDom (wi_proto w) (sd_pvrsn w) (sd_ilk w) = Inr fd"
    and s: "saids = effective_saids ked (or_else (fd_saids fd) [])"
    by (auto simp: validateSadAgainstFieldDom_def Let_def res_simps split: option.splits jvalue.splits)
  have req: "list_all (has_key ked) (filter (\<lambda>k. k \<notin> set (map fst (or_else (fd_opts fd) []))) (map fst (fd_alls fd)))"
    using assms by (auto simp: validateSadAgainstFieldDom_def Let_def res_simps k g)
  note lab = getFieldDom_labels [OF g]
  from lab(3) lab(5) req show "has_key ked ''v''" by (auto simp: list_all_iff)
  show "distinct (map fst saids)" "''v'' \<notin> fst ` set saids"
    using lab(1,2) unfolding s by (simp_all add: fst_effective flip: set_map)
qed

end
