(* ===== verification/SerderSamples.thy ===== *)
theory SerderSamples
  imports SerderLaws
begin

text \<open>
  Sample data for the witnesses of the message layer: surroundings without the other wire kinds
  and with a digest of the right size, the fields of an interaction event, and the message the
  constructor makes of them.
\<close>

definition ex_wire :: wire_env where
  "ex_wire = \<lparr>we_digest = (\<lambda>code ser. replicate 31 0 @ [of_nat (length ser)]),
     we_dump = (\<lambda>kind v. Inl JsError), we_load = (\<lambda>kind raw sm. Inl JsError),
     we_reap = (\<lambda>input. Inl JsError), we_section = (\<lambda>l v kind t c p. Inl JsError)\<rparr>"

definition ex_fields :: sad_init where
  "ex_fields = \<lparr>si_sad = Some [(''s'', JStr ''1''), (''a'', JArr [])], si_makify = Some True, si_verify = None,
     si_proto = Some ''KERI'', si_pvrsn = None, si_gvrsn = None, si_kind = Some ''JSON'',
     si_ilk = Some ''ixn'', si_saids = None, si_compactify = None\<rparr>"

definition ex_wire_said :: string where
  "ex_wire_said = CHR ''E'' # replicate 41 (CHR ''A'') @ ''Bz''"

definition ex_fd :: field_dom where
  "ex_fd = \<lparr>fd_alls = [(''v'', JStr ''''), (''t'', JStr ''''), (''d'', JStr ''''), (''i'', JStr ''''),
       (''s'', JStr ''0''), (''p'', JStr ''''), (''a'', JArr [])],
     fd_opts = Some [], fd_alts = Some [], fd_saids = Some [(''d'', ''E'')], fd_strict = Some True\<rparr>"

definition ex_body :: sad where
  "ex_body = [(''v'', JStr ''KERI10JSON000073_''), (''t'', JStr ''ixn''),
     (''d'', JStr ex_wire_said), (''i'', JStr []), (''s'', JStr ''1''), (''p'', JStr []), (''a'', JArr [])]"

definition ex_blank :: sad where
  "ex_blank = [(''v'', JStr ''KERI10JSON000073_''), (''t'', JStr ''ixn''),
     (''d'', JStr (replicate 44 (CHR ''#''))), (''i'', JStr []), (''s'', JStr ''1''), (''p'', JStr []), (''a'', JArr [])]"

definition ex_draft :: sad where
  "ex_draft = [(''v'', JStr ''KERI10JSON000000_''), (''t'', JStr ''ixn''),
     (''d'', JStr ''''), (''i'', JStr []), (''s'', JStr ''1''), (''p'', JStr []), (''a'', JArr [])]"

definition ex_smell :: smellage where
  "ex_smell = \<lparr>sm_proto = ''KERI'', sm_pvrsn = Vrsn_1_0, sm_gvrsn = None, sm_kind = ''JSON'', sm_size = 115\<rparr>"

definition ex_message :: wire where
  "ex_message = hydrated (utf8 (JSON_stringify (JObj ex_body))) ex_smell (Some (JObj ex_body)) (Some ''ixn'')
     (Some ex_wire_said)"

section \<open>Evaluation\<close>

lemma ex_dom: "getFieldDom ''KERI'' Vrsn_1_0 (Some ''ixn'') = Inr ex_fd"
  by code_simp

lemma ex_versions: "version_map ''KERI'' Vrsn_1_0 \<noteq> None"
  by code_simp

lemma ex_normal:
  "normalizeSadWithFieldDom (Some [(''s'', JStr ''1''), (''a'', JArr [])]) ex_fd =
     [(''v'', JStr ''''), (''t'', JStr ''''), (''d'', JStr ''''), (''i'', JStr ''''), (''s'', JStr ''1''),
      (''p'', JStr ''''), (''a'', JArr [])]"
  "normalizeSadWithFieldDom (Some ex_draft) ex_fd = ex_draft"
  by code_simp+

lemma ex_heads:
  "set_head [(''v'', JStr ''''), (''t'', JStr ''''), (''d'', JStr ''''), (''i'', JStr ''''), (''s'', JStr ''1''),
      (''p'', JStr ''''), (''a'', JArr [])] (Some ''ixn'') ''KERI10JSON000000_'' = ex_draft"
  "set_head ex_draft (Some ''ixn'') ''KERI10JSON000000_'' = ex_draft"
  by code_simp+

lemma ex_version: "versify ''KERI'' Vrsn_1_0 None ''JSON'' 0 = Inr ''KERI10JSON000000_''"
  by code_simp

lemma ex_smelled: "smelled_of [(''s'', JStr ''1''), (''a'', JArr [])] = None"
  by code_simp

lemma ex_said_codes: "coerceMatterCode (map_of ex_draft ''d'') = None"
  "effective_saids ex_body [(''d'', ''E'')] = [(''d'', ''E'')]"
  by code_simp+

lemma ex_saids: "''E'' \<in> set DIGEST_CODES"
  by code_simp

lemma ex_size: "length (utf8 (JSON_stringify (JObj ex_body))) = 115"
  by code_simp

lemma ex_found: "smell_of (utf8 (JSON_stringify (JObj ex_body))) = Inr ex_smell"
  by code_simp

lemma ex_blanked: "dummy_fields [(''d'', ''E'')] ex_body = Inr ex_blank"
  by code_simp

lemma ex_saidified:
  "\<exists>r. saidifyFields ex_wire ex_draft (Some ''JSON'') [(''d'', ''E'')] = Inr r \<and> sf_sad r = ex_body
     \<and> sf_raw r = utf8 (JSON_stringify (JObj ex_body))"
proof -
  have "case saidifyFields ex_wire ex_draft (Some ''JSON'') [(''d'', ''E'')] of
      Inr r \<Rightarrow> sf_sad r = ex_body | _ \<Rightarrow> False"
    by code_simp
  then show ?thesis using saidify_raw by (auto split: sum.splits)
qed

lemma ex_saidified_again:
  "\<exists>r. saidifyFields ex_wire ex_body (Some ''JSON'') [(''d'', ''E'')] = Inr r \<and> sf_sad r = ex_body
     \<and> sf_raw r = utf8 (JSON_stringify (JObj ex_body))"
proof -
  have "case saidifyFields ex_wire ex_body (Some ''JSON'') [(''d'', ''E'')] of
      Inr r \<Rightarrow> sf_sad r = ex_body | _ \<Rightarrow> False"
    by code_simp
  then show ?thesis using saidify_raw by (auto split: sum.splits)
qed

section \<open>The sample message\<close>

declare JSON_stringify.simps(6) [simp del]

lemma ex_message_fields:
  "sd_ked ex_message = Some (JObj ex_body)" "sd_raw ex_message = utf8 (JSON_stringify (JObj ex_body))"
  "wi_kind ex_message = ''JSON''" "wi_proto ex_message = ''KERI''" "sd_pvrsn ex_message = Vrsn_1_0"
  "sd_ilk ex_message = Some ''ixn''" "wi_size ex_message = 115" "wi_gvrsn ex_message = None"
  "sd_said ex_message = Some ex_wire_said"
  by (simp_all add: ex_message_def hydrated_def ex_smell_def)

lemma ex_valid: "validateSadAgainstFieldDom CKeri ex_message = Inr (ex_fd, [(''d'', ''E'')], ex_body)"
proof -
  have "filter (\<lambda>k. k \<notin> set (map fst (fd_alls ex_fd))) (map fst ex_body) = []"
    "list_all (has_key ex_body) (map fst (fd_alls ex_fd))"
    "filter (\<lambda>k. k \<in> set (map fst (fd_alls ex_fd))) (map fst ex_body)
      = filter (has_key ex_body) (map fst (fd_alls ex_fd))"
    "fd_opts ex_fd = Some []" "fd_alts ex_fd = Some []" "fd_saids ex_fd = Some [(''d'', ''E'')]"
    by code_simp+
  then show ?thesis
    by (simp add: validateSadAgainstFieldDom_def ex_message_fields ctor_Protocol_def ex_dom or_else_def
        ex_said_codes Let_def)
qed

lemma ex_checked: "serder_check ex_wire CKeri ex_message = Inr ()"
proof -
  from ex_saidified_again obtain r where r: "saidifyFields ex_wire ex_body (Some ''JSON'') [(''d'', ''E'')] = Inr r"
    "sf_raw r = utf8 (JSON_stringify (JObj ex_body))" by blast
  have "serder_verify_base ex_wire CKeri ex_message = Inr ()"
    by (simp add: serder_verify_base_def ex_valid ex_message_fields r ex_found ex_size)
      (simp add: ex_smell_def)
  moreover have "map fst (fd_alls ex_fd) = map fst ex_body" by code_simp
  moreover have "keri_prefix_ok (wire_view ex_message) = Inr ()" "keri_delegator_ok (wire_view ex_message) = Inr ()"
    by (simp_all add: keri_prefix_ok_def keri_delegator_ok_def serder_pre_def serder_delpre_def text_field_def
        sad_field_def serder.truncate_def ex_message_fields jfield_def ex_body_def)
  ultimately show ?thesis
    by (simp add: serder_check_def serder_verify_keri_def ex_message_fields ex_dom)
qed

lemma ex_resolved: "resolveProtocolDefaults CKeri ex_fields =
  Inr \<lparr>rv_sad = ex_draft, rv_proto = ''KERI'', rv_pvrsn = Vrsn_1_0, rv_gvrsn = None, rv_kind = ''JSON'',
       rv_ilk = Some ''ixn'', rv_saids = [(''d'', ''E'')]\<rparr>"
proof -
  obtain vm where "version_map ''KERI'' Vrsn_1_0 = Some vm" using ex_versions by blast
  moreover have "fd_saids ex_fd = Some [(''d'', ''E'')]" "\<not> 2 \<le> vn_major Vrsn_1_0" by code_simp+
  ultimately show ?thesis
    by (simp add: resolveProtocolDefaults_def ex_fields_def or_else_def ex_smelled ctor_PVrsn_def ex_dom
        ex_version ex_normal ex_heads assign_saids_def ex_said_codes Let_def)
qed

lemma ex_made: "serder_new ex_wire CKeri (SadInit ex_fields) = Inr ex_message"
proof -
  from ex_saidified obtain r where r: "saidifyFields ex_wire ex_draft (Some ''JSON'') [(''d'', ''E'')] = Inr r"
    "sf_sad r = ex_body" "sf_raw r = utf8 (JSON_stringify (JObj ex_body))" by blast
  have parts: "si_makify ex_fields = Some True" "si_verify ex_fields = None" by (simp_all add: ex_fields_def)
  have "jstring (map_of ex_body ''t'') = Some ''ixn''" "jstring (map_of ex_body ''d'') = Some ex_wire_said"
    by (simp_all add: ex_body_def jstring_def)
  then have "serder_from_sad ex_wire CKeri ex_fields = Inr ex_message"
    using ex_checked
    by (simp add: serder_from_sad_def ex_resolved ex_dom ex_version ex_normal ex_heads r parts ex_found
        verified_def or_else_def Let_def flip: ex_message_def)
  then show ?thesis by (simp add: serder_new_def ctor_Protocol_def ex_message_fields)
qed

lemma ex_sniffed: "sniff (sd_raw ex_message) = Inr ColdMsg"
  unfolding ex_message_fields by code_simp

lemma ex_read: "serder_new ex_wire CKeri (RawInit (sd_raw ex_message) None None) = Inr ex_message"
proof -
  have p: "parse_bytes (utf8 (JSON_stringify (JObj ex_body))) = Some (JObj ex_body)"
    by (rule parse_bytes_written) code_simp
  have f: "sm_kind ex_smell = ''JSON''" "sm_size ex_smell = 115" by (simp_all add: ex_smell_def)
  have j: "jstring (map_of ex_body ''t'') = Some ''ixn''" "jstring (map_of ex_body ''d'') = Some ex_wire_said"
    by (simp_all add: ex_body_def jstring_def)
  have k: "parseRawToKed ex_wire (utf8 (JSON_stringify (JObj ex_body))) ex_smell
      = Inr (Some (JObj ex_body), Some ''ixn'', Some ex_wire_said)"
    unfolding parseRawToKed_def p f using j by (simp add: jfield_def)
  have "serder_from_raw ex_wire CKeri (sd_raw ex_message) None None = Inr ex_message"
    using ex_sniffed ex_checked
    by (simp add: serder_from_raw_def reapCesrNativeBody_def ex_message_fields ex_found f ex_size k
        verified_def or_else_def Let_def flip: ex_message_def)
  then show ?thesis by (simp add: serder_new_def ctor_Protocol_def ex_message_fields)
qed

end
