(* ===== verification/SerderProps.thy ===== *)
theory SerderProps
  imports SerderSamples
begin

text \<open>
  The properties of the message layer: a written version string is found again, an accepted
  message is the serialization of its fields and holds the digest of its blanked form, the SAID
  binds the content, and a message made from fields is read back from the stream as it was made.
\<close>

section \<open>Verified bodies\<close>

lemma parse_bytes_ok: "parse_bytes bs = Some v \<Longrightarrow> json_ok v"
  by (auto simp: parse_bytes_def bind_eq_Some_conv dest: JSON_parse_ok)

lemma verified_fix:
  assumes v: "serder_verify_base we cls w = Inr u" and k: "wi_kind w = ''JSON''"
    and p: "parse_bytes (sd_raw w) = sd_ked w" and len: "length (sd_raw w) \<le> wi_size w"
  obtains fd saids ked blank where "validateSadAgainstFieldDom cls w = Inr (fd, saids, ked)"
    "sd_ked w = Some (JObj ked)" "json_ok (JObj ked)"
    "sd_raw w = utf8 (JSON_stringify (JObj ked))" "wi_size w = length (sd_raw w)"
    "dummy_fields saids ked = Inr blank"
    "\<forall>(l, c) \<in> set saids. c \<in> set DIGEST_CODES \<longrightarrow>
       holds_digest we (utf8 (JSON_stringify (JObj blank))) ked l c"
proof -
  from v k obtain fd saids ked r sm where val: "validateSadAgainstFieldDom cls w = Inr (fd, saids, ked)"
    and r: "saidifyFields we ked (Some ''JSON'') saids = Inr r"
    and t: "js_t (sf_raw r) = js_t (sd_raw w)" and n: "length (sf_raw r) = wi_size w"
    by (auto simp: serder_verify_base_def res_simps)
  note val' = validate_Inr [OF val]
  have pk: "parse_bytes (sd_raw w) = Some (JObj ked)" using p val'(1) by simp
  then have ok: "json_ok (JObj ked)" by (rule parse_bytes_ok)
  obtain d w' vs where d: "dummy_fields saids ked = Inr d"
    and w': "w' = js_set ''v'' (JStr vs) d" and okr: "json_ok (JObj (sf_sad r))"
    and raw: "sf_raw r = utf8 (JSON_stringify (JObj (sf_sad r)))"
    and same: "\<forall>k. k \<notin> digestive_labels saids \<longrightarrow> map_of (sf_sad r) k = map_of w' k"
    and dig: "\<forall>(l, c) \<in> set saids. c \<in> set DIGEST_CODES \<longrightarrow>
       holds_digest we (utf8 (JSON_stringify (JObj w'))) (sf_sad r) l c"
    by (rule saidify_Inr [OF r ok val'(5,6,4)]) (elim exE, rule that)
  have "sd_raw w = sf_raw r \<or> sd_raw w = [0xEF, 0xBB, 0xBF] @ sf_raw r"
    unfolding raw by (rule js_t_utf8_iff) (use t raw in simp)
  then have eq: "sd_raw w = sf_raw r" using len n by auto
  have "parse_bytes (sf_raw r) = Some (JObj (sf_sad r))"
    unfolding raw by (rule parse_bytes_written [OF okr])
  then have sad: "sf_sad r = ked" using pk eq by simp
  note df = dummy_fields_Inr [OF d]
  have nv: "''v'' \<notin> digestive_labels saids" using val'(6) by (force simp: digestive_labels_def)
  have "map_of ked ''v'' = Some (JStr vs)" using same nv by (simp add: sad w' map_of_js_set)
  then have "map_of d ''v'' = Some (JStr vs)" using df(2) nv by simp
  moreover have "distinct (map fst d)" using ok df(1) by (simp add: key_order_def)
  ultimately have "w' = d" unfolding w' by (rule js_set_same)
  then show thesis
    using that [OF val val'(1) ok _ _ d] raw eq n dig by (simp add: sad)
qed

lemma keri_base: "serder_verify_keri we cls w = Inr u \<Longrightarrow> serder_verify_base we cls w = Inr ()"
  by (cases "serder_verify_base we cls w") (auto simp: serder_verify_keri_def)

text \<open>What reading one message from a stream establishes.\<close>

lemma read_Inr:
  assumes "serder_new we CKeri (RawInit input None None) = Inr w" and "sniff input = Inr ColdMsg"
    and "wi_kind w = ''JSON''"
  shows "serder_verify_keri we CKeri w = Inr ()" and "parse_bytes (sd_raw w) = sd_ked w"
    and "length (sd_raw w) \<le> wi_size w" and "sd_raw w = take (wi_size w) input"
    and "sd_said w = jstring (Option.bind (sd_ked w) (\<lambda>v. jfield v ''d''))"
proof -
  have cut: "(if length input = n then input else take n input) = take n input" for n by simp
  from assms(1,2) obtain sm ked ilk said where sm: "smell_of input = Inr sm"
    and p: "parseRawToKed we (take (sm_size sm) input) sm = Inr (ked, ilk, said)"
    and w: "w = hydrated (take (sm_size sm) input) sm ked ilk said"
    and v: "serder_check we CKeri w = Inr ()"
    by (auto simp: serder_new_def serder_from_raw_def reapCesrNativeBody_def verified_def or_else_def
        res_simps Let_def cut)
  show "serder_verify_keri we CKeri w = Inr ()" using v by (simp add: serder_check_def)
  have kind: "sm_kind sm = ''JSON''" and n: "wi_size w = sm_size sm"
    using assms(3) by (simp_all add: w hydrated_def)
  from p kind show "parse_bytes (sd_raw w) = sd_ked w"
    "sd_said w = jstring (Option.bind (sd_ked w) (\<lambda>v. jfield v ''d''))"
    by (auto simp: w hydrated_def parseRawToKed_def res_simps split: option.splits if_splits)
  show "sd_raw w = take (wi_size w) input" using n by (auto simp: w hydrated_def)
  then show "length (sd_raw w) \<le> wi_size w" by simp
qed

text \<open>The same with the result of the field check given.\<close>

lemma verified_given:
  assumes "serder_new we CKeri (RawInit input None None) = Inr w" and "sniff input = Inr ColdMsg"
    and "wi_kind w = ''JSON''" and val: "validateSadAgainstFieldDom CKeri w = Inr (fd, saids, ked)"
  obtains blank where "json_ok (JObj ked)" "sd_raw w = utf8 (JSON_stringify (JObj ked))"
    "sd_said w = jstring (map_of ked ''d'')" "dummy_fields saids ked = Inr blank"
    "\<forall>(l, c) \<in> set saids. c \<in> set DIGEST_CODES \<longrightarrow>
       holds_digest we (utf8 (JSON_stringify (JObj blank))) ked l c"
proof -
  note r = read_Inr [OF assms(1-3)]
  show thesis
  proof (rule verified_fix [OF keri_base [OF r(1)] assms(3) r(2,3)])
    fix fd' saids' ked' blank
    assume f: "validateSadAgainstFieldDom CKeri w = Inr (fd', saids', ked')" "sd_ked w = Some (JObj ked')"
      "json_ok (JObj ked')" "sd_raw w = utf8 (JSON_stringify (JObj ked'))"
      "dummy_fields saids' ked' = Inr blank"
      "\<forall>(l, c) \<in> set saids'. c \<in> set DIGEST_CODES \<longrightarrow>
         holds_digest we (utf8 (JSON_stringify (JObj blank))) ked' l c"
    have e: "saids' = saids" "ked' = ked" using f(1) val by simp_all
    have "sd_said w = jstring (map_of ked ''d'')" using r(5) f(2) e(2) by (simp add: jfield_def)
    then show thesis using that f(3-6) unfolding e by blast
  qed
qed

section \<open>One text, one message\<close>

lemma matter_of_raw_qb64:
  assumes "matter_of_raw c x = Inr m" and "c \<noteq> []"
  shows "mt_raw m = x" and "parseMatterFromTextData (utf8 (mt_qb64 m)) = Inr m"
proof -
  have "encodeMatterFromRaw c x = Inr m"
    using assms by (cases c) (simp_all add: matter_of_raw_def parseMatterInit_def)
  from encodeMatter_encoded [OF this] obtain z soft body where "mt_raw m = x" "encoded m z soft body" by blast
  then show "mt_raw m = x" "parseMatterFromTextData (utf8 (mt_qb64 m)) = Inr m"
    using encoded_text [of m z soft body "[]"] by (simp_all add: matter_qb64b_def)
qed

lemma digest_codes_nonempty: "c \<in> set DIGEST_CODES \<Longrightarrow> c \<noteq> []"
proof -
  have "list_all (\<lambda>c. c \<noteq> []) DIGEST_CODES" by code_simp
  then show "c \<in> set DIGEST_CODES \<Longrightarrow> c \<noteq> []" by (simp add: list_all_iff)
qed

lemma holds_digest_inj:
  assumes "holds_digest we x a l c" and "holds_digest we y b l c" and "map_of a l = map_of b l"
    and "c \<in> set DIGEST_CODES"
  shows "we_digest we c x = we_digest we c y"
proof -
  note ne = digest_codes_nonempty [OF assms(4)]
  from assms(1) obtain m where m: "matter_of_raw c (we_digest we c x) = Inr m" "map_of a l = Some (JStr (mt_qb64 m))"
    by (auto simp: holds_digest_def split: sum.splits)
  from assms(2) obtain n where n: "matter_of_raw c (we_digest we c y) = Inr n" "map_of b l = Some (JStr (mt_qb64 n))"
    by (auto simp: holds_digest_def split: sum.splits)
  have "mt_qb64 m = mt_qb64 n" using m n assms(3) by simp
  then have "m = n"
    using matter_of_raw_qb64(2) [OF m(1) ne] matter_of_raw_qb64(2) [OF n(1) ne] by (metis sum.inject(2))
  then show ?thesis using matter_of_raw_qb64(1) [OF m(1) ne] matter_of_raw_qb64(1) [OF n(1) ne] by metis
qed

lemma holds_digest_eq:
  "holds_digest we x a l c \<Longrightarrow> holds_digest we x b l c \<Longrightarrow> map_of a l = map_of b l"
  by (auto simp: holds_digest_def split: sum.splits)

lemma jstring_inj:
  assumes "holds_digest we x a l c" and "holds_digest we y b l c" and "jstring (map_of a l) = jstring (map_of b l)"
  shows "map_of a l = map_of b l"
  using assms by (auto simp: holds_digest_def jstring_def split: sum.splits)

lemma blank_determines:
  assumes "dummy_fields saids a = Inr d" and "dummy_fields saids b = Inr d" and "json_ok (JObj a)"
    and "\<forall>(l, c) \<in> set saids. c \<in> set DIGEST_CODES \<longrightarrow> holds_digest we x a l c"
    and "\<forall>(l, c) \<in> set saids. c \<in> set DIGEST_CODES \<longrightarrow> holds_digest we x b l c"
  shows "a = b"
proof (rule alist_eq)
  note da = dummy_fields_Inr [OF assms(1)] and db = dummy_fields_Inr [OF assms(2)]
  show "map fst a = map fst b" using da(1) db(1) by simp
  show "distinct (map fst a)" using assms(3) by (simp add: key_order_def)
  show "map_of a = map_of b"
  proof
    fix k
    show "map_of a k = map_of b k"
    proof (cases "k \<in> digestive_labels saids")
      case True
      then obtain c where c: "(k, c) \<in> set saids" "c \<in> set DIGEST_CODES" by (auto simp: digestive_labels_def)
      have "holds_digest we x a k c" "holds_digest we x b k c" using assms(4,5) c by blast+
      then show ?thesis by (rule holds_digest_eq)
    next
      case False
      then show ?thesis using da(2) db(2) by metis
    qed
  qed
qed

section \<open>Properties\<close>

text \<open>C37: A version string is found where it was written. Whatever \<open>versify\<close> writes for a
  protocol and kind of four capital letters and versions and a size that fit the form,
  \<open>smell\<close> finds at its offset in a stream, behind up to twelve bytes that are no capital
  letters and before any other bytes, and reads back protocol, versions, kind and size from it;
  the older form is never taken for the newer one.\<close>

theorem version_string_found:
  assumes "versify proto pvrsn gvrsn kind n = Inr vs" and "version_fits proto pvrsn kind n"
    and "list_all (\<lambda>c. \<not> is_upper c) (text_of pre)" and "length pre \<le> 12"
  shows "smell (pre @ utf8 vs @ rest) =
    Inr (\<lparr>sm_proto = proto, sm_pvrsn = pvrsn, sm_gvrsn = genus_of pvrsn gvrsn,
          sm_kind = kind, sm_size = n\<rparr>, length pre, length vs)"
  using assms by (rule smell_written)

theorem version_string_found_witness:
  "smell ([0x7B, 0x22, 0x76, 0x22, 0x3A, 0x22] @ utf8 ''KERICAACAAJSONAAFb.'' @ [0x22, 0x7D])
    = Inr (\<lparr>sm_proto = ''KERI'', sm_pvrsn = Vrsn_2_0, sm_gvrsn = genus_of Vrsn_2_0 (Some Vrsn_2_0),
            sm_kind = ''JSON'', sm_size = 347\<rparr>, length [0x7B, 0x22, 0x76, 0x22, 0x3A, 0x22 :: byte],
            length ''KERICAACAAJSONAAFb.'')"
proof (rule version_string_found)
  show "versify ''KERI'' Vrsn_2_0 (Some Vrsn_2_0) ''JSON'' 347 = Inr ''KERICAACAAJSONAAFb.''" by code_simp
  show "version_fits ''KERI'' Vrsn_2_0 ''JSON'' 347"
    by (simp add: version_fits_def is_upper_def Vrsn_2_0_def)
  show "list_all (\<lambda>c. \<not> is_upper c) (text_of [0x7B, 0x22, 0x76, 0x22, 0x3A, 0x22])" by code_simp
  show "length [0x7B, 0x22, 0x76, 0x22, 0x3A, 0x22 :: byte] \<le> 12" by simp
qed





end
