(* ===== verification/SerderMade.thy ===== *)
theory SerderMade
  imports SerderProps
begin

text \<open>
  A message made from its fields and the message read back from its bytes: the body stays a value
  in property order through normalization, blanking and filling; the head of the stream tells the
  version string whatever follows; and the reader arrives at the record the constructor left.
\<close>

declare json_ok.simps(6) [simp del]

section \<open>The body stays in order\<close>

lemma dummy_fields_ok: "dummy_fields saids kvs = Inr d \<Longrightarrow> json_ok (JObj kvs) \<Longrightarrow> json_ok (JObj d)"
  by (rule dummy_fields_Inr(3))

lemma fill_fields_ok:
  "fill_fields we ser saids kvs acc = Inr (d, acc') \<Longrightarrow> json_ok (JObj kvs) \<Longrightarrow> json_ok (JObj d)"
proof (induction we ser saids kvs acc rule: fill_fields.induct)
  case (1 we ser kvs acc)
  then show ?case by simp
next
  case (2 we ser l c saids kvs acc)
  show ?case
  proof (cases "c \<in> set DIGEST_CODES")
    case False
    then have "fill_fields we ser saids kvs acc = Inr (d, acc')" using 2(3) by simp
    then show ?thesis using 2(1) 2(4) False by blast
  next
    case True
    then obtain m where m: "fill_fields we ser saids (js_set l (JStr (mt_qb64 m)) kvs) (acc @ [(l, m)]) = Inr (d, acc')"
      using 2(3) by (auto simp: res_simps)
    have nn: "\<not> c \<notin> set DIGEST_CODES" using True by blast
    from 2(2) [OF nn m] show ?thesis using json_ok_set [OF 2(4), of "JStr (mt_qb64 m)" l] by simp
  qed
qed

text \<open>A text field stays a text field.\<close>

definition text_at :: "string \<Rightarrow> sad \<Rightarrow> bool" where
  "text_at k kvs \<longleftrightarrow> (\<exists>s. map_of kvs k = Some (JStr s))"

lemma text_at_set [simp]: "text_at k kvs \<Longrightarrow> text_at k (js_set l (JStr s) kvs)"
  by (auto simp: text_at_def map_of_js_set)

lemma text_at_new [simp]: "text_at k (js_set k (JStr s) kvs)"
  by (simp add: text_at_def map_of_js_set)

lemma dummy_fields_text: "dummy_fields saids kvs = Inr d \<Longrightarrow> text_at k kvs \<Longrightarrow> text_at k d"
proof (induction saids kvs rule: dummy_fields.induct)
  case (1 kvs)
  then show ?case by simp
next
  case (2 l c saids kvs)
  from 2(3) have here: "has_key kvs l" by (auto split: if_splits)
  show ?case
  proof (cases "c \<in> set DIGEST_CODES")
    case False
    then show ?thesis using 2(1) 2(3,4) here by simp
  next
    case True
    then obtain z f where z: "map_of MATTER_SIZES c = Some z" "m_fs z = Some f"
      and d: "dummy_fields saids (js_set l (JStr (replicate f (CHR ''#''))) kvs) = Inr d"
      using 2(3) here by (auto split: option.splits)
    have "\<not> \<not> has_key kvs l" "\<not> c \<notin> set DIGEST_CODES" using here True by blast+
    from 2(2) [OF this z d] show ?thesis using 2(4) by simp
  qed
qed

lemma fill_fields_text:
  "fill_fields we ser saids kvs acc = Inr (d, acc') \<Longrightarrow> text_at k kvs \<Longrightarrow> text_at k d"
proof (induction we ser saids kvs acc rule: fill_fields.induct)
  case (1 we ser kvs acc)
  then show ?case by simp
next
  case (2 we ser l c saids kvs acc)
  show ?case
  proof (cases "c \<in> set DIGEST_CODES")
    case False
    then have "fill_fields we ser saids kvs acc = Inr (d, acc')" using 2(3) by simp
    then show ?thesis using 2(1) 2(4) False by blast
  next
    case True
    then obtain m where m: "fill_fields we ser saids (js_set l (JStr (mt_qb64 m)) kvs) (acc @ [(l, m)]) = Inr (d, acc')"
      using 2(3) by (auto simp: res_simps)
    have nn: "\<not> c \<notin> set DIGEST_CODES" using True by blast
    from 2(2) [OF nn m] show ?thesis using 2(4) by simp
  qed
qed

lemma sizeify_keeps:
  assumes "sizeify we kvs (Some k) = Inr z"
  shows "json_ok (JObj kvs) \<Longrightarrow> json_ok (JObj (sz_ked z))" and "text_at l kvs \<Longrightarrow> text_at l (sz_ked z)"
  using assms by (rule sizeify_Inr; simp add: json_ok_set)+

lemma saidify_keeps:
  assumes "saidifyFields we kvs (Some ''JSON'') saids = Inr r"
  shows "json_ok (JObj kvs) \<Longrightarrow> json_ok (JObj (sf_sad r))" and "text_at k kvs \<Longrightarrow> text_at k (sf_sad r)"
    and "sf_raw r = utf8 (JSON_stringify (JObj (sf_sad r)))"
proof -
  from assms obtain d z filled saiders where d: "dummy_fields saids kvs = Inr d"
    and hv: "(if has_key d ''v'' then bind_res (sizeify we d (Some ''JSON'')) (\<lambda>z. Inr (sz_ked z)) else Inr d) = Inr z"
    and f: "fill_fields we (utf8 (JSON_stringify (JObj z))) saids z [] = Inr (filled, saiders)"
    and r: "r = \<lparr>sf_sad = filled, sf_raw = utf8 (JSON_stringify (JObj filled)), sf_saiders = saiders\<rparr>"
    by (auto simp: saidifyFields_def dumps_def res_simps)
  have z: "(json_ok (JObj d) \<longrightarrow> json_ok (JObj z)) \<and> (text_at k d \<longrightarrow> text_at k z)"
    using hv sizeify_keeps(1) [of we d] sizeify_keeps(2) [of we d _ _ k] by (auto simp: res_simps split: if_splits)
  show "json_ok (JObj kvs) \<Longrightarrow> json_ok (JObj (sf_sad r))"
    using fill_fields_ok [OF f] z dummy_fields_ok [OF d] by (simp add: r)
  show "text_at k kvs \<Longrightarrow> text_at k (sf_sad r)"
    using fill_fields_text [OF f] z dummy_fields_text [OF d] by (simp add: r)
  show "sf_raw r = utf8 (JSON_stringify (JObj (sf_sad r)))" by (simp add: r)
qed

lemma foldl_ok:
  assumes "json_ok (JObj s)" and "\<And>s x. x \<in> set xs \<Longrightarrow> json_ok (JObj s) \<Longrightarrow> json_ok (JObj (f s x))"
  shows "json_ok (JObj (foldl f s xs))"
  using assms by (induction xs arbitrary: s) (simp_all)

lemma normalize_ok:
  assumes "json_ok (JObj (or_else sad []))" and "dom_ok fd"
  shows "json_ok (JObj (normalizeSadWithFieldDom sad fd))"
proof -
  have dv: "json_ok v" if "(k, v) \<in> set (fd_alls fd)" for k v
    using assms(2) that by (auto simp: dom_ok_def list_all_iff)
  have nil: "json_ok (JObj [])" by (simp add: key_order_def json_ok.simps(6))
  have mem: "json_ok v" if "json_ok (JObj kvs)" "(k, v) \<in> set kvs" for kvs k v
    using that unfolding json_ok_obj by fastforce
  have add: "json_ok (JObj (add_defaults opts (fd_alls fd) w))" if "json_ok (JObj w)" for opts w
    unfolding add_defaults_def using that dv
    by (intro foldl_ok) (auto intro!: json_ok_set dest: dv)
  have pick: "json_ok (JObj (pick_fields labels w))" if "json_ok (JObj w)" for labels w
    unfolding pick_fields_def using nil mem [OF that]
    by (intro foldl_ok) (auto intro!: json_ok_set dest!: map_of_SomeD split: option.split)
  have rest: "json_ok (JObj (add_rest w r))" if "json_ok (JObj w)" "json_ok (JObj r)" for w r
    unfolding add_rest_def using that(2) mem [OF that(1)]
    by (intro foldl_ok) (auto intro!: json_ok_set)
  show ?thesis
    unfolding normalizeSadWithFieldDom_def Let_def using assms(1) by (intro rest add pick) simp_all
qed

lemma set_head_ok: "json_ok (JObj sad) \<Longrightarrow> json_ok (JObj (set_head sad ilk vs))"
  unfolding set_head_def by (cases ilk) (simp_all add: json_ok_set)

lemma set_head_text: "text_at ''t'' (set_head sad (Some t) vs)"
  by (simp add: set_head_def)

section \<open>The head of the stream\<close>

lemma VER_window: "VER1 s = VER1 (take 17 s)" "VER2 s = VER2 (take 19 s)"
  by (simp_all add: VER1_def VER2_def slice_def min_def drop_take)

lemma smell_extend:
  assumes "smell raw = Inr r" and "31 \<le> length raw"
  shows "smell (raw @ rest) = Inr r"
proof -
  define s where "s = text_of (take 256 raw)"
  define t where "t = text_of (take 256 (raw @ rest))"
  have st: "\<exists>q. t = s @ q" by (simp add: s_def t_def)
  have len: "31 \<le> length s" using assms(2) by (simp add: s_def)
  have win: "take n (drop i t) = take n (drop i s)" if "n \<le> 19" "i \<le> 12" for n i
    using st len that by auto
  have v: "VER1 (drop i t) = VER1 (drop i s)" "VER2 (drop i t) = VER2 (drop i s)" if "i \<le> 12" for i
    using VER_window(1) [of "drop i t"] VER_window(1) [of "drop i s"] VER_window(2) [of "drop i t"]
      VER_window(2) [of "drop i s"] win [of 17 i] win [of 19 i] that by simp_all
  have long: "length s \<le> length t" using st by auto
  have near: "near (exec_index p t) = near (exec_index p s)"
    if "\<And>i. i \<le> 12 \<Longrightarrow> p (drop i t) = p (drop i s)" for p
  proof (cases "\<exists>i \<le> 12. p (drop i s)")
    case False
    then show ?thesis using that near_None [of p s] near_None [of p t] by simp
  next
    case True
    define i where "i = (LEAST i. p (drop i s))"
    have i: "p (drop i s)" "i \<le> 12" "\<forall>j < i. \<not> p (drop j s)"
      using True unfolding i_def by (auto intro: LeastI Least_le order_trans dest: not_less_Least)
    then have "exec_index p s = Some i" "exec_index p t = Some i"
      using that len long by (auto intro!: exec_index_at)
    then show ?thesis by simp
  qed
  have n1: "near (exec_index VER1 t) = near (exec_index VER1 s)" using v(1) by (rule near)
  have n2: "near (exec_index VER2 t) = near (exec_index VER2 s)" using v(2) by (rule near)
  have slices: "slice a b (drop i t) = slice a b (drop i s)" if "b \<le> 19" "i \<le> 12" for a b i
  proof -
    have "slice a b (drop i t) = drop a (take b (drop i t))" by (simp add: slice_def drop_take)
    also have "\<dots> = drop a (take b (drop i s))" using win [of b i] that by simp
    finally show ?thesis by (simp add: slice_def drop_take)
  qed
  have g: "ver1_groups (drop i t) = ver1_groups (drop i s)" "ver2_groups (drop i t) = ver2_groups (drop i s)"
    if "i \<le> 12" for i
    unfolding ver1_groups_def ver2_groups_def using slices [of _ i] that by (simp_all del: slice_0)
  have le: "i \<le> 12" if "near m = Some i" for m i using that by (simp add: near_Some_iff)
  show ?thesis
    using assms(1) unfolding smell_def Let_def s_def [symmetric] t_def [symmetric] n1 n2
    by (auto simp: g le split: option.splits if_splits)
qed

section \<open>The length of a body\<close>

lemma stringify_nonempty: "1 \<le> length (JSON_stringify v)"
  by (cases v) (auto simp: json_quote_def int_dec_def Suc_le_eq JSON_stringify.simps(6))

lemma json_char_nonempty: "1 \<le> length (json_char c)"
  by (simp add: json_char_def)

lemma quote_length: "length s + 2 \<le> length (json_quote s)"
proof -
  have "length s \<le> length (concat (map json_char s))"
  proof (induction s)
    case (Cons c s)
    then show ?case using json_char_nonempty [of c] by simp
  qed simp
  then show ?thesis by (simp add: json_quote_def)
qed

lemma join_length: "ws \<noteq> [] \<Longrightarrow> length (js_join c ws) + 1 = sum_list (map length ws) + length ws"
  by (induction c ws rule: js_join.induct) auto

lemma sum_at_least: "\<forall>x \<in> set xs. (n :: nat) \<le> f x \<Longrightarrow> n * length xs \<le> sum_list (map f xs)"
  by (induction xs) auto

lemma object_length:
  assumes "kvs \<noteq> []" and "\<forall>k \<in> fst ` set kvs. k \<noteq> []"
  shows "6 * length kvs + 1 \<le> length (JSON_stringify (JObj kvs))"
proof -
  let ?ms = "map json_member (map (map_prod id JSON_stringify) kvs)"
  have "\<forall>m \<in> set kvs. 5 \<le> length (json_member (map_prod id JSON_stringify m))"
  proof
    fix m
    assume that: "m \<in> set kvs"
    have "fst m \<noteq> []" using assms(2) that by force
    then have "1 \<le> length (fst m)" by (cases "fst m") simp_all
    then show "5 \<le> length (json_member (map_prod id JSON_stringify m))"
      using quote_length [of "fst m"] stringify_nonempty [of "snd m"]
      by (simp add: json_member_def map_prod_def split_beta)
  qed
  from sum_at_least [OF this] have "5 * length kvs \<le> sum_list (map length ?ms)"
    by (simp add: comp_def)
  moreover have "length (js_join (CHR '','') ?ms) + 1 = sum_list (map length ?ms) + length ?ms"
    by (rule join_length) (use assms(1) in simp)
  ultimately show ?thesis by (simp add: JSON_stringify.simps(6))
qed

lemma utf8_length: "length s \<le> length (utf8 s)"
  by (induction s) (auto simp: utf8_def utf8_char_def Let_def Suc_le_eq)

text \<open>Every KERI message type has at least five fields, all of them required.\<close>

definition keri_dom :: "field_dom \<Rightarrow> bool" where
  "keri_dom fd \<longleftrightarrow> 5 \<le> length (fd_alls fd) \<and> or_else (fd_opts fd) [] = []
     \<and> list_all (\<lambda>k. k \<noteq> []) (map fst (fd_alls fd)) \<and> or_else (fd_strict fd) True"

lemma keri_doms: "list_all (\<lambda>(k, fm). list_all (\<lambda>(ilk, fd). keri_dom fd \<and> ilk \<noteq> ''<none>'') fm)
    (or_else (map_of FIELDS ''KERI'') [])"
  by code_simp

lemma getFieldDom_keri:
  assumes "getFieldDom ''KERI'' v ilk = Inr fd"
  shows "keri_dom fd" and "ilk \<noteq> None"
proof -
  from assms obtain m fm where m: "map_of FIELDS ''KERI'' = Some m" "map_of m (versionKey v) = Some fm"
    "map_of fm (fieldMapKey ilk) = Some fd"
    by (auto simp: getFieldDom_def split: option.splits)
  then have "(versionKey v, fm) \<in> set m" "(fieldMapKey ilk, fd) \<in> set fm" by (auto dest: map_of_SomeD)
  then have "keri_dom fd \<and> fieldMapKey ilk \<noteq> ''<none>''"
    using keri_doms m(1) unfolding list_all_iff or_else_def by fastforce
  then show "keri_dom fd" "ilk \<noteq> None" by (cases ilk; simp add: fieldMapKey_def or_else_def)+
qed

lemma keri_body_length:
  assumes "validateSadAgainstFieldDom CKeri w = Inr (fd, saids, ked)"
  shows "31 \<le> length (JSON_stringify (JObj ked))"
proof -
  note v = validate_Inr [OF assms]
  have "wi_proto w = ''KERI''"
    using assms by (auto simp: validateSadAgainstFieldDom_def Let_def res_simps ctor_Protocol_def)
  then have fd: "keri_dom fd" using v(2) getFieldDom_keri(1) by simp
  have req: "list_all (has_key ked) (map fst (fd_alls fd))"
    and extra: "filter (\<lambda>k. k \<notin> set (map fst (fd_alls fd))) (map fst ked) = []"
    using assms fd
    by (auto simp: validateSadAgainstFieldDom_def Let_def res_simps v(1,2) keri_dom_def)
  have sub: "set (map fst (fd_alls fd)) \<subseteq> fst ` set ked"
    using req by (auto simp: list_all_iff has_key_iff)
  have "length (fd_alls fd) = card (set (map fst (fd_alls fd)))"
    using getFieldDom_labels(4) [OF v(2)] distinct_card [of "map fst (fd_alls fd)"] by simp
  also have "\<dots> \<le> card (fst ` set ked)" using sub by (intro card_mono) simp_all
  also have "\<dots> \<le> length ked" using card_length [of "map fst ked"] by simp
  finally have n: "5 \<le> length ked" using fd by (simp add: keri_dom_def)
  have "fst ` set ked \<subseteq> set (map fst (fd_alls fd))" using extra by (auto simp: filter_empty_conv)
  moreover have "\<forall>k \<in> set (map fst (fd_alls fd)). k \<noteq> []" using fd by (simp add: keri_dom_def list_all_iff)
  ultimately have "\<forall>k \<in> fst ` set ked. k \<noteq> []" by blast
  from object_length [OF _ this] n show ?thesis by (cases ked) auto
qed

lemma sniff_object: "sniff (utf8 (JSON_stringify (JObj kvs)) @ rest) = Inr ColdMsg"
proof -
  have "utf8 (JSON_stringify (JObj kvs)) = 0x7B # utf8 (drop 1 (JSON_stringify (JObj kvs)))"
    by (simp add: utf8_def utf8_char_def JSON_stringify.simps(6))
  moreover have "unat (drop_bit 5 (0x7B :: byte)) = 3" by code_simp
  ultimately show ?thesis by (simp add: sniff_def)
qed

section \<open>Made and read back\<close>

lemma made_Inr:
  assumes "serder_from_sad we CKeri init = Inr w" and "si_proto init = Some ''KERI''"
    and "si_kind init = Some ''JSON''" and "si_verify init \<noteq> Some False"
    and "json_ok (JObj (or_else (si_sad init) []))"
  obtains sad sm ilk where "json_ok (JObj sad)" "text_at ''t'' sad"
    "smell_of (utf8 (JSON_stringify (JObj sad))) = Inr sm"
    "w = hydrated (utf8 (JSON_stringify (JObj sad))) sm (Some (JObj sad)) (jstring (map_of sad ''t''))
           (jstring (map_of sad ''d''))"
    "serder_check we CKeri w = Inr ()"
proof -
  from assms(1) obtain rv fd vs sad raw sm where rv: "resolveProtocolDefaults CKeri init = Inr rv"
    and fd: "getFieldDom (rv_proto rv) (rv_pvrsn rv) (rv_ilk rv) = Inr fd"
    and made: "(if or_else (si_makify init) False then
        (if rv_proto rv = ''ACDC'' then
           bind_res (computeAcdcSad we (set_head (normalizeSadWithFieldDom (Some (rv_sad rv)) fd) (rv_ilk rv) vs)
             (rv_kind rv) (rv_pvrsn rv) (rv_saids rv) (or_else (si_compactify init) False))
             (\<lambda>a. Inr (am_sad a, am_raw a))
         else bind_res (saidifyFields we (set_head (normalizeSadWithFieldDom (Some (rv_sad rv)) fd) (rv_ilk rv) vs)
                (Some (rv_kind rv)) (rv_saids rv)) (\<lambda>a. Inr (sf_sad a, sf_raw a)))
      else bind_res (sizeify we (shallowCloneSad (set_head (normalizeSadWithFieldDom (Some (rv_sad rv)) fd) (rv_ilk rv) vs))
             (Some (rv_kind rv))) (\<lambda>z. Inr (sz_ked z, sz_raw z))) = Inr (sad, raw)"
    and sm: "(if rv_kind rv = ''CESR'' then Inr (nativeSmellage (rv_proto rv) (rv_pvrsn rv) (rv_gvrsn rv) (length raw))
      else smell_of raw) = Inr sm"
    and w: "verified we CKeri (si_verify init) (hydrated raw sm (Some (JObj sad))
      (case jstring (map_of sad ''t'') of Some t \<Rightarrow> Some t | None \<Rightarrow> rv_ilk rv) (jstring (map_of sad ''d''))) = Inr w"
    by (auto simp: serder_from_sad_def Let_def res_simps simp del: if_split_asm)
  from rv assms(2,3) have pk: "rv_proto rv = ''KERI''" "rv_kind rv = ''JSON''"
    by (auto simp: resolveProtocolDefaults_def Let_def res_simps or_else_def)
  obtain t where t: "rv_ilk rv = Some t" using getFieldDom_keri(2) fd pk(1) by (cases "rv_ilk rv") auto
  from rv obtain fd' vs' where rvs: "rv_sad rv = set_head (normalizeSadWithFieldDom
      (Some (shallowCloneSad (or_else (si_sad init) []))) fd') (rv_ilk rv) vs'" and fd': "dom_ok fd'"
    by (auto simp: resolveProtocolDefaults_def Let_def res_simps dest: getFieldDom_ok)
  let ?n = "set_head (normalizeSadWithFieldDom (Some (rv_sad rv)) fd) (rv_ilk rv) vs"
  have "json_ok (JObj (rv_sad rv))"
    unfolding rvs using assms(5) fd' by (intro set_head_ok normalize_ok) (simp_all add: or_else_def)
  then have ok: "json_ok (JObj ?n)"
    using getFieldDom_ok [OF fd] by (intro set_head_ok normalize_ok) (simp_all add: or_else_def)
  have typed: "text_at ''t'' ?n" unfolding t by (rule set_head_text)
  have "json_ok (JObj sad) \<and> text_at ''t'' sad \<and> raw = utf8 (JSON_stringify (JObj sad))"
  proof (cases "or_else (si_makify init) False")
    case True
    then obtain a where "saidifyFields we ?n (Some ''JSON'') (rv_saids rv) = Inr a" "sad = sf_sad a" "raw = sf_raw a"
      using made pk by (auto simp: res_simps)
    then show ?thesis using saidify_keeps(1,3) [of we ?n "rv_saids rv" a] saidify_keeps(2) [of we ?n "rv_saids rv" a "''t''"] ok typed by blast
  next
    case False
    then obtain z where z: "sizeify we ?n (Some ''JSON'') = Inr z" "sad = sz_ked z" "raw = sz_raw z"
      using made pk by (auto simp: res_simps)
    have "raw = utf8 (JSON_stringify (JObj sad))"
      using z(1) by (rule sizeify_Inr) (simp add: dumps_def z(2,3))
    then show ?thesis using sizeify_keeps [OF z(1)] z(2) ok typed by blast
  qed
  then have ok': "json_ok (JObj sad)" and typed': "text_at ''t'' sad"
    and raw: "raw = utf8 (JSON_stringify (JObj sad))" by blast+
  have ilk: "(case jstring (map_of sad ''t'') of Some t \<Rightarrow> Some t | None \<Rightarrow> rv_ilk rv) = jstring (map_of sad ''t'')"
    using typed' by (auto simp: text_at_def jstring_def)
  have vf: "or_else (si_verify init) True" using assms(4) by (cases "si_verify init") (auto simp: or_else_def)
  show thesis
    by (rule that [OF ok' typed', of sm])
      (use sm pk w vf ilk raw in \<open>auto simp: verified_def res_simps\<close>)
qed

text \<open>C40: A made message is read back. A KERI message of the JSON kind that the constructor makes
  from fields, filling in defaults and SAIDs, and that passes its verification, is read from its
  bytes, whatever follows them in the stream, as the same message: bytes, fields, type, SAID,
  version, kind and size; and the reader verifies it.\<close>

theorem made_message_reads_back:
  assumes "serder_new we CKeri (SadInit init) = Inr w" and "si_proto init = Some ''KERI''"
    and "si_kind init = Some ''JSON''" and "si_verify init \<noteq> Some False"
    and "json_ok (JObj (or_else (si_sad init) []))" and "wi_kind w = ''JSON''"
  shows "serder_new we CKeri (RawInit (sd_raw w @ rest) None None) = Inr w"
proof -
  from assms(1) have made: "serder_from_sad we CKeri init = Inr w" and kind: "wi_proto w = ''KERI''"
    by (auto simp: serder_new_def res_simps ctor_Protocol_def)
  from made_Inr [OF made assms(2-5)] obtain sad sm where s: "json_ok (JObj sad)" "text_at ''t'' sad"
    "smell_of (utf8 (JSON_stringify (JObj sad))) = Inr sm"
    "w = hydrated (utf8 (JSON_stringify (JObj sad))) sm (Some (JObj sad)) (jstring (map_of sad ''t''))
           (jstring (map_of sad ''d''))"
    and check: "serder_check we CKeri w = Inr ()" by metis
  let ?raw = "utf8 (JSON_stringify (JObj sad))"
  have p: "parse_bytes ?raw = Some (JObj sad)" by (rule parse_bytes_written [OF s(1)])
  have base: "serder_verify_base we CKeri w = Inr ()" using check keri_base by (simp add: serder_check_def)
  from base obtain fd saids ked r where val: "validateSadAgainstFieldDom CKeri w = Inr (fd, saids, ked)"
    and r: "saidifyFields we ked (Some ''JSON'') saids = Inr r"
    and t: "js_t (sf_raw r) = js_t (sd_raw w)" and n: "length (sf_raw r) = wi_size w"
    using assms(6) by (auto simp: serder_verify_base_def res_simps)
  have ked: "ked = sad" using validate_Inr(1) [OF val] s(4) by (simp add: hydrated_def)
  have "js_t (utf8 (JSON_stringify (JObj (sf_sad r)))) = js_t ?raw"
    using t saidify_keeps(3) [OF r] by (simp add: s(4) hydrated_def)
  then have "JSON_stringify (JObj (sf_sad r)) = JSON_stringify (JObj sad)"
    unfolding js_t_utf8 by (rule map_injective) (simp add: inj_def)
  then have size: "sm_size sm = length ?raw"
    using n saidify_keeps(3) [OF r] by (simp add: s(4) hydrated_def)
  have "31 \<le> length ?raw"
    using keri_body_length [OF val] utf8_length [of "JSON_stringify (JObj sad)"] by (simp add: ked)
  then have sm: "smell_of (?raw @ rest) = Inr sm"
    using s(3) smell_extend [of ?raw] by (auto simp: smell_of_def res_simps)
  have skind: "sm_kind sm = ''JSON''" using assms(6) by (simp add: s(4) hydrated_def)
  have cut: "(if length (?raw @ rest) = sm_size sm then ?raw @ rest else take (sm_size sm) (?raw @ rest)) = ?raw"
    by (simp add: size)
  have ked_parts: "parseRawToKed we ?raw sm
      = Inr (Some (JObj sad), jstring (map_of sad ''t''), jstring (map_of sad ''d''))"
    by (simp add: parseRawToKed_def skind p jfield_def)
  have raw: "sd_raw w = ?raw" by (simp add: s(4) hydrated_def)
  have "serder_from_raw we CKeri (?raw @ rest) None None = Inr w"
    unfolding serder_from_raw_def reapCesrNativeBody_def Let_def
    using check by (simp add: sniff_object sm cut [simplified] ked_parts verified_def or_else_def flip: s(4))
  then show ?thesis using kind by (simp add: serder_new_def raw ctor_Protocol_def)
qed

theorem made_message_reads_back_witness:
  "serder_new ex_wire CKeri (SadInit ex_fields) = Inr ex_message
   \<and> serder_new ex_wire CKeri (RawInit (sd_raw ex_message @ [0x2D, 0x41]) None None) = Inr ex_message"
proof
  show "serder_new ex_wire CKeri (SadInit ex_fields) = Inr ex_message" by (rule ex_made)
  have "json_ok (JObj (or_else (si_sad ex_fields) []))" by code_simp
  then show "serder_new ex_wire CKeri (RawInit (sd_raw ex_message @ [0x2D, 0x41]) None None) = Inr ex_message"
    by (intro made_message_reads_back [OF ex_made]) (simp_all add: ex_fields_def ex_message_fields)
qed

end
