(* ===== verification/Spec2Isabelle.thy ===== *)
theory Spec2Isabelle
  imports GroupDispatch KeveryProps LmdbIoSets CloneProps ReplyResults SerderMade
begin

text \<open>
  A verification library for keri-ts: CESR, the self-framing encoding of \<^verbatim>\<open>packages/cesr\<close>,
  the signing thresholds, and the key event logic of \<^verbatim>\<open>packages/keri\<close>: the
  key-state machine of an identifier and the processor that feeds events to it.

  Parts of the program and theories, bottom up.

  \<^item> \<open>Prelude\<close>: a throw is a value \<open>Inl e\<close> of a sum, \<open>bind_res\<close> its
    propagation; the JavaScript operations on strings and arrays the code uses; numbers printed
    and read in a base.
  \<^item> \<open>CesrBytes\<close> (\<^verbatim>\<open>core/bytes.ts\<close>, \<^verbatim>\<open>core/errors.ts\<close>): Base64 text and bytes,
    integers in Base64, the conversions between the text and the binary domain.
  \<^item> \<open>CesrTables\<close> (\<^verbatim>\<open>tables\<close>, \<^verbatim>\<open>primitives/codex.ts\<close>): the code tables, transcribed,
    and what every row of them satisfies.
  \<^item> \<open>Codec\<close>: the interface of a self-framing encoding as the locale \<open>cesr_codec\<close>, with
    its consequences (injectivity, prefix freedom, parsing of sequences); \<open>Matter\<close>,
    \<open>Indexer\<close> and \<open>Counter\<close> interpret it in the text and in the binary domain.
  \<^item> \<open>Matter\<close> (\<^verbatim>\<open>primitives/matter.ts\<close>), \<open>Indexer\<close> (\<^verbatim>\<open>indexer.ts\<close>,
    \<^verbatim>\<open>siger.ts\<close>), \<open>Counter\<close> (\<^verbatim>\<open>counter.ts\<close>,
    \<^verbatim>\<open>tables/counter-version-registry.ts\<close>, keri \<^verbatim>\<open>attachment-countering.ts\<close>): the three
    primitive formats, encoding, both parsers, constructors and projections. The lemmas are
    round trips in both domains, framing, exact domains of the encoders, and version resolution.
  \<^item> \<open>GroupDispatch\<close> (\<^verbatim>\<open>parser/group-dispatch.ts\<close>,
    \<^verbatim>\<open>attachment-fallback-policy.ts\<close>): the dispatch table and every group parser, nested groups
    with fuel. The fuel is an argument of \<open>dispatch\<close>; the termination property shows that
    the input length is always enough. The lemmas are framing, termination, the relation of the two
    modes, and round trips per family of groups.
  \<^item> \<open>Primitives\<close> (\<^verbatim>\<open>number.ts, seqner.ts, bexter.ts, dater.ts, prefixer.ts, verfer.ts,
    diger.ts\<close>): the value primitives over Matter.
  \<^item> \<open>Json\<close>: JSON-shaped values. \<open>Tholder\<close> (\<^verbatim>\<open>primitives/tholder.ts\<close>):
    thresholds, their exact rationals, their limen and semantic forms, and satisfaction, which is
    shown equal to a declarative sum over slots.

  \<^item> \<open>Structing\<close> (\<^verbatim>\<open>structing.ts, tagger.ts, verser.ts\<close>): seals.
    \<open>Serder\<close> (\<^verbatim>\<open>serder/serder.ts\<close>, the KERI getters): the typed fields of a
    decoded message body, and JavaScript numbers where sequence numbers use them.
  \<^item> \<open>Smell\<close> (\<^verbatim>\<open>serder/smell.ts\<close>): version strings.
    \<open>JsonText\<close> and \<open>JsonLaws\<close>: \<open>JSON.stringify\<close>, \<open>JSON.parse\<close> and the
    UTF-8 decoder, with the round trips and the order of object members.
    \<open>FieldDoms\<close>, \<open>Saidify\<close>, \<open>Serders\<close> and \<open>SerderLaws\<close>
    (\<^verbatim>\<open>serder/serder.ts, primitives/saider.ts, parser/cold-start.ts\<close>): the fields of every message type,
    sizing and self-addressing digests, construction of a message from its fields or its bytes, and
    its verification. The MGPK, CBOR and native codecs and the compaction of ACDC sections are
    fields of the parameter \<open>wire_env\<close>. In JSON, a text with characters above 255 or with a
    number that is no integer below \<open>2 ^ 53\<close> is outside the model.
    \<open>SerderSamples\<close> makes and reads one message by evaluation; \<open>SerderProps\<close> and
    \<open>SerderMade\<close> hold what the component promises: a version string is found again, a
    message that is accepted holds the digest of its blanked text, its SAID binds its bytes unless
    two texts collide, and a made message is read back.
  \<^item> \<open>Witnesses\<close> (\<^verbatim>\<open>core/witnesses.ts\<close>): rotated witness lists.
    \<open>Baser\<close> (\<^verbatim>\<open>db/basing.ts, core/records.ts\<close>): the stores of the key event
    logic as one record of maps, and the ordinal logs; a store of several values per ordinal is the
    interface \<open>ordinal_store\<close>.
  \<^item> \<open>Kever\<close>, \<open>KeverChecks\<close>, \<open>KeverAttach\<close>, \<open>KeverEval\<close>
    (\<^verbatim>\<open>core/kever.ts, kever-decisions.ts\<close>): the machine, its reload from a key
    state, ownership and delegation checks, the validation of attachments, the evaluation of
    inception, rotation and interaction events, and the logging of an event.
  \<^item> \<open>Kevery\<close> (\<^verbatim>\<open>core/eventing.ts\<close>): the processor. \<open>decideEvent\<close>
    routes an event to its machine, \<open>applyDecision\<close> writes what was decided,
    \<open>processEvent\<close> composes them; the escrow functions replay what was set aside.
  \<^item> \<open>KeverFrame\<close> proves once which relations on the stores the operations keep: the
    locales \<open>act_frame\<close>, \<open>eval_frame\<close> and \<open>log_frame\<close> ask for the
    laws of the few operations that write, and give the frame of every other one.
    \<open>KeveryInv\<close> interprets them for the writes of a decision, the growth of the logs, the
    shape and the links of the stores, and defines the steps and runs of the processor;
    \<open>KeveryProps\<close> states the properties of runs. \<open>KeverSafety\<close> and
    \<open>KeverAccept\<close> show what an accepted event satisfies, \<open>KeverReload\<close> that
    the saved state of a machine determines it. \<open>KeverSamples\<close> holds the sample events the
    witnesses evaluate.

  \<^item> \<open>LmdbKeys\<close> (\<^verbatim>\<open>db/core/keys.ts\<close>), \<open>Lmdber\<close> and
    \<open>LmdberDup\<close> (\<^verbatim>\<open>db/core/lmdber.ts\<close>): keys with fixed-width ordinals and
    the families of values the access layer builds over the engine, a record of operations whose
    documented behaviour is the locale \<open>lmdb_table\<close> of \<open>LmdbLaws\<close>.
    \<open>LmdbIoDup\<close> and \<open>LmdbLog\<close> show that duplicates per ordinal implement the
    ordinal logs of \<open>Baser\<close>, \<open>LmdbSets\<close> that values under ordinals implement
    append-only logs, \<open>LmdbIoSets\<close> that suffixed keys implement lists without repetition.
    The relations bound the hidden ordinals by \<open>2 ^ 53\<close>, where JavaScript numbers are exact.

  \<^item> \<open>Times\<close>: the comparison of the stored time stamps. \<open>Receipts\<close> and
    \<open>ReceiptEscrows\<close> (\<^verbatim>\<open>core/eventing.ts\<close>): the processing of receipts and of the receipts
    attached to events, their escrows and the passes that replay them. \<open>ReceiptFrame\<close> asks for
    the laws of the writes a receipt makes (locale \<open>receipt_frame\<close>) and gives the frame of every
    receipt operation; \<open>ReceiptProps\<close> interprets it for the area a receipt may touch, the
    soundness of the stored receipts and the stillness of the key event logs, and defines the runs of the
    receipt steps; \<open>ReceiptResults\<close> states the properties of those runs.

  \<^item> \<open>Cloning\<close> (\<^verbatim>\<open>db/basing.ts\<close>): the replay of stored events as
    messages with their attachments, per event, per identifier and over a delegation chain. The walk
    over delegators takes fuel: the recursion of the code over an unending chain exhausts the stack, which
    throws, and a walk out of fuel is that error. \<open>CloneProps\<close> reads a cloned message back
    through the group parsers.
  \<^item> \<open>Queries\<close> (\<^verbatim>\<open>core/eventing.ts\<close>): decision, escrow and replay of
    queries, and the sweep over all escrows. \<open>QueryFrame\<close> asks for the laws of the writes of a query
    and of a sweep (locales \<open>query_frame\<close>, \<open>sweep_frame\<close>), gives their frames,
    and defines the runs of a whole node (events, receipts, queries and sweeps); \<open>QueryProps\<close>
    states what such runs preserve.

  \<^item> \<open>Routing\<close> and \<open>Replies\<close> (\<^verbatim>\<open>core/routing.ts\<close>, the reply handlers of
    \<^verbatim>\<open>core/eventing.ts\<close>): route templates and their matching, the router, the acceptance of replies,
    their escrow and its replay. A reply operation keeps the state it has when it throws, because the
    escrow pass catches the exceptions of a replay. \<open>ReplyFrame\<close> gives the frames of these operations from
    the laws of their writes (locales \<open>accept_frame\<close>, \<open>reply_frame\<close>) and extends the runs of a node by
    replies; \<open>ReplyProps\<close> and \<open>ReplyResults\<close> show what routing selects, what endorses an accepted
    reply, and what runs with replies preserve.

  Conventions. A class instance is a record of its fields. The error classes are the datatype
  \<open>cesr_error\<close>; a plain \<open>Error\<close> is \<open>JsError\<close>. Text is a list of
  characters below 256, which is what the formats allow. \<open>JSON.parse\<close> is a parameter of
  the threshold constructor, and the check of a message's SAID one of the replies: the key event
  logic takes decoded bodies.

  In the key event logic the record \<open>env\<close> carries what is outside the source: signature
  verification and digests of the suites (third-party libraries), the clock, \<open>JSON.parse\<close>. An
  action (\<open>act\<close>) maps the database to a result and a database, or to an error; after an
  exception there is no database, so the writes before a throw are not described. One reading of
  the clock serves a whole operation. \<open>fuel\<close> bounds the walk over superseding delegations
  (\<open>recovery_loop\<close>), the only unbounded loop of the machine; a walk out of fuel is an error
  value. The cues of machine and processor form one sequence. Stores keyed by ordinals are ordered
  by number, which the fixed-width keys of the code do below \<open>2 ^ 128\<close>.

  Not modelled. The stream engine above the group parsers, the native layout of message bodies, the
  cryptographic suites (third-party libraries), the LMDB engine (a parameter), the
  application layer (HTTP, mailboxes, command line, workflows), which is
  orchestration of input and output; the manifest lists every part.
\<close>

end
